(* ===== verification/Prelude.thy ===== *)
theory Prelude
  imports Complex_Main
begin

text \<open>
  Shared vocabulary of the development: the Go base types, the clock, the parts of Go's
  standard library the sources use (\<open>time\<close>, \<open>math\<close>, \<open>strings.TrimSpace\<close>, \<open>errors\<close>), the
  early-return combinator for handlers, and generic lemmas on validation tables and lists.

  Conventions.  \<open>int64\<close> and \<open>int\<close> values of the program are mathematical integers; the
  quantities the engine computes are bounded by theorems of the component theories, far
  below the 64-bit range.  \<open>float64\<close> values are reals: rounding, NaN and the infinities are
  not represented (policies reach the program through JSON, which cannot carry NaN or
  infinities).  A \<open>time.Time\<close> is the number of nanoseconds since Go's zero time, so
  \<open>IsZero\<close> is the comparison with 0; a \<open>time.Duration\<close> is a number of nanoseconds.
  Pointers to values are options.
\<close>

type_synonym int64 = int
type_synonym float64 = real
type_synonym time = int
type_synonym duration = int

text \<open>Collections: equations that execute one step of an engine handler, and the facts that
  say which fields a helper leaves alone.\<close>

named_theorems exec_simps
named_theorems frame_simps
named_theorems trace_simps

section \<open>Clock arithmetic of package time\<close>

abbreviation Second :: duration where
  "Second \<equiv> 1000000000"

abbreviation Minute :: duration where
  "Minute \<equiv> 60000000000"

abbreviation Hour :: duration where
  "Hour \<equiv> 3600000000000"

definition maxDuration :: duration where
  "maxDuration = 9223372036854775807"

definition minDuration :: duration where
  "minDuration = - 9223372036854775808"

text \<open>\<open>t.Sub(u)\<close> saturates at the bounds of the 64-bit duration.\<close>

definition timeSub :: "time \<Rightarrow> time \<Rightarrow> duration" where
  "timeSub t u = max minDuration (min maxDuration (t - u))"

text \<open>\<open>t.Truncate(d)\<close> rounds down to a multiple of \<open>d\<close> since the zero time.\<close>

definition timeTruncate :: "time \<Rightarrow> duration \<Rightarrow> time" where
  "timeTruncate t d = (if d \<le> 0 then t else t - t mod d)"

lemma timeSub_le_iff:
  assumes "minDuration \<le> d" "d < maxDuration"
  shows "timeSub t u \<le> d \<longleftrightarrow> t - u \<le> d"
  using assms by (auto simp: timeSub_def minDuration_def maxDuration_def)

lemma timeSub_self [simp]: "timeSub t t = 0"
  by (simp add: timeSub_def minDuration_def maxDuration_def)

lemma timeTruncate_le: "0 < d \<Longrightarrow> timeTruncate t d \<le> t \<and> t < timeTruncate t d + d"
  by (simp add: timeTruncate_def)

section \<open>Functions of package math\<close>

text \<open>\<open>math.Round\<close> rounds half away from zero; the result is converted to \<open>int64\<close> at every
  call site.\<close>

definition goRound :: "float64 \<Rightarrow> int64" where
  "goRound x = (if x < 0 then - \<lfloor>1/2 - x\<rfloor> else \<lfloor>x + 1/2\<rfloor>)"

text \<open>\<open>math.Pow\<close> for a base and an exponent that are not negative.\<close>

definition goPow :: "float64 \<Rightarrow> float64 \<Rightarrow> float64" where
  "goPow x y = (if y = 0 then 1 else x powr y)"

lemma goPow_one [simp]: "goPow 1 y = 1"
  by (simp add: goPow_def)

lemma goPow_zero_exp [simp]: "goPow x 0 = 1"
  by (simp add: goPow_def)

lemma goPow_nonneg: "0 \<le> goPow x y"
  by (simp add: goPow_def)

lemma goPow_mono: "0 \<le> x \<Longrightarrow> x \<le> x' \<Longrightarrow> 0 \<le> y \<Longrightarrow> goPow x y \<le> goPow x' y"
  by (auto simp: goPow_def intro: powr_mono2)

lemma goRound_nonneg: "0 \<le> x \<Longrightarrow> 0 \<le> goRound x"
  by (simp add: goRound_def)

lemma goRound_le: "x \<le> of_int n \<Longrightarrow> 0 \<le> n \<Longrightarrow> goRound x \<le> n"
  by (simp add: goRound_def) linarith

section \<open>White space of package strings\<close>

text \<open>UTF-8 encodings of the runes for which \<open>unicode.IsSpace\<close> holds.\<close>

definition spaceRunes :: "string list" where
  "spaceRunes =
     [[CHR 0x09], [CHR 0x0A], [CHR 0x0B], [CHR 0x0C], [CHR 0x0D], [CHR 0x20],
      [CHR 0xC2, CHR 0x85], [CHR 0xC2, CHR 0xA0], [CHR 0xE1, CHR 0x9A, CHR 0x80],
      [CHR 0xE2, CHR 0x80, CHR 0x80], [CHR 0xE2, CHR 0x80, CHR 0x81],
      [CHR 0xE2, CHR 0x80, CHR 0x82], [CHR 0xE2, CHR 0x80, CHR 0x83],
      [CHR 0xE2, CHR 0x80, CHR 0x84], [CHR 0xE2, CHR 0x80, CHR 0x85],
      [CHR 0xE2, CHR 0x80, CHR 0x86], [CHR 0xE2, CHR 0x80, CHR 0x87],
      [CHR 0xE2, CHR 0x80, CHR 0x88], [CHR 0xE2, CHR 0x80, CHR 0x89],
      [CHR 0xE2, CHR 0x80, CHR 0x8A], [CHR 0xE2, CHR 0x80, CHR 0xA8],
      [CHR 0xE2, CHR 0x80, CHR 0xA9], [CHR 0xE2, CHR 0x80, CHR 0xAF],
      [CHR 0xE2, CHR 0x81, CHR 0x9F], [CHR 0xE3, CHR 0x80, CHR 0x80]]"

fun stripPrefix :: "string \<Rightarrow> string \<Rightarrow> string option" where
  "stripPrefix [] s = Some s"
| "stripPrefix (c # cs) [] = None"
| "stripPrefix (c # cs) (d # ds) = (if c = d then stripPrefix cs ds else None)"

fun stripOne :: "string list \<Rightarrow> string \<Rightarrow> string option" where
  "stripOne [] s = None"
| "stripOne (r # rs) s = (case stripPrefix r s of Some t \<Rightarrow> Some t | None \<Rightarrow> stripOne rs s)"

fun trimWith :: "nat \<Rightarrow> string list \<Rightarrow> string \<Rightarrow> string" where
  "trimWith 0 rs s = s"
| "trimWith (Suc n) rs s =
     (case stripOne rs s of Some t \<Rightarrow> trimWith n rs t | None \<Rightarrow> s)"

text \<open>Every rune stripped is at least one byte, so the length of the string bounds the number
  of rounds.\<close>

definition trimSpace :: "string \<Rightarrow> string" where
  "trimSpace s =
     (let l = trimWith (length s) spaceRunes s
      in rev (trimWith (length l) (map rev spaceRunes) (rev l)))"

lemma trimWith_nil [simp]: "stripOne rs [] = None \<Longrightarrow> trimWith n rs [] = []"
  by (cases n) auto

section \<open>Errors\<close>

text \<open>Error values: the sentinel the engine compares with, a plain message and a wrapped
  error (\<open>fmt.Errorf\<close> with the \<open>w\<close> verb).\<close>

datatype goerr = ErrDecisionSuperseded | ErrText string | ErrWrap string goerr

fun errorsIs :: "goerr \<Rightarrow> goerr \<Rightarrow> bool" where
  "errorsIs (ErrWrap m e) t \<longleftrightarrow> ErrWrap m e = t \<or> errorsIs e t"
| "errorsIs e t \<longleftrightarrow> e = t"

fun errorText :: "goerr \<Rightarrow> string" where
  "errorText ErrDecisionSuperseded = ''automatic decision or configuration changed''"
| "errorText (ErrText m) = m"
| "errorText (ErrWrap m e) = m @ '': '' @ errorText e"

section \<open>Early return\<close>

text \<open>A handler is a sequence of stages; a stage either returns from the handler (\<open>Done\<close>) or
  hands the variables to the next stage (\<open>Next\<close>).\<close>

datatype 'a flow = Done 'a | Next 'a

fun andThen :: "'a flow \<Rightarrow> ('a \<Rightarrow> 'a flow) \<Rightarrow> 'a flow" where
  "andThen (Done x) f = Done x"
| "andThen (Next x) f = f x"

fun flowVal :: "'a flow \<Rightarrow> 'a" where
  "flowVal (Done x) = x"
| "flowVal (Next x) = x"

lemma flow_all_andThen:
  assumes "P (flowVal m)" and "\<And>x. m = Next x \<Longrightarrow> P x \<Longrightarrow> P (flowVal (f x))"
  shows "P (flowVal (andThen m f))"
  using assms by (cases m) auto

section \<open>Validation tables\<close>

text \<open>A validation routine is a sequence of guarded assignments to the map of error messages,
  in the order of the code: a later message replaces an earlier one under the same key.\<close>

type_synonym checks = "(bool \<times> string \<times> string) list"

definition addError :: "(string \<rightharpoonup> string) \<Rightarrow> bool \<times> string \<times> string \<Rightarrow> (string \<rightharpoonup> string)" where
  "addError e c = (case c of (bad, key, msg) \<Rightarrow> if bad then e(key \<mapsto> msg) else e)"

definition runChecks :: "(string \<rightharpoonup> string) \<Rightarrow> checks \<Rightarrow> (string \<rightharpoonup> string)" where
  "runChecks e cs = foldl addError e cs"

definition allPass :: "checks \<Rightarrow> bool" where
  "allPass cs \<longleftrightarrow> (\<forall>c \<in> set cs. \<not> fst c)"

lemma allPass_simps [simp]:
  "allPass []"
  "allPass (c # cs) \<longleftrightarrow> \<not> fst c \<and> allPass cs"
  "allPass (as @ bs) \<longleftrightarrow> allPass as \<and> allPass bs"
  by (auto simp: allPass_def)

lemma runChecks_Nil [simp]: "runChecks e [] = e"
  by (simp add: runChecks_def)

lemma runChecks_append: "runChecks e (as @ bs) = runChecks (runChecks e as) bs"
  by (simp add: runChecks_def)

lemma runChecks_Cons [simp]:
  "runChecks e ((bad, key, msg) # cs) = runChecks (if bad then e(key \<mapsto> msg) else e) cs"
  by (simp add: runChecks_def addError_def)

lemma dom_runChecks: "dom (runChecks e cs) = dom e \<union> {key. \<exists>msg. (True, key, msg) \<in> set cs}"
proof (induction cs arbitrary: e)
  case Nil
  show ?case by simp
next
  case (Cons c cs)
  obtain bad key msg where c: "c = (bad, key, msg)" by (cases c)
  show ?case unfolding c by (cases bad) (auto simp: Cons.IH split: if_splits)
qed

text \<open>A validation reports nothing exactly when no guard fires.\<close>

lemma runChecks_empty_iff: "runChecks e cs = Map.empty \<longleftrightarrow> e = Map.empty \<and> allPass cs"
proof -
  have "runChecks e cs = Map.empty \<longleftrightarrow> dom (runChecks e cs) = {}" by auto
  also have "\<dots> \<longleftrightarrow> dom e = {} \<and> {key. \<exists>msg. (True, key, msg) \<in> set cs} = {}"
    by (simp add: dom_runChecks)
  also have "\<dots> \<longleftrightarrow> e = Map.empty \<and> allPass cs"
    by (auto simp: allPass_def)
  finally show ?thesis .
qed

section \<open>Go maps\<close>

text \<open>A Go map with a fixed iteration order is an association list; reading an absent key of a
  string-valued map gives the empty string.\<close>

definition strAt :: "('k \<times> string) list \<Rightarrow> 'k \<Rightarrow> string" where
  "strAt m k = (case map_of m k of None \<Rightarrow> [] | Some v \<Rightarrow> v)"

lemma strAt_simps [simp]:
  "strAt [] k = []"
  "strAt ((k', v) # m) k = (if k = k' then v else strAt m k)"
  by (simp_all add: strAt_def)

end
