(* ===== verification/Policy.thy ===== *)
theory Policy
  imports Prelude
begin

text \<open>
  The tuning policy: \<open>server/internal/tuning/model.go\<close> (scheduling and continuous parameters,
  the default policy, validation), \<open>business_rules.go\<close> (operator-adjustable rules) and
  \<open>probe_selection.go\<close>.  The lemmas say what an accepted policy guarantees; the later theories
  use them through the collection \<open>policy_dest\<close>.
\<close>

named_theorems policy_dest

section \<open>Operator-adjustable rules\<close>

record ContinuousRules =
  r_ChannelHistoryRetentionDays :: int64
  r_RecoverySpeedExponent :: float64
  r_RecoveryIntervalSeconds :: int64
  r_EvaluationIntervalSeconds :: int64
  r_RoutineProbeEnabled :: bool
  r_RoutineIntervalSeconds :: int64
  r_ProbeTimeoutSeconds :: int64
  r_ProbeSlowLimit :: int64
  r_RoutineErrorLimit :: int64
  r_ProbeMaxAgeSeconds :: int64
  r_BaselineMinChannels :: int64
  r_OutputMinTokens :: int64
  r_CacheMinTokens :: int64
  r_ErrorAlpha :: float64
  r_ErrorSettleSeconds :: int64
  r_ErrorLookbackMinutes :: int64
  r_CapacityTargetUtilization :: float64
  r_CapacityReleaseUtilization :: float64
  r_CapacityPeerUtilization :: float64
  r_CapacityOverloadSeconds :: int64
  r_CapacityRecoverySeconds :: int64
  r_CapacityFeedbackSeconds :: int64
  r_CapacityMaxAgeSeconds :: int64
  r_CapacitySampleGapSeconds :: int64
  r_CapacityMinWeight :: int64
  r_WritePauseAttempts :: int64
  r_WriteMaxAttempts :: int64
  r_WriteRetrySeconds :: int64
  r_ExternalWriteGraceSeconds :: int64
  r_RecoveryRoundSeconds :: int64
  r_RecoveryLostSeconds :: int64
  r_RecoverySpeedMinFactor :: float64
  r_RecoveryMinWeight :: int64
  r_FastReportMaxAgeSeconds :: int64
  r_FastReportFutureSeconds :: int64
  r_ObserveDeadbandPercent :: float64


text \<open>The zero value of the struct.\<close>

definition zeroContinuousRules :: ContinuousRules where
  "zeroContinuousRules = \<lparr>
     r_ChannelHistoryRetentionDays = 0,
     r_RecoverySpeedExponent = 0,
     r_RecoveryIntervalSeconds = 0,
     r_EvaluationIntervalSeconds = 0,
     r_RoutineProbeEnabled = False,
     r_RoutineIntervalSeconds = 0,
     r_ProbeTimeoutSeconds = 0,
     r_ProbeSlowLimit = 0,
     r_RoutineErrorLimit = 0,
     r_ProbeMaxAgeSeconds = 0,
     r_BaselineMinChannels = 0,
     r_OutputMinTokens = 0,
     r_CacheMinTokens = 0,
     r_ErrorAlpha = 0,
     r_ErrorSettleSeconds = 0,
     r_ErrorLookbackMinutes = 0,
     r_CapacityTargetUtilization = 0,
     r_CapacityReleaseUtilization = 0,
     r_CapacityPeerUtilization = 0,
     r_CapacityOverloadSeconds = 0,
     r_CapacityRecoverySeconds = 0,
     r_CapacityFeedbackSeconds = 0,
     r_CapacityMaxAgeSeconds = 0,
     r_CapacitySampleGapSeconds = 0,
     r_CapacityMinWeight = 0,
     r_WritePauseAttempts = 0,
     r_WriteMaxAttempts = 0,
     r_WriteRetrySeconds = 0,
     r_ExternalWriteGraceSeconds = 0,
     r_RecoveryRoundSeconds = 0,
     r_RecoveryLostSeconds = 0,
     r_RecoverySpeedMinFactor = 0,
     r_RecoveryMinWeight = 0,
     r_FastReportMaxAgeSeconds = 0,
     r_FastReportFutureSeconds = 0,
     r_ObserveDeadbandPercent = 0\<rparr>"


definition DefaultContinuousRules :: ContinuousRules where
  "DefaultContinuousRules = \<lparr>
     r_ChannelHistoryRetentionDays = 7,
     r_RecoverySpeedExponent = 0.5,
     r_RecoveryIntervalSeconds = 0,
     r_EvaluationIntervalSeconds = 30,
     r_RoutineProbeEnabled = True,
     r_RoutineIntervalSeconds = 10,
     r_ProbeTimeoutSeconds = 30,
     r_ProbeSlowLimit = 2,
     r_RoutineErrorLimit = 3,
     r_ProbeMaxAgeSeconds = 90,
     r_BaselineMinChannels = 2,
     r_OutputMinTokens = 100,
     r_CacheMinTokens = 10000,
     r_ErrorAlpha = 0.3,
     r_ErrorSettleSeconds = 90,
     r_ErrorLookbackMinutes = 15,
     r_CapacityTargetUtilization = 0.9,
     r_CapacityReleaseUtilization = 0.85,
     r_CapacityPeerUtilization = 0.85,
     r_CapacityOverloadSeconds = 60,
     r_CapacityRecoverySeconds = 60,
     r_CapacityFeedbackSeconds = 60,
     r_CapacityMaxAgeSeconds = 90,
     r_CapacitySampleGapSeconds = 60,
     r_CapacityMinWeight = 1,
     r_WritePauseAttempts = 3,
     r_WriteMaxAttempts = 5,
     r_WriteRetrySeconds = 600,
     r_ExternalWriteGraceSeconds = 120,
     r_RecoveryRoundSeconds = 480,
     r_RecoveryLostSeconds = 600,
     r_RecoverySpeedMinFactor = 0.1,
     r_RecoveryMinWeight = 1,
     r_FastReportMaxAgeSeconds = 120,
     r_FastReportFutureSeconds = 60,
     r_ObserveDeadbandPercent = 5\<rparr>"


text \<open>One row of the range table of \<open>validateContinuousRules\<close>.\<close>

definition rangeCheck :: "string \<Rightarrow> float64 \<Rightarrow> float64 \<Rightarrow> float64 \<Rightarrow> bool \<times> string \<times> string" where
  "rangeCheck key v lo hi = (v < lo \<or> v > hi, ''continuous.'' @ key, ''outside_allowed_range'')"

definition ruleRangeChecks :: "ContinuousRules \<Rightarrow> checks" where
  "ruleRangeChecks r = [
      rangeCheck ''recovery_speed_exponent'' (r_RecoverySpeedExponent r) 0 2,
      rangeCheck ''channel_history_retention_days'' (of_int (r_ChannelHistoryRetentionDays r)) 1 365,
      rangeCheck ''recovery_interval_seconds'' (of_int (r_RecoveryIntervalSeconds r)) 0 3600,
      rangeCheck ''evaluation_interval_seconds'' (of_int (r_EvaluationIntervalSeconds r)) 1 3600,
      rangeCheck ''routine_interval_seconds'' (of_int (r_RoutineIntervalSeconds r)) 1 3600,
      rangeCheck ''probe_timeout_seconds'' (of_int (r_ProbeTimeoutSeconds r)) 1 300,
      rangeCheck ''probe_slow_limit'' (of_int (r_ProbeSlowLimit r)) 1 100,
      rangeCheck ''routine_error_limit'' (of_int (r_RoutineErrorLimit r)) 1 100,
      rangeCheck ''probe_max_age_seconds'' (of_int (r_ProbeMaxAgeSeconds r)) 1 86400,
      rangeCheck ''baseline_min_channels'' (of_int (r_BaselineMinChannels r)) 1 100,
      rangeCheck ''output_min_tokens'' (of_int (r_OutputMinTokens r)) 1 1000000000,
      rangeCheck ''cache_min_tokens'' (of_int (r_CacheMinTokens r)) 1 1000000000,
      rangeCheck ''error_alpha'' (r_ErrorAlpha r) 0.01 1,
      rangeCheck ''error_settle_seconds'' (of_int (r_ErrorSettleSeconds r)) 0 3600,
      rangeCheck ''error_lookback_minutes'' (of_int (r_ErrorLookbackMinutes r)) 1 2880,
      rangeCheck ''capacity_target_utilization'' (r_CapacityTargetUtilization r) 0.01 1,
      rangeCheck ''capacity_release_utilization'' (r_CapacityReleaseUtilization r) 0.01 1,
      rangeCheck ''capacity_peer_utilization'' (r_CapacityPeerUtilization r) 0.01 1,
      rangeCheck ''capacity_overload_seconds'' (of_int (r_CapacityOverloadSeconds r)) 1 3600,
      rangeCheck ''capacity_recovery_seconds'' (of_int (r_CapacityRecoverySeconds r)) 1 3600,
      rangeCheck ''capacity_feedback_seconds'' (of_int (r_CapacityFeedbackSeconds r)) 60 3600,
      rangeCheck ''capacity_max_age_seconds'' (of_int (r_CapacityMaxAgeSeconds r)) 1 3600,
      rangeCheck ''capacity_sample_gap_seconds'' (of_int (r_CapacitySampleGapSeconds r)) 1 3600,
      rangeCheck ''capacity_min_weight'' (of_int (r_CapacityMinWeight r)) 0 1000000,
      rangeCheck ''write_pause_attempts'' (of_int (r_WritePauseAttempts r)) 1 100,
      rangeCheck ''write_max_attempts'' (of_int (r_WriteMaxAttempts r)) 1 100,
      rangeCheck ''write_retry_seconds'' (of_int (r_WriteRetrySeconds r)) 1 86400,
      rangeCheck ''external_write_grace_seconds'' (of_int (r_ExternalWriteGraceSeconds r)) 0 3600,
      rangeCheck ''recovery_round_seconds'' (of_int (r_RecoveryRoundSeconds r)) 1 86400,
      rangeCheck ''recovery_lost_seconds'' (of_int (r_RecoveryLostSeconds r)) 1 172800,
      rangeCheck ''recovery_speed_min_factor'' (r_RecoverySpeedMinFactor r) 0.01 1,
      rangeCheck ''recovery_min_weight'' (of_int (r_RecoveryMinWeight r)) 1 1000000,
      rangeCheck ''fast_report_max_age_seconds'' (of_int (r_FastReportMaxAgeSeconds r)) 1 3600,
      rangeCheck ''fast_report_future_seconds'' (of_int (r_FastReportFutureSeconds r)) 0 3600,
      rangeCheck ''observe_deadband_percent'' (r_ObserveDeadbandPercent r) 0 100]"


definition ruleOrderChecks :: "ContinuousRules \<Rightarrow> checks" where
  "ruleOrderChecks r = [
      (r_WriteMaxAttempts r < r_WritePauseAttempts r,
        ''continuous.write_max_attempts'', ''must_be_at_least_pause_attempts''),
      (r_RecoveryLostSeconds r \<le> r_RecoveryRoundSeconds r,
        ''continuous.recovery_lost_seconds'', ''must_exceed_round_timeout''),
      (r_CapacityReleaseUtilization r > r_CapacityTargetUtilization r,
        ''continuous.capacity_release_utilization'', ''must_not_exceed_target_utilization'')]"

definition validateContinuousRules ::
    "ContinuousRules \<Rightarrow> (string \<rightharpoonup> string) \<Rightarrow> (string \<rightharpoonup> string)" where
  "validateContinuousRules r e = runChecks e (ruleRangeChecks r @ ruleOrderChecks r)"

section \<open>Continuous dispatch parameters\<close>

record ContinuousDispatchParams =
  p_ContinuousRules :: ContinuousRules
  p_RoutineProbeSelectedOnly :: bool
  p_RoutineProbeChannelIDs :: "int64 list"
  p_Sensitivity :: float64
  p_SpeedExponent :: float64
  p_SpeedP50Weight :: float64
  p_SpeedP90Weight :: float64
  p_SpeedP95Weight :: float64
  p_SpeedMinFactor :: float64
  p_SpeedMaxFactor :: float64
  p_CacheExponent :: float64
  p_CacheMinFactor :: float64
  p_CacheMaxFactor :: float64
  p_OTPSExponent :: float64
  p_OTPSMinFactor :: float64
  p_OTPSMaxFactor :: float64
  p_ProbeSpeedExponent :: float64
  p_ProbeSpeedMinFactor :: float64
  p_ProbeSpeedMaxFactor :: float64
  p_ErrorHealthyRate :: float64
  p_ErrorDegradedRate :: float64
  p_ErrorPoorRate :: float64
  p_ErrorFloorRate :: float64
  p_ErrorDegradedFactor :: float64
  p_ErrorPoorFactor :: float64
  p_ErrorMinFactor :: float64
  p_CombinedMinFactor :: float64
  p_CombinedMaxFactor :: float64
  p_MaxIncreasePercent :: float64
  p_CapacityMaxDecreasePercent :: float64
  p_CircuitThreshold :: float64
  p_RecoveryThreshold :: float64
  p_CircuitErrorRate :: float64
  p_RecoveryErrorRate :: float64
  p_SilentMinutes :: int64
  p_ProbeIntervalSeconds :: int64
  p_ProbeCount :: int64
  p_SoftStartMultiplier :: float64
  p_WindowMinutes :: int64
  p_MinSamples :: int64
  p_SparseLookbackMinutes :: int64
  p_FastCircuitEnabled :: bool
  p_FastCircuitMinSamples :: int64
  p_FastCircuitErrorRate :: float64

definition zeroContinuousDispatchParams :: ContinuousDispatchParams where
  "zeroContinuousDispatchParams = \<lparr>
     p_ContinuousRules = zeroContinuousRules,
     p_RoutineProbeSelectedOnly = False,
     p_RoutineProbeChannelIDs = [],
     p_Sensitivity = 0,
     p_SpeedExponent = 0,
     p_SpeedP50Weight = 0,
     p_SpeedP90Weight = 0,
     p_SpeedP95Weight = 0,
     p_SpeedMinFactor = 0,
     p_SpeedMaxFactor = 0,
     p_CacheExponent = 0,
     p_CacheMinFactor = 0,
     p_CacheMaxFactor = 0,
     p_OTPSExponent = 0,
     p_OTPSMinFactor = 0,
     p_OTPSMaxFactor = 0,
     p_ProbeSpeedExponent = 0,
     p_ProbeSpeedMinFactor = 0,
     p_ProbeSpeedMaxFactor = 0,
     p_ErrorHealthyRate = 0,
     p_ErrorDegradedRate = 0,
     p_ErrorPoorRate = 0,
     p_ErrorFloorRate = 0,
     p_ErrorDegradedFactor = 0,
     p_ErrorPoorFactor = 0,
     p_ErrorMinFactor = 0,
     p_CombinedMinFactor = 0,
     p_CombinedMaxFactor = 0,
     p_MaxIncreasePercent = 0,
     p_CapacityMaxDecreasePercent = 0,
     p_CircuitThreshold = 0,
     p_RecoveryThreshold = 0,
     p_CircuitErrorRate = 0,
     p_RecoveryErrorRate = 0,
     p_SilentMinutes = 0,
     p_ProbeIntervalSeconds = 0,
     p_ProbeCount = 0,
     p_SoftStartMultiplier = 0,
     p_WindowMinutes = 0,
     p_MinSamples = 0,
     p_SparseLookbackMinutes = 0,
     p_FastCircuitEnabled = False,
     p_FastCircuitMinSamples = 0,
     p_FastCircuitErrorRate = 0\<rparr>"

definition DefaultContinuous :: ContinuousDispatchParams where
  "DefaultContinuous = \<lparr>
     p_ContinuousRules = DefaultContinuousRules,
     p_RoutineProbeSelectedOnly = False,
     p_RoutineProbeChannelIDs = [],
     p_Sensitivity = 1,
     p_SpeedExponent = 0.35,
     p_SpeedP50Weight = 0.50,
     p_SpeedP90Weight = 0.30,
     p_SpeedP95Weight = 0.20,
     p_SpeedMinFactor = 0.75,
     p_SpeedMaxFactor = 1.25,
     p_CacheExponent = 0.15,
     p_CacheMinFactor = 0.90,
     p_CacheMaxFactor = 1.10,
     p_OTPSExponent = 0.25,
     p_OTPSMinFactor = 0.80,
     p_OTPSMaxFactor = 1.20,
     p_ProbeSpeedExponent = 0.25,
     p_ProbeSpeedMinFactor = 0.8,
     p_ProbeSpeedMaxFactor = 1.2,
     p_ErrorHealthyRate = 0.01,
     p_ErrorDegradedRate = 0.05,
     p_ErrorPoorRate = 0.15,
     p_ErrorFloorRate = 0.30,
     p_ErrorDegradedFactor = 0.85,
     p_ErrorPoorFactor = 0.50,
     p_ErrorMinFactor = 0.20,
     p_CombinedMinFactor = 0.50,
     p_CombinedMaxFactor = 1.50,
     p_MaxIncreasePercent = 10,
     p_CapacityMaxDecreasePercent = 25,
     p_CircuitThreshold = 0.1,
     p_RecoveryThreshold = 0.2,
     p_CircuitErrorRate = 0.30,
     p_RecoveryErrorRate = 0.10,
     p_SilentMinutes = 5,
     p_ProbeIntervalSeconds = 0,
     p_ProbeCount = 10,
     p_SoftStartMultiplier = 0.2,
     p_WindowMinutes = 15,
     p_MinSamples = 20,
     p_SparseLookbackMinutes = 360,
     p_FastCircuitEnabled = True,
     p_FastCircuitMinSamples = 50,
     p_FastCircuitErrorRate = 0.50\<rparr>"

text \<open>\<open>p.Rules()\<close>: a policy stored before the rules existed carries the zero value and gets the
  defaults.\<close>

definition Rules :: "ContinuousDispatchParams \<Rightarrow> ContinuousRules" where
  "Rules p = (if p_ContinuousRules p = zeroContinuousRules then DefaultContinuousRules
              else p_ContinuousRules p)"

definition RoutineProbeEnabledFor :: "ContinuousDispatchParams \<Rightarrow> int64 \<Rightarrow> bool" where
  "RoutineProbeEnabledFor p channel \<longleftrightarrow>
     r_RoutineProbeEnabled (Rules p) \<and>
     (\<not> p_RoutineProbeSelectedOnly p \<or> channel \<in> set (p_RoutineProbeChannelIDs p))"

text \<open>The loop over the selected channels stops at the first identifier that is out of range or
  was seen before.\<close>

fun probeSelectionBad :: "int64 list \<Rightarrow> int64 list \<Rightarrow> bool" where
  "probeSelectionBad seen [] = False"
| "probeSelectionBad seen (i # is) =
     (i \<le> 0 \<or> i > 9007199254740991 \<or> i \<in> set seen \<or> probeSelectionBad (i # seen) is)"

definition validateProbeSelection ::
    "ContinuousDispatchParams \<Rightarrow> (string \<rightharpoonup> string) \<Rightarrow> (string \<rightharpoonup> string)" where
  "validateProbeSelection p e =
     (if length (p_RoutineProbeChannelIDs p) > 10000
      then e(''continuous.routine_probe_channel_ids'' \<mapsto> ''too_many_channels'')
      else if probeSelectionBad [] (p_RoutineProbeChannelIDs p)
      then e(''continuous.routine_probe_channel_ids'' \<mapsto> ''must_be_unique_positive_safe_integers'')
      else e)"

section \<open>The policy\<close>

record SchedulingParams =
  sch_WindowMinutes :: int64
  sch_MinSamples :: int64
  sch_SparseMinSamples :: int64
  sch_SparseLookbackMinutes :: int64

record Policy =
  pol_Scheduling :: SchedulingParams
  pol_DispatchModes :: "(string \<times> string) list"
  pol_Continuous :: ContinuousDispatchParams

definition DefaultPolicy :: Policy where
  "DefaultPolicy = \<lparr>
     pol_Scheduling = \<lparr>sch_WindowMinutes = 15, sch_MinSamples = 20, sch_SparseMinSamples = 10,
                       sch_SparseLookbackMinutes = 360\<rparr>,
     pol_DispatchModes = [],
     pol_Continuous = DefaultContinuous\<rparr>"

definition outside :: "float64 \<Rightarrow> float64 \<Rightarrow> float64 \<Rightarrow> bool" where
  "outside lo hi x \<longleftrightarrow> x < lo \<or> x > hi"

text \<open>A factor range must have its lower end in \<open>(0, 1]\<close>, its upper end in \<open>[1, hi]\<close> and be
  ordered.\<close>

definition badFactorRange :: "float64 \<Rightarrow> float64 \<Rightarrow> float64 \<Rightarrow> bool" where
  "badFactorRange hi lo up \<longleftrightarrow> lo \<le> 0 \<or> lo > 1 \<or> up < 1 \<or> up > hi \<or> up \<le> lo"

definition factorChecks :: "ContinuousDispatchParams \<Rightarrow> checks" where
  "factorChecks c = [
      (p_Sensitivity c \<le> 0 \<or> p_Sensitivity c > 5,
        ''continuous.sensitivity'', ''must_be_greater_than_0_and_at_most_5''),
      (p_SpeedExponent c \<le> 0 \<or> p_SpeedExponent c > 2,
        ''continuous.speed_exponent'', ''must_be_greater_than_0_and_at_most_2''),
      (outside 0 1 (p_SpeedP50Weight c) \<or> outside 0 1 (p_SpeedP90Weight c) \<or>
       outside 0 1 (p_SpeedP95Weight c) \<or>
       \<bar>p_SpeedP50Weight c + p_SpeedP90Weight c + p_SpeedP95Weight c - 1\<bar> > 1 / 10 ^ 9,
        ''continuous.speed_percentile_weights'', ''must_be_between_0_and_1_and_sum_to_1''),
      (p_SpeedMinFactor c \<le> 0 \<or> p_SpeedMinFactor c > 1,
        ''continuous.speed_min_factor'', ''must_be_greater_than_0_and_at_most_1''),
      (p_SpeedMaxFactor c < 1 \<or> p_SpeedMaxFactor c > 3 \<or> p_SpeedMaxFactor c \<le> p_SpeedMinFactor c,
        ''continuous.speed_max_factor'', ''must_be_greater_than_min_and_between_1_and_3''),
      (p_CacheExponent c \<le> 0 \<or> p_CacheExponent c > 2,
        ''continuous.cache_exponent'', ''must_be_greater_than_0_and_at_most_2''),
      (badFactorRange 3 (p_CacheMinFactor c) (p_CacheMaxFactor c),
        ''continuous.cache_factor_range'', ''must_include_1_and_be_ordered''),
      (p_ProbeSpeedExponent c < 0 \<or> p_ProbeSpeedExponent c > 2,
        ''continuous.probe_speed_exponent'', ''must_be_between_0_and_2''),
      (badFactorRange 3 (p_ProbeSpeedMinFactor c) (p_ProbeSpeedMaxFactor c),
        ''continuous.probe_speed_factor_range'', ''must_include_1_and_be_ordered''),
      (p_OTPSExponent c \<le> 0 \<or> p_OTPSExponent c > 2,
        ''continuous.otps_exponent'', ''must_be_greater_than_0_and_at_most_2''),
      (badFactorRange 3 (p_OTPSMinFactor c) (p_OTPSMaxFactor c),
        ''continuous.otps_factor_range'', ''must_include_1_and_be_ordered''),
      (p_ErrorHealthyRate c < 0 \<or> p_ErrorDegradedRate c \<le> p_ErrorHealthyRate c \<or>
       p_ErrorPoorRate c \<le> p_ErrorDegradedRate c \<or> p_ErrorFloorRate c \<le> p_ErrorPoorRate c \<or>
       p_ErrorFloorRate c > 1,
        ''continuous.error_rate_breakpoints'', ''must_be_strictly_increasing_between_0_and_1''),
      (p_ErrorDegradedFactor c \<le> 0 \<or> p_ErrorDegradedFactor c \<ge> 1 \<or> p_ErrorPoorFactor c \<le> 0 \<or>
       p_ErrorPoorFactor c \<ge> p_ErrorDegradedFactor c \<or> p_ErrorMinFactor c \<le> 0 \<or>
       p_ErrorMinFactor c \<ge> p_ErrorPoorFactor c,
        ''continuous.error_factors'', ''must_be_strictly_decreasing_between_0_and_1''),
      (badFactorRange 5 (p_CombinedMinFactor c) (p_CombinedMaxFactor c),
        ''continuous.combined_factor_range'', ''must_include_1_and_be_ordered'')]"

definition controlChecks :: "ContinuousDispatchParams \<Rightarrow> checks" where
  "controlChecks c = [
      (outside 1 100 (p_MaxIncreasePercent c),
        ''continuous.max_increase_percent'', ''must_be_between_1_and_100''),
      (outside 1 100 (p_CapacityMaxDecreasePercent c),
        ''continuous.capacity_max_decrease_percent'', ''must_be_between_1_and_100''),
      (p_CircuitThreshold c \<le> 0 \<or> p_CircuitThreshold c \<ge> p_RecoveryThreshold c,
        ''continuous.circuit_threshold'', ''must_be_positive_and_less_than_recovery''),
      (p_RecoveryThreshold c > 1,
        ''continuous.recovery_threshold'', ''must_be_at_most_1''),
      (p_CircuitErrorRate c \<le> 0 \<or> p_CircuitErrorRate c > 1,
        ''continuous.circuit_error_rate'', ''must_be_between_0_and_1''),
      (p_RecoveryErrorRate c < 0 \<or> p_RecoveryErrorRate c \<ge> p_CircuitErrorRate c,
        ''continuous.recovery_error_rate'', ''must_be_nonnegative_and_less_than_circuit_error_rate''),
      (p_SilentMinutes c < 1 \<or> p_SilentMinutes c > 1440,
        ''continuous.silent_minutes'', ''must_be_between_1_and_1440''),
      (p_ProbeIntervalSeconds c < 0 \<or> p_ProbeCount c < 1,
        ''continuous.probe'', ''must_be_positive''),
      (p_SoftStartMultiplier c \<le> 0 \<or> p_SoftStartMultiplier c > 1,
        ''continuous.soft_start_multiplier'', ''must_be_greater_than_0_and_at_most_1''),
      (p_WindowMinutes c < 1 \<or> p_WindowMinutes c > 1440,
        ''continuous.window_minutes'', ''must_be_between_1_and_1440''),
      (p_MinSamples c < 1,
        ''continuous.min_samples'', ''must_be_positive''),
      (p_FastCircuitMinSamples c < 1 \<or> p_FastCircuitMinSamples c > 100000,
        ''continuous.fast_circuit_min_samples'', ''must_be_between_1_and_100000''),
      (p_FastCircuitErrorRate c \<le> 0 \<or> p_FastCircuitErrorRate c > 1,
        ''continuous.fast_circuit_error_rate'', ''must_be_greater_than_0_and_at_most_1''),
      (p_SparseLookbackMinutes c < p_WindowMinutes c \<or> p_SparseLookbackMinutes c > 2880,
        ''continuous.sparse_lookback_minutes'', ''must_be_between_window_and_2880'')]"

definition schedulingChecks :: "SchedulingParams \<Rightarrow> checks" where
  "schedulingChecks s = [
      (sch_WindowMinutes s < 1 \<or> sch_WindowMinutes s > 2880,
        ''scheduling.window_minutes'', ''must_be_between_1_and_2880''),
      (sch_MinSamples s < 1 \<or> sch_MinSamples s > 1000,
        ''scheduling.min_samples'', ''must_be_between_1_and_1000''),
      (sch_SparseMinSamples s < 1 \<or> sch_SparseMinSamples s > sch_MinSamples s,
        ''scheduling.sparse_min_samples'', ''must_be_between_1_and_min_samples''),
      (sch_SparseLookbackMinutes s < sch_WindowMinutes s \<or> sch_SparseLookbackMinutes s > 2880,
        ''scheduling.sparse_lookback_minutes'', ''must_be_between_window_minutes_and_2880'')]"

fun modeChecks :: "(string \<times> string) list \<Rightarrow> checks" where
  "modeChecks [] = []"
| "modeChecks ((model, mode) # ms) =
     (trimSpace model = [], ''dispatch_modes'', ''model_must_not_be_empty'') #
     (mode \<noteq> ''off'' \<and> mode \<noteq> ''observe'' \<and> mode \<noteq> ''auto'',
        ''dispatch_modes.'' @ model, ''must_be_off_observe_or_auto'') # modeChecks ms"

definition Validate :: "Policy \<Rightarrow> (string \<rightharpoonup> string)" where
  "Validate p =
     (let c = pol_Continuous p;
          e = validateProbeSelection c
                (validateContinuousRules (p_ContinuousRules c) Map.empty)
      in runChecks e (factorChecks c @ controlChecks c @ schedulingChecks (pol_Scheduling p) @
                      modeChecks (pol_DispatchModes p)))"

section \<open>What an accepted policy guarantees\<close>

lemma validateProbeSelection_empty_iff:
  "validateProbeSelection c e = Map.empty \<longleftrightarrow>
     e = Map.empty \<and> length (p_RoutineProbeChannelIDs c) \<le> 10000 \<and>
     \<not> probeSelectionBad [] (p_RoutineProbeChannelIDs c)"
  by (auto simp: validateProbeSelection_def)

lemma Validate_empty_iff:
  "Validate p = Map.empty \<longleftrightarrow>
     allPass (ruleRangeChecks (p_ContinuousRules (pol_Continuous p))) \<and>
     allPass (ruleOrderChecks (p_ContinuousRules (pol_Continuous p))) \<and>
     length (p_RoutineProbeChannelIDs (pol_Continuous p)) \<le> 10000 \<and>
     \<not> probeSelectionBad [] (p_RoutineProbeChannelIDs (pol_Continuous p)) \<and>
     allPass (factorChecks (pol_Continuous p)) \<and> allPass (controlChecks (pol_Continuous p)) \<and>
     allPass (schedulingChecks (pol_Scheduling p)) \<and> allPass (modeChecks (pol_DispatchModes p))"
  by (auto simp: Validate_def Let_def runChecks_empty_iff validateProbeSelection_empty_iff
      validateContinuousRules_def)

lemma probeSelection_ok_iff:
  "\<not> probeSelectionBad seen ids \<longleftrightarrow>
     distinct ids \<and> set ids \<inter> set seen = {} \<and> (\<forall>i \<in> set ids. 0 < i \<and> i \<le> 9007199254740991)"
  by (induction ids arbitrary: seen) auto

text \<open>The parameters of the continuous engine as an accepted policy leaves them: the shape the
  engine's theorems assume.\<close>

definition wfParams :: "ContinuousDispatchParams \<Rightarrow> bool" where
  "wfParams c \<longleftrightarrow> allPass (ruleRangeChecks (p_ContinuousRules c)) \<and>
     allPass (ruleOrderChecks (p_ContinuousRules c)) \<and>
     allPass (factorChecks c) \<and> allPass (controlChecks c)"

lemma Validate_wfParams [policy_dest]: "Validate p = Map.empty \<Longrightarrow> wfParams (pol_Continuous p)"
  by (simp add: Validate_empty_iff wfParams_def)

lemma wfParams_rules_not_zero: "wfParams c \<Longrightarrow> p_ContinuousRules c \<noteq> zeroContinuousRules"
  by (auto simp: wfParams_def ruleRangeChecks_def rangeCheck_def zeroContinuousRules_def)

lemma wfParams_Rules [simp]: "wfParams c \<Longrightarrow> Rules c = p_ContinuousRules c"
  using wfParams_rules_not_zero by (simp add: Rules_def)

lemma wfParams_factor_ranges [policy_dest]:
  assumes "wfParams c"
  shows "0 < p_SpeedMinFactor c" "p_SpeedMinFactor c \<le> 1" "1 \<le> p_SpeedMaxFactor c" "p_SpeedMaxFactor c \<le> 3"
    and "0 < p_CacheMinFactor c" "p_CacheMinFactor c \<le> 1" "1 \<le> p_CacheMaxFactor c" "p_CacheMaxFactor c \<le> 3"
    and "0 < p_OTPSMinFactor c" "p_OTPSMinFactor c \<le> 1" "1 \<le> p_OTPSMaxFactor c" "p_OTPSMaxFactor c \<le> 3"
    and "0 < p_ProbeSpeedMinFactor c" "p_ProbeSpeedMinFactor c \<le> 1" "1 \<le> p_ProbeSpeedMaxFactor c"
      "p_ProbeSpeedMaxFactor c \<le> 3"
    and "0 < p_CombinedMinFactor c" "p_CombinedMinFactor c \<le> 1" "1 \<le> p_CombinedMaxFactor c"
      "p_CombinedMaxFactor c \<le> 5"
  using assms by (auto simp: wfParams_def factorChecks_def badFactorRange_def)

lemma wfParams_error_rates [policy_dest]:
  assumes "wfParams c"
  shows "0 \<le> p_ErrorHealthyRate c" "p_ErrorHealthyRate c < p_ErrorDegradedRate c"
    "p_ErrorDegradedRate c < p_ErrorPoorRate c" "p_ErrorPoorRate c < p_ErrorFloorRate c"
    "p_ErrorFloorRate c \<le> 1"
  using assms by (auto simp: wfParams_def factorChecks_def)

lemma wfParams_error_factors [policy_dest]:
  assumes "wfParams c"
  shows "0 < p_ErrorMinFactor c" "p_ErrorMinFactor c < p_ErrorPoorFactor c"
    "p_ErrorPoorFactor c < p_ErrorDegradedFactor c" "p_ErrorDegradedFactor c < 1"
  using assms by (auto simp: wfParams_def factorChecks_def)

lemma wfParams_exponents [policy_dest]:
  assumes "wfParams c"
  shows "0 < p_Sensitivity c" "0 < p_SpeedExponent c" "0 < p_CacheExponent c" "0 < p_OTPSExponent c"
    "0 \<le> p_ProbeSpeedExponent c"
  using assms by (auto simp: wfParams_def factorChecks_def)

lemma wfParams_speed_weights [policy_dest]:
  assumes "wfParams c"
  shows "0 \<le> p_SpeedP50Weight c" "0 \<le> p_SpeedP90Weight c" "0 \<le> p_SpeedP95Weight c"
    "0 < p_SpeedP50Weight c + p_SpeedP90Weight c + p_SpeedP95Weight c"
proof -
  have "0 \<le> p_SpeedP50Weight c" "0 \<le> p_SpeedP90Weight c" "0 \<le> p_SpeedP95Weight c"
    and sum: "\<bar>p_SpeedP50Weight c + p_SpeedP90Weight c + p_SpeedP95Weight c - 1\<bar> \<le> 1 / 10 ^ 9"
    using assms by (simp_all add: wfParams_def factorChecks_def outside_def)
  moreover from sum have "\<bar>p_SpeedP50Weight c + p_SpeedP90Weight c + p_SpeedP95Weight c - 1\<bar> < 1"
    by (rule le_less_trans) simp
  then have "0 < p_SpeedP50Weight c + p_SpeedP90Weight c + p_SpeedP95Weight c"
    by linarith
  ultimately show "0 \<le> p_SpeedP50Weight c" "0 \<le> p_SpeedP90Weight c" "0 \<le> p_SpeedP95Weight c"
    "0 < p_SpeedP50Weight c + p_SpeedP90Weight c + p_SpeedP95Weight c"
    by simp_all
qed

lemma wfParams_control [policy_dest]:
  assumes "wfParams c"
  shows "1 \<le> p_MaxIncreasePercent c" "p_MaxIncreasePercent c \<le> 100"
    "1 \<le> p_CapacityMaxDecreasePercent c" "p_CapacityMaxDecreasePercent c \<le> 100"
    "0 < p_CircuitErrorRate c" "p_CircuitErrorRate c \<le> 1" "0 \<le> p_RecoveryErrorRate c"
    "p_RecoveryErrorRate c < p_CircuitErrorRate c" "1 \<le> p_SilentMinutes c" "1 \<le> p_ProbeCount c"
    "0 < p_SoftStartMultiplier c" "p_SoftStartMultiplier c \<le> 1" "1 \<le> p_MinSamples c"
    "1 \<le> p_FastCircuitMinSamples c" "0 < p_FastCircuitErrorRate c" "p_FastCircuitErrorRate c \<le> 1"
    "1 \<le> p_WindowMinutes c"
  using assms by (auto simp: wfParams_def controlChecks_def outside_def)

lemma wfParams_rules [policy_dest]:
  assumes "wfParams c"
  shows "0 < r_ErrorAlpha (p_ContinuousRules c)" "r_ErrorAlpha (p_ContinuousRules c) \<le> 1"
    "1 \<le> r_WritePauseAttempts (p_ContinuousRules c)"
    "r_WritePauseAttempts (p_ContinuousRules c) \<le> r_WriteMaxAttempts (p_ContinuousRules c)"
    "0 < r_CapacityTargetUtilization (p_ContinuousRules c)"
    "r_CapacityTargetUtilization (p_ContinuousRules c) \<le> 1"
    "r_CapacityReleaseUtilization (p_ContinuousRules c) \<le> r_CapacityTargetUtilization (p_ContinuousRules c)"
    "0 \<le> r_CapacityMinWeight (p_ContinuousRules c)" "1 \<le> r_RecoveryMinWeight (p_ContinuousRules c)"
    "1 \<le> r_BaselineMinChannels (p_ContinuousRules c)" "1 \<le> r_ProbeSlowLimit (p_ContinuousRules c)"
    "1 \<le> r_RoutineErrorLimit (p_ContinuousRules c)" "0 \<le> r_ErrorSettleSeconds (p_ContinuousRules c)"
    "1 \<le> r_WriteRetrySeconds (p_ContinuousRules c)"
    "r_RecoveryRoundSeconds (p_ContinuousRules c) < r_RecoveryLostSeconds (p_ContinuousRules c)"
  using assms by (auto simp: wfParams_def ruleRangeChecks_def ruleOrderChecks_def rangeCheck_def)

text \<open>The configuration the program ships with passes its own validation.\<close>

lemma DefaultContinuousRules_ok:
  "allPass (ruleRangeChecks DefaultContinuousRules)" "allPass (ruleOrderChecks DefaultContinuousRules)"
  by (simp_all add: ruleRangeChecks_def ruleOrderChecks_def rangeCheck_def DefaultContinuousRules_def)

lemma DefaultContinuous_ok:
  "allPass (factorChecks DefaultContinuous)" "allPass (controlChecks DefaultContinuous)"
  by (simp_all add: factorChecks_def controlChecks_def DefaultContinuous_def outside_def badFactorRange_def)

lemma wfParams_DefaultContinuous: "wfParams DefaultContinuous"
proof -
  have "p_ContinuousRules DefaultContinuous = DefaultContinuousRules"
    by (simp add: DefaultContinuous_def)
  then show ?thesis
    by (simp add: wfParams_def DefaultContinuousRules_ok DefaultContinuous_ok)
qed

lemma Rules_Default: "Rules DefaultContinuous = DefaultContinuousRules"
  using wfParams_DefaultContinuous by (simp add: DefaultContinuous_def)

section \<open>Properties\<close>

text \<open>The policy the program ships with passes the program's own validation.\<close>

theorem DefaultPolicy_valid: "Validate DefaultPolicy = Map.empty"
proof -
  have c: "pol_Continuous DefaultPolicy = DefaultContinuous" by (simp add: DefaultPolicy_def)
  have r: "p_ContinuousRules DefaultContinuous = DefaultContinuousRules" "p_RoutineProbeChannelIDs DefaultContinuous = []"
    by (simp_all add: DefaultContinuous_def)
  have s: "allPass (schedulingChecks (pol_Scheduling DefaultPolicy))" "allPass (modeChecks (pol_DispatchModes DefaultPolicy))"
    by (simp_all add: DefaultPolicy_def schedulingChecks_def)
  show ?thesis
    using s by (simp add: Validate_empty_iff c r DefaultContinuousRules_ok DefaultContinuous_ok)
qed

text \<open>what an accepted policy guarantees to the engine: ordered error breakpoints with falling
  factors, a recovery rate below the circuit rate, positive silence and probe counts, retry limits in
  order, a capacity release level below its target, and distinct positive probe channels.\<close>

theorem Validate_accepts_only_safe:
  assumes "Validate pol = Map.empty" "c = pol_Continuous pol" "r = p_ContinuousRules c"
  shows "(0 \<le> p_ErrorHealthyRate c \<and> p_ErrorHealthyRate c < p_ErrorDegradedRate c \<and>
      p_ErrorDegradedRate c < p_ErrorPoorRate c \<and> p_ErrorPoorRate c < p_ErrorFloorRate c \<and> p_ErrorFloorRate c \<le> 1) \<and>
    (0 < p_ErrorMinFactor c \<and> p_ErrorMinFactor c < p_ErrorPoorFactor c \<and>
      p_ErrorPoorFactor c < p_ErrorDegradedFactor c \<and> p_ErrorDegradedFactor c < 1) \<and>
    (0 \<le> p_RecoveryErrorRate c \<and> p_RecoveryErrorRate c < p_CircuitErrorRate c \<and> p_CircuitErrorRate c \<le> 1) \<and>
    (1 \<le> p_SilentMinutes c \<and> 1 \<le> p_ProbeCount c \<and> 1 \<le> p_MinSamples c) \<and>
    (1 \<le> r_WritePauseAttempts r \<and> r_WritePauseAttempts r \<le> r_WriteMaxAttempts r) \<and>
    (r_CapacityReleaseUtilization r \<le> r_CapacityTargetUtilization r \<and> r_CapacityTargetUtilization r \<le> 1) \<and>
    (distinct (p_RoutineProbeChannelIDs c) \<and> (\<forall>i \<in> set (p_RoutineProbeChannelIDs c). 0 < i))"
proof -
  have wf: "wfParams c" using assms by (simp add: Validate_wfParams)
  note e = wfParams_error_rates[OF wf] wfParams_error_factors[OF wf] wfParams_control[OF wf]
    wfParams_rules[OF wf, folded assms(3)]
  have "0 \<le> p_ErrorHealthyRate c \<and> p_ErrorHealthyRate c < p_ErrorDegradedRate c \<and>
      p_ErrorDegradedRate c < p_ErrorPoorRate c \<and> p_ErrorPoorRate c < p_ErrorFloorRate c \<and> p_ErrorFloorRate c \<le> 1"
    "0 < p_ErrorMinFactor c \<and> p_ErrorMinFactor c < p_ErrorPoorFactor c \<and>
      p_ErrorPoorFactor c < p_ErrorDegradedFactor c \<and> p_ErrorDegradedFactor c < 1"
    "0 \<le> p_RecoveryErrorRate c \<and> p_RecoveryErrorRate c < p_CircuitErrorRate c \<and> p_CircuitErrorRate c \<le> 1"
    "1 \<le> p_SilentMinutes c \<and> 1 \<le> p_ProbeCount c \<and> 1 \<le> p_MinSamples c"
    "1 \<le> r_WritePauseAttempts r \<and> r_WritePauseAttempts r \<le> r_WriteMaxAttempts r"
    "r_CapacityReleaseUtilization r \<le> r_CapacityTargetUtilization r \<and> r_CapacityTargetUtilization r \<le> 1"
    using e by simp_all
  moreover have "distinct (p_RoutineProbeChannelIDs c) \<and> (\<forall>i \<in> set (p_RoutineProbeChannelIDs c). 0 < i)"
    using assms(1,2) probeSelection_ok_iff[of "[]" "p_RoutineProbeChannelIDs c"] by (simp add: Validate_empty_iff)
  ultimately show ?thesis by blast
qed

theorem Validate_accepts_only_safe_witness:
  "p_ErrorHealthyRate (pol_Continuous DefaultPolicy) < p_ErrorFloorRate (pol_Continuous DefaultPolicy) \<and>
   p_RecoveryErrorRate (pol_Continuous DefaultPolicy) < p_CircuitErrorRate (pol_Continuous DefaultPolicy)"
proof -
  have v: "Validate DefaultPolicy = Map.empty"
    by (simp add: Validate_empty_iff DefaultPolicy_def DefaultContinuousRules_ok DefaultContinuous_ok schedulingChecks_def)
      (simp add: DefaultContinuous_def DefaultContinuousRules_ok)
  show ?thesis
    using Validate_accepts_only_safe[OF v refl refl] by linarith
qed

end
