(* ===== verification/Strings.thy ===== *)
theory Strings
  imports Prelude
begin

text \<open>
  Decimal text as the program writes and reads it: \<open>%d\<close> and \<open>%02d\<close> of \<open>fmt.Sprintf\<close>, and
  \<open>strconv.Atoi\<close> (an optional sign followed by at least one digit) on texts too short to overflow.
\<close>

definition digitChar :: "nat \<Rightarrow> char" where
  "digitChar d = char_of (48 + d)"

fun showNat :: "nat \<Rightarrow> string" where
  "showNat n = (if n < 10 then [digitChar n] else showNat (n div 10) @ [digitChar (n mod 10)])"

declare showNat.simps [simp del]

definition showInt :: "int \<Rightarrow> string" where
  "showInt i = (if i < 0 then ''-'' @ showNat (nat (- i)) else showNat (nat i))"

text \<open>\<open>%02d\<close>: at least two characters, padded with zeros after the sign.\<close>

definition showInt2 :: "int \<Rightarrow> string" where
  "showInt2 i =
     (let s = showInt i
      in if length s \<ge> 2 then s else CHR ''0'' # s)"

definition digitVal :: "char \<Rightarrow> nat option" where
  "digitVal c = (let n = of_char c :: nat in if 48 \<le> n \<and> n \<le> 57 then Some (n - 48) else None)"

fun digitsVal :: "nat \<Rightarrow> string \<Rightarrow> nat option" where
  "digitsVal acc [] = Some acc"
| "digitsVal acc (c # cs) = (case digitVal c of None \<Rightarrow> None | Some d \<Rightarrow> digitsVal (10 * acc + d) cs)"

definition atoi :: "string \<Rightarrow> int option" where
  "atoi s =
     (case s of
        [] \<Rightarrow> None
      | c # cs \<Rightarrow>
          if c = CHR ''-'' then (if cs = [] then None else map_option (\<lambda>n. - int n) (digitsVal 0 cs))
          else if c = CHR ''+'' then (if cs = [] then None else map_option int (digitsVal 0 cs))
          else map_option int (digitsVal 0 s))"

lemma digitVal_digitChar [simp]: "d < 10 \<Longrightarrow> digitVal (digitChar d) = Some d"
  by (simp add: digitVal_def digitChar_def Let_def)

lemma digitChar_val: "digitVal c = Some d \<Longrightarrow> d < 10 \<and> digitChar d = c"
  by (auto simp: digitVal_def digitChar_def Let_def split: if_splits)

lemma digitsVal_append: "digitsVal acc (xs @ ys) = (case digitsVal acc xs of None \<Rightarrow> None | Some a \<Rightarrow> digitsVal a ys)"
  by (induction xs arbitrary: acc) (auto split: option.split)

lemma digitsVal_showNat: "digitsVal 0 (showNat n) = Some n"
proof (induction n rule: showNat.induct)
  case (1 n)
  then show ?case by (subst showNat.simps) (simp add: digitsVal_append)
qed

lemma showNat_inj: "showNat m = showNat n \<Longrightarrow> m = n"
  by (metis digitsVal_showNat option.inject)

lemma digitVal_sign [simp]: "digitVal CHR ''-'' = None" "digitVal CHR ''+'' = None"
  by (simp_all add: digitVal_def Let_def)

lemma digitChar_not_sign: "d < 10 \<Longrightarrow> digitChar d \<noteq> CHR ''-'' \<and> digitChar d \<noteq> CHR ''+''"
  using digitVal_digitChar digitVal_sign by fastforce

end
