(* ===== verification/State.thy ===== *)
theory State
  imports Policy ChannelSchedule Strings
begin

text \<open>
  Data of the continuous dispatch engine (\<open>server/internal/tuning/model.go\<close>,
  \<open>capacity_control.go\<close>, \<open>probe_speed.go\<close>): channel base values, window metrics, the persisted
  per-channel state, recommendations, and the stores the engine talks to.

  The stores are Go interfaces with several implementations; they enter as the record \<open>env\<close>
  of response functions.  Every response may depend on the whole sequence of calls made so far,
  so a theorem over all \<open>env\<close> covers failing, slow and inconsistent stores.  The calls made are
  the \<open>trace\<close> of the world, newest first.
\<close>

section \<open>Channels, metrics and probe statistics\<close>

record ChannelBaseValue =
  b_InstanceID :: string
  b_ChannelID :: int64
  b_ChannelName :: string
  b_GroupName :: string
  b_ModelName :: string
  b_BaseWeight :: int64
  b_BasePriority :: int64
  b_MaxRPM :: int64
  b_MaxTPM :: int64
  b_CurrentWeight :: int64
  b_CurrentPriority :: int64
  b_SnapshotAt :: time
  b_Models :: "string list"
  b_UpdatedAt :: time
  b_UpdatedBy :: string

record ChannelMetric =
  m_SpeedTTFTP50 :: float64
  m_SpeedTTFTP90 :: float64
  m_SpeedTTFTP95 :: float64
  m_SpeedSamples :: int64
  m_SpeedRetries :: int64
  m_SpeedUnknown :: int64
  m_SpeedLegacy :: int64
  m_ChannelID :: int64
  m_RequestCount :: int64
  m_ErrorCount :: int64
  m_UserErrorCount :: int64
  m_TPM :: int64
  m_P95 :: float64
  m_TTFTP50 :: float64
  m_TTFTP90 :: float64
  m_TTFTP95 :: float64
  m_CacheHitRate :: float64
  m_OTPS :: float64
  m_CachePromptTokens :: int64
  m_OTPSSampleTokens :: int64
  m_OTPSSamples :: int64
  m_OTPSRetries :: int64
  m_OTPSUnknown :: int64
  m_OTPSStatsVersion :: int64

definition zeroChannelMetric :: ChannelMetric where
  "zeroChannelMetric = \<lparr>
     m_SpeedTTFTP50 = 0,
     m_SpeedTTFTP90 = 0,
     m_SpeedTTFTP95 = 0,
     m_SpeedSamples = 0,
     m_SpeedRetries = 0,
     m_SpeedUnknown = 0,
     m_SpeedLegacy = 0,
     m_ChannelID = 0,
     m_RequestCount = 0,
     m_ErrorCount = 0,
     m_UserErrorCount = 0,
     m_TPM = 0,
     m_P95 = 0,
     m_TTFTP50 = 0,
     m_TTFTP90 = 0,
     m_TTFTP95 = 0,
     m_CacheHitRate = 0,
     m_OTPS = 0,
     m_CachePromptTokens = 0,
     m_OTPSSampleTokens = 0,
     m_OTPSSamples = 0,
     m_OTPSRetries = 0,
     m_OTPSUnknown = 0,
     m_OTPSStatsVersion = 0\<rparr>"

record RecentChannelBucket =
  k_BucketTime :: time
  k_RequestCount :: int64
  k_ErrorCount :: int64
  k_UserErrorCount :: int64

record ProbeSpeedStats =
  ps_Samples :: int64
  ps_MeanSeconds :: float64
  ps_BaselineSeconds :: float64
  ps_LastStartedAt :: time
  ps_Factor :: float64
  ps_Ready :: bool

definition zeroProbeSpeedStats :: ProbeSpeedStats where
  "zeroProbeSpeedStats = \<lparr>
     ps_Samples = 0,
     ps_MeanSeconds = 0,
     ps_BaselineSeconds = 0,
     ps_LastStartedAt = 0,
     ps_Factor = 0,
     ps_Ready = False\<rparr>"

record EvaluationContext =
  ev_PerformanceEvaluated :: bool
  ev_BaseWeight :: int64
  ev_BaseUpdatedAt :: time
  ev_PolicyUpdatedAt :: time
  ev_EvaluatedAt :: time
  ev_Params :: ContinuousDispatchParams

text \<open>Only some decisions need the capacity tracker; all its clocks are coverage cutoffs of the
  Agent, and the zero time means "not set".\<close>

record CapacityControl =
  cap_Initialized :: bool
  cap_Active :: bool
  cap_Phase :: string
  cap_Reason :: string
  cap_Fresh :: bool
  cap_MaxRPM :: int64
  cap_MaxTPM :: int64
  cap_Utilization :: float64
  cap_SampleAt :: time
  cap_OverSince :: time
  cap_UnderSince :: time
  cap_AppliedAt :: time
  cap_ConfirmedWeight :: int64
  cap_RawTarget :: int64
  cap_BoundWeight :: int64
  cap_PendingCommandID :: string
  cap_PendingWeight :: int64

definition zeroCapacityControl :: CapacityControl where
  "zeroCapacityControl = \<lparr>
     cap_Initialized = False,
     cap_Active = False,
     cap_Phase = [],
     cap_Reason = [],
     cap_Fresh = False,
     cap_MaxRPM = 0,
     cap_MaxTPM = 0,
     cap_Utilization = 0,
     cap_SampleAt = 0,
     cap_OverSince = 0,
     cap_UnderSince = 0,
     cap_AppliedAt = 0,
     cap_ConfirmedWeight = 0,
     cap_RawTarget = 0,
     cap_BoundWeight = 0,
     cap_PendingCommandID = [],
     cap_PendingWeight = 0\<rparr>"

section \<open>The persisted state of a channel\<close>

record ContinuousState =
  s_SpeedSamples :: int64
  s_SpeedRetries :: int64
  s_SpeedUnknown :: int64
  s_SpeedLegacy :: int64
  s_SpeedStatsVersion :: int64
  s_InstanceID :: string
  s_ChannelID :: int64
  s_ModelName :: string
  s_KError :: float64
  s_KSpeed :: float64
  s_KCache :: float64
  s_KOTPS :: float64
  s_ProbeSpeed :: ProbeSpeedStats
  s_Multiplier :: float64
  s_ProposedWeight :: int64
  s_LastWrittenWeight :: "int64 option"
  s_LastWriteAt :: "time option"
  s_LastObservedRequests :: int64
  s_LastObservedErrors :: int64
  s_MetricRPM :: float64
  s_MetricTPM :: float64
  s_CapacityLimited :: bool
  s_MetricReady :: bool
  s_BaselineReady :: bool
  s_MetricTTFTP50 :: float64
  s_MetricTTFTP90 :: float64
  s_MetricTTFTP95 :: float64
  s_BaselineTTFTP50 :: float64
  s_BaselineTTFTP90 :: float64
  s_BaselineTTFTP95 :: float64
  s_MetricCache :: float64
  s_BaselineCache :: float64
  s_CacheReady :: bool
  s_MetricOTPS :: float64
  s_BaselineOTPS :: float64
  s_OTPSReady :: bool
  s_OTPSSamples :: int64
  s_OTPSRetries :: int64
  s_OTPSUnknown :: int64
  s_OTPSStatsVersion :: int64
  s_SmoothedErrorRate :: float64
  s_LastBucketAt :: "time option"
  s_PausedReason :: string
  s_Phase :: string
  s_ControlRevision :: int64
  s_CircuitDisabled :: bool
  s_RoutineCircuitLatched :: bool
  s_CircuitStatusTarget :: int64
  s_CircuitStatusCommandID :: string
  s_CircuitOpenedAt :: "time option"
  s_NextProbeAt :: "time option"
  s_ProbeCommandID :: "string option"
  s_ProbeAttempts :: int64
  s_ProbeSuccesses :: int64
  s_ProbeDurationSum :: float64
  s_ProbeSlowStreak :: int64
  s_OriginalPriority :: "int64 option"
  s_SoftStartPending :: bool
  s_WriteFailureStreak :: int64
  s_LastWriteFailureAt :: "time option"
  s_LastWriteError :: string
  s_LastObservedWeight :: "int64 option"
  s_UpdatedAt :: time
  s_Capacity :: CapacityControl
  s_Evaluation :: "EvaluationContext option"

definition zeroContinuousState :: ContinuousState where
  "zeroContinuousState = \<lparr>
     s_SpeedSamples = 0,
     s_SpeedRetries = 0,
     s_SpeedUnknown = 0,
     s_SpeedLegacy = 0,
     s_SpeedStatsVersion = 0,
     s_InstanceID = [],
     s_ChannelID = 0,
     s_ModelName = [],
     s_KError = 0,
     s_KSpeed = 0,
     s_KCache = 0,
     s_KOTPS = 0,
     s_ProbeSpeed = zeroProbeSpeedStats,
     s_Multiplier = 0,
     s_ProposedWeight = 0,
     s_LastWrittenWeight = None,
     s_LastWriteAt = None,
     s_LastObservedRequests = 0,
     s_LastObservedErrors = 0,
     s_MetricRPM = 0,
     s_MetricTPM = 0,
     s_CapacityLimited = False,
     s_MetricReady = False,
     s_BaselineReady = False,
     s_MetricTTFTP50 = 0,
     s_MetricTTFTP90 = 0,
     s_MetricTTFTP95 = 0,
     s_BaselineTTFTP50 = 0,
     s_BaselineTTFTP90 = 0,
     s_BaselineTTFTP95 = 0,
     s_MetricCache = 0,
     s_BaselineCache = 0,
     s_CacheReady = False,
     s_MetricOTPS = 0,
     s_BaselineOTPS = 0,
     s_OTPSReady = False,
     s_OTPSSamples = 0,
     s_OTPSRetries = 0,
     s_OTPSUnknown = 0,
     s_OTPSStatsVersion = 0,
     s_SmoothedErrorRate = 0,
     s_LastBucketAt = None,
     s_PausedReason = [],
     s_Phase = [],
     s_ControlRevision = 0,
     s_CircuitDisabled = False,
     s_RoutineCircuitLatched = False,
     s_CircuitStatusTarget = 0,
     s_CircuitStatusCommandID = [],
     s_CircuitOpenedAt = None,
     s_NextProbeAt = None,
     s_ProbeCommandID = None,
     s_ProbeAttempts = 0,
     s_ProbeSuccesses = 0,
     s_ProbeDurationSum = 0,
     s_ProbeSlowStreak = 0,
     s_OriginalPriority = None,
     s_SoftStartPending = False,
     s_WriteFailureStreak = 0,
     s_LastWriteFailureAt = None,
     s_LastWriteError = [],
     s_LastObservedWeight = None,
     s_UpdatedAt = 0,
     s_Capacity = zeroCapacityControl,
     s_Evaluation = None\<rparr>"

record PolicyRecord =
  pr_InstanceID :: string
  pr_Policy :: Policy
  pr_Mode :: string
  pr_UpdatedBy :: string
  pr_UpdatedAt :: time

section \<open>Recommendations\<close>

text \<open>The values the evidence map of a recommendation carries.\<close>

datatype evval =
    EvInt int64
  | EvFloat float64
  | EvStr string
  | EvBool bool
  | EvTime time
  | EvEvaluation "EvaluationContext option"
  | EvCapacity CapacityControl
  | EvProbeSpeed ProbeSpeedStats

record Recommendation =
  rec_ID :: string
  rec_InstanceID :: string
  rec_ChannelName :: string
  rec_Rule :: string
  rec_ChannelID :: int64
  rec_CreatedAt :: time
  rec_Evidence :: "string \<rightharpoonup> evval"
  rec_CurrentWeight :: int64
  rec_ProposedWeight :: int64
  rec_CurrentPriority :: "int64 option"
  rec_ProposedPriority :: "int64 option"
  rec_ProposedChannelStatus :: "int64 option"
  rec_ModeAtCreation :: string
  rec_Status :: string
  rec_CommandID :: "string option"
  rec_Outcome :: "string \<rightharpoonup> evval"
  rec_OutcomeAt :: "time option"
  rec_Hit :: "bool option"
  rec_ActedBy :: string
  rec_ActedAt :: "time option"

section \<open>Stores and the world\<close>

datatype call =
    PutContinuousState ContinuousState
  | InsertRecommendation Recommendation
  | CreateContinuousWeightChange Recommendation string time
  | CreateContinuousProbe Recommendation string int64 int64 time
  | ContinuousCommandStatus string
  | ContinuousCommandResult string
  | CompletedProbeCount string int64
  | GetPolicy string
  | PutPolicy PolicyRecord
  | HasExpiredAutoCommands string time
  | SiteIDForInstance string
  | ListChannelBaseValues string
  | ListContinuousStates string
  | QueryRecentChannelBuckets string int64 time int64
  | QueryMetrics string time time
  | QueryRoutineProbeSpeeds string time time
  | QueryCurrentChannelRateSnapshot string time
  | QueryCurrentChannelRates string time
  | QueryRecentChannelBucketsBySite string time
  | ListChannelScheduleControls string time
  | ListEnabledSites
  | CheckControl
  | RoutineProbeController string
  | Notify string
  | Now

text \<open>Responses of the stores.  An error is an option; a response that is itself an option is
  absent when the store does not implement the optional interface that declares it (\<open>commandResult\<close>
  belongs to \<open>continuousCommandResultStore\<close>, and so on).  \<open>digest\<close> is the
  hexadecimal text of the first 30 bytes of the SHA-256 hash used by \<open>NewID\<close>; the
  controller is represented by its configuration text, absent when the store returns no controller; \<open>ctxErr\<close> says
  whether the engine's context is cancelled.\<close>

type_synonym history = "call list"

record env =
  putState :: "history \<Rightarrow> ContinuousState \<Rightarrow> goerr option"
  createWeightChange :: "history \<Rightarrow> Recommendation \<Rightarrow> time \<Rightarrow> string \<times> goerr option"
  createProbe :: "history \<Rightarrow> Recommendation \<Rightarrow> string + goerr"
  commandStatus :: "history \<Rightarrow> string \<Rightarrow> string + goerr"
  commandResult :: "(history \<Rightarrow> string \<Rightarrow> string \<times> time \<times> goerr option) option"
  completedProbeCount :: "history \<Rightarrow> string \<Rightarrow> int64 \<Rightarrow> int64 + goerr"
  getPolicy :: "history \<Rightarrow> string \<Rightarrow> PolicyRecord option + goerr"
  putPolicy :: "history \<Rightarrow> PolicyRecord \<Rightarrow> goerr option"
  hasExpiredAutoCommands :: "(history \<Rightarrow> string \<Rightarrow> time \<Rightarrow> bool + goerr) option"
  siteIDForInstance :: "history \<Rightarrow> string \<Rightarrow> string + goerr"
  listChannelBaseValues :: "history \<Rightarrow> string \<Rightarrow> ChannelBaseValue list + goerr"
  listContinuousStates :: "history \<Rightarrow> string \<Rightarrow> ContinuousState list + goerr"
  queryRecentChannelBuckets :: "history \<Rightarrow> int64 \<Rightarrow> time \<Rightarrow> RecentChannelBucket list + goerr"
  queryMetrics :: "history \<Rightarrow> string \<Rightarrow> time \<Rightarrow> time \<Rightarrow> ChannelMetric list + goerr"
  queryRoutineProbeSpeeds :: "(history \<Rightarrow> string \<Rightarrow> time \<Rightarrow> time \<Rightarrow> (int64 \<rightharpoonup> ProbeSpeedStats) + goerr) option"
  queryCurrentChannelRateSnapshot ::
    "(history \<Rightarrow> string \<Rightarrow> time \<Rightarrow> ChannelMetric list \<times> time \<times> goerr option) option"
  queryCurrentChannelRates :: "(history \<Rightarrow> string \<Rightarrow> time \<Rightarrow> ChannelMetric list + goerr) option"
  queryRecentChannelBucketsBySite ::
    "(history \<Rightarrow> string \<Rightarrow> time \<Rightarrow> (int64 \<rightharpoonup> RecentChannelBucket list) + goerr) option"
  listChannelScheduleControls :: "(history \<Rightarrow> string \<Rightarrow> time \<Rightarrow> (int64 \<rightharpoonup> Control) + goerr) option"
  listEnabledSites :: "history \<Rightarrow> string list + goerr"
  checkControl :: "history \<Rightarrow> goerr option"
  routineProbeController :: "history \<Rightarrow> string \<Rightarrow> string option + goerr"
  clock :: "history \<Rightarrow> time"
  ctxErr :: "history \<Rightarrow> bool"
  digest :: "string \<Rightarrow> string"

text \<open>The runtime state shared by the engine's jobs: the calls made, the version counter and the
  version of each channel guard, and the counters of one evaluation.\<close>

type_synonym channelKey = "string \<times> int64"

record world =
  trace :: "call list"
  version :: nat
  guards :: "channelKey \<Rightarrow> nat"
  writes :: int64
  evaluated :: int64
  preserved :: int64

definition emit :: "call \<Rightarrow> world \<Rightarrow> world" where
  "emit c w = w\<lparr>trace := c # trace w\<rparr>"

lemma emit_simps [simp]:
  "trace (emit c w) = c # trace w"
  "version (emit c w) = version w"
  "guards (emit c w) = guards w"
  "writes (emit c w) = writes w"
  "evaluated (emit c w) = evaluated w"
  "preserved (emit c w) = preserved w"
  by (simp_all add: emit_def)

definition putStateCall :: "env \<Rightarrow> ContinuousState \<Rightarrow> world \<Rightarrow> goerr option \<times> world" where
  "putStateCall E s w = (putState E (trace w) s, emit (PutContinuousState s) w)"

text \<open>Calls that change a channel: the two commands of the control interface.\<close>

fun isControl :: "call \<Rightarrow> bool" where
  "isControl (CreateContinuousWeightChange _ _ _) = True"
| "isControl (CreateContinuousProbe _ _ _ _ _) = True"
| "isControl _ = False"

definition controls :: "world \<Rightarrow> call list" where
  "controls w = filter isControl (trace w)"

lemma controls_emit [trace_simps]:
  "controls (emit c w) = (if isControl c then c # controls w else controls w)"
  by (simp add: controls_def)

lemma controls_counters [trace_simps]:
  "controls (w\<lparr>writes := a\<rparr>) = controls w" "controls (w\<lparr>evaluated := a\<rparr>) = controls w"
  "controls (w\<lparr>preserved := a\<rparr>) = controls w" "controls (w\<lparr>version := v\<rparr>) = controls w"
  "controls (w\<lparr>guards := g\<rparr>) = controls w"
  by (simp_all add: controls_def)

lemma putStateCall_simps [trace_simps]:
  "fst (putStateCall E s w) = putState E (trace w) s"
  "snd (putStateCall E s w) = emit (PutContinuousState s) w"
  by (simp_all add: putStateCall_def)

section \<open>Recommendation identifiers\<close>

text \<open>\<open>time.Time.UnixNano\<close>: nanoseconds since 1970.\<close>

definition unixEpoch :: time where
  "unixEpoch = 62135596800 * Second"

definition NewID :: "(string \<Rightarrow> string) \<Rightarrow> time \<Rightarrow> string \<Rightarrow> int64 \<Rightarrow> string \<Rightarrow> string" where
  "NewID dig now inst channel rule =
     (let i = ''tun-'' @ showInt (now - unixEpoch) @ ''-'' @ inst @ ''-'' @ showInt channel @
              ''-'' @ rule
      in if length i > 64 then ''tun-'' @ dig i else i)"

lemma NewID_length:
  assumes "\<And>s. length (dig s) = 60"
  shows "length (NewID dig now inst ch rule) \<le> 64"
  by (simp add: NewID_def Let_def assms)

end
