(* ===== verification/Calls.thy ===== *)
theory Calls
  imports State
begin

text \<open>
  Reasoning about the calls an operation adds to the trace.  \<open>adds P w w'\<close> says that the world
  \<open>w'\<close> extends the trace of \<open>w\<close> by calls that all satisfy \<open>P\<close>; \<open>emits\<close> says in addition that the
  channel guards and their version counter did not move.  The locale \<open>call_filter\<close> is the
  contract between the operations of the engine and the safety properties: a filter accepts every
  quiet call (queries, events, notifications); the lemmas of the component theories, proved once in
  the locale, say which of the remaining calls an operation may add.
\<close>

fun isQuiet :: "call \<Rightarrow> bool" where
  "isQuiet (PutContinuousState _) = False"
| "isQuiet (CreateContinuousWeightChange _ _ _) = False"
| "isQuiet (CreateContinuousProbe _ _ _ _ _) = False"
| "isQuiet _ = True"

definition adds :: "(call \<Rightarrow> bool) \<Rightarrow> world \<Rightarrow> world \<Rightarrow> bool" where
  "adds P w w' \<longleftrightarrow> (\<exists>cs. trace w' = cs @ trace w \<and> (\<forall>c \<in> set cs. P c))"

definition emits :: "(call \<Rightarrow> bool) \<Rightarrow> world \<Rightarrow> world \<Rightarrow> bool" where
  "emits P w w' \<longleftrightarrow> adds P w w' \<and> version w' = version w \<and> guards w' = guards w"

lemma adds_trans: "adds P u v \<Longrightarrow> adds P v w \<Longrightarrow> adds P u w"
  by (auto simp: adds_def)

lemma adds_emit: "adds P u w \<Longrightarrow> P c \<Longrightarrow> adds P u (emit c w)"
  by (auto simp: adds_def)

lemma adds_set: "adds P u w \<Longrightarrow> c \<in> set (trace w) \<Longrightarrow> c \<in> set (trace u) \<or> P c"
  by (auto simp: adds_def)

lemma emits_adds: "emits P u w \<Longrightarrow> adds P u w"
  by (simp add: emits_def)

lemma emits_refl [simp]: "emits P w w"
  by (simp add: emits_def adds_def)

lemma emits_trans [trans]: "emits P u v \<Longrightarrow> emits P v w \<Longrightarrow> emits P u w"
  using adds_trans by (auto simp: emits_def)

lemma emits_emit: "P c \<Longrightarrow> emits P w (emit c w)"
  by (auto simp: emits_def adds_def)

lemma emits_emit_right: "emits P u w \<Longrightarrow> P c \<Longrightarrow> emits P u (emit c w)"
  using emits_emit emits_trans by blast

lemma emits_counters [simp]:
  "emits P u (w\<lparr>writes := a\<rparr>) = emits P u w" "emits P u (w\<lparr>evaluated := a\<rparr>) = emits P u w"
  "emits P u (w\<lparr>preserved := a\<rparr>) = emits P u w"
  by (simp_all add: emits_def adds_def)

lemma emits_mono: "emits P u w \<Longrightarrow> (\<And>c. P c \<Longrightarrow> Q c) \<Longrightarrow> emits Q u w"
  by (auto simp: emits_def adds_def)

lemma adds_no_control: "adds (\<lambda>c. \<not> isControl c) u w \<Longrightarrow> controls w = controls u"
  by (auto simp: adds_def controls_def filter_empty_conv)

lemmas emits_no_control = adds_no_control[OF emits_adds]

locale call_filter =
  fixes P :: "call \<Rightarrow> bool"
  assumes quiet: "isQuiet c \<Longrightarrow> P c"
begin

lemma quiet_emit [intro]: "isQuiet c \<Longrightarrow> emits P w (emit c w)"
  by (intro emits_emit quiet)

lemma quiet_calls [simp]:
  "P (InsertRecommendation r)" "P (ContinuousCommandStatus c)" "P (ContinuousCommandResult c)"
  "P (CompletedProbeCount site ch)" "P (GetPolicy site)" "P (PutPolicy pr)"
  "P (QueryRecentChannelBuckets site ch t n)" "P (Notify site)" "P Now" "P CheckControl"
  "P (QueryMetrics site t u)" "P (QueryRoutineProbeSpeeds site t u)" "P (QueryCurrentChannelRateSnapshot site t)"
  "P (QueryCurrentChannelRates site t)" "P (QueryRecentChannelBucketsBySite site t)"
  "P (ListChannelScheduleControls site t)" "P ListEnabledSites" "P (ListChannelBaseValues site)"
  "P (ListContinuousStates site)" "P (HasExpiredAutoCommands site t)" "P (SiteIDForInstance site)"
  "P (RoutineProbeController site)"
  by (simp_all add: quiet)

end

text \<open>The filters of the development: no control call at all; and no weight command.\<close>

interpretation no_control: call_filter "\<lambda>c. \<not> isControl c"
proof
  fix c assume "isQuiet c"
  then show "\<not> isControl c" by (cases c) auto
qed

fun isWeightChange :: "call \<Rightarrow> bool" where
  "isWeightChange (CreateContinuousWeightChange _ _ _) = True"
| "isWeightChange _ = False"

interpretation no_weight_change: call_filter "\<lambda>c. \<not> isWeightChange c"
proof
  fix c assume "isQuiet c"
  then show "\<not> isWeightChange c" by (cases c) auto
qed

end
