(* ===== verification/Factors.thy ===== *)
theory Factors
  imports Calls
begin

text \<open>
  The arithmetic of continuous dispatch: reliability and performance factors, the per-model
  baseline, probe-speed evidence and the weight arithmetic
  (\<open>server/internal/tuning/continuous_engine.go\<close>, \<open>probe_speed.go\<close>, \<open>engine.go\<close>, \<open>model.go\<close>).
\<close>

section \<open>Elementary functions\<close>

definition clamp :: "float64 \<Rightarrow> float64 \<Rightarrow> float64 \<Rightarrow> float64" where
  "clamp value low high = max low (min high value)"

definition average :: "float64 list \<Rightarrow> float64" where
  "average values = (if values = [] then 0 else sum_list values / of_nat (length values))"

text \<open>A variadic policy argument is an option.\<close>

definition optionalRules :: "ContinuousDispatchParams option \<Rightarrow> ContinuousRules" where
  "optionalRules p = (case p of Some q \<Rightarrow> Rules q | None \<Rightarrow> DefaultContinuousRules)"

definition ErrorRate :: "ChannelMetric \<Rightarrow> float64" where
  "ErrorRate m = (if m_RequestCount m = 0 then 0
     else of_int (max (m_ErrorCount m - m_UserErrorCount m) 0) / of_int (m_RequestCount m))"

definition TotalErrorRate :: "ChannelMetric \<Rightarrow> float64" where
  "TotalErrorRate m = (if m_RequestCount m = 0 then 0
     else of_int (m_ErrorCount m) / of_int (m_RequestCount m))"

section \<open>Reliability\<close>

definition reliabilityFactorWithPolicy :: "float64 \<Rightarrow> ContinuousDispatchParams \<Rightarrow> float64" where
  "reliabilityFactorWithPolicy rate p =
     (if rate \<le> p_ErrorHealthyRate p then 1
      else if rate \<le> p_ErrorDegradedRate p then
        1 - (rate - p_ErrorHealthyRate p) / (p_ErrorDegradedRate p - p_ErrorHealthyRate p)
            * (1 - p_ErrorDegradedFactor p)
      else if rate \<le> p_ErrorPoorRate p then
        p_ErrorDegradedFactor p
          - (rate - p_ErrorDegradedRate p) / (p_ErrorPoorRate p - p_ErrorDegradedRate p)
            * (p_ErrorDegradedFactor p - p_ErrorPoorFactor p)
      else if rate \<le> p_ErrorFloorRate p then
        p_ErrorPoorFactor p
          - (rate - p_ErrorPoorRate p) / (p_ErrorFloorRate p - p_ErrorPoorRate p)
            * (p_ErrorPoorFactor p - p_ErrorMinFactor p)
      else p_ErrorMinFactor p)"

definition legacyErrorRateWithPolicy :: "float64 \<Rightarrow> ContinuousDispatchParams \<Rightarrow> float64" where
  "legacyErrorRateWithPolicy factor p =
     (if factor \<ge> 1 then 0
      else if factor \<ge> p_ErrorDegradedFactor p then
        p_ErrorHealthyRate p + (1 - factor) / (1 - p_ErrorDegradedFactor p)
          * (p_ErrorDegradedRate p - p_ErrorHealthyRate p)
      else if factor \<ge> p_ErrorPoorFactor p then
        p_ErrorDegradedRate p
          + (p_ErrorDegradedFactor p - factor) / (p_ErrorDegradedFactor p - p_ErrorPoorFactor p)
            * (p_ErrorPoorRate p - p_ErrorDegradedRate p)
      else if factor \<ge> p_ErrorMinFactor p then
        p_ErrorPoorRate p
          + (p_ErrorPoorFactor p - factor) / (p_ErrorPoorFactor p - p_ErrorMinFactor p)
            * (p_ErrorFloorRate p - p_ErrorPoorRate p)
      else p_ErrorFloorRate p)"

definition reliabilityFactor :: "float64 \<Rightarrow> float64" where
  "reliabilityFactor rate = reliabilityFactorWithPolicy rate DefaultContinuous"

definition legacyErrorRate :: "float64 \<Rightarrow> float64" where
  "legacyErrorRate factor = legacyErrorRateWithPolicy factor DefaultContinuous"

section \<open>Evidence, baselines and performance factors\<close>

definition speedEvidenceReady :: "ChannelMetric \<Rightarrow> int64 \<Rightarrow> bool" where
  "speedEvidenceReady m minSamples \<longleftrightarrow>
     m_SpeedSamples m \<ge> minSamples \<and> m_SpeedTTFTP50 m > 0 \<and> m_SpeedTTFTP90 m > 0 \<and>
     m_SpeedTTFTP95 m > 0"

definition outputEvidenceReady :: "ChannelMetric \<Rightarrow> int64 \<Rightarrow> ContinuousDispatchParams option \<Rightarrow> bool" where
  "outputEvidenceReady m minSamples policy \<longleftrightarrow>
     m_OTPSStatsVersion m = 1 \<and> m_OTPSSamples m \<ge> minSamples \<and>
     m_OTPSSampleTokens m \<ge> r_OutputMinTokens (optionalRules policy) \<and> m_OTPS m > 0"

record continuousBaseline =
  bl_ttft50 :: float64
  bl_ttft90 :: float64
  bl_ttft95 :: float64
  bl_cache :: float64
  bl_otps :: float64
  bl_cacheReady :: bool
  bl_otpsReady :: bool
  bl_speedReady :: bool
  bl_probeTTFT95 :: float64

definition zeroBaseline :: continuousBaseline where
  "zeroBaseline = \<lparr>bl_ttft50 = 0, bl_ttft90 = 0, bl_ttft95 = 0, bl_cache = 0, bl_otps = 0,
     bl_cacheReady = False, bl_otpsReady = False, bl_speedReady = False, bl_probeTTFT95 = 0\<rparr>"

definition metricAt :: "(int64 \<rightharpoonup> ChannelMetric) \<Rightarrow> int64 \<Rightarrow> ChannelMetric" where
  "metricAt ms i = (case ms i of Some m \<Rightarrow> m | None \<Rightarrow> zeroChannelMetric)"

text \<open>The accumulators of the loop over the rows of one model.\<close>

record baselineAcc =
  a_ttft50 :: "float64 list"
  a_ttft90 :: "float64 list"
  a_ttft95 :: "float64 list"
  a_caches :: "float64 list"
  a_otps :: "float64 list"
  a_monitorEligible :: int64
  a_probeTTFT95Sum :: float64

definition zeroBaselineAcc :: baselineAcc where
  "zeroBaselineAcc = \<lparr>a_ttft50 = [], a_ttft90 = [], a_ttft95 = [], a_caches = [], a_otps = [],
     a_monitorEligible = 0, a_probeTTFT95Sum = 0\<rparr>"

definition baselineStep ::
    "int64 \<Rightarrow> ContinuousDispatchParams option \<Rightarrow> baselineAcc \<Rightarrow> ChannelMetric \<Rightarrow> baselineAcc" where
  "baselineStep minSamples policy a m =
     (let rules = optionalRules policy;
          a1 = (if outputEvidenceReady m minSamples policy
                then a\<lparr>a_otps := a_otps a @ [m_OTPS m]\<rparr> else a);
          a2 = (if m_RequestCount m \<ge> minSamples \<and> m_CachePromptTokens m \<ge> r_CacheMinTokens rules
                then a1\<lparr>a_caches := a_caches a1 @ [m_CacheHitRate m]\<rparr> else a1)
      in if m_RequestCount m < minSamples \<or> m_TTFTP50 m \<le> 0 \<or> m_TTFTP90 m \<le> 0 \<or> m_TTFTP95 m \<le> 0
         then a2
         else let a3 = a2\<lparr>a_monitorEligible := a_monitorEligible a2 + 1,
                          a_probeTTFT95Sum := a_probeTTFT95Sum a2 + m_TTFTP95 m\<rparr>
              in if speedEvidenceReady m minSamples
                 then a3\<lparr>a_ttft50 := a_ttft50 a3 @ [m_SpeedTTFTP50 m],
                         a_ttft90 := a_ttft90 a3 @ [m_SpeedTTFTP90 m],
                         a_ttft95 := a_ttft95 a3 @ [m_SpeedTTFTP95 m]\<rparr>
                 else a3)"

definition buildContinuousBaseline ::
    "ChannelBaseValue list \<Rightarrow> (int64 \<rightharpoonup> ChannelMetric) \<Rightarrow> int64 \<Rightarrow> ContinuousDispatchParams option
     \<Rightarrow> continuousBaseline \<times> bool" where
  "buildContinuousBaseline rows metrics minSamples policy =
     (let rules = optionalRules policy;
          need = r_BaselineMinChannels rules;
          a = foldl (\<lambda>a row. baselineStep minSamples policy a (metricAt metrics (b_ChannelID row)))
                zeroBaselineAcc rows;
          b1 = (if int (length (a_otps a)) \<ge> need
                then zeroBaseline\<lparr>bl_otps := average (a_otps a), bl_otpsReady := True\<rparr>
                else zeroBaseline);
          b2 = (if int (length (a_caches a)) \<ge> need
                then b1\<lparr>bl_cache := average (a_caches a), bl_cacheReady := True\<rparr> else b1)
      in if a_monitorEligible a < need then (b2, False)
         else let b3 = b2\<lparr>bl_probeTTFT95 := a_probeTTFT95Sum a / of_int (a_monitorEligible a)\<rparr>
              in if int (length (a_ttft50 a)) \<ge> need
                 then (b3\<lparr>bl_ttft50 := average (a_ttft50 a), bl_ttft90 := average (a_ttft90 a),
                          bl_ttft95 := average (a_ttft95 a), bl_speedReady := True\<rparr>, True)
                 else (b3, True))"

definition speedFactor :: "ChannelMetric \<Rightarrow> continuousBaseline \<Rightarrow> ContinuousDispatchParams \<Rightarrow> float64" where
  "speedFactor m b p =
     (if \<not> speedEvidenceReady m (p_MinSamples p) \<or> \<not> bl_speedReady b then 1
      else let r = p_SpeedP50Weight p * (m_SpeedTTFTP50 m / bl_ttft50 b)
                 + p_SpeedP90Weight p * (m_SpeedTTFTP90 m / bl_ttft90 b)
                 + p_SpeedP95Weight p * (m_SpeedTTFTP95 m / bl_ttft95 b)
           in if r \<le> 0 then 1
              else clamp (goPow (1 / r) (p_SpeedExponent p * p_Sensitivity p))
                     (p_SpeedMinFactor p) (p_SpeedMaxFactor p))"

definition performanceFactors ::
    "ChannelMetric \<Rightarrow> continuousBaseline \<Rightarrow> ContinuousDispatchParams \<Rightarrow> bool \<Rightarrow> bool
     \<Rightarrow> float64 \<times> float64 \<times> float64" where
  "performanceFactors m b p cacheReady otpsReady =
     (let cache = (if cacheReady \<and> bl_cache b > 0
                   then clamp (goPow (m_CacheHitRate m / bl_cache b) (p_CacheExponent p * p_Sensitivity p))
                          (p_CacheMinFactor p) (p_CacheMaxFactor p)
                   else 1);
          otps = (if otpsReady \<and> bl_otps b > 0
                  then clamp (goPow (m_OTPS m / bl_otps b) (p_OTPSExponent p * p_Sensitivity p))
                         (p_OTPSMinFactor p) (p_OTPSMaxFactor p)
                  else 1);
          speed = (if \<not> speedEvidenceReady m (p_MinSamples p) \<or> \<not> bl_speedReady b then otps
                   else speedFactor m b p)
      in (speed, cache, otps))"

definition combinedFactor :: "ContinuousState \<Rightarrow> ContinuousDispatchParams \<Rightarrow> float64" where
  "combinedFactor state p =
     (let probe = (if RoutineProbeEnabledFor p (s_ChannelID state) \<and> ps_Ready (s_ProbeSpeed state) \<and>
                      ps_Factor (s_ProbeSpeed state) > 0 \<and> p_ProbeSpeedExponent p > 0
                   then ps_Factor (s_ProbeSpeed state) else 1)
      in clamp (s_KSpeed state * s_KCache state * s_KOTPS state * s_KError state * probe)
           (p_CombinedMinFactor p) (p_CombinedMaxFactor p))"

definition applyPerformanceFactors ::
    "ContinuousState \<Rightarrow> ChannelMetric \<Rightarrow> continuousBaseline \<Rightarrow> ContinuousDispatchParams \<Rightarrow> ContinuousState" where
  "applyPerformanceFactors state m b p =
     (case performanceFactors m b p (s_CacheReady state) (s_OTPSReady state) of (speed, cache, otps) \<Rightarrow>
        state\<lparr>s_Evaluation := map_option (\<lambda>e. e\<lparr>ev_PerformanceEvaluated := True\<rparr>) (s_Evaluation state),
              s_KSpeed := speed, s_KCache := cache, s_KOTPS := otps\<rparr>)"

section \<open>Probe speed\<close>

definition ManualDisabled :: string where
  "ManualDisabled = ''manual_disabled''"

definition probeSpeedEvidenceReady ::
    "ProbeSpeedStats \<Rightarrow> int64 \<Rightarrow> time \<Rightarrow> ContinuousDispatchParams option \<Rightarrow> bool" where
  "probeSpeedEvidenceReady s minSamples now policy \<longleftrightarrow>
     r_RoutineProbeEnabled (optionalRules policy) \<and> ps_Samples s \<ge> minSamples \<and> ps_MeanSeconds s > 0 \<and>
     ps_LastStartedAt s \<noteq> 0 \<and> \<not> ps_LastStartedAt s > now \<and>
     timeSub now (ps_LastStartedAt s) \<le> r_ProbeMaxAgeSeconds (optionalRules policy) * Second"

definition stateAt :: "(int64 \<rightharpoonup> ContinuousState) \<Rightarrow> int64 \<Rightarrow> ContinuousState" where
  "stateAt ss i = (case ss i of Some s \<Rightarrow> s | None \<Rightarrow> zeroContinuousState)"

definition probeStatsAt :: "(int64 \<rightharpoonup> ProbeSpeedStats) \<Rightarrow> int64 \<Rightarrow> ProbeSpeedStats" where
  "probeStatsAt ps i = (case ps i of Some s \<Rightarrow> s | None \<Rightarrow> zeroProbeSpeedStats)"

fun probeSpeedMeans ::
    "ChannelBaseValue list \<Rightarrow> (int64 \<rightharpoonup> ProbeSpeedStats) \<Rightarrow> (int64 \<rightharpoonup> ContinuousState) \<Rightarrow> int64 \<Rightarrow> time
     \<Rightarrow> ContinuousDispatchParams option \<Rightarrow> float64 list" where
  "probeSpeedMeans [] stats states minSamples now policy = []"
| "probeSpeedMeans (b # rows) stats states minSamples now policy =
     (let rest = probeSpeedMeans rows stats states minSamples now policy;
          s = stateAt states (b_ChannelID b);
          m = probeStatsAt stats (b_ChannelID b)
      in if (case policy of Some p \<Rightarrow> \<not> RoutineProbeEnabledFor p (b_ChannelID b) | None \<Rightarrow> False) then rest
         else if b_BaseWeight b \<le> 0 \<or> length (b_Models b) \<noteq> 1 \<or> s_PausedReason s = ManualDisabled \<or>
                 s_CircuitDisabled s \<or> s_RoutineCircuitLatched s \<or>
                 (s_Phase s \<noteq> '''' \<and> s_Phase s \<noteq> ''normal'' \<and> s_Phase s \<noteq> ''soft_start'') then rest
         else if probeSpeedEvidenceReady m minSamples now policy then ps_MeanSeconds m # rest
         else rest)"

definition probeSpeedBaseline ::
    "ChannelBaseValue list \<Rightarrow> (int64 \<rightharpoonup> ProbeSpeedStats) \<Rightarrow> (int64 \<rightharpoonup> ContinuousState) \<Rightarrow> int64 \<Rightarrow> time
     \<Rightarrow> ContinuousDispatchParams option \<Rightarrow> float64" where
  "probeSpeedBaseline rows stats states minSamples now policy =
     (let means = probeSpeedMeans rows stats states minSamples now policy
      in if int (length means) < r_BaselineMinChannels (optionalRules policy) then 0 else average means)"

definition evaluateProbeSpeed ::
    "ProbeSpeedStats \<Rightarrow> float64 \<Rightarrow> ContinuousDispatchParams \<Rightarrow> time \<Rightarrow> ProbeSpeedStats" where
  "evaluateProbeSpeed s baseline p now =
     (let s1 = s\<lparr>ps_BaselineSeconds := baseline, ps_Factor := 1, ps_Ready := False\<rparr>
      in if p_ProbeSpeedExponent p \<le> 0 \<or> baseline \<le> 0 \<or>
            \<not> probeSpeedEvidenceReady s1 (p_MinSamples p) now (Some p) then s1
         else s1\<lparr>ps_Ready := True,
                 ps_Factor := clamp (goPow (baseline / ps_MeanSeconds s1)
                                       (p_ProbeSpeedExponent p * p_Sensitivity p))
                                (p_ProbeSpeedMinFactor p) (p_ProbeSpeedMaxFactor p)\<rparr>)"

section \<open>Weights\<close>

definition effectiveCurrentWeight :: "ChannelBaseValue \<Rightarrow> ContinuousState \<Rightarrow> int64" where
  "effectiveCurrentWeight base state =
     (case (s_LastWrittenWeight state, s_LastWriteAt state) of
        (Some w, Some writeAt) \<Rightarrow>
          if b_SnapshotAt base = 0 \<or> writeAt > b_SnapshotAt base then w else b_CurrentWeight base
      | _ \<Rightarrow> b_CurrentWeight base)"

definition limitWeightIncrease :: "int64 \<Rightarrow> int64 \<Rightarrow> float64 \<Rightarrow> int64" where
  "limitWeightIncrease proposed current maxPercent =
     (if proposed \<le> current \<or> current \<le> 0 then proposed
      else let maximum = max (current + 1) \<lfloor>of_int current * (1 + maxPercent / 100)\<rfloor>
           in min proposed maximum)"

definition writeReference :: "ContinuousState \<Rightarrow> ChannelBaseValue \<Rightarrow> int64" where
  "writeReference state base =
     (case s_LastWrittenWeight state of Some w \<Rightarrow> w | None \<Rightarrow> b_CurrentWeight base)"

definition writeDeadband :: "int64 \<Rightarrow> float64 \<Rightarrow> int64" where
  "writeDeadband baseWeight percent = max 1 (goRound (of_int baseWeight * percent / 100))"

definition weightChangeOutsideDeadband :: "int64 \<Rightarrow> int64 \<Rightarrow> int64 \<Rightarrow> float64 \<Rightarrow> bool" where
  "weightChangeOutsideDeadband proposed reference baseWeight percent \<longleftrightarrow>
     \<bar>proposed - reference\<bar> \<ge> writeDeadband baseWeight percent"

section \<open>Lemmas\<close>

lemma clamp_bounds: "low \<le> high \<Longrightarrow> low \<le> clamp v low high \<and> clamp v low high \<le> high"
  by (simp add: clamp_def)

lemma clamp_in: "low \<le> v \<Longrightarrow> v \<le> high \<Longrightarrow> clamp v low high = v"
  by (simp add: clamp_def)

lemma clamp_mono: "u \<le> v \<Longrightarrow> clamp u low high \<le> clamp v low high"
  by (auto simp: clamp_def)

subsection \<open>Reliability\<close>

text \<open>Each piece of the map is a line from \<open>(x0, y0)\<close> down to \<open>(x1, y1)\<close>.\<close>

definition fallLine :: "float64 \<Rightarrow> float64 \<Rightarrow> float64 \<Rightarrow> float64 \<Rightarrow> float64 \<Rightarrow> float64" where
  "fallLine x0 x1 y0 y1 x = y0 - (x - x0) / (x1 - x0) * (y0 - y1)"

lemma fallLine_bounds:
  assumes "x0 < x1" "y1 \<le> y0" "x0 \<le> x" "x \<le> x1"
  shows "y1 \<le> fallLine x0 x1 y0 y1 x \<and> fallLine x0 x1 y0 y1 x \<le> y0"
proof -
  define t where "t = (x - x0) / (x1 - x0)"
  define d where "d = t * (y0 - y1)"
  have t: "0 \<le> t" "t \<le> 1" unfolding t_def using assms by (simp_all add: field_simps)
  then have "0 \<le> d" unfolding d_def using assms(2) by (intro mult_nonneg_nonneg) auto
  moreover from t have "d \<le> 1 * (y0 - y1)" unfolding d_def using assms(2) by (intro mult_right_mono) auto
  moreover have "fallLine x0 x1 y0 y1 x = y0 - d" by (simp add: fallLine_def d_def t_def)
  ultimately show ?thesis by simp
qed

lemma fallLine_antimono:
  assumes "x0 < x1" "y1 \<le> y0" "x \<le> x'"
  shows "fallLine x0 x1 y0 y1 x' \<le> fallLine x0 x1 y0 y1 x"
proof -
  have "(x - x0) / (x1 - x0) \<le> (x' - x0) / (x1 - x0)" using assms by (simp add: divide_right_mono)
  then have "(x - x0) / (x1 - x0) * (y0 - y1) \<le> (x' - x0) / (x1 - x0) * (y0 - y1)"
    using assms by (intro mult_right_mono) auto
  then show ?thesis unfolding fallLine_def by linarith
qed

text \<open>The inverse line, read from the factor axis.\<close>

definition backLine :: "float64 \<Rightarrow> float64 \<Rightarrow> float64 \<Rightarrow> float64 \<Rightarrow> float64 \<Rightarrow> float64" where
  "backLine x0 x1 y0 y1 y = x0 + (y0 - y) / (y0 - y1) * (x1 - x0)"

lemma fallLine_backLine:
  assumes "x0 < x1" "y1 < y0"
  shows "fallLine x0 x1 y0 y1 (backLine x0 x1 y0 y1 y) = y"
  using assms by (simp add: fallLine_def backLine_def)

lemma backLine_bounds:
  assumes "x0 < x1" "y1 \<le> y" "y < y0"
  shows "x0 < backLine x0 x1 y0 y1 y \<and> backLine x0 x1 y0 y1 y \<le> x1"
proof -
  define t where "t = (y0 - y) / (y0 - y1)"
  define d where "d = t * (x1 - x0)"
  have t: "0 < t" "t \<le> 1" unfolding t_def using assms by (simp_all add: field_simps)
  then have "0 < d" unfolding d_def using assms(1) by (intro mult_pos_pos) auto
  moreover from t have "d \<le> 1 * (x1 - x0)" unfolding d_def using assms(1) by (intro mult_right_mono) auto
  moreover have "backLine x0 x1 y0 y1 y = x0 + d" by (simp add: backLine_def d_def t_def)
  ultimately show ?thesis by simp
qed

lemma backLine_top [simp]: "y1 < y0 \<Longrightarrow> backLine x0 x1 y0 y1 y0 = x0"
  by (simp add: backLine_def)

lemma legacy_pieces:
  "legacyErrorRateWithPolicy f p =
     (if f \<ge> 1 then 0
      else if f \<ge> p_ErrorDegradedFactor p
      then backLine (p_ErrorHealthyRate p) (p_ErrorDegradedRate p) 1 (p_ErrorDegradedFactor p) f
      else if f \<ge> p_ErrorPoorFactor p
      then backLine (p_ErrorDegradedRate p) (p_ErrorPoorRate p) (p_ErrorDegradedFactor p) (p_ErrorPoorFactor p) f
      else if f \<ge> p_ErrorMinFactor p
      then backLine (p_ErrorPoorRate p) (p_ErrorFloorRate p) (p_ErrorPoorFactor p) (p_ErrorMinFactor p) f
      else p_ErrorFloorRate p)"
  by (simp add: legacyErrorRateWithPolicy_def backLine_def)

lemma reliability_pieces:
  "reliabilityFactorWithPolicy rate p =
     (if rate \<le> p_ErrorHealthyRate p then 1
      else if rate \<le> p_ErrorDegradedRate p
      then fallLine (p_ErrorHealthyRate p) (p_ErrorDegradedRate p) 1 (p_ErrorDegradedFactor p) rate
      else if rate \<le> p_ErrorPoorRate p
      then fallLine (p_ErrorDegradedRate p) (p_ErrorPoorRate p) (p_ErrorDegradedFactor p) (p_ErrorPoorFactor p) rate
      else if rate \<le> p_ErrorFloorRate p
      then fallLine (p_ErrorPoorRate p) (p_ErrorFloorRate p) (p_ErrorPoorFactor p) (p_ErrorMinFactor p) rate
      else p_ErrorMinFactor p)"
  by (simp add: reliabilityFactorWithPolicy_def fallLine_def)

text \<open>What the reliability map relies on: strictly increasing breakpoints and strictly decreasing
  factors.  Validation provides it for every accepted policy.\<close>

locale error_curve =
  fixes p :: ContinuousDispatchParams
  assumes rate_order: "0 \<le> p_ErrorHealthyRate p" "p_ErrorHealthyRate p < p_ErrorDegradedRate p"
      "p_ErrorDegradedRate p < p_ErrorPoorRate p" "p_ErrorPoorRate p < p_ErrorFloorRate p"
    and factor_order: "p_ErrorMinFactor p < p_ErrorPoorFactor p"
      "p_ErrorPoorFactor p < p_ErrorDegradedFactor p" "p_ErrorDegradedFactor p < 1"
begin

lemmas order = rate_order factor_order

lemma reliability_bounds:
  "p_ErrorMinFactor p \<le> reliabilityFactorWithPolicy x p \<and> reliabilityFactorWithPolicy x p \<le> 1"
  using order
    fallLine_bounds[of "p_ErrorHealthyRate p" "p_ErrorDegradedRate p" "p_ErrorDegradedFactor p" 1 x]
    fallLine_bounds[of "p_ErrorDegradedRate p" "p_ErrorPoorRate p" "p_ErrorPoorFactor p" "p_ErrorDegradedFactor p" x]
    fallLine_bounds[of "p_ErrorPoorRate p" "p_ErrorFloorRate p" "p_ErrorMinFactor p" "p_ErrorPoorFactor p" x]
  by (auto simp: reliability_pieces)

lemma reliability_antimono:
  assumes "x \<le> y"
  shows "reliabilityFactorWithPolicy y p \<le> reliabilityFactorWithPolicy x p"
proof -
  note bnd = fallLine_bounds[of "p_ErrorHealthyRate p" "p_ErrorDegradedRate p" "p_ErrorDegradedFactor p" 1]
    fallLine_bounds[of "p_ErrorDegradedRate p" "p_ErrorPoorRate p" "p_ErrorPoorFactor p" "p_ErrorDegradedFactor p"]
    fallLine_bounds[of "p_ErrorPoorRate p" "p_ErrorFloorRate p" "p_ErrorMinFactor p" "p_ErrorPoorFactor p"]
  note mono = fallLine_antimono[of "p_ErrorHealthyRate p" "p_ErrorDegradedRate p" "p_ErrorDegradedFactor p" 1 x y]
    fallLine_antimono[of "p_ErrorDegradedRate p" "p_ErrorPoorRate p" "p_ErrorPoorFactor p" "p_ErrorDegradedFactor p" x y]
    fallLine_antimono[of "p_ErrorPoorRate p" "p_ErrorFloorRate p" "p_ErrorMinFactor p" "p_ErrorPoorFactor p" x y]
  show ?thesis
    using order assms bnd[of x] bnd[of y] mono by (auto simp: reliability_pieces)
qed

lemma legacy_bounds:
  "0 \<le> legacyErrorRateWithPolicy f p \<and> legacyErrorRateWithPolicy f p \<le> p_ErrorFloorRate p"
proof -
  have b: "x0 < x1 \<Longrightarrow> y1 \<le> y \<Longrightarrow> y < y0 \<Longrightarrow> 0 \<le> x0 \<Longrightarrow> x1 \<le> p_ErrorFloorRate p \<Longrightarrow>
      0 \<le> backLine x0 x1 y0 y1 y \<and> backLine x0 x1 y0 y1 y \<le> p_ErrorFloorRate p" for x0 x1 y0 y1 y
    using backLine_bounds[of x0 x1 y1 y y0] by simp
  show ?thesis using order by (simp add: legacy_pieces b)
qed

text \<open>Seeding the smoothed rate from a stored factor and mapping it back gives the factor.\<close>

lemma reliability_of_legacy:
  assumes "p_ErrorMinFactor p \<le> f" "f \<le> 1"
  shows "reliabilityFactorWithPolicy (legacyErrorRateWithPolicy f p) p = f"
proof -
  let ?L1 = "backLine (p_ErrorHealthyRate p) (p_ErrorDegradedRate p) 1 (p_ErrorDegradedFactor p) f"
  let ?L2 = "backLine (p_ErrorDegradedRate p) (p_ErrorPoorRate p) (p_ErrorDegradedFactor p) (p_ErrorPoorFactor p) f"
  let ?L3 = "backLine (p_ErrorPoorRate p) (p_ErrorFloorRate p) (p_ErrorPoorFactor p) (p_ErrorMinFactor p) f"
  have l1: "p_ErrorDegradedFactor p \<le> f \<Longrightarrow> f < 1 \<Longrightarrow> p_ErrorHealthyRate p < ?L1 \<and> ?L1 \<le> p_ErrorDegradedRate p"
    using order backLine_bounds by blast
  have l2: "p_ErrorPoorFactor p \<le> f \<Longrightarrow> f < p_ErrorDegradedFactor p \<Longrightarrow>
      p_ErrorDegradedRate p < ?L2 \<and> ?L2 \<le> p_ErrorPoorRate p"
    using order backLine_bounds by blast
  have l3: "f < p_ErrorPoorFactor p \<Longrightarrow> p_ErrorPoorRate p < ?L3 \<and> ?L3 \<le> p_ErrorFloorRate p"
    using order assms backLine_bounds by blast
  consider "f = 1" | "p_ErrorDegradedFactor p \<le> f" "f < 1"
    | "p_ErrorPoorFactor p \<le> f" "f < p_ErrorDegradedFactor p" | "f < p_ErrorPoorFactor p"
    using assms by linarith
  then show ?thesis
  proof cases
    case 1
    then show ?thesis using order by (simp add: reliability_pieces legacy_pieces)
  next
    case 2
    then show ?thesis using order l1 by (simp add: reliability_pieces legacy_pieces fallLine_backLine)
  next
    case 3
    then show ?thesis using order l2 by (simp add: reliability_pieces legacy_pieces fallLine_backLine)
  next
    case 4
    then show ?thesis using order assms l3 by (simp add: reliability_pieces legacy_pieces fallLine_backLine)
  qed
qed

end

lemma wfParams_error_curve: "wfParams p \<Longrightarrow> error_curve p"
  by unfold_locales (auto dest: wfParams_error_rates wfParams_error_factors)

interpretation default_curve: error_curve DefaultContinuous
  by (rule wfParams_error_curve[OF wfParams_DefaultContinuous])

subsection \<open>Averages and performance factors\<close>

lemma average_bounds:
  assumes "xs \<noteq> []" "\<And>x. x \<in> set xs \<Longrightarrow> lo \<le> x \<and> x \<le> hi"
  shows "lo \<le> average xs \<and> average xs \<le> hi"
proof -
  have "of_nat (length xs) * lo \<le> sum_list xs \<and> sum_list xs \<le> of_nat (length xs) * hi"
    using assms(2) by (induction xs) (auto simp: distrib_right intro: add_mono)
  moreover have "0 < real (length xs)" using assms(1) by simp
  ultimately show ?thesis using assms(1) by (auto simp: average_def field_simps)
qed

lemma performanceFactors_bounds:
  assumes "wfParams p" "performanceFactors m b p cr orr = (speed, cache, otps)"
  shows "min (p_SpeedMinFactor p) (p_OTPSMinFactor p) \<le> speed \<and> speed \<le> max (p_SpeedMaxFactor p) (p_OTPSMaxFactor p)"
    and "p_CacheMinFactor p \<le> cache \<and> cache \<le> p_CacheMaxFactor p"
    and "p_OTPSMinFactor p \<le> otps \<and> otps \<le> p_OTPSMaxFactor p"
proof -
  note r = wfParams_factor_ranges[OF assms(1)]
  have c: "\<And>x. p_CacheMinFactor p \<le> clamp x (p_CacheMinFactor p) (p_CacheMaxFactor p) \<and>
      clamp x (p_CacheMinFactor p) (p_CacheMaxFactor p) \<le> p_CacheMaxFactor p"
    and o: "\<And>x. p_OTPSMinFactor p \<le> clamp x (p_OTPSMinFactor p) (p_OTPSMaxFactor p) \<and>
      clamp x (p_OTPSMinFactor p) (p_OTPSMaxFactor p) \<le> p_OTPSMaxFactor p"
    and sp: "p_SpeedMinFactor p \<le> speedFactor m b p \<and> speedFactor m b p \<le> p_SpeedMaxFactor p"
    using r by (auto simp: speedFactor_def Let_def intro!: clamp_bounds[THEN conjunct1] clamp_bounds[THEN conjunct2])
  show "p_CacheMinFactor p \<le> cache \<and> cache \<le> p_CacheMaxFactor p"
    using assms(2) c r by (auto simp: performanceFactors_def Let_def)
  show otps: "p_OTPSMinFactor p \<le> otps \<and> otps \<le> p_OTPSMaxFactor p"
    using assms(2) o r by (auto simp: performanceFactors_def Let_def)
  have "speed = otps \<or> speed = speedFactor m b p"
    using assms(2) by (auto simp: performanceFactors_def Let_def)
  then show "min (p_SpeedMinFactor p) (p_OTPSMinFactor p) \<le> speed \<and>
      speed \<le> max (p_SpeedMaxFactor p) (p_OTPSMaxFactor p)"
    using otps sp by auto
qed

lemma combinedFactor_bounds:
  assumes "wfParams p"
  shows "p_CombinedMinFactor p \<le> combinedFactor s p" "combinedFactor s p \<le> p_CombinedMaxFactor p"
    "0 < combinedFactor s p" "combinedFactor s p \<le> 5"
proof -
  note r = wfParams_factor_ranges[OF assms]
  show a: "p_CombinedMinFactor p \<le> combinedFactor s p" and b: "combinedFactor s p \<le> p_CombinedMaxFactor p"
    using r clamp_bounds[of "p_CombinedMinFactor p" "p_CombinedMaxFactor p"]
    by (auto simp: combinedFactor_def Let_def)
  from a r show "0 < combinedFactor s p" by linarith
  from b r show "combinedFactor s p \<le> 5" by linarith
qed

subsection \<open>Weight arithmetic\<close>

lemma floor_weight_bounds:
  fixes w :: int and k :: real
  assumes "0 \<le> w" "0 \<le> k" "k \<le> 5"
  shows "0 \<le> \<lfloor>of_int w * k\<rfloor>" "\<lfloor>of_int w * k\<rfloor> \<le> 5 * w"
proof -
  have "0 \<le> of_int w * k" using assms by simp
  then show "0 \<le> \<lfloor>of_int w * k\<rfloor>" by simp
  have "of_int w * k \<le> of_int w * 5" using assms by (intro mult_left_mono) auto
  then show "\<lfloor>of_int w * k\<rfloor> \<le> 5 * w" by linarith
qed

lemma limitWeightIncrease_le: "limitWeightIncrease proposed current pct \<le> proposed"
  by (simp add: limitWeightIncrease_def Let_def)

lemma limitWeightIncrease_down:
  "proposed \<le> current \<or> current \<le> 0 \<Longrightarrow> limitWeightIncrease proposed current pct = proposed"
  by (simp add: limitWeightIncrease_def)

lemma limitWeightIncrease_progress:
  "current < proposed \<Longrightarrow> 0 < current \<Longrightarrow> current < limitWeightIncrease proposed current pct"
  by (simp add: limitWeightIncrease_def Let_def)

lemma limitWeightIncrease_step:
  assumes "current < proposed" "0 < current" "0 \<le> pct"
  shows "limitWeightIncrease proposed current pct \<le> max (current + 1) \<lfloor>of_int current * (1 + pct / 100)\<rfloor>"
  using assms by (simp add: limitWeightIncrease_def Let_def)

text \<open>Cycle after cycle the limited weight reaches any higher target: each cycle moves at least
  one unit.\<close>

lemma limitWeightIncrease_reaches:
  assumes "0 < current" "current \<le> target"
  shows "((\<lambda>c. limitWeightIncrease target c pct) ^^ nat (target - current)) current = target"
  using assms
proof (induction "nat (target - current)" arbitrary: current rule: less_induct)
  case less
  let ?f = "\<lambda>c. limitWeightIncrease target c pct"
  have fix_target: "(?f ^^ n) target = target" for n
    by (induction n) (auto simp: limitWeightIncrease_def)
  show ?case
  proof (cases "current = target")
    case True
    then show ?thesis by simp
  next
    case False
    let ?c = "?f current" and ?n = "nat (target - current)"
    from False less.prems have c: "current < ?c" "?c \<le> target"
      by (simp_all add: limitWeightIncrease_progress limitWeightIncrease_le)
    let ?m = "nat (target - ?c)"
    from c less.prems have "(?f ^^ ?m) ?c = target"
      by (intro less.hyps) auto
    moreover have "?n = Suc ((?n - 1 - ?m) + ?m)" using c less.prems by auto
    ultimately show ?thesis
      by (metis fix_target funpow_add funpow_swap1 funpow.simps(2) comp_apply)
  qed
qed

section \<open>Properties\<close>

text \<open>the reliability factor never leaves the range between the configured floor and 1, and a
  higher error rate never gets a higher factor.\<close>

theorem reliability_curve:
  assumes "wfParams p" "x \<le> y"
  shows "(p_ErrorMinFactor p \<le> reliabilityFactorWithPolicy x p) \<and>
    (reliabilityFactorWithPolicy x p \<le> 1) \<and>
    (reliabilityFactorWithPolicy y p \<le> reliabilityFactorWithPolicy x p)"
  using error_curve.reliability_bounds[OF wfParams_error_curve[OF assms(1)]]
    error_curve.reliability_antimono[OF wfParams_error_curve[OF assms(1)] assms(2)] by auto

theorem reliability_curve_witness:
  "reliabilityFactorWithPolicy (1/2) DefaultContinuous \<le> reliabilityFactorWithPolicy (1/10) DefaultContinuous \<and>
   reliabilityFactorWithPolicy (1/2) DefaultContinuous = p_ErrorMinFactor DefaultContinuous"
  using reliability_curve[OF wfParams_DefaultContinuous, of "1/10" "1/2"]
  by (simp add: reliabilityFactorWithPolicy_def DefaultContinuous_def)

text \<open>migrating a stored reliability factor to a smoothed error rate and mapping the rate back
  gives the factor, for every factor the map can produce.\<close>

theorem legacy_rate_round_trip:
  assumes "wfParams p" "p_ErrorMinFactor p \<le> f" "f \<le> 1"
  shows "reliabilityFactorWithPolicy (legacyErrorRateWithPolicy f p) p = f"
  using error_curve.reliability_of_legacy[OF wfParams_error_curve[OF assms(1)] assms(2,3)] .

theorem legacy_rate_round_trip_witness:
  "reliabilityFactorWithPolicy (legacyErrorRateWithPolicy (7/10) DefaultContinuous) DefaultContinuous = 7/10"
  by (rule legacy_rate_round_trip[OF wfParams_DefaultContinuous]) (simp_all add: DefaultContinuous_def)

text \<open>The combined multiplier stays inside the configured range, so the weight derived from a
  base weight is at most five times the base: the 64-bit weights cannot overflow for base weights up
  to the range the program accepts.\<close>

theorem combined_weight_bounds:
  assumes "wfParams p" "0 \<le> base"
  shows "(p_CombinedMinFactor p \<le> combinedFactor s p \<and> combinedFactor s p \<le> p_CombinedMaxFactor p) \<and>
    (0 \<le> \<lfloor>of_int base * combinedFactor s p\<rfloor> \<and> \<lfloor>of_int base * combinedFactor s p\<rfloor> \<le> 5 * base)"
  using combinedFactor_bounds[OF assms(1), of s] floor_weight_bounds[OF assms(2), of "combinedFactor s p"] by simp

theorem combined_weight_bounds_witness:
  "\<lfloor>of_int 100 * combinedFactor zeroContinuousState DefaultContinuous\<rfloor> \<le> 500"
  using combined_weight_bounds[OF wfParams_DefaultContinuous, of 100 zeroContinuousState] by simp



end
