(* ===== verification/Writes.thy ===== *)
theory Writes
  imports Factors
begin

text \<open>
  Recommendations and the accounting of control writes
  (\<open>server/internal/tuning/continuous_engine.go\<close>, \<open>business_rules.go\<close>, \<open>circuit_status.go\<close>):
  the event a decision records, the failure streak with its pause and retry budget, and the reset
  after a failed recovery.
\<close>

definition stateRules :: "ContinuousState \<Rightarrow> ContinuousRules" where
  "stateRules s = (case s_Evaluation s of Some e \<Rightarrow> Rules (ev_Params e) | None \<Rightarrow> DefaultContinuousRules)"

definition capacityManagedRule :: "string \<Rightarrow> bool" where
  "capacityManagedRule rule \<longleftrightarrow> rule = ''weight_write'' \<or> rule = ''capacity_reduce'' \<or>
     rule = ''circuit_opened'' \<or> rule = ''circuit_recovered''"

definition eventEvidence :: "ChannelBaseValue \<Rightarrow> ContinuousState \<Rightarrow> string \<Rightarrow> (string \<rightharpoonup> evval)" where
  "eventEvidence base state rule =
    [''evaluation'' \<mapsto> EvEvaluation (s_Evaluation state),
     ''control_revision'' \<mapsto> EvInt (s_ControlRevision state),
     ''capacity'' \<mapsto> EvCapacity (s_Capacity state),
     ''capacity_managed'' \<mapsto> EvBool (cap_Initialized (s_Capacity state) \<and> capacityManagedRule rule),
     ''metric_rpm'' \<mapsto> EvFloat (s_MetricRPM state), ''metric_tpm'' \<mapsto> EvFloat (s_MetricTPM state),
     ''max_rpm'' \<mapsto> EvInt (b_MaxRPM base), ''max_tpm'' \<mapsto> EvInt (b_MaxTPM base),
     ''model'' \<mapsto> EvStr (b_ModelName base), ''phase'' \<mapsto> EvStr (s_Phase state),
     ''multiplier'' \<mapsto> EvFloat (s_Multiplier state),
     ''k_speed'' \<mapsto> EvFloat (s_KSpeed state), ''k_cache'' \<mapsto> EvFloat (s_KCache state),
     ''k_otps'' \<mapsto> EvFloat (s_KOTPS state), ''k_error'' \<mapsto> EvFloat (s_KError state),
     ''probe_speed'' \<mapsto> EvProbeSpeed (s_ProbeSpeed state),
     ''speed_sample_count'' \<mapsto> EvInt (s_SpeedSamples state),
     ''speed_retry_count'' \<mapsto> EvInt (s_SpeedRetries state),
     ''speed_unknown_count'' \<mapsto> EvInt (s_SpeedUnknown state),
     ''speed_legacy_count'' \<mapsto> EvInt (s_SpeedLegacy state),
     ''speed_stats_version'' \<mapsto> EvInt (s_SpeedStatsVersion state),
     ''metric_ttft_p50'' \<mapsto> EvFloat (s_MetricTTFTP50 state),
     ''metric_ttft_p90'' \<mapsto> EvFloat (s_MetricTTFTP90 state),
     ''metric_ttft_p95'' \<mapsto> EvFloat (s_MetricTTFTP95 state),
     ''baseline_ttft_p50'' \<mapsto> EvFloat (s_BaselineTTFTP50 state),
     ''baseline_ttft_p90'' \<mapsto> EvFloat (s_BaselineTTFTP90 state),
     ''baseline_ttft_p95'' \<mapsto> EvFloat (s_BaselineTTFTP95 state),
     ''metric_cache'' \<mapsto> EvFloat (s_MetricCache state),
     ''baseline_cache'' \<mapsto> EvFloat (s_BaselineCache state),
     ''cache_ready'' \<mapsto> EvBool (s_CacheReady state),
     ''metric_otps'' \<mapsto> EvFloat (s_MetricOTPS state),
     ''baseline_otps'' \<mapsto> EvFloat (s_BaselineOTPS state),
     ''otps_ready'' \<mapsto> EvBool (s_OTPSReady state),
     ''otps_sample_count'' \<mapsto> EvInt (s_OTPSSamples state),
     ''otps_retry_count'' \<mapsto> EvInt (s_OTPSRetries state),
     ''otps_unknown_count'' \<mapsto> EvInt (s_OTPSUnknown state),
     ''otps_stats_version'' \<mapsto> EvInt (s_OTPSStatsVersion state),
     ''smoothed_error_rate'' \<mapsto> EvFloat (s_SmoothedErrorRate state),
     ''probe_attempts'' \<mapsto> EvInt (s_ProbeAttempts state),
     ''probe_successes'' \<mapsto> EvInt (s_ProbeSuccesses state),
     ''probe_slow_streak'' \<mapsto> EvInt (s_ProbeSlowStreak state),
     ''probe_timeout_seconds'' \<mapsto> EvInt (r_ProbeTimeoutSeconds (stateRules state)),
     ''probe_slow_limit'' \<mapsto> EvInt (r_ProbeSlowLimit (stateRules state))]"

definition continuousEvent ::
    "env \<Rightarrow> string \<Rightarrow> ChannelBaseValue \<Rightarrow> ContinuousState \<Rightarrow> string \<Rightarrow> string \<Rightarrow> time \<Rightarrow> Recommendation" where
  "continuousEvent E site base state rule mode now = \<lparr>
     rec_ID = NewID (digest E) now site (b_ChannelID base) rule,
     rec_InstanceID = site,
     rec_ChannelName = b_ChannelName base,
     rec_Rule = rule,
     rec_ChannelID = b_ChannelID base,
     rec_CreatedAt = now,
     rec_Evidence = eventEvidence base state rule,
     rec_CurrentWeight = (if cap_Initialized (s_Capacity state) then cap_ConfirmedWeight (s_Capacity state)
                          else b_CurrentWeight base),
     rec_ProposedWeight = s_ProposedWeight state,
     rec_CurrentPriority = Some (b_CurrentPriority base),
     rec_ProposedPriority = None,
     rec_ProposedChannelStatus = None,
     rec_ModeAtCreation = mode,
     rec_Status = ''recorded'',
     rec_CommandID = None,
     rec_Outcome = Map.empty,
     rec_OutcomeAt = None,
     rec_Hit = None,
     rec_ActedBy = [],
     rec_ActedAt = None\<rparr>"

definition addEvidence :: "string \<Rightarrow> evval \<Rightarrow> Recommendation \<Rightarrow> Recommendation" where
  "addEvidence k v r = r\<lparr>rec_Evidence := (rec_Evidence r)(k \<mapsto> v)\<rparr>"

definition noteWriteSuccess :: "ContinuousState \<Rightarrow> ContinuousState" where
  "noteWriteSuccess state =
     (let s = state\<lparr>s_WriteFailureStreak := 0, s_LastWriteError := [], s_LastWriteFailureAt := None\<rparr>
      in if s_PausedReason s = ''write_failed'' then s\<lparr>s_PausedReason := []\<rparr> else s)"

definition noteWriteFailure ::
    "env \<Rightarrow> string \<Rightarrow> ChannelBaseValue \<Rightarrow> string \<Rightarrow> goerr \<Rightarrow> time \<Rightarrow> ContinuousState \<Rightarrow> world
     \<Rightarrow> ContinuousState \<times> world" where
  "noteWriteFailure E site base mode writeErr now state w =
     (if errorsIs writeErr ErrDecisionSuperseded then (state, w)
      else let s = state\<lparr>s_WriteFailureStreak := s_WriteFailureStreak state + 1,
                         s_LastWriteFailureAt := Some now, s_LastWriteError := errorText writeErr\<rparr>
           in if s_WriteFailureStreak s \<ge> r_WritePauseAttempts (stateRules s) \<and> s_PausedReason s = []
              then let s' = s\<lparr>s_PausedReason := ''write_failed''\<rparr>;
                       rec = addEvidence ''error'' (EvStr (s_LastWriteError s'))
                               (addEvidence ''reason'' (EvStr ''write_failed'')
                                 (continuousEvent E site base s' ''auto_paused'' mode now))
                   in (s', emit (InsertRecommendation rec) w)
              else (s, w))"

definition writeAttemptAllowed :: "ContinuousState \<Rightarrow> time \<Rightarrow> bool" where
  "writeAttemptAllowed state now \<longleftrightarrow>
     (if s_WriteFailureStreak state \<ge> r_WriteMaxAttempts (stateRules state) then False
      else if s_PausedReason state = [] then True
      else if s_PausedReason state \<noteq> ''write_failed'' then False
      else (case s_LastWriteFailureAt state of
              None \<Rightarrow> True
            | Some t \<Rightarrow> \<not> now < t + r_WriteRetrySeconds (stateRules state) * Second))"

definition clearProbes :: "ContinuousState \<Rightarrow> ContinuousState" where
  "clearProbes s = s\<lparr>s_ProbeAttempts := 0, s_ProbeSuccesses := 0, s_ProbeDurationSum := 0,
     s_ProbeSlowStreak := 0\<rparr>"

definition silentUntil :: "ContinuousDispatchParams \<Rightarrow> time \<Rightarrow> time" where
  "silentUntil p now = now + p_SilentMinutes p * Minute"

definition resetFailedCircuitEnable ::
    "ContinuousDispatchParams \<Rightarrow> time \<Rightarrow> ContinuousState \<Rightarrow> ContinuousState" where
  "resetFailedCircuitEnable p now state =
     (clearProbes (state\<lparr>s_CircuitStatusTarget := 0, s_CircuitStatusCommandID := [],
        s_Phase := ''circuit'', s_SoftStartPending := False, s_Multiplier := 0,
        s_ProposedWeight := 0\<rparr>))\<lparr>s_NextProbeAt := Some (silentUntil p now)\<rparr>"

section \<open>Lemmas\<close>

lemma stateRules_cong: "s_Evaluation s = s_Evaluation t \<Longrightarrow> stateRules s = stateRules t"
  by (simp add: stateRules_def)

lemma noteWriteFailure_control [trace_simps]:
  "controls (snd (noteWriteFailure E site base mode err now s w)) = controls w"
  by (simp add: noteWriteFailure_def Let_def controls_emit)

text \<open>A failure is counted once, unless the decision was superseded; the channel pauses exactly
  when the streak reaches the threshold and no other pause is set.\<close>

lemma noteWriteFailure_streak:
  "s_WriteFailureStreak (fst (noteWriteFailure E site base mode err now s w)) =
     (if errorsIs err ErrDecisionSuperseded then s_WriteFailureStreak s else s_WriteFailureStreak s + 1)"
  by (simp add: noteWriteFailure_def Let_def)

lemma noteWriteFailure_paused:
  "s_PausedReason (fst (noteWriteFailure E site base mode err now s w)) =
     (if \<not> errorsIs err ErrDecisionSuperseded \<and> s_PausedReason s = [] \<and>
         s_WriteFailureStreak s + 1 \<ge> r_WritePauseAttempts (stateRules s)
      then ''write_failed'' else s_PausedReason s)"
  by (simp add: noteWriteFailure_def Let_def stateRules_def)

lemma noteWriteSuccess_allows:
  assumes "1 \<le> r_WriteMaxAttempts (stateRules s)" "s_PausedReason s = [] \<or> s_PausedReason s = ''write_failed''"
  shows "writeAttemptAllowed (noteWriteSuccess s) now"
  using assms by (auto simp: writeAttemptAllowed_def noteWriteSuccess_def Let_def stateRules_def)

context call_filter
begin

lemma noteWriteFailure_emits: "emits P w (snd (noteWriteFailure E site base mode err now s w))"
  by (simp add: noteWriteFailure_def Let_def emits_emit)

end

end
