(* ===== verification/Examples.thy ===== *)
theory Examples
  imports State
begin

text \<open>
  Concrete inputs for the witnesses of the development: a store that accepts every call, a channel
  of base weight 100 with the default policy, and a world in which no call was made.
\<close>

definition exampleEnv :: env where
  "exampleEnv = \<lparr>
     putState = (\<lambda>h s. None),
     createWeightChange = (\<lambda>h r t. (''cmd-1'', None)),
     createProbe = (\<lambda>h r. Inl ''probe-1''),
     commandStatus = (\<lambda>h c. Inl ''pending''),
     commandResult = None,
     completedProbeCount = (\<lambda>h site ch. Inl 10),
     getPolicy = (\<lambda>h site. Inl None),
     putPolicy = (\<lambda>h r. None),
     hasExpiredAutoCommands = None,
     siteIDForInstance = (\<lambda>h i. Inl i),
     listChannelBaseValues = (\<lambda>h site. Inl []),
     listContinuousStates = (\<lambda>h site. Inl []),
     queryRecentChannelBuckets = (\<lambda>h ch t. Inl []),
     queryMetrics = (\<lambda>h site s e. Inl []),
     queryRoutineProbeSpeeds = None,
     queryCurrentChannelRateSnapshot = None,
     queryCurrentChannelRates = None,
     queryRecentChannelBucketsBySite = None,
     listChannelScheduleControls = None,
     listEnabledSites = (\<lambda>h. Inl [''site'']),
     checkControl = (\<lambda>h. None),
     routineProbeController = (\<lambda>h site. Inl (Some ''config'')),
     clock = (\<lambda>h. 70000000000 * Second),
     ctxErr = (\<lambda>h. False),
     digest = (\<lambda>s. replicate 60 (CHR ''0''))\<rparr>"

definition exampleBase :: ChannelBaseValue where
  "exampleBase = \<lparr>
     b_InstanceID = ''site'', b_ChannelID = 7, b_ChannelName = ''channel'', b_GroupName = ''default'',
     b_ModelName = ''model'', b_BaseWeight = 100, b_BasePriority = 0, b_MaxRPM = 0, b_MaxTPM = 0,
     b_CurrentWeight = 100, b_CurrentPriority = 0, b_SnapshotAt = 70000000000 * Second,
     b_Models = [''model''], b_UpdatedAt = 69000000000 * Second, b_UpdatedBy = ''admin''\<rparr>"

definition exampleMetric :: ChannelMetric where
  "exampleMetric = zeroChannelMetric\<lparr>m_ChannelID := 7, m_RequestCount := 100, m_ErrorCount := 40\<rparr>"

definition examplePolicyRecord :: PolicyRecord where
  "examplePolicyRecord = \<lparr>pr_InstanceID = ''site'', pr_Policy = DefaultPolicy, pr_Mode = ''auto'',
     pr_UpdatedBy = ''admin'', pr_UpdatedAt = 69000000000 * Second\<rparr>"

definition exampleWorld :: world where
  "exampleWorld = \<lparr>trace = [], version = 3, guards = (\<lambda>k. 0), writes = 0, evaluated = 0, preserved = 0\<rparr>"

definition exampleRecord :: Recommendation where
  "exampleRecord = \<lparr>
     rec_ID = ''tun-1'', rec_InstanceID = ''site'', rec_ChannelName = ''channel'', rec_Rule = ''weight_write'',
     rec_ChannelID = 7, rec_CreatedAt = 100, rec_Evidence = Map.empty, rec_CurrentWeight = 100,
     rec_ProposedWeight = 80, rec_CurrentPriority = None, rec_ProposedPriority = None,
     rec_ProposedChannelStatus = None, rec_ModeAtCreation = ''auto'', rec_Status = ''logged'',
     rec_CommandID = None, rec_Outcome = Map.empty, rec_OutcomeAt = None, rec_Hit = None,
     rec_ActedBy = [], rec_ActedAt = None\<rparr>"

lemma example_env [simp]:
  "putState exampleEnv h s = None" "createWeightChange exampleEnv h r t = (''cmd-1'', None)"
  "createProbe exampleEnv h r = Inl ''probe-1''" "commandStatus exampleEnv h c = Inl ''pending''"
  "commandResult exampleEnv = None" "completedProbeCount exampleEnv h site ch = Inl 10"
  "ctxErr exampleEnv h = False" "queryRecentChannelBuckets exampleEnv h ch t = Inl []"
  "clock exampleEnv h = 70000000000 * Second" "checkControl exampleEnv h = None"
  by (simp_all add: exampleEnv_def)

lemma example_world [simp]:
  "trace exampleWorld = []" "guards exampleWorld k = 0" "version exampleWorld = 3"
  by (simp_all add: exampleWorld_def)

end
