(* ===== verification/Capacity.thy ===== *)
theory Capacity
  imports Writes Examples
begin

text \<open>
  The capacity tracker (\<open>server/internal/tuning/capacity_control.go\<close>): the utilisation of the
  configured request and token rates, the bounded reduction target, the latch with its
  confirmation, feedback and release windows, and the two-phase control write (create, then settle
  by the command's receipt).
\<close>

section \<open>Model\<close>

definition capacityConfigured :: "ChannelBaseValue \<Rightarrow> bool" where
  "capacityConfigured b \<longleftrightarrow> b_MaxRPM b > 0 \<or> b_MaxTPM b > 0"

definition capacityUtilization :: "ChannelBaseValue \<Rightarrow> float64 \<Rightarrow> float64 \<Rightarrow> float64" where
  "capacityUtilization b rpm tpm =
     (let u = (if b_MaxRPM b > 0 then rpm / of_int (b_MaxRPM b) else 0)
      in if b_MaxTPM b > 0 then max u (tpm / of_int (b_MaxTPM b)) else u)"

definition capacityTarget ::
    "int64 \<Rightarrow> float64 \<Rightarrow> float64 \<Rightarrow> ContinuousDispatchParams option \<Rightarrow> int64 \<times> int64" where
  "capacityTarget weight utilization maxDecreasePercent policy =
     (let rules = optionalRules policy;
          least = r_CapacityMinWeight rules
      in if weight \<le> least \<or> utilization < 1 then (weight, weight)
         else let raw = max least \<lfloor>of_int weight * r_CapacityTargetUtilization rules / utilization\<rfloor>;
                  bounded = max raw (max (weight - max 1 \<lfloor>of_int weight * maxDecreasePercent / 100\<rfloor>) least)
              in (raw, bounded))"

definition withCap :: "(CapacityControl \<Rightarrow> CapacityControl) \<Rightarrow> ContinuousState \<Rightarrow> ContinuousState" where
  "withCap f s = s\<lparr>s_Capacity := f (s_Capacity s)\<rparr>"

definition confirmCapacityWrite :: "int64 \<Rightarrow> time \<Rightarrow> ContinuousState \<Rightarrow> ContinuousState" where
  "confirmCapacityWrite weight now s0 =
     (let s1 = (withCap (\<lambda>c. c\<lparr>cap_ConfirmedWeight := weight, cap_AppliedAt := now,
                  cap_PendingCommandID := [], cap_UnderSince := 0\<rparr>) s0)
                 \<lparr>s_LastWrittenWeight := Some weight, s_LastWriteAt := Some now\<rparr>;
          s2 = (if s_Phase s1 = ''circuit'' \<and> weight = 0
                then let p = (case s_Evaluation s1 of Some e \<Rightarrow> ev_Params e | None \<Rightarrow> DefaultContinuous)
                     in s1\<lparr>s_CircuitOpenedAt := Some now, s_NextProbeAt := Some (silentUntil p now)\<rparr>
                else s1);
          c = s_Capacity s2;
          s3 = s2\<lparr>s_CapacityLimited := cap_Active c \<or> \<not> cap_Fresh c\<rparr>
      in withCap (\<lambda>c. c\<lparr>cap_Phase := (if \<not> cap_Fresh c then ''unavailable''
                                      else if cap_Active c then ''waiting_feedback'' else ''normal'')\<rparr>) s3)"

text \<open>The policy read by the reset is the stored one, or the default when it cannot be read.\<close>

definition resetUnappliedCapacityTransition ::
    "env \<Rightarrow> string \<Rightarrow> time \<Rightarrow> ContinuousState \<Rightarrow> world \<Rightarrow> ContinuousState \<times> world" where
  "resetUnappliedCapacityTransition E site now s w =
     (if s_Phase s = ''soft_start'' then
        let p = (case getPolicy E (trace w) site of
                   Inl (Some r) \<Rightarrow> pol_Continuous (pr_Policy r) | _ \<Rightarrow> DefaultContinuous)
        in (resetFailedCircuitEnable p now s, emit (GetPolicy site) w)
      else if s_Phase s = ''circuit'' \<and> cap_PendingWeight (s_Capacity s) = 0 then
        (s\<lparr>s_Phase := ''normal'', s_CircuitOpenedAt := None, s_NextProbeAt := None,
           s_OriginalPriority := None\<rparr>, w)
      else (s, w))"

text \<open>The receipt of a pending command: its status, the time it was applied, and whether the query
  failed.\<close>

definition pendingReceipt :: "env \<Rightarrow> string \<Rightarrow> time \<Rightarrow> world \<Rightarrow> string \<times> time \<times> bool \<times> world" where
  "pendingReceipt E cmd now w =
     (case commandResult E of
        Some q \<Rightarrow> (case q (trace w) cmd of (status, completedAt, err) \<Rightarrow>
            (status, if completedAt \<noteq> 0 then completedAt else now, err \<noteq> None,
             emit (ContinuousCommandResult cmd) w))
      | None \<Rightarrow> (case commandStatus E (trace w) cmd of
            Inl status \<Rightarrow> (status, now, False, emit (ContinuousCommandStatus cmd) w)
          | Inr e \<Rightarrow> ([], now, True, emit (ContinuousCommandStatus cmd) w)))"

definition settleCapacityWrite ::
    "env \<Rightarrow> string \<Rightarrow> ChannelBaseValue \<Rightarrow> time \<Rightarrow> ContinuousState \<Rightarrow> world \<Rightarrow> ContinuousState \<times> world" where
  "settleCapacityWrite E site b now s w =
     (let cmd = cap_PendingCommandID (s_Capacity s)
      in if cmd = [] then (s, w)
         else case pendingReceipt E cmd now w of (status, appliedAt, failed, w1) \<Rightarrow>
           if failed \<or> status = ''pending'' \<or> status = ''delivered'' then (s, w1)
           else if status = ''succeeded'' then
             (noteWriteSuccess (confirmCapacityWrite (cap_PendingWeight (s_Capacity s)) appliedAt s), w1)
           else let s1 = withCap (\<lambda>c. c\<lparr>cap_PendingCommandID := []\<rparr>) s
                in case resetUnappliedCapacityTransition E site now s1 w1 of (s2, w2) \<Rightarrow>
                  if status = ''superseded'' then (s2, w2)
                  else case noteWriteFailure E site b ''auto''
                              (ErrText (''automatic weight command '' @ status)) now s2 w2 of (s3, w3) \<Rightarrow>
                    (withCap (\<lambda>c. c\<lparr>cap_Phase := ''write_failed''\<rparr>) s3, w3))"

text \<open>\<open>updateCapacity\<close>, first without a configured limit, then the sampling of one coverage
  cutoff, and the phase shown to the operator.\<close>

definition updateCapacityUnconfigured :: "ChannelBaseValue \<Rightarrow> ContinuousState \<Rightarrow> ContinuousState" where
  "updateCapacityUnconfigured b s =
     (let c1 = (s_Capacity s)\<lparr>cap_Active := False, cap_Fresh := True, cap_MaxRPM := 0, cap_MaxTPM := 0,
                 cap_OverSince := 0, cap_UnderSince := 0, cap_Reason := [], cap_Phase := ''normal''\<rparr>;
          pending = (cap_PendingCommandID c1 \<noteq> []);
          s1 = s\<lparr>s_Capacity := c1, s_CapacityLimited := pending\<rparr>
      in if pending then withCap (\<lambda>c. c\<lparr>cap_Phase := ''awaiting_write''\<rparr>) s1
         else if cap_Initialized c1
         then withCap (\<lambda>c. c\<lparr>cap_ConfirmedWeight := effectiveCurrentWeight b s1\<rparr>) s1
         else s1)"

text \<open>Initialisation, a changed limit and a newly confirmed external weight.\<close>

definition refreshCapacity :: "ChannelBaseValue \<Rightarrow> time \<Rightarrow> ContinuousState \<Rightarrow> CapacityControl" where
  "refreshCapacity b now s =
     (let w = effectiveCurrentWeight b s;
          c0 = s_Capacity s;
          c1 = (if cap_Initialized c0 then c0 else c0\<lparr>cap_Initialized := True, cap_ConfirmedWeight := w\<rparr>);
          c2 = (if cap_MaxRPM c1 \<noteq> b_MaxRPM b \<or> cap_MaxTPM c1 \<noteq> b_MaxTPM b
                then c1\<lparr>cap_Active := False, cap_OverSince := 0, cap_UnderSince := 0,
                        cap_MaxRPM := b_MaxRPM b, cap_MaxTPM := b_MaxTPM b\<rparr> else c1);
          c3 = (if cap_PendingCommandID c2 = [] \<and> w \<noteq> cap_ConfirmedWeight c2
                then c2\<lparr>cap_ConfirmedWeight := w, cap_AppliedAt := now, cap_UnderSince := 0\<rparr> else c2)
      in c3\<lparr>cap_BoundWeight := cap_ConfirmedWeight c3, cap_RawTarget := cap_ConfirmedWeight c3,
            cap_Reason := []\<rparr>)"

definition capacityFresh :: "ContinuousRules \<Rightarrow> time \<Rightarrow> time \<Rightarrow> bool \<Rightarrow> CapacityControl \<Rightarrow> bool" where
  "capacityFresh rules asOf now available c \<longleftrightarrow>
     available \<and> asOf \<noteq> 0 \<and> \<not> asOf > now \<and>
     timeSub now asOf \<le> r_CapacityMaxAgeSeconds rules * Second \<and> \<not> asOf < cap_SampleAt c"

definition feedbackReady :: "ContinuousRules \<Rightarrow> time \<Rightarrow> CapacityControl \<Rightarrow> bool" where
  "feedbackReady rules asOf c \<longleftrightarrow>
     cap_AppliedAt c = 0 \<or> \<not> asOf - r_CapacityFeedbackSeconds rules * Second < cap_AppliedAt c"

definition sampleCapacity :: "ContinuousRules \<Rightarrow> time \<Rightarrow> CapacityControl \<Rightarrow> CapacityControl" where
  "sampleCapacity rules asOf c0 =
     (if \<not> asOf > cap_SampleAt c0 then c0
      else
        let c1 = (if cap_SampleAt c0 \<noteq> 0 \<and>
                     timeSub asOf (cap_SampleAt c0) > r_CapacitySampleGapSeconds rules * Second
                  then c0\<lparr>cap_OverSince := 0, cap_UnderSince := 0\<rparr> else c0);
            c2 = c1\<lparr>cap_SampleAt := asOf\<rparr>;
            c3 = (if cap_Utilization c2 \<ge> 1
                  then (if cap_OverSince c2 = 0 then c2\<lparr>cap_OverSince := asOf\<rparr> else c2)
                  else c2\<lparr>cap_OverSince := 0\<rparr>)
        in if cap_Active c3 \<and> cap_Utilization c3 < r_CapacityReleaseUtilization rules \<and>
              feedbackReady rules asOf c3 \<and> cap_PendingCommandID c3 = []
           then let c4 = (if cap_UnderSince c3 = 0 then c3\<lparr>cap_UnderSince := asOf\<rparr> else c3)
                in if timeSub asOf (cap_UnderSince c4) \<ge> r_CapacityRecoverySeconds rules * Second
                   then c4\<lparr>cap_Active := False\<rparr> else c4
           else c3\<lparr>cap_UnderSince := 0\<rparr>)"

definition capacityPhase :: "ContinuousRules \<Rightarrow> time \<Rightarrow> float64 \<Rightarrow> CapacityControl \<Rightarrow> CapacityControl" where
  "capacityPhase rules asOf maxDecreasePercent c =
     (if cap_PendingCommandID c \<noteq> [] then c\<lparr>cap_Phase := ''awaiting_write''\<rparr>
      else if cap_Active c \<and> \<not> feedbackReady rules asOf c then c\<lparr>cap_Phase := ''waiting_feedback''\<rparr>
      else if cap_Active c \<and> cap_UnderSince c \<noteq> 0 then c\<lparr>cap_Phase := ''recovering''\<rparr>
      else if cap_Active c \<and> cap_Utilization c < 1 then c\<lparr>cap_Phase := ''holding''\<rparr>
      else if cap_Utilization c \<ge> 1 \<and>
              (cap_OverSince c = 0 \<or>
               timeSub asOf (cap_OverSince c) < r_CapacityOverloadSeconds rules * Second)
      then c\<lparr>cap_Phase := ''observing''\<rparr>
      else if cap_Utilization c \<ge> 1 \<and> cap_ConfirmedWeight c \<le> r_CapacityMinWeight rules
      then c\<lparr>cap_Phase := ''minimum_weight''\<rparr>
      else if cap_Utilization c \<ge> 1
      then (case capacityTarget (cap_ConfirmedWeight c) (cap_Utilization c) maxDecreasePercent
                   (Some (zeroContinuousDispatchParams\<lparr>p_ContinuousRules := rules\<rparr>)) of (raw, bounded) \<Rightarrow>
              c\<lparr>cap_Phase := ''reducing'', cap_RawTarget := raw, cap_BoundWeight := bounded\<rparr>)
      else c\<lparr>cap_Phase := ''normal''\<rparr>)"

definition updateCapacity ::
    "ChannelBaseValue \<Rightarrow> time \<Rightarrow> time \<Rightarrow> bool \<Rightarrow> float64 \<Rightarrow> ContinuousState \<Rightarrow> ContinuousState" where
  "updateCapacity b asOf now available maxDecreasePercent s =
     (if \<not> capacityConfigured b then updateCapacityUnconfigured b s
      else
        let rules = stateRules s;
            c1 = refreshCapacity b now s;
            fresh = capacityFresh rules asOf now available c1;
            c2 = c1\<lparr>cap_Fresh := fresh\<rparr>
        in if \<not> fresh
           then s\<lparr>s_Capacity := c2\<lparr>cap_OverSince := 0, cap_UnderSince := 0, cap_Phase := ''unavailable''\<rparr>,
                  s_CapacityLimited := True\<rparr>
           else
             let u = capacityUtilization b (s_MetricRPM s) (s_MetricTPM s);
                 c3 = c2\<lparr>cap_Utilization := u, cap_Active := cap_Active c2 \<or> u \<ge> 1\<rparr>;
                 c4 = sampleCapacity rules asOf c3
             in s\<lparr>s_CapacityLimited := cap_Active c4 \<or> cap_Utilization c4 \<ge> 1 \<or> cap_PendingCommandID c4 \<noteq> [],
                  s_Capacity := capacityPhase rules asOf maxDecreasePercent c4\<rparr>)"

text \<open>The first eligible peer of the same model and priority permits a reduction.\<close>

definition eligiblePeer ::
    "ChannelBaseValue \<Rightarrow> ChannelBaseValue \<Rightarrow> ContinuousState \<Rightarrow> ChannelMetric \<Rightarrow> ContinuousDispatchParams \<Rightarrow> bool" where
  "eligiblePeer b peer state m p \<longleftrightarrow>
     \<not> (b_ChannelID peer = b_ChannelID b \<or> b_CurrentPriority peer \<noteq> b_CurrentPriority b \<or>
        b_ModelName peer \<noteq> b_ModelName b \<or> b_BaseWeight peer \<le> 0 \<or>
        effectiveCurrentWeight peer state \<le> 0 \<or> s_CircuitDisabled state \<or>
        (s_Phase state \<noteq> [] \<and> s_Phase state \<noteq> ''normal'') \<or> s_PausedReason state \<noteq> [] \<or>
        cap_Active (s_Capacity state) \<or> cap_PendingCommandID (s_Capacity state) \<noteq> [] \<or>
        s_SmoothedErrorRate state \<ge> p_ErrorDegradedRate p) \<and>
     \<not> capacityUtilization peer (of_int (m_RequestCount m)) (of_int (m_TPM m))
         \<ge> r_CapacityPeerUtilization (Rules p)"

fun capacityDiversion ::
    "ChannelBaseValue \<Rightarrow> ChannelBaseValue list \<Rightarrow> (int64 \<rightharpoonup> ContinuousState) \<Rightarrow> (int64 \<rightharpoonup> ChannelMetric)
     \<Rightarrow> ContinuousDispatchParams \<Rightarrow> bool \<times> string" where
  "capacityDiversion b [] states rates p = (False, ''no_eligible_headroom'')"
| "capacityDiversion b (peer # rows) states rates p =
     (if eligiblePeer b peer (stateAt states (b_ChannelID peer)) (metricAt rates (b_ChannelID peer)) p
      then (True, if capacityConfigured peer then [] else ''peer_capacity_unconfigured'')
      else capacityDiversion b rows states rates p)"

definition applyCapacityTarget :: "ContinuousState \<Rightarrow> bool \<times> ContinuousState" where
  "applyCapacityTarget s =
     (let c = s_Capacity s
      in if cap_PendingCommandID c \<noteq> [] then (False, s\<lparr>s_ProposedWeight := cap_PendingWeight c\<rparr>)
         else if \<not> s_CapacityLimited s then (False, s)
         else let bound = (if cap_Phase c = ''reducing'' then cap_BoundWeight c else cap_ConfirmedWeight c);
                  after = min (s_ProposedWeight s) bound
              in (cap_Phase c = ''reducing'' \<and> after < s_ProposedWeight s, s\<lparr>s_ProposedWeight := after\<rparr>))"

definition capacityRecoveryBlocked :: "ChannelBaseValue \<Rightarrow> ContinuousState \<Rightarrow> bool" where
  "capacityRecoveryBlocked b s \<longleftrightarrow>
     cap_PendingCommandID (s_Capacity s) \<noteq> [] \<or> capacityConfigured b \<and> s_CapacityLimited s"

definition trackCapacity :: "ChannelBaseValue \<Rightarrow> ContinuousState \<Rightarrow> ContinuousState" where
  "trackCapacity b s =
     (if cap_Initialized (s_Capacity s) then s
      else withCap (\<lambda>c. c\<lparr>cap_Initialized := True, cap_ConfirmedWeight := effectiveCurrentWeight b s,
             cap_MaxRPM := b_MaxRPM b, cap_MaxTPM := b_MaxTPM b,
             cap_Fresh := (if capacityConfigured b then cap_Fresh c else True)\<rparr>) s)"

definition createTrackedWeightChange ::
    "env \<Rightarrow> Recommendation \<Rightarrow> ChannelBaseValue \<Rightarrow> time \<Rightarrow> ContinuousState \<Rightarrow> world
     \<Rightarrow> (string \<times> goerr option) \<times> ContinuousState \<times> world" where
  "createTrackedWeightChange E rec0 b now s0 w0 =
     (if \<not> writeAttemptAllowed s0 now then (([], Some ErrDecisionSuperseded), s0, w0)
      else
        let s1 = trackCapacity b s0;
            rec = (addEvidence ''base_updated_at'' (EvTime (b_UpdatedAt b))
                    (addEvidence ''base_weight'' (EvInt (b_BaseWeight b))
                      (addEvidence ''capacity'' (EvCapacity (s_Capacity s1))
                        (addEvidence ''capacity_managed'' (EvBool True) rec0))))
                  \<lparr>rec_CurrentWeight := cap_ConfirmedWeight (s_Capacity s1)\<rparr>;
            s2 = s1\<lparr>s_UpdatedAt := now\<rparr>;
            (perr, w1) = putStateCall E s2 w0
        in case perr of
             Some e \<Rightarrow> (([], Some e), s2, w1)
           | None \<Rightarrow>
             (case createWeightChange E (trace w1) rec now of (cmd, cerr) \<Rightarrow>
                let w2 = emit (CreateContinuousWeightChange rec ''system:auto'' now) w1
                in case cerr of
                     Some e \<Rightarrow> ((cmd, Some e), s2, w2)
                   | None \<Rightarrow>
                     let s3 = (withCap (\<lambda>c. c\<lparr>cap_PendingCommandID := cmd,
                                 cap_PendingWeight := rec_ProposedWeight rec,
                                 cap_Phase := ''awaiting_write''\<rparr>) s2)\<lparr>s_CapacityLimited := True\<rparr>
                     in if cmd = []
                        then ((cmd, None),
                              noteWriteSuccess (confirmCapacityWrite (rec_ProposedWeight rec)
                                                  (clock E (trace w2)) s3),
                              emit Now w2)
                        else case settleCapacityWrite E (rec_InstanceID rec) b now s3 w2 of (s4, w3) \<Rightarrow>
                               ((cmd, None), s4, w3)))"

section \<open>Calls\<close>

context call_filter
begin

lemma resetUnapplied_emits: "emits P w (snd (resetUnappliedCapacityTransition E site now s w))"
  by (simp add: resetUnappliedCapacityTransition_def Let_def emits_emit)

lemma pendingReceipt_emits: "pendingReceipt E cmd now w = (st, t, f, w1) \<Longrightarrow> emits P w w1"
  by (auto simp: pendingReceipt_def emits_emit split: option.splits sum.splits prod.splits)

lemma settleCapacityWrite_emits: "emits P w (snd (settleCapacityWrite E site b now s w))"
proof (cases "cap_PendingCommandID (s_Capacity s) = []")
  case True
  then show ?thesis by (simp add: settleCapacityWrite_def)
next
  case False
  obtain st t f w1 where r: "pendingReceipt E (cap_PendingCommandID (s_Capacity s)) now w = (st, t, f, w1)"
    by (cases "pendingReceipt E (cap_PendingCommandID (s_Capacity s)) now w") auto
  note w1 = pendingReceipt_emits[OF r]
  obtain s2 w2 where q: "resetUnappliedCapacityTransition E site now
      (withCap (\<lambda>c. c\<lparr>cap_PendingCommandID := []\<rparr>) s) w1 = (s2, w2)"
    by (cases "resetUnappliedCapacityTransition E site now (withCap (\<lambda>c. c\<lparr>cap_PendingCommandID := []\<rparr>) s) w1") auto
  have w2: "emits P w w2" using resetUnapplied_emits[of w1 E site now] q w1 by (metis emits_trans snd_conv)
  have w3: "emits P w (snd (noteWriteFailure E site b mode e now s2 w2))" for mode e
    using noteWriteFailure_emits w2 emits_trans by blast
  show ?thesis
    using False w1 w2 w3 by (auto simp: settleCapacityWrite_def Let_def r q split: prod.splits)
       (metis snd_conv)
qed

end

text \<open>The state a tracked write persists before it asks for the command.\<close>

definition persistedBeforeWrite :: "ChannelBaseValue \<Rightarrow> time \<Rightarrow> ContinuousState \<Rightarrow> ContinuousState" where
  "persistedBeforeWrite b now s = (trackCapacity b s)\<lparr>s_UpdatedAt := now\<rparr>"

text \<open>The record a tracked write sends: the decision with the tracked evidence added.\<close>

definition trackedRecord :: "Recommendation \<Rightarrow> ChannelBaseValue \<Rightarrow> ContinuousState \<Rightarrow> Recommendation" where
  "trackedRecord r b s =
     (addEvidence ''base_updated_at'' (EvTime (b_UpdatedAt b))
       (addEvidence ''base_weight'' (EvInt (b_BaseWeight b))
         (addEvidence ''capacity'' (EvCapacity (s_Capacity (trackCapacity b s)))
           (addEvidence ''capacity_managed'' (EvBool True) r))))
     \<lparr>rec_CurrentWeight := cap_ConfirmedWeight (s_Capacity (trackCapacity b s))\<rparr>"

lemma trackedRecord_simps [simp]:
  "rec_ProposedWeight (trackedRecord r b s) = rec_ProposedWeight r"
  "rec_InstanceID (trackedRecord r b s) = rec_InstanceID r"
  "rec_Rule (trackedRecord r b s) = rec_Rule r"
  "rec_ChannelID (trackedRecord r b s) = rec_ChannelID r"
  by (simp_all add: trackedRecord_def addEvidence_def)

text \<open>A tracked write in the order of its effects: allowed, persisted, commanded, settled.\<close>

definition afterCommand ::
    "env \<Rightarrow> Recommendation \<Rightarrow> ChannelBaseValue \<Rightarrow> time \<Rightarrow> string \<Rightarrow> ContinuousState \<Rightarrow> world \<Rightarrow> ContinuousState \<times> world" where
  "afterCommand E r b now cmd s w =
     (let s3 = (withCap (\<lambda>c. c\<lparr>cap_PendingCommandID := cmd, cap_PendingWeight := rec_ProposedWeight r,
                  cap_Phase := ''awaiting_write''\<rparr>) s)\<lparr>s_CapacityLimited := True\<rparr>
      in if cmd = []
         then (noteWriteSuccess (confirmCapacityWrite (rec_ProposedWeight r) (clock E (trace w)) s3), emit Now w)
         else settleCapacityWrite E (rec_InstanceID r) b now s3 w)"

lemma createTracked_eq:
  "createTrackedWeightChange E r b now s w =
     (if \<not> writeAttemptAllowed s now then (([], Some ErrDecisionSuperseded), s, w)
      else
        let s2 = persistedBeforeWrite b now s;
            w1 = emit (PutContinuousState s2) w
        in case putState E (trace w) s2 of
             Some e \<Rightarrow> (([], Some e), s2, w1)
           | None \<Rightarrow>
               let r' = trackedRecord r b s;
                   w2 = emit (CreateContinuousWeightChange r' ''system:auto'' now) w1
               in (case createWeightChange E (trace w1) r' now of
                     (cmd, Some e) \<Rightarrow> ((cmd, Some e), s2, w2)
                   | (cmd, None) \<Rightarrow> ((cmd, None), afterCommand E r' b now cmd s2 w2)))"
  by (simp add: createTrackedWeightChange_def persistedBeforeWrite_def trackedRecord_def afterCommand_def
      putStateCall_def Let_def split: option.split prod.split)

context call_filter
begin

lemma afterCommand_emits: "emits P w (snd (afterCommand E r b now cmd s w))"
  using settleCapacityWrite_emits by (simp add: afterCommand_def Let_def emits_emit)

lemma createTracked_emits:
  assumes "writeAttemptAllowed s now \<Longrightarrow> P (PutContinuousState (persistedBeforeWrite b now s))"
    and "writeAttemptAllowed s now \<Longrightarrow> P (CreateContinuousWeightChange (trackedRecord r b s) ''system:auto'' now)"
  shows "emits P w (snd (snd (createTrackedWeightChange E r b now s w)))"
proof (cases "writeAttemptAllowed s now")
  case False
  then show ?thesis by (simp add: createTracked_eq)
next
  case True
  let ?w1 = "emit (PutContinuousState (persistedBeforeWrite b now s)) w"
  let ?w2 = "emit (CreateContinuousWeightChange (trackedRecord r b s) ''system:auto'' now) ?w1"
  have 1: "emits P w ?w1" using assms(1) True by (simp add: emits_emit)
  then have 2: "emits P w ?w2" using assms(2) True by (simp add: emits_emit_right)
  then have 3: "emits P w (snd (afterCommand E r' b now cmd s' ?w2))" for r' cmd s'
    using afterCommand_emits emits_trans by blast
  show ?thesis
    using True 1 2 3 by (simp add: createTracked_eq Let_def split: option.split prod.split)
qed

end

section \<open>Properties\<close>

text \<open>the target of a capacity reduction lies between the configured least weight and the
  confirmed weight, never falls faster than the configured percentage (one unit is always allowed),
  and is a strict reduction whenever the utilisation exceeds the target utilisation.\<close>

theorem capacityTarget_bounds:
  assumes "wfParams p" "1 \<le> pct" "pct \<le> 100" "1 \<le> utilization" "r_CapacityMinWeight (Rules p) < weight"
    and "capacityTarget weight utilization pct (Some p) = (raw, bounded)"
  shows "(r_CapacityMinWeight (Rules p) \<le> raw) \<and>
    (raw \<le> bounded) \<and>
    (bounded \<le> weight) \<and>
    (weight - max 1 \<lfloor>of_int weight * pct / 100\<rfloor> \<le> bounded) \<and>
    (r_CapacityTargetUtilization (Rules p) < utilization \<longrightarrow> bounded < weight)"
proof -
  let ?r = "Rules p"
  let ?least = "r_CapacityMinWeight ?r"
  let ?x = "of_int weight * r_CapacityTargetUtilization ?r / utilization"
  have rules: "0 \<le> ?least" "0 < r_CapacityTargetUtilization ?r" "r_CapacityTargetUtilization ?r \<le> 1"
    using wfParams_rules(5,6,8)[OF assms(1)] assms(1) by simp_all
  have w: "0 < weight" using rules(1) assms(5) by linarith
  have eq: "raw = max ?least \<lfloor>?x\<rfloor>" "bounded = max raw (max (weight - max 1 \<lfloor>of_int weight * pct / 100\<rfloor>) ?least)"
    using assms(4-6) by (auto simp: capacityTarget_def optionalRules_def Let_def)
  have tu: "of_int weight * r_CapacityTargetUtilization ?r \<le> of_int weight * utilization"
    using rules assms(4) w by (intro mult_left_mono) auto
  then have "?x \<le> of_int weight" using assms(4) w by (simp add: field_simps)
  then have fl: "\<lfloor>?x\<rfloor> \<le> weight" by linarith
  have lo: "?least \<le> raw" "raw \<le> bounded" using eq by auto
  have step: "weight - max 1 \<lfloor>of_int weight * pct / 100\<rfloor> \<le> bounded"
    unfolding eq(2) by (simp add: le_max_iff_disj)
  have dec: "weight - max 1 \<lfloor>of_int weight * pct / 100\<rfloor> < weight" by auto
  then have hi: "bounded \<le> weight" using eq fl assms(5) by auto
  have "bounded < weight" if "r_CapacityTargetUtilization ?r < utilization"
  proof -
    have "of_int weight * r_CapacityTargetUtilization ?r < of_int weight * utilization"
      using w that by (intro mult_strict_left_mono) auto
  then have "?x < of_int weight" using assms(4) by (simp add: field_simps)
  then have "\<lfloor>?x\<rfloor> < weight" by linarith
  then show ?thesis using eq dec assms(5) by auto
  qed
  then show ?thesis using lo step hi by blast
qed

theorem capacityTarget_bounds_witness:
  "snd (capacityTarget 100 2 25 (Some DefaultContinuous)) < 100 \<and> 75 \<le> snd (capacityTarget 100 2 25 (Some DefaultContinuous))"
proof -
  note r = Rules_Default
  obtain raw b where c: "capacityTarget 100 2 25 (Some DefaultContinuous) = (raw, b)" by (metis prod.exhaust)
  show ?thesis
    using capacityTarget_bounds[OF wfParams_DefaultContinuous _ _ _ _ c]
    by (simp add: c r DefaultContinuousRules_def)
qed

text \<open>the overload latch.  A fresh sample at or above 100 percent latches the increase guard at
  once; and a latched guard is released only by a newer fresh sample below the release level, with
  feedback on the last write, no write in flight, and only after the channel has been below that level
  for the recovery period (unless the configured limits themselves changed).\<close>

definition latchReleased :: "ChannelBaseValue \<Rightarrow> time \<Rightarrow> time \<Rightarrow> bool \<Rightarrow> float64 \<Rightarrow> ContinuousState \<Rightarrow> bool" where
  "latchReleased b asOf now avail pct s \<longleftrightarrow>
     cap_Active (s_Capacity s) \<and> \<not> cap_Active (s_Capacity (updateCapacity b asOf now avail pct s))"

lemma capacityPhase_frame [simp]:
  "cap_Active (capacityPhase r asOf pct c) = cap_Active c" "cap_Fresh (capacityPhase r asOf pct c) = cap_Fresh c"
  "cap_UnderSince (capacityPhase r asOf pct c) = cap_UnderSince c" "cap_Utilization (capacityPhase r asOf pct c) = cap_Utilization c"
  "cap_ConfirmedWeight (capacityPhase r asOf pct c) = cap_ConfirmedWeight c"
  "cap_PendingCommandID (capacityPhase r asOf pct c) = cap_PendingCommandID c"
  by (simp_all add: capacityPhase_def case_prod_beta)

lemma sampleCapacity_active:
  "cap_Active c \<Longrightarrow> 1 \<le> cap_Utilization c \<Longrightarrow> r_CapacityReleaseUtilization r \<le> 1 \<Longrightarrow> cap_Active (sampleCapacity r asOf c)"
  by (auto simp: sampleCapacity_def Let_def)

lemma sampleCapacity_release:
  assumes "cap_Active c" "\<not> cap_Active (sampleCapacity r asOf c)"
  shows "asOf > cap_SampleAt c" "cap_Utilization c < r_CapacityReleaseUtilization r" "cap_PendingCommandID c = []"
    "feedbackReady r asOf c"
    "cap_UnderSince (sampleCapacity r asOf c) \<noteq> 0 \<or> asOf = 0"
    "r_CapacityRecoverySeconds r * Second \<le> timeSub asOf (cap_UnderSince (sampleCapacity r asOf c))"
  using assms by (auto simp: sampleCapacity_def Let_def feedbackReady_def split: if_splits)

lemma refreshCapacity_frame:
  assumes "cap_MaxRPM (s_Capacity s) = b_MaxRPM b" "cap_MaxTPM (s_Capacity s) = b_MaxTPM b"
  shows "cap_Active (refreshCapacity b now s) = cap_Active (s_Capacity s)"
    "cap_PendingCommandID (refreshCapacity b now s) = cap_PendingCommandID (s_Capacity s)"
    "cap_SampleAt (refreshCapacity b now s) = cap_SampleAt (s_Capacity s)"
  using assms by (simp_all add: refreshCapacity_def Let_def)

theorem capacity_latch:
  assumes "capacityConfigured b" "cap_MaxRPM (s_Capacity s) = b_MaxRPM b" "cap_MaxTPM (s_Capacity s) = b_MaxTPM b"
    and "r_CapacityReleaseUtilization (stateRules s) \<le> 1"
    and "t = updateCapacity b asOf now avail pct s"
  shows "(cap_Fresh (s_Capacity t) \<longrightarrow> 1 \<le> capacityUtilization b (s_MetricRPM s) (s_MetricTPM s) \<longrightarrow>
      cap_Active (s_Capacity t) \<and> s_CapacityLimited t) \<and>
    (latchReleased b asOf now avail pct s \<longrightarrow>
      cap_Fresh (s_Capacity t) \<and> asOf > cap_SampleAt (s_Capacity s) \<and> cap_PendingCommandID (s_Capacity s) = [] \<and>
      capacityUtilization b (s_MetricRPM s) (s_MetricTPM s) < r_CapacityReleaseUtilization (stateRules s) \<and>
      r_CapacityRecoverySeconds (stateRules s) * Second \<le> timeSub asOf (cap_UnderSince (s_Capacity t)))"
proof -
  let ?u = "capacityUtilization b (s_MetricRPM s) (s_MetricTPM s)"
  let ?c1 = "refreshCapacity b now s"
  let ?fresh = "capacityFresh (stateRules s) asOf now avail ?c1"
  let ?c3 = "?c1\<lparr>cap_Fresh := ?fresh, cap_Utilization := ?u, cap_Active := cap_Active ?c1 \<or> ?u \<ge> 1\<rparr>"
  let ?c4 = "sampleCapacity (stateRules s) asOf ?c3"
  note r = refreshCapacity_frame[OF assms(2,3), of now]
  have fresh4: "cap_Fresh ?c4 = ?fresh" "cap_Utilization ?c4 = ?u" by (simp_all add: sampleCapacity_def Let_def)
  have stale: "t = s\<lparr>s_Capacity := ?c1\<lparr>cap_Fresh := False, cap_OverSince := 0, cap_UnderSince := 0, cap_Phase := ''unavailable''\<rparr>,
      s_CapacityLimited := True\<rparr>" if "\<not> ?fresh"
    using assms(1,5) that by (simp add: updateCapacity_def Let_def)
  have live: "s_Capacity t = capacityPhase (stateRules s) asOf pct ?c4"
    "s_CapacityLimited t = (cap_Active ?c4 \<or> cap_Utilization ?c4 \<ge> 1 \<or> cap_PendingCommandID ?c4 \<noteq> [])" if "?fresh"
    using assms(1,5) that by (simp_all add: updateCapacity_def Let_def)
  have "cap_Active (s_Capacity t) \<and> s_CapacityLimited t" if "cap_Fresh (s_Capacity t)" "1 \<le> ?u"
  proof -
    have f: "?fresh" using that(1) stale by fastforce
    have "cap_Active ?c4" using that(2) assms(4) by (intro sampleCapacity_active) simp_all
    then show ?thesis using live[OF f] by simp
  qed
  moreover have "cap_Fresh (s_Capacity t) \<and> asOf > cap_SampleAt (s_Capacity s) \<and> cap_PendingCommandID (s_Capacity s) = [] \<and>
      ?u < r_CapacityReleaseUtilization (stateRules s) \<and>
      r_CapacityRecoverySeconds (stateRules s) * Second \<le> timeSub asOf (cap_UnderSince (s_Capacity t))"
    if rel: "latchReleased b asOf now avail pct s"
  proof -
    have act: "cap_Active (s_Capacity s)" "\<not> cap_Active (s_Capacity t)"
      using rel assms(5) by (simp_all add: latchReleased_def)
    have f: "?fresh"
      using act stale r(1) by (cases ?fresh) simp_all
    have "cap_Active ?c3" "\<not> cap_Active ?c4" using act r(1) live(1)[OF f] by simp_all
    from sampleCapacity_release[OF this] show ?thesis
      using live(1)[OF f] f fresh4 r by simp
  qed
  ultimately show ?thesis by blast
qed

theorem capacity_latch_witness:
  "\<exists>b s. capacityConfigured b \<and> cap_Active (s_Capacity (updateCapacity b 200 200 True 25 s)) \<and>
     s_CapacityLimited (updateCapacity b 200 200 True 25 s)"
proof -
  define b where "b = \<lparr>b_InstanceID = ''site'', b_ChannelID = 7, b_ChannelName = ''channel'', b_GroupName = ''default'',
     b_ModelName = ''model'', b_BaseWeight = 100, b_BasePriority = 0, b_MaxRPM = 10, b_MaxTPM = 0,
     b_CurrentWeight = 100, b_CurrentPriority = 0, b_SnapshotAt = 1, b_Models = [''model''], b_UpdatedAt = 1, b_UpdatedBy = ''admin''\<rparr>"
  define s where "s = zeroContinuousState\<lparr>s_MetricRPM := 12, s_Capacity := zeroCapacityControl\<lparr>cap_MaxRPM := 10\<rparr>\<rparr>"
  have conf: "capacityConfigured b" "cap_MaxRPM (s_Capacity s) = b_MaxRPM b" "cap_MaxTPM (s_Capacity s) = b_MaxTPM b"
    by (simp_all add: capacityConfigured_def b_def s_def zeroCapacityControl_def)
  have rules: "stateRules s = DefaultContinuousRules"
    by (simp add: stateRules_def s_def zeroContinuousState_def)
  have rel: "r_CapacityReleaseUtilization (stateRules s) \<le> 1" by (simp add: rules DefaultContinuousRules_def)
  have util: "1 \<le> capacityUtilization b (s_MetricRPM s) (s_MetricTPM s)"
    by (simp add: capacityUtilization_def b_def s_def zeroContinuousState_def)
  have "capacityFresh (stateRules s) 200 200 True (refreshCapacity b 200 s)"
    using refreshCapacity_frame(3)[OF conf(2,3), of 200]
    by (simp add: capacityFresh_def rules DefaultContinuousRules_def) (simp add: s_def zeroCapacityControl_def)
  then have "cap_Fresh (s_Capacity (updateCapacity b 200 200 True 25 s))"
    using conf(1) by (simp add: updateCapacity_def Let_def sampleCapacity_def)
  then show ?thesis
    using capacity_latch[OF conf rel refl] util conf(1) by blast
qed

text \<open>without fresh evidence the tracker cannot raise a weight and cannot cut one either: the
  weight it leaves is the proposed weight or the confirmed one, whichever is smaller, and no reduction
  is reported.\<close>

theorem stale_capacity_never_moves_weight:
  assumes "capacityConfigured b" "t = updateCapacity b asOf now avail pct s" "\<not> cap_Fresh (s_Capacity t)"
    and "cap_PendingCommandID (s_Capacity t) = []"
  shows "applyCapacityTarget t =
    (False, t\<lparr>s_ProposedWeight := min (s_ProposedWeight s) (cap_ConfirmedWeight (s_Capacity t))\<rparr>)"
proof -
  let ?c1 = "refreshCapacity b now s"
  have nf: "\<not> capacityFresh (stateRules s) asOf now avail ?c1"
  proof
    assume f: "capacityFresh (stateRules s) asOf now avail ?c1"
    have "cap_Fresh (sampleCapacity r asOf c) = cap_Fresh c" for r c by (simp add: sampleCapacity_def Let_def)
    with f assms(1,2) have "cap_Fresh (s_Capacity t)" by (simp add: updateCapacity_def Let_def)
    with assms(3) show False by simp
  qed
  then have "s_CapacityLimited t" "cap_Phase (s_Capacity t) = ''unavailable''" "s_ProposedWeight t = s_ProposedWeight s"
    using assms(1,2) by (simp_all add: updateCapacity_def Let_def)
  then show ?thesis using assms(4) by (simp add: applyCapacityTarget_def Let_def)
qed

theorem stale_capacity_never_moves_weight_witness:
  "\<exists>b t. capacityConfigured b \<and> t = updateCapacity b 0 200 True 25 zeroContinuousState \<and>
     applyCapacityTarget t = (False, t\<lparr>s_ProposedWeight := min 0 (cap_ConfirmedWeight (s_Capacity t))\<rparr>)"
proof -
  define b where "b = \<lparr>b_InstanceID = ''site'', b_ChannelID = 7, b_ChannelName = ''channel'', b_GroupName = ''default'',
     b_ModelName = ''model'', b_BaseWeight = 100, b_BasePriority = 0, b_MaxRPM = 10, b_MaxTPM = 0,
     b_CurrentWeight = 100, b_CurrentPriority = 0, b_SnapshotAt = 1, b_Models = [''model''], b_UpdatedAt = 1, b_UpdatedBy = ''admin''\<rparr>"
  have conf: "capacityConfigured b" by (simp add: capacityConfigured_def b_def)
  define t where "t = updateCapacity b 0 200 True 25 zeroContinuousState"
  have "\<not> cap_Fresh (s_Capacity t)" "cap_PendingCommandID (s_Capacity t) = []"
    using conf by (simp_all add: t_def updateCapacity_def Let_def capacityFresh_def refreshCapacity_def
        zeroContinuousState_def zeroCapacityControl_def)
  then show ?thesis
    using stale_capacity_never_moves_weight[OF conf t_def] conf t_def by (auto simp: zeroContinuousState_def)
qed



end
