(* ===== verification/Circuit.thy ===== *)
theory Circuit
  imports Capacity
begin

text \<open>
  Circuit ownership (\<open>server/internal/tuning/circuit_status.go\<close>) and the end of an exhausted
  write (\<open>write_retry_limit.go\<close>).  A status target is an intent: 2 (and the legacy 3) disables
  the channel, 1 enables it again; it becomes a transition only by the receipt of its command.
\<close>

section \<open>Model\<close>

text \<open>The command of the current target: the identifier of a command in flight or just created
  (\<open>Inl\<close>), or the state to return with when none can be created (\<open>Inr\<close>).\<close>

definition ensureStatusCommand ::
    "env \<Rightarrow> string \<Rightarrow> ChannelBaseValue \<Rightarrow> ContinuousDispatchParams \<Rightarrow> time \<Rightarrow> int64
     \<Rightarrow> ContinuousState \<Rightarrow> world \<Rightarrow> (ContinuousState \<times> world) + (ContinuousState \<times> world)" where
  "ensureStatusCommand E site base p now target state w =
     (if s_CircuitStatusCommandID state \<noteq> [] then Inl (state, w)
      else if target = 1 \<and> capacityRecoveryBlocked base state then Inr (state, w)
      else if \<not> writeAttemptAllowed state now then Inr (state, w)
      else
        let rule = (if target = 1 then ''circuit_recovered'' else ''circuit_disabled'');
            rec = addEvidence ''channel_status'' (EvInt target)
                    ((continuousEvent E site base state rule ''auto'' now)
                       \<lparr>rec_ProposedChannelStatus := Some target\<rparr>)
        in case createWeightChange E (trace w) rec now of (cmd, cerr) \<Rightarrow>
             let w1 = emit (CreateContinuousWeightChange rec ''system:auto'' now) w
             in case cerr of
                  None \<Rightarrow> Inl (state\<lparr>s_CircuitStatusCommandID := cmd\<rparr>, w1)
                | Some e \<Rightarrow>
                    (case noteWriteFailure E site base ''auto'' e now state w1 of (s1, w2) \<Rightarrow>
                       Inr (if target = 1 then resetFailedCircuitEnable p now s1 else s1, w2)))"

text \<open>The acknowledged transition.\<close>

definition commitCircuitStatus ::
    "ContinuousDispatchParams \<Rightarrow> time \<Rightarrow> int64 \<Rightarrow> ContinuousState \<Rightarrow> ContinuousState" where
  "commitCircuitStatus p now target state =
     (let s1 = clearProbes (state\<lparr>s_CircuitStatusCommandID := [], s_CircuitStatusTarget := 0\<rparr>);
          s2 = noteWriteSuccess (s1\<lparr>s_LastWrittenWeight := Some (s_ProposedWeight s1),
                                    s_LastWriteAt := Some now\<rparr>)
      in if target = 2 \<or> target = 3
         then s2\<lparr>s_Phase := ''circuit'', s_Multiplier := 0, s_NextProbeAt := Some (silentUntil p now)\<rparr>
         else let rate = min (s_SmoothedErrorRate s2) (p_RecoveryErrorRate p)
              in s2\<lparr>s_CircuitDisabled := False, s_RoutineCircuitLatched := False,
                    s_Phase := ''soft_start'', s_SoftStartPending := True,
                    s_Multiplier := p_SoftStartMultiplier p, s_SmoothedErrorRate := rate,
                    s_KError := reliabilityFactorWithPolicy rate p\<rparr>)"

definition awaitCircuitStatus ::
    "env \<Rightarrow> string \<Rightarrow> ChannelBaseValue \<Rightarrow> ContinuousDispatchParams \<Rightarrow> time \<Rightarrow> int64
     \<Rightarrow> ContinuousState \<Rightarrow> world \<Rightarrow> int64 \<times> ContinuousState \<times> world" where
  "awaitCircuitStatus E site base p now target state w =
     (if s_CircuitStatusCommandID state = [] then (1, commitCircuitStatus p now target state, w)
      else
        let cmd = s_CircuitStatusCommandID state;
            w1 = emit (ContinuousCommandStatus cmd) w
        in case commandStatus E (trace w) cmd of
             Inr e \<Rightarrow> (0, state, w1)
           | Inl status \<Rightarrow>
               if status = ''pending'' \<or> status = ''delivered'' then (0, state, w1)
               else if status = ''succeeded'' then (1, commitCircuitStatus p now target state, w1)
               else
                 (case noteWriteFailure E site base ''auto''
                         (ErrText (''channel status command '' @ status)) now
                         (state\<lparr>s_CircuitStatusCommandID := []\<rparr>) w1 of (s1, w2) \<Rightarrow>
                    (0, if target = 1 then resetFailedCircuitEnable p now s1 else s1, w2)))"

definition advanceFrom ::
    "env \<Rightarrow> string \<Rightarrow> ChannelBaseValue \<Rightarrow> ContinuousDispatchParams \<Rightarrow> time \<Rightarrow> int64
     \<Rightarrow> ContinuousState \<Rightarrow> world \<Rightarrow> int64 \<times> ContinuousState \<times> world" where
  "advanceFrom E site base p now target state w =
     (case ensureStatusCommand E site base p now target state w of
        Inr (s1, w1) \<Rightarrow> (0, s1, w1)
      | Inl (s1, w1) \<Rightarrow> awaitCircuitStatus E site base p now target s1 w1)"

text \<open>The whole handler: a legacy target 3 without a command is first rewritten to 2 and persisted.\<close>

definition advanceCircuitStatus ::
    "env \<Rightarrow> string \<Rightarrow> ChannelBaseValue \<Rightarrow> ContinuousDispatchParams \<Rightarrow> time \<Rightarrow> ContinuousState \<Rightarrow> world
     \<Rightarrow> int64 \<times> ContinuousState \<times> world" where
  "advanceCircuitStatus E site base p now state w =
     (let target = s_CircuitStatusTarget state
      in if target = 3 \<and> s_CircuitStatusCommandID state = [] then
           let s1 = state\<lparr>s_CircuitStatusTarget := 2\<rparr>
           in case putStateCall E s1 w of (perr, w1) \<Rightarrow>
             (case perr of
                Some e \<Rightarrow>
                  (case noteWriteFailure E site base ''auto''
                          (ErrWrap ''persist automatic disable target'' e) now s1 w1 of (s2, w2) \<Rightarrow>
                     (0, s2, w2))
              | None \<Rightarrow> advanceFrom E site base p now 2 s1 w1)
         else advanceFrom E site base p now target state w)"

definition abandonedEvent ::
    "env \<Rightarrow> ChannelBaseValue \<Rightarrow> time \<Rightarrow> ContinuousState \<Rightarrow> Recommendation" where
  "abandonedEvent E base now s = continuousEvent E (s_InstanceID s) base s ''write_abandoned'' ''auto'' now"

definition finishFailedWrite ::
    "env \<Rightarrow> ChannelBaseValue \<Rightarrow> ContinuousDispatchParams \<Rightarrow> time \<Rightarrow> ContinuousState \<Rightarrow> world
     \<Rightarrow> ContinuousState \<times> world" where
  "finishFailedWrite E base p now s w =
     (if s_RoutineCircuitLatched s \<and> s_CircuitStatusTarget s = 2 then
        (if (case s_LastWriteFailureAt s of
               Some t \<Rightarrow> now < t + r_WriteRetrySeconds (Rules p) * Second | None \<Rightarrow> False)
         then (s, w)
         else
           let rec = addEvidence ''failure_count'' (EvInt (s_WriteFailureStreak s))
                       (addEvidence ''error'' (EvStr (s_LastWriteError s)) (abandonedEvent E base now s));
               s1 = s\<lparr>s_Phase := ''circuit'', s_ProposedWeight := 0, s_Multiplier := 0,
                      s_CircuitStatusCommandID := []\<rparr>
           in (noteWriteSuccess s1, emit (InsertRecommendation rec) w))
      else
        let failedWeight = s_ProposedWeight s;
            failedStatus = s_CircuitStatusTarget s;
            s1 = (if failedStatus = 2 \<or> failedStatus = 3 then s\<lparr>s_CircuitDisabled := False\<rparr> else s);
            s2 = clearProbes (s1\<lparr>s_CircuitStatusTarget := 0, s_CircuitStatusCommandID := [],
                   s_ProbeCommandID := None, s_LastWrittenWeight := None, s_LastWriteAt := None\<rparr>);
            s3 = (if s_CircuitDisabled s2 then resetFailedCircuitEnable p now s2
                  else s2\<lparr>s_Phase := ''normal'', s_SoftStartPending := False, s_CircuitOpenedAt := None,
                          s_NextProbeAt := None, s_OriginalPriority := None, s_Multiplier := 1,
                          s_ProposedWeight := b_CurrentWeight base\<rparr>);
            rec = addEvidence ''failure_count'' (EvInt (s_WriteFailureStreak s3))
                    (addEvidence ''failed_status'' (EvInt failedStatus)
                      (addEvidence ''failed_weight'' (EvInt failedWeight)
                        (addEvidence ''error'' (EvStr (s_LastWriteError s3)) (abandonedEvent E base now s3))))
        in (noteWriteSuccess s3, emit (InsertRecommendation rec) w))"

section \<open>Calls\<close>

text \<open>The record a status command carries.\<close>

definition statusRecord ::
    "env \<Rightarrow> string \<Rightarrow> ChannelBaseValue \<Rightarrow> time \<Rightarrow> int64 \<Rightarrow> ContinuousState \<Rightarrow> Recommendation" where
  "statusRecord E site base now target s =
     addEvidence ''channel_status'' (EvInt target)
       ((continuousEvent E site base s
           (if target = 1 then ''circuit_recovered'' else ''circuit_disabled'') ''auto'' now)
          \<lparr>rec_ProposedChannelStatus := Some target\<rparr>)"

lemma statusRecord_weight [simp]:
  "rec_ProposedWeight (statusRecord E site base now target s) = s_ProposedWeight s"
  by (simp add: statusRecord_def addEvidence_def continuousEvent_def)

context call_filter
begin

lemma ensureStatusCommand_emits:
  assumes "writeAttemptAllowed s now \<Longrightarrow>
      P (CreateContinuousWeightChange (statusRecord E site base now target s) ''system:auto'' now)"
    and "ensureStatusCommand E site base p now target s w = Inl (s1, w1) \<or>
         ensureStatusCommand E site base p now target s w = Inr (s1, w1)"
  shows "emits P w w1"
proof -
  let ?w = "emit (CreateContinuousWeightChange (statusRecord E site base now target s) ''system:auto'' now) w"
  have create: "writeAttemptAllowed s now \<Longrightarrow> emits P w ?w" using assms(1) by (simp add: emits_emit)
  have fail: "emits P ?w (snd (noteWriteFailure E site base ''auto'' e now s ?w))" for e
    by (rule noteWriteFailure_emits)
  have fail': "noteWriteFailure E site base ''auto'' e now s ?w = (s', w') \<Longrightarrow> emits P ?w w'" for e s' w'
    using fail by (metis snd_conv)
  show ?thesis
    using assms(2) create fail'
    by (auto simp: ensureStatusCommand_def Let_def statusRecord_def
        split: if_splits prod.splits option.splits intro: emits_trans)
qed

lemma awaitCircuitStatus_emits: "emits P w (snd (snd (awaitCircuitStatus E site base p now target s w)))"
proof -
  let ?w = "emit (ContinuousCommandStatus (s_CircuitStatusCommandID s)) w"
  have q: "emits P w ?w" by (simp add: emits_emit)
  then have "emits P w (snd (noteWriteFailure E site base ''auto'' e now s' ?w))" for e s'
    using noteWriteFailure_emits emits_trans by blast
  with q show ?thesis
    by (auto simp: awaitCircuitStatus_def Let_def case_prod_beta split: sum.split)
qed

lemma advanceFrom_emits:
  assumes "writeAttemptAllowed s now \<Longrightarrow>
      P (CreateContinuousWeightChange (statusRecord E site base now target s) ''system:auto'' now)"
  shows "emits P w (snd (snd (advanceFrom E site base p now target s w)))"
  using ensureStatusCommand_emits[OF assms] awaitCircuitStatus_emits
  by (fastforce simp: advanceFrom_def split: sum.split prod.split intro: emits_trans)

lemma advanceCircuitStatus_emits:
  assumes put: "P (PutContinuousState (s\<lparr>s_CircuitStatusTarget := 2\<rparr>))"
    and create: "\<And>target s'. s' = s \<or> s' = s\<lparr>s_CircuitStatusTarget := 2\<rparr> \<Longrightarrow>
      P (CreateContinuousWeightChange (statusRecord E site base now target s') ''system:auto'' now)"
  shows "emits P w (snd (snd (advanceCircuitStatus E site base p now s w)))"
proof -
  let ?s = "s\<lparr>s_CircuitStatusTarget := 2\<rparr>"
  let ?w = "emit (PutContinuousState ?s) w"
  have 1: "emits P w ?w" using put by (rule emits_emit)
  then have 2: "emits P w (snd (snd (advanceFrom E site base p now 2 ?s ?w)))"
    using advanceFrom_emits create emits_trans by blast
  from 1 have 3: "emits P w (snd (noteWriteFailure E site base ''auto'' e now ?s ?w))" for e
    using noteWriteFailure_emits emits_trans by blast
  have 4: "emits P w (snd (snd (advanceFrom E site base p now t s w)))" for t
    using advanceFrom_emits create by blast
  show ?thesis
    using 2 3 4 by (auto simp: advanceCircuitStatus_def Let_def putStateCall_def case_prod_beta split: option.split)
qed

lemma finishFailedWrite_emits: "emits P w (snd (finishFailedWrite E base p now s w))"
  by (simp add: finishFailedWrite_def Let_def emits_emit)

end

section \<open>Properties\<close>

lemma ensureStatus_frame:
  assumes "ensureStatusCommand E site base p now target s w = Inl (s1, w1)"
  shows "s_CircuitDisabled s1 = s_CircuitDisabled s" "s_Phase s1 = s_Phase s"
    "s_CircuitStatusCommandID s \<noteq> [] \<Longrightarrow> s_CircuitStatusCommandID s1 = s_CircuitStatusCommandID s"
  using assms by (auto simp: ensureStatusCommand_def Let_def split: if_splits prod.splits option.splits)

lemma noteWriteFailure_circuit [simp]:
  "s_CircuitDisabled (fst (noteWriteFailure E site base m e now s w)) = s_CircuitDisabled s"
  "s_Phase (fst (noteWriteFailure E site base m e now s w)) = s_Phase s"
  by (simp_all add: noteWriteFailure_def Let_def)

lemma resetFailedCircuitEnable_fields [simp]:
  "s_CircuitDisabled (resetFailedCircuitEnable p now s) = s_CircuitDisabled s"
  "s_Phase (resetFailedCircuitEnable p now s) = ''circuit''"
  by (simp_all add: resetFailedCircuitEnable_def clearProbes_def)

lemma ensureStatus_failed:
  assumes "ensureStatusCommand E site base p now target s w = Inr (s1, w1)"
  shows "s_CircuitDisabled s1 = s_CircuitDisabled s" "s_Phase s1 = s_Phase s \<or> s_Phase s1 = ''circuit''"
proof -
  have f: "noteWriteFailure E site base ''auto'' e now s u = (s', u') \<Longrightarrow>
      s_CircuitDisabled s' = s_CircuitDisabled s \<and> s_Phase s' = s_Phase s" for e u s' u'
    using noteWriteFailure_circuit by (metis fst_conv)
  show "s_CircuitDisabled s1 = s_CircuitDisabled s" "s_Phase s1 = s_Phase s \<or> s_Phase s1 = ''circuit''"
    using assms by (auto simp: ensureStatusCommand_def Let_def dest: f split: if_splits prod.splits option.splits)
qed

text \<open>The outcome of waiting for a receipt: the transition with a positive receipt, or no change of
  ownership.\<close>

lemma awaitCircuitStatus_cases:
  "(awaitCircuitStatus E site base p now target s w = (1, commitCircuitStatus p now target s, snd (snd (awaitCircuitStatus E site base p now target s w))) \<and>
     (s_CircuitStatusCommandID s = [] \<or> commandStatus E (trace w) (s_CircuitStatusCommandID s) = Inl ''succeeded'')) \<or>
   (fst (awaitCircuitStatus E site base p now target s w) = 0 \<and>
     s_CircuitDisabled (fst (snd (awaitCircuitStatus E site base p now target s w))) = s_CircuitDisabled s \<and>
     s_Phase (fst (snd (awaitCircuitStatus E site base p now target s w))) \<in> {s_Phase s, ''circuit''})"
  by (auto simp: awaitCircuitStatus_def Let_def case_prod_beta split: sum.split)

lemma advanceFrom_cases:
  assumes "advanceFrom E site base p now target s w = (n, s', w')"
  shows "(n = 1 \<and> (\<exists>s1 h. s' = commitCircuitStatus p now target s1 \<and> s_CircuitDisabled s1 = s_CircuitDisabled s \<and>
      (s_CircuitStatusCommandID s \<noteq> [] \<longrightarrow> s_CircuitStatusCommandID s1 = s_CircuitStatusCommandID s) \<and>
      (s_CircuitStatusCommandID s1 = [] \<or> commandStatus E h (s_CircuitStatusCommandID s1) = Inl ''succeeded''))) \<or>
    (n = 0 \<and> s_CircuitDisabled s' = s_CircuitDisabled s \<and> s_Phase s' \<in> {s_Phase s, ''circuit''})"
proof (cases "ensureStatusCommand E site base p now target s w")
  case (Inl a)
  obtain s1 w1 where e: "ensureStatusCommand E site base p now target s w = Inl (s1, w1)" using Inl by (cases a) auto
  from assms have r: "awaitCircuitStatus E site base p now target s1 w1 = (n, s', w')" by (simp add: advanceFrom_def e)
  show ?thesis
    using awaitCircuitStatus_cases[of E site base p now target s1 w1] ensureStatus_frame[OF e] unfolding r by auto
next
  case (Inr a)
  obtain s1 w1 where e: "ensureStatusCommand E site base p now target s w = Inr (s1, w1)" using Inr by (cases a) auto
  show ?thesis using assms ensureStatus_failed[OF e] by (auto simp: advanceFrom_def e)
qed

lemma commitCircuitStatus_disable:
  "target = 2 \<or> target = 3 \<Longrightarrow> s_Phase (commitCircuitStatus p now target s) = ''circuit'' \<and>
     s_NextProbeAt (commitCircuitStatus p now target s) = Some (silentUntil p now) \<and>
     s_CircuitDisabled (commitCircuitStatus p now target s) = s_CircuitDisabled s"
  by (auto simp: commitCircuitStatus_def Let_def clearProbes_def noteWriteSuccess_def)

lemma commitCircuitStatus_enable:
  "target \<noteq> 2 \<Longrightarrow> target \<noteq> 3 \<Longrightarrow> s_Phase (commitCircuitStatus p now target s) = ''soft_start'' \<and>
     s_SoftStartPending (commitCircuitStatus p now target s) \<and> \<not> s_CircuitDisabled (commitCircuitStatus p now target s) \<and>
     s_Multiplier (commitCircuitStatus p now target s) = p_SoftStartMultiplier p"
  by (auto simp: commitCircuitStatus_def Let_def clearProbes_def noteWriteSuccess_def)

lemma commitCircuitStatus_clears [simp]:
  "s_CircuitStatusTarget (commitCircuitStatus p now target s) = 0"
  "s_CircuitStatusCommandID (commitCircuitStatus p now target s) = []"
  "s_WriteFailureStreak (commitCircuitStatus p now target s) = 0"
  by (auto simp: commitCircuitStatus_def Let_def clearProbes_def noteWriteSuccess_def)



text \<open>a task whose write attempts are exhausted is retired: the failure count, the intent and its
  command are cleared and the write pause is lifted; a channel still owned by the circuit returns to an
  open circuit with a probe time, any other to normal operation at its current weight; the abandonment
  is recorded, and no command is sent.\<close>

theorem exhausted_task_retired:
  assumes "finishFailedWrite E base p now s w = (s', w')"
    and "\<not> (s_RoutineCircuitLatched s \<and> s_CircuitStatusTarget s = 2)"
  shows "(s_WriteFailureStreak s' = 0 \<and> s_CircuitStatusTarget s' = 0 \<and> s_CircuitStatusCommandID s' = [] \<and>
      s_ProbeCommandID s' = None \<and> s_PausedReason s' \<noteq> ''write_failed'') \<and>
    (s_CircuitDisabled s' \<longrightarrow> s_Phase s' = ''circuit'' \<and> s_NextProbeAt s' = Some (silentUntil p now)) \<and>
    (\<not> s_CircuitDisabled s' \<longrightarrow> s_Phase s' = ''normal'' \<and> s_ProposedWeight s' = b_CurrentWeight base) \<and>
    (\<exists>r. trace w' = InsertRecommendation r # trace w \<and> rec_Rule r = ''write_abandoned'')"
  using assms
  by (auto simp: finishFailedWrite_def Let_def noteWriteSuccess_def clearProbes_def resetFailedCircuitEnable_def
      addEvidence_def abandonedEvent_def continuousEvent_def split: if_splits)

theorem exhausted_task_retired_witness:
  "s_Phase (fst (finishFailedWrite exampleEnv exampleBase DefaultContinuous 100
     (zeroContinuousState\<lparr>s_WriteFailureStreak := 10, s_CircuitStatusTarget := 1, s_CircuitDisabled := True\<rparr>) exampleWorld)) = ''circuit''"
proof -
  let ?s = "zeroContinuousState\<lparr>s_WriteFailureStreak := 10, s_CircuitStatusTarget := 1, s_CircuitDisabled := True\<rparr>"
  obtain s' w' where r: "finishFailedWrite exampleEnv exampleBase DefaultContinuous 100 ?s exampleWorld = (s', w')"
    by (metis prod.exhaust)
  moreover from r have "s_CircuitDisabled s'"
    by (auto simp: finishFailedWrite_def Let_def noteWriteSuccess_def clearProbes_def resetFailedCircuitEnable_def split: if_splits)
  ultimately show ?thesis using exhausted_task_retired[OF r] by simp
qed

end
