(* ===== verification/ErrorDecay.thy ===== *)
theory ErrorDecay
  imports Circuit
begin

text \<open>
  The error memory of a channel: \<open>foldErrorDecayWithBuckets\<close> of
  \<open>server/internal/tuning/continuous_engine.go\<close> folds every settled metric bucket past the stored
  cursor into an exponentially weighted error rate, oldest first, each once.
\<close>

section \<open>Model\<close>

definition bucketErrors :: "RecentChannelBucket \<Rightarrow> int64" where
  "bucketErrors k = max (k_ErrorCount k - k_UserErrorCount k) 0"

text \<open>The buckets a pass folds: settled, and newer than the cursor.\<close>

definition foldable :: "time \<Rightarrow> time option \<Rightarrow> RecentChannelBucket \<Rightarrow> bool" where
  "foldable settled cursor k \<longleftrightarrow>
     \<not> k_BucketTime k > settled \<and> (case cursor of None \<Rightarrow> True | Some c \<Rightarrow> k_BucketTime k > c)"

record decay =
  d_rate :: float64
  d_kerror :: float64
  d_requests :: int64
  d_errors :: int64
  d_newest :: "time option"

definition foldBucket ::
    "ContinuousDispatchParams \<Rightarrow> time \<Rightarrow> time option \<Rightarrow> decay \<Rightarrow> RecentChannelBucket \<Rightarrow> decay" where
  "foldBucket p settled cursor d k =
     (if \<not> foldable settled cursor k then d
      else
        let errs = bucketErrors k;
            alpha = r_ErrorAlpha (Rules p);
            d1 = (if k_RequestCount k > 0
                  then let rate = alpha * (of_int errs / of_int (k_RequestCount k)) + (1 - alpha) * d_rate d
                       in d\<lparr>d_rate := rate, d_kerror := reliabilityFactorWithPolicy rate p\<rparr>
                  else d)
        in d1\<lparr>d_requests := d_requests d1 + k_RequestCount k, d_errors := d_errors d1 + errs,
              d_newest := (case d_newest d1 of
                             None \<Rightarrow> Some (k_BucketTime k)
                           | Some t \<Rightarrow> if k_BucketTime k > t then Some (k_BucketTime k) else Some t)\<rparr>)"

text \<open>A state written before the smoothed rate existed seeds it from its factor.\<close>

definition migrateDecay :: "ContinuousDispatchParams \<Rightarrow> ContinuousState \<Rightarrow> ContinuousState" where
  "migrateDecay p s =
     (if s_SmoothedErrorRate s = 0 \<and> s_KError s > 0 \<and> s_KError s < 1
      then let rate = legacyErrorRateWithPolicy (s_KError s) p
           in s\<lparr>s_SmoothedErrorRate := rate, s_KError := reliabilityFactorWithPolicy rate p\<rparr>
      else s)"

text \<open>The store returns the newest bucket first; the loop walks the list from its end.\<close>

definition foldBuckets ::
    "ContinuousDispatchParams \<Rightarrow> time \<Rightarrow> RecentChannelBucket list \<Rightarrow> ContinuousState \<Rightarrow> (int64 \<times> int64) \<times> ContinuousState" where
  "foldBuckets p settled buckets s =
     (let d = foldl (foldBucket p settled (s_LastBucketAt s))
                \<lparr>d_rate = s_SmoothedErrorRate s, d_kerror = s_KError s, d_requests = 0, d_errors = 0,
                 d_newest = s_LastBucketAt s\<rparr> (rev buckets)
      in ((d_requests d, d_errors d),
          s\<lparr>s_SmoothedErrorRate := d_rate d, s_KError := d_kerror d, s_LastBucketAt := d_newest d\<rparr>))"

definition foldErrorDecayWithBuckets ::
    "env \<Rightarrow> string \<Rightarrow> int64 \<Rightarrow> time \<Rightarrow> (int64 \<rightharpoonup> RecentChannelBucket list) option \<Rightarrow> ContinuousDispatchParams
     \<Rightarrow> ContinuousState \<Rightarrow> world \<Rightarrow> (int64 \<times> int64) \<times> ContinuousState \<times> world" where
  "foldErrorDecayWithBuckets E site channel now recentBuckets p state w =
     (let s = migrateDecay p state;
          lookback = now - r_ErrorLookbackMinutes (Rules p) * Minute;
          since = (case s_LastBucketAt s of Some t \<Rightarrow> if t > lookback then t else lookback | None \<Rightarrow> lookback);
          settled = now - r_ErrorSettleSeconds (Rules p) * Second
      in case recentBuckets of
           Some m \<Rightarrow>
             (case foldBuckets p settled (case m channel of Some bs \<Rightarrow> bs | None \<Rightarrow> []) s of (n, s') \<Rightarrow> (n, s', w))
         | None \<Rightarrow>
             let w1 = emit (QueryRecentChannelBuckets site channel since (r_ErrorLookbackMinutes (Rules p) + 1)) w
             in (case queryRecentChannelBuckets E (trace w) channel since of
                   Inr e \<Rightarrow> ((0, 0), s, w1)
                 | Inl buckets \<Rightarrow> (case foldBuckets p settled buckets s of (n, s') \<Rightarrow> (n, s', w1))))"

section \<open>Lemmas\<close>

text \<open>A bucket's own error rate.\<close>

definition bucketRate :: "RecentChannelBucket \<Rightarrow> float64" where
  "bucketRate k = of_int (bucketErrors k) / of_int (k_RequestCount k)"

text \<open>The reference: the exponentially weighted mean over the list of rates, oldest first.\<close>

fun ewma :: "float64 \<Rightarrow> float64 \<Rightarrow> float64 list \<Rightarrow> float64" where
  "ewma a r [] = r"
| "ewma a r (x # xs) = ewma a (a * x + (1 - a) * r) xs"

definition evidence :: "time \<Rightarrow> time option \<Rightarrow> RecentChannelBucket list \<Rightarrow> RecentChannelBucket list" where
  "evidence settled cursor buckets = filter (foldable settled cursor) (rev buckets)"

lemma foldl_foldBucket:
  "d_rate (foldl (foldBucket p st cu) d ks) =
     ewma (r_ErrorAlpha (Rules p)) (d_rate d)
       (map bucketRate (filter (\<lambda>k. foldable st cu k \<and> k_RequestCount k > 0) ks))"
  "d_requests (foldl (foldBucket p st cu) d ks) =
     d_requests d + sum_list (map k_RequestCount (filter (foldable st cu) ks))"
  "d_errors (foldl (foldBucket p st cu) d ks) =
     d_errors d + sum_list (map bucketErrors (filter (foldable st cu) ks))"
  by (induction ks arbitrary: d) (auto simp: foldBucket_def Let_def bucketRate_def)

lemma foldBucket_unfoldable [simp]: "\<not> foldable st cu k \<Longrightarrow> foldBucket p st cu d k = d"
  by (simp add: foldBucket_def)

lemma ewma_bounds:
  assumes "0 \<le> a" "a \<le> 1" "0 \<le> r" "r \<le> 1" "\<forall>x \<in> set xs. 0 \<le> x \<and> x \<le> 1"
  shows "0 \<le> ewma a r xs \<and> ewma a r xs \<le> 1"
  using assms
proof (induction xs arbitrary: r)
  case Nil
  then show ?case by simp
next
  case (Cons x xs)
  have "a * x + (1 - a) * r \<le> a * 1 + (1 - a) * 1"
    using Cons.prems by (intro add_mono mult_left_mono) auto
  moreover have "0 \<le> a * x + (1 - a) * r"
    using Cons.prems by (intro add_nonneg_nonneg mult_nonneg_nonneg) auto
  ultimately show ?case using Cons by simp
qed

text \<open>The factor kept beside the rate is the reliability of that rate once a bucket with traffic
  was folded.\<close>

lemma foldl_kerror:
  assumes "d_kerror d = reliabilityFactorWithPolicy (d_rate d) p"
  shows "d_kerror (foldl (foldBucket p st cu) d ks) =
    reliabilityFactorWithPolicy (d_rate (foldl (foldBucket p st cu) d ks)) p"
  using assms
proof (induction ks arbitrary: d)
  case (Cons k ks)
  have "d_kerror (foldBucket p st cu d k) = reliabilityFactorWithPolicy (d_rate (foldBucket p st cu d k)) p"
    using Cons.prems by (simp add: foldBucket_def Let_def)
  then show ?case using Cons.IH by simp
qed simp

text \<open>The cursor after a pass is not before the old one nor before any bucket folded, and it is one
  of these.\<close>

definition coveredBy :: "time option \<Rightarrow> time \<Rightarrow> bool" where
  "coveredBy cursor t \<longleftrightarrow> (case cursor of None \<Rightarrow> False | Some c \<Rightarrow> t \<le> c)"

lemma foldl_newest:
  "\<forall>k \<in> set (filter (foldable st cu) ks).
      coveredBy (d_newest (foldl (foldBucket p st cu) d ks)) (k_BucketTime k)" (is ?covers)
  "\<forall>t. coveredBy (d_newest d) t \<longrightarrow> coveredBy (d_newest (foldl (foldBucket p st cu) d ks)) t" (is ?mono)
  "d_newest (foldl (foldBucket p st cu) d ks) = d_newest d \<or>
     (\<exists>k \<in> set ks. foldable st cu k \<and> d_newest (foldl (foldBucket p st cu) d ks) = Some (k_BucketTime k))" (is ?one)
proof -
  have step: "coveredBy (d_newest d) t \<Longrightarrow> coveredBy (d_newest (foldBucket p st cu d k)) t"
    "foldable st cu k \<Longrightarrow> coveredBy (d_newest (foldBucket p st cu d k)) (k_BucketTime k)"
    "d_newest (foldBucket p st cu d k) = d_newest d \<or>
      foldable st cu k \<and> d_newest (foldBucket p st cu d k) = Some (k_BucketTime k)" for d k t
    by (auto simp: foldBucket_def Let_def coveredBy_def split: option.splits)
  have mono: "coveredBy (d_newest d) t \<Longrightarrow> coveredBy (d_newest (foldl (foldBucket p st cu) d ls)) t" for d t ls
    by (induction ls arbitrary: d) (simp_all add: step(1))
  then show ?mono by blast
  show ?covers
  proof (induction ks arbitrary: d)
    case (Cons k ks)
    have "foldable st cu k \<Longrightarrow> coveredBy (d_newest (foldl (foldBucket p st cu) (foldBucket p st cu d k) ks)) (k_BucketTime k)"
      by (intro mono step(2))
    then show ?case using Cons.IH by auto
  qed simp
  show ?one
  proof (induction ks arbitrary: d)
    case (Cons k ks)
    from Cons.IH[of "foldBucket p st cu d k"] step(3)[of d k] show ?case by auto
  qed simp
qed

text \<open>Buckets as the metric pipeline writes them: no more channel errors than requests.\<close>

definition goodBucket :: "RecentChannelBucket \<Rightarrow> bool" where
  "goodBucket k \<longleftrightarrow> 0 \<le> k_RequestCount k \<and> bucketErrors k \<le> k_RequestCount k"

lemma bucketRate_bounds: "goodBucket k \<Longrightarrow> 0 < k_RequestCount k \<Longrightarrow> 0 \<le> bucketRate k \<and> bucketRate k \<le> 1"
  by (auto simp: goodBucket_def bucketRate_def bucketErrors_def)

text \<open>The smoothed rate and the factor stay in range, and so do the folded counts.\<close>

definition rateOk :: "ContinuousState \<Rightarrow> bool" where
  "rateOk s \<longleftrightarrow> 0 \<le> s_SmoothedErrorRate s \<and> s_SmoothedErrorRate s \<le> 1 \<and> 0 < s_KError s \<and> s_KError s \<le> 1"

lemma migrateDecay_ok:
  assumes "wfParams p" "rateOk s"
  shows "rateOk (migrateDecay p s)"
proof -
  note c = wfParams_error_curve[OF assms(1)]
  show ?thesis
    using assms(2) error_curve.legacy_bounds[OF c, of "s_KError s"] wfParams_error_rates(5)[OF assms(1)]
      error_curve.reliability_bounds[OF c, of "legacyErrorRateWithPolicy (s_KError s) p"]
      wfParams_error_factors(1)[OF assms(1)]
    by (auto simp: migrateDecay_def rateOk_def Let_def)
qed

lemma foldl_kerror_bounds:
  assumes "wfParams p" "0 < d_kerror d \<and> d_kerror d \<le> 1"
  shows "0 < d_kerror (foldl (foldBucket p st cu) d ks) \<and> d_kerror (foldl (foldBucket p st cu) d ks) \<le> 1"
  using assms(2)
proof (induction ks arbitrary: d)
  case (Cons k ks)
  have "0 < reliabilityFactorWithPolicy r p \<and> reliabilityFactorWithPolicy r p \<le> 1" for r
    using error_curve.reliability_bounds[OF wfParams_error_curve[OF assms(1)], of r]
      wfParams_error_factors(1)[OF assms(1)] by linarith
  then show ?case using Cons by (simp add: foldBucket_def Let_def)
qed simp

lemma foldBuckets_ok:
  assumes "wfParams p" "rateOk s" "\<forall>k \<in> set buckets. goodBucket k"
  shows "rateOk (snd (foldBuckets p st buckets s))"
proof -
  let ?d = "\<lparr>d_rate = s_SmoothedErrorRate s, d_kerror = s_KError s, d_requests = 0, d_errors = 0,
                 d_newest = s_LastBucketAt s\<rparr>"
  have "0 \<le> d_rate (foldl (foldBucket p st (s_LastBucketAt s)) ?d (rev buckets)) \<and>
      d_rate (foldl (foldBucket p st (s_LastBucketAt s)) ?d (rev buckets)) \<le> 1"
    unfolding foldl_foldBucket
    using assms wfParams_rules(1,2)[OF assms(1)]
    by (intro ewma_bounds) (auto simp: rateOk_def bucketRate_bounds)
  then show ?thesis
    using assms(2) foldl_kerror_bounds[OF assms(1), of ?d st "s_LastBucketAt s" "rev buckets"]
    by (simp add: foldBuckets_def Let_def rateOk_def)
qed

lemma foldBuckets_errors: "0 \<le> snd (fst (foldBuckets p st buckets s))"
proof -
  have "0 \<le> sum_list (map bucketErrors ks)" for ks
    by (induction ks) (simp_all add: bucketErrors_def)
  then show ?thesis by (simp add: foldBuckets_def Let_def foldl_foldBucket)
qed

text \<open>The buckets a pass may read: the batch of the evaluation, or the answers of the store.\<close>

definition goodEvidence :: "env \<Rightarrow> (int64 \<rightharpoonup> RecentChannelBucket list) option \<Rightarrow> bool" where
  "goodEvidence E rb \<longleftrightarrow>
     (\<forall>m ch bs. rb = Some m \<longrightarrow> m ch = Some bs \<longrightarrow> (\<forall>k \<in> set bs. goodBucket k)) \<and>
     (\<forall>h ch t bs. queryRecentChannelBuckets E h ch t = Inl bs \<longrightarrow> (\<forall>k \<in> set bs. goodBucket k))"

lemma foldErrorDecay_ok:
  assumes "wfParams p" "rateOk s" "goodEvidence E rb"
    and "foldErrorDecayWithBuckets E site ch now rb p s w = ((n, e), s', w')"
  shows "rateOk s'" "0 \<le> e"
proof -
  have fold: "rateOk s1 \<and> 0 \<le> e1" if "foldBuckets p st bs (migrateDecay p s) = ((n1, e1), s1)"
    "\<forall>k \<in> set bs. goodBucket k" for st bs n1 e1 s1
    using foldBuckets_ok[OF assms(1) migrateDecay_ok[OF assms(1,2)] that(2), of st]
      foldBuckets_errors[of p st bs "migrateDecay p s"] that(1) by simp
  have "rateOk s' \<and> 0 \<le> e"
    using assms(3,4) fold migrateDecay_ok[OF assms(1,2)]
    by (fastforce simp: foldErrorDecayWithBuckets_def Let_def goodEvidence_def
        split: option.splits sum.splits prod.splits)
  then show "rateOk s'" "0 \<le> e" by auto
qed

text \<open>A pass touches the rate, the factor and the cursor only.\<close>

lemma foldErrorDecay_frame:
  assumes "foldErrorDecayWithBuckets E site ch now rb p s w = (n, s', w')"
  shows "\<exists>r k c. s' = s\<lparr>s_SmoothedErrorRate := r, s_KError := k, s_LastBucketAt := c\<rparr>"
proof -
  have m: "\<exists>r k. migrateDecay p s = s\<lparr>s_SmoothedErrorRate := r, s_KError := k\<rparr>"
    unfolding migrateDecay_def Let_def
    by (cases s) auto
  have f: "\<exists>r k c. snd (foldBuckets p st bs t) = t\<lparr>s_SmoothedErrorRate := r, s_KError := k, s_LastBucketAt := c\<rparr>" for st bs t
    by (auto simp: foldBuckets_def Let_def)
  have g: "\<exists>c. t = t\<lparr>s_LastBucketAt := c\<rparr>" for t by (cases t) auto
  obtain r k where mk: "migrateDecay p s = s\<lparr>s_SmoothedErrorRate := r, s_KError := k\<rparr>" using m by blast
  have "s' = migrateDecay p s \<or> (\<exists>st bs. s' = snd (foldBuckets p st bs (migrateDecay p s)))"
    using assms unfolding foldErrorDecayWithBuckets_def Let_def
    by (auto simp: case_prod_beta split: option.splits sum.splits)
  then show ?thesis
  proof
    assume "s' = migrateDecay p s"
    with mk have "s' = s\<lparr>s_SmoothedErrorRate := r, s_KError := k, s_LastBucketAt := s_LastBucketAt s\<rparr>"
      by (cases s) simp
    then show ?thesis by blast
  next
    assume "\<exists>st bs. s' = snd (foldBuckets p st bs (migrateDecay p s))"
    then show ?thesis using f[of _ _ "migrateDecay p s"] mk by fastforce
  qed
qed

context call_filter
begin

lemma foldErrorDecay_emits: "emits P w (snd (snd (foldErrorDecayWithBuckets E site ch now rb p s w)))"
  by (auto simp: foldErrorDecayWithBuckets_def Let_def emits_emit split: option.split sum.split prod.split)

end

section \<open>Properties\<close>



text \<open>every bucket is folded at most once: a second pass over the same answer, with the same
  settlement cutoff, changes nothing.\<close>

theorem decay_folds_once:
  assumes "foldBuckets p settled buckets s = (n, s')"
  shows "foldBuckets p settled buckets s' = ((0, 0), s')"
proof -
  let ?d = "\<lparr>d_rate = s_SmoothedErrorRate s, d_kerror = s_KError s, d_requests = 0, d_errors = 0, d_newest = s_LastBucketAt s\<rparr>"
  let ?f = "foldl (foldBucket p settled (s_LastBucketAt s)) ?d (rev buckets)"
  have cursor: "s_LastBucketAt s' = d_newest ?f" using assms by (auto simp: foldBuckets_def Let_def)
  have mono: "coveredBy (s_LastBucketAt s) t \<Longrightarrow> coveredBy (s_LastBucketAt s') t" for t
    using foldl_newest(2)[of ?d p settled "s_LastBucketAt s" "rev buckets"] cursor by simp
  have unfoldable: "\<not> foldable settled (s_LastBucketAt s') k" if "k \<in> set buckets" for k
  proof (cases "foldable settled (s_LastBucketAt s) k")
    case True
    then have "coveredBy (s_LastBucketAt s') (k_BucketTime k)"
      using foldl_newest(1)[where ks = "rev buckets"] that cursor by auto
    then show ?thesis by (auto simp: coveredBy_def foldable_def split: option.splits)
  next
    case False
    then have "k_BucketTime k > settled \<or> coveredBy (s_LastBucketAt s) (k_BucketTime k)"
      by (auto simp: foldable_def coveredBy_def split: option.splits)
    then have "k_BucketTime k > settled \<or> coveredBy (s_LastBucketAt s') (k_BucketTime k)" using mono by blast
    then show ?thesis by (auto simp: coveredBy_def foldable_def split: option.splits)
  qed
  have "foldl (foldBucket p settled (s_LastBucketAt s')) d ks = d" if "set ks \<subseteq> set buckets" for d ks
    using that by (induction ks) (auto simp: unfoldable)
  then show ?thesis by (simp add: foldBuckets_def Let_def)
qed

theorem decay_folds_once_witness:
  "foldBuckets DefaultContinuous 100
     [\<lparr>k_BucketTime = 60, k_RequestCount = 10, k_ErrorCount = 5, k_UserErrorCount = 0\<rparr>]
     (snd (foldBuckets DefaultContinuous 100
       [\<lparr>k_BucketTime = 60, k_RequestCount = 10, k_ErrorCount = 5, k_UserErrorCount = 0\<rparr>] zeroContinuousState)) =
   ((0, 0), snd (foldBuckets DefaultContinuous 100
       [\<lparr>k_BucketTime = 60, k_RequestCount = 10, k_ErrorCount = 5, k_UserErrorCount = 0\<rparr>] zeroContinuousState))"
  by (rule decay_folds_once) (rule prod.collapse[symmetric])

end
