(* ===== verification/Engine.thy ===== *)
theory Engine
  imports ErrorDecay ChannelSchedule
begin

text \<open>
  The evaluation of one channel: the job that \<open>evaluateContinuous\<close>
  (\<open>server/internal/tuning/continuous_engine.go\<close>) runs under the channel's guard.  The job is the
  composition of the stages of the code, in its order; a stage that returns from the job is a
  \<open>Done\<close>.  The variables captured by the closure are the record \<open>job\<close>.
\<close>

section \<open>The captured variables\<close>

record job =
  j_site :: string
  j_pr :: PolicyRecord
  j_base :: ChannelBaseValue
  j_rows :: "ChannelBaseValue list"
  j_model :: string
  j_mode :: string
  j_now :: time
  j_metricsEmpty :: bool
  j_metricByID :: "int64 \<rightharpoonup> ChannelMetric"
  j_currentMetricByID :: "int64 \<rightharpoonup> ChannelMetric"
  j_stateByID :: "int64 \<rightharpoonup> ContinuousState"
  j_probeSpeeds :: "int64 \<rightharpoonup> ProbeSpeedStats"
  j_scheduleControls :: "int64 \<rightharpoonup> Control"
  j_recentBuckets :: "(int64 \<rightharpoonup> RecentChannelBucket list) option"
  j_baseline :: continuousBaseline
  j_healthy :: bool
  j_probeBaseline :: float64
  j_ratesAreWindowTotals :: bool
  j_ratesUnavailable :: bool
  j_hasRateSnapshot :: bool
  j_ratesAsOf :: time
  j_snapshotVersion :: nat
  j_parallelism :: int64

definition jobParams :: "job \<Rightarrow> ContinuousDispatchParams" where
  "jobParams j = pol_Continuous (pr_Policy (j_pr j))"

definition jobChannel :: "job \<Rightarrow> int64" where
  "jobChannel j = b_ChannelID (j_base j)"

definition jobMetric :: "job \<Rightarrow> ChannelMetric" where
  "jobMetric j = metricAt (j_metricByID j) (jobChannel j)"

definition jobControl :: "job \<Rightarrow> Control" where
  "jobControl j = (case j_scheduleControls j (jobChannel j) of Some c \<Rightarrow> c | None \<Rightarrow> zeroControl)"

text \<open>The local variables of the job: the state under evaluation, the world, and whether anything
  was persisted.\<close>

record vars =
  v_state :: ContinuousState
  v_world :: world
  v_changed :: bool

definition upd :: "(ContinuousState \<Rightarrow> ContinuousState) \<Rightarrow> vars \<Rightarrow> vars" where
  "upd f v = v\<lparr>v_state := f (v_state v)\<rparr>"

definition updW :: "(world \<Rightarrow> world) \<Rightarrow> vars \<Rightarrow> vars" where
  "updW f v = v\<lparr>v_world := f (v_world v)\<rparr>"

definition persistState :: "env \<Rightarrow> vars \<Rightarrow> goerr option \<times> vars" where
  "persistState E v =
     (case putStateCall E (v_state v) (v_world v) of (err, w) \<Rightarrow>
        (err, v\<lparr>v_world := w, v_changed := v_changed v \<or> err = None\<rparr>))"

definition persist :: "env \<Rightarrow> time \<Rightarrow> vars \<Rightarrow> vars" where
  "persist E now v = snd (persistState E (upd (\<lambda>s. s\<lparr>s_UpdatedAt := now\<rparr>) v))"

definition addEvaluated :: "vars \<Rightarrow> vars" where
  "addEvaluated = updW (\<lambda>w. w\<lparr>evaluated := evaluated w + 1\<rparr>)"

definition addWrites :: "int64 \<Rightarrow> vars \<Rightarrow> vars" where
  "addWrites n = updW (\<lambda>w. w\<lparr>writes := writes w + n\<rparr>)"

definition noteEvent :: "Recommendation \<Rightarrow> vars \<Rightarrow> vars" where
  "noteEvent r = updW (emit (InsertRecommendation r))"

text \<open>\<open>state.UpdatedAt = now; persist; evaluated.Add(1); return\<close>.\<close>

definition finish :: "env \<Rightarrow> time \<Rightarrow> vars \<Rightarrow> vars flow" where
  "finish E now v = Done (addEvaluated (persist E now v))"

definition eventOf :: "env \<Rightarrow> job \<Rightarrow> string \<Rightarrow> time \<Rightarrow> vars \<Rightarrow> Recommendation" where
  "eventOf E j rule now v = continuousEvent E (j_site j) (j_base j) (v_state v) rule (j_mode j) now"

definition advance :: "env \<Rightarrow> job \<Rightarrow> time \<Rightarrow> vars \<Rightarrow> vars" where
  "advance E j now v =
     (case advanceCircuitStatus E (j_site j) (j_base j) (jobParams j) now (v_state v) (v_world v) of
        (n, s, w) \<Rightarrow> addWrites n (v\<lparr>v_state := s, v_world := w\<rparr>))"

definition trackedWrite :: "env \<Rightarrow> job \<Rightarrow> Recommendation \<Rightarrow> time \<Rightarrow> vars \<Rightarrow> goerr option \<times> vars" where
  "trackedWrite E j rec now v =
     (case createTrackedWeightChange E rec (j_base j) now (v_state v) (v_world v) of
        ((cmd, err), s, w) \<Rightarrow> (err, v\<lparr>v_state := s, v_world := w\<rparr>))"

definition noteFailure :: "env \<Rightarrow> job \<Rightarrow> goerr \<Rightarrow> time \<Rightarrow> vars \<Rightarrow> vars" where
  "noteFailure E j err now v =
     (case noteWriteFailure E (j_site j) (j_base j) (j_mode j) err now (v_state v) (v_world v) of
        (s, w) \<Rightarrow> v\<lparr>v_state := s, v_world := w\<rparr>)"

section \<open>Preparation\<close>

text \<open>An ordinary evaluation is kept during a site-wide evidence gap.\<close>

definition preservedGap :: "job \<Rightarrow> time \<Rightarrow> bool \<Rightarrow> ContinuousState \<Rightarrow> bool" where
  "preservedGap j now exists previous \<longleftrightarrow>
     (let p = jobParams j; base = j_base j
      in j_metricsEmpty j \<and> exists \<and> \<not> ps_Ready (s_ProbeSpeed previous) \<and>
         \<not> (p_ProbeSpeedExponent p > 0 \<and> j_probeBaseline j > 0 \<and>
            probeSpeedEvidenceReady (probeStatsAt (j_probeSpeeds j) (jobChannel j)) (p_MinSamples p) now (Some p)) \<and>
         s_ModelName previous = j_model j \<and> s_LastObservedRequests previous > 0 \<and>
         \<not> (j_mode j \<noteq> ''auto'' \<and> s_PausedReason previous = ''write_failed'') \<and>
         (s_Phase previous = ''normal'' \<or> s_Phase previous = []) \<and> b_BaseWeight base > 0 \<and>
         length (b_Models base) \<le> 1 \<and> \<not> capacityConfigured base \<and>
         cap_PendingCommandID (s_Capacity previous) = [])"

definition prepareState :: "job \<Rightarrow> time \<Rightarrow> bool \<Rightarrow> ContinuousState \<Rightarrow> ContinuousState" where
  "prepareState j now exists previous =
     (let p = jobParams j; base = j_base j;
          s1 = previous\<lparr>
            s_Evaluation := Some \<lparr>ev_PerformanceEvaluated = False, ev_BaseWeight = b_BaseWeight base,
              ev_BaseUpdatedAt = b_UpdatedAt base, ev_PolicyUpdatedAt = pr_UpdatedAt (j_pr j),
              ev_EvaluatedAt = j_now j, ev_Params = p\<rparr>,
            s_InstanceID := j_site j, s_ChannelID := b_ChannelID base, s_ModelName := j_model j\<rparr>;
          s2 = (if \<not> exists \<or> s_KError s1 \<le> 0 then s1\<lparr>s_KError := 1\<rparr> else s1);
          s3 = (if s_Phase s2 = [] then s2\<lparr>s_Phase := ''normal''\<rparr> else s2);
          s4 = s3\<lparr>s_KSpeed := 1, s_KCache := 1, s_KOTPS := 1,
                  s_ProbeSpeed := evaluateProbeSpeed (probeStatsAt (j_probeSpeeds j) (jobChannel j))
                                    (j_probeBaseline j) p now\<rparr>;
          s5 = (if b_BaseWeight base \<le> 0 \<or> length (b_Models base) \<noteq> 1 \<or> s_CircuitDisabled s4 \<or>
                   s_RoutineCircuitLatched s4 \<or> (s_Phase s4 \<noteq> ''normal'' \<and> s_Phase s4 \<noteq> ''soft_start'')
                then s4\<lparr>s_ProbeSpeed := (s_ProbeSpeed s4)\<lparr>ps_Factor := 1, ps_Ready := False\<rparr>\<rparr> else s4);
          s6 = s5\<lparr>s_SpeedStatsVersion := 1\<rparr>
      in if s_PausedReason s6 = ''manual_override'' then s6\<lparr>s_PausedReason := []\<rparr> else s6)"

text \<open>A write pause only means something while automatic writes can run.\<close>

definition stageStalePause :: "env \<Rightarrow> job \<Rightarrow> time \<Rightarrow> vars \<Rightarrow> vars flow" where
  "stageStalePause E j now v =
     Next (if j_mode j \<noteq> ''auto'' \<and> s_PausedReason (v_state v) = ''write_failed''
           then persist E now (upd noteWriteSuccess v) else v)"

definition measureRates :: "job \<Rightarrow> ContinuousState \<Rightarrow> ContinuousState" where
  "measureRates j s =
     (let m = jobMetric j; base = j_base j;
          current = metricAt (j_currentMetricByID j) (jobChannel j);
          divisor = (if j_ratesAreWindowTotals j then max (of_int (p_WindowMinutes (jobParams j))) 1 else 1);
          rpm = of_int (m_RequestCount current) / divisor;
          tpm = of_int (m_TPM current) / divisor;
          limited = (b_MaxRPM base > 0 \<and> rpm \<ge> of_int (b_MaxRPM base)) \<or>
                    (b_MaxTPM base > 0 \<and> tpm \<ge> of_int (b_MaxTPM base))
      in s\<lparr>s_LastObservedRequests := m_RequestCount m,
           s_LastObservedErrors := max (m_ErrorCount m - m_UserErrorCount m) 0,
           s_MetricRPM := rpm, s_MetricTPM := tpm,
           s_CapacityLimited := limited \<or>
             j_ratesUnavailable j \<and> (b_MaxRPM base > 0 \<or> b_MaxTPM base > 0)\<rparr>)"

definition divertCapacity :: "job \<Rightarrow> ContinuousState \<Rightarrow> ContinuousState" where
  "divertCapacity j s =
     (let c = s_Capacity s
      in if cap_Fresh c \<and> (cap_Phase c = ''reducing'' \<or> cap_PendingCommandID c \<noteq> [])
         then case capacityDiversion (j_base j) (j_rows j) (j_stateByID j) (j_currentMetricByID j) (jobParams j) of
                (canDivert, reason) \<Rightarrow>
                  withCap (\<lambda>c. c\<lparr>cap_Reason := reason,
                    cap_Phase := (if \<not> canDivert \<and> cap_PendingCommandID c = [] then ''no_headroom''
                                  else cap_Phase c)\<rparr>) s
         else s)"

definition stageCapacity :: "env \<Rightarrow> job \<Rightarrow> time \<Rightarrow> vars \<Rightarrow> vars flow" where
  "stageCapacity E j now v =
     (let v1 = upd (measureRates j) v
      in Next (if j_hasRateSnapshot j \<or> cap_Initialized (s_Capacity (v_state v1))
         then case settleCapacityWrite E (j_site j) (j_base j) now (v_state v1) (v_world v1) of (s, w) \<Rightarrow>
                upd (divertCapacity j)
                  (v1\<lparr>v_state := updateCapacity (j_base j) (j_ratesAsOf j) now (\<not> j_ratesUnavailable j)
                         (p_CapacityMaxDecreasePercent (jobParams j)) s,
                      v_world := w\<rparr>)
         else v1))"

definition measureEvidence :: "job \<Rightarrow> ContinuousState \<Rightarrow> ContinuousState" where
  "measureEvidence j s =
     (let m = jobMetric j; p = jobParams j; bl = j_baseline j
      in s\<lparr>s_MetricReady := speedEvidenceReady m (p_MinSamples p),
           s_SpeedSamples := m_SpeedSamples m, s_SpeedRetries := m_SpeedRetries m,
           s_SpeedUnknown := m_SpeedUnknown m, s_SpeedLegacy := m_SpeedLegacy m,
           s_BaselineReady := bl_speedReady bl,
           s_MetricTTFTP50 := m_SpeedTTFTP50 m, s_MetricTTFTP90 := m_SpeedTTFTP90 m,
           s_MetricTTFTP95 := m_SpeedTTFTP95 m,
           s_BaselineTTFTP50 := bl_ttft50 bl, s_BaselineTTFTP90 := bl_ttft90 bl,
           s_BaselineTTFTP95 := bl_ttft95 bl,
           s_MetricCache := m_CacheHitRate m, s_BaselineCache := bl_cache bl,
           s_CacheReady := bl_cacheReady bl \<and> m_CachePromptTokens m \<ge> r_CacheMinTokens (Rules p),
           s_MetricOTPS := m_OTPS m, s_BaselineOTPS := bl_otps bl,
           s_OTPSReady := bl_otpsReady bl \<and> outputEvidenceReady m (p_MinSamples p) (Some p),
           s_OTPSSamples := m_OTPSSamples m, s_OTPSRetries := m_OTPSRetries m,
           s_OTPSUnknown := m_OTPSUnknown m, s_OTPSStatsVersion := m_OTPSStatsVersion m\<rparr>)"

section \<open>Exclusions and exhausted writes\<close>

definition stageExclusions :: "env \<Rightarrow> job \<Rightarrow> time \<Rightarrow> vars \<Rightarrow> vars flow" where
  "stageExclusions E j now v =
     (let base = j_base j; s = v_state v
      in if s_CircuitDisabled s \<and> (b_BaseWeight base \<le> 0 \<or> length (b_Models base) > 1) then Done v
         else if length (b_Models base) > 1 then
           let v1 = upd (\<lambda>s. s\<lparr>s_Multiplier := 1, s_ProposedWeight := b_BaseWeight base\<rparr>) v;
               v2 = (if s_PausedReason (v_state v1) \<noteq> ''mixed_channel''
                     then let v' = upd (\<lambda>s. s\<lparr>s_PausedReason := ''mixed_channel''\<rparr>) v1
                          in noteEvent (eventOf E j ''mixed_channel'' now v') v'
                     else v1)
           in Done (persist E now v2)
         else
           let v1 = (if s_PausedReason s = ''mixed_channel'' then upd (\<lambda>s. s\<lparr>s_PausedReason := []\<rparr>) v else v)
           in if b_BaseWeight base \<le> 0 then
                let v2 = upd (\<lambda>s. clearProbes (s\<lparr>s_Phase := ''normal'', s_Multiplier := 1, s_ProposedWeight := 0,
                           s_CircuitOpenedAt := None, s_NextProbeAt := None, s_ProbeCommandID := None,
                           s_OriginalPriority := None, s_SoftStartPending := False\<rparr>)) v1
                in finish E now (if s_PausedReason (v_state v2) = ''write_failed'' then upd noteWriteSuccess v2 else v2)
              else Next v1)"

definition stageExhausted :: "env \<Rightarrow> job \<Rightarrow> time \<Rightarrow> vars \<Rightarrow> vars flow" where
  "stageExhausted E j now v =
     (let s = v_state v; p = jobParams j
      in if s_WriteFailureStreak s \<ge> r_WriteMaxAttempts (Rules p) \<and> s_CircuitStatusCommandID s = [] \<and>
            cap_PendingCommandID (s_Capacity s) = []
         then case finishFailedWrite E (j_base j) p now s (v_world v) of (s', w) \<Rightarrow>
                finish E now (v\<lparr>v_state := s', v_world := w\<rparr>)
         else Next v)"

section \<open>Circuit ownership and schedules\<close>

definition stageCircuitStatus :: "env \<Rightarrow> job \<Rightarrow> time \<Rightarrow> vars \<Rightarrow> vars flow" where
  "stageCircuitStatus E j now v =
     (let s = v_state v; control = jobControl j;
          outOfWindow = (ctl_Enabled control \<and> \<not> ctl_Allowed control)
      in if s_CircuitDisabled s \<and> j_mode j \<noteq> ''auto'' then Done v
         else if s_CircuitStatusTarget s \<noteq> 0 then
           finish E now
             (if j_mode j = ''auto'' then
                (if s_CircuitStatusTarget s = 1 \<and> s_CircuitStatusCommandID s = [] \<and> outOfWindow
                 then upd (resetFailedCircuitEnable (jobParams j) now) v
                 else advance E j now v)
              else v)
         else if j_mode j = ''auto'' \<and> outOfWindow \<and> (s_Phase s = ''circuit'' \<or> s_Phase s = ''probing'')
         then Done v
         else if cap_PendingCommandID (s_Capacity s) \<noteq> [] \<and> s_Phase s \<noteq> ''normal''
         then Done (persist E now v)
         else Next v)"

text \<open>Error decay; in observe mode settled production traffic is the passive probe.\<close>

definition stageDecay :: "env \<Rightarrow> job \<Rightarrow> time \<Rightarrow> vars \<Rightarrow> vars flow" where
  "stageDecay E j now v =
     (let wasCircuit = (s_Phase (v_state v) = ''circuit'')
      in case foldErrorDecayWithBuckets E (j_site j) (jobChannel j) now (j_recentBuckets j) (jobParams j)
                (v_state v) (v_world v) of ((foldedRequests, foldedErrors), s, w) \<Rightarrow>
           let v1 = v\<lparr>v_state := s, v_world := w\<rparr>
           in Next (if wasCircuit \<and> j_mode j = ''observe'' \<and> foldedRequests > 0
              then upd (\<lambda>s. s\<lparr>s_ProbeAttempts := s_ProbeAttempts s + foldedRequests,
                     s_ProbeSuccesses := s_ProbeSuccesses s + max (foldedRequests - foldedErrors) 0\<rparr>) v1
              else v1))"

section \<open>A completed probe round\<close>

text \<open>The count of the dispatched command; \<open>None\<close> when it cannot be read.\<close>

definition probeRoundComplete :: "env \<Rightarrow> job \<Rightarrow> vars \<Rightarrow> bool option \<times> vars" where
  "probeRoundComplete E j v =
     (if j_mode j = ''auto'' then
        let s = v_state v;
            v1 = updW (emit (CompletedProbeCount (j_site j) (jobChannel j))) v
        in (case completedProbeCount E (trace (v_world v)) (j_site j) (jobChannel j) of
              Inr e \<Rightarrow> (None, v1)
            | Inl expected \<Rightarrow>
                (Some (expected > 0 \<and> s_ProbeAttempts s = expected \<and> s_ProbeSuccesses s \<ge> 0 \<and>
                       s_ProbeSuccesses s \<le> expected), v1))
      else (Some False, v))"

definition probeMultiplier :: "job \<Rightarrow> ContinuousState \<Rightarrow> float64" where
  "probeMultiplier j s =
     (let p = jobParams j;
          successRatio = (if s_ProbeAttempts s > 0
                          then of_int (s_ProbeSuccesses s) / of_int (s_ProbeAttempts s) else 0);
          avg = s_ProbeDurationSum s / of_int (s_ProbeSuccesses s);
          probeSpeed = (if s_ProbeSuccesses s > 0 \<and> j_healthy j \<and> bl_probeTTFT95 (j_baseline j) > 0 \<and> avg > 0
                        then clamp (goPow (bl_probeTTFT95 (j_baseline j) / avg) (r_RecoverySpeedExponent (Rules p)))
                               (r_RecoverySpeedMinFactor (Rules p)) 1
                        else 1)
      in successRatio * probeSpeed)"

definition recoveryWeight :: "job \<Rightarrow> float64 \<Rightarrow> int64" where
  "recoveryWeight j multiplier =
     max (r_RecoveryMinWeight (Rules (jobParams j))) (goRound (of_int (b_BaseWeight (j_base j)) * multiplier))"

text \<open>Persist the intent first, then advance it: \<open>persistState; advanceCircuitStatus\<close>.\<close>

definition ownAndAdvance :: "env \<Rightarrow> job \<Rightarrow> time \<Rightarrow> vars \<Rightarrow> vars flow" where
  "ownAndAdvance E j now v =
     (case persistState E v of (err, v1) \<Rightarrow>
        finish E now (if err = None then advance E j now v1 else v1))"

definition recoverChannel :: "env \<Rightarrow> job \<Rightarrow> time \<Rightarrow> vars \<Rightarrow> vars flow" where
  "recoverChannel E j now v =
     (let p = jobParams j;
          v1 = upd (\<lambda>s. let rate = min (s_SmoothedErrorRate s) (p_RecoveryErrorRate p)
                        in s\<lparr>s_SmoothedErrorRate := rate, s_KError := reliabilityFactorWithPolicy rate p,
                             s_Phase := ''soft_start'', s_SoftStartPending := True,
                             s_Multiplier := p_SoftStartMultiplier p,
                             s_ProposedWeight := recoveryWeight j (p_SoftStartMultiplier p)\<rparr>) v;
          rec = eventOf E j ''circuit_recovered'' now v1
      in if j_mode j = ''auto'' then
           (case trackedWrite E j rec now v1 of
              (None, v2) \<Rightarrow> finish E now (upd clearProbes (addWrites 1 v2))
            | (Some e, v2) \<Rightarrow>
                Next (upd clearProbes (noteFailure E j e now
                  (upd (\<lambda>s. s\<lparr>s_Phase := ''circuit'', s_SoftStartPending := False,
                              s_NextProbeAt := Some (silentUntil p now)\<rparr>) v2))))
         else finish E now (upd clearProbes (noteEvent rec v1)))"

definition stageProbeRound :: "env \<Rightarrow> job \<Rightarrow> time \<Rightarrow> vars \<Rightarrow> vars flow" where
  "stageProbeRound E j now v =
     (if \<not> (s_Phase (v_state v) = ''probing'' \<and> s_ProbeCommandID (v_state v) = None) then Next v
      else case probeRoundComplete E j v of
        (None, v1) \<Rightarrow> Done v1
      | (Some completeRound, v1) \<Rightarrow>
          let s = v_state v1; p = jobParams j; auto = (j_mode j = ''auto'');
              slow = (s_ProbeSlowStreak s \<ge> r_ProbeSlowLimit (Rules p));
              completeFailure = (auto \<and> s_ProbeSuccesses s = 0 \<and> \<not> s_CircuitDisabled s \<and> \<not> slow \<and> completeRound)
          in if auto \<and> \<not> s_CircuitDisabled s \<and> (completeFailure \<or> slow) then
               ownAndAdvance E j now (upd (\<lambda>s. s\<lparr>s_CircuitDisabled := True, s_CircuitStatusTarget := 2,
                                                s_ProposedWeight := 0\<rparr>) v1)
             else if (\<not> auto \<or> completeRound) \<and> probeMultiplier j s \<ge> p_RecoveryThreshold p \<and> \<not> slow then
               (if capacityRecoveryBlocked (j_base j) s then finish E now v1
                else if auto \<and> (s_CircuitDisabled s \<or> ctl_Closed (jobControl j)) then
                  ownAndAdvance E j now (upd (\<lambda>s. s\<lparr>s_CircuitStatusTarget := 1,
                                          s_ProposedWeight := recoveryWeight j (p_SoftStartMultiplier p)\<rparr>) v1)
                else recoverChannel E j now v1)
             else
               let v2 = upd (\<lambda>s. s\<lparr>s_Phase := ''circuit'', s_NextProbeAt := Some (silentUntil p now)\<rparr>) v1
               in Next (upd clearProbes (noteEvent (eventOf E j ''probe_failed'' now v2) v2)))"

section \<open>Waiting phases\<close>

definition stagePassiveRecovery :: "env \<Rightarrow> job \<Rightarrow> time \<Rightarrow> vars \<Rightarrow> vars flow" where
  "stagePassiveRecovery E j now v =
     (let s = v_state v; p = jobParams j; m = jobMetric j; bl = j_baseline j
      in if \<not> (s_Phase s = ''circuit'' \<and> j_mode j = ''observe'' \<and> s_ProbeAttempts s \<ge> p_ProbeCount p) then Next v
         else
           let rate = of_int (s_ProbeAttempts s - s_ProbeSuccesses s) / of_int (s_ProbeAttempts s)
           in if rate \<le> p_RecoveryErrorRate p then
                let s1 = s\<lparr>s_SmoothedErrorRate := rate, s_KError := reliabilityFactorWithPolicy rate p\<rparr>;
                    s2 = (if (j_healthy j \<or> bl_otpsReady bl) \<and> m_RequestCount m \<ge> p_MinSamples p
                          then applyPerformanceFactors s1 m bl p else s1);
                    k = combinedFactor s2 p;
                    v1 = v\<lparr>v_state := s2\<lparr>s_Phase := ''normal'', s_Multiplier := k,
                           s_ProposedWeight := \<lfloor>of_int (b_BaseWeight (j_base j)) * k\<rfloor>,
                           s_CircuitOpenedAt := None, s_NextProbeAt := None, s_OriginalPriority := None,
                           s_SoftStartPending := False, s_ProbeAttempts := 0, s_ProbeSuccesses := 0\<rparr>\<rparr>
                in finish E now (noteEvent (eventOf E j ''circuit_recovered'' now v1) v1)
              else Next (upd (\<lambda>s. s\<lparr>s_ProbeAttempts := 0, s_ProbeSuccesses := 0\<rparr>) v))"

definition stageCircuitWait :: "env \<Rightarrow> job \<Rightarrow> time \<Rightarrow> vars \<Rightarrow> vars flow" where
  "stageCircuitWait E j now v =
     (if s_Phase (v_state v) \<noteq> ''circuit'' then Next v
      else if j_mode j = ''auto'' \<and> (case s_NextProbeAt (v_state v) of Some t \<Rightarrow> \<not> now < t | None \<Rightarrow> False) then
        let p = jobParams j;
            v1 = upd clearProbes v;
            rec = eventOf E j ''probe_started'' now v1;
            v2 = updW (emit (CreateContinuousProbe rec (j_model j) (p_ProbeCount p)
                          (r_RecoveryIntervalSeconds (Rules p)) now)) v1
        in finish E now
             (case createProbe E (trace (v_world v1)) rec of
                Inl cmd \<Rightarrow> upd (\<lambda>s. s\<lparr>s_Phase := ''probing'', s_ProbeCommandID := Some cmd\<rparr>) v2
              | Inr e \<Rightarrow> v2)
      else finish E now v)"

definition stageProbingWait :: "env \<Rightarrow> job \<Rightarrow> time \<Rightarrow> vars \<Rightarrow> vars flow" where
  "stageProbingWait E j now v =
     (if s_Phase (v_state v) \<noteq> ''probing'' then Next v
      else finish E now
        (case s_NextProbeAt (v_state v) of
           Some t \<Rightarrow> if now > t + r_RecoveryLostSeconds (Rules (jobParams j)) * Second
                     then upd (\<lambda>s. s\<lparr>s_Phase := ''circuit'', s_ProbeCommandID := None,
                            s_NextProbeAt := Some (silentUntil (jobParams j) now)\<rparr>) v
                     else v
         | None \<Rightarrow> v))"

definition stageSoftStart :: "env \<Rightarrow> job \<Rightarrow> time \<Rightarrow> vars \<Rightarrow> vars flow" where
  "stageSoftStart E j now v =
     (if s_Phase (v_state v) = ''soft_start'' then
        (if s_SoftStartPending (v_state v)
         then finish E now (upd (\<lambda>s. s\<lparr>s_SoftStartPending := False\<rparr>) v)
         else Next (upd (\<lambda>s. s\<lparr>s_Phase := ''normal'', s_CircuitOpenedAt := None, s_NextProbeAt := None\<rparr>) v))
      else Next v)"

section \<open>Normal operation\<close>

text \<open>The multiplier and the proposed weight before any control decision.\<close>

definition scoreChannel :: "job \<Rightarrow> ContinuousState \<Rightarrow> ContinuousState" where
  "scoreChannel j s0 =
     (let p = jobParams j; m = jobMetric j; bl = j_baseline j; w = b_BaseWeight (j_base j);
          s1 = (if (j_healthy j \<or> bl_otpsReady bl) \<and> j_mode j \<noteq> ''off'' \<and> m_RequestCount m \<ge> p_MinSamples p
                then applyPerformanceFactors s0 m bl p else s0);
          s2 = s1\<lparr>s_Multiplier := combinedFactor s1 p\<rparr>;
          s3 = (if ps_Ready (s_ProbeSpeed s2)
                then s2\<lparr>s_Evaluation := map_option (\<lambda>e. e\<lparr>ev_PerformanceEvaluated := True\<rparr>) (s_Evaluation s2)\<rparr>
                else s2);
          s4 = (if j_mode j = ''off'' \<or> (\<not> j_healthy j \<and> \<not> bl_otpsReady bl \<and> \<not> ps_Ready (s_ProbeSpeed s3))
                then s3\<lparr>s_Multiplier := 1\<rparr> else s3)
      in s4\<lparr>s_ProposedWeight := \<lfloor>of_int w * s_Multiplier s4\<rfloor>\<rparr>)"

definition proposeWeight :: "job \<Rightarrow> int64 \<Rightarrow> ContinuousState \<Rightarrow> ContinuousState" where
  "proposeWeight j weight s =
     s\<lparr>s_ProposedWeight := weight, s_Multiplier := of_int weight / of_int (b_BaseWeight (j_base j))\<rparr>"

definition boundWeight :: "job \<Rightarrow> ContinuousState \<Rightarrow> ContinuousState" where
  "boundWeight j s0 =
     (let base = j_base j;
          current0 = effectiveCurrentWeight base s0;
          s1 = (if s_CapacityLimited s0 \<and> s_ProposedWeight s0 > current0 then proposeWeight j current0 s0 else s0)
      in if j_mode j = ''auto''
         then proposeWeight j (limitWeightIncrease (s_ProposedWeight s1) (effectiveCurrentWeight base s1)
                                 (p_MaxIncreasePercent (jobParams j))) s1
         else s1)"

definition stageScore :: "env \<Rightarrow> job \<Rightarrow> time \<Rightarrow> vars \<Rightarrow> vars flow" where
  "stageScore E j now v = Next (upd (boundWeight j) (upd (scoreChannel j) v))"

text \<open>Opening the circuit: in auto mode the transition is committed by the zeroing write.\<close>

definition openCircuit :: "job \<Rightarrow> time \<Rightarrow> ContinuousState \<Rightarrow> ContinuousState" where
  "openCircuit j now s =
     clearProbes (s\<lparr>s_Phase := ''circuit'', s_Multiplier := 0, s_ProposedWeight := 0,
       s_CircuitOpenedAt := Some now, s_NextProbeAt := Some (silentUntil (jobParams j) now),
       s_OriginalPriority := Some (b_BasePriority (j_base j))\<rparr>)"

definition circuitDue :: "job \<Rightarrow> time \<Rightarrow> ContinuousState \<Rightarrow> bool" where
  "circuitDue j now s \<longleftrightarrow>
     j_mode j \<noteq> ''off'' \<and> s_Phase s = ''normal'' \<and>
     m_RequestCount (jobMetric j) \<ge> p_MinSamples (jobParams j) \<and>
     s_SmoothedErrorRate s \<ge> p_CircuitErrorRate (jobParams j) \<and>
     (j_mode j \<noteq> ''auto'' \<or> writeAttemptAllowed s now)"

definition stageOpenCircuit :: "env \<Rightarrow> job \<Rightarrow> time \<Rightarrow> vars \<Rightarrow> vars flow" where
  "stageOpenCircuit E j now v =
     (if \<not> circuitDue j now (v_state v) then Next v
      else
        let p = jobParams j;
            v1 = upd (openCircuit j now) v;
            rec = eventOf E j ''circuit_opened'' now v1
        in finish E now
             (if j_mode j = ''auto'' then
                (case trackedWrite E j rec now v1 of
                   (None, v2) \<Rightarrow> addWrites 1 v2
                 | (Some e, v2) \<Rightarrow>
                     noteFailure E j e now
                       (upd (\<lambda>s0. let s = s0\<lparr>s_Phase := ''normal''\<rparr>; k = combinedFactor s p
                                  in s\<lparr>s_Multiplier := k, s_ProposedWeight := recoveryWeight j k,
                                       s_CircuitOpenedAt := None, s_NextProbeAt := None,
                                       s_OriginalPriority := None\<rparr>) v2))
              else noteEvent rec v1))"

text \<open>A sparse window keeps the weight already applied.\<close>

definition stageSparse :: "env \<Rightarrow> job \<Rightarrow> time \<Rightarrow> vars \<Rightarrow> vars flow" where
  "stageSparse E j now v =
     (let s = v_state v
      in if \<not> ps_Ready (s_ProbeSpeed s) \<and>
            (m_RequestCount (jobMetric j) < p_MinSamples (jobParams j) \<or>
             (\<not> s_MetricReady s \<or> \<not> s_BaselineReady s) \<and> \<not> s_OTPSReady s)
         then let v1 = upd (\<lambda>s. proposeWeight j (effectiveCurrentWeight (j_base j) s) s) v
              in if \<not> cap_Initialized (s_Capacity s) then finish E now v1 else Next v1
         else Next v)"

definition capacityStep :: "job \<Rightarrow> ContinuousState \<Rightarrow> bool \<times> ContinuousState" where
  "capacityStep j s =
     (if cap_Initialized (s_Capacity s)
      then case applyCapacityTarget s of (reduced, s1) \<Rightarrow> (reduced, proposeWeight j (s_ProposedWeight s1) s1)
      else (False, s))"

text \<open>Observe mode records a proposal once it leaves the dead band around the last recorded one.\<close>

definition observeDue :: "job \<Rightarrow> bool \<Rightarrow> ContinuousState \<Rightarrow> bool" where
  "observeDue j capacityReduction s \<longleftrightarrow>
     j_mode j = ''observe'' \<and>
     (capacityReduction \<or> ps_Ready (s_ProbeSpeed s) \<or>
      (j_healthy j \<or> bl_otpsReady (j_baseline j)) \<and>
        m_RequestCount (jobMetric j) \<ge> p_MinSamples (jobParams j)) \<and>
     (case s_LastObservedWeight s of
        None \<Rightarrow> True
      | Some w \<Rightarrow> weightChangeOutsideDeadband (s_ProposedWeight s) w (b_BaseWeight (j_base j))
                    (r_ObserveDeadbandPercent (Rules (jobParams j))))"

definition confirmedExternalChange :: "job \<Rightarrow> ContinuousState \<Rightarrow> bool" where
  "confirmedExternalChange j s \<longleftrightarrow>
     (case (s_LastWrittenWeight s, s_LastWriteAt s) of
        (Some w, Some t) \<Rightarrow> b_CurrentWeight (j_base j) \<noteq> w \<and>
          b_SnapshotAt (j_base j) > t + r_ExternalWriteGraceSeconds (Rules (jobParams j)) * Second
      | _ \<Rightarrow> False)"

definition needsWrite :: "job \<Rightarrow> ContinuousState \<Rightarrow> bool" where
  "needsWrite j s \<longleftrightarrow>
     (if cap_Initialized (s_Capacity s) then s_ProposedWeight s \<noteq> cap_ConfirmedWeight (s_Capacity s)
      else s_ProposedWeight s \<noteq> writeReference s (j_base j) \<or> confirmedExternalChange j s)"

definition stageWrite :: "env \<Rightarrow> job \<Rightarrow> time \<Rightarrow> vars \<Rightarrow> vars flow" where
  "stageWrite E j now v =
     (case capacityStep j (v_state v) of (capacityReduction, s1) \<Rightarrow>
        let v1 = v\<lparr>v_state := s1\<rparr>;
            v2 = (if observeDue j capacityReduction s1
                  then upd (\<lambda>s. s\<lparr>s_LastObservedWeight := Some (s_ProposedWeight s)\<rparr>)
                         (noteEvent (eventOf E j ''weight_observed'' now v1) v1)
                  else v1);
            s2 = v_state v2;
            needs = needsWrite j s2;
            retrying = (s_PausedReason s2 = ''write_failed'' \<and> writeAttemptAllowed s2 now);
            v3 = (if j_mode j = ''auto'' \<and> retrying \<and> \<not> needs then upd noteWriteSuccess v2 else v2);
            s3 = v_state v3
        in finish E now
             (if j_mode j = ''auto'' \<and> writeAttemptAllowed s3 now \<and> needs \<and>
                 cap_PendingCommandID (s_Capacity s3) = [] then
                let rule = (if capacityReduction then ''capacity_reduce'' else ''weight_write'');
                    rec = eventOf E j rule now v3
                in (case trackedWrite E j rec now v3 of
                      (None, v4) \<Rightarrow> addWrites 1 v4
                    | (Some e, v4) \<Rightarrow>
                        upd (\<lambda>s. if cap_Initialized (s_Capacity s) \<and> \<not> errorsIs e ErrDecisionSuperseded
                                 then withCap (\<lambda>c. c\<lparr>cap_Phase := ''write_failed''\<rparr>) s else s)
                          (noteFailure E j e now v4))
              else v3))"

section \<open>The job\<close>

definition evaluateStages :: "env \<Rightarrow> job \<Rightarrow> time \<Rightarrow> vars \<Rightarrow> vars flow" where
  "evaluateStages E j now v0 =
     andThen (andThen (andThen (andThen (andThen (andThen (andThen (andThen (andThen (andThen (andThen
       (andThen (andThen (andThen
         (stageStalePause E j now v0)
         (stageCapacity E j now))
         (\<lambda>v. stageExclusions E j now (upd (measureEvidence j) v)))
         (stageExhausted E j now))
         (stageCircuitStatus E j now))
         (stageDecay E j now))
         (stageProbeRound E j now))
         (stagePassiveRecovery E j now))
         (stageCircuitWait E j now))
         (stageProbingWait E j now))
         (stageSoftStart E j now))
         (stageScore E j now))
         (stageOpenCircuit E j now))
         (stageSparse E j now))
         (stageWrite E j now)"

definition evaluateBody :: "env \<Rightarrow> job \<Rightarrow> time \<Rightarrow> world \<Rightarrow> vars" where
  "evaluateBody E j now w =
     (let exists = (j_stateByID j (jobChannel j) \<noteq> None);
          previous = stateAt (j_stateByID j) (jobChannel j);
          v0 = \<lparr>v_state = previous, v_world = w, v_changed = False\<rparr>
      in if s_PausedReason previous = ManualDisabled then v0
         else if preservedGap j now exists previous
         then updW (\<lambda>w. w\<lparr>preserved := preserved w + 1\<rparr>) v0
         else flowVal (evaluateStages E j now (upd (prepareState j now exists) v0)))"

text \<open>The guard: a job whose snapshot is older than the last decision on the channel does nothing.
  On the way out the change notification is sent, then the guard gets a fresh version.\<close>

definition bumpGuard :: "string \<Rightarrow> int64 \<Rightarrow> world \<Rightarrow> world" where
  "bumpGuard site ch w =
     (let n = version w + 1 in w\<lparr>version := n, guards := (guards w)((site, ch) := n)\<rparr>)"

definition evaluateChannel :: "env \<Rightarrow> job \<Rightarrow> world \<Rightarrow> world" where
  "evaluateChannel E j w =
     (if guards w (j_site j, jobChannel j) > j_snapshotVersion j \<or> ctxErr E (trace w) then w
      else
        let (now, w0) = (if j_parallelism j > 1 then (clock E (trace w), emit Now w) else (j_now j, w));
            v = evaluateBody E j now w0;
            w1 = (if v_changed v then emit (Notify (j_site j)) (v_world v) else v_world v)
        in bumpGuard (j_site j) (jobChannel j) w1)"

end
