(* ===== verification/EngineSafety.thy ===== *)
theory EngineSafety
  imports Engine
begin

text \<open>
  Safety of the channel job: which calls its stages can make.  The stage lemmas are proved in the
  locale \<open>put_any\<close> (filters that accept persisting any state) and used through its
  interpretations.
\<close>

section \<open>Frame equations of the local variables\<close>

lemma vars_simps [simp]:
  "v_world (upd f v) = v_world v" "v_state (upd f v) = f (v_state v)" "v_changed (upd f v) = v_changed v"
  "v_world (updW g v) = g (v_world v)" "v_state (updW g v) = v_state v" "v_changed (updW g v) = v_changed v"
  by (simp_all add: upd_def updW_def)

lemma noteEvent_simps [simp]:
  "v_world (noteEvent r v) = emit (InsertRecommendation r) (v_world v)"
  "v_state (noteEvent r v) = v_state v" "v_changed (noteEvent r v) = v_changed v"
  by (simp_all add: noteEvent_def)

lemma counters_simps [simp]:
  "v_state (addEvaluated v) = v_state v" "v_state (addWrites n v) = v_state v"
  "v_changed (addEvaluated v) = v_changed v" "v_changed (addWrites n v) = v_changed v"
  "trace (v_world (addEvaluated v)) = trace (v_world v)" "trace (v_world (addWrites n v)) = trace (v_world v)"
  "emits P u (v_world (addEvaluated v)) = emits P u (v_world v)"
  "emits P u (v_world (addWrites n v)) = emits P u (v_world v)"
  by (simp_all add: addEvaluated_def addWrites_def)

lemma persistState_simps [simp]:
  "fst (persistState E v) = putState E (trace (v_world v)) (v_state v)"
  "v_state (snd (persistState E v)) = v_state v"
  "v_world (snd (persistState E v)) = emit (PutContinuousState (v_state v)) (v_world v)"
  by (simp_all add: persistState_def putStateCall_def)

lemma persist_simps [simp]:
  "v_state (persist E now v) = (v_state v)\<lparr>s_UpdatedAt := now\<rparr>"
  "v_world (persist E now v) = emit (PutContinuousState ((v_state v)\<lparr>s_UpdatedAt := now\<rparr>)) (v_world v)"
  by (simp_all add: persist_def)

lemma advance_simps:
  "v_state (advance E j now v) =
     fst (snd (advanceCircuitStatus E (j_site j) (j_base j) (jobParams j) now (v_state v) (v_world v)))"
  "emits P u (v_world (advance E j now v)) =
     emits P u (snd (snd (advanceCircuitStatus E (j_site j) (j_base j) (jobParams j) now (v_state v) (v_world v))))"
  by (simp_all add: advance_def case_prod_beta)

lemma trackedWrite_simps:
  "fst (trackedWrite E j r now v) =
     snd (fst (createTrackedWeightChange E r (j_base j) now (v_state v) (v_world v)))"
  "v_state (snd (trackedWrite E j r now v)) =
     fst (snd (createTrackedWeightChange E r (j_base j) now (v_state v) (v_world v)))"
  "v_world (snd (trackedWrite E j r now v)) =
     snd (snd (createTrackedWeightChange E r (j_base j) now (v_state v) (v_world v)))"
  by (simp_all add: trackedWrite_def case_prod_beta)

lemma noteFailure_simps:
  "v_state (noteFailure E j e now v) =
     fst (noteWriteFailure E (j_site j) (j_base j) (j_mode j) e now (v_state v) (v_world v))"
  "v_world (noteFailure E j e now v) =
     snd (noteWriteFailure E (j_site j) (j_base j) (j_mode j) e now (v_state v) (v_world v))"
  by (simp_all add: noteFailure_def case_prod_beta)

lemma flowVal_finish [simp]: "flowVal (finish E now v) = addEvaluated (persist E now v)"
  by (simp add: finish_def)

text \<open>From the body of the job to the guarded evaluation.\<close>

lemma adds_bumpGuard [simp]: "adds P u (bumpGuard site ch w) = adds P u w"
  by (simp add: bumpGuard_def Let_def adds_def)

lemma evaluateChannel_adds:
  assumes body: "\<And>now u. emits P u (v_world (evaluateBody E j now u))" and "P Now" "P (Notify (j_site j))"
  shows "adds P w (evaluateChannel E j w)"
proof -
  have "adds P w (v_world (evaluateBody E j now (emit Now w)))" for now
    using emits_trans[OF emits_emit[of P Now w] body] assms(2) by (simp add: emits_def)
  then show ?thesis
    using body[THEN emits_adds] assms(3)
    by (simp add: evaluateChannel_def Let_def adds_emit) (simp add: adds_def)
qed

section \<open>The write stage\<close>

text \<open>The last stage: the state after the capacity bound, the observation and the retry check, then
  possibly one tracked write.\<close>

definition afterObserve :: "env \<Rightarrow> job \<Rightarrow> time \<Rightarrow> vars \<Rightarrow> vars" where
  "afterObserve E j now v =
     (case capacityStep j (v_state v) of (red, s1) \<Rightarrow>
        let v1 = v\<lparr>v_state := s1\<rparr>;
            v2 = (if observeDue j red s1
                  then upd (\<lambda>s. s\<lparr>s_LastObservedWeight := Some (s_ProposedWeight s)\<rparr>)
                         (noteEvent (eventOf E j ''weight_observed'' now v1) v1)
                  else v1)
        in if j_mode j = ''auto'' \<and> (s_PausedReason (v_state v2) = ''write_failed'' \<and> writeAttemptAllowed (v_state v2) now) \<and>
              \<not> needsWrite j (v_state v2) then upd noteWriteSuccess v2 else v2)"

definition afterWrite :: "env \<Rightarrow> job \<Rightarrow> time \<Rightarrow> goerr option \<times> vars \<Rightarrow> vars" where
  "afterWrite E j now r =
     (case r of
        (None, v4) \<Rightarrow> addWrites 1 v4
      | (Some e, v4) \<Rightarrow>
          upd (\<lambda>s. if cap_Initialized (s_Capacity s) \<and> \<not> errorsIs e ErrDecisionSuperseded
                   then withCap (\<lambda>c. c\<lparr>cap_Phase := ''write_failed''\<rparr>) s else s)
            (noteFailure E j e now v4))"

lemma stageWrite_cases:
  assumes "v3 = afterObserve E j now v"
  shows "stageWrite E j now v = finish E now v3 \<or>
    (j_mode j = ''auto'' \<and> writeAttemptAllowed (v_state v3) now \<and> cap_PendingCommandID (s_Capacity (v_state v3)) = [] \<and>
     stageWrite E j now v = finish E now (afterWrite E j now (trackedWrite E j
       (eventOf E j (if fst (capacityStep j (v_state v)) then ''capacity_reduce'' else ''weight_write'') now v3) now v3)))"
  unfolding assms stageWrite_def afterObserve_def afterWrite_def Let_def case_prod_beta
  by (cases "capacityStep j (v_state v)") simp

section \<open>Calls of the stages\<close>

locale put_any = call_filter +
  assumes puts: "P (PutContinuousState s)"
begin

lemma emits_persist [simp]: "emits P u (v_world (persist E now v)) = emits P u (v_world v)" if "emits P u (v_world v)"
  using that puts by (simp add: emits_emit_right)

lemma emits_finish: "emits P u (v_world v) \<Longrightarrow> emits P u (v_world (flowVal (finish E now v)))"
  using puts by (simp add: emits_emit_right)

lemma emits_event: "emits P u w \<Longrightarrow> emits P u (emit (InsertRecommendation r) w)"
  by (simp add: emits_emit_right)

lemma emits_put: "emits P u w \<Longrightarrow> emits P u (emit (PutContinuousState s) w)"
  using puts by (simp add: emits_emit_right)

lemma emits_noteFailure: "emits P u (v_world v) \<Longrightarrow> emits P u (v_world (noteFailure E j e now v))"
  using noteWriteFailure_emits emits_trans unfolding noteFailure_simps by blast

lemmas emits_intros = emits_finish emits_event emits_put emits_noteFailure

lemma stageStalePause_emits: "emits P (v_world v) (v_world (flowVal (stageStalePause E j now v)))"
  by (simp add: stageStalePause_def emits_put)

lemma stageCapacity_emits: "emits P (v_world v) (v_world (flowVal (stageCapacity E j now v)))"
  using settleCapacityWrite_emits[of "v_world v" E "j_site j" "j_base j" now "measureRates j (v_state v)"]
  by (simp add: stageCapacity_def Let_def case_prod_beta)

lemma stageExclusions_emits: "emits P (v_world v) (v_world (flowVal (stageExclusions E j now v)))"
  by (auto simp: stageExclusions_def Let_def intro!: emits_put emits_event)

lemma stageExhausted_emits: "emits P (v_world v) (v_world (flowVal (stageExhausted E j now v)))"
  using finishFailedWrite_emits[of "v_world v" E "j_base j" "jobParams j" now "v_state v"]
  by (simp add: stageExhausted_def Let_def case_prod_beta emits_put)

lemma stageDecay_emits: "emits P (v_world v) (v_world (flowVal (stageDecay E j now v)))"
  using foldErrorDecay_emits[of "v_world v" E "j_site j" "jobChannel j" now "j_recentBuckets j" "jobParams j" "v_state v"]
  by (simp add: stageDecay_def Let_def case_prod_beta)

lemma stagePassiveRecovery_emits: "emits P (v_world v) (v_world (flowVal (stagePassiveRecovery E j now v)))"
  by (auto simp: stagePassiveRecovery_def Let_def intro!: emits_put emits_event)

lemma stageProbingWait_emits: "emits P (v_world v) (v_world (flowVal (stageProbingWait E j now v)))"
  by (auto simp: stageProbingWait_def split: option.split intro!: emits_put)

lemma stageSoftStart_emits: "emits P (v_world v) (v_world (flowVal (stageSoftStart E j now v)))"
  by (auto simp: stageSoftStart_def intro!: emits_put)

lemma stageScore_emits: "emits P (v_world v) (v_world (flowVal (stageScore E j now v)))"
  by (simp add: stageScore_def)

lemma stageSparse_emits: "emits P (v_world v) (v_world (flowVal (stageSparse E j now v)))"
  by (auto simp: stageSparse_def Let_def intro!: emits_put)

text \<open>The stages that talk to the control interface, outside auto mode.\<close>

lemma stageCircuitStatus_emits_manual:
  "j_mode j \<noteq> ''auto'' \<Longrightarrow> emits P (v_world v) (v_world (flowVal (stageCircuitStatus E j now v)))"
  by (auto simp: stageCircuitStatus_def Let_def intro!: emits_put)

lemma stageProbeRound_emits_manual:
  "j_mode j \<noteq> ''auto'' \<Longrightarrow> emits P (v_world v) (v_world (flowVal (stageProbeRound E j now v)))"
  by (auto simp: stageProbeRound_def probeRoundComplete_def recoverChannel_def Let_def
      intro!: emits_put emits_event)

lemma stageCircuitWait_emits_manual:
  "j_mode j \<noteq> ''auto'' \<Longrightarrow> emits P (v_world v) (v_world (flowVal (stageCircuitWait E j now v)))"
  by (auto simp: stageCircuitWait_def intro!: emits_put)

lemma stageOpenCircuit_emits_manual:
  "j_mode j \<noteq> ''auto'' \<Longrightarrow> emits P (v_world v) (v_world (flowVal (stageOpenCircuit E j now v)))"
  by (auto simp: stageOpenCircuit_def Let_def intro!: emits_put emits_event)

lemma stageWrite_emits_manual:
  "j_mode j \<noteq> ''auto'' \<Longrightarrow> emits P (v_world v) (v_world (flowVal (stageWrite E j now v)))"
  by (auto simp: stageWrite_def Let_def case_prod_beta intro!: emits_put emits_event)

lemmas stage_emits = stageStalePause_emits stageCapacity_emits stageExclusions_emits stageExhausted_emits
  stageDecay_emits stagePassiveRecovery_emits stageProbingWait_emits stageSoftStart_emits
  stageScore_emits stageSparse_emits

lemmas stage_emits_manual = stageCircuitStatus_emits_manual stageProbeRound_emits_manual
  stageCircuitWait_emits_manual stageOpenCircuit_emits_manual stageWrite_emits_manual

text \<open>A stage that only adds accepted calls can be appended to a run that did.\<close>

lemma andThen_emits:
  assumes "emits P u (v_world (flowVal m))"
    and "\<And>x. emits P (v_world x) (v_world (flowVal (f x)))"
  shows "emits P u (v_world (flowVal (andThen m f)))"
  using assms by (cases m) (auto intro: emits_trans)

lemma stageExclusions_measured_emits:
  "emits P (v_world v) (v_world (flowVal (stageExclusions E j now (upd (measureEvidence j) v))))"
  using stageExclusions_emits[of "upd (measureEvidence j) v"] by simp

lemma evaluateStages_emits_manual:
  assumes "j_mode j \<noteq> ''auto''"
  shows "emits P (v_world v) (v_world (flowVal (evaluateStages E j now v)))"
  unfolding evaluateStages_def
  by (intro andThen_emits stage_emits stage_emits_manual stageExclusions_measured_emits assms)

lemma evaluateBody_emits_manual:
  assumes "j_mode j \<noteq> ''auto''"
  shows "emits P w (v_world (evaluateBody E j now w))"
  using evaluateStages_emits_manual[OF assms, of "upd (prepareState j now ex) v" for ex v]
  by (simp add: evaluateBody_def Let_def) (metis (no_types, lifting) vars.select_convs(2) vars_simps(1))

end

interpretation no_control_puts: put_any "\<lambda>c. \<not> isControl c"
  by unfold_locales simp

interpretation no_weight_change_puts: put_any "\<lambda>c. \<not> isWeightChange c"
  by unfold_locales simp

section \<open>Frame of the whole job\<close>

text \<open>With a filter that accepts every call the same lemmas say what every path of the job leaves
  alone: it only appends calls, and it never moves a guard or the version counter.\<close>

locale any_call = put_any +
  assumes any: "P c"
begin

lemma advance_emits: "emits P u (v_world v) \<Longrightarrow> emits P u (v_world (advance E j now v))"
  unfolding advance_simps using advanceCircuitStatus_emits any emits_trans by blast

lemma trackedWrite_emits: "emits P u (v_world v) \<Longrightarrow> emits P u (v_world (snd (trackedWrite E j r now v)))"
  unfolding trackedWrite_simps using createTracked_emits any emits_trans by blast

lemma trackedWrite_emits': "trackedWrite E j r now v = (e, v') \<Longrightarrow> emits P u (v_world v) \<Longrightarrow> emits P u (v_world v')"
  using trackedWrite_emits by (metis snd_conv)

lemma stageCircuitStatus_emits: "emits P (v_world v) (v_world (flowVal (stageCircuitStatus E j now v)))"
  by (auto simp: stageCircuitStatus_def Let_def intro!: emits_put advance_emits)

lemma ownAndAdvance_emits: "emits P u (v_world v) \<Longrightarrow> emits P u (v_world (flowVal (ownAndAdvance E j now v)))"
  by (auto simp: ownAndAdvance_def case_prod_beta intro!: emits_put advance_emits)

lemma recoverChannel_emits: "emits P u (v_world v) \<Longrightarrow> emits P u (v_world (flowVal (recoverChannel E j now v)))"
  by (auto simp: recoverChannel_def Let_def intro!: emits_put emits_event emits_noteFailure
      split: prod.split option.split elim!: trackedWrite_emits')

lemma stageProbeRound_emits: "emits P (v_world v) (v_world (flowVal (stageProbeRound E j now v)))"
proof -
  obtain c v1 where c: "probeRoundComplete E j v = (c, v1)" by (metis prod.exhaust)
  then have "emits P (v_world v) (v_world v1)"
    by (auto simp: probeRoundComplete_def Let_def split: if_splits sum.splits intro!: emits_emit)
  then show ?thesis
    by (cases c) (auto simp: stageProbeRound_def c Let_def intro!: emits_put emits_event ownAndAdvance_emits recoverChannel_emits)
qed

lemma stageCircuitWait_emits: "emits P (v_world v) (v_world (flowVal (stageCircuitWait E j now v)))"
  by (auto simp: stageCircuitWait_def Let_def any intro!: emits_put emits_emit_right split: sum.split option.split)

lemma stageOpenCircuit_emits: "emits P (v_world v) (v_world (flowVal (stageOpenCircuit E j now v)))"
  by (auto simp: stageOpenCircuit_def Let_def intro!: emits_put emits_event emits_noteFailure
      split: prod.split option.split elim!: trackedWrite_emits')

lemma stageWrite_emits: "emits P (v_world v) (v_world (flowVal (stageWrite E j now v)))"
proof -
  have o: "emits P (v_world v) (v_world (afterObserve E j now v))"
    by (simp add: afterObserve_def case_prod_beta Let_def emits_emit)
  have "emits P (v_world v) (v_world (afterWrite E j now (trackedWrite E j r now (afterObserve E j now v))))" for r
    using trackedWrite_emits[OF o, of E j r now] emits_noteFailure
    by (cases "trackedWrite E j r now (afterObserve E j now v)") (auto simp: afterWrite_def split: option.split)
  then show ?thesis
    using stageWrite_cases[OF refl, of E j now v] o by (auto intro!: emits_put)
qed

lemma evaluateBody_emits: "emits P w (v_world (evaluateBody E j now w))"
proof -
  have "emits P (v_world v) (v_world (flowVal (evaluateStages E j now v)))" for v
    unfolding evaluateStages_def
    by (intro andThen_emits stage_emits stageExclusions_measured_emits stageCircuitStatus_emits stageProbeRound_emits
        stageCircuitWait_emits stageOpenCircuit_emits stageWrite_emits)
  from this[of "upd f \<lparr>v_state = s, v_world = w, v_changed = False\<rparr>" for f s] show ?thesis
    by (simp add: evaluateBody_def Let_def)
qed

end

interpretation every_call: any_call "\<lambda>c. True"
  by unfold_locales simp_all

lemma evaluateBody_version: "version (v_world (evaluateBody E j now u)) = version u"
  using every_call.evaluateBody_emits[of u E j now] by (simp add: emits_def)

lemma evaluateChannel_version:
  assumes "\<not> (guards w (j_site j, jobChannel j) > j_snapshotVersion j \<or> ctxErr E (trace w))"
  shows "guards (evaluateChannel E j w) (j_site j, jobChannel j) = version w + 1"
  using assms by (simp add: evaluateChannel_def Let_def bumpGuard_def evaluateBody_version)

end
