(* ===== verification/StateInvariant.thy ===== *)
theory StateInvariant
  imports ErrorDecay
begin

text \<open>
  The invariant of the persisted channel state.  \<open>wfState\<close> says that the phase is one of the four
  phases, that the smoothed error rate and the reliability factor are in range, that the probe
  counters are consistent, and that the phase agrees with the fields that drive it: an open circuit
  without a pending status intent has a next probe time, only a soft start can be pending, and only the
  probing phase owns a probe command.  \<open>wfStored\<close> is its form for states that may predate the phase and
  the factor.

  The locale \<open>state_invariant\<close> is the contract between an invariant and the write path: the elementary
  steps an invariant has to survive.  Its lemmas carry an invariant through tracked writes, receipts and
  status transitions; both forms interpret it.
\<close>

definition okPhase :: "string \<Rightarrow> bool" where
  "okPhase ph \<longleftrightarrow> ph = ''normal'' \<or> ph = ''circuit'' \<or> ph = ''probing'' \<or> ph = ''soft_start''"

definition wfCore :: "ContinuousState \<Rightarrow> bool" where
  "wfCore s \<longleftrightarrow>
     0 \<le> s_SmoothedErrorRate s \<and> s_SmoothedErrorRate s \<le> 1 \<and>
     0 \<le> s_ProbeSuccesses s \<and> s_ProbeSuccesses s \<le> s_ProbeAttempts s \<and>
     0 \<le> s_WriteFailureStreak s \<and>
     (s_SoftStartPending s \<longrightarrow> s_Phase s = ''soft_start'') \<and>
     (s_ProbeCommandID s \<noteq> None \<longrightarrow> s_Phase s = ''probing'') \<and>
     (s_CircuitStatusTarget s \<noteq> 0 \<longrightarrow> s_ProbeCommandID s = None \<and> \<not> s_SoftStartPending s) \<and>
     ((s_Phase s = ''circuit'' \<or> s_Phase s = ''probing'') \<and> s_CircuitStatusTarget s = 0 \<longrightarrow> s_NextProbeAt s \<noteq> None)"

definition wfState :: "ContinuousState \<Rightarrow> bool" where
  "wfState s \<longleftrightarrow> wfCore s \<and> okPhase (s_Phase s) \<and> 0 < s_KError s \<and> s_KError s \<le> 1"

text \<open>A stored state may predate the phase and the factor.\<close>

definition wfStored :: "ContinuousState \<Rightarrow> bool" where
  "wfStored s \<longleftrightarrow> wfCore s \<and> (okPhase (s_Phase s) \<or> s_Phase s = []) \<and> s_KError s \<le> 1"

lemma wfStored_zero: "wfStored zeroContinuousState"
  by (simp add: wfStored_def wfCore_def zeroContinuousState_def)

lemma wfState_stored: "wfState s \<Longrightarrow> wfStored s"
  by (simp add: wfState_def wfStored_def)

lemmas wf_defs = wfState_def wfCore_def okPhase_def

section \<open>The contract\<close>

definition sameFields :: "ContinuousState \<Rightarrow> ContinuousState \<Rightarrow> bool" where
  "sameFields s t \<longleftrightarrow>
     s_Phase t = s_Phase s \<and> s_SmoothedErrorRate t = s_SmoothedErrorRate s \<and> s_KError t = s_KError s \<and>
     s_ProbeSuccesses t = s_ProbeSuccesses s \<and> s_ProbeAttempts t = s_ProbeAttempts s \<and>
     s_WriteFailureStreak t = s_WriteFailureStreak s \<and> s_SoftStartPending t = s_SoftStartPending s \<and>
     s_ProbeCommandID t = s_ProbeCommandID s \<and> s_CircuitStatusTarget t = s_CircuitStatusTarget s \<and>
     s_NextProbeAt t = s_NextProbeAt s"

locale state_invariant =
  fixes I :: "ContinuousState \<Rightarrow> bool"
  assumes cong: "sameFields s t \<Longrightarrow> I t = I s"
    and streak: "I s \<Longrightarrow> 0 \<le> n \<Longrightarrow> I (s\<lparr>s_WriteFailureStreak := n\<rparr>)"
    and streak_nonneg: "I s \<Longrightarrow> 0 \<le> s_WriteFailureStreak s"
    and clear: "I s \<Longrightarrow> I (clearProbes s)"
    and probe_time: "I s \<Longrightarrow> I (s\<lparr>s_NextProbeAt := Some due\<rparr>)"
    and to_normal: "I s \<Longrightarrow> s_Phase s = ''circuit'' \<Longrightarrow> I (s\<lparr>s_Phase := ''normal'', s_NextProbeAt := None\<rparr>)"
    and reset: "I s \<Longrightarrow> s_Phase s \<noteq> ''probing'' \<or> s_ProbeCommandID s = None \<Longrightarrow> I (resetFailedCircuitEnable p now s)"
    and disable: "I s \<Longrightarrow> s_ProbeCommandID s = None \<Longrightarrow> \<not> s_SoftStartPending s \<Longrightarrow> I (s\<lparr>s_CircuitStatusTarget := 2\<rparr>)"
    and commit: "wfParams p \<Longrightarrow> I s \<Longrightarrow> s_ProbeCommandID s = None \<Longrightarrow> \<not> s_SoftStartPending s \<Longrightarrow>
      I (commitCircuitStatus p now target s)"
begin

lemma inv_fields [simp]:
  "I (withCap f s) = I s" "I (s\<lparr>s_UpdatedAt := t\<rparr>) = I s" "I (s\<lparr>s_CapacityLimited := l\<rparr>) = I s"
  "I (s\<lparr>s_CircuitStatusCommandID := c\<rparr>) = I s" "I (s\<lparr>s_LastWriteError := e\<rparr>) = I s"
  "I (s\<lparr>s_LastWriteFailureAt := a\<rparr>) = I s" "I (s\<lparr>s_PausedReason := r\<rparr>) = I s"
  "I (s\<lparr>s_CircuitOpenedAt := b\<rparr>) = I s" "I (s\<lparr>s_OriginalPriority := d\<rparr>) = I s"
  "I (s\<lparr>s_LastWrittenWeight := g\<rparr>) = I s" "I (s\<lparr>s_LastWriteAt := h\<rparr>) = I s"
  by (auto intro!: cong simp: sameFields_def withCap_def)

lemma inv_noteWriteSuccess: "I s \<Longrightarrow> I (noteWriteSuccess s)"
  by (simp add: noteWriteSuccess_def Let_def streak)

lemma inv_noteWriteFailure: "I s \<Longrightarrow> I (fst (noteWriteFailure E site base mode e now s w))"
  using streak[of s "s_WriteFailureStreak s + 1"] streak_nonneg[of s]
  by (simp add: noteWriteFailure_def Let_def)

lemma inv_confirmCapacityWrite:
  assumes "I s"
  shows "I (confirmCapacityWrite weight now s)"
proof -
  let ?c = "confirmCapacityWrite weight now s"
  have "sameFields s ?c \<or> (\<exists>t. sameFields (s\<lparr>s_NextProbeAt := Some t\<rparr>) ?c)"
    by (simp add: confirmCapacityWrite_def withCap_def Let_def sameFields_def)
  then show ?thesis using cong assms probe_time by blast
qed

lemma inv_resetUnapplied:
  assumes "I s"
  shows "I (fst (resetUnappliedCapacityTransition E site now s w))"
proof -
  have "sameFields (s\<lparr>s_Phase := ''normal'', s_NextProbeAt := None\<rparr>)
      (s\<lparr>s_Phase := ''normal'', s_CircuitOpenedAt := None, s_NextProbeAt := None, s_OriginalPriority := None\<rparr>)"
    by (simp add: sameFields_def)
  from cong[OF this] have "s_Phase s = ''circuit'' \<Longrightarrow>
      I (s\<lparr>s_Phase := ''normal'', s_CircuitOpenedAt := None, s_NextProbeAt := None, s_OriginalPriority := None\<rparr>)"
    using to_normal[OF assms] by (simp del: inv_fields)
  then show ?thesis
    using assms reset[OF assms] by (auto simp: resetUnappliedCapacityTransition_def Let_def simp del: inv_fields)
qed

lemma inv_settleCapacityWrite: "I s \<Longrightarrow> I (fst (settleCapacityWrite E site b now s w))"
  using inv_resetUnapplied[of "withCap (\<lambda>c. c\<lparr>cap_PendingCommandID := []\<rparr>) s" E site now]
  by (simp add: settleCapacityWrite_def Let_def case_prod_beta inv_noteWriteSuccess inv_confirmCapacityWrite
      inv_noteWriteFailure)

lemma inv_updateCapacity: "I (updateCapacity b asOf now avail pct s) = I s"
  by (rule cong) (simp add: sameFields_def updateCapacity_def updateCapacityUnconfigured_def withCap_def Let_def)

lemma inv_persistedBeforeWrite [simp]: "I (persistedBeforeWrite b now s) = I s"
  by (simp add: persistedBeforeWrite_def trackCapacity_def)

lemma inv_afterCommand: "I s \<Longrightarrow> I (fst (afterCommand E r b now cmd s w))"
  by (simp add: afterCommand_def Let_def inv_noteWriteSuccess inv_confirmCapacityWrite inv_settleCapacityWrite)

lemma inv_createTracked: "I s \<Longrightarrow> I (fst (snd (createTrackedWeightChange E r b now s w)))"
  by (simp add: createTracked_eq Let_def inv_afterCommand split: option.split prod.split)

lemma inv_ensureStatusCommand:
  assumes "I s" "s_ProbeCommandID s = None"
    and "ensureStatusCommand E site base p now target s w = Inl (s1, w1) \<or>
         ensureStatusCommand E site base p now target s w = Inr (s1, w1)"
  shows "I s1"
proof -
  have fail: "I s' \<and> s_ProbeCommandID s' = None"
    if "noteWriteFailure E site base ''auto'' e now s u = (s', u')" for e u s' u'
    using inv_noteWriteFailure[OF assms(1), of E site base "''auto''" e now u] that assms(2)
    by (auto simp: noteWriteFailure_def Let_def split: if_splits)
  show ?thesis
    using assms fail
    by (auto simp: ensureStatusCommand_def Let_def split: if_splits prod.splits option.splits intro!: reset)
qed

lemma inv_awaitCircuitStatus:
  assumes "wfParams p" "I s" "s_ProbeCommandID s = None" "\<not> s_SoftStartPending s"
  shows "I (fst (snd (awaitCircuitStatus E site base p now target s w)))"
proof -
  let ?s = "s\<lparr>s_CircuitStatusCommandID := []\<rparr>"
  have fail: "I (fst (noteWriteFailure E site base ''auto'' e now ?s u))" for e u
    using assms(2) by (intro inv_noteWriteFailure) simp
  have none: "s_ProbeCommandID (fst (noteWriteFailure E site base ''auto'' e now ?s u)) = None" for e u
    using assms(3) by (simp add: noteWriteFailure_def Let_def)
  show ?thesis
    using assms fail none
    by (auto simp: awaitCircuitStatus_def Let_def case_prod_beta commit split: sum.split intro!: reset)
qed

lemma inv_advanceFrom:
  assumes "wfParams p" "I s" "s_ProbeCommandID s = None" "\<not> s_SoftStartPending s"
  shows "I (fst (snd (advanceFrom E site base p now target s w)))"
proof (cases "ensureStatusCommand E site base p now target s w")
  case (Inl a)
  obtain s1 w1 where e: "ensureStatusCommand E site base p now target s w = Inl (s1, w1)" using Inl by (cases a) auto
  have "s_ProbeCommandID s1 = s_ProbeCommandID s" "s_SoftStartPending s1 = s_SoftStartPending s"
    using e by (auto simp: ensureStatusCommand_def Let_def split: if_splits prod.splits option.splits)
  moreover have "I s1" using inv_ensureStatusCommand[OF assms(2,3)] e by blast
  ultimately show ?thesis using assms by (simp add: advanceFrom_def e inv_awaitCircuitStatus)
next
  case (Inr a)
  obtain s1 w1 where e: "ensureStatusCommand E site base p now target s w = Inr (s1, w1)" using Inr by (cases a) auto
  then have "I s1" using inv_ensureStatusCommand[OF assms(2,3), of E site base p now target w s1 w1] by blast
  then show ?thesis by (simp add: advanceFrom_def e)
qed

lemma inv_advanceCircuitStatus:
  assumes "wfParams p" "I s" "s_ProbeCommandID s = None" "\<not> s_SoftStartPending s"
  shows "I (fst (snd (advanceCircuitStatus E site base p now s w)))"
  using assms inv_advanceFrom[of p "s\<lparr>s_CircuitStatusTarget := 2\<rparr>"] disable[of s]
  by (auto simp: advanceCircuitStatus_def Let_def putStateCall_def case_prod_beta inv_advanceFrom
      inv_noteWriteFailure split: option.split)

end

section \<open>Both forms satisfy the contract\<close>

lemma reliability_unit:
  assumes "wfParams p"
  shows "0 < reliabilityFactorWithPolicy x p" "reliabilityFactorWithPolicy x p \<le> 1"
  using error_curve.reliability_bounds[OF wfParams_error_curve[OF assms], of x] wfParams_error_factors(1)[OF assms]
  by linarith+

lemma commit_core:
  assumes "wfParams p" "wfCore s" "s_ProbeCommandID s = None" "\<not> s_SoftStartPending s"
  shows "wfCore (commitCircuitStatus p now target s) \<and> okPhase (s_Phase (commitCircuitStatus p now target s))"
  using assms(2-4) wfParams_control(7)[OF assms(1)]
  by (auto simp: wfCore_def okPhase_def commitCircuitStatus_def Let_def clearProbes_def noteWriteSuccess_def)

lemma commit_KError:
  assumes "wfParams p"
  shows "s_KError (commitCircuitStatus p now target s) = s_KError s \<or>
    0 < s_KError (commitCircuitStatus p now target s) \<and> s_KError (commitCircuitStatus p now target s) \<le> 1"
  using reliability_unit[OF assms]
  by (auto simp: commitCircuitStatus_def Let_def clearProbes_def noteWriteSuccess_def)

interpretation wf: state_invariant wfState
proof
  show "wfState (commitCircuitStatus p now target s)"
    if "wfParams p" "wfState s" "s_ProbeCommandID s = None" "\<not> s_SoftStartPending s" for p s now target
    using commit_core[OF that(1) _ that(3,4), of now target] commit_KError[OF that(1), of now target s] that(2)
    by (auto simp: wfState_def)
qed (auto simp: wf_defs sameFields_def clearProbes_def resetFailedCircuitEnable_def)

interpretation stored: state_invariant wfStored
proof
  show "wfStored (commitCircuitStatus p now target s)"
    if "wfParams p" "wfStored s" "s_ProbeCommandID s = None" "\<not> s_SoftStartPending s" for p s now target
    using commit_core[OF that(1) _ that(3,4), of now target] commit_KError[OF that(1), of now target s] that(2)
    by (auto simp: wfStored_def)
qed (auto simp: wfStored_def wfCore_def okPhase_def sameFields_def clearProbes_def resetFailedCircuitEnable_def)

end
