(* ===== verification/EngineInvariant.thy ===== *)
theory EngineInvariant
  imports EngineSafety StateInvariant
begin

text \<open>
  Every stage of the channel job preserves the invariant of the persisted state and persists only states
  that satisfy it.
\<close>

fun wfPut :: "call \<Rightarrow> bool" where
  "wfPut (PutContinuousState s) = wfState s"
| "wfPut _ = True"

interpretation wf_put: call_filter wfPut
proof
  fix c assume "isQuiet c"
  then show "wfPut c" by (cases c) auto
qed

section \<open>Helpers preserve the invariant\<close>

lemmas wf_noteWriteSuccess = wf.inv_noteWriteSuccess
lemmas wf_noteWriteFailure = wf.inv_noteWriteFailure
lemmas wf_resetFailedCircuitEnable = wf.reset
lemmas wf_settleCapacityWrite = wf.inv_settleCapacityWrite
lemmas wf_updateCapacity = wf.inv_updateCapacity
lemmas wf_createTracked = wf.inv_createTracked
lemmas wf_advanceCircuitStatus = wf.inv_advanceCircuitStatus
lemmas wf_clearProbes = wf.clear
lemmas wf_target2 = wf.disable

lemma clearProbes_target [simp]: "s_CircuitStatusTarget (clearProbes s) = s_CircuitStatusTarget s"
  by (simp add: clearProbes_def)

text \<open>A failed tracked write leaves the phase and the probe fields as they were.\<close>

lemma createTracked_error_frame:
  assumes "createTrackedWeightChange E r b now s w = ((cmd, Some e), s', w')"
  shows "s_Phase s' = s_Phase s" "s_ProbeCommandID s' = s_ProbeCommandID s"
    "s_SoftStartPending s' = s_SoftStartPending s" "s_CircuitStatusTarget s' = s_CircuitStatusTarget s"
  using assms
  by (auto simp: createTracked_eq Let_def persistedBeforeWrite_def trackCapacity_def withCap_def
      split: if_splits option.splits prod.splits)

lemma trackedWrite_error_frame:
  assumes "trackedWrite E j r now v1 = (Some e, v2)"
  shows "s_Phase (v_state v2) = s_Phase (v_state v1)" "s_ProbeCommandID (v_state v2) = s_ProbeCommandID (v_state v1)"
    "s_SoftStartPending (v_state v2) = s_SoftStartPending (v_state v1)"
    "s_CircuitStatusTarget (v_state v2) = s_CircuitStatusTarget (v_state v1)"
proof -
  obtain cmd where "createTrackedWeightChange E r (j_base j) now (v_state v1) (v_world v1) =
      ((cmd, Some e), v_state v2, v_world v2)"
    using assms by (fastforce simp: trackedWrite_def split: prod.splits)
  from createTracked_error_frame[OF this]
  show "s_Phase (v_state v2) = s_Phase (v_state v1)" "s_ProbeCommandID (v_state v2) = s_ProbeCommandID (v_state v1)"
    "s_SoftStartPending (v_state v2) = s_SoftStartPending (v_state v1)"
    "s_CircuitStatusTarget (v_state v2) = s_CircuitStatusTarget (v_state v1)"
    by simp_all
qed

lemma createTracked_wf_emits:
  "wfState s \<Longrightarrow> emits wfPut w (snd (snd (createTrackedWeightChange E r b now s w)))"
  by (rule wf_put.createTracked_emits) simp_all

lemma advanceCircuitStatus_wf_emits:
  "wfState s \<Longrightarrow> s_ProbeCommandID s = None \<Longrightarrow> \<not> s_SoftStartPending s \<Longrightarrow>
   emits wfPut w (snd (snd (advanceCircuitStatus E site base p now s w)))"
  by (rule wf_put.advanceCircuitStatus_emits) (simp_all add: wf_target2)

lemma wf_finishFailedWrite:
  assumes "wfState s"
  shows "wfState (fst (finishFailedWrite E base p now s w))"
  using assms
  by (auto simp: finishFailedWrite_def Let_def wf_defs noteWriteSuccess_def clearProbes_def
      resetFailedCircuitEnable_def)

section \<open>Stages preserve the invariant\<close>

text \<open>A run is good when its state satisfies the invariant and everything it persisted did.  Past
  the circuit-status stage no status target is set.\<close>

definition okRun :: "world \<Rightarrow> vars \<Rightarrow> bool" where
  "okRun u v \<longleftrightarrow> wfState (v_state v) \<and> emits wfPut u (v_world v)"

definition settled :: "vars \<Rightarrow> bool" where
  "settled v \<longleftrightarrow> s_CircuitStatusTarget (v_state v) = 0"

fun okFlow :: "world \<Rightarrow> (vars \<Rightarrow> bool) \<Rightarrow> vars flow \<Rightarrow> bool" where
  "okFlow u Q (Done v) \<longleftrightarrow> okRun u v"
| "okFlow u Q (Next v) \<longleftrightarrow> okRun u v \<and> Q v"

lemma okFlow_andThen:
  assumes "okFlow u Q m" and "\<And>v. okRun u v \<Longrightarrow> Q v \<Longrightarrow> okFlow u R (f v)"
  shows "okFlow u R (andThen m f)"
  using assms by (cases m) auto

lemma okFlow_flowVal: "okFlow u Q m \<Longrightarrow> okRun u (flowVal m)"
  by (cases m) auto

lemma okRun_persist: "okRun u v \<Longrightarrow> okRun u (persist E now v)"
  by (simp add: okRun_def emits_emit_right)

lemma okRun_persistState: "okRun u v \<Longrightarrow> okRun u (snd (persistState E v))"
  by (simp add: okRun_def emits_emit_right)

lemma okRun_event: "okRun u v \<Longrightarrow> okRun u (noteEvent r v)"
  by (simp add: okRun_def emits_emit_right)

lemma okRun_counters [simp]: "okRun u (addEvaluated v) = okRun u v" "okRun u (addWrites n v) = okRun u v"
  by (simp_all add: okRun_def)

lemma okRun_upd: "okRun u v \<Longrightarrow> wfState (f (v_state v)) \<Longrightarrow> okRun u (upd f v)"
  by (simp add: okRun_def)

lemma okFlow_finish: "okRun u v \<Longrightarrow> okFlow u Q (finish E now v)"
  by (simp add: finish_def okRun_persist)

lemma okRun_noteFailure: "okRun u v \<Longrightarrow> okRun u (noteFailure E j e now v)"
  unfolding okRun_def noteFailure_simps
  using wf_noteWriteFailure wf_put.noteWriteFailure_emits emits_trans by blast

lemma okRun_trackedWrite: "okRun u v \<Longrightarrow> okRun u (snd (trackedWrite E j r now v))"
  unfolding okRun_def trackedWrite_simps
  using wf_createTracked createTracked_wf_emits emits_trans by blast

lemma okRun_advance:
  assumes "wfParams (jobParams j)" "okRun u v" "s_ProbeCommandID (v_state v) = None" "\<not> s_SoftStartPending (v_state v)"
  shows "okRun u (advance E j now v)"
  using assms wf_advanceCircuitStatus advanceCircuitStatus_wf_emits emits_trans
  unfolding okRun_def advance_simps by blast

lemmas okRun_intros = okRun_persist okRun_persistState okRun_event okRun_upd okRun_noteFailure
  okRun_trackedWrite okFlow_finish

lemma okRun_wf: "okRun u v \<Longrightarrow> wfState (v_state v)"
  by (simp add: okRun_def)

lemma wf_score_fields [simp]:
  "wfState (s\<lparr>s_Multiplier := m\<rparr>) = wfState s" "wfState (s\<lparr>s_ProposedWeight := n\<rparr>) = wfState s"
  "wfState (s\<lparr>s_PausedReason := r\<rparr>) = wfState s" "wfState (s\<lparr>s_Evaluation := e\<rparr>) = wfState s"
  "wfState (s\<lparr>s_LastObservedWeight := lw\<rparr>) = wfState s"
  by (simp_all add: wf_defs)

lemma wf_performance [simp]: "wfState (applyPerformanceFactors s m bl p) = wfState s"
  by (simp add: applyPerformanceFactors_def case_prod_beta wf_defs)

lemma wf_proposeWeight [simp]: "wfState (proposeWeight j n s) = wfState s"
  by (simp add: proposeWeight_def)

subsection \<open>Before circuit ownership\<close>

lemma stageStalePause_ok: "okRun u v \<Longrightarrow> okFlow u (\<lambda>_. True) (stageStalePause E j now v)"
  by (simp add: stageStalePause_def okRun_persist okRun_upd okRun_wf wf_noteWriteSuccess)

lemma wf_measureRates [simp]: "wfState (measureRates j s) = wfState s"
  by (simp add: measureRates_def Let_def wf_defs)

lemma wf_divertCapacity [simp]: "wfState (divertCapacity j s) = wfState s"
  by (simp add: divertCapacity_def Let_def case_prod_beta)

lemma wf_measureEvidence [simp]: "wfState (measureEvidence j s) = wfState s"
  by (simp add: measureEvidence_def Let_def wf_defs)

lemma stageCapacity_ok:
  assumes "okRun u v"
  shows "okFlow u (\<lambda>_. True) (stageCapacity E j now v)"
proof -
  let ?m = "measureRates j (v_state v)"
  let ?r = "settleCapacityWrite E (j_site j) (j_base j) now ?m (v_world v)"
  from assms have wf: "wfState ?m" and tr: "emits wfPut u (v_world v)" by (simp_all add: okRun_def)
  from wf have "wfState (fst ?r)" by (rule wf_settleCapacityWrite)
  moreover have "emits wfPut u (snd ?r)" using tr wf_put.settleCapacityWrite_emits emits_trans by blast
  ultimately show ?thesis
    using wf tr by (simp add: stageCapacity_def Let_def case_prod_beta okRun_def wf_updateCapacity)
qed

lemma stageExclusions_ok:
  assumes "okRun u v"
  shows "okFlow u (\<lambda>_. True) (stageExclusions E j now (upd (measureEvidence j) v))"
proof -
  have zero: "wfState s \<Longrightarrow> wfState (clearProbes (s\<lparr>s_Phase := ''normal'', s_Multiplier := 1, s_ProposedWeight := 0,
      s_CircuitOpenedAt := None, s_NextProbeAt := None, s_ProbeCommandID := None,
      s_OriginalPriority := None, s_SoftStartPending := False\<rparr>))" for s
    by (simp add: wf_defs clearProbes_def)
  show ?thesis
    using okRun_wf[OF assms] assms
    by (auto simp: stageExclusions_def Let_def zero wf_noteWriteSuccess intro!: okRun_intros)
qed

lemma stageExhausted_ok:
  assumes "okRun u v"
  shows "okFlow u (\<lambda>_. True) (stageExhausted E j now v)"
proof -
  let ?r = "finishFailedWrite E (j_base j) (jobParams j) now (v_state v) (v_world v)"
  have "wfState (fst ?r)" using okRun_wf[OF assms] by (rule wf_finishFailedWrite)
  moreover have "emits wfPut u (snd ?r)"
    using assms wf_put.finishFailedWrite_emits emits_trans unfolding okRun_def by blast
  ultimately show ?thesis
    using assms by (auto simp: stageExhausted_def Let_def case_prod_beta okRun_def intro!: okFlow_finish)
qed

lemma wfState_target:
  "wfState s \<Longrightarrow> s_CircuitStatusTarget s \<noteq> 0 \<Longrightarrow> s_ProbeCommandID s = None \<and> \<not> s_SoftStartPending s"
  by (simp add: wfState_def wfCore_def)

lemma stageCircuitStatus_ok:
  assumes "wfParams (jobParams j)" "okRun u v"
  shows "okFlow u settled (stageCircuitStatus E j now v)"
  using assms wfState_target[OF okRun_wf[OF assms(2)]] okRun_wf[OF assms(2)]
  by (auto simp: stageCircuitStatus_def Let_def settled_def
      intro!: okRun_intros okRun_advance wf_resetFailedCircuitEnable)

subsection \<open>Decay and probe rounds\<close>

lemma wf_rateOk: "wfState s \<Longrightarrow> rateOk s"
  by (simp add: wf_defs rateOk_def)

lemma wf_decayed:
  "wfState s \<Longrightarrow> rateOk (s\<lparr>s_SmoothedErrorRate := r, s_KError := k, s_LastBucketAt := c\<rparr>) \<Longrightarrow>
   wfState (s\<lparr>s_SmoothedErrorRate := r, s_KError := k, s_LastBucketAt := c\<rparr>)"
  by (simp add: wf_defs rateOk_def)

lemma stageDecay_ok:
  assumes "wfParams (jobParams j)" "goodEvidence E (j_recentBuckets j)" "okRun u v" "settled v"
  shows "okFlow u settled (stageDecay E j now v)"
proof -
  let ?f = "foldErrorDecayWithBuckets E (j_site j) (jobChannel j) now (j_recentBuckets j) (jobParams j)
              (v_state v) (v_world v)"
  obtain n e s' w' where f: "?f = ((n, e), s', w')" by (metis prod.exhaust)
  note ok = foldErrorDecay_ok[OF assms(1) wf_rateOk[OF okRun_wf[OF assms(3)]] assms(2) f]
  from foldErrorDecay_frame[OF f] obtain r k c where
    s': "s' = (v_state v)\<lparr>s_SmoothedErrorRate := r, s_KError := k, s_LastBucketAt := c\<rparr>" by blast
  have wf: "wfState s'" using wf_decayed okRun_wf[OF assms(3)] ok(1) s' by blast
  have add: "wfState (s'\<lparr>s_ProbeAttempts := s_ProbeAttempts s' + n,
      s_ProbeSuccesses := s_ProbeSuccesses s' + max (n - e) 0\<rparr>)" if "n > 0"
    using wf ok(2) that by (auto simp: wf_defs)
  have "emits wfPut u w'"
    using wf_put.foldErrorDecay_emits[of "v_world v" E "j_site j" "jobChannel j" now "j_recentBuckets j" "jobParams j" "v_state v"]
      f assms(3) emits_trans unfolding okRun_def by fastforce
  moreover have "s_CircuitStatusTarget s' = 0" using assms(4) by (simp add: s' settled_def)
  ultimately show ?thesis
    using wf add by (simp add: stageDecay_def Let_def f okRun_def settled_def)
qed

lemma ownAndAdvance_ok:
  assumes "wfParams (jobParams j)" "okRun u v" "s_ProbeCommandID (v_state v) = None" "\<not> s_SoftStartPending (v_state v)"
  shows "okFlow u Q (ownAndAdvance E j now v)"
  using okRun_persistState[OF assms(2), of E] okRun_advance[OF assms(1), of u "snd (persistState E v)"] assms(3,4)
  by (simp add: ownAndAdvance_def case_prod_beta okFlow_finish)

lemma probeRoundComplete_frame:
  assumes "probeRoundComplete E j v = (c, v1)"
  shows "v_state v1 = v_state v" "okRun u v \<Longrightarrow> okRun u v1"
  using assms by (auto simp: probeRoundComplete_def Let_def okRun_def emits_emit_right split: if_splits sum.splits)

lemma wf_softStart:
  assumes "wfParams p" "wfState s" "s_ProbeCommandID s = None" "s_CircuitStatusTarget s = 0"
  shows "wfState (let rate = min (s_SmoothedErrorRate s) (p_RecoveryErrorRate p)
    in s\<lparr>s_SmoothedErrorRate := rate, s_KError := reliabilityFactorWithPolicy rate p,
         s_Phase := ''soft_start'', s_SoftStartPending := True,
         s_Multiplier := m, s_ProposedWeight := n\<rparr>)"
  using assms(2-4) wfParams_error_factors(1)[OF assms(1)] wfParams_control(7)[OF assms(1)]
    error_curve.reliability_bounds[OF wfParams_error_curve[OF assms(1)], of "min (s_SmoothedErrorRate s) (p_RecoveryErrorRate p)"]
  by (auto simp: wf_defs Let_def)

lemma recoverChannel_ok:
  assumes "wfParams (jobParams j)" "okRun u v" "settled v" "s_ProbeCommandID (v_state v) = None"
  shows "okFlow u settled (recoverChannel E j now v)"
proof -
  let ?p = "jobParams j"
  define v1 where "v1 = upd (\<lambda>s. let rate = min (s_SmoothedErrorRate s) (p_RecoveryErrorRate ?p)
                        in s\<lparr>s_SmoothedErrorRate := rate, s_KError := reliabilityFactorWithPolicy rate ?p,
                             s_Phase := ''soft_start'', s_SoftStartPending := True,
                             s_Multiplier := p_SoftStartMultiplier ?p,
                             s_ProposedWeight := recoveryWeight j (p_SoftStartMultiplier ?p)\<rparr>) v"
  define r where "r = eventOf E j ''circuit_recovered'' now v1"
  have v1: "okRun u v1" "s_CircuitStatusTarget (v_state v1) = 0" "s_ProbeCommandID (v_state v1) = None"
    using assms wf_softStart[OF assms(1) okRun_wf[OF assms(2)] assms(4)]
    by (simp_all add: v1_def settled_def okRun_upd Let_def)
  have eq: "recoverChannel E j now v =
      (if j_mode j = ''auto'' then
         (case trackedWrite E j r now v1 of
            (None, v2) \<Rightarrow> finish E now (upd clearProbes (addWrites 1 v2))
          | (Some e, v2) \<Rightarrow>
              Next (upd clearProbes (noteFailure E j e now
                (upd (\<lambda>s. s\<lparr>s_Phase := ''circuit'', s_SoftStartPending := False,
                            s_NextProbeAt := Some (silentUntil ?p now)\<rparr>) v2))))
       else finish E now (upd clearProbes (noteEvent r v1)))"
    by (simp add: recoverChannel_def Let_def v1_def r_def)
  show ?thesis
  proof (cases "trackedWrite E j r now v1")
    case (Pair o2 v2)
    then have t: "okRun u v2" using okRun_trackedWrite[OF v1(1), of E j r now] by simp
    have clear: "okRun u x \<Longrightarrow> okRun u (upd clearProbes x)" for x
      by (simp add: okRun_def wf_clearProbes)
    show ?thesis
    proof (cases o2)
      case None
      then show ?thesis
        using t v1(1) Pair by (auto simp: eq clear intro!: okRun_intros clear)
    next
      case (Some e)
      note fr = trackedWrite_error_frame[OF Pair[unfolded Some]]
      let ?v = "upd (\<lambda>s. s\<lparr>s_Phase := ''circuit'', s_SoftStartPending := False,
                            s_NextProbeAt := Some (silentUntil ?p now)\<rparr>) v2"
      have "wfState (v_state ?v)" using okRun_wf[OF t] fr v1 by (simp add: wf_defs)
      then have "okRun u ?v" using t by (simp add: okRun_def)
      then have "okRun u (upd clearProbes (noteFailure E j e now ?v))" by (intro clear okRun_noteFailure)
      moreover have "settled (upd clearProbes (noteFailure E j e now ?v))"
        using fr v1(2) by (simp add: settled_def noteFailure_simps noteWriteFailure_def Let_def clearProbes_def)
      ultimately show ?thesis
        using v1(1) Pair Some by (auto simp: eq intro!: okRun_intros clear)
    qed
  qed
qed

lemma wfState_probing:
  "wfState s \<Longrightarrow> s_Phase s = ''probing'' \<Longrightarrow> \<not> s_SoftStartPending s"
  by (auto simp: wfState_def wfCore_def)

lemma stageProbeRound_ok:
  assumes "wfParams (jobParams j)" "okRun u v" "settled v"
  shows "okFlow u settled (stageProbeRound E j now v)"
proof (cases "s_Phase (v_state v) = ''probing'' \<and> s_ProbeCommandID (v_state v) = None")
  case False
  then show ?thesis using assms by (auto simp: stageProbeRound_def)
next
  case True
  obtain c v1 where c: "probeRoundComplete E j v = (c, v1)" by (metis prod.exhaust)
  note fr = probeRoundComplete_frame[OF c]
  have v1: "okRun u v1" using fr(2) assms(2) .
  have st: "settled v1" "s_ProbeCommandID (v_state v1) = None" "s_Phase (v_state v1) = ''probing''"
    "\<not> s_SoftStartPending (v_state v1)"
    using fr(1) assms(3) True wfState_probing okRun_wf[OF assms(2)] by (simp_all add: settled_def)
  have own2: "okFlow u settled (ownAndAdvance E j now (upd (\<lambda>s. s\<lparr>s_CircuitDisabled := True, s_CircuitStatusTarget := 2,
                                                s_ProposedWeight := 0\<rparr>) v1))"
    using okRun_wf[OF v1] st v1 by (intro ownAndAdvance_ok assms okRun_upd) (simp_all add: wf_defs)
  have own1: "okFlow u settled (ownAndAdvance E j now (upd (\<lambda>s. s\<lparr>s_CircuitStatusTarget := 1, s_ProposedWeight := n\<rparr>) v1))" for n
    using okRun_wf[OF v1] st v1 by (intro ownAndAdvance_ok assms okRun_upd) (simp_all add: wf_defs)
  have fail: "okRun u (upd (\<lambda>s. s\<lparr>s_Phase := ''circuit'', s_NextProbeAt := Some t\<rparr>) v1)" for t
    using okRun_wf[OF v1] st v1 by (intro okRun_upd) (simp_all add: wf_defs)
  have rec: "okFlow u settled (recoverChannel E j now v1)"
    using recoverChannel_ok assms(1) v1 st by blast
  have fin: "okFlow u settled (finish E now v1)" using v1 by (rule okFlow_finish)
  have next_ok: "okFlow u settled (Next (upd clearProbes (noteEvent r (upd (\<lambda>s. s\<lparr>s_Phase := ''circuit'', s_NextProbeAt := Some t\<rparr>) v1))))" for r t
    using fail[of t] st(1) by (simp add: okRun_def wf_clearProbes emits_emit_right settled_def)
  show ?thesis
    using True own1 own2 rec fin next_ok v1
    by (cases c) (simp_all add: stageProbeRound_def c Let_def)
qed


subsection \<open>Waiting phases and normal operation\<close>

lemma wf_probesZero [simp]:
  "wfState s \<Longrightarrow> wfState (s\<lparr>s_ProbeAttempts := 0, s_ProbeSuccesses := 0\<rparr>)"
  by (simp add: wf_defs)

lemma stagePassiveRecovery_ok:
  assumes p: "wfParams (jobParams j)" and v: "okRun u v" "settled v"
  shows "okFlow u settled (stagePassiveRecovery E j now v)"
proof (cases "s_Phase (v_state v) = ''circuit'' \<and> j_mode j = ''observe'' \<and> s_ProbeAttempts (v_state v) \<ge> p_ProbeCount (jobParams j)")
  case False
  then show ?thesis using v by (auto simp: stagePassiveRecovery_def Let_def)
next
  case True
  let ?s = "v_state v"
  let ?rate = "of_int (s_ProbeAttempts ?s - s_ProbeSuccesses ?s) / of_int (s_ProbeAttempts ?s) :: real"
  have wf: "wfState ?s" using v(1) by (rule okRun_wf)
  have pos: "0 < s_ProbeAttempts ?s" using True wfParams_control(10)[OF p] by linarith
  have rate: "0 \<le> ?rate" "?rate \<le> 1"
    using wf pos by (auto simp: wf_defs)
  have k: "0 < reliabilityFactorWithPolicy x (jobParams j) \<and> reliabilityFactorWithPolicy x (jobParams j) \<le> 1" for x
    using error_curve.reliability_bounds[OF wfParams_error_curve[OF p], of x] wfParams_error_factors(1)[OF p] by linarith
  define s1 where "s1 = ?s\<lparr>s_SmoothedErrorRate := ?rate, s_KError := reliabilityFactorWithPolicy ?rate (jobParams j)\<rparr>"
  have wf1: "wfState s1" "s_Phase s1 = ''circuit''" "s_CircuitStatusTarget s1 = 0"
    using wf rate k[of ?rate] True v(2) by (simp_all add: s1_def wf_defs settled_def)
  have wf2: "wfState (t\<lparr>s_Phase := ''normal'', s_Multiplier := a, s_ProposedWeight := b,
      s_CircuitOpenedAt := None, s_NextProbeAt := None, s_OriginalPriority := None,
      s_SoftStartPending := False, s_ProbeAttempts := 0, s_ProbeSuccesses := 0\<rparr>)"
    if "wfState t" "s_Phase t = ''circuit''" for t a b
    using that by (simp add: wf_defs)
  have phase: "s_Phase (applyPerformanceFactors t m bl p) = s_Phase t" for t m bl p
    by (simp add: applyPerformanceFactors_def case_prod_beta)
  show ?thesis
    using True v wf1 wf
    by (auto simp: stagePassiveRecovery_def Let_def s1_def[symmetric] settled_def okRun_def phase
        simp del: of_int_diff intro!: okFlow_finish okRun_event wf2 emits_emit_right)
qed

lemma stageCircuitWait_ok:
  assumes "okRun u v" "settled v"
  shows "okFlow u settled (stageCircuitWait E j now v)"
proof (cases "s_Phase (v_state v) = ''circuit''")
  case False
  then show ?thesis using assms by (simp add: stageCircuitWait_def)
next
  case True
  note wf = okRun_wf[OF assms(1)]
  have "wfState ((clearProbes (v_state v))\<lparr>s_Phase := ''probing'', s_ProbeCommandID := Some cmd\<rparr>)" for cmd
    using wf True assms(2) by (auto simp: wf_defs clearProbes_def settled_def)
  then show ?thesis
    using assms True wf_clearProbes[OF wf]
    by (auto simp: stageCircuitWait_def Let_def okRun_def emits_emit_right split: sum.split option.split
        intro!: okFlow_finish)
qed

lemma stageProbingWait_ok:
  assumes "okRun u v" "settled v"
  shows "okFlow u settled (stageProbingWait E j now v)"
proof -
  have "wfState s \<Longrightarrow> s_Phase s = ''probing'' \<Longrightarrow>
      wfState (s\<lparr>s_Phase := ''circuit'', s_ProbeCommandID := None, s_NextProbeAt := Some t\<rparr>)" for s t
    by (auto simp: wf_defs)
  then show ?thesis
    using assms okRun_wf[OF assms(1)]
    by (auto simp: stageProbingWait_def split: option.split intro!: okFlow_finish okRun_upd)
qed

lemma stageSoftStart_ok:
  assumes "okRun u v" "settled v"
  shows "okFlow u settled (stageSoftStart E j now v)"
  using assms okRun_wf[OF assms(1)]
  by (auto simp: stageSoftStart_def okRun_def settled_def wf_defs intro!: okFlow_finish)

lemma score_frame:
  "wfState (boundWeight j s) = wfState s" "wfState (scoreChannel j s) = wfState s"
  "s_CircuitStatusTarget (boundWeight j s) = s_CircuitStatusTarget s"
  "s_CircuitStatusTarget (scoreChannel j s) = s_CircuitStatusTarget s"
  by (simp_all add: boundWeight_def scoreChannel_def Let_def)
    (simp_all add: proposeWeight_def applyPerformanceFactors_def case_prod_beta)

lemma stageScore_ok: "okRun u v \<Longrightarrow> settled v \<Longrightarrow> okFlow u settled (stageScore E j now v)"
  by (simp add: stageScore_def okRun_def settled_def score_frame)

lemma stageOpenCircuit_ok:
  assumes "okRun u v" "settled v"
  shows "okFlow u settled (stageOpenCircuit E j now v)"
proof (cases "circuitDue j now (v_state v)")
  case False
  then show ?thesis using assms by (simp add: stageOpenCircuit_def)
next
  case True
  define v1 where "v1 = upd (openCircuit j now) v"
  define r where "r = eventOf E j ''circuit_opened'' now v1"
  have v1: "okRun u v1" "s_CircuitStatusTarget (v_state v1) = 0" "s_ProbeCommandID (v_state v1) = None"
    "\<not> s_SoftStartPending (v_state v1)"
    using True assms(2) okRun_wf[OF assms(1)] assms(1)
    by (auto simp: v1_def circuitDue_def openCircuit_def clearProbes_def wf_defs okRun_def settled_def)
  obtain o2 v2 where t: "trackedWrite E j r now v1 = (o2, v2)" by (metis prod.exhaust)
  have v2: "okRun u v2" using okRun_trackedWrite[OF v1(1), of E j r now] t by simp
  have revert: "okRun u (upd (\<lambda>s0. let s = s0\<lparr>s_Phase := ''normal''\<rparr>; k = combinedFactor s p
                                  in s\<lparr>s_Multiplier := k, s_ProposedWeight := recoveryWeight j k,
                                       s_CircuitOpenedAt := None, s_NextProbeAt := None,
                                       s_OriginalPriority := None\<rparr>) v2)" if "o2 = Some e" for e p
    using okRun_wf[OF v2] trackedWrite_error_frame[OF t[unfolded that]] v1 v2
    by (intro okRun_upd) (auto simp: wf_defs Let_def)
  show ?thesis
    using True v1(1) v2 revert t
    by (auto simp: stageOpenCircuit_def Let_def v1_def[symmetric] r_def[symmetric] split: option.split
        intro!: okFlow_finish okRun_event okRun_noteFailure)
qed

lemma stageSparse_ok: "okRun u v \<Longrightarrow> settled v \<Longrightarrow> okFlow u settled (stageSparse E j now v)"
  by (auto simp: stageSparse_def Let_def okRun_def settled_def proposeWeight_def intro!: okFlow_finish)

lemma wf_capacityStep: "wfState s \<Longrightarrow> wfState (snd (capacityStep j s))"
  by (auto simp: capacityStep_def case_prod_beta applyCapacityTarget_def Let_def)

lemma stageWrite_ok:
  assumes "okRun u v"
  shows "okFlow u Q (stageWrite E j now v)"
proof -
  obtain red s1 where c: "capacityStep j (v_state v) = (red, s1)" by (metis prod.exhaust)
  have wf1: "wfState s1" using wf_capacityStep[OF okRun_wf[OF assms], of j] c by simp
  define v2 where "v2 = (if observeDue j red s1
      then upd (\<lambda>s. s\<lparr>s_LastObservedWeight := Some (s_ProposedWeight s)\<rparr>)
             (noteEvent (eventOf E j ''weight_observed'' now (v\<lparr>v_state := s1\<rparr>)) (v\<lparr>v_state := s1\<rparr>))
      else v\<lparr>v_state := s1\<rparr>)"
  define v3 where "v3 = (if j_mode j = ''auto'' \<and>
      (s_PausedReason (v_state v2) = ''write_failed'' \<and> writeAttemptAllowed (v_state v2) now) \<and> \<not> needsWrite j (v_state v2)
      then upd noteWriteSuccess v2 else v2)"
  have "okRun u v2" using assms wf1 by (simp add: v2_def okRun_def emits_emit_right)
  then have v3: "okRun u v3" by (simp add: v3_def okRun_def wf_noteWriteSuccess)
  define r where "r = eventOf E j (if red then ''capacity_reduce'' else ''weight_write'') now v3"
  obtain o4 v4 where t: "trackedWrite E j r now v3 = (o4, v4)" by (metis prod.exhaust)
  have v4: "okRun u v4" using okRun_trackedWrite[OF v3, of E j r now] t by simp
  have "okFlow u Q (finish E now (case o4 of None \<Rightarrow> addWrites 1 v4
        | Some e \<Rightarrow> upd (\<lambda>s. if cap_Initialized (s_Capacity s) \<and> \<not> errorsIs e ErrDecisionSuperseded
                                 then withCap (\<lambda>c. c\<lparr>cap_Phase := ''write_failed''\<rparr>) s else s)
                          (noteFailure E j e now v4)))"
    using v4 okRun_wf[OF okRun_noteFailure[OF v4]]
    by (auto intro!: okFlow_finish okRun_upd okRun_noteFailure split: option.split)
  then show ?thesis
    using v3 t unfolding stageWrite_def c Let_def prod.case v2_def[symmetric] v3_def[symmetric] r_def[symmetric]
    by (auto intro!: okFlow_finish simp: t split: option.splits)
qed

section \<open>The job preserves the invariant\<close>

lemma evaluateStages_ok:
  assumes "wfParams (jobParams j)" "goodEvidence E (j_recentBuckets j)" "okRun u v"
  shows "okFlow u (\<lambda>_. True) (evaluateStages E j now v)"
  unfolding evaluateStages_def
  by (intro okFlow_andThen[where Q = settled] okFlow_andThen[where Q = "\<lambda>_. True"])
    (rule stageStalePause_ok stageCapacity_ok stageExclusions_ok stageExhausted_ok stageCircuitStatus_ok
      stageDecay_ok stageProbeRound_ok stagePassiveRecovery_ok stageCircuitWait_ok stageProbingWait_ok
      stageSoftStart_ok stageScore_ok stageOpenCircuit_ok stageSparse_ok stageWrite_ok assms | assumption)+

lemma prepareState_fields [simp]:
  "s_Phase (prepareState j now ex s) = (if s_Phase s = [] then ''normal'' else s_Phase s)"
  "s_KError (prepareState j now ex s) = (if \<not> ex \<or> s_KError s \<le> 0 then 1 else s_KError s)"
  "s_SmoothedErrorRate (prepareState j now ex s) = s_SmoothedErrorRate s"
  "s_ProbeSuccesses (prepareState j now ex s) = s_ProbeSuccesses s"
  "s_ProbeAttempts (prepareState j now ex s) = s_ProbeAttempts s"
  "s_WriteFailureStreak (prepareState j now ex s) = s_WriteFailureStreak s"
  "s_SoftStartPending (prepareState j now ex s) = s_SoftStartPending s"
  "s_ProbeCommandID (prepareState j now ex s) = s_ProbeCommandID s"
  "s_CircuitStatusTarget (prepareState j now ex s) = s_CircuitStatusTarget s"
  "s_NextProbeAt (prepareState j now ex s) = s_NextProbeAt s"
  by (simp_all add: prepareState_def Let_def)

lemma wf_prepareState:
  assumes "wfStored s"
  shows "wfState (prepareState j now ex s)"
  using assms unfolding wfState_def wfCore_def wfStored_def okPhase_def prepareState_fields
  by auto

lemma stateAt_cases: "stateAt m ch = zeroContinuousState \<or> m ch = Some (stateAt m ch)"
  by (cases "m ch") (simp_all add: stateAt_def)

lemma evaluateBody_ok:
  assumes "wfParams (jobParams j)" "goodEvidence E (j_recentBuckets j)"
    and "\<forall>s. j_stateByID j (jobChannel j) = Some s \<longrightarrow> wfStored s"
  shows "emits wfPut w (v_world (evaluateBody E j now w))"
proof -
  let ?prev = "stateAt (j_stateByID j) (jobChannel j)"
  have stored: "wfStored ?prev" using stateAt_cases[of "j_stateByID j" "jobChannel j"] assms(3) wfStored_zero by auto
  have "okRun w (flowVal (evaluateStages E j now (upd (prepareState j now ex) \<lparr>v_state = ?prev, v_world = w, v_changed = False\<rparr>)))" for ex
    by (rule okFlow_flowVal[OF evaluateStages_ok[OF assms(1,2)]]) (simp add: okRun_def wf_prepareState[OF stored])
  then show ?thesis
    by (simp add: evaluateBody_def Let_def okRun_def)
qed

lemma evaluateChannel_wf_adds:
  assumes "wfParams (jobParams j)" "goodEvidence E (j_recentBuckets j)"
    and "\<forall>s. j_stateByID j (jobChannel j) = Some s \<longrightarrow> wfStored s"
  shows "adds wfPut w (evaluateChannel E j w)"
  by (rule evaluateChannel_adds) (simp_all add: evaluateBody_ok[OF assms])

end
