(* ===== verification/EngineControl.thy ===== *)
theory EngineControl
  imports EngineInvariant
begin

text \<open>
  How often and when a channel job reaches the control interface: at most one command per
  evaluation, none once the writes are exhausted, and an ordinary channel opens its circuit only on
  the evidence the policy asks for.
\<close>

section \<open>One command per evaluation\<close>

definition controlCount :: "world \<Rightarrow> nat" where
  "controlCount w = length (controls w)"

lemma controlCount_emit [simp]: "controlCount (emit c w) = (if isControl c then Suc (controlCount w) else controlCount w)"
  by (simp add: controlCount_def controls_emit)

lemma emits_controlCount: "emits (\<lambda>c. \<not> isControl c) u w \<Longrightarrow> controlCount w = controlCount u"
  by (simp add: controlCount_def emits_no_control)

lemma controlCount_counters [simp]:
  "controlCount (v_world (addEvaluated v)) = controlCount (v_world v)"
  "controlCount (v_world (addWrites n v)) = controlCount (v_world v)"
  by (simp_all add: controlCount_def controls_def)

lemma controlCount_persist [simp]: "controlCount (v_world (persist E now v)) = controlCount (v_world v)"
  by simp

lemma controlCount_noteFailure [simp]: "controlCount (v_world (noteFailure E j e now v)) = controlCount (v_world v)"
  unfolding noteFailure_simps by (rule emits_controlCount[OF no_control.noteWriteFailure_emits])

lemma controlCount_createTracked:
  "controlCount (snd (snd (createTrackedWeightChange E r b now s w))) \<le> Suc (controlCount w)"
  using emits_controlCount[OF no_control.afterCommand_emits]
  by (simp add: createTracked_eq Let_def split: option.split prod.split)

lemma controlCount_trackedWrite:
  "trackedWrite E j r now v = (o2, v2) \<Longrightarrow> controlCount (v_world v2) \<le> Suc (controlCount (v_world v))"
  using controlCount_createTracked[of E r "j_base j" now "v_state v" "v_world v"]
  by (auto simp: trackedWrite_def split: prod.splits)

lemma controlCount_ensure:
  assumes "ensureStatusCommand E site base p now target s w = Inl (s1, w1) \<or>
    ensureStatusCommand E site base p now target s w = Inr (s1, w1)"
  shows "controlCount w1 \<le> Suc (controlCount w)"
proof -
  have "controlCount (snd (noteWriteFailure E site base ''auto'' e now s u)) = controlCount u" for e u
    by (rule emits_controlCount[OF no_control.noteWriteFailure_emits])
  then have "noteWriteFailure E site base ''auto'' e now s u = (s', u') \<Longrightarrow> controlCount u' = controlCount u" for e u s' u'
    by (metis snd_conv)
  then show ?thesis
    using assms by (auto simp: ensureStatusCommand_def Let_def split: if_splits prod.splits option.splits)
qed

lemma controlCount_advanceFrom:
  "controlCount (snd (snd (advanceFrom E site base p now target s w))) \<le> Suc (controlCount w)"
proof -
  have "controlCount (snd (snd (awaitCircuitStatus E site base p now target s1 u))) = controlCount u" for s1 u
    by (rule emits_controlCount[OF no_control.awaitCircuitStatus_emits])
  then show ?thesis
    using controlCount_ensure[of E site base p now target s w]
    by (auto simp: advanceFrom_def split: sum.split prod.split)
qed

lemma controlCount_advance: "controlCount (v_world (advance E j now v)) \<le> Suc (controlCount (v_world v))"
proof -
  have f: "controlCount (snd (noteWriteFailure E site base m e now s u)) = controlCount u" for site base m e s u
    by (rule emits_controlCount[OF no_control.noteWriteFailure_emits])
  have "controlCount (snd (snd (advanceCircuitStatus E site base p now s w))) \<le> Suc (controlCount w)" for site base p s w
    using controlCount_advanceFrom[of E site base p now 2 "s\<lparr>s_CircuitStatusTarget := 2\<rparr>" "emit (PutContinuousState (s\<lparr>s_CircuitStatusTarget := 2\<rparr>)) w"]
      controlCount_advanceFrom[of E site base p now "s_CircuitStatusTarget s" s w]
    by (auto simp: advanceCircuitStatus_def Let_def putStateCall_def case_prod_beta f split: option.split)
  then show ?thesis by (simp add: advance_def case_prod_beta)
qed

text \<open>A run has either sent nothing, or is waiting in an open circuit for a probe that is not due.\<close>

definition waiting :: "job \<Rightarrow> time \<Rightarrow> vars \<Rightarrow> bool" where
  "waiting j now v \<longleftrightarrow> j_mode j = ''auto'' \<and> s_Phase (v_state v) = ''circuit'' \<and>
     (case s_NextProbeAt (v_state v) of Some t \<Rightarrow> now < t | None \<Rightarrow> False)"

fun oneControl :: "nat \<Rightarrow> job \<Rightarrow> time \<Rightarrow> vars flow \<Rightarrow> bool" where
  "oneControl n j now (Done v) \<longleftrightarrow> controlCount (v_world v) \<le> Suc n"
| "oneControl n j now (Next v) \<longleftrightarrow> controlCount (v_world v) = n \<or>
     controlCount (v_world v) \<le> Suc n \<and> waiting j now v"

lemma oneControl_finish [simp]: "oneControl n j now (finish E now v) \<longleftrightarrow> controlCount (v_world v) \<le> Suc n"
  by (simp add: finish_def)

lemma oneControl_quiet:
  assumes "emits (\<lambda>c. \<not> isControl c) u (v_world (flowVal m))" "controlCount u = n"
  shows "oneControl n j now m"
  using emits_controlCount[OF assms(1)] assms(2) by (cases m) simp_all

lemma oneControl_andThen:
  assumes "oneControl n j now m"
    and "\<And>v. controlCount (v_world v) = n \<Longrightarrow> oneControl n j now (f v)"
    and "\<And>v. controlCount (v_world v) \<le> Suc n \<Longrightarrow> waiting j now v \<Longrightarrow> oneControl n j now (f v)"
  shows "oneControl n j now (andThen m f)"
  using assms by (cases m) auto

text \<open>A stage that cannot talk to the control interface, on a run that has sent nothing.\<close>

lemmas quiet_stage = no_control_puts.stage_emits[THEN oneControl_quiet]

lemma silentUntil_future: "wfParams p \<Longrightarrow> now < silentUntil p now"
  using wfParams_control(9)[of p] by (simp add: silentUntil_def)

lemma stageCircuitStatus_one:
  "controlCount (v_world v) = n \<Longrightarrow> oneControl n j now (stageCircuitStatus E j now v)"
  using controlCount_advance[of E j now v] by (auto simp: stageCircuitStatus_def Let_def)

lemma ownAndAdvance_one: "controlCount (v_world v) = n \<Longrightarrow> oneControl n j now (ownAndAdvance E j now v)"
  using controlCount_advance[of E j now "snd (persistState E v)"]
  by (simp add: ownAndAdvance_def case_prod_beta)

lemma recoverChannel_one:
  assumes "wfParams (jobParams j)" "controlCount (v_world v) = n"
  shows "oneControl n j now (recoverChannel E j now v)"
proof -
  have w: "waiting j now (upd clearProbes (noteFailure E j e now
      (upd (\<lambda>s. s\<lparr>s_Phase := ''circuit'', s_SoftStartPending := False,
                  s_NextProbeAt := Some (silentUntil (jobParams j) now)\<rparr>) v2)))" if "j_mode j = ''auto''" for e v2
    using that silentUntil_future[OF assms(1), of now]
    by (simp add: waiting_def noteFailure_simps noteWriteFailure_def Let_def clearProbes_def)
  note c = controlCount_trackedWrite[of E j _ now "upd f v" for f]
  show ?thesis
    using assms(2) w
    by (auto simp: recoverChannel_def Let_def split: option.splits prod.splits dest!: c)
qed

lemma stageProbeRound_one:
  assumes "wfParams (jobParams j)" "controlCount (v_world v) = n"
  shows "oneControl n j now (stageProbeRound E j now v)"
proof -
  have "controlCount (v_world (snd (probeRoundComplete E j v))) = n"
    using assms(2) by (simp add: probeRoundComplete_def Let_def split: sum.split)
  then obtain c v1 where c: "probeRoundComplete E j v = (c, v1)" "controlCount (v_world v1) = n"
    by (metis prod.exhaust snd_conv)
  have own: "oneControl n j now (ownAndAdvance E j now (upd f v1))" for f
    using c(2) by (intro ownAndAdvance_one) simp
  have rec: "oneControl n j now (recoverChannel E j now v1)"
    using c(2) by (intro recoverChannel_one assms)
  show ?thesis
    using c assms(2) own rec by (auto simp: stageProbeRound_def Let_def split: option.split)
qed

lemma stageCircuitWait_one:
  "controlCount (v_world v) = n \<Longrightarrow> oneControl n j now (stageCircuitWait E j now v)"
  by (auto simp: stageCircuitWait_def Let_def split: sum.split option.split)

lemma stageCircuitWait_waiting:
  "controlCount (v_world v) \<le> Suc n \<Longrightarrow> waiting j now v \<Longrightarrow> oneControl n j now (stageCircuitWait E j now v)"
  by (auto simp: stageCircuitWait_def waiting_def split: option.splits)

lemma stageOpenCircuit_one:
  "controlCount (v_world v) = n \<Longrightarrow> oneControl n j now (stageOpenCircuit E j now v)"
  using controlCount_trackedWrite[of E j _ now "upd (openCircuit j now) v"]
  by (auto simp: stageOpenCircuit_def Let_def split: option.split prod.split)

lemma afterObserve_count [simp]: "controlCount (v_world (afterObserve E j now v)) = controlCount (v_world v)"
  by (simp add: afterObserve_def case_prod_beta Let_def)

lemma afterWrite_count: "controlCount (v_world (afterWrite E j now r)) = controlCount (v_world (snd r))"
  by (simp add: afterWrite_def split: prod.split option.split)

lemma stageWrite_one:
  assumes "controlCount (v_world v) = n"
  shows "oneControl n j now (stageWrite E j now v)"
proof -
  let ?v = "afterObserve E j now v"
  have "controlCount (v_world (snd (trackedWrite E j r now ?v))) \<le> Suc n" for r
    using controlCount_trackedWrite[of E j r now ?v] assms by (metis afterObserve_count prod.collapse)
  then show ?thesis
    using stageWrite_cases[OF refl, of E j now v] assms by (auto simp: afterWrite_count)
qed

lemma stagePassiveRecovery_waiting:
  "waiting j now v \<Longrightarrow> stagePassiveRecovery E j now v = Next v"
  by (simp add: stagePassiveRecovery_def Let_def waiting_def)

text \<open>Past the waiting phases no run has sent anything.\<close>

lemma stageCircuitWait_phase:
  "stageCircuitWait E j now v = Next v' \<Longrightarrow> v' = v \<and> s_Phase (v_state v) \<noteq> ''circuit''"
  by (auto simp: stageCircuitWait_def finish_def Let_def split: if_splits)

fun noControl :: "nat \<Rightarrow> vars flow \<Rightarrow> bool" where
  "noControl n (Done v) \<longleftrightarrow> controlCount (v_world v) \<le> Suc n"
| "noControl n (Next v) \<longleftrightarrow> controlCount (v_world v) = n"

lemma noControl_andThen:
  "noControl n m \<Longrightarrow> (\<And>v. controlCount (v_world v) = n \<Longrightarrow> oneControl n j now (f v)) \<Longrightarrow> oneControl n j now (andThen m f)"
  by (cases m) auto

lemma noControl_andThen':
  "noControl n m \<Longrightarrow> (\<And>v. controlCount (v_world v) = n \<Longrightarrow> noControl n (f v)) \<Longrightarrow> noControl n (andThen m f)"
  by (cases m) auto

lemma noControl_quiet:
  assumes "emits (\<lambda>c. \<not> isControl c) u (v_world (flowVal m))" "controlCount u = n"
  shows "noControl n m"
  using emits_controlCount[OF assms(1)] assms(2) by (cases m) simp_all

lemma stageCircuitStatus_no: "controlCount (v_world v) = n \<Longrightarrow> noControl n (stageCircuitStatus E j now v)"
  using controlCount_advance[of E j now v] by (auto simp: stageCircuitStatus_def Let_def finish_def)

lemma stageOpenCircuit_no: "controlCount (v_world v) = n \<Longrightarrow> noControl n (stageOpenCircuit E j now v)"
  using stageOpenCircuit_one[of v n j now E]
  by (cases "circuitDue j now (v_state v)") (simp_all add: stageOpenCircuit_def finish_def Let_def)

text \<open>Probe round, passive recovery and the wait of an open circuit, taken together.\<close>

lemma circuitStages_no:
  assumes "wfParams (jobParams j)" "controlCount (v_world v) = n"
  shows "noControl n (andThen (andThen (stageProbeRound E j now v) (stagePassiveRecovery E j now)) (stageCircuitWait E j now))"
proof -
  have cw: "noControl n (stageCircuitWait E j now x)" if "controlCount (v_world x) = n \<or> controlCount (v_world x) \<le> Suc n \<and> waiting j now x" for x
  proof (cases "stageCircuitWait E j now x")
    case (Done y)
    then show ?thesis using that stageCircuitWait_one[of x n j now E] stageCircuitWait_waiting[of x n j now E] by auto
  next
    case (Next y)
    then show ?thesis using that stageCircuitWait_phase[OF Next] by (auto simp: waiting_def)
  qed
  have pr: "noControl n (andThen (stagePassiveRecovery E j now x) (stageCircuitWait E j now))"
    if "controlCount (v_world x) = n \<or> controlCount (v_world x) \<le> Suc n \<and> waiting j now x" for x
  proof (cases "waiting j now x")
    case True
    then show ?thesis using cw that by (simp add: stagePassiveRecovery_waiting)
  next
    case False
    then show ?thesis
      using that cw by (intro noControl_andThen' noControl_quiet[OF no_control_puts.stagePassiveRecovery_emits]) auto
  qed
  show ?thesis
    using stageProbeRound_one[OF assms, of now E] pr by (cases "stageProbeRound E j now v") auto
qed

lemma andThen_assoc: "andThen (andThen m f) g = andThen m (\<lambda>x. andThen (f x) g)"
  by (cases m) auto

lemmas quiet_no = no_control_puts.stage_emits[THEN noControl_quiet]
  no_control_puts.stageExclusions_measured_emits[THEN noControl_quiet]

lemma evaluateStages_one:
  assumes "wfParams (jobParams j)" "controlCount (v_world v) = n"
  shows "oneControl n j now (evaluateStages E j now v)"
proof -
  have "oneControl n j now
    (andThen (stageStalePause E j now v) (\<lambda>v. andThen (stageCapacity E j now v) (\<lambda>v. andThen
      (stageExclusions E j now (upd (measureEvidence j) v)) (\<lambda>v. andThen (stageExhausted E j now v) (\<lambda>v. andThen
      (stageCircuitStatus E j now v) (\<lambda>v. andThen (stageDecay E j now v) (\<lambda>v. andThen
      (andThen (andThen (stageProbeRound E j now v) (stagePassiveRecovery E j now)) (stageCircuitWait E j now)) (\<lambda>v. andThen
      (stageProbingWait E j now v) (\<lambda>v. andThen (stageSoftStart E j now v) (\<lambda>v. andThen (stageScore E j now v) (\<lambda>v. andThen
      (stageOpenCircuit E j now v) (\<lambda>v. andThen (stageSparse E j now v) (stageWrite E j now)))))))))))))"
    by (intro noControl_andThen quiet_no stageCircuitStatus_no stageOpenCircuit_no circuitStages_no
        stageWrite_one assms)
  then show ?thesis unfolding evaluateStages_def andThen_assoc .
qed

lemma evaluateBody_one:
  assumes "wfParams (jobParams j)"
  shows "controlCount (v_world (evaluateBody E j now w)) \<le> Suc (controlCount w)"
proof -
  have "oneControl n j now m \<Longrightarrow> controlCount (v_world (flowVal m)) \<le> Suc n" for n m
    by (cases m) auto
  then have "controlCount (v_world (flowVal (evaluateStages E j now x))) \<le> Suc (controlCount (v_world x))" for x
    using evaluateStages_one[OF assms refl] by blast
  from this[of "upd f \<lparr>v_state = s, v_world = w, v_changed = False\<rparr>" for f s] show ?thesis
    by (simp add: evaluateBody_def Let_def) (simp add: controlCount_def controls_def)
qed

lemma evaluateChannel_one:
  assumes "wfParams (jobParams j)"
  shows "controlCount (evaluateChannel E j w) \<le> Suc (controlCount w)"
proof -
  have "controlCount (bumpGuard site ch x) = controlCount x" for site ch x
    by (simp add: bumpGuard_def Let_def controlCount_def controls_def)
  then show ?thesis
    using evaluateBody_one[OF assms, of E "j_now j" w] evaluateBody_one[OF assms, of E "clock E (trace w)" "emit Now w"]
    by (simp add: evaluateChannel_def Let_def)
qed

section \<open>Exhausted writes\<close>

lemma settle_nothing: "cap_PendingCommandID (s_Capacity s) = [] \<Longrightarrow> settleCapacityWrite E site b now s w = (s, w)"
  by (simp add: settleCapacityWrite_def)

lemma updateCapacity_frame [simp]:
  "s_WriteFailureStreak (updateCapacity b asOf now avail pct s) = s_WriteFailureStreak s"
  "s_CircuitStatusCommandID (updateCapacity b asOf now avail pct s) = s_CircuitStatusCommandID s"
  by (simp_all add: updateCapacity_def updateCapacityUnconfigured_def withCap_def Let_def)

lemma divertCapacity_frame [simp]:
  "s_WriteFailureStreak (divertCapacity j s) = s_WriteFailureStreak s"
  "s_CircuitStatusCommandID (divertCapacity j s) = s_CircuitStatusCommandID s"
  "cap_PendingCommandID (s_Capacity (divertCapacity j s)) = cap_PendingCommandID (s_Capacity s)"
  by (simp_all add: divertCapacity_def withCap_def Let_def case_prod_beta)

lemma capacity_parts_pending:
  "cap_PendingCommandID (refreshCapacity b asOf s) = cap_PendingCommandID (s_Capacity s)"
  "cap_PendingCommandID (sampleCapacity r asOf c) = cap_PendingCommandID c"
  "cap_PendingCommandID (capacityPhase r asOf pct c) = cap_PendingCommandID c"
  by (simp_all add: refreshCapacity_def sampleCapacity_def capacityPhase_def Let_def case_prod_beta)

lemma updateCapacity_pending:
  "cap_PendingCommandID (s_Capacity s) = [] \<Longrightarrow> cap_PendingCommandID (s_Capacity (updateCapacity b asOf now avail pct s)) = []"
  by (auto simp: updateCapacity_def updateCapacityUnconfigured_def withCap_def Let_def capacity_parts_pending zeroCapacityControl_def)

definition exhausted :: "ContinuousDispatchParams \<Rightarrow> ContinuousState \<Rightarrow> bool" where
  "exhausted p s \<longleftrightarrow> s_WriteFailureStreak s \<ge> r_WriteMaxAttempts (Rules p) \<and> s_CircuitStatusCommandID s = [] \<and>
     cap_PendingCommandID (s_Capacity s) = []"

lemma stageCapacity_exhausted:
  assumes "exhausted p (v_state v)"
  shows "\<exists>v'. stageCapacity E j now v = Next v' \<and> exhausted p (v_state v')"
proof -
  have "exhausted p (measureRates j (v_state v))" using assms by (simp add: exhausted_def measureRates_def Let_def)
  then show ?thesis
    by (auto simp: stageCapacity_def Let_def exhausted_def settle_nothing updateCapacity_pending)
qed

lemma stageExclusions_exhausted:
  assumes "exhausted p (v_state v)" "stageExclusions E j now (upd (measureEvidence j) v) = Next v'"
  shows "exhausted p (v_state v')"
  using assms by (auto simp: stageExclusions_def Let_def finish_def exhausted_def measureEvidence_def split: if_splits)

lemma evaluateStages_exhausted:
  assumes "j_mode j = ''auto''" "exhausted (jobParams j) (v_state v)"
  shows "emits (\<lambda>c. \<not> isControl c) (v_world v) (v_world (flowVal (evaluateStages E j now v)))"
proof -
  have sp: "stageStalePause E j now v = Next v" using assms(1) by (simp add: stageStalePause_def)
  obtain v1 where v1: "stageCapacity E j now v = Next v1" "exhausted (jobParams j) (v_state v1)"
    using stageCapacity_exhausted[OF assms(2)] by blast
  have e1: "emits (\<lambda>c. \<not> isControl c) (v_world v) (v_world v1)"
    using no_control_puts.stageCapacity_emits[of v E j now] v1(1) by simp
  have e2: "emits (\<lambda>c. \<not> isControl c) (v_world v1) (v_world (flowVal (stageExclusions E j now (upd (measureEvidence j) v1))))"
    by (rule no_control_puts.stageExclusions_measured_emits)
  show ?thesis
  proof (cases "stageExclusions E j now (upd (measureEvidence j) v1)")
    case (Done v2)
    then show ?thesis using e1 e2 sp v1(1) emits_trans by (fastforce simp: evaluateStages_def)
  next
    case (Next v2)
    have "\<exists>v3. stageExhausted E j now v2 = Done v3"
      using stageExclusions_exhausted[OF v1(2) Next]
      by (simp add: stageExhausted_def exhausted_def finish_def Let_def case_prod_beta)
    then obtain v3 where v3: "stageExhausted E j now v2 = Done v3" by blast
    have "emits (\<lambda>c. \<not> isControl c) (v_world v2) (v_world v3)"
      using no_control_puts.stageExhausted_emits[of v2 E j now] v3 by simp
    then show ?thesis
      using e1 e2 Next sp v1(1) v3 emits_trans by (fastforce simp: evaluateStages_def)
  qed
qed

lemma prepareState_exhausted: "exhausted p (prepareState j now ex s) = exhausted p s"
  by (simp add: exhausted_def prepareState_def Let_def)

lemma evaluateBody_exhausted:
  assumes "exhausted (jobParams j) (stateAt (j_stateByID j) (jobChannel j))"
  shows "emits (\<lambda>c. \<not> isControl c) w (v_world (evaluateBody E j now w))"
proof (cases "j_mode j = ''auto''")
  case True
  have "emits (\<lambda>c. \<not> isControl c) w (v_world (flowVal (evaluateStages E j now
      (upd (prepareState j now ex) \<lparr>v_state = stateAt (j_stateByID j) (jobChannel j), v_world = w, v_changed = False\<rparr>))))" for ex
    using evaluateStages_exhausted[OF True, of "upd (prepareState j now ex) \<lparr>v_state = stateAt (j_stateByID j) (jobChannel j), v_world = w, v_changed = False\<rparr>"]
      assms by (simp add: prepareState_exhausted)
  then show ?thesis by (simp add: evaluateBody_def Let_def)
next
  case False
  then show ?thesis by (rule no_control_puts.evaluateBody_emits_manual)
qed

text \<open>From the job to the guarded evaluation.\<close>

lemma evaluateChannel_controls:
  assumes "\<And>now u. controls (v_world (evaluateBody E j now u)) = controls u"
  shows "controls (evaluateChannel E j w) = controls w"
  using assms by (simp add: evaluateChannel_def Let_def bumpGuard_def controls_counters controls_emit)

end
