(* ===== verification/EngineEvidence.thy ===== *)
theory EngineEvidence
  imports EngineControl
begin

text \<open>
  An ordinary channel (phase normal, no circuit ownership, no status intent) leaves the normal phase
  only when the policy's evidence is there: enough requests in the window and a smoothed error rate
  at or above the circuit threshold.
\<close>

definition calm :: "ContinuousState \<Rightarrow> bool" where
  "calm s \<longleftrightarrow> s_Phase s = ''normal'' \<and> s_CircuitStatusTarget s = 0 \<and> \<not> s_CircuitDisabled s \<and> \<not> s_RoutineCircuitLatched s"

definition circuitEvidence :: "job \<Rightarrow> ContinuousState \<Rightarrow> bool" where
  "circuitEvidence j s \<longleftrightarrow> j_mode j \<noteq> ''off'' \<and>
     m_RequestCount (jobMetric j) \<ge> p_MinSamples (jobParams j) \<and>
     s_SmoothedErrorRate s \<ge> p_CircuitErrorRate (jobParams j)"

fun evidenced :: "job \<Rightarrow> call \<Rightarrow> bool" where
  "evidenced j (PutContinuousState s) \<longleftrightarrow> s_Phase s = ''normal'' \<or> s_Phase s = ''circuit'' \<and> circuitEvidence j s"
| "evidenced j (CreateContinuousProbe _ _ _ _ _) \<longleftrightarrow> False"
| "evidenced j _ \<longleftrightarrow> True"

interpretation ev: call_filter "evidenced j" for j
proof
  fix c assume "isQuiet c"
  then show "evidenced j c" by (cases c) auto
qed

section \<open>Frames\<close>

text \<open>The fields that decide the circuit, and what the write path leaves of them.\<close>

definition sameCircuit :: "ContinuousState \<Rightarrow> ContinuousState \<Rightarrow> bool" where
  "sameCircuit s t \<longleftrightarrow> s_Phase t = s_Phase s \<and> s_CircuitStatusTarget t = s_CircuitStatusTarget s \<and>
     s_CircuitDisabled t = s_CircuitDisabled s \<and> s_RoutineCircuitLatched t = s_RoutineCircuitLatched s \<and>
     s_SmoothedErrorRate t = s_SmoothedErrorRate s"

lemma sameCircuit_trans [trans]: "sameCircuit s t \<Longrightarrow> sameCircuit t u \<Longrightarrow> sameCircuit s u"
  by (simp add: sameCircuit_def)

lemma sameCircuit_calm: "sameCircuit s t \<Longrightarrow> calm s \<Longrightarrow> calm t"
  by (simp add: sameCircuit_def calm_def)

lemma sameCircuit_intros [simp]:
  "sameCircuit s s" "sameCircuit s (noteWriteSuccess s)" "sameCircuit s (confirmCapacityWrite n t s)"
  "sameCircuit s (withCap f s)" "sameCircuit s (measureRates j s)" "sameCircuit s (measureEvidence j s)"
  "sameCircuit s (updateCapacity b asOf now avail pct s)" "sameCircuit s (divertCapacity j s)"
  "sameCircuit s (persistedBeforeWrite b now s)" "sameCircuit s (proposeWeight j n s)"
  "sameCircuit s (fst (noteWriteFailure E site b m e now s w))" "sameCircuit s (s\<lparr>s_UpdatedAt := now\<rparr>)"
  by (simp_all add: sameCircuit_def noteWriteSuccess_def confirmCapacityWrite_def withCap_def measureRates_def
      measureEvidence_def updateCapacity_def updateCapacityUnconfigured_def divertCapacity_def persistedBeforeWrite_def
      trackCapacity_def proposeWeight_def noteWriteFailure_def Let_def case_prod_beta)

lemma resetUnapplied_normal:
  "s_Phase s = ''normal'' \<Longrightarrow> resetUnappliedCapacityTransition E site now s w = (s, w)"
  by (simp add: resetUnappliedCapacityTransition_def)

lemma settle_normal:
  assumes "s_Phase s = ''normal''"
  shows "sameCircuit s (fst (settleCapacityWrite E site b now s w))"
proof -
  let ?s = "withCap (\<lambda>c. c\<lparr>cap_PendingCommandID := []\<rparr>) s"
  have "s_Phase ?s = ''normal''" using assms by (simp add: withCap_def)
  note r = resetUnapplied_normal[OF this]
  have "sameCircuit s (withCap f (fst (noteWriteFailure E site b m e now ?s u)))" for f m e u
    using sameCircuit_trans[OF sameCircuit_intros(4) sameCircuit_trans[OF sameCircuit_intros(11) sameCircuit_intros(4)]] .
  moreover have "sameCircuit s (noteWriteSuccess (confirmCapacityWrite n t s))" for n t
    using sameCircuit_trans[OF sameCircuit_intros(3) sameCircuit_intros(2)] .
  ultimately show ?thesis
    by (simp add: settleCapacityWrite_def Let_def case_prod_beta r)
qed

lemma settle_rate: "s_SmoothedErrorRate (fst (settleCapacityWrite E site b now s w)) = s_SmoothedErrorRate s"
  "s_Phase s = ''circuit'' \<Longrightarrow> s_Phase (fst (settleCapacityWrite E site b now s w)) \<in> {''circuit'', ''normal''}"
  by (simp_all add: settleCapacityWrite_def Let_def case_prod_beta noteWriteSuccess_def confirmCapacityWrite_def withCap_def
      resetUnappliedCapacityTransition_def noteWriteFailure_def resetFailedCircuitEnable_def clearProbes_def)

lemma createTracked_normal:
  assumes "s_Phase s = ''normal''"
  shows "s_Phase (fst (snd (createTrackedWeightChange E r b now s w))) = ''normal''"
proof -
  have n: "s_Phase t = ''normal'' \<Longrightarrow> s_Phase (fst (settleCapacityWrite E site b now t u)) = ''normal''" for t site u
    using settle_normal[of t E site b now u] by (simp add: sameCircuit_def)
  have p: "s_Phase (persistedBeforeWrite b now s) = ''normal''"
    using assms by (simp add: persistedBeforeWrite_def trackCapacity_def withCap_def)
  have a: "s_Phase (fst (afterCommand E r' b now cmd (persistedBeforeWrite b now s) u)) = ''normal''" for r' cmd u
    unfolding afterCommand_def Let_def
    by (simp add: n p withCap_def noteWriteSuccess_def confirmCapacityWrite_def Let_def)
  show ?thesis
    using assms a p by (simp add: createTracked_eq Let_def split: option.split prod.split)
qed

lemma createTracked_circuit:
  assumes "s_Phase s = ''circuit''"
  shows "s_SmoothedErrorRate (fst (snd (createTrackedWeightChange E r b now s w))) = s_SmoothedErrorRate s"
    "s_Phase (fst (snd (createTrackedWeightChange E r b now s w))) \<in> {''circuit'', ''normal''}"
proof -
  have p: "s_Phase (persistedBeforeWrite b now s) = ''circuit''"
    "s_SmoothedErrorRate (persistedBeforeWrite b now s) = s_SmoothedErrorRate s"
    using assms by (simp_all add: persistedBeforeWrite_def trackCapacity_def withCap_def)
  have a: "s_SmoothedErrorRate (fst (afterCommand E r' b now cmd (persistedBeforeWrite b now s) u)) = s_SmoothedErrorRate s"
    "s_Phase (fst (afterCommand E r' b now cmd (persistedBeforeWrite b now s) u)) \<in> {''circuit'', ''normal''}" for r' cmd u
    unfolding afterCommand_def Let_def using settle_rate(2)
    by (simp_all add: settle_rate(1) p withCap_def noteWriteSuccess_def confirmCapacityWrite_def Let_def)
  show "s_SmoothedErrorRate (fst (snd (createTrackedWeightChange E r b now s w))) = s_SmoothedErrorRate s"
    "s_Phase (fst (snd (createTrackedWeightChange E r b now s w))) \<in> {''circuit'', ''normal''}"
    using assms a p by (simp_all add: createTracked_eq Let_def split: option.split prod.split)
qed

section \<open>Stages\<close>

fun calmFlow :: "job \<Rightarrow> world \<Rightarrow> vars flow \<Rightarrow> bool" where
  "calmFlow j u (Done v) \<longleftrightarrow> emits (evidenced j) u (v_world v)"
| "calmFlow j u (Next v) \<longleftrightarrow> emits (evidenced j) u (v_world v) \<and> calm (v_state v)"

definition calmRun :: "job \<Rightarrow> world \<Rightarrow> vars \<Rightarrow> bool" where
  "calmRun j u v \<longleftrightarrow> emits (evidenced j) u (v_world v) \<and> calm (v_state v)"

lemma calmFlow_andThen:
  assumes "calmFlow j u m" "\<And>v. calmRun j u v \<Longrightarrow> calmFlow j u (f v)"
  shows "calmFlow j u (andThen m f)"
  using assms by (cases m) (auto simp: calmRun_def)

lemma calmFlow_finish: "emits (evidenced j) u (v_world v) \<Longrightarrow> evidenced j (PutContinuousState (v_state v)) \<Longrightarrow>
    calmFlow j u (finish E now v)"
  by (simp add: finish_def emits_emit_right circuitEvidence_def)

lemma calm_phase: "calm s \<Longrightarrow> s_Phase s = ''normal''"
  by (simp add: calm_def)

lemma calmRun_next: "calmRun j u v \<Longrightarrow> calmFlow j u (Next v)"
  by (simp add: calmRun_def)

lemma calm_stalePause: "calmRun j u v \<Longrightarrow> calmFlow j u (stageStalePause E j now v)"
  using sameCircuit_calm[OF sameCircuit_intros(2), of "v_state v"]
  by (auto simp: stageStalePause_def calmRun_def calm_def intro!: emits_emit_right)

lemma calm_capacity:
  assumes "calmRun j u v"
  shows "calmFlow j u (stageCapacity E j now v)"
proof -
  let ?m = "measureRates j (v_state v)"
  let ?r = "settleCapacityWrite E (j_site j) (j_base j) now ?m (v_world v)"
  have m: "calm ?m" using assms sameCircuit_calm[OF sameCircuit_intros(5)] by (simp add: calmRun_def)
  then have "calm (fst ?r)" using sameCircuit_calm[OF settle_normal] calm_phase by blast
  then have "calm (divertCapacity j (updateCapacity (j_base j) a now b p (fst ?r)))" for a b p
    using sameCircuit_calm[OF sameCircuit_trans[OF sameCircuit_intros(7) sameCircuit_intros(8)]] by blast
  moreover have "emits (evidenced j) u (snd ?r)"
    using assms ev.settleCapacityWrite_emits emits_trans unfolding calmRun_def by blast
  ultimately show ?thesis
    using assms m by (simp add: stageCapacity_def Let_def case_prod_beta calmRun_def)
qed

lemma calm_exclusions:
  assumes "calmRun j u v"
  shows "calmFlow j u (stageExclusions E j now (upd (measureEvidence j) v))"
proof -
  let ?v = "upd (measureEvidence j) v"
  have c: "calm (v_state ?v)" "emits (evidenced j) u (v_world ?v)"
    using assms sameCircuit_calm[OF sameCircuit_intros(6)] by (simp_all add: calmRun_def)
  then show ?thesis
    unfolding stageExclusions_def Let_def
    by (auto simp: calm_def noteWriteSuccess_def clearProbes_def Let_def
        intro!: calmFlow_finish emits_emit_right)
qed

lemma calm_exhausted:
  assumes "calmRun j u v"
  shows "calmFlow j u (stageExhausted E j now v)"
proof -
  let ?r = "finishFailedWrite E (j_base j) (jobParams j) now (v_state v) (v_world v)"
  have "s_Phase (fst ?r) = ''normal''"
    using assms by (simp add: calmRun_def calm_def finishFailedWrite_def Let_def noteWriteSuccess_def clearProbes_def)
  moreover have "emits (evidenced j) u (snd ?r)"
    using assms ev.finishFailedWrite_emits emits_trans unfolding calmRun_def by blast
  ultimately show ?thesis
    using assms by (auto simp: stageExhausted_def Let_def case_prod_beta calmRun_def intro!: calmFlow_finish)
qed

lemma calm_circuitStatus: "calmRun j u v \<Longrightarrow> calmFlow j u (stageCircuitStatus E j now v)"
  by (simp add: stageCircuitStatus_def Let_def calmRun_def calm_def)

lemma calm_decay:
  assumes "calmRun j u v"
  shows "calmFlow j u (stageDecay E j now v)"
proof -
  let ?f = "foldErrorDecayWithBuckets E (j_site j) (jobChannel j) now (j_recentBuckets j) (jobParams j)
              (v_state v) (v_world v)"
  obtain n e s' w' where f: "?f = ((n, e), s', w')" by (metis prod.exhaust)
  from foldErrorDecay_frame[OF f] have "calm s'" using assms by (auto simp: calmRun_def calm_def)
  moreover have "emits (evidenced j) u w'"
    using ev.foldErrorDecay_emits[of j "v_world v" E "j_site j" "jobChannel j" now "j_recentBuckets j" "jobParams j" "v_state v"]
      f assms emits_trans unfolding calmRun_def by fastforce
  ultimately show ?thesis
    using assms by (simp add: stageDecay_def Let_def f calmRun_def calm_def)
qed

lemma calm_phases:
  "calmRun j u v \<Longrightarrow> calmFlow j u (stageProbeRound E j now v)"
  "calmRun j u v \<Longrightarrow> calmFlow j u (stagePassiveRecovery E j now v)"
  "calmRun j u v \<Longrightarrow> calmFlow j u (stageCircuitWait E j now v)"
  "calmRun j u v \<Longrightarrow> calmFlow j u (stageProbingWait E j now v)"
  "calmRun j u v \<Longrightarrow> calmFlow j u (stageSoftStart E j now v)"
  by (simp_all add: stageProbeRound_def stagePassiveRecovery_def stageCircuitWait_def stageProbingWait_def
      stageSoftStart_def Let_def calmRun_def calm_def)

lemma sameCircuit_performance [simp]: "sameCircuit s (applyPerformanceFactors s m bl p)"
  by (simp add: sameCircuit_def applyPerformanceFactors_def case_prod_beta)

lemma sameCircuit_upds [simp]:
  "sameCircuit s (t\<lparr>s_Multiplier := m\<rparr>) = sameCircuit s t" "sameCircuit s (t\<lparr>s_ProposedWeight := n\<rparr>) = sameCircuit s t"
  "sameCircuit s (t\<lparr>s_Evaluation := e\<rparr>) = sameCircuit s t"
  by (simp_all add: sameCircuit_def)

lemma sameCircuit_score: "sameCircuit s (scoreChannel j s)"
  by (simp add: scoreChannel_def Let_def)

lemma sameCircuit_bound: "sameCircuit s (boundWeight j s)"
  by (simp add: boundWeight_def proposeWeight_def Let_def)

lemma calm_score: "calmRun j u v \<Longrightarrow> calmFlow j u (stageScore E j now v)"
  using sameCircuit_calm[OF sameCircuit_trans[OF sameCircuit_score sameCircuit_bound]]
  by (simp add: stageScore_def calmRun_def)

lemma calm_openCircuit:
  assumes "calmRun j u v"
  shows "calmFlow j u (stageOpenCircuit E j now v)"
proof (cases "circuitDue j now (v_state v)")
  case False
  then show ?thesis using assms by (simp add: stageOpenCircuit_def calmRun_def)
next
  case True
  define v1 where "v1 = upd (openCircuit j now) v"
  define r where "r = eventOf E j ''circuit_opened'' now v1"
  have v1: "s_Phase (v_state v1) = ''circuit''" "circuitEvidence j (v_state v1)" "emits (evidenced j) u (v_world v1)"
    using True assms by (simp_all add: v1_def circuitDue_def openCircuit_def clearProbes_def circuitEvidence_def calmRun_def)
  obtain o2 v2 where t: "trackedWrite E j r now v1 = (o2, v2)" by (metis prod.exhaust)
  have w2: "emits (evidenced j) u (v_world v2)"
  proof -
    have "emits (evidenced j) (v_world v1) (v_world (snd (trackedWrite E j r now v1)))"
      unfolding trackedWrite_simps
      using v1(1,2) sameCircuit_intros(9)[of "v_state v1" "j_base j" now]
      by (intro ev.createTracked_emits) (auto simp: sameCircuit_def circuitEvidence_def)
    then show ?thesis using v1(3) t emits_trans by fastforce
  qed
  have s2: "evidenced j (PutContinuousState (v_state v2))"
    using createTracked_circuit[OF v1(1), of E r "j_base j" now "v_world v1"] v1(2) t
      trackedWrite_simps(2)[of E j r now v1] by (auto simp: circuitEvidence_def)
  have nf: "emits (evidenced j) u (v_world (noteFailure E j e now x))" if "emits (evidenced j) u (v_world x)" for e x
    using that ev.noteWriteFailure_emits emits_trans unfolding noteFailure_simps by blast
  have "s_Phase (v_state (noteFailure E j e now x)) = s_Phase (v_state x)" for e x
    by (simp add: noteFailure_simps noteWriteFailure_def Let_def)
  then show ?thesis
    using True v1 w2 s2 nf t
    by (auto simp: stageOpenCircuit_def Let_def v1_def[symmetric] r_def[symmetric] split: option.split
        intro!: calmFlow_finish emits_emit_right nf)
qed

lemma calm_sparse: "calmRun j u v \<Longrightarrow> calmFlow j u (stageSparse E j now v)"
  by (auto simp: stageSparse_def Let_def calmRun_def calm_def proposeWeight_def intro!: calmFlow_finish)

lemma afterObserve_phase: "s_Phase (v_state (afterObserve E j now v)) = s_Phase (v_state v)"
  by (simp add: afterObserve_def Let_def case_prod_beta noteWriteSuccess_def capacityStep_def applyCapacityTarget_def
      proposeWeight_def)

lemma afterWrite_calm:
  "emits (evidenced j) u (v_world (snd r)) \<Longrightarrow> emits (evidenced j) u (v_world (afterWrite E j now r))"
  "s_Phase (v_state (snd r)) = ''normal'' \<Longrightarrow> s_Phase (v_state (afterWrite E j now r)) = ''normal''"
proof -
  obtain o4 v4 where r: "r = (o4, v4)" by (cases r)
  have "emits (evidenced j) u (v_world (noteFailure E j e now v4))" if "emits (evidenced j) u (v_world v4)" for e
    using that ev.noteWriteFailure_emits emits_trans unfolding noteFailure_simps by blast
  then show "emits (evidenced j) u (v_world (snd r)) \<Longrightarrow> emits (evidenced j) u (v_world (afterWrite E j now r))"
    by (cases o4) (simp_all add: r afterWrite_def)
  have "s_Phase (v_state (noteFailure E j e now v4)) = s_Phase (v_state v4)" for e
    by (simp add: noteFailure_simps noteWriteFailure_def Let_def)
  then show "s_Phase (v_state (snd r)) = ''normal'' \<Longrightarrow> s_Phase (v_state (afterWrite E j now r)) = ''normal''"
    by (cases o4) (simp_all add: r afterWrite_def withCap_def)
qed

lemma calm_write:
  assumes "calmRun j u v"
  shows "calmFlow j u (stageWrite E j now v)"
proof -
  define v3 where "v3 = afterObserve E j now v"
  have n3: "s_Phase (v_state v3) = ''normal''" "emits (evidenced j) u (v_world v3)"
    using assms by (simp_all add: v3_def afterObserve_phase calmRun_def calm_def)
      (simp add: afterObserve_def Let_def case_prod_beta emits_emit_right)
  have "emits (evidenced j) u (v_world (snd (trackedWrite E j r now v3)))" for r
    unfolding trackedWrite_simps
    using n3(1) sameCircuit_intros(9)[of "v_state v3" "j_base j" now]
    by (intro emits_trans[OF n3(2)] ev.createTracked_emits) (auto simp: sameCircuit_def)
  moreover have "s_Phase (v_state (snd (trackedWrite E j r now v3))) = ''normal''" for r
    unfolding trackedWrite_simps using n3(1) by (rule createTracked_normal)
  ultimately have "calmFlow j u (finish E now (afterWrite E j now (trackedWrite E j r now v3)))" for r
    using afterWrite_calm by (intro calmFlow_finish) auto
  then show ?thesis
    using stageWrite_cases[OF v3_def] n3 by (auto intro!: calmFlow_finish)
qed

lemma evaluateStages_calm:
  assumes "calmRun j u v"
  shows "calmFlow j u (evaluateStages E j now v)"
  unfolding evaluateStages_def
  by (intro calmFlow_andThen calm_stalePause calm_capacity calm_exclusions calm_exhausted calm_circuitStatus
      calm_decay calm_phases calm_score calm_openCircuit calm_sparse calm_write assms)

lemma prepareState_circuit [simp]:
  "s_CircuitDisabled (prepareState j now ex s) = s_CircuitDisabled s"
  "s_RoutineCircuitLatched (prepareState j now ex s) = s_RoutineCircuitLatched s"
  by (simp_all add: prepareState_def Let_def)

lemma evaluateBody_calm:
  assumes "stateAt (j_stateByID j) (jobChannel j) = s" "s_Phase s = ''normal'' \<or> s_Phase s = []"
    "s_CircuitStatusTarget s = 0" "\<not> s_CircuitDisabled s" "\<not> s_RoutineCircuitLatched s"
  shows "emits (evidenced j) w (v_world (evaluateBody E j now w))"
proof -
  let ?v = "\<lambda>ex. upd (prepareState j now ex) \<lparr>v_state = s, v_world = w, v_changed = False\<rparr>"
  have "calmRun j w (?v ex)" for ex
    using assms(2-) by (auto simp: calmRun_def calm_def)
  then have "calmFlow j w (evaluateStages E j now (?v ex))" for ex
    by (rule evaluateStages_calm)
  then have "emits (evidenced j) w (v_world (flowVal (evaluateStages E j now (?v ex))))" for ex
    by (metis calmFlow.simps flowVal.elims)
  then show ?thesis using assms(1) by (simp add: evaluateBody_def Let_def)
qed

lemma evaluateChannel_calm:
  assumes "stateAt (j_stateByID j) (jobChannel j) = s" "s_Phase s = ''normal'' \<or> s_Phase s = []"
    "s_CircuitStatusTarget s = 0" "\<not> s_CircuitDisabled s" "\<not> s_RoutineCircuitLatched s"
  shows "adds (evidenced j) w (evaluateChannel E j w)"
  by (rule evaluateChannel_adds) (simp_all add: evaluateBody_calm[OF assms])

end
