(* ===== verification/ExampleJobs.thy ===== *)
theory ExampleJobs
  imports EngineSafety
begin

text \<open>
  Concrete channel jobs for the witnesses of the engine's properties.
\<close>

text \<open>A job of channel 7 in the given mode on the given stored state.\<close>

definition exampleJob :: "string \<Rightarrow> ContinuousState option \<Rightarrow> job" where
  "exampleJob mode stored = \<lparr>
     j_site = ''site'', j_pr = examplePolicyRecord, j_base = exampleBase, j_rows = [exampleBase],
     j_model = ''model'', j_mode = mode, j_now = 70000000000 * Second, j_metricsEmpty = False,
     j_metricByID = [7 \<mapsto> exampleMetric], j_currentMetricByID = [7 \<mapsto> exampleMetric],
     j_stateByID = (\<lambda>ch. if ch = 7 then stored else None), j_probeSpeeds = Map.empty,
     j_scheduleControls = Map.empty, j_recentBuckets = None, j_baseline = zeroBaseline,
     j_healthy = False, j_probeBaseline = 0, j_ratesAreWindowTotals = False, j_ratesUnavailable = False,
     j_hasRateSnapshot = False, j_ratesAsOf = 0, j_snapshotVersion = 3, j_parallelism = 1\<rparr>"

text \<open>A channel that serves two models is excluded from dispatch; its evaluation still persists.\<close>

definition mixedJob :: job where
  "mixedJob = (exampleJob ''auto'' None)\<lparr>j_base := exampleBase\<lparr>b_Models := [''model'', ''other'']\<rparr>\<rparr>"

lemma example_params [simp]:
  "jobParams (exampleJob mode stored) = DefaultContinuous"
  "jobChannel (exampleJob mode stored) = 7"
  "j_mode (exampleJob mode stored) = mode"
  "j_site (exampleJob mode stored) = ''site''"
  "j_snapshotVersion (exampleJob mode stored) = 3"
  "j_recentBuckets (exampleJob mode stored) = None"
  "j_stateByID (exampleJob mode stored) 7 = stored"
  by (simp_all add: jobParams_def jobChannel_def exampleJob_def examplePolicyRecord_def DefaultPolicy_def exampleBase_def)

lemma example_evidence: "goodEvidence exampleEnv None"
  by (simp add: goodEvidence_def exampleEnv_def)

lemma exclusions_mixed_put:
  assumes "length (b_Models (j_base j)) > 1" "\<not> s_CircuitDisabled (v_state v)"
  shows "\<exists>t. PutContinuousState t \<in> set (trace (v_world (flowVal (stageExclusions E j now v)))) \<and> (\<exists>v'. stageExclusions E j now v = Done v')"
  using assms by (auto simp: stageExclusions_def Let_def)

lemma stages_mixed_put:
  assumes "j_mode j = ''auto''" "\<not> j_hasRateSnapshot j" "length (b_Models (j_base j)) > 1"
    "\<not> s_CircuitDisabled (v_state v)" "\<not> cap_Initialized (s_Capacity (v_state v))"
  shows "\<exists>t. PutContinuousState t \<in> set (trace (v_world (flowVal (evaluateStages E j now v))))"
proof -
  let ?v = "upd (measureEvidence j) (upd (measureRates j) v)"
  have c: "stageCapacity E j now v = Next (upd (measureRates j) v)"
    using assms(2,5) by (simp add: stageCapacity_def Let_def measureRates_def)
  have s: "stageStalePause E j now v = Next v" using assms(1) by (simp add: stageStalePause_def)
  have d: "\<not> s_CircuitDisabled (v_state ?v)" using assms(4) by (simp add: measureRates_def measureEvidence_def Let_def)
  from exclusions_mixed_put[OF assms(3) d, of E now] obtain t v' where
    "stageExclusions E j now ?v = Done v'" "PutContinuousState t \<in> set (trace (v_world v'))" by auto
  then show ?thesis by (auto simp: evaluateStages_def s c)
qed

lemma mixed_put: "\<exists>t. PutContinuousState t \<in> set (trace (evaluateChannel exampleEnv mixedJob exampleWorld))"
proof -
  let ?v = "\<lambda>now. upd (prepareState mixedJob now False) \<lparr>v_state = zeroContinuousState, v_world = exampleWorld, v_changed = False\<rparr>"
  have st: "stateAt (j_stateByID mixedJob) (jobChannel mixedJob) = zeroContinuousState" "j_stateByID mixedJob (jobChannel mixedJob) = None"
    by (simp_all add: mixedJob_def exampleJob_def stateAt_def)
  have gap: "\<not> preservedGap mixedJob now False zeroContinuousState" for now by (simp add: preservedGap_def Let_def)
  have ex: "\<exists>t. PutContinuousState t \<in> set (trace (v_world (flowVal (evaluateStages exampleEnv mixedJob now (?v now)))))" for now
    by (rule stages_mixed_put)
      (simp_all add: mixedJob_def exampleJob_def exampleBase_def prepareState_def zeroContinuousState_def zeroCapacityControl_def Let_def)
  have body: "\<exists>t. PutContinuousState t \<in> set (trace (v_world (evaluateBody exampleEnv mixedJob now exampleWorld)))" for now
    using ex[of now] by (simp add: evaluateBody_def Let_def st gap) (simp add: ManualDisabled_def zeroContinuousState_def)
  have g: "\<not> guards exampleWorld k > j_snapshotVersion mixedJob" "\<not> ctxErr exampleEnv h" "j_parallelism mixedJob = 1" for k h
    by (simp_all add: exampleWorld_def exampleEnv_def mixedJob_def exampleJob_def)
  show ?thesis
    using body[of "j_now mixedJob"] g by (auto simp: evaluateChannel_def Let_def bumpGuard_def)
qed

end
