(* ===== verification/Site.thy ===== *)
theory Site
  imports EngineEvidence ExampleJobs
begin

text \<open>
  One evaluation of a site: the sentinel that pauses automatic modes (\<open>runAutoSentinel\<close>), the
  planning of the channel jobs (the first half of \<open>evaluateContinuous\<close>), their sequential execution
  (\<open>runChannels\<close> with one worker), \<open>evaluateSite\<close> and \<open>Tick\<close>.

  Go iterates over a map of groups in an unspecified order: the order is the parameter \<open>ord\<close>, applied
  to the distinct model names.  Logging is not modelled.
\<close>

section \<open>The sentinel\<close>

definition hasAutoMode :: "Policy \<Rightarrow> bool" where
  "hasAutoMode p \<longleftrightarrow> (\<exists>m \<in> set (pol_DispatchModes p). snd m = ''auto'')"

definition pauseAutoModes :: "Policy \<Rightarrow> Policy" where
  "pauseAutoModes p =
     p\<lparr>pol_DispatchModes := map (\<lambda>(model, mode). (model, if mode = ''auto'' then ''observe'' else mode)) (pol_DispatchModes p)\<rparr>"

definition sentinelSince :: "PolicyRecord \<Rightarrow> time \<Rightarrow> time" where
  "sentinelSince p now = (let floor = now - 24 * Hour in if pr_UpdatedAt p < floor then floor else pr_UpdatedAt p)"

definition sentinelEvent :: "env \<Rightarrow> PolicyRecord \<Rightarrow> time \<Rightarrow> time \<Rightarrow> Recommendation" where
  "sentinelEvent E p since now = \<lparr>
     rec_ID = NewID (digest E) now (pr_InstanceID p) 0 ''auto_paused-continuous_dispatch'',
     rec_InstanceID = pr_InstanceID p, rec_ChannelName = ''-'', rec_Rule = ''auto_paused'', rec_ChannelID = 0,
     rec_CreatedAt = now,
     rec_Evidence = [''reason'' \<mapsto> EvStr ''auto command expired unexecuted; check the channel-control agent'',
                     ''since'' \<mapsto> EvTime since, ''target'' \<mapsto> EvStr ''continuous_dispatch'',
                     ''fallback'' \<mapsto> EvStr ''observe''],
     rec_CurrentWeight = 0, rec_ProposedWeight = 0, rec_CurrentPriority = None, rec_ProposedPriority = None,
     rec_ProposedChannelStatus = None, rec_ModeAtCreation = ''auto'', rec_Status = ''recorded'',
     rec_CommandID = None, rec_Outcome = Map.empty, rec_OutcomeAt = None, rec_Hit = None, rec_ActedBy = [],
     rec_ActedAt = None\<rparr>"

definition runAutoSentinel :: "env \<Rightarrow> PolicyRecord \<Rightarrow> time \<Rightarrow> world \<Rightarrow> PolicyRecord \<times> world" where
  "runAutoSentinel E p now w =
     (if \<not> hasAutoMode (pr_Policy p) then (p, w)
      else case hasExpiredAutoCommands E of
        None \<Rightarrow> (p, w)
      | Some q \<Rightarrow>
          let since = sentinelSince p now;
              w1 = emit (HasExpiredAutoCommands (pr_InstanceID p) since) w
          in (case q (trace w) (pr_InstanceID p) since of
                Inr e \<Rightarrow> (p, w1)
              | Inl expired \<Rightarrow>
                  if \<not> expired then (p, w1)
                  else
                    let p1 = p\<lparr>pr_Policy := pauseAutoModes (pr_Policy p), pr_UpdatedAt := now,
                               pr_UpdatedBy := ''system:sentinel''\<rparr>;
                        w2 = emit (PutPolicy p1) w1
                    in if putPolicy E (trace w1) p1 \<noteq> None then (p1, w2)
                       else (p1, emit (InsertRecommendation (sentinelEvent E p1 since now)) w2)))"

section \<open>Planning the channel jobs\<close>

definition modeOf :: "Policy \<Rightarrow> string \<Rightarrow> string" where
  "modeOf p model = strAt (pol_DispatchModes p) model"

definition activeModel :: "Policy \<Rightarrow> string \<Rightarrow> bool" where
  "activeModel p model \<longleftrightarrow> modeOf p model = ''observe'' \<or> modeOf p model = ''auto''"

definition anyActive :: "Policy \<Rightarrow> bool" where
  "anyActive p \<longleftrightarrow> (\<exists>m \<in> set (pol_DispatchModes p). activeModel p (fst m))"

definition indexBy :: "('a \<Rightarrow> int64) \<Rightarrow> 'a list \<Rightarrow> (int64 \<rightharpoonup> 'a)" where
  "indexBy k xs = foldl (\<lambda>m v. m(k v \<mapsto> v)) Map.empty xs"

text \<open>The probe statistics of the channels selected for routine probing.\<close>

definition queryProbeSpeeds ::
    "env \<Rightarrow> string \<Rightarrow> ContinuousDispatchParams \<Rightarrow> time \<Rightarrow> world \<Rightarrow> (int64 \<rightharpoonup> ProbeSpeedStats) \<times> world" where
  "queryProbeSpeeds E site p metricsEnd w =
     (case queryRoutineProbeSpeeds E of
        Some q \<Rightarrow>
          if r_RoutineProbeEnabled (Rules p) then
            let since = metricsEnd - p_WindowMinutes p * Minute;
                w1 = emit (QueryRoutineProbeSpeeds site since metricsEnd) w;
                speeds = (case q (trace w) site since metricsEnd of Inl m \<Rightarrow> m | Inr e \<Rightarrow> Map.empty)
            in (\<lambda>ch. if RoutineProbeEnabledFor p ch then speeds ch else None, w1)
          else (Map.empty, w)
      | None \<Rightarrow> (Map.empty, w))"

record rates =
  rt_metrics :: "ChannelMetric list"
  rt_windowTotals :: bool
  rt_unavailable :: bool
  rt_hasSnapshot :: bool
  rt_asOf :: time

definition queryRates :: "env \<Rightarrow> string \<Rightarrow> time \<Rightarrow> ChannelMetric list \<Rightarrow> world \<Rightarrow> rates \<times> world" where
  "queryRates E site now metrics w =
     (case queryCurrentChannelRateSnapshot E of
        Some q \<Rightarrow>
          (case q (trace w) site now of (ms, asOf, err) \<Rightarrow>
             (\<lparr>rt_metrics = ms, rt_windowTotals = False, rt_unavailable = (err \<noteq> None), rt_hasSnapshot = True, rt_asOf = asOf\<rparr>,
              emit (QueryCurrentChannelRateSnapshot site now) w))
      | None \<Rightarrow>
          (case queryCurrentChannelRates E of
             Some q \<Rightarrow>
               ((case q (trace w) site now of
                   Inr e \<Rightarrow> \<lparr>rt_metrics = [], rt_windowTotals = False, rt_unavailable = True, rt_hasSnapshot = False, rt_asOf = 0\<rparr>
                 | Inl ms \<Rightarrow> \<lparr>rt_metrics = ms, rt_windowTotals = False, rt_unavailable = False, rt_hasSnapshot = False, rt_asOf = 0\<rparr>),
                emit (QueryCurrentChannelRates site now) w)
           | None \<Rightarrow>
               (\<lparr>rt_metrics = metrics, rt_windowTotals = True, rt_unavailable = False, rt_hasSnapshot = False, rt_asOf = 0\<rparr>, w)))"

definition queryBuckets ::
    "env \<Rightarrow> string \<Rightarrow> ContinuousDispatchParams \<Rightarrow> time \<Rightarrow> world \<Rightarrow> (int64 \<rightharpoonup> RecentChannelBucket list) option \<times> world" where
  "queryBuckets E site p now w =
     (case queryRecentChannelBucketsBySite E of
        None \<Rightarrow> (None, w)
      | Some q \<Rightarrow>
          let since = now - r_ErrorLookbackMinutes (Rules p) * Minute
          in (case q (trace w) site since of Inl m \<Rightarrow> Some m | Inr e \<Rightarrow> None,
              emit (QueryRecentChannelBucketsBySite site since) w))"

definition querySchedule :: "env \<Rightarrow> string \<Rightarrow> time \<Rightarrow> world \<Rightarrow> (int64 \<rightharpoonup> Control) option \<times> world" where
  "querySchedule E site now w =
     (case listChannelScheduleControls E of
        None \<Rightarrow> (Some Map.empty, w)
      | Some q \<Rightarrow> (case q (trace w) site now of Inl m \<Rightarrow> Some m | Inr e \<Rightarrow> None,
                   emit (ListChannelScheduleControls site now) w))"

text \<open>The jobs of one model group: its baselines, then one job per row.\<close>

definition groupJobs ::
    "string \<Rightarrow> PolicyRecord \<Rightarrow> time \<Rightarrow> ChannelMetric list \<Rightarrow> (int64 \<rightharpoonup> ProbeSpeedStats) \<Rightarrow> rates
     \<Rightarrow> (int64 \<rightharpoonup> ContinuousState) \<Rightarrow> (int64 \<rightharpoonup> RecentChannelBucket list) option \<Rightarrow> (int64 \<rightharpoonup> Control)
     \<Rightarrow> nat \<Rightarrow> int64 \<Rightarrow> ChannelBaseValue list \<Rightarrow> string \<Rightarrow> job list" where
  "groupJobs site pr now metrics speeds rt states buckets schedules snapshot par values model =
     (let p = pol_Continuous (pr_Policy pr);
          rows = filter (\<lambda>v. b_ModelName v = model) values;
          mode = (if modeOf (pr_Policy pr) model = [] then ''off'' else modeOf (pr_Policy pr) model);
          metricByID = indexBy m_ChannelID metrics;
          baselineRows = filter (\<lambda>r. \<not> s_CircuitDisabled (stateAt states (b_ChannelID r)) \<and>
                                    s_PausedReason (stateAt states (b_ChannelID r)) \<noteq> ManualDisabled) rows;
          bh = buildContinuousBaseline baselineRows metricByID (p_MinSamples p) (Some p);
          pb = probeSpeedBaseline rows speeds states (p_MinSamples p) now (Some p)
      in map (\<lambda>base. \<lparr>
           j_site = site, j_pr = pr, j_base = base, j_rows = rows, j_model = model, j_mode = mode, j_now = now,
           j_metricsEmpty = (metrics = []), j_metricByID = metricByID,
           j_currentMetricByID = indexBy m_ChannelID (rt_metrics rt), j_stateByID = states, j_probeSpeeds = speeds,
           j_scheduleControls = schedules, j_recentBuckets = buckets, j_baseline = fst bh, j_healthy = snd bh,
           j_probeBaseline = pb, j_ratesAreWindowTotals = rt_windowTotals rt,
           j_ratesUnavailable = rt_unavailable rt, j_hasRateSnapshot = rt_hasSnapshot rt, j_ratesAsOf = rt_asOf rt,
           j_snapshotVersion = snapshot, j_parallelism = par\<rparr>) rows)"

text \<open>The queries of an evaluation in their order; every failure of a required one ends it.\<close>

definition planJobs ::
    "env \<Rightarrow> (string list \<Rightarrow> string list) \<Rightarrow> string \<Rightarrow> PolicyRecord \<Rightarrow> time \<Rightarrow> int64 \<Rightarrow> world \<Rightarrow> job list \<times> world" where
  "planJobs E ord site pr now par w0 =
     (if \<not> anyActive (pr_Policy pr) then ([], w0)
      else case listChannelBaseValues E (trace w0) site of
        Inr e \<Rightarrow> ([], emit (ListChannelBaseValues site) w0)
      | Inl all \<Rightarrow>
        let w1 = emit (ListChannelBaseValues site) w0;
            values = filter (\<lambda>v. activeModel (pr_Policy pr) (b_ModelName v)) all;
            p = pol_Continuous (pr_Policy pr);
            metricsEnd = timeTruncate now Minute;
            since = metricsEnd - p_WindowMinutes p * Minute
        in if values = [] then ([], w1)
           else case queryMetrics E (trace w1) site since metricsEnd of
             Inr e \<Rightarrow> ([], emit (QueryMetrics site since metricsEnd) w1)
           | Inl metrics \<Rightarrow>
             let w2 = emit (QueryMetrics site since metricsEnd) w1;
                 (speeds, w3) = queryProbeSpeeds E site p metricsEnd w2;
                 (rt, w4) = queryRates E site now metrics w3;
                 snapshot = version w4
             in (case listContinuousStates E (trace w4) site of
                   Inr e \<Rightarrow> ([], emit (ListContinuousStates site) w4)
                 | Inl states \<Rightarrow>
                   let w5 = emit (ListContinuousStates site) w4;
                       (buckets, w6) = queryBuckets E site p now w5
                   in (case querySchedule E site now w6 of
                         (None, w7) \<Rightarrow> ([], w7)
                       | (Some schedules, w7) \<Rightarrow>
                           (concat (map (groupJobs site pr now metrics speeds rt (indexBy s_ChannelID states) buckets
                                           schedules snapshot par values)
                                     (ord (remdups (map b_ModelName values)))), w7))))"

section \<open>Running the jobs\<close>

text \<open>One worker runs the jobs in order and starts none after the context is cancelled.\<close>

fun runChannels :: "env \<Rightarrow> (world \<Rightarrow> world) list \<Rightarrow> world \<Rightarrow> world" where
  "runChannels E [] w = w"
| "runChannels E (job # jobs) w = (if ctxErr E (trace w) then w else runChannels E jobs (job w))"

definition evaluateContinuous ::
    "env \<Rightarrow> (string list \<Rightarrow> string list) \<Rightarrow> string \<Rightarrow> PolicyRecord \<Rightarrow> time \<Rightarrow> int64 \<Rightarrow> world \<Rightarrow> (int64 \<times> int64) \<times> world" where
  "evaluateContinuous E ord site pr now par w =
     (case planJobs E ord site pr now par (w\<lparr>writes := 0, evaluated := 0, preserved := 0\<rparr>) of (jobs, w1) \<Rightarrow>
        let w2 = runChannels E (map (evaluateChannel E) jobs) w1 in ((writes w2, evaluated w2), w2))"

definition evaluateSite :: "env \<Rightarrow> (string list \<Rightarrow> string list) \<Rightarrow> string \<Rightarrow> time \<Rightarrow> int64 \<Rightarrow> world \<Rightarrow> world" where
  "evaluateSite E ord site now par w =
     (let w1 = emit (GetPolicy site) w
      in case getPolicy E (trace w) site of
           Inr e \<Rightarrow> w1
         | Inl found \<Rightarrow>
             let p = (case found of Some p \<Rightarrow> p
                      | None \<Rightarrow> \<lparr>pr_InstanceID = site, pr_Policy = DefaultPolicy, pr_Mode = ''observe'',
                                 pr_UpdatedBy = [], pr_UpdatedAt = 0\<rparr>)
             in (case runAutoSentinel E p now w1 of (p1, w2) \<Rightarrow> snd (evaluateContinuous E ord site p1 now par w2)))"

definition Tick :: "env \<Rightarrow> (string list \<Rightarrow> string list) \<Rightarrow> time \<Rightarrow> world \<Rightarrow> world" where
  "Tick E ord now w =
     (let w1 = emit ListEnabledSites w
      in case listEnabledSites E (trace w) of
           Inr e \<Rightarrow> w1
         | Inl ids \<Rightarrow> foldl (\<lambda>w site. evaluateSite E ord site now 0 w) w1 ids)"

section \<open>Lemmas\<close>

context call_filter
begin

lemma runAutoSentinel_emits: "emits P w (snd (runAutoSentinel E p now w))"
  by (auto simp: runAutoSentinel_def Let_def split: option.split sum.split intro!: emits_emit_right)

lemma query_emits:
  "emits P w (snd (queryProbeSpeeds E site p t w))" "emits P w (snd (queryRates E site t ms w))"
  "emits P w (snd (queryBuckets E site p t w))" "emits P w (snd (querySchedule E site t w))"
  by (auto simp: queryProbeSpeeds_def queryRates_def queryBuckets_def querySchedule_def Let_def emits_emit
      split: option.split sum.split prod.split)

lemma query_emits':
  "queryProbeSpeeds E site p t w = (a, w') \<Longrightarrow> emits P w w'" "queryRates E site t ms w = (b, w') \<Longrightarrow> emits P w w'"
  "queryBuckets E site p t w = (c, w') \<Longrightarrow> emits P w w'" "querySchedule E site t w = (d, w') \<Longrightarrow> emits P w w'"
  using query_emits by (metis snd_conv)+

lemma planJobs_emits: "emits P w (snd (planJobs E ord site pr now par w))"
  unfolding planJobs_def Let_def
  by (auto split: sum.split option.split prod.split intro!: emits_emit_right
      elim!: query_emits'[THEN emits_trans[rotated]])

end

text \<open>What every planned job has in common.\<close>

lemma groupJobs_job:
  assumes "j \<in> set (groupJobs site pr now metrics speeds rt states buckets ctls snapshot par values model)"
  shows "j_site j = site" "j_pr j = pr" "j_mode j = (if modeOf (pr_Policy pr) model = [] then ''off'' else modeOf (pr_Policy pr) model)"
    "j_snapshotVersion j = snapshot" "j_stateByID j = states" "j_recentBuckets j = buckets" "j_base j \<in> set values"
  using assms by (auto simp: groupJobs_def Let_def)

lemma planJobs_job:
  assumes "planJobs E ord site pr now par w = (jobs, w')" "j \<in> set jobs"
  shows "j_site j = site" "j_pr j = pr" "j_snapshotVersion j = version w"
    "\<exists>model. j_mode j = (if modeOf (pr_Policy pr) model = [] then ''off'' else modeOf (pr_Policy pr) model)"
    "\<exists>states h. listContinuousStates E h site = Inl states \<and> j_stateByID j = indexBy s_ChannelID states"
    "\<exists>u. j_recentBuckets j = fst (queryBuckets E site (pol_Continuous (pr_Policy pr)) now u)"
proof -
  have "\<exists>metrics speeds rt states buckets ctls model values h u.
      j \<in> set (groupJobs site pr now metrics speeds rt (indexBy s_ChannelID states) buckets ctls (version w) par values model) \<and>
      listContinuousStates E h site = Inl states \<and>
      buckets = fst (queryBuckets E site (pol_Continuous (pr_Policy pr)) now u)"
  proof -
    have v: "queryProbeSpeeds E site p t x = (a, y) \<Longrightarrow> version y = version x"
      "queryRates E site t ms x = (b, y) \<Longrightarrow> version y = version x" for p t x y a ms b
      using no_control.query_emits' by (auto simp: emits_def)
    show ?thesis
      using assms unfolding planJobs_def Let_def
      by (auto split: if_splits sum.splits prod.splits option.splits dest!: v)
        (metis fst_conv)+
  qed
  then obtain metrics speeds rt states buckets ctls model vs h u where
    g: "j \<in> set (groupJobs site pr now metrics speeds rt (indexBy s_ChannelID states) buckets ctls (version w) par vs model)"
    and l: "listContinuousStates E h site = Inl states"
    and b: "buckets = fst (queryBuckets E site (pol_Continuous (pr_Policy pr)) now u)" by blast
  note f = groupJobs_job[OF g]
  show "j_site j = site" "j_pr j = pr" "j_snapshotVersion j = version w" using f by simp_all
  show "\<exists>model. j_mode j = (if modeOf (pr_Policy pr) model = [] then ''off'' else modeOf (pr_Policy pr) model)"
    using f(3) by blast
  show "\<exists>states h. listContinuousStates E h site = Inl states \<and> j_stateByID j = indexBy s_ChannelID states"
    using f(5) l by blast
  show "\<exists>u. j_recentBuckets j = fst (queryBuckets E site (pol_Continuous (pr_Policy pr)) now u)"
    using f(6) b by blast
qed

lemma modeOf_auto: "modeOf p model = ''auto'' \<Longrightarrow> hasAutoMode p"
  by (auto simp: modeOf_def hasAutoMode_def strAt_def split: option.splits dest!: map_of_SomeD intro!: bexI[rotated])

lemma planned_mode:
  assumes "planJobs E ord site pr now par w = (jobs, w')" "j \<in> set jobs" "\<not> hasAutoMode (pr_Policy pr)"
  shows "j_mode j \<noteq> ''auto''"
  using planJobs_job(4)[OF assms(1,2)] assms(3) modeOf_auto by (auto split: if_splits)

lemma runChannels_controls:
  assumes "\<And>f u. f \<in> set jobs \<Longrightarrow> controls (f u) = controls u"
  shows "controls (runChannels E jobs w) = controls w"
  using assms by (induction jobs arbitrary: w) auto

lemma runChannels_count:
  assumes "\<And>f u. f \<in> set jobs \<Longrightarrow> length (controls (f u)) \<le> length (controls u) + 1"
  shows "length (controls (runChannels E jobs w)) \<le> length (controls w) + length jobs"
  using assms
proof (induction jobs arbitrary: w)
  case (Cons f fs)
  have "length (controls (runChannels E fs (f w))) \<le> length (controls (f w)) + length fs"
    using Cons by auto
  moreover have "length (controls (f w)) \<le> length (controls w) + 1" using Cons.prems by simp
  ultimately show ?case by simp
qed simp

lemma runChannels_adds:
  assumes "\<And>f u. f \<in> set jobs \<Longrightarrow> adds P u (f u)"
  shows "adds P w (runChannels E jobs w)"
  using assms
proof (induction jobs arbitrary: w)
  case (Cons f fs)
  have "adds P (f w) (runChannels E fs (f w))" using Cons by auto
  then show ?case using Cons.prems adds_trans[of P w "f w"] by (auto simp: adds_def)
qed (simp add: adds_def)

lemma planJobs_controls: "planJobs E ord site pr now par w = (jobs, w') \<Longrightarrow> controls w' = controls w"
  using emits_no_control[OF no_control.planJobs_emits[of w E ord site pr now par]] by simp

lemma evaluateContinuous_no_auto:
  assumes "\<not> hasAutoMode (pr_Policy pr)"
  shows "controls (snd (evaluateContinuous E ord site pr now par w)) = controls w"
proof -
  let ?w = "w\<lparr>writes := 0, evaluated := 0, preserved := 0\<rparr>"
  obtain jobs w1 where p: "planJobs E ord site pr now par ?w = (jobs, w1)" by (metis prod.exhaust)
  have "controls (evaluateChannel E j u) = controls u" if "j \<in> set jobs" for j u
    using planned_mode[OF p that assms]
    by (intro evaluateChannel_controls emits_no_control[OF no_control_puts.evaluateBody_emits_manual])
  then have "controls (runChannels E (map (evaluateChannel E) jobs) w1) = controls w1"
    by (intro runChannels_controls) auto
  then show ?thesis
    using planJobs_controls[OF p] by (simp add: evaluateContinuous_def p Let_def controls_counters)
qed

lemma pauseAutoModes_no_auto: "\<not> hasAutoMode (pauseAutoModes p)"
  by (auto simp: hasAutoMode_def pauseAutoModes_def split: if_splits)

section \<open>Properties\<close>



text \<open>a site evaluation sends at most one command per planned channel job, and none when no model of
  the policy is in auto mode.\<close>

theorem site_commands_bounded:
  assumes "wfParams (pol_Continuous (pr_Policy pr))"
    and "planJobs E ord site pr now par (w\<lparr>writes := 0, evaluated := 0, preserved := 0\<rparr>) = (jobs, w1)"
  shows "(length (controls (snd (evaluateContinuous E ord site pr now par w))) \<le> length (controls w) + length jobs) \<and>
    (\<not> hasAutoMode (pr_Policy pr) \<longrightarrow> controls (snd (evaluateContinuous E ord site pr now par w)) = controls w)"
proof -
  have "length (controls (evaluateChannel E j u)) \<le> length (controls u) + 1" if "j \<in> set jobs" for j u
    using evaluateChannel_one[of j E u] planJobs_job(2)[OF assms(2) that] assms(1)
    by (simp add: controlCount_def jobParams_def)
  then have "length (controls (runChannels E (map (evaluateChannel E) jobs) w1)) \<le> length (controls w1) + length jobs"
    using runChannels_count[of "map (evaluateChannel E) jobs" E w1] by auto
  then have "length (controls (snd (evaluateContinuous E ord site pr now par w))) \<le> length (controls w) + length jobs"
    using planJobs_controls[OF assms(2)] by (simp add: evaluateContinuous_def assms(2) Let_def controls_counters)
  then show ?thesis using evaluateContinuous_no_auto by blast
qed

theorem site_commands_bounded_witness:
  "controls (snd (evaluateContinuous exampleEnv id ''site'' examplePolicyRecord (70000000000 * Second) 1 exampleWorld)) = []"
proof -
  have m: "pol_DispatchModes (pr_Policy examplePolicyRecord) = []" "pol_Continuous (pr_Policy examplePolicyRecord) = DefaultContinuous"
    by (simp_all add: examplePolicyRecord_def DefaultPolicy_def)
  have "planJobs exampleEnv id ''site'' examplePolicyRecord (70000000000 * Second) 1
      (exampleWorld\<lparr>writes := 0, evaluated := 0, preserved := 0\<rparr>) =
    ([], exampleWorld\<lparr>writes := 0, evaluated := 0, preserved := 0\<rparr>)"
    by (simp add: planJobs_def anyActive_def m)
  from site_commands_bounded[OF _ this] wfParams_DefaultContinuous m(2) show ?thesis
    by (simp add: controls_def)
qed

end
