(* ===== verification/FastCircuit.thy ===== *)
theory FastCircuit
  imports Site
begin

text \<open>
  The fast circuit (\<open>server/internal/tuning/fast_circuit.go\<close>): one Agent report with enough requests
  and errors opens a channel's circuit without waiting for settled minute buckets.  The store is taken
  to implement the interface \<open>fastCircuitStore\<close>, as the production store does.
\<close>

section \<open>Model\<close>

record FastCircuitMetric =
  fm_ChannelID :: int64
  fm_RequestCount :: int64
  fm_ErrorCount :: int64
  fm_UserErrorCount :: int64

record FastCircuitBatch =
  fb_InstanceID :: string
  fb_AgentID :: string
  fb_BatchID :: string
  fb_ReportedAt :: time
  fb_Metrics :: "FastCircuitMetric list"

text \<open>\<open>SubmitFastCircuitBatch\<close>: a full queue (256 entries) drops the batch, the report itself never
  blocks.\<close>

definition SubmitFastCircuitBatch :: "FastCircuitBatch list \<Rightarrow> FastCircuitBatch \<Rightarrow> bool \<times> FastCircuitBatch list" where
  "SubmitFastCircuitBatch queue batch = (if length queue < 256 then (True, queue @ [batch]) else (False, queue))"

definition fastErrors :: "FastCircuitMetric \<Rightarrow> int64" where
  "fastErrors m = max (fm_ErrorCount m - fm_UserErrorCount m) 0"

definition fastRate :: "FastCircuitMetric \<Rightarrow> float64" where
  "fastRate m = of_int (fastErrors m) / of_int (fm_RequestCount m)"

definition reportTooOld :: "ContinuousRules \<Rightarrow> FastCircuitBatch \<Rightarrow> time \<Rightarrow> bool" where
  "reportTooOld rules batch now \<longleftrightarrow>
     timeSub now (fb_ReportedAt batch) > r_FastReportMaxAgeSeconds rules * Second"

definition fastEvidence :: "ContinuousDispatchParams \<Rightarrow> FastCircuitMetric \<Rightarrow> bool" where
  "fastEvidence p m \<longleftrightarrow> \<not> (fm_RequestCount m < p_FastCircuitMinSamples p \<or> fastRate m < p_FastCircuitErrorRate p)"

definition fastEligible :: "Policy \<Rightarrow> ChannelBaseValue \<Rightarrow> bool" where
  "fastEligible pol base \<longleftrightarrow> \<not> (b_BaseWeight base \<le> 0 \<or> length (b_Models base) > 1 \<or> modeOf pol (b_ModelName base) \<noteq> ''auto'')"

fun findState :: "int64 \<Rightarrow> ContinuousState list \<Rightarrow> ContinuousState" where
  "findState ch [] = zeroContinuousState"
| "findState ch (s # ss) = (if s_ChannelID s = ch then s else findState ch ss)"

definition fastOpen ::
    "string \<Rightarrow> PolicyRecord \<Rightarrow> ChannelBaseValue \<Rightarrow> time \<Rightarrow> ContinuousState \<Rightarrow> ContinuousState" where
  "fastOpen site pr base now s =
     (let p = pol_Continuous (pr_Policy pr)
      in clearProbes (s\<lparr>
           s_InstanceID := site, s_ChannelID := b_ChannelID base, s_ModelName := b_ModelName base,
           s_Evaluation := Some \<lparr>ev_PerformanceEvaluated = False, ev_BaseWeight = b_BaseWeight base,
             ev_BaseUpdatedAt = b_UpdatedAt base, ev_PolicyUpdatedAt = pr_UpdatedAt pr, ev_EvaluatedAt = now, ev_Params = p\<rparr>,
           s_Phase := ''circuit'', s_Multiplier := 0, s_ProposedWeight := 0,
           s_CircuitOpenedAt := Some now, s_NextProbeAt := Some (silentUntil p now),
           s_OriginalPriority := Some (b_BasePriority base), s_ProbeCommandID := None, s_SoftStartPending := False\<rparr>))"

definition fastRecord ::
    "env \<Rightarrow> string \<Rightarrow> PolicyRecord \<Rightarrow> ChannelBaseValue \<Rightarrow> FastCircuitBatch \<Rightarrow> FastCircuitMetric \<Rightarrow> time \<Rightarrow> ContinuousState
     \<Rightarrow> Recommendation" where
  "fastRecord E site pr base batch m now s =
     (let p = pol_Continuous (pr_Policy pr);
          r = (continuousEvent E site base s ''circuit_opened'' ''auto'' now)\<lparr>rec_ProposedPriority := None\<rparr>
      in foldl (\<lambda>r (k, v). addEvidence k v r) r
           [(''trigger'', EvStr ''agent_report_batch''), (''request_count'', EvInt (fm_RequestCount m)),
            (''channel_error_count'', EvInt (fastErrors m)), (''error_rate'', EvFloat (fastRate m)),
            (''threshold'', EvFloat (p_FastCircuitErrorRate p)), (''min_samples'', EvInt (p_FastCircuitMinSamples p)),
            (''agent_id'', EvStr (fb_AgentID batch)), (''metric_batch_id'', EvStr (fb_BatchID batch))])"

text \<open>A write that failed leaves the channel in normal operation.\<close>

definition fastOutcome ::
    "env \<Rightarrow> string \<Rightarrow> ChannelBaseValue \<Rightarrow> time \<Rightarrow> goerr option \<Rightarrow> ContinuousState \<Rightarrow> world \<Rightarrow> ContinuousState \<times> world" where
  "fastOutcome E site base now err s w =
     (case err of
        None \<Rightarrow> (s, w)
      | Some e \<Rightarrow> noteWriteFailure E site base ''auto'' e now
          (s\<lparr>s_Phase := ''normal'', s_CircuitOpenedAt := None, s_NextProbeAt := None, s_OriginalPriority := None\<rparr>) w)"

definition fastPersist :: "env \<Rightarrow> string \<Rightarrow> time \<Rightarrow> ContinuousState \<Rightarrow> world \<Rightarrow> world" where
  "fastPersist E site now s0 w =
     (let s = s0\<lparr>s_UpdatedAt := now\<rparr>; w1 = emit (PutContinuousState s) w
      in if putState E (trace w) s = None then emit (Notify site) w1 else w1)"

definition fastDecide ::
    "env \<Rightarrow> string \<Rightarrow> PolicyRecord \<Rightarrow> FastCircuitBatch \<Rightarrow> time \<Rightarrow> ChannelBaseValue \<Rightarrow> FastCircuitMetric \<Rightarrow> ContinuousState
     \<Rightarrow> world \<Rightarrow> world" where
  "fastDecide E site pr batch now base m s w =
     (let s2 = fastOpen site pr base now s
      in case createTrackedWeightChange E (fastRecord E site pr base batch m now s2) base now s2 w of ((cmd, err), s3, w2) \<Rightarrow>
           (case fastOutcome E site base now err s3 w2 of (s4, w3) \<Rightarrow>
              bumpGuard site (fm_ChannelID m) (fastPersist E site now s4 w3)))"

text \<open>The job of one metric, under the channel's guard: freshness is checked again, the latest state is
  read, and the guard's version moves once the decision is taken.\<close>

definition fastUnderGuard ::
    "env \<Rightarrow> string \<Rightarrow> PolicyRecord \<Rightarrow> FastCircuitBatch \<Rightarrow> time \<Rightarrow> ChannelBaseValue \<Rightarrow> FastCircuitMetric \<Rightarrow> world \<Rightarrow> world" where
  "fastUnderGuard E site pr batch now base m w =
     (if reportTooOld (Rules (pol_Continuous (pr_Policy pr))) batch now then w
      else let w1 = emit (ListContinuousStates site) w in
        (case listContinuousStates E (trace w) site of
           Inr e \<Rightarrow> w1
         | Inl states \<Rightarrow>
             let s0 = findState (fm_ChannelID m) states;
                 s1 = (if s_Phase s0 = [] then s0\<lparr>s_Phase := ''normal''\<rparr> else s0)
             in if s_PausedReason s1 = ManualDisabled \<or> s_Phase s1 \<noteq> ''normal'' \<or> \<not> writeAttemptAllowed s1 now then w1
                else fastDecide E site pr batch now base m s1 w1))"

definition fastJob ::
    "env \<Rightarrow> string \<Rightarrow> PolicyRecord \<Rightarrow> FastCircuitBatch \<Rightarrow> time \<Rightarrow> int64 \<Rightarrow> ChannelBaseValue \<Rightarrow> FastCircuitMetric
     \<Rightarrow> world \<Rightarrow> world" where
  "fastJob E site pr batch now par base m w =
     (if ctxErr E (trace w) then w
      else if par > 1 then fastUnderGuard E site pr batch (clock E (trace w)) base m (emit Now w)
      else fastUnderGuard E site pr batch now base m w)"

definition fastJobs ::
    "env \<Rightarrow> string \<Rightarrow> PolicyRecord \<Rightarrow> FastCircuitBatch \<Rightarrow> time \<Rightarrow> int64 \<Rightarrow> (int64 \<rightharpoonup> ChannelBaseValue) \<Rightarrow> (world \<Rightarrow> world) list" where
  "fastJobs E site pr batch now par bases =
     concat (map (\<lambda>m.
       if \<not> fastEvidence (pol_Continuous (pr_Policy pr)) m then []
       else case bases (fm_ChannelID m) of
              None \<Rightarrow> []
            | Some base \<Rightarrow> if fastEligible (pr_Policy pr) base then [fastJob E site pr batch now par base m] else [])
       (fb_Metrics batch))"

definition evaluateFastCircuit :: "env \<Rightarrow> FastCircuitBatch \<Rightarrow> time \<Rightarrow> int64 \<Rightarrow> world \<Rightarrow> world" where
  "evaluateFastCircuit E batch now par w =
     (if fb_InstanceID batch = [] \<or> fb_ReportedAt batch = 0 then w
      else let w1 = emit (SiteIDForInstance (fb_InstanceID batch)) w in
        (case siteIDForInstance E (trace w) (fb_InstanceID batch) of
           Inr e \<Rightarrow> w1
         | Inl site \<Rightarrow>
             let w2 = emit (GetPolicy site) w1 in
             (case getPolicy E (trace w1) site of
                Inl (Some pr) \<Rightarrow>
                  let p = pol_Continuous (pr_Policy pr); rules = Rules p
                  in if \<not> p_FastCircuitEnabled p then w2
                     else if reportTooOld rules batch now \<or>
                             fb_ReportedAt batch > now + r_FastReportFutureSeconds rules * Second then w2
                     else let w3 = emit (ListChannelBaseValues site) w2 in
                       (case listChannelBaseValues E (trace w2) site of
                          Inr e \<Rightarrow> w3
                        | Inl bases \<Rightarrow> runChannels E (fastJobs E site pr batch now par (indexBy b_ChannelID bases)) w3)
              | _ \<Rightarrow> w2)))"

section \<open>Lemmas\<close>

text \<open>What a fast decision may send and persist.\<close>

definition fastDecision :: "FastCircuitBatch \<Rightarrow> ContinuousDispatchParams \<Rightarrow> Recommendation \<Rightarrow> bool" where
  "fastDecision batch p r \<longleftrightarrow> rec_Rule r = ''circuit_opened'' \<and> rec_ProposedWeight r = 0 \<and>
     (\<exists>m \<in> set (fb_Metrics batch). fastEvidence p m)"

fun fastCall :: "FastCircuitBatch \<Rightarrow> ContinuousDispatchParams \<Rightarrow> call \<Rightarrow> bool" where
  "fastCall batch p (PutContinuousState s) \<longleftrightarrow> wfStored s"
| "fastCall batch p (CreateContinuousWeightChange r _ _) \<longleftrightarrow> fastDecision batch p r"
| "fastCall batch p (CreateContinuousProbe _ _ _ _ _) \<longleftrightarrow> False"
| "fastCall batch p _ \<longleftrightarrow> True"

interpretation fast: call_filter "fastCall batch p" for batch p
proof
  fix c assume "isQuiet c"
  then show "fastCall batch p c" by (cases c) auto
qed

lemma fastRecord_simps [simp]:
  "rec_Rule (fastRecord E site pr base batch m now s) = ''circuit_opened''"
  "rec_ProposedWeight (fastRecord E site pr base batch m now s) = s_ProposedWeight s"
  by (simp_all add: fastRecord_def Let_def addEvidence_def continuousEvent_def)

text \<open>The states of the site satisfy the stored form of the invariant.\<close>

definition storedOk :: "env \<Rightarrow> bool" where
  "storedOk E \<longleftrightarrow> (\<forall>h site states. listContinuousStates E h site = Inl states \<longrightarrow> (\<forall>s \<in> set states. wfStored s))"

lemma findState_ok: "\<forall>s \<in> set ss. wfStored s \<Longrightarrow> wfStored (findState ch ss)"
  by (induction ss) (auto simp: wfStored_zero)

lemma fastOpen_ok: "wfStored s \<Longrightarrow> wfStored (fastOpen site pr base now s)"
  by (simp add: wfStored_def wfCore_def okPhase_def fastOpen_def clearProbes_def Let_def)

lemma fastOpen_fields [simp]:
  "s_Phase (fastOpen site pr base now s) = ''circuit''" "s_ProposedWeight (fastOpen site pr base now s) = 0"
  by (simp_all add: fastOpen_def clearProbes_def Let_def)

text \<open>After a failed write the channel is normal again.\<close>

lemma stored_revert:
  assumes "wfStored s" "s_Phase s = ''circuit''"
  shows "wfStored (s\<lparr>s_Phase := ''normal'', s_CircuitOpenedAt := None, s_NextProbeAt := None, s_OriginalPriority := None\<rparr>)"
  using stored.to_normal[OF assms]
  by (subst stored.cong[of "s\<lparr>s_Phase := ''normal'', s_NextProbeAt := None\<rparr>"]) (simp_all add: sameFields_def)

lemma fastOutcome_ok:
  assumes "wfStored s" "\<forall>e. err = Some e \<longrightarrow> s_Phase s = ''circuit''" "fastOutcome E site base now err s w = (s', w')"
  shows "wfStored s'" "adds (fastCall batch p) w w'"
proof -
  have "wfStored s' \<and> adds (fastCall batch p) w w'"
  proof (cases err)
    case None
    then show ?thesis using assms by (simp add: fastOutcome_def adds_def)
  next
    case (Some e)
    let ?s = "s\<lparr>s_Phase := ''normal'', s_CircuitOpenedAt := None, s_NextProbeAt := None, s_OriginalPriority := None\<rparr>"
    have eq: "noteWriteFailure E site base ''auto'' e now ?s w = (s', w')" using Some assms(3) by (simp add: fastOutcome_def)
    have "wfStored ?s" using stored_revert assms(1,2) Some by blast
    then show ?thesis
      using stored.inv_noteWriteFailure[of ?s E site base "''auto''" e now w]
        fast.noteWriteFailure_emits[THEN emits_adds, of batch p w E site base "''auto''" e now ?s] eq by simp
  qed
  then show "wfStored s'" "adds (fastCall batch p) w w'" by simp_all
qed

lemma fastPersist_adds: "adds (fastCall batch p) u w \<Longrightarrow> wfStored s \<Longrightarrow> adds (fastCall batch p) u (fastPersist E site now s w)"
  by (simp add: fastPersist_def Let_def adds_emit)

lemma createTracked_error_phase:
  assumes "createTrackedWeightChange E r b now s w = ((cmd, err), s', w')" "s_Phase s = ''circuit''"
  shows "\<forall>e. err = Some e \<longrightarrow> s_Phase s' = ''circuit''"
  using createTracked_error_frame(1)[of E r b now s w cmd _ s' w'] assms by auto

lemma fastDecide_adds:
  assumes "fastEvidence p m" "m \<in> set (fb_Metrics batch)" "wfStored s"
  shows "adds (fastCall batch p) w (fastDecide E site pr batch now base m s w)"
proof -
  let ?s = "fastOpen site pr base now s"
  let ?r = "fastRecord E site pr base batch m now ?s"
  obtain cmd err s3 w2 where c: "createTrackedWeightChange E ?r base now ?s w = ((cmd, err), s3, w2)"
    by (metis prod.exhaust)
  obtain s4 w3 where o: "fastOutcome E site base now err s3 w2 = (s4, w3)" by (metis prod.exhaust)
  have ok: "wfStored ?s" using assms(3) by (rule fastOpen_ok)
  have "emits (fastCall batch p) w (snd (snd (createTrackedWeightChange E ?r base now ?s w)))"
    using ok assms(1,2) by (intro fast.createTracked_emits) (auto simp: fastDecision_def)
  then have w2: "adds (fastCall batch p) w w2" using c by (simp add: emits_def)
  have "wfStored s3" using stored.inv_createTracked[OF ok, of E ?r base now w] c by simp
  note f = fastOutcome_ok[OF this createTracked_error_phase[OF c fastOpen_fields(1)] o]
  show ?thesis
    using fastPersist_adds[OF adds_trans[OF w2 f(2)] f(1)] by (simp add: fastDecide_def Let_def c o)
qed

lemma wfStored_named:
  "wfStored s \<Longrightarrow> wfStored (if s_Phase s = [] then s\<lparr>s_Phase := ''normal''\<rparr> else s)"
  by (auto simp: wfStored_def wfCore_def okPhase_def)

lemma fastUnderGuard_adds:
  assumes "storedOk E" "fastEvidence (pol_Continuous (pr_Policy pr)) m" "m \<in> set (fb_Metrics batch)"
  shows "adds (fastCall batch (pol_Continuous (pr_Policy pr))) w (fastUnderGuard E site pr batch now base m w)"
proof (cases "listContinuousStates E (trace w) site")
  case (Inl ss)
  let ?P = "fastCall batch (pol_Continuous (pr_Policy pr))"
  let ?s0 = "findState (fm_ChannelID m) ss"
  define s where "s = (if s_Phase ?s0 = [] then ?s0\<lparr>s_Phase := ''normal''\<rparr> else ?s0)"
  let ?w = "emit (ListContinuousStates site) w"
  have "wfStored s" unfolding s_def using assms(1) Inl by (intro wfStored_named findState_ok) (auto simp: storedOk_def)
  then have "adds ?P ?w (fastDecide E site pr batch now base m s ?w)" by (rule fastDecide_adds[OF assms(2,3)])
  moreover have w: "adds ?P w ?w" "adds ?P w w" by (simp_all add: adds_def)
  ultimately have "adds ?P w (fastDecide E site pr batch now base m s ?w)" using adds_trans by blast
  then show ?thesis
    unfolding fastUnderGuard_def Let_def Inl sum.case s_def[symmetric] using w by simp
qed (simp add: fastUnderGuard_def adds_def)

lemma fastJob_adds:
  assumes "storedOk E" "fastEvidence (pol_Continuous (pr_Policy pr)) m" "m \<in> set (fb_Metrics batch)"
  shows "adds (fastCall batch (pol_Continuous (pr_Policy pr))) w (fastJob E site pr batch now par base m w)"
proof -
  let ?P = "fastCall batch (pol_Continuous (pr_Policy pr))"
  have "adds ?P w (emit Now w)" by (simp add: adds_def)
  then show ?thesis
    using fastUnderGuard_adds[OF assms] adds_trans by (auto simp: fastJob_def adds_def[of _ w w])
qed

text \<open>The policy a batch is judged by: the one the store returns for the site of its instance.\<close>

definition batchPolicy :: "env \<Rightarrow> FastCircuitBatch \<Rightarrow> world \<Rightarrow> PolicyRecord option" where
  "batchPolicy E batch w =
     (case siteIDForInstance E (trace w) (fb_InstanceID batch) of
        Inr e \<Rightarrow> None
      | Inl site \<Rightarrow> (case getPolicy E (SiteIDForInstance (fb_InstanceID batch) # trace w) site of Inl r \<Rightarrow> r | Inr e \<Rightarrow> None))"

lemma fastJobs_adds:
  assumes "storedOk E" "f \<in> set (fastJobs E site pr batch now par bases)"
  shows "adds (fastCall batch (pol_Continuous (pr_Policy pr))) w (f w)"
proof -
  obtain m base where "m \<in> set (fb_Metrics batch)" "fastEvidence (pol_Continuous (pr_Policy pr)) m"
    "f = fastJob E site pr batch now par base m"
    using assms(2) by (auto simp: fastJobs_def split: if_splits option.splits)
  then show ?thesis using fastJob_adds[OF assms(1)] by simp
qed

lemma evaluateFastCircuit_adds:
  assumes "storedOk E" "batchPolicy E batch w = Some pr"
  shows "adds (fastCall batch (pol_Continuous (pr_Policy pr))) w (evaluateFastCircuit E batch now par w)"
proof -
  let ?P = "fastCall batch (pol_Continuous (pr_Policy pr))"
  obtain site where site: "siteIDForInstance E (trace w) (fb_InstanceID batch) = Inl site"
    "getPolicy E (SiteIDForInstance (fb_InstanceID batch) # trace w) site = Inl (Some pr)"
    using assms(2) by (auto simp: batchPolicy_def split: sum.splits)
  let ?w3 = "emit (ListChannelBaseValues site) (emit (GetPolicy site) (emit (SiteIDForInstance (fb_InstanceID batch)) w))"
  have base: "adds ?P w w" "adds ?P w ?w3" "adds ?P w (emit (GetPolicy site) (emit (SiteIDForInstance (fb_InstanceID batch)) w))"
    by (simp_all add: adds_def)
  have "adds ?P ?w3 (runChannels E (fastJobs E site pr batch now par bs) ?w3)" for bs
    using fastJobs_adds[OF assms(1)] by (intro runChannels_adds)
  then have "adds ?P w (runChannels E (fastJobs E site pr batch now par bs) ?w3)" for bs
    using base(2) adds_trans by blast
  then show ?thesis
    using base by (simp add: evaluateFastCircuit_def Let_def site split: sum.split)
qed

text \<open>A concrete report: one hundred requests of channel 7, eighty failed.\<close>

definition exampleBatch :: FastCircuitBatch where
  "exampleBatch = \<lparr>fb_InstanceID = ''instance'', fb_AgentID = ''agent'', fb_BatchID = ''batch'',
     fb_ReportedAt = 70000000000000000000,
     fb_Metrics = [\<lparr>fm_ChannelID = 7, fm_RequestCount = 100, fm_ErrorCount = 80, fm_UserErrorCount = 0\<rparr>]\<rparr>"

definition exampleAutoRecord :: PolicyRecord where
  "exampleAutoRecord = examplePolicyRecord\<lparr>pr_Policy := DefaultPolicy\<lparr>pol_DispatchModes := [(''model'', ''auto'')]\<rparr>\<rparr>"

definition exampleFastEnv :: env where
  "exampleFastEnv = exampleEnv\<lparr>getPolicy := (\<lambda>h site. Inl (Some exampleAutoRecord)),
     listChannelBaseValues := (\<lambda>h site. Inl [exampleBase])\<rparr>"

lemma exampleFastEnv_simps [simp]:
  "putState exampleFastEnv h s = None" "ctxErr exampleFastEnv h = False" "listContinuousStates exampleFastEnv h site = Inl []"
  "listChannelBaseValues exampleFastEnv h site = Inl [exampleBase]" "siteIDForInstance exampleFastEnv h i = Inl i"
  "getPolicy exampleFastEnv h site = Inl (Some exampleAutoRecord)"
  by (simp_all add: exampleFastEnv_def exampleEnv_def)

lemma exampleAutoRecord_params [simp]: "pol_Continuous (pr_Policy exampleAutoRecord) = DefaultContinuous"
  by (simp add: exampleAutoRecord_def DefaultPolicy_def)

lemma adds_mem: "adds P u w \<Longrightarrow> c \<in> set (trace u) \<Longrightarrow> c \<in> set (trace w)"
  by (auto simp: adds_def)

lemma createTracked_sends:
  assumes "writeAttemptAllowed s now" "putState E (trace w) (persistedBeforeWrite b now s) = None"
  shows "CreateContinuousWeightChange (trackedRecord r b s) ''system:auto'' now \<in>
    set (trace (snd (snd (createTrackedWeightChange E r b now s w))))"
proof -
  let ?w = "emit (CreateContinuousWeightChange (trackedRecord r b s) ''system:auto'' now)
      (emit (PutContinuousState (persistedBeforeWrite b now s)) w)"
  have "CreateContinuousWeightChange (trackedRecord r b s) ''system:auto'' now \<in> set (trace (snd (afterCommand E r' b now c s' ?w)))" for r' c s'
    using adds_mem[OF emits_adds[OF every_call.afterCommand_emits[of ?w]]] by simp
  then show ?thesis using assms by (simp add: createTracked_eq Let_def split: prod.split option.split)
qed

lemma fastDecide_sends:
  assumes "writeAttemptAllowed (fastOpen site pr base now s) now" "\<And>h x. putState E h x = None"
  shows "\<exists>r. CreateContinuousWeightChange r ''system:auto'' now \<in> set (trace (fastDecide E site pr batch now base m s w))"
proof -
  let ?o = "fastOpen site pr base now s"
  let ?r = "fastRecord E site pr base batch m now ?o"
  obtain cmd err s3 w2 where c: "createTrackedWeightChange E ?r base now ?o w = ((cmd, err), s3, w2)"
    by (metis prod.exhaust)
  have "CreateContinuousWeightChange (trackedRecord ?r base ?o) ''system:auto'' now \<in> set (trace w2)"
    using createTracked_sends[OF assms(1), of E w base ?r] c assms(2) by simp
  moreover obtain s4 w3 where o: "fastOutcome E site base now err s3 w2 = (s4, w3)" by (metis prod.exhaust)
  moreover have "adds (\<lambda>c. True) w2 w3"
    using every_call.noteWriteFailure_emits[THEN emits_adds] o
    by (auto simp: fastOutcome_def adds_def split: option.splits) (metis snd_conv)
  ultimately show ?thesis
    by (auto simp: fastDecide_def Let_def c fastPersist_def bumpGuard_def dest: adds_mem)
qed

text \<open>The report opens the circuit of the channel.\<close>

lemma example_fast_opens:
  "\<exists>r. CreateContinuousWeightChange r ''system:auto'' (70000000000000000000) \<in>
     set (trace (evaluateFastCircuit exampleFastEnv exampleBatch (70000000000000000000) 1 exampleWorld))"
proof -
  let ?E = exampleFastEnv and ?now = "70000000000000000000 :: int"
  let ?m = "\<lparr>fm_ChannelID = 7, fm_RequestCount = 100, fm_ErrorCount = 80, fm_UserErrorCount = 0\<rparr> :: FastCircuitMetric"
  let ?s = "zeroContinuousState\<lparr>s_Phase := ''normal''\<rparr>"
  let ?o = "fastOpen ''instance'' exampleAutoRecord exampleBase ?now ?s"
  have ev: "fastEvidence DefaultContinuous ?m"
    by (simp add: fastEvidence_def fastRate_def fastErrors_def DefaultContinuous_def)
  have el: "fastEligible (pr_Policy exampleAutoRecord) exampleBase"
    by (simp add: fastEligible_def exampleBase_def modeOf_def exampleAutoRecord_def)
  have old: "\<not> reportTooOld (Rules DefaultContinuous) exampleBatch ?now"
    by (simp add: reportTooOld_def exampleBatch_def Rules_Default DefaultContinuousRules_def)
  have future: "\<not> fb_ReportedAt exampleBatch > ?now + r_FastReportFutureSeconds (Rules DefaultContinuous) * Second"
    by (simp add: exampleBatch_def Rules_Default DefaultContinuousRules_def)
  have allowed: "writeAttemptAllowed ?s ?now" "writeAttemptAllowed ?o ?now"
    by (simp_all add: writeAttemptAllowed_def stateRules_def fastOpen_def clearProbes_def zeroContinuousState_def
        Rules_Default DefaultContinuousRules_def Let_def)
  have jobs: "fastJobs ?E ''instance'' exampleAutoRecord exampleBatch ?now 1 (indexBy b_ChannelID [exampleBase]) =
      [fastJob ?E ''instance'' exampleAutoRecord exampleBatch ?now 1 exampleBase ?m]"
    using ev el by (simp add: fastJobs_def indexBy_def exampleBatch_def) (simp add: exampleBase_def)
  have decide: "fastUnderGuard ?E ''instance'' exampleAutoRecord exampleBatch ?now exampleBase ?m u =
      fastDecide ?E ''instance'' exampleAutoRecord exampleBatch ?now exampleBase ?m ?s (emit (ListContinuousStates ''instance'') u)" for u
    using old allowed(1) by (simp add: fastUnderGuard_def Let_def) (simp add: zeroContinuousState_def ManualDisabled_def)
  have sends: "\<exists>r. CreateContinuousWeightChange r ''system:auto'' ?now \<in>
      set (trace (fastDecide ?E ''instance'' exampleAutoRecord exampleBatch ?now exampleBase ?m ?s u))" for u
    using fastDecide_sends[OF allowed(2), of ?E] by simp
  have inst: "fb_InstanceID exampleBatch = ''instance''" "fb_ReportedAt exampleBatch \<noteq> 0"
    by (simp_all add: exampleBatch_def)
  have on: "p_FastCircuitEnabled DefaultContinuous" by (simp add: DefaultContinuous_def)
  show ?thesis
    using sends old future inst on
    by (simp add: evaluateFastCircuit_def Let_def jobs fastJob_def decide)
qed

section \<open>Properties\<close>



text \<open>a report that is malformed, of a site without a policy or with the fast path switched off, too
  old, or from the future changes nothing: no command is sent and no state is persisted.\<close>

definition fastRejected :: "env \<Rightarrow> FastCircuitBatch \<Rightarrow> time \<Rightarrow> world \<Rightarrow> bool" where
  "fastRejected E batch now w \<longleftrightarrow>
     fb_InstanceID batch = [] \<or> fb_ReportedAt batch = 0 \<or>
     (case batchPolicy E batch w of
        None \<Rightarrow> True
      | Some pr \<Rightarrow>
          let p = pol_Continuous (pr_Policy pr)
          in \<not> p_FastCircuitEnabled p \<or>
             timeSub now (fb_ReportedAt batch) > r_FastReportMaxAgeSeconds (Rules p) * Second \<or>
             fb_ReportedAt batch > now + r_FastReportFutureSeconds (Rules p) * Second)"

theorem fast_circuit_rejects:
  assumes "fastRejected E batch now w"
    and "c \<in> set (trace (evaluateFastCircuit E batch now par w))"
  shows "c \<in> set (trace w) \<or> isQuiet c"
  using assms
  by (auto simp: fastRejected_def evaluateFastCircuit_def batchPolicy_def reportTooOld_def Let_def
      split: sum.splits option.splits if_splits)

theorem fast_circuit_rejects_witness:
  "filter (\<lambda>c. \<not> isQuiet c)
     (trace (evaluateFastCircuit exampleFastEnv exampleBatch (71000000000000000000) 1 exampleWorld)) = []"
proof -
  have r: "fastRejected exampleFastEnv exampleBatch (71000000000000000000) exampleWorld"
    by (simp add: fastRejected_def batchPolicy_def Rules_Default DefaultContinuousRules_def exampleBatch_def timeSub_def
        minDuration_def maxDuration_def)
  show ?thesis using fast_circuit_rejects[OF r] by (auto simp: filter_empty_conv)
qed

end
