(* ===== verification/RoutineProbe.thy ===== *)
theory RoutineProbe
  imports Factors "HOL-Library.Word"
begin

unbundle bit_operations_syntax

text \<open>
  Routine probes of a channel (\<open>server/internal/tuning/routine_probe.go\<close>): the fault streak, the
  confirmation of a fault behind pending requests, the start delay, and the loop of one channel's worker
  (\<open>runRoutineChannelRuntime\<close>) as a state machine.  Timers, results of requests and the release of IO slots
  are the events of the machine; the supervisor's callbacks are the list of dispatch reports and the
  parameter \<open>consume\<close>.
\<close>

section \<open>Streaks\<close>

datatype routineOutcome = routineUnknown | routineHealthy | routineError | routineSlow | routineCanceled

record routineStreak =
  st_slow :: int64
  st_errors :: int64
  st_healthy :: int64

definition zeroStreak :: routineStreak where
  "zeroStreak = \<lparr>st_slow = 0, st_errors = 0, st_healthy = 0\<rparr>"

definition tripped :: "ContinuousDispatchParams option \<Rightarrow> routineStreak \<Rightarrow> bool" where
  "tripped policy s \<longleftrightarrow>
     st_slow s \<ge> r_ProbeSlowLimit (optionalRules policy) \<or> st_errors s \<ge> r_RoutineErrorLimit (optionalRules policy)"

text \<open>\<open>routineStreak.add\<close>: the new streak, and whether it trips.\<close>

definition nextStreak :: "routineStreak \<Rightarrow> routineOutcome \<Rightarrow> routineStreak" where
  "nextStreak s oc =
     (case oc of
        routineHealthy \<Rightarrow> s\<lparr>st_slow := 0, st_errors := 0, st_healthy := st_healthy s + 1\<rparr>
      | routineSlow \<Rightarrow> s\<lparr>st_slow := st_slow s + 1, st_healthy := 0\<rparr>
      | routineError \<Rightarrow> s\<lparr>st_errors := st_errors s + 1, st_healthy := 0\<rparr>
      | _ \<Rightarrow> zeroStreak)"

definition addStreak :: "routineStreak \<Rightarrow> routineOutcome \<Rightarrow> ContinuousDispatchParams option \<Rightarrow> bool \<times> routineStreak" where
  "addStreak s oc policy = (let s' = nextStreak s oc in (tripped policy s', s'))"

record routineResult =
  rr_id :: string
  rr_sequence :: nat
  rr_outcome :: routineOutcome
  rr_started :: time
  rr_duration :: float64
  rr_scheduled :: bool

record routineTiming =
  tm_interval :: duration
  tm_timeout :: duration

text \<open>Why a dispatch was skipped (\<open>probe_coverage.go\<close>).\<close>

record routineDispatch =
  dp_id :: string
  dp_at :: time
  dp_scheduled :: bool
  dp_skipReason :: string

definition probeSkipGlobal :: string where
  "probeSkipGlobal = ''global_concurrency''"

definition probeSkipChannel :: string where
  "probeSkipChannel = ''channel_concurrency''"

definition probeSkipEvidence :: string where
  "probeSkipEvidence = ''pending_evidence''"

section \<open>The start delay\<close>

text \<open>FNV-1a with 64 bits over the bytes of \<open>site/channel\<close>.\<close>

definition fnvStep :: "64 word \<Rightarrow> char \<Rightarrow> 64 word" where
  "fnvStep h c = (h XOR of_nat (of_char c)) * 1099511628211"

definition fnv64a :: "string \<Rightarrow> 64 word" where
  "fnv64a s = foldl fnvStep 14695981039346656037 s"

definition routineInitialDelay :: "string \<Rightarrow> int64 \<Rightarrow> duration \<Rightarrow> duration" where
  "routineInitialDelay site channel interval =
     (if interval \<le> 0 then 0
      else uint (fnv64a (site @ ''/'' @ showInt channel) mod word_of_int interval))"

section \<open>Confirmed faults\<close>

text \<open>The scan of \<open>confirmedRoutineFault\<close> over the sequences from \<open>first\<close> up to \<open>end\<close>.\<close>

function confirmedRoutineFault ::
    "(nat \<rightharpoonup> routineResult) \<Rightarrow> nat \<Rightarrow> nat \<Rightarrow> routineStreak \<Rightarrow> ContinuousDispatchParams \<Rightarrow> (routineStreak \<times> time) option" where
  "confirmedRoutineFault pending sequence end streak policy =
     (if sequence \<ge> end then None
      else case pending sequence of
             None \<Rightarrow> confirmedRoutineFault pending (Suc sequence) end zeroStreak policy
           | Some r \<Rightarrow>
               (case addStreak streak (rr_outcome r) (Some policy) of (trip, s) \<Rightarrow>
                  if trip then Some (s, rr_started r)
                  else confirmedRoutineFault pending (Suc sequence) end s policy))"
  by pat_completeness auto
termination by (relation "measure (\<lambda>(pending, sequence, end, streak, policy). end - sequence)") auto

declare confirmedRoutineFault.simps [simp del]

section \<open>The worker\<close>

text \<open>The worker's variables.  \<open>wk_inFlight\<close> are the sequences dispatched and not yet settled,
  \<open>wk_slots\<close> the occupied local slots (a request keeps its slot until its IO exits, even after it was
  settled at its deadline).  \<open>wk_settled\<close> is a history variable: the outcome recorded for each sequence.\<close>

record worker =
  wk_nextSequence :: nat
  wk_folded :: nat
  wk_pending :: "nat \<rightharpoonup> routineResult"
  wk_streak :: routineStreak
  wk_lastPendingGap :: int
  wk_slots :: nat
  wk_inFlight :: "nat set"
  wk_reports :: "routineDispatch list"
  wk_stopped :: bool
  wk_settled :: "nat \<rightharpoonup> routineOutcome"

definition initialWorker :: worker where
  "initialWorker = \<lparr>wk_nextSequence = 0, wk_folded = 0, wk_pending = Map.empty, wk_streak = zeroStreak,
     wk_lastPendingGap = -1, wk_slots = 0, wk_inFlight = {}, wk_reports = [], wk_stopped = False,
     wk_settled = Map.empty\<rparr>"

text \<open>The bounds on concurrent requests and on unresolved evidence.\<close>

definition maxInFlight :: "routineTiming \<Rightarrow> nat" where
  "maxInFlight t = nat (max 4 ((tm_timeout t + tm_interval t - 1) div tm_interval t + 1))"

definition maxPending :: "routineTiming \<Rightarrow> ContinuousDispatchParams \<Rightarrow> nat" where
  "maxPending t p = maxInFlight t + nat (r_ProbeSlowLimit (Rules p)) + nat (r_RoutineErrorLimit (Rules p))"

definition settle :: "nat \<Rightarrow> routineResult \<Rightarrow> worker \<Rightarrow> worker" where
  "settle n r wk = wk\<lparr>wk_pending := (wk_pending wk)(n \<mapsto> r), wk_settled := (wk_settled wk)(n \<mapsto> rr_outcome r)\<rparr>"

definition unknownResult :: "nat \<Rightarrow> time \<Rightarrow> routineResult" where
  "unknownResult n started = \<lparr>rr_id = [], rr_sequence = n, rr_outcome = routineUnknown, rr_started = started,
     rr_duration = 0, rr_scheduled = False\<rparr>"

definition report :: "string \<Rightarrow> time \<Rightarrow> bool \<Rightarrow> string \<Rightarrow> worker \<Rightarrow> worker" where
  "report i t sched reason wk =
     wk\<lparr>wk_reports := \<lparr>dp_id = i, dp_at = t, dp_scheduled = sched, dp_skipReason = reason\<rparr> # wk_reports wk\<rparr>"

text \<open>\<open>launch\<close>; \<open>free\<close> says whether the pool of slots shared by all channels has room.\<close>

definition launch ::
    "routineTiming \<Rightarrow> ContinuousDispatchParams \<Rightarrow> bool \<Rightarrow> time \<Rightarrow> string \<Rightarrow> bool \<Rightarrow> worker \<Rightarrow> worker" where
  "launch t p scheduled started i free wk =
     (let n = wk_nextSequence wk
      in if n - wk_folded wk \<ge> maxPending t p then
           let wk1 = report i started scheduled probeSkipEvidence wk
           in if wk_lastPendingGap wk \<noteq> int n - 1
              then (settle n (unknownResult n started) wk1)\<lparr>wk_lastPendingGap := int n, wk_nextSequence := n + 1\<rparr>
              else wk1
         else
           let wk1 = wk\<lparr>wk_nextSequence := n + 1\<rparr>
           in if wk_slots wk \<ge> maxInFlight t
              then settle n (unknownResult n started) (report i started scheduled probeSkipChannel wk1)
              else if \<not> free
              then settle n (unknownResult n started) (report i started scheduled probeSkipGlobal wk1)
              else (report i started scheduled [] wk1)
                     \<lparr>wk_slots := wk_slots wk + 1, wk_inFlight := insert n (wk_inFlight wk)\<rparr>)"

text \<open>Folding the settled prefix in the order of the starts; the fuel is the number of unfolded
  sequences.\<close>

fun foldPrefix :: "nat \<Rightarrow> worker \<Rightarrow> worker" where
  "foldPrefix 0 wk = wk"
| "foldPrefix (Suc fuel) wk =
     (case wk_pending wk (wk_folded wk) of
        None \<Rightarrow> wk
      | Some r \<Rightarrow> foldPrefix fuel (wk\<lparr>wk_pending := (wk_pending wk)(wk_folded wk := None),
                    wk_folded := wk_folded wk + 1, wk_streak := nextStreak (wk_streak wk) (rr_outcome r)\<rparr>))"

definition foldSettled :: "worker \<Rightarrow> worker" where
  "foldSettled wk = foldPrefix (wk_nextSequence wk - wk_folded wk) wk"

text \<open>The middle of the loop: a confirmed fault that \<open>consume\<close> does not let pass stops the worker.\<close>

definition judge :: "ContinuousDispatchParams \<Rightarrow> (routineStreak \<Rightarrow> time \<Rightarrow> bool) \<Rightarrow> worker \<Rightarrow> worker" where
  "judge p consume wk =
     (case confirmedRoutineFault (wk_pending wk) (wk_folded wk) (wk_nextSequence wk) (wk_streak wk) p of
        Some (fault, started) \<Rightarrow> if consume fault started then foldSettled wk else wk\<lparr>wk_stopped := True\<rparr>
      | None \<Rightarrow> foldSettled wk)"

definition onTimer ::
    "routineTiming \<Rightarrow> ContinuousDispatchParams \<Rightarrow> (routineStreak \<Rightarrow> time \<Rightarrow> bool) \<Rightarrow> time \<Rightarrow> string \<Rightarrow> bool \<Rightarrow> worker \<Rightarrow> worker" where
  "onTimer t p consume started i free wk = judge p consume (launch t p True started i free wk)"

definition timeoutSeconds :: "routineTiming \<Rightarrow> float64" where
  "timeoutSeconds t = of_int (tm_timeout t) / of_int Second"

text \<open>A result that reached the loop; a first error launches a replacement at once.\<close>

definition onResult ::
    "routineTiming \<Rightarrow> ContinuousDispatchParams \<Rightarrow> (routineStreak \<Rightarrow> time \<Rightarrow> bool) \<Rightarrow> routineResult \<Rightarrow> time \<Rightarrow> string \<Rightarrow> bool
     \<Rightarrow> worker \<Rightarrow> worker" where
  "onResult t p consume r0 started i free wk =
     (let r = (if rr_outcome r0 = routineSlow then r0\<lparr>rr_duration := timeoutSeconds t\<rparr> else r0);
          n = rr_sequence r;
          wk1 = judge p consume (settle n r (wk\<lparr>wk_inFlight := wk_inFlight wk - {n}\<rparr>))
      in if wk_stopped wk1 then wk1
         else if rr_outcome r = routineError then launch t p False started i free wk1 else wk1)"

text \<open>The outcome of a request: what the transport measured, or slow once the deadline passed.\<close>

definition measuredOutcome :: "routineTiming \<Rightarrow> bool \<Rightarrow> float64 \<Rightarrow> bool \<Rightarrow> bool \<Rightarrow> routineOutcome" where
  "measuredOutcome t slow duration failed success =
     (if slow \<or> duration > timeoutSeconds t then routineSlow
      else if \<not> failed \<and> success then routineHealthy
      else if \<not> failed then routineError
      else routineUnknown)"

text \<open>The steps of the machine.\<close>

inductive workerStep ::
    "routineTiming \<Rightarrow> ContinuousDispatchParams \<Rightarrow> (routineStreak \<Rightarrow> time \<Rightarrow> bool) \<Rightarrow> worker \<Rightarrow> worker \<Rightarrow> bool"
  for t p consume where
  timer: "\<not> wk_stopped wk \<Longrightarrow> workerStep t p consume wk (onTimer t p consume started i free wk)"
| result: "\<not> wk_stopped wk \<Longrightarrow> rr_sequence r \<in> wk_inFlight wk \<Longrightarrow>
    workerStep t p consume wk (onResult t p consume r started i free wk)"
| release: "card (wk_inFlight wk) < wk_slots wk \<Longrightarrow> workerStep t p consume wk (wk\<lparr>wk_slots := wk_slots wk - 1\<rparr>)"
| cancel: "workerStep t p consume wk (wk\<lparr>wk_stopped := True\<rparr>)"

inductive workerReach ::
    "routineTiming \<Rightarrow> ContinuousDispatchParams \<Rightarrow> (routineStreak \<Rightarrow> time \<Rightarrow> bool) \<Rightarrow> worker \<Rightarrow> bool"
  for t p consume where
  start: "workerReach t p consume initialWorker"
| step: "workerReach t p consume wk \<Longrightarrow> workerStep t p consume wk wk' \<Longrightarrow> workerReach t p consume wk'"

inductive_cases workerStepE: "workerStep t p consume wk wk'"

section \<open>Lemmas on streaks and faults\<close>

lemma nextStreak_nonneg:
  "0 \<le> st_slow s \<Longrightarrow> 0 \<le> st_slow (nextStreak s oc)" "0 \<le> st_errors s \<Longrightarrow> 0 \<le> st_errors (nextStreak s oc)"
  by (cases oc; simp add: nextStreak_def zeroStreak_def)+

lemma nextStreak_counts:
  assumes "0 \<le> st_slow s" "0 \<le> st_errors s"
  shows "st_slow (nextStreak s oc) \<le> st_slow s + (if oc = routineSlow then 1 else 0)"
    "st_errors (nextStreak s oc) \<le> st_errors s + (if oc = routineError then 1 else 0)"
  using assms by (cases oc; simp add: nextStreak_def zeroStreak_def)+

text \<open>A streak never counts more than the outcomes folded into it.\<close>

lemma streak_counts:
  assumes "0 \<le> st_slow s" "0 \<le> st_errors s"
  shows "st_slow (foldl nextStreak s os) \<le> st_slow s + int (length (filter (\<lambda>x. x = routineSlow) os)) \<and>
    st_errors (foldl nextStreak s os) \<le> st_errors s + int (length (filter (\<lambda>x. x = routineError) os))"
  using assms
proof (induction os arbitrary: s)
  case (Cons oc os)
  note n = nextStreak_nonneg[of s oc] nextStreak_counts[OF Cons.prems, of oc]
  show ?case using Cons.IH[of "nextStreak s oc"] n Cons.prems by (auto split: if_splits)
qed simp

lemma streak_broken: "oc = routineUnknown \<or> oc = routineCanceled \<Longrightarrow> nextStreak s oc = zeroStreak"
  by (auto simp: nextStreak_def)

definition outcomesOf :: "(nat \<rightharpoonup> routineResult) \<Rightarrow> nat \<Rightarrow> nat \<Rightarrow> routineOutcome list" where
  "outcomesOf pending lo hi = map (\<lambda>n. rr_outcome (the (pending n))) [lo..<Suc hi]"

lemma outcomesOf_Cons: "lo \<le> hi \<Longrightarrow> outcomesOf pending lo hi = rr_outcome (the (pending lo)) # outcomesOf pending (Suc lo) hi"
  by (simp add: outcomesOf_def upt_conv_Cons del: upt_Suc)

text \<open>A confirmed fault is a contiguous settled segment; a segment that does not start at the first
  sequence starts from the empty streak.\<close>

lemma confirmed_segment:
  assumes "confirmedRoutineFault pending first end streak p = Some (s, started)"
  shows "\<exists>lo hi. first \<le> lo \<and> lo \<le> hi \<and> hi < end \<and> (\<forall>n \<in> {lo..hi}. pending n \<noteq> None) \<and>
    s = foldl nextStreak (if lo = first then streak else zeroStreak) (outcomesOf pending lo hi) \<and>
    tripped (Some p) s \<and> started = rr_started (the (pending hi))"
  using assms
proof (induction pending first "end" streak p rule: confirmedRoutineFault.induct)
  case (1 pending n e streak p)
  from "1.prems" have lt: "n < e" by (subst (asm) confirmedRoutineFault.simps) (simp split: if_splits)
  show ?case
  proof (cases "pending n")
    case None
    then have "confirmedRoutineFault pending (Suc n) e zeroStreak p = Some (s, started)"
      using "1.prems" lt by (subst (asm) confirmedRoutineFault.simps) simp
    from "1.IH"(1)[OF _ None this] lt obtain lo hi where "Suc n \<le> lo" "lo \<le> hi" "hi < e" "\<forall>n \<in> {lo..hi}. pending n \<noteq> None"
      "s = foldl nextStreak zeroStreak (outcomesOf pending lo hi)" "tripped (Some p) s" "started = rr_started (the (pending hi))"
      by auto
    then show ?thesis by (intro exI[of _ lo] exI[of _ hi]) auto
  next
    case (Some r)
    let ?s = "nextStreak streak (rr_outcome r)"
    show ?thesis
    proof (cases "tripped (Some p) ?s")
      case True
      then have "s = ?s" "started = rr_started r"
        using "1.prems" lt Some by (subst (asm) confirmedRoutineFault.simps, simp add: addStreak_def)+
      then show ?thesis using True Some lt by (intro exI[of _ n] exI[of _ n]) (simp add: outcomesOf_def)
    next
      case False
      then have r: "confirmedRoutineFault pending (Suc n) e ?s p = Some (s, started)"
        using "1.prems" lt Some by (subst (asm) confirmedRoutineFault.simps) (simp add: addStreak_def)
      from "1.IH"(2)[OF _ Some _ _ r, of False] lt False obtain lo hi where seg: "Suc n \<le> lo" "lo \<le> hi" "hi < e"
        "\<forall>n \<in> {lo..hi}. pending n \<noteq> None"
        "s = foldl nextStreak (if lo = Suc n then ?s else zeroStreak) (outcomesOf pending lo hi)"
        "tripped (Some p) s" "started = rr_started (the (pending hi))"
        unfolding addStreak_def Let_def by auto
      show ?thesis
      proof (cases "lo = Suc n")
        case True
        have "\<forall>m \<in> {n..hi}. pending m \<noteq> None" using seg(4) Some True by (metis atLeastAtMost_iff le_SucE le_antisym not_less_eq_eq option.distinct(1))
        moreover have "s = foldl nextStreak streak (outcomesOf pending n hi)"
          using seg(2,5) True Some by (simp add: outcomesOf_Cons[of n hi])
        ultimately show ?thesis using seg lt True by (intro exI[of _ n] exI[of _ hi]) simp
      next
        case False
        then show ?thesis using seg by (intro exI[of _ lo] exI[of _ hi]) auto
      qed
    qed
  qed
qed

section \<open>The invariant of the worker\<close>

definition foldedOutcomes :: "worker \<Rightarrow> routineOutcome list" where
  "foldedOutcomes wk = map (\<lambda>n. the (wk_settled wk n)) [0..<wk_folded wk]"

definition wfWorker :: "routineTiming \<Rightarrow> ContinuousDispatchParams \<Rightarrow> worker \<Rightarrow> bool" where
  "wfWorker t p wk \<longleftrightarrow>
     wk_folded wk \<le> wk_nextSequence wk \<and>
     dom (wk_pending wk) \<union> wk_inFlight wk = {wk_folded wk..<wk_nextSequence wk} \<and>
     dom (wk_pending wk) \<inter> wk_inFlight wk = {} \<and>
     (\<forall>n r. wk_pending wk n = Some r \<longrightarrow> wk_settled wk n = Some (rr_outcome r)) \<and>
     wk_streak wk = foldl nextStreak zeroStreak (foldedOutcomes wk) \<and>
     card (wk_inFlight wk) \<le> wk_slots wk \<and> wk_slots wk \<le> maxInFlight t \<and>
     (wk_nextSequence wk - wk_folded wk \<le> maxPending t p \<or>
      wk_nextSequence wk - wk_folded wk = maxPending t p + 1 \<and> wk_lastPendingGap wk = int (wk_nextSequence wk) - 1)"

lemma wf_initialWorker: "wfWorker t p initialWorker"
  by (simp add: wfWorker_def initialWorker_def foldedOutcomes_def)

lemma wf_inFlight: "wfWorker t p wk \<Longrightarrow> finite (wk_inFlight wk) \<and> wk_nextSequence wk \<notin> wk_inFlight wk \<and> wk_pending wk (wk_nextSequence wk) = None"
  by (auto simp: wfWorker_def intro: finite_subset[of _ "{wk_folded wk..<wk_nextSequence wk}"])

lemma foldedOutcomes_settle:
  "wk_folded wk \<le> n \<Longrightarrow> foldedOutcomes (settle n r wk) = foldedOutcomes wk"
  by (simp add: foldedOutcomes_def settle_def)

lemma report_simps [simp]:
  "wk_nextSequence (report i s b x wk) = wk_nextSequence wk" "wk_folded (report i s b x wk) = wk_folded wk"
  "wk_pending (report i s b x wk) = wk_pending wk" "wk_streak (report i s b x wk) = wk_streak wk"
  "wk_lastPendingGap (report i s b x wk) = wk_lastPendingGap wk" "wk_slots (report i s b x wk) = wk_slots wk"
  "wk_inFlight (report i s b x wk) = wk_inFlight wk" "wk_settled (report i s b x wk) = wk_settled wk"
  "wk_stopped (report i s b x wk) = wk_stopped wk"
  by (simp_all add: report_def)

lemma settle_simps [simp]:
  "wk_nextSequence (settle n r wk) = wk_nextSequence wk" "wk_folded (settle n r wk) = wk_folded wk"
  "wk_pending (settle n r wk) = (wk_pending wk)(n \<mapsto> r)" "wk_streak (settle n r wk) = wk_streak wk"
  "wk_lastPendingGap (settle n r wk) = wk_lastPendingGap wk" "wk_slots (settle n r wk) = wk_slots wk"
  "wk_inFlight (settle n r wk) = wk_inFlight wk" "wk_settled (settle n r wk) = (wk_settled wk)(n \<mapsto> rr_outcome r)"
  "wk_stopped (settle n r wk) = wk_stopped wk"
  by (simp_all add: settle_def)

lemma wf_cong:
  assumes "wfWorker t p wk" "wk_nextSequence wk' = wk_nextSequence wk" "wk_folded wk' = wk_folded wk"
    "wk_pending wk' = wk_pending wk" "wk_streak wk' = wk_streak wk" "wk_lastPendingGap wk' = wk_lastPendingGap wk"
    "wk_slots wk' = wk_slots wk" "wk_inFlight wk' = wk_inFlight wk" "wk_settled wk' = wk_settled wk"
  shows "wfWorker t p wk'"
  using assms by (simp add: wfWorker_def foldedOutcomes_def)

text \<open>A new sequence that is settled at once, or put in flight.\<close>

lemma wf_settleNext:
  assumes "wfWorker t p wk" "n = wk_nextSequence wk" "rr_outcome r = oc"
    and "wk' = (settle n r wk)\<lparr>wk_nextSequence := n + 1, wk_lastPendingGap := g\<rparr>"
    and "n - wk_folded wk < maxPending t p \<or> n - wk_folded wk = maxPending t p \<and> g = int n"
  shows "wfWorker t p wk'"
proof -
  have fo: "foldedOutcomes wk' = foldedOutcomes wk"
    using assms(1,2,4) by (simp add: foldedOutcomes_def wfWorker_def)
  have dom: "dom (wk_pending wk') = insert n (dom (wk_pending wk))" "wk_inFlight wk' = wk_inFlight wk"
    "wk_nextSequence wk' = n + 1" "wk_folded wk' = wk_folded wk"
    using assms(4) by simp_all
  have "dom (wk_pending wk') \<union> wk_inFlight wk' = {wk_folded wk'..<wk_nextSequence wk'}"
    using assms(1,2) unfolding dom by (auto simp: wfWorker_def)
  moreover have "dom (wk_pending wk') \<inter> wk_inFlight wk' = {}"
    using assms(1,2) wf_inFlight[OF assms(1)] unfolding dom by (auto simp: wfWorker_def)
  moreover have "\<forall>m x. wk_pending wk' m = Some x \<longrightarrow> wk_settled wk' m = Some (rr_outcome x)"
    using assms(1,4) by (auto simp: wfWorker_def)
  ultimately show ?thesis
    using assms(1,2,4,5) fo by (auto simp: wfWorker_def)
qed

lemma wf_dispatch:
  assumes "wfWorker t p wk" "n = wk_nextSequence wk" "n - wk_folded wk < maxPending t p" "wk_slots wk < maxInFlight t"
  shows "wfWorker t p (wk\<lparr>wk_nextSequence := n + 1, wk_slots := wk_slots wk + 1, wk_inFlight := insert n (wk_inFlight wk)\<rparr>)"
proof -
  have "insert n (dom (wk_pending wk) \<union> wk_inFlight wk) = {wk_folded wk..<Suc n}"
    using assms(1,2) by (auto simp: wfWorker_def)
  then show ?thesis
    using assms wf_inFlight[OF assms(1)] by (auto simp: wfWorker_def foldedOutcomes_def)
qed

lemma wf_launch:
  assumes wf: "wfWorker t p wk"
  shows "wfWorker t p (launch t p b started i free wk)"
proof -
  let ?n = "wk_nextSequence wk"
  have rep: "wfWorker t p (report i started b x wk)" for x by (rule wf_cong[OF wf]) simp_all
  show ?thesis
  proof (cases "?n - wk_folded wk \<ge> maxPending t p")
    case True
    show ?thesis
    proof (cases "wk_lastPendingGap wk = int ?n - 1")
      case True
      with \<open>?n - wk_folded wk \<ge> maxPending t p\<close> show ?thesis using rep by (simp add: launch_def Let_def)
    next
      case False
      then have eq: "?n - wk_folded wk = maxPending t p" using wf \<open>?n - wk_folded wk \<ge> maxPending t p\<close> by (auto simp: wfWorker_def)
      show ?thesis
        by (rule wf_settleNext[OF rep[of probeSkipEvidence] _ refl, where n = ?n and g = "int ?n" and r = "unknownResult ?n started"])
          (use eq False in \<open>simp_all add: launch_def Let_def\<close>)
    qed
  next
    case False
    then have lt: "?n - wk_folded wk < maxPending t p" by simp
    have skip: "wfWorker t p (settle ?n r (report i started b x (wk\<lparr>wk_nextSequence := ?n + 1\<rparr>)))" for r x
      by (rule wf_settleNext[OF rep[of x] _ refl, where n = ?n and g = "wk_lastPendingGap wk" and r = r])
        (use lt in \<open>simp_all add: settle_def report_def\<close>)
    show ?thesis
    proof (cases "wk_slots wk \<ge> maxInFlight t \<or> \<not> free")
      case True
      then show ?thesis using lt skip by (auto simp: launch_def Let_def)
    next
      case False
      have "wfWorker t p ((report i started b [] wk)\<lparr>wk_nextSequence := ?n + 1, wk_slots := wk_slots wk + 1, wk_inFlight := insert ?n (wk_inFlight wk)\<rparr>)"
        using wf_dispatch[OF rep, of ?n "[]"] lt False by simp
      then show ?thesis by (rule wf_cong) (use lt False in \<open>simp_all add: launch_def Let_def\<close>)
    qed
  qed
qed

text \<open>One fold step, and the whole prefix.\<close>

lemma wf_foldOne:
  assumes "wfWorker t p wk" "wk_pending wk (wk_folded wk) = Some r"
    and "wk' = wk\<lparr>wk_pending := (wk_pending wk)(wk_folded wk := None), wk_folded := wk_folded wk + 1,
      wk_streak := nextStreak (wk_streak wk) (rr_outcome r)\<rparr>"
  shows "wfWorker t p wk'"
proof -
  let ?k = "wk_folded wk"
  have k: "?k < wk_nextSequence wk" "?k \<notin> wk_inFlight wk" using assms(1,2) by (auto simp: wfWorker_def)
  have s: "wk_settled wk ?k = Some (rr_outcome r)" using assms(1,2) by (simp add: wfWorker_def)
  have "foldedOutcomes wk' = foldedOutcomes wk @ [rr_outcome r]" by (simp add: assms(3) foldedOutcomes_def s)
  then have "wk_streak wk' = foldl nextStreak zeroStreak (foldedOutcomes wk')"
    using assms(1,3) by (simp add: wfWorker_def)
  moreover have "dom (wk_pending wk') \<union> wk_inFlight wk' = {wk_folded wk'..<wk_nextSequence wk'}"
  proof -
    have "dom (wk_pending wk') \<union> wk_inFlight wk' = (dom (wk_pending wk) \<union> wk_inFlight wk) - {?k}"
      using k assms(3) by auto
    then show ?thesis using assms(1,3) by (auto simp: wfWorker_def)
  qed
  moreover have "dom (wk_pending wk') \<inter> wk_inFlight wk' = {}" using assms(1,3) by (auto simp: wfWorker_def)
  ultimately show ?thesis
    using assms(1,3) k by (auto simp: wfWorker_def)
qed

lemma wf_foldPrefix: "wfWorker t p wk \<Longrightarrow> wfWorker t p (foldPrefix n wk)"
proof (induction n arbitrary: wk)
  case (Suc n)
  then show ?case using wf_foldOne by (auto split: option.split)
qed simp

text \<open>The fuel is enough: afterwards the first unfolded sequence is not settled.\<close>

lemma foldPrefix_complete:
  "wfWorker t p wk \<Longrightarrow> n \<ge> wk_nextSequence wk - wk_folded wk \<Longrightarrow>
   wk_pending (foldPrefix n wk) (wk_folded (foldPrefix n wk)) = None"
proof (induction n arbitrary: wk)
  case 0
  then have "wk_nextSequence wk = wk_folded wk" by (simp add: wfWorker_def)
  then show ?case using wf_inFlight[OF "0.prems"(1)] by simp
next
  case (Suc n)
  show ?case
  proof (cases "wk_pending wk (wk_folded wk)")
    case (Some r)
    then show ?thesis using Suc.IH[OF wf_foldOne[OF Suc.prems(1) Some refl]] Suc.prems(2) by simp
  qed simp
qed

lemma foldPrefix_stopped [simp]: "wk_stopped (foldPrefix n wk) = wk_stopped wk"
  by (induction n arbitrary: wk) (auto split: option.split)

lemma wf_judge: "wfWorker t p wk \<Longrightarrow> wfWorker t p (judge p c wk)"
  by (auto simp: judge_def foldSettled_def wf_foldPrefix intro: wf_cong split: option.split)

lemma wf_onResult:
  assumes "wfWorker t p wk" "rr_sequence r \<in> wk_inFlight wk"
  shows "wfWorker t p (onResult t p c r started i free wk)"
proof -
  let ?n = "rr_sequence r"
  have k: "wk_folded wk \<le> ?n" "?n < wk_nextSequence wk" "?n \<notin> dom (wk_pending wk)" using assms by (auto simp: wfWorker_def)
  have "wfWorker t p (settle ?n x (wk\<lparr>wk_inFlight := wk_inFlight wk - {?n}\<rparr>))" for x
  proof -
    let ?w = "settle ?n x (wk\<lparr>wk_inFlight := wk_inFlight wk - {?n}\<rparr>)"
    have "dom (wk_pending ?w) \<union> wk_inFlight ?w = dom (wk_pending wk) \<union> wk_inFlight wk"
      using assms(2) by auto
    moreover have "foldedOutcomes ?w = foldedOutcomes wk" using k(1) by (simp add: foldedOutcomes_def)
    moreover have "card (wk_inFlight wk - {?n}) \<le> card (wk_inFlight wk)" by (rule card_Diff1_le)
    ultimately show ?thesis using assms(1) by (auto simp: wfWorker_def)
  qed
  then show ?thesis by (auto simp: onResult_def Let_def intro!: wf_launch wf_judge)
qed

lemma wf_workerStep: "workerStep t p c wk wk' \<Longrightarrow> wfWorker t p wk \<Longrightarrow> wfWorker t p wk'"
proof (induction rule: workerStep.induct)
  case (timer wk started i free)
  then show ?case by (simp add: onTimer_def wf_judge wf_launch)
next
  case (result wk r started i free)
  then show ?case by (simp add: wf_onResult)
next
  case (release wk)
  then show ?case by (auto simp: wfWorker_def foldedOutcomes_def)
next
  case (cancel wk)
  then show ?case by (auto intro: wf_cong)
qed

lemma reach_wf: "workerReach t p c wk \<Longrightarrow> wfWorker t p wk"
  by (induction rule: workerReach.induct) (auto simp: wf_initialWorker wf_workerStep)

section \<open>Properties\<close>

text \<open>C9: in every reachable state of a channel's probe worker the evidence is folded in the order of the
  request starts: the streak is the fold of the outcomes of the sequences before the cursor, whatever the
  order in which the requests completed.\<close>

theorem probe_evidence_in_start_order:
  assumes "workerReach t p consume wk"
  shows "wk_streak wk = foldl nextStreak zeroStreak (map (\<lambda>n. the (wk_settled wk n)) [0..<wk_folded wk])"
  using reach_wf[OF assms] by (simp add: wfWorker_def foldedOutcomes_def)

definition exampleTiming :: routineTiming where
  "exampleTiming = \<lparr>tm_interval = 10 * Second, tm_timeout = 20 * Second\<rparr>"

definition exampleWorker :: worker where
  "exampleWorker = onTimer exampleTiming DefaultContinuous (\<lambda>s a. True) 5 ''probe'' True initialWorker"

lemma exampleWorker_reach: "workerReach exampleTiming DefaultContinuous (\<lambda>s a. True) exampleWorker"
  unfolding exampleWorker_def
  by (rule workerReach.step[OF workerReach.start workerStep.timer]) (simp add: initialWorker_def)

theorem probe_evidence_in_start_order_witness:
  "wk_streak exampleWorker = foldl nextStreak zeroStreak (map (\<lambda>n. the (wk_settled exampleWorker n)) [0..<wk_folded exampleWorker])"
  by (rule probe_evidence_in_start_order[OF exampleWorker_reach])

text \<open>the worker is bounded.  It never holds more local slots than its limit, hence never has more
  requests in flight; the unresolved evidence stays within the configured bound plus one gap; every sequence
  past the cursor is either settled or in flight, never both.\<close>

theorem probe_worker_bounded:
  assumes "workerReach t p consume wk"
  shows "(card (wk_inFlight wk) \<le> wk_slots wk \<and> wk_slots wk \<le> maxInFlight t) \<and>
    (wk_nextSequence wk \<le> wk_folded wk + maxPending t p + 1) \<and>
    (dom (wk_pending wk) \<union> wk_inFlight wk = {wk_folded wk..<wk_nextSequence wk}) \<and>
    (dom (wk_pending wk) \<inter> wk_inFlight wk = {})"
  using reach_wf[OF assms] by (auto simp: wfWorker_def)

theorem probe_worker_bounded_witness: "wk_slots exampleWorker \<le> maxInFlight exampleTiming"
  using probe_worker_bounded[OF exampleWorker_reach] by simp

text \<open>A routine fault is confirmed only by a contiguous segment of settled results: no gap, no unknown
  and no cancelled result inside joins evidence; unless the segment continues the folded prefix, it alone
  holds at least the configured number of slow results or of errors.\<close>

theorem routine_fault_needs_contiguous_evidence:
  assumes "confirmedRoutineFault pending first end streak p = Some (s, started)"
  shows "\<exists>lo hi. first \<le> lo \<and> lo \<le> hi \<and> hi < end \<and> (\<forall>n \<in> {lo..hi}. pending n \<noteq> None) \<and>
    started = rr_started (the (pending hi)) \<and> tripped (Some p) s \<and>
    (lo = first \<or>
      r_ProbeSlowLimit (Rules p) \<le> int (length (filter (\<lambda>x. x = routineSlow) (outcomesOf pending lo hi))) \<or>
      r_RoutineErrorLimit (Rules p) \<le> int (length (filter (\<lambda>x. x = routineError) (outcomesOf pending lo hi))))"
proof -
  obtain lo hi where seg: "first \<le> lo" "lo \<le> hi" "hi < end" "\<forall>n \<in> {lo..hi}. pending n \<noteq> None"
    "s = foldl nextStreak (if lo = first then streak else zeroStreak) (outcomesOf pending lo hi)"
    "tripped (Some p) s" "started = rr_started (the (pending hi))"
    using confirmed_segment[OF assms] by blast
  have z: "0 \<le> st_slow zeroStreak" "0 \<le> st_errors zeroStreak" "st_slow zeroStreak = 0" "st_errors zeroStreak = 0"
    by (simp_all add: zeroStreak_def)
  have "lo = first \<or>
      r_ProbeSlowLimit (Rules p) \<le> int (length (filter (\<lambda>x. x = routineSlow) (outcomesOf pending lo hi))) \<or>
      r_RoutineErrorLimit (Rules p) \<le> int (length (filter (\<lambda>x. x = routineError) (outcomesOf pending lo hi)))"
    using seg(5,6) streak_counts[OF z(1,2), of "outcomesOf pending lo hi"] z(3,4)
    by (cases "lo = first") (auto simp: tripped_def optionalRules_def)
  then show ?thesis using seg by blast
qed

definition slowResult :: "nat \<Rightarrow> routineResult" where
  "slowResult n = \<lparr>rr_id = ''p'', rr_sequence = n, rr_outcome = routineSlow, rr_started = int n, rr_duration = 10, rr_scheduled = True\<rparr>"

theorem routine_fault_needs_contiguous_evidence_witness:
  "\<exists>s tm. confirmedRoutineFault [1 \<mapsto> slowResult 1, 2 \<mapsto> slowResult 2, 3 \<mapsto> slowResult 3] 0 4 zeroStreak DefaultContinuous = Some (s, tm) \<and>
    tripped (Some DefaultContinuous) s"
proof -
  have lim: "r_ProbeSlowLimit (optionalRules (Some DefaultContinuous)) = 2" "r_RoutineErrorLimit (optionalRules (Some DefaultContinuous)) = 3"
    by (simp_all add: optionalRules_def Rules_Default DefaultContinuousRules_def)
  have "\<exists>s tm. confirmedRoutineFault [1 \<mapsto> slowResult 1, 2 \<mapsto> slowResult 2, 3 \<mapsto> slowResult 3] 0 4 zeroStreak DefaultContinuous = Some (s, tm)"
    by (simp add: confirmedRoutineFault.simps addStreak_def nextStreak_def tripped_def lim slowResult_def zeroStreak_def Let_def)
  then show ?thesis using routine_fault_needs_contiguous_evidence by blast
qed

text \<open>The start delay of a channel's probes is a stable phase inside the interval.\<close>

theorem initial_delay_in_interval:
  assumes "0 < interval" "interval < 2 ^ 63"
  shows "0 \<le> routineInitialDelay site channel interval \<and> routineInitialDelay site channel interval < interval"
proof -
  let ?i = "word_of_int interval :: 64 word"
  have u: "uint ?i = interval" using assms by (simp add: uint_word_of_int)
  have "uint (x mod ?i) = uint x mod interval" for x :: "64 word" by (simp add: uint_mod_distrib u)
  then show ?thesis using assms by (simp add: routineInitialDelay_def)
qed

theorem initial_delay_in_interval_witness: "routineInitialDelay ''site'' 7 (10 * Second) < 10 * Second"
  using initial_delay_in_interval[of "10 * Second" "''site''" 7] by simp

end
