(* ===== verification/RoutineApply.thy ===== *)
theory RoutineApply
  imports FastCircuit RoutineProbe "HOL-Library.AList"
begin

text \<open>
  What a confirmed routine fault does (\<open>applyRoutineEvidence\<close> of
  \<open>server/internal/tuning/routine_probe.go\<close>), and the supervisor pass that starts and stops the channel
  workers (\<open>runRoutineProbes\<close>).
\<close>

section \<open>Applying a fault\<close>

definition zeroChannelBaseValue :: ChannelBaseValue where
  "zeroChannelBaseValue = \<lparr>b_InstanceID = [], b_ChannelID = 0, b_ChannelName = [], b_GroupName = [], b_ModelName = [],
     b_BaseWeight = 0, b_BasePriority = 0, b_MaxRPM = 0, b_MaxTPM = 0, b_CurrentWeight = 0, b_CurrentPriority = 0,
     b_SnapshotAt = 0, b_Models = [], b_UpdatedAt = 0, b_UpdatedBy = []\<rparr>"

fun findBase :: "int64 \<Rightarrow> ChannelBaseValue list \<Rightarrow> ChannelBaseValue" where
  "findBase ch [] = zeroChannelBaseValue"
| "findBase ch (b # bs) = (if b_ChannelID b = ch then b else findBase ch bs)"

definition routineEligible :: "ChannelBaseValue \<Rightarrow> ContinuousState \<Rightarrow> PolicyRecord \<Rightarrow> bool" where
  "routineEligible base s pr \<longleftrightarrow>
     RoutineProbeEnabledFor (pol_Continuous (pr_Policy pr)) (b_ChannelID base) \<and> b_BaseWeight base > 0 \<and>
     length (b_Models base) = 1 \<and> modeOf (pr_Policy pr) (b_ModelName base) = ''auto'' \<and>
     s_PausedReason s \<noteq> ManualDisabled \<and> \<not> s_CircuitDisabled s \<and> \<not> s_RoutineCircuitLatched s \<and>
     (s_Phase s = [] \<or> s_Phase s = ''normal'' \<or> s_Phase s = ''soft_start'')"

definition streakTripped :: "ContinuousDispatchParams \<Rightarrow> routineStreak \<Rightarrow> bool" where
  "streakTripped p s \<longleftrightarrow> st_slow s \<ge> r_ProbeSlowLimit (Rules p) \<or> st_errors s \<ge> r_RoutineErrorLimit (Rules p)"

text \<open>The fault latch: the state that is persisted before the disable command is requested.\<close>

definition routineLatch :: "time \<Rightarrow> ContinuousState \<Rightarrow> ContinuousState" where
  "routineLatch now s =
     clearProbes ((withCap (\<lambda>c. c\<lparr>cap_PendingCommandID := []\<rparr>) s)\<lparr>
       s_RoutineCircuitLatched := True, s_Phase := ''circuit'', s_Multiplier := 0, s_ProposedWeight := 0,
       s_CircuitDisabled := True, s_CircuitStatusTarget := 2, s_CircuitOpenedAt := Some now,
       s_ProbeCommandID := None, s_SoftStartPending := False\<rparr>)"

definition routineEvaluation :: "ChannelBaseValue \<Rightarrow> PolicyRecord \<Rightarrow> time \<Rightarrow> string \<Rightarrow> int64 \<Rightarrow> ContinuousState \<Rightarrow> ContinuousState" where
  "routineEvaluation base latest now site ch s =
     s\<lparr>s_InstanceID := site, s_ChannelID := ch, s_ModelName := b_ModelName base,
       s_Evaluation := Some \<lparr>ev_PerformanceEvaluated = False, ev_BaseWeight = b_BaseWeight base,
         ev_BaseUpdatedAt = b_UpdatedAt base, ev_PolicyUpdatedAt = pr_UpdatedAt latest, ev_EvaluatedAt = now,
         ev_Params = pol_Continuous (pr_Policy latest)\<rparr>\<rparr>"

definition routineRecord ::
    "env \<Rightarrow> string \<Rightarrow> ChannelBaseValue \<Rightarrow> routineStreak \<Rightarrow> time \<Rightarrow> time \<Rightarrow> ContinuousState \<Rightarrow> Recommendation" where
  "routineRecord E site base streak started now s =
     addEvidence ''probe_started_at'' (EvTime started)
       (addEvidence ''error_streak'' (EvInt (st_errors streak))
         (addEvidence ''slow_streak'' (EvInt (st_slow streak))
           (continuousEvent E site base s ''routine_probe_circuit'' ''auto'' now)))"

text \<open>Under the guard, past every check: settle, latch, persist, record, advance, persist.\<close>

definition latchChannel ::
    "env \<Rightarrow> string \<Rightarrow> int64 \<Rightarrow> ChannelBaseValue \<Rightarrow> PolicyRecord \<Rightarrow> routineStreak \<Rightarrow> time \<Rightarrow> time \<Rightarrow> ContinuousState \<Rightarrow> world \<Rightarrow> world" where
  "latchChannel E site ch base latest streak started now s0 w =
     (case settleCapacityWrite E site base now (routineEvaluation base latest now site ch s0) w of (s1, w1) \<Rightarrow>
        let s2 = routineLatch now s1;
            w2 = emit (PutContinuousState s2) w1
        in if putState E (trace w1) s2 \<noteq> None then w2
           else
             let w3 = emit (InsertRecommendation (routineRecord E site base streak started now s2)) w2
             in (case advanceCircuitStatus E site base (pol_Continuous (pr_Policy latest)) now s2 w3 of (n, s3, w4) \<Rightarrow>
                   emit (Notify site) (bumpGuard site ch
                     (emit (PutContinuousState (s3\<lparr>s_UpdatedAt := now\<rparr>)) w4))))"

definition applyRoutineEvidence ::
    "env \<Rightarrow> string \<Rightarrow> int64 \<Rightarrow> ChannelBaseValue \<Rightarrow> PolicyRecord \<Rightarrow> int64 \<Rightarrow> routineStreak \<Rightarrow> time \<Rightarrow> world \<Rightarrow> bool \<times> world" where
  "applyRoutineEvidence E site ch observed policy revision streak started w0 =
     (if \<not> streakTripped (pol_Continuous (pr_Policy policy)) streak then (True, w0)
      else
        let w1 = emit CheckControl w0
        in if checkControl E (trace w0) \<noteq> None \<or> ctxErr E (trace w1) then (False, w1)
           else let w2 = emit (GetPolicy site) w1 in
             (case getPolicy E (trace w1) site of
                Inl (Some latest) \<Rightarrow>
                  if pr_UpdatedAt latest \<noteq> pr_UpdatedAt policy then (False, w2)
                  else let w3 = emit (ListChannelBaseValues site) w2 in
                    (case listChannelBaseValues E (trace w2) site of
                       Inr e \<Rightarrow> (False, w3)
                     | Inl bases \<Rightarrow>
                         let base = findBase ch bases
                         in if b_UpdatedAt base \<noteq> b_UpdatedAt observed \<or> b_ModelName base \<noteq> b_ModelName observed then (False, w3)
                            else let w4 = emit (ListContinuousStates site) w3 in
                              (case listContinuousStates E (trace w3) site of
                                 Inr e \<Rightarrow> (False, w4)
                               | Inl states \<Rightarrow>
                                   let s = findState ch states
                                   in if s_ControlRevision s \<noteq> revision \<or> \<not> routineEligible base s latest then (False, w4)
                                      else (False, latchChannel E site ch base latest streak started
                                                     (clock E (trace w4)) s (emit Now w4))))
              | _ \<Rightarrow> (False, w2)))"

section \<open>The supervisor\<close>

text \<open>One pass of \<open>runRoutineProbes\<close> over the inventory.  A running worker is its signature and
  whether its \<open>done\<close> channel is closed; the table of running workers is an association list.  The pass
  records the keys whose worker is cancelled, those for which a worker is started, and those that are
  wanted.  The text of a time (\<open>time.RFC3339Nano\<close>) is the parameter \<open>fmtTime\<close>.\<close>

record routineRun =
  run_signature :: string
  run_done :: bool

record supervisor =
  sup_running :: "(channelKey \<times> routineRun) list"
  sup_wanted :: "channelKey list"
  sup_cancelled :: "channelKey list"
  sup_started :: "channelKey list"

definition routineSignature ::
    "(time \<Rightarrow> string) \<Rightarrow> string \<Rightarrow> ChannelBaseValue \<Rightarrow> PolicyRecord \<Rightarrow> ContinuousState \<Rightarrow> string" where
  "routineSignature fmtTime config base pr s =
     config @ ''/'' @ b_ModelName base @ ''/'' @ fmtTime (b_UpdatedAt base) @ ''/'' @ fmtTime (pr_UpdatedAt pr) @ ''/'' @
     showInt (s_ControlRevision s)"

definition startWorker :: "channelKey \<Rightarrow> string \<Rightarrow> supervisor \<Rightarrow> supervisor" where
  "startWorker key signature v =
     v\<lparr>sup_running := AList.update key \<lparr>run_signature = signature, run_done = False\<rparr> (sup_running v),
       sup_started := key # sup_started v\<rparr>"

definition superviseOne :: "channelKey \<Rightarrow> string \<Rightarrow> supervisor \<Rightarrow> supervisor" where
  "superviseOne key signature v0 =
     (let v = v0\<lparr>sup_wanted := key # sup_wanted v0\<rparr>
      in case map_of (sup_running v) key of
           Some old \<Rightarrow>
             if run_done old then startWorker key signature v
             else if run_signature old \<noteq> signature then v\<lparr>sup_cancelled := key # sup_cancelled v\<rparr>
             else v
         | None \<Rightarrow> startWorker key signature v)"

definition superviseBase ::
    "(time \<Rightarrow> string) \<Rightarrow> string \<Rightarrow> string \<Rightarrow> PolicyRecord \<Rightarrow> (int64 \<rightharpoonup> ContinuousState) \<Rightarrow> ChannelBaseValue \<Rightarrow> supervisor \<Rightarrow> supervisor" where
  "superviseBase fmtTime site config pr byID base v =
     (let s = stateAt byID (b_ChannelID base)
      in if routineEligible base s pr
         then superviseOne (site, b_ChannelID base) (routineSignature fmtTime config base pr s) v else v)"

text \<open>A site without a policy, with the routine probes off, or whose inventory cannot be read contributes
  no wanted channel.\<close>

definition superviseSite :: "env \<Rightarrow> (time \<Rightarrow> string) \<Rightarrow> string \<Rightarrow> supervisor \<Rightarrow> world \<Rightarrow> supervisor \<times> world" where
  "superviseSite E fmtTime site v w =
     (let w1 = emit (GetPolicy site) w
      in case getPolicy E (trace w) site of
           Inl (Some pr) \<Rightarrow>
             if \<not> r_RoutineProbeEnabled (Rules (pol_Continuous (pr_Policy pr))) then (v, w1)
             else let w2 = emit (ListChannelBaseValues site) w1 in
               (case listChannelBaseValues E (trace w1) site of
                  Inr e \<Rightarrow> (v, w2)
                | Inl bases \<Rightarrow>
                    let w3 = emit (ListContinuousStates site) w2 in
                    (case listContinuousStates E (trace w2) site of
                       Inr e \<Rightarrow> (v, w3)
                     | Inl states \<Rightarrow>
                         let w4 = emit (RoutineProbeController site) w3 in
                         (case routineProbeController E (trace w3) site of
                            Inl (Some config) \<Rightarrow>
                              (foldl (\<lambda>v base. superviseBase fmtTime site config pr (indexBy s_ChannelID states) base v) v bases, w4)
                          | _ \<Rightarrow> (v, w4))))
         | _ \<Rightarrow> (v, w1))"

text \<open>A cancelled context ends the pass: every worker is cancelled.\<close>

fun superviseSites :: "env \<Rightarrow> (time \<Rightarrow> string) \<Rightarrow> string list \<Rightarrow> supervisor \<Rightarrow> world \<Rightarrow> bool \<times> supervisor \<times> world" where
  "superviseSites E fmtTime [] v w = (True, v, w)"
| "superviseSites E fmtTime (site # sites) v w =
     (if ctxErr E (trace w) then (False, v, w)
      else case superviseSite E fmtTime site v w of (v', w') \<Rightarrow> superviseSites E fmtTime sites v' w')"

definition dropUnwanted :: "supervisor \<Rightarrow> supervisor" where
  "dropUnwanted v =
     v\<lparr>sup_cancelled := filter (\<lambda>k. k \<notin> set (sup_wanted v)) (map fst (sup_running v)) @ sup_cancelled v,
       sup_running := filter (\<lambda>(k, r). k \<in> set (sup_wanted v)) (sup_running v)\<rparr>"

definition cancelAll :: "supervisor \<Rightarrow> supervisor" where
  "cancelAll v = v\<lparr>sup_cancelled := map fst (sup_running v) @ sup_cancelled v, sup_running := []\<rparr>"

definition supervisePass ::
    "env \<Rightarrow> (time \<Rightarrow> string) \<Rightarrow> (channelKey \<times> routineRun) list \<Rightarrow> world \<Rightarrow> bool \<times> supervisor \<times> world" where
  "supervisePass E fmtTime running w =
     (let w1 = emit ListEnabledSites w;
          sites = (case listEnabledSites E (trace w) of Inl ids \<Rightarrow> ids | Inr e \<Rightarrow> []);
          v0 = \<lparr>sup_running = running, sup_wanted = [], sup_cancelled = [], sup_started = []\<rparr>
      in case superviseSites E fmtTime sites v0 w1 of
           (go, v, w2) \<Rightarrow> (go, if go then dropUnwanted v else cancelAll v, w2))"

section \<open>Lemmas\<close>

definition disables :: "Recommendation \<Rightarrow> bool" where
  "disables r \<longleftrightarrow> rec_ProposedWeight r = 0 \<and> rec_ProposedChannelStatus r = Some 2 \<and> rec_Rule r = ''circuit_disabled''"

fun routineCall :: "call \<Rightarrow> bool" where
  "routineCall (PutContinuousState s) \<longleftrightarrow> wfStored s"
| "routineCall (CreateContinuousWeightChange r _ _) \<longleftrightarrow> disables r"
| "routineCall (CreateContinuousProbe _ _ _ _ _) \<longleftrightarrow> False"
| "routineCall _ \<longleftrightarrow> True"

interpretation routine: call_filter routineCall
proof
  fix c assume "isQuiet c"
  then show "routineCall c" by (cases c) auto
qed

lemma routineLatch_ok: "wfStored s \<Longrightarrow> wfStored (routineLatch now s)"
  by (simp add: wfStored_def wfCore_def okPhase_def routineLatch_def withCap_def clearProbes_def)

lemma routineLatch_fields [simp]:
  "s_CircuitStatusTarget (routineLatch now s) = 2" "s_ProposedWeight (routineLatch now s) = 0"
  "s_ProbeCommandID (routineLatch now s) = None" "\<not> s_SoftStartPending (routineLatch now s)"
  "s_RoutineCircuitLatched (routineLatch now s)" "s_CircuitDisabled (routineLatch now s)"
  "s_Phase (routineLatch now s) = ''circuit''"
  by (simp_all add: routineLatch_def withCap_def clearProbes_def)

lemma routineEvaluation_ok: "wfStored (routineEvaluation base latest now site ch s) = wfStored s"
  by (rule stored.cong) (simp add: sameFields_def routineEvaluation_def)

lemma disables_status: "s_ProposedWeight s = 0 \<Longrightarrow> disables (statusRecord E site base now 2 s)"
  by (simp add: disables_def statusRecord_def addEvidence_def continuousEvent_def)

text \<open>Advancing the fresh latch can only request the disable command.\<close>

lemma advance_latch_emits:
  assumes "wfStored s" "s_CircuitStatusTarget s = 2" "s_ProposedWeight s = 0"
  shows "emits routineCall w (snd (snd (advanceCircuitStatus E site base p now s w)))"
proof -
  have "advanceCircuitStatus E site base p now s w = advanceFrom E site base p now 2 s w"
    using assms(2) by (simp add: advanceCircuitStatus_def Let_def)
  then show ?thesis
    using routine.advanceFrom_emits[of s now E site base 2 w p] disables_status[OF assms(3)] by simp
qed

interpretation quiet_only: call_filter isQuiet
  by unfold_locales

text \<open>The latch is persisted before anything is commanded: up to the first persisted state there are only
  queries, and that state is the latch.\<close>

definition latched :: "ContinuousState \<Rightarrow> bool" where
  "latched s \<longleftrightarrow> s_RoutineCircuitLatched s \<and> s_CircuitDisabled s \<and> s_Phase s = ''circuit'' \<and> s_CircuitStatusTarget s = 2"

lemma latchChannel_shape:
  assumes "wfParams (pol_Continuous (pr_Policy latest))" "wfStored s"
  obtains s2 w1 where "latched s2" "wfStored s2" "adds isQuiet w w1"
    "adds routineCall (emit (PutContinuousState s2) w1) (latchChannel E site ch base latest streak started now s w)"
proof -
  let ?p = "pol_Continuous (pr_Policy latest)"
  let ?e = "routineEvaluation base latest now site ch s"
  obtain s1 w1 where st: "settleCapacityWrite E site base now ?e w = (s1, w1)" by (metis prod.exhaust)
  let ?s2 = "routineLatch now s1"
  let ?w2 = "emit (PutContinuousState ?s2) w1"
  let ?w3 = "emit (InsertRecommendation (routineRecord E site base streak started now ?s2)) ?w2"
  obtain n s3 w4 where ad: "advanceCircuitStatus E site base ?p now ?s2 ?w3 = (n, s3, w4)" by (metis prod.exhaust)
  have "wfStored s1" using stored.inv_settleCapacityWrite[of ?e E site base now w] st assms(2) by (simp add: routineEvaluation_ok)
  then have ok2: "wfStored ?s2" by (rule routineLatch_ok)
  have "wfStored s3" using stored.inv_advanceCircuitStatus[OF assms(1) ok2, of E site base now ?w3] ad by simp
  then have put3: "wfStored (s3\<lparr>s_UpdatedAt := now\<rparr>)" by simp
  have quiet: "adds isQuiet w w1" using quiet_only.settleCapacityWrite_emits[of w E site base now ?e] st by (simp add: emits_def)
  have "adds routineCall ?w2 ?w3" by (simp add: adds_def)
  moreover have "adds routineCall ?w3 w4"
    using advance_latch_emits[OF ok2, of ?w3 E site base ?p now] ad by (simp add: emits_def)
  ultimately have "adds routineCall ?w2 w4" by (rule adds_trans)
  then have "adds routineCall ?w2 (emit (Notify site) (bumpGuard site ch (emit (PutContinuousState (s3\<lparr>s_UpdatedAt := now\<rparr>)) w4)))"
    using put3 by (simp add: adds_emit)
  moreover have "adds routineCall ?w2 ?w2" by (simp add: adds_def)
  ultimately have "adds routineCall ?w2 (latchChannel E site ch base latest streak started now s w)"
    by (simp add: latchChannel_def st ad Let_def)
  moreover have "latched ?s2" by (simp add: latched_def)
  ultimately show ?thesis using that ok2 quiet by blast
qed

lemma adds_split:
  assumes "adds P u w" "trace w = xs @ c # ys" "c \<notin> set (trace u)"
  shows "\<exists>zs. ys = zs @ trace u"
proof -
  obtain cs where cs: "trace w = cs @ trace u" using assms(1) by (auto simp: adds_def)
  then consider zs where "xs = cs @ zs" "zs @ c # ys = trace u" | zs where "cs = xs @ zs" "c # ys = zs @ trace u"
    using assms(2) by (auto simp: append_eq_append_conv2)
  then show ?thesis
  proof cases
    case 1
    then have "c \<in> set (trace u)" by (metis in_set_conv_decomp)
    then show ?thesis using assms(3) by simp
  next
    case 2
    then show ?thesis using assms(3) by (cases zs) (auto, metis list.set_intros(1))
  qed
qed

text \<open>What the stores answered when a fault was latched: the control interface was reachable, and the
  policy, the channel's base values and its control revision are still those the evidence was observed
  under.\<close>

definition currentInputs ::
    "env \<Rightarrow> string \<Rightarrow> int64 \<Rightarrow> ChannelBaseValue \<Rightarrow> PolicyRecord \<Rightarrow> int64 \<Rightarrow> ChannelBaseValue \<Rightarrow> PolicyRecord \<Rightarrow> ContinuousState \<Rightarrow> bool" where
  "currentInputs E site ch observed policy revision base latest s \<longleftrightarrow>
     (\<exists>h h' h'' bases states.
        getPolicy E h site = Inl (Some latest) \<and> pr_UpdatedAt latest = pr_UpdatedAt policy \<and>
        listChannelBaseValues E h' site = Inl bases \<and> base = findBase ch bases \<and>
        b_UpdatedAt base = b_UpdatedAt observed \<and> b_ModelName base = b_ModelName observed \<and>
        listContinuousStates E h'' site = Inl states \<and> s = findState ch states \<and>
        s_ControlRevision s = revision \<and> routineEligible base s latest)"

lemma applyRoutineEvidence_cases:
  fixes E site ch observed policy revision streak started w
  defines "w' \<equiv> snd (applyRoutineEvidence E site ch observed policy revision streak started w)"
  obtains "adds isQuiet w w'"
  | base latest s now u where "streakTripped (pol_Continuous (pr_Policy policy)) streak" "checkControl E (trace w) = None"
      "currentInputs E site ch observed policy revision base latest s" "adds isQuiet w u"
      "w' = latchChannel E site ch base latest streak started now s u"
proof (cases "adds isQuiet w w'")
  case False
  let ?w4 = "emit (ListContinuousStates site) (emit (ListChannelBaseValues site) (emit (GetPolicy site) (emit CheckControl w)))"
  have "adds isQuiet w (emit Now ?w4)" by (simp add: adds_def)
  moreover from False obtain latest bases states where
      "streakTripped (pol_Continuous (pr_Policy policy)) streak" "checkControl E (trace w) = None"
      "getPolicy E (CheckControl # trace w) site = Inl (Some latest)" "pr_UpdatedAt latest = pr_UpdatedAt policy"
      "listChannelBaseValues E (GetPolicy site # CheckControl # trace w) site = Inl bases"
      "b_UpdatedAt (findBase ch bases) = b_UpdatedAt observed" "b_ModelName (findBase ch bases) = b_ModelName observed"
      "listContinuousStates E (ListChannelBaseValues site # GetPolicy site # CheckControl # trace w) site = Inl states"
      "s_ControlRevision (findState ch states) = revision" "routineEligible (findBase ch bases) (findState ch states) latest"
      "w' = latchChannel E site ch (findBase ch bases) latest streak started (clock E (trace ?w4)) (findState ch states) (emit Now ?w4)"
    unfolding w'_def applyRoutineEvidence_def Let_def
    by (auto simp: adds_def split: if_splits sum.splits option.splits)
  moreover from this have "currentInputs E site ch observed policy revision (findBase ch bases) latest (findState ch states)"
    unfolding currentInputs_def by blast
  ultimately show ?thesis using that(2) by blast
qed (rule that(1))

text \<open>The policies the store returns passed validation.\<close>

definition policiesOk :: "env \<Rightarrow> bool" where
  "policiesOk E \<longleftrightarrow> (\<forall>h site pr. getPolicy E h site = Inl (Some pr) \<longrightarrow> wfParams (pol_Continuous (pr_Policy pr)))"

lemma currentInputs_ok:
  assumes "storedOk E" "policiesOk E" "currentInputs E site ch observed policy revision base latest s"
  shows "wfStored s" "wfParams (pol_Continuous (pr_Policy latest))"
proof -
  obtain h states where "listContinuousStates E h site = Inl states" "s = findState ch states"
    using assms(3) by (auto simp: currentInputs_def)
  then show "wfStored s" using assms(1) findState_ok by (auto simp: storedOk_def)
  show "wfParams (pol_Continuous (pr_Policy latest))" using assms(2,3) by (auto simp: currentInputs_def policiesOk_def)
qed

text \<open>What the stores said of a channel a worker runs for.\<close>

definition wantedOk :: "env \<Rightarrow> channelKey \<Rightarrow> bool" where
  "wantedOk E k \<longleftrightarrow>
     (\<exists>h h' h'' pr bases states base.
        getPolicy E h (fst k) = Inl (Some pr) \<and> listChannelBaseValues E h' (fst k) = Inl bases \<and>
        listContinuousStates E h'' (fst k) = Inl states \<and> base \<in> set bases \<and> b_ChannelID base = snd k \<and>
        routineEligible base (stateAt (indexBy s_ChannelID states) (snd k)) pr)"

text \<open>The invariant of a pass over the table \<open>R\<close>: keys stay distinct, an unfinished worker keeps its
  entry and none is started beside it, and every wanted channel is eligible.\<close>

definition supInv :: "env \<Rightarrow> (channelKey \<times> routineRun) list \<Rightarrow> supervisor \<Rightarrow> bool" where
  "supInv E R v \<longleftrightarrow> distinct (map fst (sup_running v)) \<and>
     (\<forall>k r. map_of R k = Some r \<and> \<not> run_done r \<longrightarrow> map_of (sup_running v) k = Some r \<and> k \<notin> set (sup_started v)) \<and>
     (\<forall>k \<in> set (sup_wanted v). wantedOk E k)"

lemma supInv_startWorker:
  assumes "supInv E R v" "\<And>r. map_of (sup_running v) key = Some r \<Longrightarrow> run_done r"
  shows "supInv E R (startWorker key signature v)"
proof -
  have "k \<noteq> key" if "map_of R k = Some r" "\<not> run_done r" for k r
    using assms that unfolding supInv_def by metis
  then show ?thesis
    using assms(1) by (auto simp: supInv_def startWorker_def update_conv' distinct_update simp del: split_paired_All)
qed

lemma supInv_cancelled:
  "supInv E R (v\<lparr>sup_cancelled := cs\<rparr>) \<longleftrightarrow> supInv E R v"
  by (auto simp: supInv_def simp del: split_paired_All)

lemma supInv_superviseOne:
  assumes "supInv E R v" "wantedOk E key"
  shows "supInv E R (superviseOne key signature v)"
proof -
  let ?v = "v\<lparr>sup_wanted := key # sup_wanted v\<rparr>"
  have v: "supInv E R ?v" using assms by (auto simp: supInv_def simp del: split_paired_All)
  show ?thesis
  proof (cases "map_of (sup_running v) key")
    case None
    then show ?thesis using supInv_startWorker[OF v, of key signature] by (simp add: superviseOne_def Let_def)
  next
    case (Some old)
    have "supInv E R (?v\<lparr>sup_cancelled := key # sup_cancelled v\<rparr>)" using v by (simp only: supInv_cancelled)
    then show ?thesis using supInv_startWorker[OF v, of key signature] Some v by (simp add: superviseOne_def Let_def)
  qed
qed

lemma supInv_bases:
  assumes "supInv E R v" "getPolicy E h site = Inl (Some pr)" "listChannelBaseValues E h' site = Inl bases"
    "listContinuousStates E h'' site = Inl states" "set bs \<subseteq> set bases"
  shows "supInv E R (foldl (\<lambda>v base. superviseBase fmtTime site config pr (indexBy s_ChannelID states) base v) v bs)"
  using assms(1,5)
proof (induction bs arbitrary: v)
  case (Cons b bs)
  have "wantedOk E (site, b_ChannelID b)" if "routineEligible b (stateAt (indexBy s_ChannelID states) (b_ChannelID b)) pr"
    unfolding wantedOk_def using Cons.prems(2) assms(2-4) that
    by (intro exI[of _ h] exI[of _ h'] exI[of _ h''] exI[of _ pr] exI[of _ bases] exI[of _ states] exI[of _ b]) auto
  then have "supInv E R (superviseBase fmtTime site config pr (indexBy s_ChannelID states) b v)"
    using Cons.prems(1) supInv_superviseOne by (simp add: superviseBase_def Let_def)
  then show ?case using Cons by simp
qed simp

lemma supInv_site: "supInv E R v \<Longrightarrow> supInv E R (fst (superviseSite E fmtTime site v w))"
  using supInv_bases[of E R v _ site] by (auto simp: superviseSite_def Let_def split: sum.splits option.splits)

lemma supInv_sites: "supInv E R v \<Longrightarrow> supInv E R (fst (snd (superviseSites E fmtTime sites v w)))"
proof (induction sites arbitrary: v w)
  case (Cons site sites)
  then show ?case using supInv_site[OF Cons.prems, of fmtTime site w]
    by (auto split: prod.split)
qed simp

text \<open>A concrete fault: three slow probes of channel 7.\<close>

definition exampleStreak :: routineStreak where
  "exampleStreak = \<lparr>st_slow = 3, st_errors = 0, st_healthy = 0\<rparr>"

definition exampleLatched :: world where
  "exampleLatched = snd (applyRoutineEvidence exampleFastEnv ''site'' 7 exampleBase exampleAutoRecord 0 exampleStreak 0 exampleWorld)"

lemma example_inputs: "storedOk exampleFastEnv" "policiesOk exampleFastEnv"
  by (simp_all add: storedOk_def policiesOk_def wfParams_DefaultContinuous)

lemma example_eligible: "routineEligible exampleBase zeroContinuousState exampleAutoRecord"
proof -
  have "p_RoutineProbeSelectedOnly DefaultContinuous = False" by (simp add: DefaultContinuous_def)
  then have "RoutineProbeEnabledFor DefaultContinuous 7"
    by (simp add: RoutineProbeEnabledFor_def Rules_Default DefaultContinuousRules_def)
  moreover have "b_ChannelID exampleBase = 7" by (simp add: exampleBase_def)
  moreover have "modeOf (pr_Policy exampleAutoRecord) (b_ModelName exampleBase) = ''auto''"
    by (simp add: exampleBase_def modeOf_def exampleAutoRecord_def)
  ultimately show ?thesis
    by (simp add: routineEligible_def) (simp add: exampleBase_def zeroContinuousState_def ManualDisabled_def)
qed

lemma example_latch: "\<exists>s. PutContinuousState s \<in> set (trace exampleLatched) \<and> latched s"
proof -
  have trip: "streakTripped DefaultContinuous exampleStreak"
    by (simp add: streakTripped_def Rules_Default DefaultContinuousRules_def exampleStreak_def)
  have base: "findBase 7 [exampleBase] = exampleBase" by (simp add: exampleBase_def)
  have rev: "s_ControlRevision zeroContinuousState = 0" by (simp add: zeroContinuousState_def)
  have control: "checkControl exampleFastEnv h = None" for h by (simp add: exampleFastEnv_def)
  obtain now u where l: "exampleLatched =
      latchChannel exampleFastEnv ''site'' 7 exampleBase exampleAutoRecord exampleStreak 0 now zeroContinuousState u"
    unfolding exampleLatched_def applyRoutineEvidence_def Let_def
    by (simp add: trip control base rev example_eligible del: findBase.simps)
  have "wfParams (pol_Continuous (pr_Policy exampleAutoRecord))" by (simp add: wfParams_DefaultContinuous)
  from latchChannel_shape[OF this wfStored_zero] obtain s2 w1 where sh: "latched s2"
    "adds routineCall (emit (PutContinuousState s2) w1) exampleLatched" unfolding l by metis
  from adds_mem[OF sh(2), of "PutContinuousState s2"] sh(1) show ?thesis by auto
qed

section \<open>Properties\<close>



text \<open>Probe evidence acts only on current inputs: whenever it changes anything, the streak reached a
  limit of the policy it was gathered under, the control interface answered, and the policy, the
  channel's base values and its control revision are the ones the evidence was gathered under, with the
  channel still eligible.\<close>

theorem routine_evidence_is_current:
  assumes "c \<in> set (trace (snd (applyRoutineEvidence E site ch observed policy revision streak started w)))"
    and "c \<notin> set (trace w)" "\<not> isQuiet c"
  shows "(streakTripped (pol_Continuous (pr_Policy policy)) streak) \<and>
    (checkControl E (trace w) = None) \<and>
    (\<exists>base latest s. currentInputs E site ch observed policy revision base latest s)"
proof (cases rule: applyRoutineEvidence_cases[of w E site ch observed policy revision streak started])
  case 1
  then show ?thesis using adds_set[OF 1 assms(1)] assms(2,3) by simp
qed auto

theorem routine_evidence_is_current_witness:
  "streakTripped (pol_Continuous (pr_Policy exampleAutoRecord)) exampleStreak \<and>
   (\<exists>base latest s. currentInputs exampleFastEnv ''site'' 7 exampleBase exampleAutoRecord 0 base latest s)"
proof -
  obtain s where "PutContinuousState s \<in> set (trace exampleLatched)" using example_latch by blast
  from routine_evidence_is_current[OF this[unfolded exampleLatched_def]] show ?thesis by auto
qed

text \<open>C10: one pass of the routine-probe supervisor keeps at most one worker per channel: the table has one
  entry per channel, no worker is started for a channel whose worker has not finished, no unfinished worker
  leaves the table without being cancelled, and every worker left in the table belongs to a channel that
  the stores report as eligible.\<close>

theorem supervisor_one_worker_per_channel:
  assumes "distinct (map fst running)" "supervisePass E fmtTime running w = (go, v, w')"
  shows "(distinct (map fst (sup_running v))) \<and>
    ((k, r) \<in> set running \<longrightarrow> \<not> run_done r \<longrightarrow> k \<notin> set (sup_started v)) \<and>
    ((k, r) \<in> set running \<longrightarrow> \<not> run_done r \<longrightarrow> (k, r) \<in> set (sup_running v) \<or> k \<in> set (sup_cancelled v)) \<and>
    (k \<in> fst ` set (sup_running v) \<longrightarrow> wantedOk E k)"
proof -
  let ?v0 = "\<lparr>sup_running = running, sup_wanted = [], sup_cancelled = [], sup_started = []\<rparr> :: supervisor"
  obtain sites u where p: "superviseSites E fmtTime sites ?v0 (emit ListEnabledSites w) = (go, u, w')"
    "v = (if go then dropUnwanted u else cancelAll u)"
    using assms(2) by (auto simp: supervisePass_def Let_def split: prod.splits)
  have "supInv E running ?v0" using assms(1) by (simp add: supInv_def)
  then have inv: "supInv E running u" using supInv_sites[of E running ?v0 fmtTime sites] p(1) by (metis fst_conv snd_conv)
  then have d: "distinct (map fst (sup_running v))"
    using p(2) by (auto simp: supInv_def dropUnwanted_def cancelAll_def distinct_map filter_set inj_on_def)
  have old: "map_of (sup_running u) k = Some r \<and> k \<notin> set (sup_started u)" if "(k, r) \<in> set running" "\<not> run_done r"
    using inv that assms(1) map_of_is_SomeI[of running k r] unfolding supInv_def by metis
  then have "(k, r) \<in> set running \<Longrightarrow> \<not> run_done r \<Longrightarrow> k \<notin> set (sup_started v)"
    using p(2) by (auto simp: dropUnwanted_def cancelAll_def)
  moreover have "(k, r) \<in> set running \<Longrightarrow> \<not> run_done r \<Longrightarrow> (k, r) \<in> set (sup_running v) \<or> k \<in> set (sup_cancelled v)"
    using old p(2) by (auto simp: dropUnwanted_def cancelAll_def dest!: map_of_SomeD) force+
  moreover have "k \<in> fst ` set (sup_running v) \<Longrightarrow> wantedOk E k"
    using inv p(2) by (auto simp: supInv_def dropUnwanted_def cancelAll_def split: if_splits)
  ultimately show ?thesis using d by blast
qed

theorem supervisor_one_worker_per_channel_witness:
  "let v = fst (snd (supervisePass exampleFastEnv (\<lambda>t. []) [((''site'', 9), \<lparr>run_signature = [], run_done = False\<rparr>)] exampleWorld))
   in (''site'', 9) \<notin> set (sup_started v) \<and> (''site'', 9) \<in> set (sup_cancelled v)"
proof -
  let ?R = "[((''site'', 9), \<lparr>run_signature = [], run_done = False\<rparr>)] :: (channelKey \<times> routineRun) list"
  obtain go v w' where p: "supervisePass exampleFastEnv (\<lambda>t. []) ?R exampleWorld = (go, v, w')" by (metis prod.exhaust)
  have no: "\<not> wantedOk exampleFastEnv (''site'', 9)" by (simp add: wantedOk_def) (simp add: exampleBase_def)
  have d: "distinct (map fst ?R)" by simp
  show ?thesis
    using supervisor_one_worker_per_channel[OF d p, of "(''site'', 9)" "\<lparr>run_signature = [], run_done = False\<rparr>"] no
    by (force simp: p Let_def)
qed

end
