(* ===== verification/ScheduleProofs.thy ===== *)
theory ScheduleProofs
  imports ChannelSchedule "HOL-Library.Multiset"
begin

text \<open>
  Correctness of the weekly schedules: the text of a time of day, the canonical form of the merged
  intervals, and the position of an instant, which announces exactly the next change of the schedule.
\<close>

section \<open>Times of day\<close>

lemma showInt2_digits:
  assumes "0 \<le> i" "i < 100"
  shows "showInt2 i = [digitChar (nat i div 10), digitChar (nat i mod 10)]"
proof (cases "i < 10")
  case True
  then have "nat i < 10" using assms by simp
  then have "showNat (nat i) = [digitChar (nat i)]" by (subst showNat.simps) simp
  moreover have "CHR ''0'' = digitChar 0" by code_simp
  ultimately show ?thesis using True assms by (simp add: showInt2_def showInt_def Let_def)
next
  case False
  then have "10 \<le> nat i" "nat i div 10 < 10" using assms by auto
  then have "showNat (nat i) = [digitChar (nat i div 10), digitChar (nat i mod 10)]"
    by (subst showNat.simps, subst showNat.simps) simp
  then show ?thesis using assms by (simp add: showInt2_def showInt_def Let_def)
qed

lemma atoi_digits: "a < 10 \<Longrightarrow> b < 10 \<Longrightarrow> atoi [digitChar a, digitChar b] = Some (int (10 * a + b))"
  using digitChar_not_sign[of a] by (simp add: atoi_def)

lemma atoi_showInt2: "0 \<le> i \<Longrightarrow> i < 100 \<Longrightarrow> atoi (showInt2 i) = Some i"
  by (simp add: showInt2_digits atoi_digits)

definition minuteText :: "int \<Rightarrow> string" where
  "minuteText n = showInt2 (n div 60) @ '':'' @ showInt2 (n mod 60)"

lemma ScheduleMinute_minuteText:
  assumes "0 \<le> n" "n < 1440"
  shows "ScheduleMinute (minuteText n) = Inl n"
proof -
  have r: "0 \<le> n div 60" "n div 60 \<le> 23" "0 \<le> n mod 60" "n mod 60 \<le> 59" using assms by auto
  then have l: "length (showInt2 (n div 60)) = 2" "length (showInt2 (n mod 60)) = 2" by (simp_all add: showInt2_digits)
  have "take 2 (minuteText n) = showInt2 (n div 60)" "drop 3 (minuteText n) = showInt2 (n mod 60)"
    "length (minuteText n) = 5" "minuteText n ! 2 = CHR '':''"
    using l by (simp_all add: minuteText_def nth_append)
  then show ?thesis using r by (simp add: ScheduleMinute_def atoi_showInt2) (simp add: minuteText_def)
qed

lemma ScheduleMinute_text:
  assumes "ScheduleMinute v = Inl n"
  shows "0 \<le> n \<and> n < 1440 \<and> v = minuteText n"
proof -
  obtain h where h: "atoi (take 2 v) = Some h"
    using assms by (auto simp: ScheduleMinute_def split: if_splits option.splits)
  obtain m where "atoi (drop 3 v) = Some m"
    using assms by (auto simp: ScheduleMinute_def split: if_splits option.splits)
  with h assms have "0 \<le> h" "h \<le> 23" "0 \<le> m" "m \<le> 59" "v = showInt2 h @ '':'' @ showInt2 m" "n = h * 60 + m"
    by (simp_all add: ScheduleMinute_def split: if_splits)
  then show ?thesis by (auto simp: minuteText_def)
qed

section \<open>Merging intervals\<close>

definition covers :: "interval list \<Rightarrow> int \<Rightarrow> bool" where
  "covers xs t \<longleftrightarrow> (\<exists>v \<in> set xs. itv_start v \<le> t \<and> t < itv_end v)"

text \<open>Canonical: not empty, in order, and separated by gaps.\<close>

fun canonical :: "interval list \<Rightarrow> bool" where
  "canonical [] \<longleftrightarrow> True"
| "canonical (v # vs) \<longleftrightarrow> itv_start v < itv_end v \<and> (\<forall>u \<in> set vs. itv_end v < itv_start u) \<and> canonical vs"

lemma covers_simps [simp]:
  "\<not> covers [] t"
  "covers (v # vs) t \<longleftrightarrow> itv_start v \<le> t \<and> t < itv_end v \<or> covers vs t"
  "covers (xs @ ys) t \<longleftrightarrow> covers xs t \<or> covers ys t"
  by (auto simp: covers_def)

lemma canonical_append [simp]:
  "canonical (xs @ ys) \<longleftrightarrow> canonical xs \<and> canonical ys \<and> (\<forall>u \<in> set xs. \<forall>v \<in> set ys. itv_end u < itv_start v)"
  by (induction xs) auto

lemma canonical_nonempty: "canonical xs \<Longrightarrow> v \<in> set xs \<Longrightarrow> itv_start v < itv_end v"
  by (induction xs) auto

lemma canonical_covers_tail: "canonical (v # vs) \<Longrightarrow> covers vs t \<longleftrightarrow> covers (v # vs) t \<and> itv_end v \<le> t"
  by (auto simp: covers_def)

lemma covers_starts: "canonical xs \<Longrightarrow> v \<in> set xs \<Longrightarrow> covers xs (itv_start v)"
  using canonical_nonempty by (auto simp: covers_def)

text \<open>A canonical list is determined by the set it covers.\<close>

lemma canonical_hd:
  assumes "canonical (a # as)" "canonical (b # bs)" "\<And>t. covers (a # as) t = covers (b # bs) t"
  shows "itv_start b \<le> itv_start a \<and> itv_end b \<le> itv_end a"
proof
  have "covers (b # bs) (itv_start a)" using assms(1,3) by auto
  then show s: "itv_start b \<le> itv_start a" using assms(2) by (fastforce simp: covers_def)
  show "itv_end b \<le> itv_end a"
  proof (rule ccontr)
    assume "\<not> itv_end b \<le> itv_end a"
    then have "covers (b # bs) (itv_end a)" using s assms(1) by simp
    then have "covers (a # as) (itv_end a)" using assms(3) by blast
    then show False using assms(1) by (fastforce simp: covers_def)
  qed
qed

lemma canonical_unique:
  assumes "canonical xs" "canonical ys" "\<And>t. covers xs t = covers ys t"
  shows "xs = ys"
  using assms
proof (induction xs arbitrary: ys)
  case Nil
  then show ?case using covers_starts[of ys "hd ys"] by (cases ys) auto
next
  case (Cons a as)
  then obtain b bs where ys: "ys = b # bs" by (cases ys) auto
  have "itv_start a = itv_start b" "itv_end a = itv_end b"
    using canonical_hd[of a as b bs] canonical_hd[of b bs a as] Cons.prems ys by auto
  then have ab: "a = b" by simp
  have "covers as t = covers bs t" for t
    using canonical_covers_tail[of a as t] canonical_covers_tail[of b bs t] Cons.prems ys ab by blast
  then show ?case using Cons ys ab by simp
qed

text \<open>One step of the merge loop, on a segment that starts after every interval merged so far.\<close>

lemma mergeStep_ok:
  assumes "canonical m" "itv_start v < itv_end v" "\<forall>u \<in> set m. itv_start u \<le> itv_start v"
  shows "canonical (mergeStep m v)" "covers (mergeStep m v) t \<longleftrightarrow> covers m t \<or> itv_start v \<le> t \<and> t < itv_end v"
    "\<forall>u \<in> set (mergeStep m v). itv_start u \<le> itv_start v"
proof -
  have "canonical (mergeStep m v) \<and> (covers (mergeStep m v) t \<longleftrightarrow> covers m t \<or> itv_start v \<le> t \<and> t < itv_end v) \<and>
    (\<forall>u \<in> set (mergeStep m v). itv_start u \<le> itv_start v)"
  proof (cases m rule: rev_cases)
    case Nil
    then show ?thesis using assms(2) by (auto simp: mergeStep_def)
  next
    case (snoc us u)
    then show ?thesis using assms by (auto simp: mergeStep_def)
  qed
  then show "canonical (mergeStep m v)" "covers (mergeStep m v) t \<longleftrightarrow> covers m t \<or> itv_start v \<le> t \<and> t < itv_end v"
    "\<forall>u \<in> set (mergeStep m v). itv_start u \<le> itv_start v" by simp_all
qed

lemma merge_foldl:
  assumes "sorted (map itv_start xs)" "\<forall>v \<in> set xs. itv_start v < itv_end v" "canonical m"
    "\<forall>u \<in> set m. \<forall>v \<in> set xs. itv_start u \<le> itv_start v"
  shows "canonical (foldl mergeStep m xs) \<and> (\<forall>t. covers (foldl mergeStep m xs) t \<longleftrightarrow> covers m t \<or> covers xs t)"
  using assms
proof (induction xs arbitrary: m)
  case (Cons v vs)
  have step: "canonical (mergeStep m v)" "\<And>t. covers (mergeStep m v) t \<longleftrightarrow> covers m t \<or> itv_start v \<le> t \<and> t < itv_end v"
    "\<forall>u \<in> set (mergeStep m v). itv_start u \<le> itv_start v"
    using mergeStep_ok[of m v] Cons.prems by auto
  have "\<forall>u \<in> set (mergeStep m v). \<forall>x \<in> set vs. itv_start u \<le> itv_start x"
    using step(3) Cons.prems(1) by fastforce
  with Cons.IH[of "mergeStep m v"] step Cons.prems show ?case by auto
qed simp

text \<open>Whatever sorting the program uses, the merged list is the canonical form of the segments.\<close>

lemma merge_canonical:
  assumes "sorted (map itv_start ys)" "mset ys = mset xs" "\<forall>v \<in> set xs. itv_start v < itv_end v"
  shows "canonical (foldl mergeStep [] ys)" "covers (foldl mergeStep [] ys) t = covers xs t"
    "foldl mergeStep [] ys = foldl mergeStep [] (sort_key itv_start xs)"
proof -
  have set: "set ys = set xs" using assms(2) by (rule mset_eq_setD)
  then have c: "covers ys t = covers xs t" for t by (simp add: covers_def)
  have a: "canonical (foldl mergeStep [] ys)" "covers (foldl mergeStep [] ys) t = covers xs t" for t
    using merge_foldl[of ys "[]"] assms set c by auto
  have "canonical (foldl mergeStep [] (sort_key itv_start xs))"
    "covers (foldl mergeStep [] (sort_key itv_start xs)) t = covers xs t" for t
    using merge_foldl[of "sort_key itv_start xs" "[]"] assms(3) by (auto simp: covers_def)
  then show "canonical (foldl mergeStep [] ys)" "covers (foldl mergeStep [] ys) t = covers xs t"
    "foldl mergeStep [] ys = foldl mergeStep [] (sort_key itv_start xs)"
    using a canonical_unique by auto
qed

lemma weekIntervals_canonical:
  assumes "\<forall>v \<in> set (weekSegments c). itv_start v < itv_end v"
  shows "canonical (weekIntervals c)" "covers (weekIntervals c) t = covers (weekSegments c) t"
  using merge_canonical[of "sort_key itv_start (weekSegments c)" "weekSegments c"] assms
  by (simp_all add: weekIntervals_def)

section \<open>Normalised configurations\<close>

definition validWindow :: "Window \<Rightarrow> bool" where
  "validWindow w \<longleftrightarrow> (\<exists>a b. ScheduleMinute (win_Start w) = Inl a \<and> ScheduleMinute (win_End w) = Inl b \<and> a \<noteq> b)"

definition validConfig :: "Config \<Rightarrow> bool" where
  "validConfig c \<longleftrightarrow> (\<forall>day \<in> set (cfg_Days c). 1 \<le> day \<and> day \<le> 7) \<and> (\<forall>w \<in> set (cfg_Windows c). validWindow w)"

lemma daysBad_iff: "\<not> daysBad seen days \<longleftrightarrow> (\<forall>d \<in> set days. 1 \<le> d \<and> d \<le> 7 \<and> d \<notin> set seen) \<and> distinct days"
  by (induction days arbitrary: seen) auto

lemma normalizeWindows_valid: "normalizeWindows ws = (vs, None) \<Longrightarrow> \<forall>v \<in> set vs. validWindow v"
proof (induction ws arbitrary: vs)
  case (Cons w ws)
  from Cons.prems obtain a b us where "ScheduleMinute (trimSpace (win_Start w)) = Inl a" "ScheduleMinute (trimSpace (win_End w)) = Inl b"
    "a \<noteq> b" "normalizeWindows ws = (us, None)"
    "vs = \<lparr>win_Start = trimSpace (win_Start w), win_End = trimSpace (win_End w)\<rparr> # us"
    by (auto simp: Let_def split: sum.splits if_splits prod.splits)
  then show ?case using Cons.IH by (auto simp: validWindow_def)
qed simp

lemma Normalize_valid: "Normalize c = (d, None) \<Longrightarrow> validConfig d"
  using normalizeWindows_valid daysBad_iff[of "[]" "cfg_Days c"]
  by (auto simp: Normalize_def validConfig_def split: if_splits prod.splits)

text \<open>The reference reading of a configuration: minute \<open>t\<close> of the week lies in a window of some day,
  possibly one that began in the previous week.\<close>

definition windowLength :: "Window \<Rightarrow> int" where
  "windowLength w = (minuteOf (win_End w) - minuteOf (win_Start w)) mod 1440"

definition inWindow :: "Config \<Rightarrow> int \<Rightarrow> bool" where
  "inWindow c t \<longleftrightarrow>
     (\<exists>day \<in> set (cfg_Days c). \<exists>w \<in> set (cfg_Windows c).
        (t - ((day - 1) * 1440 + minuteOf (win_Start w))) mod weekMinutes < windowLength w)"

lemma mod_shift:
  fixes x m :: int
  assumes "- m < x" "x < m"
  shows "x mod m = (if 0 \<le> x then x else x + m)"
proof (cases "0 \<le> x")
  case False
  have "x mod m = (x + m) mod m" by simp
  also have "\<dots> = x + m" using assms False by (intro mod_pos_pos_trivial) auto
  finally show ?thesis using False by simp
qed (use assms in simp)

lemma validWindow_minutes:
  assumes "validWindow w"
  obtains s e where "minuteOf (win_Start w) = s" "minuteOf (win_End w) = e" "0 \<le> s" "s < 1440" "0 \<le> e" "e < 1440" "s \<noteq> e"
proof -
  obtain a b where "ScheduleMinute (win_Start w) = Inl a" "ScheduleMinute (win_End w) = Inl b" "a \<noteq> b"
    using assms by (auto simp: validWindow_def)
  then show ?thesis using that[of a b] ScheduleMinute_text by (simp add: minuteOf_def)
qed

lemma windowLength_valid: "validWindow w \<Longrightarrow> 0 < windowLength w \<and> windowLength w < 1440"
proof -
  assume "validWindow w"
  then obtain s e where se: "minuteOf (win_Start w) = s" "minuteOf (win_End w) = e" "0 \<le> s" "s < 1440" "0 \<le> e" "e < 1440" "s \<noteq> e"
    by (rule validWindow_minutes)
  then show ?thesis using mod_shift[of 1440 "e - s"] by (simp add: windowLength_def)
qed

lemma windowSegments_ok:
  assumes "validWindow w" "1 \<le> day" "day \<le> 7"
  shows "\<forall>v \<in> set (windowSegments day w). 0 \<le> itv_start v \<and> itv_start v < itv_end v \<and> itv_end v \<le> weekMinutes"
    and "0 \<le> t \<Longrightarrow> t < weekMinutes \<Longrightarrow> covers (windowSegments day w) t \<longleftrightarrow>
      (t - ((day - 1) * 1440 + minuteOf (win_Start w))) mod weekMinutes < windowLength w"
proof -
  obtain s e where se: "minuteOf (win_Start w) = s" "minuteOf (win_End w) = e" "0 \<le> s" "s < 1440" "0 \<le> e" "e < 1440" "s \<noteq> e"
    using assms(1) by (rule validWindow_minutes)
  show "\<forall>v \<in> set (windowSegments day w). 0 \<le> itv_start v \<and> itv_start v < itv_end v \<and> itv_end v \<le> weekMinutes"
    using se assms(2,3) by (auto simp: windowSegments_def Let_def weekMinutes_def)
  define L where "L = windowLength w"
  have L: "(if e < s then e + 1440 else e) = s + L" "0 < L" "L < 1440"
    using se windowLength_valid[OF assms(1)] mod_shift[of 1440 "e - s"] by (simp_all add: L_def windowLength_def)
  define b where "b = (day - 1) * 1440 + s"
  have b: "0 \<le> b" "b < weekMinutes" using assms(2,3) se by (auto simp: b_def weekMinutes_def)
  have seg: "windowSegments day w = (if b + L > weekMinutes
      then [\<lparr>itv_start = 0, itv_end = b + L - weekMinutes\<rparr>, \<lparr>itv_start = b, itv_end = weekMinutes\<rparr>]
      else [\<lparr>itv_start = b, itv_end = b + L\<rparr>])"
    using L(1) se(1,2) by (simp add: windowSegments_def Let_def b_def algebra_simps split: if_splits)
  assume t: "0 \<le> t" "t < weekMinutes"
  have "(t - b) mod weekMinutes = (if b \<le> t then t - b else t - b + weekMinutes)"
    using t b mod_shift[of weekMinutes "t - b"] by simp
  then have "covers (windowSegments day w) t \<longleftrightarrow> (t - b) mod weekMinutes < L"
    using t b L(2,3) by (simp add: seg) linarith
  then show "covers (windowSegments day w) t \<longleftrightarrow> (t - ((day - 1) * 1440 + minuteOf (win_Start w))) mod weekMinutes < windowLength w"
    by (simp only: b_def L_def se(1))
qed

lemma weekSegments_ok:
  assumes "validConfig c"
  shows "\<forall>v \<in> set (weekSegments c). 0 \<le> itv_start v \<and> itv_start v < itv_end v \<and> itv_end v \<le> weekMinutes"
    and "0 \<le> t \<Longrightarrow> t < weekMinutes \<Longrightarrow> covers (weekSegments c) t = inWindow c t"
proof -
  show "\<forall>v \<in> set (weekSegments c). 0 \<le> itv_start v \<and> itv_start v < itv_end v \<and> itv_end v \<le> weekMinutes"
    using assms windowSegments_ok(1) by (fastforce simp: weekSegments_def validConfig_def)
  assume t: "0 \<le> t" "t < weekMinutes"
  have "covers (weekSegments c) t \<longleftrightarrow>
      (\<exists>day \<in> set (cfg_Days c). \<exists>w \<in> set (cfg_Windows c). covers (windowSegments day w) t)"
    by (auto simp: covers_def weekSegments_def)
  then show "covers (weekSegments c) t = inWindow c t"
    using assms windowSegments_ok(2)[OF _ _ _ t] by (auto simp: validConfig_def inWindow_def)
qed

section \<open>Boundaries\<close>

text \<open>The intervals of a valid configuration lie in the week.\<close>

definition inWeek :: "interval list \<Rightarrow> bool" where
  "inWeek xs \<longleftrightarrow> canonical xs \<and> (\<forall>v \<in> set xs. 0 \<le> itv_start v \<and> itv_end v \<le> weekMinutes)"

lemma map_of_filter_neq: "map_of (filter (\<lambda>b. fst b \<noteq> k) bs) = (map_of bs)(k := None)"
  by (induction bs) (auto simp: fun_eq_iff)

lemma map_of_setBoundary: "map_of (setBoundary bs k v) = (map_of bs)(k \<mapsto> v)"
  by (auto simp: setBoundary_def map_add_def map_of_filter_neq fun_eq_iff split: option.split)

definition allBoundaries :: "interval list \<Rightarrow> (int \<times> int64) list" where
  "allBoundaries xs = foldl (\<lambda>bs v. setBoundary (setBoundary bs (itv_start v) 1) (itv_end v mod weekMinutes) 2) [] xs"

lemma weekMinutes_pos [simp]: "0 < weekMinutes"
  by (simp add: weekMinutes_def)

lemma inWeek_snoc:
  assumes "inWeek (xs @ [v])"
  shows "inWeek xs" "0 \<le> itv_start v" "itv_start v < itv_end v" "itv_end v \<le> weekMinutes"
    "u \<in> set xs \<Longrightarrow> itv_end u < itv_start v"
    "u \<in> set xs \<Longrightarrow> itv_end u mod weekMinutes = itv_end u \<and> 0 \<le> itv_start u \<and> itv_start u < itv_end u"
proof -
  show a: "inWeek xs" "0 \<le> itv_start v" "itv_start v < itv_end v" "itv_end v \<le> weekMinutes"
    using assms by (auto simp: inWeek_def)
  show b: "itv_end u < itv_start v" if "u \<in> set xs"
    using assms that by (auto simp: inWeek_def)
  assume u: "u \<in> set xs"
  then have "itv_start u < itv_end u" "0 \<le> itv_start u" using a(1) canonical_nonempty by (auto simp: inWeek_def)
  then show "itv_end u mod weekMinutes = itv_end u \<and> 0 \<le> itv_start u \<and> itv_start u < itv_end u"
    using a b[OF u] by (simp add: mod_pos_pos_trivial)
qed

lemma allBoundaries_map:
  assumes "inWeek xs"
  shows "map_of (allBoundaries xs) k =
    (if \<exists>v \<in> set xs. itv_end v mod weekMinutes = k then Some 2
     else if \<exists>v \<in> set xs. itv_start v = k then Some 1 else None)"
  using assms
proof (induction xs rule: rev_induct)
  case Nil
  then show ?case by (simp add: allBoundaries_def)
next
  case (snoc v xs)
  note s = inWeek_snoc[OF snoc.prems]
  have step: "map_of (allBoundaries (xs @ [v])) =
      (map_of (allBoundaries xs))(itv_start v \<mapsto> 1, itv_end v mod weekMinutes \<mapsto> 2)"
    by (simp add: allBoundaries_def map_of_setBoundary)
  have "itv_end u mod weekMinutes \<noteq> itv_start v" if "u \<in> set xs" for u using s(5,6)[OF that] by simp
  then show ?case using snoc.IH[OF s(1)] by (auto simp: step)
qed

lemma inWeek_ends:
  assumes "inWeek xs" "v \<in> set xs"
  shows "0 \<le> itv_start v" "itv_start v < itv_end v" "itv_end v \<le> weekMinutes"
    "itv_end v mod weekMinutes = (if itv_end v = weekMinutes then 0 else itv_end v)"
  using assms canonical_nonempty[of xs v] by (auto simp: inWeek_def mod_pos_pos_trivial)

lemma canonical_order:
  assumes "canonical xs" "u \<in> set xs" "v \<in> set xs" "u \<noteq> v"
  shows "itv_end u < itv_start v \<or> itv_end v < itv_start u"
  using assms by (induction xs) auto

lemma inWeek_edges:
  assumes "inWeek xs"
  shows "xs \<noteq> [] \<and> itv_start (hd xs) = 0 \<longleftrightarrow> (\<exists>v \<in> set xs. itv_start v = 0)"
    "xs \<noteq> [] \<and> itv_end (last xs) = weekMinutes \<longleftrightarrow> (\<exists>v \<in> set xs. itv_end v = weekMinutes)"
proof -
  show "xs \<noteq> [] \<and> itv_start (hd xs) = 0 \<longleftrightarrow> (\<exists>v \<in> set xs. itv_start v = 0)"
  proof (cases xs)
    case (Cons a as)
    then show ?thesis using assms by (fastforce simp: inWeek_def)
  qed simp
  show "xs \<noteq> [] \<and> itv_end (last xs) = weekMinutes \<longleftrightarrow> (\<exists>v \<in> set xs. itv_end v = weekMinutes)"
  proof (cases xs rule: rev_cases)
    case (snoc us u)
    then show ?thesis using inWeek_snoc[of us u] assms by fastforce
  qed simp
qed

text \<open>A minute is a boundary exactly when the schedule changes there, and its status says to what.\<close>

lemma boundaries_map:
  assumes "inWeek xs" "0 \<le> k" "k < weekMinutes"
  shows "map_of (boundaries xs) k =
    (if covers xs k = covers xs ((k - 1) mod weekMinutes) then None else Some (if covers xs k then 1 else 2))"
proof -
  have all: "map_of (boundaries xs) k =
      (if k = 0 \<and> (\<exists>v \<in> set xs. itv_start v = 0) \<and> (\<exists>v \<in> set xs. itv_end v = weekMinutes) then None
       else map_of (allBoundaries xs) k)"
    using inWeek_edges[OF assms(1)]
    by (auto simp: boundaries_def allBoundaries_def[symmetric] Let_def map_of_filter_neq)
  note e = inWeek_ends[OF assms(1)]
  show ?thesis
  proof (cases "k = 0")
    case True
    have prev: "(k - 1) mod weekMinutes = weekMinutes - 1" using True by (simp add: weekMinutes_def)
    have "covers xs 0 \<longleftrightarrow> (\<exists>v \<in> set xs. itv_start v = 0)"
      unfolding covers_def using e(1,2) by (intro bex_cong) force+
    moreover have "covers xs (weekMinutes - 1) \<longleftrightarrow> (\<exists>v \<in> set xs. itv_end v = weekMinutes)"
      unfolding covers_def using e(2,3) by (intro bex_cong) force+
    moreover have "(\<exists>v \<in> set xs. itv_end v mod weekMinutes = 0) \<longleftrightarrow> (\<exists>v \<in> set xs. itv_end v = weekMinutes)"
      using e(1,2,4) by (intro bex_cong) force+
    ultimately show ?thesis unfolding all allBoundaries_map[OF assms(1)] prev by (simp add: True) blast
  next
    case False
    have prev: "(k - 1) mod weekMinutes = k - 1" using False assms(2,3) by (simp add: mod_pos_pos_trivial)
    have ends: "(\<exists>v \<in> set xs. itv_end v mod weekMinutes = k) \<longleftrightarrow> (\<exists>v \<in> set xs. itv_end v = k)"
      using e(4) False assms(3) by (intro bex_cong) force+
    have c: "canonical xs" using assms(1) by (simp add: inWeek_def)
    have "\<not> covers xs k \<and> covers xs (k - 1)" if "v \<in> set xs" "itv_end v = k" for v
      using that e(2)[OF that(1)] canonical_order[OF c _ that(1)] by (force simp: covers_def)
    moreover have "covers xs k \<and> \<not> covers xs (k - 1)" if "v \<in> set xs" "itv_start v = k" for v
      using that e(2)[OF that(1)] canonical_order[OF c _ that(1)] by (force simp: covers_def)
    moreover have "covers xs k = covers xs (k - 1)" if "\<forall>v \<in> set xs. itv_end v \<noteq> k \<and> itv_start v \<noteq> k"
      using that by (force simp: covers_def)
    ultimately show ?thesis unfolding all allBoundaries_map[OF assms(1)] prev ends using False by auto
  qed
qed

lemma setBoundary_keys:
  "distinct (map fst bs) \<Longrightarrow> distinct (map fst (setBoundary bs k v))"
  "fst ` set (setBoundary bs k v) = insert k (fst ` set bs)"
  by (auto simp: setBoundary_def distinct_map_filter)

lemma allBoundaries_snoc:
  "allBoundaries (xs @ [v]) = setBoundary (setBoundary (allBoundaries xs) (itv_start v) 1) (itv_end v mod weekMinutes) 2"
  by (simp add: allBoundaries_def)

lemma allBoundaries_keys:
  "distinct (map fst (allBoundaries xs)) \<and>
   fst ` set (allBoundaries xs) = itv_start ` set xs \<union> (\<lambda>v. itv_end v mod weekMinutes) ` set xs"
proof (induction xs rule: rev_induct)
  case (snoc v xs)
  then show ?case by (auto simp: allBoundaries_snoc setBoundary_keys)
qed (simp add: allBoundaries_def)

lemma boundaries_keys:
  assumes "inWeek xs" "(k, st) \<in> set (boundaries xs)"
  shows "0 \<le> k" "k < weekMinutes" "map_of (boundaries xs) k = Some st"
proof -
  have sub: "set (boundaries xs) \<subseteq> set (allBoundaries xs)" and d: "distinct (map fst (boundaries xs))"
    using allBoundaries_keys[of xs]
    by (auto simp: boundaries_def allBoundaries_def[symmetric] Let_def distinct_map_filter)
  have "k \<in> fst ` set (allBoundaries xs)" using assms(2) sub by force
  then obtain v where v: "v \<in> set xs" "k = itv_start v \<or> k = itv_end v mod weekMinutes"
    using allBoundaries_keys[of xs] by auto
  show "0 \<le> k" "k < weekMinutes" using v inWeek_ends[OF assms(1) v(1)] by (auto simp: pos_mod_sign pos_mod_bound)
  show "map_of (boundaries xs) k = Some st" using d assms(2) by simp
qed

section \<open>Position\<close>

text \<open>Minutes since the zero time in local time, and the instant at which such a minute begins.\<close>

definition localMinute :: "time \<Rightarrow> int" where
  "localMinute t = (t + zoneOffset) div Minute"

definition minuteStart :: "int \<Rightarrow> time" where
  "minuteStart x = x * Minute - zoneOffset"

definition weekMinute :: "time \<Rightarrow> int" where
  "weekMinute t = localMinute t mod weekMinutes"

lemma weekMinute_range: "0 \<le> weekMinute t" "weekMinute t < weekMinutes"
  by (simp_all add: weekMinute_def)

lemma minuteStart_after: "minuteStart x > now \<longleftrightarrow> x > localMinute now"
proof -
  define q r where "q = (now + zoneOffset) div Minute" and "r = (now + zoneOffset) mod Minute"
  then have "now + zoneOffset = q * Minute + r" "0 \<le> r" "r < Minute" by simp_all
  then have "x * Minute - zoneOffset > now \<longleftrightarrow> x > q" by linarith
  then show ?thesis by (simp add: minuteStart_def localMinute_def q_def)
qed

lemma localMinute_start [simp]: "localMinute (minuteStart x) = x"
  by (simp add: localMinute_def minuteStart_def)

lemma minuteStart_less: "minuteStart x < minuteStart y \<longleftrightarrow> x < y"
  by (simp add: minuteStart_def)

lemma localMinute_mono: "s \<le> t \<Longrightarrow> localMinute s \<le> localMinute t"
  by (simp add: localMinute_def zdiv_mono1)

lemma weekStart_local: "weekStart now = minuteStart (localMinute now - weekMinute now)"
proof -
  define n where "n = now + zoneOffset"
  have d: "n div Day = localMinute now div 1440"
    by (simp add: n_def localMinute_def Day_def zdiv_zmult2_eq[symmetric])
  have "((x + 1) mod 7 + 6) mod 7 = x mod 7" for x :: int by presburger
  then have "((n div Day + 1) mod 7 + 6) mod 7 = n div Day mod 7" by blast
  moreover have "(n div Day - n div Day mod 7) = (localMinute now div 1440 div 7) * 7"
    by (simp add: d minus_mod_eq_div_mult)
  moreover have "localMinute now div 1440 div 7 = localMinute now div weekMinutes"
    by (simp add: zdiv_zmult2_eq[symmetric] weekMinutes_def)
  moreover have "localMinute now - weekMinute now = localMinute now div weekMinutes * weekMinutes"
    by (simp add: weekMinute_def minus_mod_eq_div_mult)
  ultimately show ?thesis
    by (simp add: weekStart_def Let_def minuteStart_def n_def[symmetric]) (simp add: Day_def weekMinutes_def)
qed

lemma position_minute: "timeSub now (weekStart now) div Minute = weekMinute now"
proof -
  define r where "r = (now + zoneOffset) mod Minute"
  have n: "now + zoneOffset = localMinute now * Minute + r" "0 \<le> r" "r < Minute"
    by (simp_all add: r_def localMinute_def)
  have eq: "now - weekStart now = weekMinute now * Minute + r"
    using n(1) by (simp add: weekStart_local minuteStart_def algebra_simps)
  have "timeSub now (weekStart now) = now - weekStart now"
    using n(2,3) weekMinute_range[of now] unfolding timeSub_def eq
    by (simp add: minDuration_def maxDuration_def weekMinutes_def Let_def)
  then show ?thesis using n eq by simp
qed

lemma PositionOf_eq:
  "PositionOf c now = foldl (scanBoundary (weekStart now) now)
     \<lparr>pos_Allowed = covers (weekIntervals c) (weekMinute now), pos_Boundary = 0, pos_NextAt = 0, pos_NextStatus = 0\<rparr>
     (boundaries (weekIntervals c))"
  by (simp add: PositionOf_def Let_def position_minute covers_def)

text \<open>The candidates the loop visits: every boundary in the previous, the current and the next week.\<close>

definition candidates :: "time \<Rightarrow> (int \<times> int64) list \<Rightarrow> (time \<times> int64) list" where
  "candidates week bs = concat (map (\<lambda>b. map (\<lambda>offset. (week + (fst b + offset * weekMinutes) * Minute, snd b)) [-1, 0, 1]) bs)"

lemma scan_candidates:
  "foldl (scanBoundary week now) p bs = foldl (\<lambda>p c. scanAt now (snd c) p (fst c)) p (candidates week bs)"
  by (induction bs arbitrary: p) (simp_all add: candidates_def scanBoundary_def)

text \<open>What the scan computes: the least candidate after now with its status, and the greatest one up to
  now.\<close>

definition scanned :: "time \<Rightarrow> (time \<times> int64) list \<Rightarrow> Position \<Rightarrow> bool" where
  "scanned now cs q \<longleftrightarrow>
     (pos_NextAt q = 0 \<longrightarrow> pos_NextStatus q = 0 \<and> (\<forall>c \<in> set cs. fst c \<le> now)) \<and>
     (pos_NextAt q \<noteq> 0 \<longrightarrow> (pos_NextAt q, pos_NextStatus q) \<in> set cs \<and> now < pos_NextAt q \<and>
        (\<forall>c \<in> set cs. now < fst c \<longrightarrow> pos_NextAt q \<le> fst c)) \<and>
     0 \<le> pos_Boundary q \<and> pos_Boundary q \<le> now \<and> (pos_Boundary q \<noteq> 0 \<longrightarrow> pos_Boundary q \<in> fst ` set cs) \<and>
     (\<forall>c \<in> set cs. fst c \<le> now \<longrightarrow> fst c \<le> pos_Boundary q)"

lemma scanAt_fields:
  "pos_Allowed (scanAt now st p t) = pos_Allowed p"
  "pos_Boundary (scanAt now st p t) = (if t \<le> now \<and> pos_Boundary p < t then t else pos_Boundary p)"
  "now < t \<and> (pos_NextAt p = 0 \<or> t < pos_NextAt p) \<Longrightarrow>
     pos_NextAt (scanAt now st p t) = t \<and> pos_NextStatus (scanAt now st p t) = st"
  "\<not> (now < t \<and> (pos_NextAt p = 0 \<or> t < pos_NextAt p)) \<Longrightarrow>
     pos_NextAt (scanAt now st p t) = pos_NextAt p \<and> pos_NextStatus (scanAt now st p t) = pos_NextStatus p"
  by (auto simp: scanAt_def Let_def not_less)

lemma scan_step:
  assumes "scanned now cs p" "0 \<le> now"
  shows "scanned now (cs @ [(t, st)]) (scanAt now st p t)"
proof (cases "now < t \<and> (pos_NextAt p = 0 \<or> t < pos_NextAt p)")
  case True
  have "pos_Boundary (scanAt now st p t) = pos_Boundary p" using True by (simp add: scanAt_fields(2))
  then show ?thesis using assms True scanAt_fields(3)[OF True, of st] unfolding scanned_def by force
next
  case False
  show ?thesis using assms False scanAt_fields(4)[OF False, of st] unfolding scanned_def scanAt_fields(2) by auto
qed

lemma scan_scanned:
  assumes "0 \<le> now" "pos_NextAt p = 0" "pos_Boundary p = 0" "pos_NextStatus p = 0"
  shows "scanned now cs (foldl (\<lambda>p c. scanAt now (snd c) p (fst c)) p cs) \<and>
    pos_Allowed (foldl (\<lambda>p c. scanAt now (snd c) p (fst c)) p cs) = pos_Allowed p"
proof (induction cs rule: rev_induct)
  case Nil
  then show ?case using assms by (simp add: scanned_def)
next
  case (snoc c cs)
  then show ?case using scan_step[of now cs _ "fst c" "snd c"] assms(1) by (simp add: scanAt_fields(1))
qed

lemma candidates_iff:
  "(t, st) \<in> set (candidates (weekStart now) bs) \<longleftrightarrow>
     (\<exists>k. (k, st) \<in> set bs \<and> (\<exists>offset \<in> {-1, 0, 1}. t = minuteStart (localMinute now - weekMinute now + k + offset * weekMinutes)))"
  by (force simp: candidates_def weekStart_local minuteStart_def algebra_simps)

text \<open>The order in which the map of boundaries is visited does not matter.\<close>

lemma scanned_least:
  assumes "scanned now cs p" "(t, st) \<in> set cs" "now < t"
  shows "pos_NextAt p \<noteq> 0" "pos_NextAt p \<le> t"
proof -
  show "pos_NextAt p \<noteq> 0"
  proof
    assume "pos_NextAt p = 0"
    then have "\<forall>c \<in> set cs. fst c \<le> now" using assms(1) by (simp add: scanned_def)
    from bspec[OF this assms(2)] show False using assms(3) by simp
  qed
  then have "\<forall>c \<in> set cs. now < fst c \<longrightarrow> pos_NextAt p \<le> fst c" using assms(1) by (simp add: scanned_def)
  from bspec[OF this assms(2)] show "pos_NextAt p \<le> t" using assms(3) by simp
qed

lemma scanned_next:
  assumes "scanned now cs p" "pos_NextAt p \<noteq> 0"
  shows "(pos_NextAt p, pos_NextStatus p) \<in> set cs" "now < pos_NextAt p"
  using assms by (simp_all add: scanned_def)

lemma scanned_le:
  assumes "scanned now cs p" "scanned now ds q" "set cs = set ds" "0 \<le> now"
  shows "pos_Boundary p \<le> pos_Boundary q" "pos_NextAt q \<noteq> 0 \<Longrightarrow> pos_NextAt p \<noteq> 0 \<and> pos_NextAt p \<le> pos_NextAt q"
proof -
  show "pos_Boundary p \<le> pos_Boundary q" using assms by (cases "pos_Boundary p = 0") (auto simp: scanned_def)
  assume "pos_NextAt q \<noteq> 0"
  from scanned_least[OF assms(1)] scanned_next[OF assms(2) this]
  show "pos_NextAt p \<noteq> 0 \<and> pos_NextAt p \<le> pos_NextAt q" using assms(3) by blast
qed

lemma scanned_unique:
  assumes "scanned now cs p" "scanned now ds q" "set cs = set ds" "0 \<le> now" "pos_Allowed p = pos_Allowed q"
    "\<And>t st st'. (t, st) \<in> set cs \<Longrightarrow> (t, st') \<in> set cs \<Longrightarrow> st = st'"
  shows "p = q"
proof -
  note le = scanned_le[OF assms(1-4)] and ge = scanned_le[OF assms(2,1) assms(3)[symmetric] assms(4)]
  have b: "pos_Boundary p = pos_Boundary q" using le(1) ge(1) by simp
  have n: "pos_NextAt p = pos_NextAt q" using le(2) ge(2) by force
  have "pos_NextStatus p = pos_NextStatus q"
  proof (cases "pos_NextAt p = 0")
    case False
    then have "(pos_NextAt p, pos_NextStatus p) \<in> set cs" "(pos_NextAt p, pos_NextStatus q) \<in> set cs"
      using scanned_next(1)[OF assms(1)] scanned_next(1)[OF assms(2)] assms(3) n by auto
    then show ?thesis by (rule assms(6))
  qed (use assms(1,2) n in \<open>simp add: scanned_def\<close>)
  then show ?thesis using b n assms(5) by (intro Position.equality) simp_all
qed

section \<open>The schedule as a function of time\<close>

text \<open>Whether the merged intervals cover local minute \<open>x\<close>, and the minutes at which that changes.\<close>

definition openAt :: "Config \<Rightarrow> int \<Rightarrow> bool" where
  "openAt c x = covers (weekIntervals c) (x mod weekMinutes)"

lemma openAt_boundary:
  assumes "inWeek (weekIntervals c)"
  shows "map_of (boundaries (weekIntervals c)) (x mod weekMinutes) =
    (if openAt c x = openAt c (x - 1) then None else Some (if openAt c x then 1 else 2))"
proof -
  have "(x mod weekMinutes - 1) mod weekMinutes = (x - 1) mod weekMinutes" by (simp add: mod_diff_left_eq)
  then show ?thesis
    using boundaries_map[OF assms, of "x mod weekMinutes"] by (simp add: openAt_def)
qed

lemma steps_constant:
  fixes f :: "int \<Rightarrow> bool"
  assumes "a \<le> b" "\<And>y. a < y \<Longrightarrow> y \<le> b \<Longrightarrow> f y = f (y - 1)"
  shows "f b = f a"
  using assms by (induction b rule: int_ge_induct) force+

text \<open>Every boundary after now and within the next week is a candidate.\<close>

lemma candidate_change:
  assumes "inWeek (weekIntervals c)" "openAt c y \<noteq> openAt c (y - 1)"
    "localMinute now - weekMinute now \<le> y" "y < localMinute now - weekMinute now + 2 * weekMinutes"
  shows "(minuteStart y, if openAt c y then 1 else 2) \<in> set (candidates (weekStart now) (boundaries (weekIntervals c)))"
proof -
  define w where "w = localMinute now - weekMinute now"
  have "w mod weekMinutes = 0" by (simp add: w_def weekMinute_def)
  then have m: "(y - w) mod weekMinutes = y mod weekMinutes" by (simp add: mod_diff_right_eq[symmetric])
  have "(y mod weekMinutes, if openAt c y then 1 else 2) \<in> set (boundaries (weekIntervals c))"
    using openAt_boundary[OF assms(1), of y] assms(2) by (auto dest: map_of_SomeD)
  moreover have "y = w + y mod weekMinutes + (if y - w < weekMinutes then 0 else 1) * weekMinutes"
  proof (cases "y - w < weekMinutes")
    case True
    then have "(y - w) mod weekMinutes = y - w" using assms(3) w_def by (intro mod_pos_pos_trivial) simp_all
    then show ?thesis using m True by simp
  next
    case False
    have "(y - w) mod weekMinutes = (y - w - weekMinutes) mod weekMinutes" by simp
    also have "\<dots> = y - w - weekMinutes" using False assms(4) w_def by (intro mod_pos_pos_trivial) simp_all
    finally show ?thesis using m False by simp
  qed
  moreover have "(if y - w < weekMinutes then 0 else 1) \<in> {-1, 0, 1 :: int}" by simp
  ultimately show ?thesis unfolding candidates_iff w_def[symmetric] by metis
qed

lemma candidate_is_change:
  assumes "inWeek (weekIntervals c)" "(t, st) \<in> set (candidates (weekStart now) (boundaries (weekIntervals c)))"
  obtains y where "t = minuteStart y" "openAt c y \<noteq> openAt c (y - 1)" "st = (if openAt c y then 1 else 2)"
    "y < localMinute now - weekMinute now + 2 * weekMinutes"
proof -
  define w where "w = localMinute now - weekMinute now"
  obtain k offset where k: "(k, st) \<in> set (boundaries (weekIntervals c))" "offset \<in> {-1, 0, 1 :: int}"
    "t = minuteStart (w + k + offset * weekMinutes)"
    using assms(2) unfolding candidates_iff w_def[symmetric] by blast
  note b = boundaries_keys[OF assms(1) k(1)]
  let ?y = "w + k + offset * weekMinutes"
  have w0: "w = localMinute now div weekMinutes * weekMinutes" by (simp add: w_def weekMinute_def minus_mod_eq_div_mult)
  have "?y mod weekMinutes = (k + (localMinute now div weekMinutes + offset) * weekMinutes) mod weekMinutes"
    by (simp add: w0 algebra_simps)
  also have "\<dots> = k mod weekMinutes" by (rule mod_mult_self1)
  finally have "?y mod weekMinutes = k" using b(1,2) by simp
  then have "map_of (boundaries (weekIntervals c)) (?y mod weekMinutes) = Some st" using b(3) by simp
  then have "openAt c ?y \<noteq> openAt c (?y - 1)" "st = (if openAt c ?y then 1 else 2)"
    using openAt_boundary[OF assms(1), of ?y] by (auto split: if_splits)
  moreover have "?y < w + 2 * weekMinutes" using b(1,2) k(2) by auto
  ultimately show ?thesis using that k(3) w_def by blast
qed

text \<open>Two candidates at one instant carry the same status, so the order of the boundaries is irrelevant.\<close>

lemma position_order:
  assumes "inWeek (weekIntervals c)" "0 \<le> now" "set bs = set (boundaries (weekIntervals c))"
  shows "foldl (scanBoundary (weekStart now) now)
      \<lparr>pos_Allowed = covers (weekIntervals c) (weekMinute now), pos_Boundary = 0, pos_NextAt = 0, pos_NextStatus = 0\<rparr> bs =
    PositionOf c now"
proof -
  let ?p = "\<lparr>pos_Allowed = covers (weekIntervals c) (weekMinute now), pos_Boundary = 0, pos_NextAt = 0, pos_NextStatus = 0\<rparr> :: Position"
  let ?cs = "\<lambda>bs. candidates (weekStart now) bs"
  have s: "scanned now (?cs ds) (foldl (scanBoundary (weekStart now) now) ?p ds)"
    "pos_Allowed (foldl (scanBoundary (weekStart now) now) ?p ds) = covers (weekIntervals c) (weekMinute now)" for ds
    using scan_scanned[OF assms(2), of ?p "?cs ds"] by (simp_all add: scan_candidates)
  have "set (?cs bs) = set (?cs (boundaries (weekIntervals c)))" using assms(3) by (auto simp: candidates_def)
  moreover have "st = st'" if "(t, st) \<in> set (?cs bs)" "(t, st') \<in> set (?cs bs)" for t st st'
  proof -
    have "(t, st) \<in> set (?cs (boundaries (weekIntervals c)))" "(t, st') \<in> set (?cs (boundaries (weekIntervals c)))"
      using that calculation by auto
    then show ?thesis using candidate_is_change[OF assms(1)] localMinute_start by metis
  qed
  ultimately show ?thesis
    unfolding PositionOf_eq using s(2) by (intro scanned_unique[OF s(1) s(1) _ assms(2)]) simp_all
qed

lemma valid_inWeek:
  assumes "validConfig c"
  shows "inWeek (weekIntervals c)" "openAt c x = inWindow c (x mod weekMinutes)"
proof -
  note seg = weekSegments_ok[OF assms]
  have can: "canonical (weekIntervals c)" and cov: "\<And>t. covers (weekIntervals c) t = covers (weekSegments c) t"
    using weekIntervals_canonical[of c] seg(1) by auto
  have "0 \<le> itv_start v \<and> itv_end v \<le> weekMinutes" if v: "v \<in> set (weekIntervals c)" for v
  proof
    have "itv_start v < itv_end v" using can v by (rule canonical_nonempty)
    then have "covers (weekIntervals c) (itv_start v)" "covers (weekIntervals c) (itv_end v - 1)"
      using v by (auto simp: covers_def intro!: bexI[of _ v])
    then have "covers (weekSegments c) (itv_start v)" "covers (weekSegments c) (itv_end v - 1)" by (simp_all add: cov)
    then show "0 \<le> itv_start v" "itv_end v \<le> weekMinutes" using seg(1) by (force simp: covers_def)+
  qed
  then show "inWeek (weekIntervals c)" using can by (simp add: inWeek_def)
  show "openAt c x = inWindow c (x mod weekMinutes)" using seg(2)[of "x mod weekMinutes"] cov by (simp add: openAt_def)
qed

lemma openAt_period: "x mod weekMinutes = y mod weekMinutes \<Longrightarrow> openAt c x = openAt c y"
  by (simp add: openAt_def)

text \<open>The announced change, in local minutes.\<close>

definition nextChange :: "Config \<Rightarrow> time \<Rightarrow> Position \<Rightarrow> bool" where
  "nextChange c now p \<longleftrightarrow>
     (pos_NextAt p = 0 \<longrightarrow> (\<forall>y. openAt c y = openAt c (localMinute now))) \<and>
     (pos_NextAt p \<noteq> 0 \<longrightarrow> (\<exists>x > localMinute now. pos_NextAt p = minuteStart x \<and>
        (\<forall>y. localMinute now \<le> y \<and> y < x \<longrightarrow> openAt c y = openAt c (localMinute now)) \<and>
        openAt c x \<noteq> openAt c (localMinute now) \<and> pos_NextStatus p = (if openAt c x then 1 else 2)))"

lemma scanned_nextChange:
  assumes "inWeek (weekIntervals c)" "scanned now (candidates (weekStart now) (boundaries (weekIntervals c))) p"
  shows "nextChange c now p"
proof -
  define w where "w = localMinute now - weekMinute now"
  have w: "w \<le> localMinute now" "localMinute now < w + weekMinutes" "w mod weekMinutes = 0"
    using weekMinute_range[of now] by (simp_all add: w_def weekMinute_def)
  have ahead: "pos_NextAt p \<noteq> 0 \<and> pos_NextAt p \<le> minuteStart y"
    if "openAt c y \<noteq> openAt c (y - 1)" "localMinute now < y" "y < w + 2 * weekMinutes" for y
    using scanned_least[OF assms(2) candidate_change[OF assms(1) that(1)]] that w(1) minuteStart_after[of now y]
    by (simp add: w_def)
  show ?thesis
  proof (cases "pos_NextAt p = 0")
    case True
    have const: "openAt c y = openAt c (w + weekMinutes)" if "w + weekMinutes \<le> y" "y < w + 2 * weekMinutes" for y
    proof (rule steps_constant[OF that(1)])
      show "openAt c z = openAt c (z - 1)" if z: "w + weekMinutes < z" "z \<le> y" for z
        using ahead[of z] True z \<open>y < w + 2 * weekMinutes\<close> w(2) by fastforce
    qed
    have all: "openAt c y = openAt c (w + weekMinutes)" for y
    proof -
      have "(w + weekMinutes + y mod weekMinutes) mod weekMinutes = y mod weekMinutes"
        using w(3) by (metis add.commute add_0 mod_add_eq mod_add_self2 mod_mod_trivial)
      then have "openAt c y = openAt c (w + weekMinutes + y mod weekMinutes)" by (intro openAt_period) simp
      also have "\<dots> = openAt c (w + weekMinutes)" by (intro const) simp_all
      finally show ?thesis .
    qed
    have "\<forall>y. openAt c y = openAt c (localMinute now)"
      using trans[OF all all[of "localMinute now", symmetric]] by blast
    then show ?thesis unfolding nextChange_def using True by blast
  next
    case False
    from scanned_next[OF assms(2) False] obtain x where x: "pos_NextAt p = minuteStart x" "now < minuteStart x"
      "openAt c x \<noteq> openAt c (x - 1)" "pos_NextStatus p = (if openAt c x then 1 else 2)" "x < w + 2 * weekMinutes"
      by (metis candidate_is_change[OF assms(1)] w_def)
    have same: "openAt c y = openAt c (localMinute now)" if y: "localMinute now \<le> y" "y < x" for y
    proof (rule steps_constant[OF y(1)])
      show "openAt c z = openAt c (z - 1)" if z: "localMinute now < z" "z \<le> y" for z
        using ahead[of z] x(1,5) y(2) z minuteStart_less[of z x] by fastforce
    qed
    have lt: "localMinute now < x" using x(2) by (simp add: minuteStart_after)
    then have "openAt c x \<noteq> openAt c (localMinute now)" using x(3) same[of "x - 1"] by simp
    then show ?thesis unfolding nextChange_def using False x(1,4) lt same by blast
  qed
qed

lemma position_nextChange:
  assumes "validConfig c" "0 \<le> now"
  shows "pos_Allowed (PositionOf c now) = openAt c (localMinute now)" "nextChange c now (PositionOf c now)"
proof -
  let ?cs = "candidates (weekStart now) (boundaries (weekIntervals c))"
  note scan = scan_scanned[OF assms(2), of "\<lparr>pos_Allowed = covers (weekIntervals c) (weekMinute now), pos_Boundary = 0,
      pos_NextAt = 0, pos_NextStatus = 0\<rparr>" ?cs]
  show "pos_Allowed (PositionOf c now) = openAt c (localMinute now)"
    using scan by (simp add: PositionOf_eq scan_candidates openAt_def weekMinute_def)
  have "scanned now ?cs (PositionOf c now)" using scan by (simp add: PositionOf_eq scan_candidates)
  then show "nextChange c now (PositionOf c now)" using scanned_nextChange valid_inWeek(1)[OF assms(1)] by blast
qed

section \<open>Properties\<close>

text \<open>C38: a time of day has exactly one text: the parser accepts precisely the texts \<open>HH:MM\<close> the
  printer produces for the minutes of a day, and returns the minute they stand for.\<close>

theorem minute_text_round_trip:
  "ScheduleMinute v = Inl n \<longleftrightarrow> 0 \<le> n \<and> n < 1440 \<and> v = showInt2 (n div 60) @ '':'' @ showInt2 (n mod 60)"
  using ScheduleMinute_text[of v n] ScheduleMinute_minuteText[of n] by (auto simp: minuteText_def)

text \<open>C36: the merged intervals of a normalised configuration are in order, non-empty and separated by
  gaps, and cover a minute of the week exactly when it lies in one of the configured windows, a window
  that runs past the end of the week included.\<close>

theorem week_intervals_equal_windows:
  assumes "Normalize c = (d, None)" "0 \<le> t" "t < weekMinutes"
  shows "canonical (weekIntervals d) \<and> (covers (weekIntervals d) t \<longleftrightarrow> inWindow d t)"
  using valid_inWeek(1)[OF Normalize_valid[OF assms(1)]] valid_inWeek(2)[OF Normalize_valid[OF assms(1)], of t] assms(2,3)
  by (simp add: inWeek_def openAt_def)

text \<open>C37: the position of an instant announces exactly the next change of the schedule.  The channel is
  allowed when the current minute lies in a window; if no next change is announced, the schedule never
  changes; otherwise the announced instant lies ahead, nothing changes before it, and there the schedule
  switches to the announced status (1 open, 2 closed).\<close>

theorem position_announces_next_change:
  assumes "Normalize c = (d, None)" "0 \<le> now" "p = PositionOf d now"
  shows "pos_Allowed p = inWindow d (weekMinute now) \<and>
    (pos_NextAt p = 0 \<longrightarrow> (\<forall>t. inWindow d (weekMinute t) = pos_Allowed p)) \<and>
    (pos_NextAt p \<noteq> 0 \<longrightarrow> now < pos_NextAt p \<and>
       (\<forall>t. now \<le> t \<and> t < pos_NextAt p \<longrightarrow> inWindow d (weekMinute t) = pos_Allowed p) \<and>
       inWindow d (weekMinute (pos_NextAt p)) \<noteq> pos_Allowed p \<and>
       pos_NextStatus p = (if inWindow d (weekMinute (pos_NextAt p)) then 1 else 2))"
proof -
  note valid = Normalize_valid[OF assms(1)]
  have open_iff: "inWindow d (weekMinute t) = openAt d (localMinute t)" for t
    using valid_inWeek(2)[OF valid] by (simp add: weekMinute_def)
  have pos: "pos_Allowed p = openAt d (localMinute now)" "nextChange d now p"
    using position_nextChange[OF valid assms(2)] assms(3) by simp_all
  have early: "localMinute now \<le> localMinute t \<and> localMinute t < x" if "now \<le> t" "t < minuteStart x" for t x
    using that localMinute_mono minuteStart_after[of t x] by simp
  show ?thesis
  proof (cases "pos_NextAt p = 0")
    case True
    then have "\<forall>y. openAt d y = openAt d (localMinute now)" using pos(2) unfolding nextChange_def by blast
    then show ?thesis using True pos(1) unfolding open_iff by blast
  next
    case False
    then obtain x where x: "localMinute now < x" "pos_NextAt p = minuteStart x"
      "\<And>y. localMinute now \<le> y \<Longrightarrow> y < x \<Longrightarrow> openAt d y = openAt d (localMinute now)"
      "openAt d x \<noteq> openAt d (localMinute now)" "pos_NextStatus p = (if openAt d x then 1 else 2)"
      using pos(2) unfolding nextChange_def by blast
    have "now < minuteStart x" using x(1) by (simp add: minuteStart_after)
    moreover have "\<forall>t. now \<le> t \<and> t < minuteStart x \<longrightarrow> openAt d (localMinute t) = openAt d (localMinute now)"
      using early x(3) by blast
    ultimately show ?thesis
      unfolding open_iff pos(1) x(2) localMinute_start using False[unfolded x(2)] x(4,5) by blast
  qed
qed

text \<open>The example of the witnesses: every day from 22:00 to 06:00.\<close>

definition exampleSchedule :: Config where
  "exampleSchedule = \<lparr>cfg_Enabled = True, cfg_Days = [1, 2, 3, 4, 5, 6, 7],
     cfg_Windows = [\<lparr>win_Start = ''22:00'', win_End = ''06:00''\<rparr>], cfg_Revision = 1, cfg_AlignNow = False,
     cfg_ExpectedUpdatedAt = None\<rparr>"

lemma exampleSchedule_normal: "Normalize exampleSchedule = (exampleSchedule, None)"
  by code_simp

theorem week_intervals_equal_windows_witness:
  "canonical (weekIntervals exampleSchedule) \<and> (covers (weekIntervals exampleSchedule) 30 \<longleftrightarrow> inWindow exampleSchedule 30)"
  using week_intervals_equal_windows[OF exampleSchedule_normal, of 30] by (simp add: weekMinutes_def)

theorem position_announces_next_change_witness:
  "pos_Allowed (PositionOf exampleSchedule 0) = inWindow exampleSchedule (weekMinute 0)"
  using position_announces_next_change[OF exampleSchedule_normal, of 0] by simp

end
