(* ===== verification/AssocMaps.thy ===== *)
theory AssocMaps
  imports Prelude "HOL-Library.AList"
begin

text \<open>
  Go maps as association lists: what updating, deleting and filtering do to the entries, their number and the
  lookup.  Shared by the probe tables, the login tables, the user store and the archive.
\<close>

lemma update_length: "length (AList.update k v xs) = (if k \<in> fst ` set xs then length xs else Suc (length xs))"
  by (induction xs) auto

lemma update_length_le: "length (AList.update k v xs) \<le> Suc (length xs)" "map_of xs k \<noteq> None \<Longrightarrow> length (AList.update k v xs) = length xs"
  by (auto simp: update_length map_of_eq_None_iff)

lemma update_set: "set (AList.update k v xs) \<subseteq> insert (k, v) (set xs)"
  by (induction xs) auto

lemma update_entries: "distinct (map fst xs) \<Longrightarrow> set (AList.update k v xs) = insert (k, v) {e \<in> set xs. fst e \<noteq> k}"
  by (induction xs) (auto simp: image_iff)

lemma delete_length: "length (AList.delete k xs) \<le> length xs"
  by (simp add: AList.delete_eq)

lemma delete_shrinks: "map_of xs k \<noteq> None \<Longrightarrow> length (AList.delete k xs) < length xs"
  by (induction xs) (auto simp: less_Suc_eq_le AList.delete_eq split: if_splits)

lemma map_of_filter_distinct: "distinct (map fst xs) \<Longrightarrow>
  map_of (filter P xs) k = (case map_of xs k of Some v \<Rightarrow> if P (k, v) then Some v else None | None \<Rightarrow> None)"
  by (induction xs) (auto simp: map_of_eq_None_iff split: option.splits if_splits)

end
