(* ===== verification/ControlTables.thy ===== *)
theory ControlTables
  imports Factors AssocMaps
begin

text \<open>
  The database tables that channel control writes (\<open>server/migrations/137_channel_lifeline.sql\<close>,
  \<open>140_channel_schedules.sql\<close>, the tables of the channel directory, the commands and the engine's states) and the way a statement or a transaction can fail.

  A table with a primary key is an association list from the key to the row.  A transaction takes effect
  as a whole or not at all; whether the caller learns of it is a separate matter: a commit whose
  acknowledgement is lost has happened although the caller sees an error.  The three cases are the values
  of \<open>dbFault\<close>, an input of every operation that writes, so a theorem over all inputs covers
  every failure.  Columns keep the values written; the JSON columns hold the values they encode.
\<close>

datatype dbFault = DbOk | DbFail | DbLost

text \<open>The table after the transaction, and whether the caller sees success.\<close>

fun commitTx :: "dbFault \<Rightarrow> 'd \<Rightarrow> 'd \<Rightarrow> 'd \<times> bool" where
  "commitTx DbOk old new = (new, True)"
| "commitTx DbFail old new = (old, False)"
| "commitTx DbLost old new = (new, False)"

lemma commitTx_cases:
  obtains (committed) "commitTx f old new = (new, snd (commitTx f old new))"
  | (dropped) "commitTx f old new = (old, False)"
  by (cases f) auto

lemma commitTx_ok: "snd (commitTx f old new) \<Longrightarrow> fst (commitTx f old new) = new"
  by (cases f) auto

lemma commitTx_all: "P old \<Longrightarrow> P new \<Longrightarrow> P (fst (commitTx f old new))"
  by (cases f) auto

section \<open>Rows\<close>

record scheduleRow =
  sr_Enabled :: bool
  sr_Config :: Config
  sr_Revision :: int64
  sr_EffectiveAt :: time
  sr_UpdatedAt :: time
  sr_UpdatedBy :: string
  sr_Closed :: bool
  sr_LastExecution :: string
  sr_NextCheckAt :: time

text \<open>A write request to the upstream API; the fields that are not set stay as they are.\<close>

record UpdateRequest =
  up_ChannelID :: int64
  up_Status :: "int64 option"
  up_Weight :: "int64 option"
  up_Priority :: "int64 option"
  up_Group :: "string option"

definition noUpdate :: "int64 \<Rightarrow> UpdateRequest" where
  "noUpdate channel = \<lparr>up_ChannelID = channel, up_Status = None, up_Weight = None, up_Priority = None, up_Group = None\<rparr>"

text \<open>The journal of requests to the upstream API.  Of the payload, \<open>rq_Target\<close> has the fields to write and
  \<open>rq_Before\<close> those known before.\<close>

record ChannelControlRequest =
  rq_ID :: string
  rq_InstanceID :: string
  rq_Operation :: string
  rq_Actor :: string
  rq_RecommendationID :: string
  rq_CommandID :: string
  rq_Outcome :: string
  rq_Reason :: string
  rq_ChannelID :: int64
  rq_Target :: UpdateRequest
  rq_Before :: UpdateRequest
  rq_StartedAt :: time
  rq_FinishedAt :: "time option"
  rq_DurationSeconds :: "float64 option"

text \<open>The column of a channel's models: a text that is a JSON array of strings, by its elements, or any other text.\<close>

datatype modelsText = ModelsArray "string list" | ModelsPlain string

text \<open>The directory of channels as last seen, in the order of its primary key (instance, channel).  Site,
  \<open>enabled\<close> and \<open>deleted\<close> of a row are those of its instance.\<close>

record currentRow =
  cu_InstanceID :: string
  cu_Site :: string
  cu_Enabled :: bool
  cu_Deleted :: bool
  cu_ChannelID :: int64
  cu_Status :: string
  cu_Weight :: int64
  cu_Models :: modelsText
  cu_Group :: "string option"
  cu_Priority :: "int64 option"
  cu_CapturedAt :: time

text \<open>Commands to a channel, of the server itself or for the queue of an Agent.  The payload is the decoded JSON.\<close>

record ProbeOptions =
  po_TimeoutSeconds :: int64
  po_SlowLimit :: int64
  po_RoundSeconds :: int64

record probePayload =
  pp_Model :: string
  pp_Count :: int64
  pp_Interval :: int64
  pp_Options :: ProbeOptions

record commandPayload =
  pl_Update :: UpdateRequest
  pl_ManualControl :: bool
  pl_ControlRevision :: "int64 option"
  pl_Probe :: "probePayload option"

record ChannelCommand =
  cm_SiteID :: string
  cm_ExecutionKind :: string
  cm_ID :: string
  cm_InstanceID :: string
  cm_ChannelID :: int64
  cm_CommandType :: string
  cm_Payload :: commandPayload
  cm_Status :: string
  cm_CreatedBy :: string
  cm_ErrorSummary :: string
  cm_CreatedAt :: time
  cm_UpdatedAt :: time

record auditRow =
  au_InstanceID :: string
  au_OperationType :: string
  au_TargetID :: string
  au_ActorID :: string
  au_Status :: string
  au_ErrorSummary :: string
  au_CreatedAt :: time
  au_UpdatedAt :: time

record alertRow =
  al_Status :: string
  al_Summary :: string
  al_FirstSeenAt :: time
  al_LastSeenAt :: time
  al_ResolvedAt :: "time option"

text \<open>The column \<open>last_probe_command_id\<close> of the states is kept beside them: the engine never reads it.  Of a base value
  the table holds the columns that are not joined from the directory.\<close>

record controlDB =
  db_schedules :: "((string \<times> int64) \<times> scheduleRow) list"
  db_executions :: "(string \<times> Execution) list"
  db_states :: "((string \<times> int64) \<times> ContinuousState) list"
  db_requests :: "(string \<times> ChannelControlRequest) list"
  db_current :: "currentRow list"
  db_audits :: "(string \<times> auditRow) list"
  db_alerts :: "(string \<times> alertRow) list"
  db_lastProbe :: "((string \<times> int64) \<times> string) list"
  db_commands :: "(string \<times> ChannelCommand) list"
  db_recommendations :: "(string \<times> Recommendation) list"
  db_bases :: "((string \<times> int64) \<times> ChannelBaseValue) list"
  db_policies :: "(string \<times> PolicyRecord) list"

definition emptyDB :: controlDB where
  "emptyDB = \<lparr>db_schedules = [], db_executions = [], db_states = [], db_requests = [], db_current = [],
     db_audits = [], db_alerts = [], db_lastProbe = [], db_commands = [], db_recommendations = [], db_bases = [], db_policies = []\<rparr>"

section \<open>Updates by a condition\<close>

text \<open>\<open>UPDATE\<close> of the rows that satisfy a condition, keys included in it.\<close>

definition updateWhere :: "('k \<times> 'v \<Rightarrow> bool) \<Rightarrow> ('v \<Rightarrow> 'v) \<Rightarrow> ('k \<times> 'v) list \<Rightarrow> ('k \<times> 'v) list" where
  "updateWhere p f rows = map (\<lambda>(k, v). if p (k, v) then (k, f v) else (k, v)) rows"

lemma updateWhere_keys [simp]: "map fst (updateWhere p f rows) = map fst rows"
  by (simp add: updateWhere_def case_prod_beta)

lemma updateWhere_map_of [simp]:
  "distinct (map fst rows) \<Longrightarrow>
   map_of (updateWhere p f rows) k = map_option (\<lambda>v. if p (k, v) then f v else v) (map_of rows k)"
  by (induction rows) (auto simp: updateWhere_def)

lemma updateWhere_entry:
  "(k, v) \<in> set (updateWhere p f rows) \<Longrightarrow> \<exists>u. (k, u) \<in> set rows \<and> v = (if p (k, u) then f u else u)"
  by (auto simp: updateWhere_def split: if_splits)

section \<open>Writes to the rows of one channel\<close>

definition onSchedule :: "string \<Rightarrow> int64 \<Rightarrow> (scheduleRow \<Rightarrow> bool) \<Rightarrow> (scheduleRow \<Rightarrow> scheduleRow) \<Rightarrow> controlDB \<Rightarrow> controlDB" where
  "onSchedule site channel p f db = db\<lparr>db_schedules := updateWhere (\<lambda>(k, r). k = (site, channel) \<and> p r) f (db_schedules db)\<rparr>"

definition onExecution :: "string \<Rightarrow> (Execution \<Rightarrow> Execution) \<Rightarrow> controlDB \<Rightarrow> controlDB" where
  "onExecution key f db = db\<lparr>db_executions := updateWhere (\<lambda>(k, e). k = key) f (db_executions db)\<rparr>"

definition onState :: "string \<Rightarrow> int64 \<Rightarrow> (ContinuousState \<Rightarrow> bool) \<Rightarrow> (ContinuousState \<Rightarrow> ContinuousState) \<Rightarrow> controlDB \<Rightarrow> controlDB" where
  "onState site channel p f db = db\<lparr>db_states := updateWhere (\<lambda>(k, s). k = (site, channel) \<and> p s) f (db_states db)\<rparr>"

definition statesOfSite :: "controlDB \<Rightarrow> string \<Rightarrow> ContinuousState list" where
  "statesOfSite db site = map snd (filter (\<lambda>(k, s). fst k = site) (db_states db))"

section \<open>The request journal\<close>

text \<open>An insert under an existing key fails; a result is recorded only while the request is pending.\<close>

definition BeginChannelControlRequest :: "dbFault \<Rightarrow> ChannelControlRequest \<Rightarrow> controlDB \<Rightarrow> controlDB \<times> bool" where
  "BeginChannelControlRequest f v db =
     (if map_of (db_requests db) (rq_ID v) \<noteq> None then (db, False)
      else commitTx f db (db\<lparr>db_requests := (rq_ID v, v\<lparr>rq_Outcome := ''pending'', rq_CommandID := [], rq_Reason := [],
                                rq_FinishedAt := None, rq_DurationSeconds := None\<rparr>) # db_requests db\<rparr>))"

definition FinishChannelControlRequest :: "dbFault \<Rightarrow> ChannelControlRequest \<Rightarrow> controlDB \<Rightarrow> controlDB \<times> bool" where
  "FinishChannelControlRequest f v db =
     commitTx f db (db\<lparr>db_requests := updateWhere (\<lambda>(k, r). k = rq_ID v \<and> rq_Outcome r = ''pending'')
       (\<lambda>r. r\<lparr>rq_FinishedAt := rq_FinishedAt v, rq_Outcome := rq_Outcome v, rq_Reason := rq_Reason v,
              rq_DurationSeconds := rq_DurationSeconds v\<rparr>) (db_requests db)\<rparr>)"

definition LinkChannelControlRequest :: "dbFault \<Rightarrow> string \<Rightarrow> string \<Rightarrow> controlDB \<Rightarrow> controlDB \<times> bool" where
  "LinkChannelControlRequest f key command db =
     commitTx f db (db\<lparr>db_requests := updateWhere (\<lambda>(k, r). k = key) (\<lambda>r. r\<lparr>rq_CommandID := command\<rparr>) (db_requests db)\<rparr>)"

definition channelStatusLabel :: "int64 \<Rightarrow> string" where
  "channelStatusLabel status =
     (if status = 1 then ''enabled'' else if status = 2 then ''disabled''
      else if status = 3 then ''auto_disabled'' else showInt status)"

end
