(* ===== verification/ScheduleStore.thy ===== *)
theory ScheduleStore
  imports ControlTables
begin

text \<open>
  The store of channel schedules (\<open>server/internal/mysqlstore/channel_schedules.go\<close>): saving and deleting a
  schedule under optimistic concurrency, preparing the execution of a boundary, marking the start of the
  upstream write, recording its result, superseding open executions, and the check the circuit recovery makes.

  Texts shown to operators are the values of \<open>scheduleMessage\<close>, rendered by a parameter; the digest of
  package \<open>crypto/sha256\<close> in hexadecimal and the time format are parameters too.  No theorem needs more of them
  than that they are functions.
\<close>

section \<open>Model\<close>

definition MaxPerSite :: nat where
  "MaxPerSite = 200"

definition MaxAttempts :: int64 where
  "MaxAttempts = 5"

datatype storeError =
    ErrConflict
  | ErrBusy
  | ErrUnsupported
  | ErrSuperseded
  | ErrLimit
  | ErrChannelNotFound
  | ErrInvalid scheduleError
  | ErrDB

datatype scheduleMessage =
    MsgNone
  | MsgEdited
  | MsgDeleted
  | MsgNextBoundary
  | MsgReadAfterWriteFailed
  | MsgReadFailed
  | MsgConfigRead
  | MsgNoDirect
  | MsgNoReader
  | MsgStatusUnclear
  | MsgReadBack
  | MsgEarlierUnconfirmed
  | MsgAlreadyThere
  | MsgTooLate
  | MsgControlBusy
  | MsgNoRecovery
  | MsgWaitRecovery
  | MsgTooMany
  | MsgWaitPeer
  | MsgChannelMissing
  | MsgCoverageUnclear
  | MsgUncovered string string
  | MsgWindowPassed
  | MsgSiteDisabled
  | MsgRejected
  | MsgWriteUnconfirmed

record textEnv =
  te_text :: "scheduleMessage \<Rightarrow> string"
  te_summary :: "int64 \<Rightarrow> string \<Rightarrow> string"
  te_sha256 :: "string \<Rightarrow> string"
  te_rfc3339 :: "time \<Rightarrow> string"

subsection \<open>Reading schedules\<close>

definition scanChannelSchedule :: "string \<times> int64 \<Rightarrow> scheduleRow \<Rightarrow> Schedule option" where
  "scanChannelSchedule k r =
     (case Normalize ((sr_Config r)\<lparr>cfg_Enabled := sr_Enabled r, cfg_Revision := sr_Revision r\<rparr>) of
        (c, Some e) \<Rightarrow> None
      | (c, None) \<Rightarrow>
          Some \<lparr>sd_Config = c, sd_SiteID = fst k, sd_ChannelID = snd k, sd_EffectiveAt = sr_EffectiveAt r,
                sd_UpdatedAt = sr_UpdatedAt r, sd_UpdatedBy = sr_UpdatedBy r, sd_ClosedBySchedule = sr_Closed r,
                sd_Execution = None, sd_Allowed = False, sd_NextAt = None, sd_NextStatus = 0\<rparr>)"

definition LoadChannelSchedule :: "controlDB \<Rightarrow> string \<Rightarrow> int64 \<Rightarrow> Schedule option" where
  "LoadChannelSchedule db site channel =
     (case map_of (db_schedules db) (site, channel) of
        None \<Rightarrow> None
      | Some r \<Rightarrow> scanChannelSchedule (site, channel) r)"

fun scanAll :: "((string \<times> int64) \<times> scheduleRow) list \<Rightarrow> Schedule list option" where
  "scanAll [] = Some []"
| "scanAll ((k, r) # rows) =
     (case scanChannelSchedule k r of
        None \<Rightarrow> None
      | Some v \<Rightarrow> map_option (\<lambda>vs. v # vs) (scanAll rows))"

text \<open>The last execution of every channel of the site, a later row replacing an earlier one.\<close>

definition lastExecutions :: "controlDB \<Rightarrow> string \<Rightarrow> (int64 \<times> Execution) list" where
  "lastExecutions db site =
     rev (concat (map (\<lambda>(k, r). case map_of (db_executions db) (sr_LastExecution r) of
                                  None \<Rightarrow> [] | Some e \<Rightarrow> [(ex_ChannelID e, e)])
                      (take MaxPerSite (filter (\<lambda>(k, r). fst k = site) (db_schedules db)))))"

definition ListChannelSchedules :: "controlDB \<Rightarrow> string \<Rightarrow> time \<Rightarrow> Schedule list option" where
  "ListChannelSchedules db site now =
     (case scanAll (take MaxPerSite (sort_key (\<lambda>(k, r). snd k) (filter (\<lambda>(k, r). fst k = site) (db_schedules db)))) of
        None \<Rightarrow> None
      | Some items \<Rightarrow>
          Some (map (\<lambda>v. let d = Describe v now
                         in case map_of (lastExecutions db site) (sd_ChannelID v) of
                              None \<Rightarrow> d | Some e \<Rightarrow> d\<lparr>sd_Execution := Some e\<rparr>) items))"

text \<open>The listing describes the schedules at its own clock reading, the controls at the reading of the caller.\<close>

definition ListChannelScheduleControls :: "controlDB \<Rightarrow> string \<Rightarrow> time \<Rightarrow> time \<Rightarrow> (int64 \<times> Control) list option" where
  "ListChannelScheduleControls db site listedAt now =
     map_option (map (\<lambda>v. (sd_ChannelID v,
        \<lparr>ctl_Enabled = cfg_Enabled (sd_Config v), ctl_Allowed = pos_Allowed (PositionOf (sd_Config v) now),
         ctl_Closed = sd_ClosedBySchedule v, ctl_Opening = PendingOpen v now\<rparr>)))
       (ListChannelSchedules db site listedAt)"

text \<open>What reading an absent key of the map of controls gives.\<close>

definition controlAt :: "(int64 \<times> Control) list \<Rightarrow> int64 \<Rightarrow> Control" where
  "controlAt m channel = (case map_of (rev m) channel of None \<Rightarrow> zeroControl | Some c \<Rightarrow> c)"

subsection \<open>Executions\<close>

definition openStatus :: "string \<Rightarrow> bool" where
  "openStatus s \<longleftrightarrow> s \<in> set [''pending'', ''retry'', ''running'', ''waiting_recovery'', ''waiting_control'']"

definition supersedeScheduleExecutions ::
    "textEnv \<Rightarrow> string \<Rightarrow> int64 \<Rightarrow> string \<Rightarrow> scheduleMessage \<Rightarrow> time \<Rightarrow> controlDB \<Rightarrow> controlDB" where
  "supersedeScheduleExecutions E site channel except msg now db =
     (let hit = (\<lambda>(k, e). ex_SiteID e = site \<and> ex_ChannelID e = channel \<and> k \<noteq> except \<and> openStatus (ex_Status e));
          ids = map fst (filter hit (db_executions db))
      in db\<lparr>db_audits := updateWhere (\<lambda>(k, a). k \<in> set ids)
              (\<lambda>a. a\<lparr>au_Status := ''superseded'', au_ErrorSummary := te_text E msg, au_UpdatedAt := now\<rparr>) (db_audits db),
            db_executions := updateWhere hit
              (\<lambda>e. e\<lparr>ex_Status := ''superseded'', ex_Error := te_text E msg, ex_UpdatedAt := now\<rparr>) (db_executions db)\<rparr>)"

definition alertID :: "textEnv \<Rightarrow> string \<Rightarrow> int64 \<Rightarrow> string" where
  "alertID E site channel = take 40 (te_sha256 E (''channel-schedule:'' @ site @ '':'' @ showInt channel))"

definition resolveScheduleAlert :: "textEnv \<Rightarrow> string \<Rightarrow> int64 \<Rightarrow> time \<Rightarrow> controlDB \<Rightarrow> controlDB" where
  "resolveScheduleAlert E site channel now db =
     db\<lparr>db_alerts := updateWhere (\<lambda>(k, a). k = alertID E site channel \<and> al_Status a \<noteq> ''resolved'')
       (\<lambda>a. a\<lparr>al_Status := ''resolved'', al_ResolvedAt := Some now\<rparr>) (db_alerts db)\<rparr>"

definition raiseScheduleAlert :: "textEnv \<Rightarrow> string \<Rightarrow> int64 \<Rightarrow> scheduleMessage \<Rightarrow> time \<Rightarrow> controlDB \<Rightarrow> controlDB" where
  "raiseScheduleAlert E site channel msg now db =
     db\<lparr>db_alerts := AList.update (alertID E site channel)
       (case map_of (db_alerts db) (alertID E site channel) of
          None \<Rightarrow> \<lparr>al_Status = ''firing'', al_Summary = te_summary E channel (te_text E msg), al_FirstSeenAt = now, al_LastSeenAt = now, al_ResolvedAt = None\<rparr>
        | Some a \<Rightarrow> a\<lparr>al_Summary := te_summary E channel (te_text E msg), al_LastSeenAt := now,
                       al_Status := (if al_Status a = ''resolved'' then ''firing'' else al_Status a), al_ResolvedAt := None\<rparr>)
       (db_alerts db)\<rparr>"

subsection \<open>Saving and deleting\<close>

text \<open>What the operation reads outside the transaction, and how the transaction ends.\<close>

record saveInput =
  si_siteLock :: "storeError option"
  si_channelLock :: "storeError option"
  si_available :: "bool option"
  si_channels :: "int64 list option"
  si_auditID :: string
  si_actor :: string
  si_now :: time
  si_fault :: dbFault

text \<open>\<open>None\<close> for a read stands for its error.\<close>

definition saveGuards :: "saveInput \<Rightarrow> int64 \<Rightarrow> Config \<Rightarrow> storeError option" where
  "saveGuards I channel config =
     (case si_siteLock I of Some e \<Rightarrow> Some e | None \<Rightarrow>
      case si_channelLock I of Some e \<Rightarrow> Some e | None \<Rightarrow>
      case (if cfg_Enabled config then si_available I else Some True) of
        None \<Rightarrow> Some ErrDB
      | Some False \<Rightarrow> Some ErrUnsupported
      | Some True \<Rightarrow>
          (case si_channels I of
             None \<Rightarrow> Some ErrDB
           | Some cs \<Rightarrow> if channel \<in> set cs then None else Some ErrChannelNotFound))"

definition auditFor :: "string \<Rightarrow> int64 \<Rightarrow> string \<Rightarrow> string \<Rightarrow> string \<Rightarrow> string \<Rightarrow> time \<Rightarrow> auditRow" where
  "auditFor site channel operation actor status msg now =
     \<lparr>au_InstanceID = site, au_OperationType = operation, au_TargetID = showInt channel, au_ActorID = actor,
      au_Status = status, au_ErrorSummary = msg, au_CreatedAt = now, au_UpdatedAt = now\<rparr>"

definition storeSchedule :: "textEnv \<Rightarrow> saveInput \<Rightarrow> string \<Rightarrow> int64 \<Rightarrow> Config \<Rightarrow> controlDB \<Rightarrow> controlDB" where
  "storeSchedule E I site channel config db =
     (let now = si_now I;
          base = (case map_of (db_schedules db) (site, channel) of Some r \<Rightarrow> sr_Closed r | None \<Rightarrow> False);
          row = \<lparr>sr_Enabled = cfg_Enabled config, sr_Config = config, sr_Revision = cfg_Revision config,
                 sr_EffectiveAt = now, sr_UpdatedAt = now, sr_UpdatedBy = si_actor I, sr_Closed = base,
                 sr_LastExecution = [], sr_NextCheckAt = now\<rparr>;
          db1 = db\<lparr>db_schedules := AList.update (site, channel) row (db_schedules db)\<rparr>;
          db2 = supersedeScheduleExecutions E site channel [] MsgEdited now db1;
          db3 = resolveScheduleAlert E site channel now db2
      in db3\<lparr>db_audits := (si_auditID I, auditFor site channel ''channel.schedule_save'' (si_actor I) ''succeeded'' [] now) # db_audits db3\<rparr>)"

definition scheduleConflict :: "Config \<Rightarrow> Schedule \<Rightarrow> bool" where
  "scheduleConflict config old \<longleftrightarrow> cfg_Revision (sd_Config old) \<noteq> cfg_Revision config \<or>
     (case cfg_ExpectedUpdatedAt config of None \<Rightarrow> False | Some t \<Rightarrow> sd_UpdatedAt old \<noteq> t)"

definition finishSave :: "textEnv \<Rightarrow> saveInput \<Rightarrow> string \<Rightarrow> int64 \<Rightarrow> Config \<Rightarrow> Schedule option \<Rightarrow> controlDB \<Rightarrow>
    (storeError + int64) \<times> controlDB" where
  "finishSave E I site channel config old db =
     (if (case old of None \<Rightarrow> False
          | Some v \<Rightarrow> cfg_Revision (sd_Config v) > 0 \<and> \<not> cfg_AlignNow config \<and> SameTiming config (sd_Config v))
      then (if si_fault I = DbOk then Inr (cfg_Revision config) else Inl ErrDB, db)
      else if map_of (db_audits db) (si_auditID I) \<noteq> None then (Inl ErrDB, db)
      else let c = config\<lparr>cfg_Revision := cfg_Revision config + 1, cfg_ExpectedUpdatedAt := None\<rparr>
           in case commitTx (si_fault I) db (storeSchedule E I site channel c db) of
                (db', ok) \<Rightarrow> (if ok then Inr (cfg_Revision c) else Inl ErrDB, db'))"

definition SaveChannelSchedule ::
    "textEnv \<Rightarrow> saveInput \<Rightarrow> string \<Rightarrow> int64 \<Rightarrow> Config \<Rightarrow> controlDB \<Rightarrow> (storeError + int64) \<times> controlDB" where
  "SaveChannelSchedule E I site channel config0 db =
     (case Normalize config0 of
        (config, Some e) \<Rightarrow> (Inl (ErrInvalid e), db)
      | (config, None) \<Rightarrow>
          (case saveGuards I channel config of
             Some e \<Rightarrow> (Inl e, db)
           | None \<Rightarrow>
               (case map_of (db_schedules db) (site, channel) of
                  None \<Rightarrow>
                    if cfg_Revision config \<noteq> 0 \<or> cfg_ExpectedUpdatedAt config \<noteq> None then (Inl ErrConflict, db)
                    else if length (filter (\<lambda>(k, r). fst k = site) (db_schedules db)) \<ge> MaxPerSite then (Inl ErrLimit, db)
                    else finishSave E I site channel config None db
                | Some r \<Rightarrow>
                    (case scanChannelSchedule (site, channel) r of
                       None \<Rightarrow> (Inl ErrDB, db)
                     | Some old \<Rightarrow>
                         if scheduleConflict config old then (Inl ErrConflict, db)
                         else finishSave E I site channel config (Some old) db))))"

definition DeleteChannelSchedule ::
    "textEnv \<Rightarrow> saveInput \<Rightarrow> string \<Rightarrow> int64 \<Rightarrow> int64 \<Rightarrow> time option \<Rightarrow> controlDB \<Rightarrow> storeError option \<times> controlDB" where
  "DeleteChannelSchedule E I site channel revision expected db =
     (case si_siteLock I of Some e \<Rightarrow> (Some e, db) | None \<Rightarrow>
      case si_channelLock I of Some e \<Rightarrow> (Some e, db) | None \<Rightarrow>
      case map_of (db_schedules db) (site, channel) of
        None \<Rightarrow> (Some ErrConflict, db)
      | Some r \<Rightarrow>
          (case scanChannelSchedule (site, channel) r of
             None \<Rightarrow> (Some ErrDB, db)
           | Some old \<Rightarrow>
               if cfg_Revision (sd_Config old) \<noteq> revision \<or> (case expected of None \<Rightarrow> False | Some t \<Rightarrow> sd_UpdatedAt old \<noteq> t)
               then (Some ErrConflict, db)
               else if map_of (db_audits db) (si_auditID I) \<noteq> None then (Some ErrDB, db)
               else let now = si_now I;
                        db1 = db\<lparr>db_schedules := AList.delete (site, channel) (db_schedules db)\<rparr>;
                        db2 = supersedeScheduleExecutions E site channel [] MsgDeleted now db1;
                        db3 = resolveScheduleAlert E site channel now db2;
                        db4 = db3\<lparr>db_audits := (si_auditID I, auditFor site channel ''channel.schedule_delete'' (si_actor I) ''succeeded'' [] now) # db_audits db3\<rparr>
                    in case commitTx (si_fault I) db db4 of (db', ok) \<Rightarrow> (if ok then None else Some ErrDB, db')))"

subsection \<open>Preparing, starting and finishing an execution\<close>

definition executionID :: "textEnv \<Rightarrow> Schedule \<Rightarrow> time \<Rightarrow> string" where
  "executionID E plan boundary =
     ''schedule-'' @ take 40 (te_sha256 E (sd_SiteID plan @ '':'' @ showInt (sd_ChannelID plan) @ '':'' @
        showInt (cfg_Revision (sd_Config plan)) @ '':'' @ te_rfc3339 E boundary))"

definition setNextCheck :: "Schedule \<Rightarrow> time \<Rightarrow> controlDB \<Rightarrow> controlDB" where
  "setNextCheck plan t db =
     onSchedule (sd_SiteID plan) (sd_ChannelID plan) (\<lambda>r. sr_Revision r = cfg_Revision (sd_Config plan))
       (\<lambda>r. r\<lparr>sr_NextCheckAt := t\<rparr>) db"

text \<open>\<open>INSERT IGNORE\<close>: nothing happens when the identifier or the boundary of the revision is there already.\<close>

definition insertExecution :: "Execution \<Rightarrow> controlDB \<Rightarrow> controlDB" where
  "insertExecution e db =
     (if map_of (db_executions db) (ex_ID e) \<noteq> None \<or>
         (\<exists>(k, x) \<in> set (db_executions db). ex_SiteID x = ex_SiteID e \<and> ex_ChannelID x = ex_ChannelID e \<and>
            ex_Revision x = ex_Revision e \<and> ex_Boundary x = ex_Boundary e)
      then db else db\<lparr>db_executions := (ex_ID e, e) # db_executions db\<rparr>)"

definition newExecution :: "textEnv \<Rightarrow> Schedule \<Rightarrow> Position \<Rightarrow> time \<Rightarrow> time \<Rightarrow> Execution" where
  "newExecution E plan p boundary now =
     \<lparr>ex_ID = executionID E plan boundary, ex_SiteID = sd_SiteID plan, ex_ChannelID = sd_ChannelID plan,
      ex_Revision = cfg_Revision (sd_Config plan), ex_Boundary = boundary,
      ex_Target = (if pos_Allowed p then 1 else 2), ex_Status = ''pending'', ex_Attempts = 0, ex_Error = [],
      ex_UpdatedAt = now, ex_ExpiresAt = (if pos_NextAt p \<noteq> 0 then Some (pos_NextAt p) else None), ex_BeforeStatus = 0\<rparr>"

definition nextOrHour :: "Position \<Rightarrow> time \<Rightarrow> time" where
  "nextOrHour p now = (if pos_NextAt p = 0 then now + Hour else pos_NextAt p)"

text \<open>The tables after the statements of the transaction; \<open>None\<close> when the execution cannot be read back.\<close>

definition prepareTx :: "textEnv \<Rightarrow> Schedule \<Rightarrow> Position \<Rightarrow> time \<Rightarrow> time \<Rightarrow> controlDB \<Rightarrow> (Execution \<times> controlDB) option" where
  "prepareTx E plan p boundary now db =
     (let xid = executionID E plan boundary;
          tick = timeTruncate now (30 * Second) + 30 * Second;
          nextCheck = (if pos_NextAt p \<noteq> 0 \<and> pos_NextAt p < tick then pos_NextAt p else tick);
          db1 = supersedeScheduleExecutions E (sd_SiteID plan) (sd_ChannelID plan) xid MsgNextBoundary now db;
          db2 = insertExecution (newExecution E plan p boundary now) db1;
          db3 = onSchedule (sd_SiteID plan) (sd_ChannelID plan) (\<lambda>r. sr_Revision r = cfg_Revision (sd_Config plan))
                  (\<lambda>r. r\<lparr>sr_LastExecution := xid, sr_NextCheckAt := nextCheck\<rparr>) db2
      in case map_of (db_executions db3) xid of
           None \<Rightarrow> None
         | Some run \<Rightarrow> Some (run, if Terminal (ex_Status run) then setNextCheck plan (nextOrHour p now) db3 else db3))"

definition PrepareChannelSchedule ::
    "textEnv \<Rightarrow> dbFault \<Rightarrow> Schedule \<Rightarrow> time \<Rightarrow> controlDB \<Rightarrow> (storeError + Execution option) \<times> controlDB" where
  "PrepareChannelSchedule E f plan now db =
     (let p = PositionOf (sd_Config plan) now;
          early = (pos_Boundary p = 0 \<or> pos_Boundary p < sd_EffectiveAt plan)
      in if early \<and> \<not> cfg_AlignNow (sd_Config plan)
         then (case commitTx f db (setNextCheck plan (nextOrHour p now) db) of
                 (db', ok) \<Rightarrow> (if ok then Inr None else Inl ErrDB, db'))
         else case prepareTx E plan p (if early then sd_EffectiveAt plan else pos_Boundary p) now db of
                None \<Rightarrow> (Inl ErrDB, db)
              | Some (run, new) \<Rightarrow>
                  (case commitTx f db new of (db', ok) \<Rightarrow> (if ok then Inr (Some run) else Inl ErrDB, db')))"

text \<open>The execution is changed in memory whether the statement succeeds or not.\<close>

definition BeginChannelScheduleWrite ::
    "dbFault \<Rightarrow> Execution \<Rightarrow> int64 \<Rightarrow> time \<Rightarrow> controlDB \<Rightarrow> bool \<times> Execution \<times> controlDB" where
  "BeginChannelScheduleWrite f run prior now db =
     (let run1 = run\<lparr>ex_BeforeStatus := prior, ex_Attempts := ex_Attempts run + 1, ex_Status := ''running'', ex_UpdatedAt := now\<rparr>
      in case commitTx f db (onExecution (ex_ID run1)
             (\<lambda>e. e\<lparr>ex_Status := ''running'', ex_Attempts := ex_Attempts run1, ex_BeforeStatus := prior, ex_UpdatedAt := now\<rparr>) db) of
           (db', ok) \<Rightarrow> (ok, run1, db'))"

subsubsection \<open>What a confirmed write changes\<close>

definition confirmRequests :: "string \<Rightarrow> controlDB \<Rightarrow> controlDB" where
  "confirmRequests xid db =
     db\<lparr>db_requests := updateWhere (\<lambda>(k, r). rq_CommandID r = xid \<and> (rq_Outcome r = ''pending'' \<or> rq_Outcome r = ''unconfirmed''))
       (\<lambda>r. r\<lparr>rq_Outcome := ''succeeded'', rq_Reason := ''status_confirmed''\<rparr>) (db_requests db)\<rparr>"

definition confirmCurrent :: "string \<Rightarrow> int64 \<Rightarrow> int64 \<Rightarrow> time \<Rightarrow> controlDB \<Rightarrow> controlDB" where
  "confirmCurrent site channel target now db =
     db\<lparr>db_current := map (\<lambda>c. if cu_Site c = site \<and> cu_ChannelID c = channel
        then c\<lparr>cu_Status := channelStatusLabel target, cu_CapturedAt := max (cu_CapturedAt c) now\<rparr> else c) (db_current db)\<rparr>"

definition setClosed :: "string \<Rightarrow> int64 \<Rightarrow> bool \<Rightarrow> controlDB \<Rightarrow> controlDB" where
  "setClosed site channel b db = onSchedule site channel (\<lambda>r. True) (\<lambda>r. r\<lparr>sr_Closed := b\<rparr>) db"

definition fenceState :: "int64 \<Rightarrow> time \<Rightarrow> ContinuousState \<Rightarrow> ContinuousState" where
  "fenceState target now s =
     s\<lparr>s_ControlRevision := s_ControlRevision s + 1,
       s_PausedReason := (if target = 1 \<and> s_PausedReason s = ManualDisabled then [] else s_PausedReason s),
       s_LastBucketAt := Some now, s_LastObservedRequests := 0, s_UpdatedAt := now\<rparr>"

definition ordinaryState :: "ContinuousState \<Rightarrow> bool" where
  "ordinaryState s \<longleftrightarrow> (s_Phase s = [] \<or> s_Phase s = ''normal'') \<and> \<not> s_CircuitDisabled s \<and>
     s_CircuitStatusTarget s = 0 \<and> s_CircuitStatusCommandID s = []"

definition forgetMetrics :: "ContinuousState \<Rightarrow> ContinuousState" where
  "forgetMetrics s =
     s\<lparr>s_KError := 1, s_KSpeed := 1, s_KCache := 1, s_KOTPS := 1, s_Multiplier := 1, s_SmoothedErrorRate := 0,
       s_LastObservedErrors := 0, s_MetricReady := False, s_BaselineReady := False, s_CacheReady := False, s_OTPSReady := False,
       s_ProbeSpeed := zeroProbeSpeedStats, s_Evaluation := None\<rparr>"

definition confirmSchedule :: "Execution \<Rightarrow> time \<Rightarrow> controlDB \<Rightarrow> controlDB" where
  "confirmSchedule run now db =
     (let site = ex_SiteID run; channel = ex_ChannelID run; target = ex_Target run;
          db1 = confirmRequests (ex_ID run) db;
          db2 = confirmCurrent site channel target now db1;
          db3 = setClosed site channel (target = 2) db2;
          db4 = onState site channel (\<lambda>s. True) (fenceState target now) db3
      in if target = 1 then onState site channel ordinaryState forgetMetrics db4 else db4)"

subsubsection \<open>The result\<close>

definition recordAudit :: "string \<Rightarrow> auditRow \<Rightarrow> controlDB \<Rightarrow> controlDB" where
  "recordAudit key a db =
     db\<lparr>db_audits := AList.update key
       (case map_of (db_audits db) key of
          None \<Rightarrow> a
        | Some x \<Rightarrow> x\<lparr>au_Status := au_Status a, au_ErrorSummary := au_ErrorSummary a, au_UpdatedAt := au_UpdatedAt a\<rparr>) (db_audits db)\<rparr>"

definition alertForResult :: "textEnv \<Rightarrow> Execution \<Rightarrow> string \<Rightarrow> scheduleMessage \<Rightarrow> time \<Rightarrow> controlDB \<Rightarrow> controlDB" where
  "alertForResult E run status msg now db =
     (if status = ''skipped'' \<or> status = ''failed'' \<or> status = ''unknown''
      then raiseScheduleAlert E (ex_SiteID run) (ex_ChannelID run) msg now db
      else if status = ''succeeded'' \<or> status = ''unchanged''
      then resolveScheduleAlert E (ex_SiteID run) (ex_ChannelID run) now db
      else db)"

definition finishTx :: "textEnv \<Rightarrow> Execution \<Rightarrow> string \<Rightarrow> scheduleMessage \<Rightarrow> bool \<Rightarrow> time \<Rightarrow> controlDB \<Rightarrow> controlDB" where
  "finishTx E run status msg written now db =
     (let db1 = (if written then confirmSchedule run now db
                 else if ex_Target run = 1 \<and> (status = ''unchanged'' \<or> status = ''succeeded'')
                 then setClosed (ex_SiteID run) (ex_ChannelID run) False db else db);
          db2 = onExecution (ex_ID run) (\<lambda>e. e\<lparr>ex_Status := status, ex_Attempts := ex_Attempts run,
                  ex_BeforeStatus := ex_BeforeStatus run, ex_Error := te_text E msg, ex_UpdatedAt := now\<rparr>) db1;
          operation = (if ex_Target run = 1 then ''channel.schedule_open'' else ''channel.schedule_close'');
          db3 = recordAudit (ex_ID run) (auditFor (ex_SiteID run) (ex_ChannelID run) operation ''system:schedule'' status (te_text E msg) now) db2
      in alertForResult E run status msg now db3)"

definition FinishChannelSchedule ::
    "textEnv \<Rightarrow> dbFault \<Rightarrow> Execution \<Rightarrow> string \<Rightarrow> scheduleMessage \<Rightarrow> bool \<Rightarrow> time \<Rightarrow> controlDB \<Rightarrow> storeError option \<times> controlDB" where
  "FinishChannelSchedule E f run status msg written now db =
     (case map_of (db_schedules db) (ex_SiteID run, ex_ChannelID run) of
        None \<Rightarrow> (Some ErrDB, db)
      | Some r \<Rightarrow>
          if sr_Revision r \<noteq> ex_Revision run then (Some ErrSuperseded, db)
          else case commitTx f db (finishTx E run status msg written now db) of
                 (db', ok) \<Rightarrow> (if ok then None else Some ErrDB, db'))"

subsection \<open>The check of the circuit recovery\<close>

text \<open>The configuration is read from the JSON column alone, with the columns \<open>enabled\<close> and \<open>closed\<close> beside it.\<close>

definition checkScheduleRecovery :: "controlDB \<Rightarrow> string \<Rightarrow> int64 \<Rightarrow> time \<Rightarrow> bool \<times> storeError option" where
  "checkScheduleRecovery db site channel now =
     (case map_of (db_schedules db) (site, channel) of
        None \<Rightarrow> (False, None)
      | Some r \<Rightarrow>
          (case Normalize (sr_Config r) of
             (c, Some e) \<Rightarrow> (False, Some (ErrInvalid e))
           | (c, None) \<Rightarrow>
               if sr_Enabled r \<and> \<not> pos_Allowed (PositionOf c now) then (sr_Closed r, Some ErrSuperseded)
               else (sr_Closed r, None)))"

end
