(* ===== verification/ChannelWrites.thy ===== *)
theory ChannelWrites
  imports ControlTables
begin

text \<open>
  Requests to the upstream API under the journal (\<open>server/internal/directcontrol/journal.go\<close>), the errors of
  the API client as far as its callers distinguish them (\<open>internal/channelcontrol/client.go\<close>), and the persistence
  of an executed write (\<open>server/internal/directcontrol/store.go\<close>).

  The upstream API is outside the program: its answer is an input.  Every request that is handed to it is
  appended to the list \<open>sent\<close>.
\<close>

section \<open>Model\<close>

text \<open>An error by what \<open>errors.Is\<close> and \<open>errors.As\<close> find in it.\<close>

record ctlError =
  ce_NotFound :: bool
  ce_StatusRejected :: bool
  ce_Deadline :: bool
  ce_Canceled :: bool
  ce_ListChanged :: bool
  ce_NetTimeout :: bool
  ce_ConnReset :: bool
  ce_ConnRefused :: bool
  ce_EOF :: bool
  ce_UnexpectedEOF :: bool
  ce_HTTP :: "int64 option"
  ce_MySQL :: "int64 option"

definition plainError :: ctlError where
  "plainError = \<lparr>ce_NotFound = False, ce_StatusRejected = False, ce_Deadline = False, ce_Canceled = False,
     ce_ListChanged = False, ce_NetTimeout = False, ce_ConnReset = False, ce_ConnRefused = False, ce_EOF = False,
     ce_UnexpectedEOF = False, ce_HTTP = None, ce_MySQL = None\<rparr>"

definition rejectedStatusResponse :: "ctlError \<Rightarrow> bool" where
  "rejectedStatusResponse e \<longleftrightarrow> ce_NotFound e \<or>
     (case ce_HTTP e of None \<Rightarrow> False | Some c \<Rightarrow> c \<ge> 400 \<and> c < 500 \<and> c \<noteq> 408 \<and> c \<noteq> 429)"

text \<open>The database or the upstream may recover: worth another attempt.\<close>

definition transientScheduleRead :: "ctlError \<Rightarrow> bool" where
  "transientScheduleRead e \<longleftrightarrow> ce_ListChanged e \<or> ce_NetTimeout e \<or> ce_ConnReset e \<or> ce_ConnRefused e \<or> ce_EOF e \<or> ce_UnexpectedEOF e \<or>
     (case ce_HTTP e of None \<Rightarrow> False | Some c \<Rightarrow> c = 429 \<or> c \<ge> 500) \<or>
     (case ce_MySQL e of None \<Rightarrow> False | Some n \<Rightarrow> n = 1205 \<or> n = 1213)"

record sentWrite =
  sw_Request :: string
  sw_Site :: string
  sw_Update :: UpdateRequest

text \<open>The tables, and the requests handed to the upstream API, newest first.\<close>

record controlWorld =
  cw_db :: controlDB
  cw_sent :: "sentWrite list"

section \<open>The journal around a request\<close>

text \<open>The fields of \<open>journalController\<close>, and what happens around one request: its random identifier, the clock
  readings, the fate of the journal's statements and the answer of the upstream.\<close>

record journalController =
  jc_site :: string
  jc_actor :: string
  jc_recommendation :: string
  jc_operation :: string
  jc_before :: UpdateRequest

record updateInput =
  ui_ID :: string
  ui_startedAt :: time
  ui_begin :: dbFault
  ui_answer :: "ctlError option"
  ui_ctxDeadline :: bool
  ui_ctxCanceled :: bool
  ui_finishedAt :: time
  ui_finish :: dbFault
  ui_link :: dbFault

definition requestOutcome :: "updateInput \<Rightarrow> string \<times> string" where
  "requestOutcome u =
     (case ui_answer u of
        None \<Rightarrow> (''succeeded'', [])
      | Some e \<Rightarrow>
          if ce_NotFound e then (''failed'', ''channel_not_found'')
          else if ce_StatusRejected e then (''failed'', ''upstream_rejected'')
          else if ce_Canceled e \<or> ui_ctxCanceled u then (''unconfirmed'', ''request_canceled'')
          else if ce_Deadline e \<or> ui_ctxDeadline u then (''unconfirmed'', ''upstream_timeout'')
          else (''unconfirmed'', ''upstream_request_failed''))"

definition journalEntry :: "journalController \<Rightarrow> updateInput \<Rightarrow> UpdateRequest \<Rightarrow> ChannelControlRequest" where
  "journalEntry c u r =
     \<lparr>rq_ID = ui_ID u, rq_InstanceID = jc_site c,
      rq_Operation = (if jc_operation c = [] then ''channel.update'' else jc_operation c),
      rq_Actor = jc_actor c, rq_RecommendationID = jc_recommendation c, rq_CommandID = [], rq_Outcome = [], rq_Reason = [],
      rq_ChannelID = up_ChannelID r, rq_Target = r, rq_Before = jc_before c, rq_StartedAt = ui_startedAt u,
      rq_FinishedAt = None, rq_DurationSeconds = None\<rparr>"

text \<open>The result is the error of the request and the identifier to link, if the request was begun.\<close>

definition journalUpdate ::
    "journalController \<Rightarrow> updateInput \<Rightarrow> UpdateRequest \<Rightarrow> controlWorld \<Rightarrow> ctlError option \<times> string \<times> controlWorld" where
  "journalUpdate c u r w =
     (let v = journalEntry c u r
      in case BeginChannelControlRequest (ui_begin u) v (cw_db w) of
           (db1, False) \<Rightarrow> (Some plainError, [], w\<lparr>cw_db := db1\<rparr>)
         | (db1, True) \<Rightarrow>
             let w1 = w\<lparr>cw_db := db1, cw_sent := \<lparr>sw_Request = ui_ID u, sw_Site = jc_site c, sw_Update = r\<rparr> # cw_sent w\<rparr>;
                 settled = v\<lparr>rq_FinishedAt := Some (ui_finishedAt u),
                          rq_DurationSeconds := Some (of_int (timeSub (ui_finishedAt u) (ui_startedAt u)) / of_int Second),
                          rq_Outcome := fst (requestOutcome u), rq_Reason := snd (requestOutcome u)\<rparr>
             in (ui_answer u, ui_ID u, w1\<lparr>cw_db := fst (FinishChannelControlRequest (ui_finish u) settled (cw_db w1))\<rparr>))"

definition linkRequest :: "updateInput \<Rightarrow> string \<Rightarrow> string \<Rightarrow> controlWorld \<Rightarrow> controlWorld" where
  "linkRequest u key command w =
     (if key = [] \<or> command = [] then w
      else w\<lparr>cw_db := fst (LinkChannelControlRequest (ui_link u) key command (cw_db w))\<rparr>)"

section \<open>What a request leaves alone\<close>

text \<open>Every table but the journal.\<close>

definition otherTables where
  "otherTables db = (db_schedules db, db_executions db, db_states db, db_current db, db_audits db, db_alerts db,
     db_lastProbe db, db_commands db, db_recommendations db, db_bases db, db_policies db)"

lemma otherTables_requests [simp]: "otherTables (db\<lparr>db_requests := q\<rparr>) = otherTables db"
  by (simp add: otherTables_def)

lemma journal_frame [simp]:
  "otherTables (fst (BeginChannelControlRequest f v db)) = otherTables db"
  "otherTables (fst (FinishChannelControlRequest f v db)) = otherTables db"
  "otherTables (fst (LinkChannelControlRequest f key command db)) = otherTables db"
  by (cases f; simp add: BeginChannelControlRequest_def FinishChannelControlRequest_def LinkChannelControlRequest_def)+

lemma journalUpdate_frame:
  assumes "journalUpdate c u r w = (e, key, w')"
  shows "otherTables (cw_db w') = otherTables (cw_db w)"
proof (cases "BeginChannelControlRequest (ui_begin u) (journalEntry c u r) (cw_db w)")
  case (Pair db1 b)
  then have "otherTables db1 = otherTables (cw_db w)"
    using journal_frame(1)[of "ui_begin u" "journalEntry c u r" "cw_db w"] by simp
  then show ?thesis using assms Pair by (cases b) (auto simp: journalUpdate_def Let_def)
qed

lemma linkRequest_frame [simp]: "otherTables (cw_db (linkRequest u key command w)) = otherTables (cw_db w)"
  by (simp add: linkRequest_def)

lemma linkRequest_sent [simp]: "cw_sent (linkRequest u key command w) = cw_sent w"
  by (simp add: linkRequest_def)

text \<open>A request is sent at most once, and only after its journal row was inserted.\<close>

lemma journalUpdate_sent:
  assumes "journalUpdate c u r w = (e, key, w')"
  obtains (blocked) "cw_sent w' = cw_sent w" "e = Some plainError" "key = []"
  | (sent) "cw_sent w' = \<lparr>sw_Request = ui_ID u, sw_Site = jc_site c, sw_Update = r\<rparr> # cw_sent w"
      "snd (BeginChannelControlRequest (ui_begin u) (journalEntry c u r) (cw_db w))" "e = ui_answer u" "key = ui_ID u"
proof (cases "BeginChannelControlRequest (ui_begin u) (journalEntry c u r) (cw_db w)")
  case (Pair db1 b)
  show thesis
  proof (cases b)
    case True
    then show thesis using assms Pair by (intro sent) (auto simp: journalUpdate_def Let_def)
  next
    case False
    then show thesis using assms Pair by (intro blocked) (auto simp: journalUpdate_def Let_def)
  qed
qed

end
