(* ===== verification/ScheduleApply.thy ===== *)
theory ScheduleApply
  imports ScheduleStore ChannelWrites
begin

text \<open>
  The execution of channel schedules (\<open>server/internal/directcontrol/channel_schedules.go\<close>): the check that
  closing a channel leaves every model and group of it covered, the handler that brings a channel to the
  state its schedule asks for, and the order of the plans of one round.

  The handler holds the schedule lock of the site and the lock of the channel from its first read to its last
  write, and so do saving and deleting a schedule; one application is therefore a single step on the tables.
  What the handler reads from outside (locks, clocks, the upstream API, the policy) is the record \<open>runInput\<close>.
\<close>

section \<open>Coverage\<close>

fun splitComma :: "string \<Rightarrow> string list" where
  "splitComma [] = [[]]"
| "splitComma (c # cs) =
     (if c = CHR '','' then [] # splitComma cs
      else case splitComma cs of [] \<Rightarrow> [[c]] | v # vs \<Rightarrow> (c # v) # vs)"

definition splitScheduleValues :: "string \<Rightarrow> string list" where
  "splitScheduleValues value = filter (\<lambda>v. v \<noteq> []) (map trimSpace (splitComma value))"

definition containsScheduleValue :: "string \<Rightarrow> string \<Rightarrow> bool" where
  "containsScheduleValue value want \<longleftrightarrow> want \<in> set (splitScheduleValues value)"

record Channel =
  ch_ID :: int64
  ch_Name :: string
  ch_Status :: int64
  ch_Weight :: int64
  ch_Priority :: int64
  ch_Models :: string
  ch_Group :: string

definition stateBlocks :: "ContinuousState \<Rightarrow> bool" where
  "stateBlocks s \<longleftrightarrow> s_CircuitDisabled s \<or> cap_PendingCommandID (s_Capacity s) \<noteq> [] \<or> s_CircuitStatusTarget s \<noteq> 0 \<or>
     s_PausedReason s \<noteq> [] \<or> s_Phase s \<noteq> [] \<and> s_Phase s \<noteq> ''normal''"

definition blockedChannels :: "ContinuousState list \<Rightarrow> int64 list" where
  "blockedChannels states = map s_ChannelID (filter stateBlocks states)"

text \<open>The loop over the peers for one model and group: whether one covers it, and whether one that is
  scheduled to open was seen before.\<close>

fun peerScan :: "int64 \<Rightarrow> int64 list \<Rightarrow> (int64 \<times> Control) list \<Rightarrow> string \<Rightarrow> string \<Rightarrow> bool \<Rightarrow> Channel list \<Rightarrow> bool \<times> bool" where
  "peerScan channel blocked ctls model grp waiting [] = (False, waiting)"
| "peerScan channel blocked ctls model grp waiting (p # ps) =
     (if ch_ID p = channel \<or> \<not> containsScheduleValue (ch_Models p) model \<or> \<not> containsScheduleValue (ch_Group p) grp
      then peerScan channel blocked ctls model grp waiting ps
      else let c = controlAt ctls (ch_ID p)
           in if ctl_Enabled c \<and> \<not> ctl_Allowed c then peerScan channel blocked ctls model grp waiting ps
              else let waiting1 = (waiting \<or> ctl_Opening c)
                   in if ch_Status p \<noteq> 1 \<or> ch_Weight p = 0 \<or> ch_ID p \<in> set blocked
                      then peerScan channel blocked ctls model grp waiting1 ps
                      else (True, waiting1))"

text \<open>The double loop over models and groups, as a loop over their pairs.\<close>

fun coverScan :: "int64 \<Rightarrow> int64 list \<Rightarrow> (int64 \<times> Control) list \<Rightarrow> Channel list \<Rightarrow> scheduleMessage option \<Rightarrow> (string \<times> string) list \<Rightarrow>
    scheduleMessage option \<times> bool" where
  "coverScan channel blocked ctls channels waitingReason [] = (waitingReason, waitingReason \<noteq> None)"
| "coverScan channel blocked ctls channels waitingReason ((model, grp) # pairs) =
     (case peerScan channel blocked ctls model grp False channels of
        (True, pending) \<Rightarrow> coverScan channel blocked ctls channels waitingReason pairs
      | (False, pending) \<Rightarrow>
          if \<not> pending then (Some (MsgUncovered model grp), False)
          else coverScan channel blocked ctls channels (Some (MsgUncovered model grp)) pairs)"

text \<open>The reason not to close, if there is one, and whether to wait.\<close>

definition scheduleCloseBlocked ::
    "int64 \<Rightarrow> Channel list \<Rightarrow> ContinuousState list \<Rightarrow> (int64 \<times> Control) list \<Rightarrow> scheduleMessage option \<times> bool" where
  "scheduleCloseBlocked channel channels states ctls =
     (case find (\<lambda>c. ch_ID c = channel) channels of
        None \<Rightarrow> (Some MsgChannelMissing, False)
      | Some target \<Rightarrow>
          let models = splitScheduleValues (ch_Models target);
              groups = splitScheduleValues (ch_Group target)
          in if length models = 0 \<or> length groups = 0 then (Some MsgCoverageUnclear, False)
             else coverScan channel (blockedChannels states) ctls channels None (List.product models groups))"

section \<open>Applying a schedule\<close>

datatype controllerLookup = CtlError | CtlNone | CtlDirect bool

text \<open>The inputs in the order the handler takes them.  \<open>CtlDirect\<close> says whether the client can read channels;
  \<open>Inl\<close> is an error; the clock is read several times.\<close>

record runInput =
  ri_siteLock :: "storeError option"
  ri_channelLock :: "storeError option"
  ri_loadFails :: bool
  ri_now :: time
  ri_prepare :: dbFault
  ri_controller :: controllerLookup
  ri_read :: "ctlError + int64 option"
  ri_states :: "ctlError option"
  ri_policy :: "ctlError + PolicyRecord option"
  ri_bases :: "string \<Rightarrow> ctlError + ChannelBaseValue list"
  ri_list :: "ctlError + Channel list"
  ri_controls :: "ctlError option"
  ri_listedAt :: time
  ri_checkAt :: time
  ri_expiryAt :: time
  ri_available :: "ctlError + bool"
  ri_beginAt :: time
  ri_begin :: dbFault
  ri_update :: updateInput
  ri_observed :: "ctlError + int64 option"
  ri_finishAt :: time
  ri_finish :: dbFault

text \<open>How the handler goes on: it returns without a trace, it finishes the execution with a result, or it writes.\<close>

datatype decision =
    Quiet
  | Conclude Execution string scheduleMessage bool
  | Write Execution int64

definition readFailure :: "Execution \<Rightarrow> ctlError \<Rightarrow> decision" where
  "readFailure run cause =
     (if ex_Status run = ''running'' then Conclude run ''unknown'' MsgReadAfterWriteFailed False
      else let run1 = run\<lparr>ex_Attempts := ex_Attempts run + 1\<rparr>
           in Conclude run1 (if transientScheduleRead cause \<and> ex_Attempts run1 < MaxAttempts then ''retry'' else ''failed'')
                MsgReadFailed False)"

definition recoveryPossible :: "Schedule \<Rightarrow> PolicyRecord option \<Rightarrow> string \<Rightarrow> ChannelBaseValue list \<Rightarrow> bool" where
  "recoveryPossible plan policy model bases \<longleftrightarrow>
     (case policy of None \<Rightarrow> False | Some p \<Rightarrow> strAt (pol_DispatchModes (pr_Policy p)) model = ''auto'') \<and>
     (\<exists>b \<in> set bases. b_ChannelID b = sd_ChannelID plan \<and> b_BaseWeight b > 0 \<and> length (b_Models b) = 1)"

text \<open>The loop over the engine's states: a command of another owner or a fault of the channel holds the execution.\<close>

fun stateHolds :: "runInput \<Rightarrow> Schedule \<Rightarrow> Execution \<Rightarrow> ContinuousState list \<Rightarrow> decision option" where
  "stateHolds I plan run [] = None"
| "stateHolds I plan run (s # ss) =
     (if s_ChannelID s \<noteq> sd_ChannelID plan then stateHolds I plan run ss
      else if cap_PendingCommandID (s_Capacity s) \<noteq> [] \<or> s_CircuitStatusCommandID s \<noteq> []
      then Some (Conclude run ''waiting_control'' MsgControlBusy False)
      else if ex_Target run = 1 \<and> (s_CircuitDisabled s \<or> s_Phase s = ''circuit'' \<or> s_Phase s = ''probing'' \<or> s_PausedReason s = ''write_failed'')
      then (case ri_policy I of
              Inl e \<Rightarrow> Some (readFailure run e)
            | Inr policy \<Rightarrow>
                (case ri_bases I (s_ModelName s) of
                   Inl e \<Rightarrow> Some (readFailure run e)
                 | Inr bases \<Rightarrow>
                     if \<not> recoveryPossible plan policy (s_ModelName s) bases
                     then Some (Conclude run ''skipped'' MsgNoRecovery False)
                     else Some (Conclude run ''waiting_recovery'' MsgWaitRecovery False)))
      else stateHolds I plan run ss)"

definition closeHolds :: "runInput \<Rightarrow> Schedule \<Rightarrow> Execution \<Rightarrow> controlDB \<Rightarrow> decision option" where
  "closeHolds I plan run db =
     (if ex_Target run \<noteq> 2 then None
      else case ri_list I of
             Inl e \<Rightarrow> Some (readFailure run e)
           | Inr channels \<Rightarrow>
               if length channels > 5000 then Some (Conclude run ''skipped'' MsgTooMany False)
               else case ri_controls I of
                      Some e \<Rightarrow> Some (readFailure run e)
                    | None \<Rightarrow>
                        (case ListChannelScheduleControls db (sd_SiteID plan) (ri_listedAt I) (ri_now I) of
                           None \<Rightarrow> Some (readFailure run plainError)
                         | Some ctls \<Rightarrow>
                             (case scheduleCloseBlocked (sd_ChannelID plan) channels (statesOfSite db (sd_SiteID plan)) ctls of
                                (None, waiting) \<Rightarrow> None
                              | (Some reason, True) \<Rightarrow> Some (Conclude run ''waiting_control'' MsgWaitPeer False)
                              | (Some reason, False) \<Rightarrow> Some (Conclude run ''skipped'' reason False))))"

text \<open>After the long reads the schedule must still ask for the same state, and the site must still be controlled.\<close>

definition windowHolds :: "runInput \<Rightarrow> Schedule \<Rightarrow> Execution \<Rightarrow> decision option" where
  "windowHolds I plan run =
     (let position = PositionOf (sd_Config plan) (ri_checkAt I);
          target = (if pos_Allowed position then 1 else 2)
      in if target \<noteq> ex_Target run \<or> pos_Boundary position > ex_Boundary run \<or>
            (case ex_ExpiresAt run of None \<Rightarrow> False | Some t \<Rightarrow> \<not> ri_expiryAt I < t)
         then Some (Conclude run ''superseded'' MsgWindowPassed False)
         else case ri_available I of
                Inl e \<Rightarrow> Some (readFailure run e)
              | Inr False \<Rightarrow> Some (Conclude run ''failed'' MsgSiteDisabled False)
              | Inr True \<Rightarrow> None)"

definition decideStatus :: "runInput \<Rightarrow> Schedule \<Rightarrow> Execution \<Rightarrow> controlDB \<Rightarrow> int64 \<Rightarrow> decision" where
  "decideStatus I plan run0 db actual =
     (if ex_Status run0 = ''running''
      then (if actual = ex_Target run0 then Conclude run0 ''succeeded'' MsgReadBack True
            else Conclude run0 ''unknown'' MsgEarlierUnconfirmed False)
      else let run = run0\<lparr>ex_BeforeStatus := actual\<rparr>
           in if actual = ex_Target run then Conclude run ''unchanged'' MsgAlreadyThere False
              else if (ex_Status run = ''waiting_recovery'' \<or> ex_Status run = ''waiting_control'') \<and>
                      timeSub (ri_now I) (ex_Boundary run) \<ge> 10 * Minute
              then Conclude run ''failed'' MsgTooLate False
              else case ri_states I of
                     Some e \<Rightarrow> readFailure run e
                   | None \<Rightarrow>
                       (case stateHolds I plan run (statesOfSite db (sd_SiteID plan)) of Some d \<Rightarrow> d | None \<Rightarrow>
                        case closeHolds I plan run db of Some d \<Rightarrow> d | None \<Rightarrow>
                        case windowHolds I plan run of Some d \<Rightarrow> d | None \<Rightarrow> Write run actual))"

definition decide :: "runInput \<Rightarrow> Schedule \<Rightarrow> Execution \<Rightarrow> controlDB \<Rightarrow> decision" where
  "decide I plan run db =
     (case ri_controller I of
        CtlError \<Rightarrow> Conclude run ''failed'' MsgConfigRead False
      | CtlNone \<Rightarrow> Conclude run ''failed'' MsgNoDirect False
      | CtlDirect False \<Rightarrow> Conclude run ''failed'' MsgNoReader False
      | CtlDirect True \<Rightarrow>
          if ex_Status run = ''retry'' \<and> timeSub (ri_now I) (ex_UpdatedAt run) < 2 ^ nat (min (ex_Attempts run) 4) * (30 * Second)
          then Quiet
          else case ri_read I of
                 Inl e \<Rightarrow> readFailure run e
               | Inr None \<Rightarrow> Conclude run ''failed'' MsgStatusUnclear False
               | Inr (Some actual) \<Rightarrow>
                   if actual \<noteq> 1 \<and> actual \<noteq> 2 then Conclude run ''failed'' MsgStatusUnclear False
                   else decideStatus I plan run db actual)"

definition finishRun :: "textEnv \<Rightarrow> runInput \<Rightarrow> Execution \<Rightarrow> string \<Rightarrow> scheduleMessage \<Rightarrow> bool \<Rightarrow> controlWorld \<Rightarrow>
    storeError option \<times> controlWorld" where
  "finishRun E I run status msg written w =
     (case FinishChannelSchedule E (ri_finish I) run status msg written (ri_finishAt I) (cw_db w) of
        (err, db') \<Rightarrow> (err, w\<lparr>cw_db := db'\<rparr>))"

definition scheduleJournal :: "Schedule \<Rightarrow> Execution \<Rightarrow> int64 \<Rightarrow> journalController" where
  "scheduleJournal plan run actual =
     \<lparr>jc_site = sd_SiteID plan, jc_actor = ''system:schedule'', jc_recommendation = [],
      jc_operation = (if ex_Target run = 1 then ''channel.schedule_open'' else ''channel.schedule_close''),
      jc_before = (noUpdate (sd_ChannelID plan))\<lparr>up_Status := Some actual\<rparr>\<rparr>"

definition writeSchedule :: "textEnv \<Rightarrow> runInput \<Rightarrow> Schedule \<Rightarrow> Execution \<Rightarrow> int64 \<Rightarrow> controlWorld \<Rightarrow> storeError option \<times> controlWorld" where
  "writeSchedule E I plan run0 actual w =
     (case BeginChannelScheduleWrite (ri_begin I) run0 actual (ri_beginAt I) (cw_db w) of
        (False, run, db1) \<Rightarrow> (Some ErrDB, w\<lparr>cw_db := db1\<rparr>)
      | (True, run, db1) \<Rightarrow>
          (case journalUpdate (scheduleJournal plan run actual) (ri_update I)
                  ((noUpdate (sd_ChannelID plan))\<lparr>up_Status := Some (ex_Target run)\<rparr>) (w\<lparr>cw_db := db1\<rparr>) of
             (err, key, w2) \<Rightarrow>
               let w3 = linkRequest (ri_update I) key (ex_ID run) w2
               in case err of
                    None \<Rightarrow> finishRun E I run ''succeeded'' MsgNone True w3
                  | Some e \<Rightarrow>
                      if ce_StatusRejected e then finishRun E I run ''failed'' MsgRejected False w3
                      else if ri_observed I = Inr (Some (ex_Target run)) then finishRun E I run ''succeeded'' MsgReadBack True w3
                      else finishRun E I run ''unknown'' MsgWriteUnconfirmed False w3))"

definition carryOut :: "textEnv \<Rightarrow> runInput \<Rightarrow> Schedule \<Rightarrow> decision \<Rightarrow> controlWorld \<Rightarrow> storeError option \<times> controlWorld" where
  "carryOut E I plan d w =
     (case d of
        Quiet \<Rightarrow> (None, w)
      | Conclude run status msg written \<Rightarrow> finishRun E I run status msg written w
      | Write run actual \<Rightarrow> writeSchedule E I plan run actual w)"

definition applyChannelSchedule :: "textEnv \<Rightarrow> runInput \<Rightarrow> string \<Rightarrow> int64 \<Rightarrow> controlWorld \<Rightarrow> storeError option \<times> controlWorld" where
  "applyChannelSchedule E I site channel w =
     (case ri_siteLock I of Some e \<Rightarrow> (Some e, w) | None \<Rightarrow>
      case ri_channelLock I of Some e \<Rightarrow> (Some e, w) | None \<Rightarrow>
      case (if ri_loadFails I then None else LoadChannelSchedule (cw_db w) site channel) of
        None \<Rightarrow> (Some ErrDB, w)
      | Some plan \<Rightarrow>
          if \<not> cfg_Enabled (sd_Config plan) then (None, w)
          else case PrepareChannelSchedule E (ri_prepare I) plan (ri_now I) (cw_db w) of
                 (Inl e, db1) \<Rightarrow> (Some e, w\<lparr>cw_db := db1\<rparr>)
               | (Inr None, db1) \<Rightarrow> (None, w\<lparr>cw_db := db1\<rparr>)
               | (Inr (Some run), db1) \<Rightarrow>
                   if Terminal (ex_Status run) then (None, w\<lparr>cw_db := db1\<rparr>)
                   else carryOut E I plan (decide I plan run db1) (w\<lparr>cw_db := db1\<rparr>))"

section \<open>The order of a round\<close>

text \<open>The plans grouped by site, in the order of first appearance.\<close>

fun addToSite :: "(string \<times> Schedule list) list \<Rightarrow> Schedule \<Rightarrow> (string \<times> Schedule list) list" where
  "addToSite [] plan = [(sd_SiteID plan, [plan])]"
| "addToSite ((site, ps) # gs) plan =
     (if site = sd_SiteID plan then (site, ps @ [plan]) # gs else (site, ps) # addToSite gs plan)"

definition siteGroups :: "Schedule list \<Rightarrow> Schedule list list" where
  "siteGroups plans = map snd (foldl addToSite [] plans)"

text \<open>Openings before closings; the sort is stable.\<close>

definition roundGroups :: "time \<Rightarrow> Schedule list \<Rightarrow> Schedule list list" where
  "roundGroups now plans =
     map (sort_key (\<lambda>p. if pos_Allowed (PositionOf (sd_Config p) now) then 0 else (1::nat))) (siteGroups plans)"

end
