(* ===== verification/ScheduleRun.thy ===== *)
theory ScheduleRun
  imports ScheduleApply
begin

text \<open>
  What the execution of channel schedules guarantees: coverage of models and groups when a channel is closed,
  the life of an execution as a state machine, and the invariant of the table of executions, under every
  sequence of applications, saves and deletions with every failure of the database and the upstream.
\<close>

section \<open>Coverage\<close>

text \<open>A peer that can take over: it serves model and group, is enabled upstream with a weight, no state of the
  engine blocks it, and its schedule, if it has an enabled one, allows it.\<close>

definition covers :: "int64 \<Rightarrow> ContinuousState list \<Rightarrow> (int64 \<times> Control) list \<Rightarrow> string \<Rightarrow> string \<Rightarrow> Channel \<Rightarrow> bool" where
  "covers channel states ctls model grp p \<longleftrightarrow>
     ch_ID p \<noteq> channel \<and> containsScheduleValue (ch_Models p) model \<and> containsScheduleValue (ch_Group p) grp \<and>
     ch_Status p = 1 \<and> ch_Weight p \<noteq> 0 \<and> \<not> (\<exists>s \<in> set states. s_ChannelID s = ch_ID p \<and> stateBlocks s) \<and>
     (ctl_Enabled (controlAt ctls (ch_ID p)) \<longrightarrow> ctl_Allowed (controlAt ctls (ch_ID p)))"

definition pairsOf :: "Channel \<Rightarrow> (string \<times> string) list" where
  "pairsOf c = List.product (splitScheduleValues (ch_Models c)) (splitScheduleValues (ch_Group c))"

lemma peerScan_iff:
  "fst (peerScan channel (blockedChannels states) ctls model grp waiting ps) \<longleftrightarrow>
   (\<exists>p \<in> set ps. covers channel states ctls model grp p)"
proof (induction ps arbitrary: waiting)
  case (Cons p ps)
  have b: "ch_ID p \<in> set (blockedChannels states) \<longleftrightarrow> (\<exists>s \<in> set states. s_ChannelID s = ch_ID p \<and> stateBlocks s)"
    by (force simp: blockedChannels_def image_iff)
  show ?case
    by (simp add: Let_def Cons.IH covers_def[of _ _ _ _ _ p] b) blast
qed simp

lemma coverScan_None:
  "fst (coverScan channel (blockedChannels states) ctls channels r pairs) = None \<longleftrightarrow>
   r = None \<and> (\<forall>(m, g) \<in> set pairs. \<exists>p \<in> set channels. covers channel states ctls m g p)"
proof (induction pairs arbitrary: r)
  case (Cons x pairs)
  obtain m g where x: "x = (m, g)" by (cases x)
  obtain c b where s: "peerScan channel (blockedChannels states) ctls m g False channels = (c, b)" by fastforce
  then have "c \<longleftrightarrow> (\<exists>p \<in> set channels. covers channel states ctls m g p)"
    using peerScan_iff[of channel states ctls m g False channels] by simp
  then show ?case using Cons.IH[of r] Cons.IH[of "Some (MsgUncovered m g)"] by (cases c; cases b) (auto simp: x s)
qed auto

text \<open>The check accepts exactly when every model and group of the channel has a covering peer.\<close>

lemma closeBlocked_None:
  "fst (scheduleCloseBlocked channel channels states ctls) = None \<longleftrightarrow>
   (\<exists>c. find (\<lambda>c. ch_ID c = channel) channels = Some c \<and> pairsOf c \<noteq> [] \<and>
        (\<forall>(m, g) \<in> set (pairsOf c). \<exists>p \<in> set channels. covers channel states ctls m g p))"
proof (cases "find (\<lambda>c. ch_ID c = channel) channels")
  case (Some c)
  have "pairsOf c = [] \<longleftrightarrow> splitScheduleValues (ch_Models c) = [] \<or> splitScheduleValues (ch_Group c) = []"
    by (auto simp: pairsOf_def set_empty[symmetric] simp del: set_empty)
  then show ?thesis by (auto simp: scheduleCloseBlocked_def Some Let_def coverScan_None pairsOf_def)
qed (simp add: scheduleCloseBlocked_def)

section \<open>The life of an execution\<close>

definition idleStatus :: "string \<Rightarrow> bool" where
  "idleStatus s \<longleftrightarrow> s \<in> set [''pending'', ''retry'', ''waiting_recovery'', ''waiting_control'']"

text \<open>The abstract machine: an idle execution may wait, retry, start its write or end; once the write has started
  it can only end; an end is final.\<close>

definition statusStep :: "string \<Rightarrow> string \<Rightarrow> bool" where
  "statusStep a b \<longleftrightarrow> a = b \<or> idleStatus a \<and> (idleStatus b \<and> b \<noteq> ''pending'' \<or> b = ''running'' \<or> Terminal b) \<or>
     a = ''running'' \<and> Terminal b"

lemma status_disjoint [simp]:
  "idleStatus s \<Longrightarrow> \<not> Terminal s" "\<not> idleStatus ''running''" "\<not> Terminal ''running''"
  by (auto simp: idleStatus_def Terminal_def)

lemma status_values [simp]:
  "idleStatus ''pending''" "idleStatus ''retry''" "idleStatus ''waiting_recovery''" "idleStatus ''waiting_control''"
  "Terminal ''succeeded''" "Terminal ''unchanged''" "Terminal ''skipped''" "Terminal ''failed''" "Terminal ''unknown''" "Terminal ''superseded''"
  "\<not> idleStatus ''succeeded''" "\<not> idleStatus ''unchanged''" "\<not> idleStatus ''skipped''" "\<not> idleStatus ''failed''"
  "\<not> idleStatus ''unknown''" "\<not> idleStatus ''superseded''"
  by (simp_all add: idleStatus_def Terminal_def)

lemma openStatus_iff: "openStatus s \<longleftrightarrow> idleStatus s \<or> s = ''running''"
  by (auto simp: openStatus_def idleStatus_def)

lemma statusStep_refl [simp]: "statusStep a a"
  by (simp add: statusStep_def)

lemma statusStep_trans: "statusStep a b \<Longrightarrow> statusStep b c \<Longrightarrow> statusStep a c"
  unfolding statusStep_def by (auto dest: status_disjoint(1))

lemma statusStep_terminal: "Terminal a \<Longrightarrow> statusStep a b \<longleftrightarrow> b = a"
  by (auto simp: statusStep_def dest: status_disjoint(1))

text \<open>What never changes of an execution.\<close>

definition sameExecution :: "Execution \<Rightarrow> Execution \<Rightarrow> bool" where
  "sameExecution e x \<longleftrightarrow> ex_ID x = ex_ID e \<and> ex_SiteID x = ex_SiteID e \<and> ex_ChannelID x = ex_ChannelID e \<and>
     ex_Revision x = ex_Revision e \<and> ex_Boundary x = ex_Boundary e \<and> ex_Target x = ex_Target e \<and> ex_ExpiresAt x = ex_ExpiresAt e"

text \<open>Attempts are bounded, and an execution that may be tried again has attempts left.\<close>

definition goodExecution :: "Execution \<Rightarrow> bool" where
  "goodExecution e \<longleftrightarrow> (idleStatus (ex_Status e) \<or> ex_Status e = ''running'' \<or> Terminal (ex_Status e)) \<and>
     0 \<le> ex_Attempts e \<and> ex_Attempts e \<le> MaxAttempts \<and> (idleStatus (ex_Status e) \<longrightarrow> ex_Attempts e < MaxAttempts)"

definition goodTable :: "(string \<times> Execution) list \<Rightarrow> bool" where
  "goodTable t \<longleftrightarrow> distinct (map fst t) \<and> (\<forall>(k, e) \<in> set t. ex_ID e = k \<and> goodExecution e)"

text \<open>One table of executions follows another: nothing is lost, every row follows the machine.\<close>

definition follows :: "(string \<times> Execution) list \<Rightarrow> (string \<times> Execution) list \<Rightarrow> bool" where
  "follows t u \<longleftrightarrow> (\<forall>k e. map_of t k = Some e \<longrightarrow>
     (\<exists>x. map_of u k = Some x \<and> sameExecution e x \<and> statusStep (ex_Status e) (ex_Status x)))"

lemma follows_refl [simp]: "follows t t"
  by (auto simp: follows_def sameExecution_def)

lemma sameExecution_trans: "sameExecution e x \<Longrightarrow> sameExecution x y \<Longrightarrow> sameExecution e y"
  by (simp add: sameExecution_def)

lemma follows_trans:
  assumes "follows t u" "follows u v"
  shows "follows t v"
  unfolding follows_def
proof (intro allI impI)
  fix k e assume "map_of t k = Some e"
  then obtain x where x: "map_of u k = Some x" "sameExecution e x" "statusStep (ex_Status e) (ex_Status x)"
    using assms(1) by (auto simp: follows_def)
  then obtain y where "map_of v k = Some y" "sameExecution x y" "statusStep (ex_Status x) (ex_Status y)"
    using assms(2) by (auto simp: follows_def)
  with x show "\<exists>y. map_of v k = Some y \<and> sameExecution e y \<and> statusStep (ex_Status e) (ex_Status y)"
    by (blast intro: sameExecution_trans statusStep_trans)
qed

lemma follows_row:
  "follows t u \<Longrightarrow> map_of t k = Some e \<Longrightarrow> \<exists>x. map_of u k = Some x \<and> sameExecution e x \<and> statusStep (ex_Status e) (ex_Status x)"
  by (simp add: follows_def)

text \<open>An update of rows keeps table and machine when it does so row by row.\<close>

lemma updateWhere_good:
  assumes "goodTable t"
    and "\<And>k e. map_of t k = Some e \<Longrightarrow> p (k, e) \<Longrightarrow> goodExecution e \<Longrightarrow> ex_ID e = k \<Longrightarrow>
           goodExecution (f e) \<and> sameExecution e (f e) \<and> statusStep (ex_Status e) (ex_Status (f e))"
  shows "goodTable (updateWhere p f t)" and "follows t (updateWhere p f t)"
proof -
  have d: "distinct (map fst t)" using assms(1) by (simp add: goodTable_def)
  have row: "(if p (k, u) then f u else u) = x \<Longrightarrow> (k, u) \<in> set t \<Longrightarrow>
      ex_ID x = k \<and> goodExecution x \<and> sameExecution u x \<and> statusStep (ex_Status u) (ex_Status x)" for k u x
    using assms(1) assms(2)[of k u] map_of_is_SomeI[OF d, of k u]
    by (auto simp: goodTable_def sameExecution_def split: if_splits)
  show "goodTable (updateWhere p f t)"
    using d row unfolding goodTable_def by (auto dest!: updateWhere_entry)
  show "follows t (updateWhere p f t)"
    using d row unfolding follows_def by (auto dest: map_of_SomeD)
qed

section \<open>The store operations on the table of executions\<close>

lemmas touches = onSchedule_def onState_def setClosed_def setNextCheck_def resolveScheduleAlert_def raiseScheduleAlert_def
  confirmRequests_def confirmCurrent_def confirmSchedule_def recordAudit_def alertForResult_def

lemma supersede_executions:
  assumes "goodTable (db_executions db)"
  shows "goodTable (db_executions (supersedeScheduleExecutions E site channel except msg now db))"
    and "follows (db_executions db) (db_executions (supersedeScheduleExecutions E site channel except msg now db))"
  using assms
  by (auto simp: supersedeScheduleExecutions_def Let_def goodExecution_def sameExecution_def statusStep_def openStatus_iff
      intro!: updateWhere_good)

lemma supersede_schedules [simp]:
  "db_schedules (supersedeScheduleExecutions E site channel except msg now db) = db_schedules db"
  "db_states (supersedeScheduleExecutions E site channel except msg now db) = db_states db"
  by (simp_all add: supersedeScheduleExecutions_def Let_def)

lemma insert_executions:
  assumes "goodTable (db_executions db)" "goodExecution e"
  shows "goodTable (db_executions (insertExecution e db))" and "follows (db_executions db) (db_executions (insertExecution e db))"
  using assms by (auto simp: insertExecution_def goodTable_def follows_def map_of_eq_None_iff sameExecution_def rev_image_eqI)

lemma newExecution_good [simp]: "goodExecution (newExecution E plan p boundary now)"
  by (simp add: newExecution_def goodExecution_def idleStatus_def MaxAttempts_def)

lemma finishTx_executions:
  "db_executions (finishTx E run status msg written now db) =
   updateWhere (\<lambda>(k, e). k = ex_ID run) (\<lambda>e. e\<lparr>ex_Status := status, ex_Attempts := ex_Attempts run,
     ex_BeforeStatus := ex_BeforeStatus run, ex_Error := te_text E msg, ex_UpdatedAt := now\<rparr>) (db_executions db)"
  by (simp add: finishTx_def Let_def touches onExecution_def)

lemma prepareTx_executions:
  assumes "goodTable (db_executions db)" "prepareTx E plan p boundary now db = Some (run, new)"
  shows "goodTable (db_executions new)" "follows (db_executions db) (db_executions new)"
    "map_of (db_executions new) (ex_ID run) = Some run" "ex_ID run = executionID E plan boundary"
proof -
  let ?xid = "executionID E plan boundary"
  let ?s = "supersedeScheduleExecutions E (sd_SiteID plan) (sd_ChannelID plan) ?xid MsgNextBoundary now db"
  let ?i = "insertExecution (newExecution E plan p boundary now) ?s"
  have new: "db_executions new = db_executions ?i" and run: "map_of (db_executions ?i) ?xid = Some run"
    using assms(2) by (auto simp: prepareTx_def Let_def touches split: option.splits if_splits)
  note s = supersede_executions[OF assms(1), of E "sd_SiteID plan" "sd_ChannelID plan" ?xid MsgNextBoundary now]
  note i = insert_executions[OF s(1) newExecution_good, of E plan p boundary now]
  show "goodTable (db_executions new)" using i(1) new by simp
  show "follows (db_executions db) (db_executions new)" using follows_trans[OF s(2) i(2)] new by simp
  show xid: "ex_ID run = ?xid" using i(1) map_of_SomeD[OF run] by (auto simp: goodTable_def)
  show "map_of (db_executions new) (ex_ID run) = Some run" using run new xid by simp
qed

lemma prepare_executions:
  assumes "goodTable (db_executions db)" "PrepareChannelSchedule E f plan now db = (r, db')"
  shows "goodTable (db_executions db')" and "follows (db_executions db) (db_executions db')"
    and "r = Inr (Some run) \<Longrightarrow> map_of (db_executions db') (ex_ID run) = Some run"
  using assms prepareTx_executions[OF assms(1)]
  by (cases f; auto simp: PrepareChannelSchedule_def Let_def touches split: if_splits option.splits prod.splits; blast)+

section \<open>What the handler decides\<close>

definition resultOK :: "Execution \<Rightarrow> Execution \<Rightarrow> string \<Rightarrow> bool" where
  "resultOK run r s \<longleftrightarrow> sameExecution run r \<and> 0 \<le> ex_Attempts r \<and> ex_Attempts r \<le> MaxAttempts \<and>
     (Terminal s \<or> idleStatus (ex_Status run) \<and> idleStatus s \<and> s \<noteq> ''pending'' \<and> ex_Attempts r < MaxAttempts)"

definition decisionOK :: "Execution \<Rightarrow> decision \<Rightarrow> bool" where
  "decisionOK run d \<longleftrightarrow>
     (case d of
        Quiet \<Rightarrow> True
      | Conclude r s m wr \<Rightarrow> resultOK run r s
      | Write r actual \<Rightarrow> sameExecution run r \<and> ex_Attempts r = ex_Attempts run \<and> idleStatus (ex_Status run))"

definition liveExecution :: "Execution \<Rightarrow> bool" where
  "liveExecution run \<longleftrightarrow> goodExecution run \<and> \<not> Terminal (ex_Status run)"

lemma live_cases: "liveExecution run \<Longrightarrow> idleStatus (ex_Status run) \<and> ex_Attempts run < MaxAttempts \<or> ex_Status run = ''running''"
  by (auto simp: liveExecution_def goodExecution_def)

lemma readFailure_OK:
  assumes "liveExecution run"
  shows "decisionOK run (readFailure run e)"
  using assms live_cases[OF assms]
  by (auto simp: readFailure_def decisionOK_def resultOK_def sameExecution_def Let_def liveExecution_def goodExecution_def)

text \<open>The checks run on the execution with the status read from upstream.\<close>

lemma sameExecution_before [simp]: "sameExecution run (run\<lparr>ex_BeforeStatus := a\<rparr>)"
  by (simp add: sameExecution_def)

lemma live_before [simp]: "liveExecution (run\<lparr>ex_BeforeStatus := a\<rparr>) = liveExecution run"
  by (simp add: liveExecution_def goodExecution_def)

lemma decisionOK_before [simp]: "decisionOK (run\<lparr>ex_BeforeStatus := a\<rparr>) d = decisionOK run d"
  by (simp add: decisionOK_def resultOK_def sameExecution_def split: decision.split)

lemma conclude_OK:
  assumes "liveExecution run" "Terminal s \<or> idleStatus (ex_Status run) \<and> idleStatus s \<and> s \<noteq> ''pending''"
  shows "decisionOK run (Conclude run s m wr)"
  using assms live_cases[OF assms(1)]
  by (auto simp: decisionOK_def resultOK_def sameExecution_def liveExecution_def goodExecution_def)

lemma stateHolds_OK:
  assumes "liveExecution run" "idleStatus (ex_Status run)" "stateHolds I plan run ss = Some d"
  shows "decisionOK run d"
  using assms(3) by (induction ss) (use assms(1,2) in \<open>auto intro: conclude_OK readFailure_OK split: if_splits sum.splits\<close>)

lemma closeHolds_OK:
  assumes "liveExecution run" "idleStatus (ex_Status run)" "closeHolds I plan run db = Some d"
  shows "decisionOK run d"
  using assms unfolding closeHolds_def
  by (auto intro: conclude_OK readFailure_OK split: if_splits sum.splits option.splits prod.splits bool.splits)

lemma windowHolds_OK:
  assumes "liveExecution run" "windowHolds I plan run = Some d"
  shows "decisionOK run d"
  using assms unfolding windowHolds_def Let_def
  by (auto intro: conclude_OK readFailure_OK split: if_splits sum.splits option.splits bool.splits)

lemma decideStatus_OK:
  assumes "liveExecution run"
  shows "decisionOK run (decideStatus I plan run db actual)"
proof (cases "ex_Status run = ''running''")
  case True
  then show ?thesis using assms by (auto simp: decideStatus_def intro: conclude_OK)
next
  case False
  let ?run = "run\<lparr>ex_BeforeStatus := actual\<rparr>"
  have idle: "idleStatus (ex_Status ?run)" and live: "liveExecution ?run"
    using False live_cases[OF assms] assms by auto
  have w: "decisionOK run (Write ?run actual)"
    using idle by (simp add: decisionOK_def sameExecution_def)
  have c: "decisionOK run (Conclude ?run s m wr)" if "Terminal s" for s m wr
    using conclude_OK[OF live, of s m wr] that by simp
  show ?thesis
  proof (cases "actual = ex_Target run")
    case True
    then show ?thesis using c[of "''unchanged''"] by (simp add: decideStatus_def Let_def False)
  next
    case neq: False
    show ?thesis
      using w c readFailure_OK[OF live] stateHolds_OK[OF live idle] closeHolds_OK[OF live idle] windowHolds_OK[OF live]
      by (simp add: decideStatus_def Let_def False neq split: option.split)
  qed
qed

lemma decide_OK:
  assumes "liveExecution run"
  shows "decisionOK run (decide I plan run db)"
  using assms unfolding decide_def
  by (auto simp: decideStatus_OK intro: conclude_OK readFailure_OK split: controllerLookup.splits bool.splits sum.splits option.splits)
     (simp_all add: decisionOK_def)

text \<open>A write is decided only for an execution whose write has not started, with every check passed.\<close>

lemma decide_Write:
  assumes "decide I plan run db = Write r actual"
  shows "r = run\<lparr>ex_BeforeStatus := actual\<rparr>" "ex_Status run \<noteq> ''running''" "actual \<noteq> ex_Target run" "actual = 1 \<or> actual = 2"
    "ri_read I = Inr (Some actual)" "closeHolds I plan r db = None" "windowHolds I plan r = None"
    "stateHolds I plan r (statesOfSite db (sd_SiteID plan)) = None"
proof -
  have no: "\<And>run e. readFailure run e \<noteq> Write r actual" by (simp add: readFailure_def Let_def)
  have sh: "stateHolds I plan x ss \<noteq> Some (Write r actual)" for x ss
    by (induction ss) (use no in \<open>auto split: if_splits sum.splits\<close>)
  have cl: "closeHolds I plan x db \<noteq> Some (Write r actual)" for x
    using no unfolding closeHolds_def by (auto split: if_splits sum.splits option.splits prod.splits bool.splits)
  have wi: "windowHolds I plan x \<noteq> Some (Write r actual)" for x
    using no unfolding windowHolds_def Let_def by (auto split: if_splits sum.splits option.splits bool.splits)
  obtain a where a: "ri_read I = Inr (Some a)" "a = 1 \<or> a = 2" "decideStatus I plan run db a = Write r actual"
    using assms no unfolding decide_def by (auto split: controllerLookup.splits bool.splits sum.splits option.splits if_splits)
  then have "a = actual" "r = run\<lparr>ex_BeforeStatus := actual\<rparr>" "ex_Status run \<noteq> ''running''" "actual \<noteq> ex_Target run"
    "closeHolds I plan r db = None" "windowHolds I plan r = None" "stateHolds I plan r (statesOfSite db (sd_SiteID plan)) = None"
    using no sh cl wi unfolding decideStatus_def Let_def by (auto split: if_splits option.splits)
  then show "r = run\<lparr>ex_BeforeStatus := actual\<rparr>" "ex_Status run \<noteq> ''running''" "actual \<noteq> ex_Target run" "actual = 1 \<or> actual = 2"
    "ri_read I = Inr (Some actual)" "closeHolds I plan r db = None" "windowHolds I plan r = None"
    "stateHolds I plan r (statesOfSite db (sd_SiteID plan)) = None"
    using a by auto
qed

section \<open>What an application does to the table\<close>

text \<open>A table moves on: it stays good and follows the machine.\<close>

definition movesOn :: "(string \<times> Execution) list \<Rightarrow> (string \<times> Execution) list \<Rightarrow> bool" where
  "movesOn t u \<longleftrightarrow> (goodTable t \<longrightarrow> goodTable u \<and> follows t u)"

lemma movesOn_refl [simp]: "movesOn t t"
  by (simp add: movesOn_def)

lemma movesOn_trans: "movesOn t u \<Longrightarrow> movesOn u v \<Longrightarrow> movesOn t v"
  unfolding movesOn_def by (blast intro: follows_trans)

lemma table_row: "goodTable t \<Longrightarrow> map_of t k = Some e \<Longrightarrow> goodExecution e \<and> ex_ID e = k"
  by (auto simp: goodTable_def dest!: map_of_SomeD)

lemma updateWhere_one:
  assumes "goodTable t" "map_of t k = Some e"
    and "goodExecution (f e) \<and> sameExecution e (f e) \<and> statusStep (ex_Status e) (ex_Status (f e))"
  shows "goodTable (updateWhere (\<lambda>(k', e). k' = k) f t)" and "follows t (updateWhere (\<lambda>(k', e). k' = k) f t)"
  using updateWhere_good[OF assms(1), of "\<lambda>(k', e). k' = k" f] assms(2,3) by auto

lemma finish_movesOn:
  assumes row: "map_of (db_executions db) (ex_ID r) = Some e" and ok: "resultOK e r s" and live: "\<not> Terminal (ex_Status e)"
    and good: "goodTable (db_executions db)"
  shows "movesOn (db_executions db) (db_executions (snd (FinishChannelSchedule E f r s m wr now db)))"
proof -
  let ?new = "finishTx E r s m wr now db"
  let ?f = "\<lambda>e. e\<lparr>ex_Status := s, ex_Attempts := ex_Attempts r, ex_BeforeStatus := ex_BeforeStatus r, ex_Error := te_text E m, ex_UpdatedAt := now\<rparr>"
  have "idleStatus (ex_Status e) \<or> ex_Status e = ''running''"
    using live table_row[OF good row] by (auto simp: goodExecution_def)
  then have f: "goodExecution (?f e) \<and> sameExecution e (?f e) \<and> statusStep (ex_Status e) (ex_Status (?f e))"
    using ok by (auto simp: resultOK_def goodExecution_def sameExecution_def statusStep_def)
  have "goodTable (db_executions ?new) \<and> follows (db_executions db) (db_executions ?new)"
    unfolding finishTx_executions using updateWhere_one[OF good row, of ?f] f by simp
  then have "movesOn (db_executions db) (db_executions (fst (commitTx f db ?new)))"
    using commitTx_all[of "\<lambda>d. movesOn (db_executions db) (db_executions d)" db ?new f] by (simp add: movesOn_def)
  then show ?thesis by (auto simp: FinishChannelSchedule_def case_prod_beta split: option.split)
qed

lemma begin_movesOn:
  assumes row: "map_of (db_executions db) (ex_ID r) = Some e" and idle: "idleStatus (ex_Status e)"
    and att: "ex_Attempts r = ex_Attempts e" and good: "goodTable (db_executions db)"
    and b: "BeginChannelScheduleWrite f r before now db = (ok, run, db1)"
  shows "movesOn (db_executions db) (db_executions db1)" and "sameExecution r run"
    and "ok \<Longrightarrow> \<exists>x. map_of (db_executions db1) (ex_ID r) = Some x \<and> ex_Status x = ''running'' \<and> ex_Attempts x = ex_Attempts run"
proof -
  let ?f = "\<lambda>e. e\<lparr>ex_Status := ''running'', ex_Attempts := ex_Attempts r + 1, ex_BeforeStatus := before, ex_UpdatedAt := now\<rparr>"
  let ?new = "onExecution (ex_ID r) ?f db"
  let ?run = "r\<lparr>ex_BeforeStatus := before, ex_Attempts := ex_Attempts r + 1, ex_Status := ''running'', ex_UpdatedAt := now\<rparr>"
  obtain d k where dk: "commitTx f db ?new = (d, k)" by (cases "commitTx f db ?new")
  then have "BeginChannelScheduleWrite f r before now db = (k, ?run, d)"
    by (simp add: BeginChannelScheduleWrite_def Let_def)
  with b dk have c: "commitTx f db ?new = (db1, ok)" and run: "run = ?run" by simp_all
  have "goodExecution (?f e) \<and> sameExecution e (?f e) \<and> statusStep (ex_Status e) (ex_Status (?f e))"
    using table_row[OF good row] idle att by (auto simp: goodExecution_def sameExecution_def statusStep_def)
  then have "goodTable (db_executions ?new) \<and> follows (db_executions db) (db_executions ?new)"
    unfolding onExecution_def using updateWhere_one[OF good row, of ?f] by simp
  then have "movesOn (db_executions db) (db_executions (fst (commitTx f db ?new)))"
    using commitTx_all[of "\<lambda>d. movesOn (db_executions db) (db_executions d)" db ?new f] by (simp add: movesOn_def)
  then show "movesOn (db_executions db) (db_executions db1)" using c by simp
  show "sameExecution r run" by (simp add: run sameExecution_def)
  show "\<exists>x. map_of (db_executions db1) (ex_ID r) = Some x \<and> ex_Status x = ''running'' \<and> ex_Attempts x = ex_Attempts run" if ok
    using commitTx_ok[of f db ?new] c that row good by (auto simp: onExecution_def run goodTable_def)
qed

text \<open>The write of an execution has started, or the execution has ended.\<close>

definition startedIn :: "(string \<times> Execution) list \<Rightarrow> string \<Rightarrow> bool" where
  "startedIn t k \<longleftrightarrow> (\<exists>x. map_of t k = Some x \<and> \<not> idleStatus (ex_Status x))"

lemma startedIn_follows:
  assumes "follows t u" "startedIn t k"
  shows "startedIn u k"
proof -
  obtain e where e: "map_of t k = Some e" "\<not> idleStatus (ex_Status e)" using assms(2) by (auto simp: startedIn_def)
  obtain x where "map_of u k = Some x" "statusStep (ex_Status e) (ex_Status x)" using follows_row[OF assms(1) e(1)] by blast
  then show ?thesis using e(2) by (auto simp: startedIn_def statusStep_def dest: status_disjoint(1))
qed

lemma sameExecution_sym: "sameExecution e x \<Longrightarrow> sameExecution x e"
  by (simp add: sameExecution_def)

lemma otherTables_executions: "otherTables d = otherTables d' \<Longrightarrow> db_executions d = db_executions d' \<and> db_schedules d = db_schedules d'"
  by (simp add: otherTables_def)

lemma finishRun_effect:
  assumes "goodTable (db_executions (cw_db w))" "map_of (db_executions (cw_db w)) (ex_ID r) = Some e" "resultOK e r s"
    "\<not> Terminal (ex_Status e)" "finishRun E I r s m wr w = (err, w')"
  shows "movesOn (db_executions (cw_db w)) (db_executions (cw_db w'))" and "cw_sent w' = cw_sent w"
  using finish_movesOn[OF assms(2-4,1), of E "ri_finish I" m wr "ri_finishAt I"] assms(5)
  by (auto simp: finishRun_def split: prod.splits)

definition scheduleRequest :: "runInput \<Rightarrow> Schedule \<Rightarrow> int64 \<Rightarrow> sentWrite" where
  "scheduleRequest I plan target =
     \<lparr>sw_Request = ui_ID (ri_update I), sw_Site = sd_SiteID plan, sw_Update = (noUpdate (sd_ChannelID plan))\<lparr>up_Status := Some target\<rparr>\<rparr>"

lemma writeSchedule_effect:
  assumes good: "goodTable (db_executions (cw_db w))" and row: "map_of (db_executions (cw_db w)) (ex_ID r) = Some e"
    and same: "sameExecution e r" and idle: "idleStatus (ex_Status e)" and att: "ex_Attempts r = ex_Attempts e"
    and w': "writeSchedule E I plan r actual w = (err, w')"
  shows "movesOn (db_executions (cw_db w)) (db_executions (cw_db w'))"
    and "cw_sent w' = cw_sent w \<or> cw_sent w' = scheduleRequest I plan (ex_Target r) # cw_sent w \<and> startedIn (db_executions (cw_db w')) (ex_ID r)"
proof -
  obtain ok run db1 where b: "BeginChannelScheduleWrite (ri_begin I) r actual (ri_beginAt I) (cw_db w) = (ok, run, db1)"
    by (metis prod_cases3)
  note bm = begin_movesOn[OF row idle att good b]
  have "movesOn (db_executions (cw_db w)) (db_executions (cw_db w')) \<and> (cw_sent w' = cw_sent w \<or>
      cw_sent w' = scheduleRequest I plan (ex_Target r) # cw_sent w \<and> startedIn (db_executions (cw_db w')) (ex_ID r))"
  proof (cases ok)
    case False
    then show ?thesis using w' b bm(1) by (auto simp: writeSchedule_def)
  next
    case True
    obtain x where x: "map_of (db_executions db1) (ex_ID r) = Some x" "ex_Status x = ''running''" "ex_Attempts x = ex_Attempts run"
      using bm(3)[OF True] by blast
    have g1: "goodTable (db_executions db1)" and f1: "follows (db_executions (cw_db w)) (db_executions db1)"
      using bm(1) good by (simp_all add: movesOn_def)
    have sx: "sameExecution x run"
      using follows_row[OF f1 row] x(1) same bm(2) by (auto intro: sameExecution_trans sameExecution_sym)
    have ids: "ex_ID run = ex_ID r" "ex_Target run = ex_Target r" using bm(2) by (simp_all add: sameExecution_def)
    let ?req = "(noUpdate (sd_ChannelID plan))\<lparr>up_Status := Some (ex_Target run)\<rparr>"
    obtain e2 key w2 where j: "journalUpdate (scheduleJournal plan run actual) (ri_update I) ?req (w\<lparr>cw_db := db1\<rparr>) = (e2, key, w2)"
      by (metis prod_cases3)
    let ?w3 = "linkRequest (ri_update I) key (ex_ID run) w2"
    have ex3: "db_executions (cw_db ?w3) = db_executions db1"
      using otherTables_executions[of "cw_db ?w3" db1] journalUpdate_frame[OF j] by simp
    have sent3: "cw_sent ?w3 = cw_sent w \<or> cw_sent ?w3 = scheduleRequest I plan (ex_Target r) # cw_sent w"
      using journalUpdate_sent[OF j] by (auto simp: scheduleRequest_def scheduleJournal_def ids)
    obtain s m wr where fin: "finishRun E I run s m wr ?w3 = (err, w')" "Terminal s"
      using w' b True j by (auto simp: writeSchedule_def Let_def split: option.splits if_splits)
    have res: "resultOK x run s"
      using sx fin(2) table_row[OF g1 x(1)] x(3) by (simp add: resultOK_def goodExecution_def)
    have g3: "goodTable (db_executions (cw_db ?w3))" and x3: "map_of (db_executions (cw_db ?w3)) (ex_ID run) = Some x"
      using g1 x(1) ids ex3 by simp_all
    note fe = finishRun_effect[OF g3 x3 res _ fin(1)]
    have m3: "movesOn (db_executions db1) (db_executions (cw_db w'))" using fe(1) ex3 x(2) by simp
    have "startedIn (db_executions db1) (ex_ID r)" using x by (simp add: startedIn_def)
    then have "startedIn (db_executions (cw_db w')) (ex_ID r)"
      using m3 g1 startedIn_follows by (auto simp: movesOn_def)
    then show ?thesis using movesOn_trans[OF bm(1) m3] sent3 fe(2) x(2) by auto
  qed
  then show "movesOn (db_executions (cw_db w)) (db_executions (cw_db w'))"
    and "cw_sent w' = cw_sent w \<or> cw_sent w' = scheduleRequest I plan (ex_Target r) # cw_sent w \<and> startedIn (db_executions (cw_db w')) (ex_ID r)"
    by simp_all
qed

lemma carryOut_effect:
  assumes good: "goodTable (db_executions (cw_db w))" and row: "map_of (db_executions (cw_db w)) (ex_ID run) = Some run"
    and live: "\<not> Terminal (ex_Status run)" and c: "carryOut E I plan (decide I plan run (cw_db w)) w = (err, w')"
  shows "movesOn (db_executions (cw_db w)) (db_executions (cw_db w'))"
    and "cw_sent w' = cw_sent w \<or>
      (\<exists>r actual. decide I plan run (cw_db w) = Write r actual \<and> idleStatus (ex_Status run) \<and>
        cw_sent w' = scheduleRequest I plan (ex_Target run) # cw_sent w \<and> startedIn (db_executions (cw_db w')) (ex_ID run))"
proof -
  have "liveExecution run" using table_row[OF good row] live by (simp add: liveExecution_def)
  note ok = decide_OK[OF this, of I plan "cw_db w"]
  have "movesOn (db_executions (cw_db w)) (db_executions (cw_db w')) \<and> (cw_sent w' = cw_sent w \<or>
      (\<exists>r actual. decide I plan run (cw_db w) = Write r actual \<and> idleStatus (ex_Status run) \<and>
        cw_sent w' = scheduleRequest I plan (ex_Target run) # cw_sent w \<and> startedIn (db_executions (cw_db w')) (ex_ID run)))"
  proof (cases "decide I plan run (cw_db w)")
    case Quiet
    then show ?thesis using c by (simp add: carryOut_def)
  next
    case (Conclude r s m wr)
    then have r: "resultOK run r s" and f: "finishRun E I r s m wr w = (err, w')" using ok c by (simp_all add: decisionOK_def carryOut_def)
    have "ex_ID r = ex_ID run" using r by (simp add: resultOK_def sameExecution_def)
    then have "map_of (db_executions (cw_db w)) (ex_ID r) = Some run" using row by simp
    from finishRun_effect[OF good this r live f] show ?thesis by simp
  next
    case (Write r actual)
    then have s: "sameExecution run r" and i: "idleStatus (ex_Status run)" and a: "ex_Attempts r = ex_Attempts run"
      and f: "writeSchedule E I plan r actual w = (err, w')" using ok c by (simp_all add: decisionOK_def carryOut_def)
    have ids: "ex_ID r = ex_ID run" "ex_Target r = ex_Target run" using s by (simp_all add: sameExecution_def)
    then have "map_of (db_executions (cw_db w)) (ex_ID r) = Some run" using row by simp
    from writeSchedule_effect[OF good this s i a f] show ?thesis using i ids Write by auto
  qed
  then show "movesOn (db_executions (cw_db w)) (db_executions (cw_db w'))"
    and "cw_sent w' = cw_sent w \<or>
      (\<exists>r actual. decide I plan run (cw_db w) = Write r actual \<and> idleStatus (ex_Status run) \<and>
        cw_sent w' = scheduleRequest I plan (ex_Target run) # cw_sent w \<and> startedIn (db_executions (cw_db w')) (ex_ID run))"
    by simp_all
qed

text \<open>The execution an application works on, if it gets that far.\<close>

definition workedOn :: "textEnv \<Rightarrow> runInput \<Rightarrow> string \<Rightarrow> int64 \<Rightarrow> controlDB \<Rightarrow> Execution option" where
  "workedOn E I site channel db =
     (case LoadChannelSchedule db site channel of
        None \<Rightarrow> None
      | Some plan \<Rightarrow>
          (case PrepareChannelSchedule E (ri_prepare I) plan (ri_now I) db of
             (Inr (Some run), db1) \<Rightarrow> Some run
           | _ \<Rightarrow> None))"

text \<open>The circumstances of an application that sends a request.\<close>

definition sendsFor :: "textEnv \<Rightarrow> runInput \<Rightarrow> string \<Rightarrow> int64 \<Rightarrow> controlWorld \<Rightarrow> Schedule \<Rightarrow> Execution \<Rightarrow> controlDB \<Rightarrow> int64 \<Rightarrow> bool" where
  "sendsFor E I site channel w plan run db1 actual \<longleftrightarrow>
     ri_siteLock I = None \<and> ri_channelLock I = None \<and> \<not> ri_loadFails I \<and>
     LoadChannelSchedule (cw_db w) site channel = Some plan \<and> cfg_Enabled (sd_Config plan) \<and>
     PrepareChannelSchedule E (ri_prepare I) plan (ri_now I) (cw_db w) = (Inr (Some run), db1) \<and> idleStatus (ex_Status run) \<and>
     decide I plan run db1 = Write (run\<lparr>ex_BeforeStatus := actual\<rparr>) actual"

text \<open>How far an application gets.\<close>

lemma apply_cases:
  assumes a: "applyChannelSchedule E I site channel w = (err, w')"
  obtains (same) "w' = w"
  | (prepared) plan r db1 where "LoadChannelSchedule (cw_db w) site channel = Some plan"
      "PrepareChannelSchedule E (ri_prepare I) plan (ri_now I) (cw_db w) = (r, db1)" "w' = w\<lparr>cw_db := db1\<rparr>"
  | (worked) plan run db1 where "ri_siteLock I = None" "ri_channelLock I = None" "\<not> ri_loadFails I"
      "LoadChannelSchedule (cw_db w) site channel = Some plan" "cfg_Enabled (sd_Config plan)" "\<not> Terminal (ex_Status run)"
      "PrepareChannelSchedule E (ri_prepare I) plan (ri_now I) (cw_db w) = (Inr (Some run), db1)"
      "carryOut E I plan (decide I plan run db1) (w\<lparr>cw_db := db1\<rparr>) = (err, w')"
proof (cases "ri_siteLock I = None \<and> ri_channelLock I = None \<and> \<not> ri_loadFails I \<and> LoadChannelSchedule (cw_db w) site channel \<noteq> None")
  case False
  then have "w' = w" using a by (auto simp: applyChannelSchedule_def split: option.splits if_splits)
  then show thesis by (rule same)
next
  case True
  then obtain plan where plan: "LoadChannelSchedule (cw_db w) site channel = Some plan" by auto
  obtain r db1 where p: "PrepareChannelSchedule E (ri_prepare I) plan (ri_now I) (cw_db w) = (r, db1)" by fastforce
  show thesis
  proof (cases "cfg_Enabled (sd_Config plan) \<and> (\<exists>run. r = Inr (Some run) \<and> \<not> Terminal (ex_Status run))")
    case False
    then have "w' = w \<or> w' = w\<lparr>cw_db := db1\<rparr>" using a True plan p
      by (auto simp: applyChannelSchedule_def split: if_splits sum.splits option.splits)
    then show thesis using same prepared[OF plan p] by blast
  next
    case work: True
    then obtain run where run: "r = Inr (Some run)" "\<not> Terminal (ex_Status run)" by blast
    have "carryOut E I plan (decide I plan run db1) (w\<lparr>cw_db := db1\<rparr>) = (err, w')"
      using a True plan p run work by (simp add: applyChannelSchedule_def)
    then show thesis by (rule worked[rotated -1]) (use True plan p run work in auto)
  qed
qed

text \<open>An application moves the table on and sends nothing, or the one request of the execution it worked on, whose
  write then counts as started.\<close>

definition appliedOK :: "textEnv \<Rightarrow> runInput \<Rightarrow> string \<Rightarrow> int64 \<Rightarrow> controlWorld \<Rightarrow> controlWorld \<Rightarrow> bool" where
  "appliedOK E I site channel w w' \<longleftrightarrow> movesOn (db_executions (cw_db w)) (db_executions (cw_db w')) \<and>
     (cw_sent w' = cw_sent w \<or>
      (\<exists>plan run db1 actual. sendsFor E I site channel w plan run db1 actual \<and>
        cw_sent w' = scheduleRequest I plan (ex_Target run) # cw_sent w \<and> startedIn (db_executions (cw_db w')) (ex_ID run)))"

lemma apply_work:
  assumes good: "goodTable (db_executions (cw_db w))" and plan: "LoadChannelSchedule (cw_db w) site channel = Some plan"
    and locks: "ri_siteLock I = None" "ri_channelLock I = None" "\<not> ri_loadFails I"
    and en: "cfg_Enabled (sd_Config plan)" and live: "\<not> Terminal (ex_Status run)"
    and p: "PrepareChannelSchedule E (ri_prepare I) plan (ri_now I) (cw_db w) = (Inr (Some run), db1)"
    and c: "carryOut E I plan (decide I plan run db1) (w\<lparr>cw_db := db1\<rparr>) = (err, w')"
  shows "appliedOK E I site channel w w'"
proof -
  note pe = prepare_executions[OF good p]
  have g: "goodTable (db_executions (cw_db (w\<lparr>cw_db := db1\<rparr>)))"
    and row: "map_of (db_executions (cw_db (w\<lparr>cw_db := db1\<rparr>))) (ex_ID run) = Some run"
    and c': "carryOut E I plan (decide I plan run (cw_db (w\<lparr>cw_db := db1\<rparr>))) (w\<lparr>cw_db := db1\<rparr>) = (err, w')"
    using pe(1,3) c by simp_all
  note ce = carryOut_effect[OF g row live c']
  have "movesOn (db_executions (cw_db w)) (db_executions (cw_db w'))"
    using movesOn_trans[of "db_executions (cw_db w)" "db_executions db1"] pe(1,2) ce(1) by (simp add: movesOn_def)
  moreover have "sendsFor E I site channel w plan run db1 actual" if "decide I plan run db1 = Write r actual" "idleStatus (ex_Status run)" for r actual
    using plan en p locks that decide_Write(1)[OF that(1)] by (simp add: sendsFor_def)
  ultimately show ?thesis using ce(2) unfolding appliedOK_def by (simp, blast)
qed

lemma apply_effect:
  assumes good: "goodTable (db_executions (cw_db w))" and a: "applyChannelSchedule E I site channel w = (err, w')"
  shows "appliedOK E I site channel w w'"
  using a
proof (cases rule: apply_cases)
  case (prepared plan r db1)
  then show ?thesis using prepare_executions[OF good prepared(2)] by (auto simp: appliedOK_def movesOn_def)
next
  case (worked plan run db1)
  show ?thesis by (rule apply_work[OF good worked(4,1,2,3,5,6,7,8)])
qed (simp add: appliedOK_def)

text \<open>An application in these circumstances is its write.\<close>

lemma sendsFor_apply:
  "sendsFor E I site channel w plan run db1 actual \<Longrightarrow>
   applyChannelSchedule E I site channel w = writeSchedule E I plan (run\<lparr>ex_BeforeStatus := actual\<rparr>) actual (w\<lparr>cw_db := db1\<rparr>)"
  by (auto simp: sendsFor_def applyChannelSchedule_def carryOut_def)

text \<open>The requests in the journal.\<close>

definition requestKeys :: "controlDB \<Rightarrow> string list" where
  "requestKeys db = map fst (db_requests db)"

lemma journal_keys [simp]:
  "requestKeys (fst (FinishChannelControlRequest f v db)) = requestKeys db"
  "requestKeys (fst (LinkChannelControlRequest f key command db)) = requestKeys db"
  by (cases f; simp add: requestKeys_def FinishChannelControlRequest_def LinkChannelControlRequest_def)+

lemma finish_requests: "requestKeys (snd (FinishChannelSchedule E f r s m wr now db)) = requestKeys db"
proof -
  have "requestKeys (finishTx E r s m wr now db) = requestKeys db"
    by (simp add: requestKeys_def finishTx_def Let_def touches onExecution_def)
  then have "requestKeys (fst (commitTx f db (finishTx E r s m wr now db))) = requestKeys db"
    by (intro commitTx_all[of "\<lambda>d. requestKeys d = requestKeys db"]) simp_all
  then show ?thesis by (auto simp: FinishChannelSchedule_def case_prod_beta split: option.split)
qed

lemma journalUpdate_row:
  assumes "journalUpdate c u r w = (e, key, w')" "cw_sent w' \<noteq> cw_sent w"
  shows "ui_ID u \<in> set (requestKeys (cw_db w'))"
proof (cases "BeginChannelControlRequest (ui_begin u) (journalEntry c u r) (cw_db w)")
  case (Pair db1 b)
  have b: b using assms Pair by (cases b) (auto simp: journalUpdate_def Let_def)
  then have "ui_ID u \<in> set (requestKeys db1)"
    using Pair by (cases "ui_begin u") (auto simp: BeginChannelControlRequest_def journalEntry_def requestKeys_def split: if_splits)
  then show ?thesis using assms(1) Pair b by (auto simp: journalUpdate_def Let_def)
qed

text \<open>Whatever is sent has its row in the journal.\<close>

lemma writeSchedule_journal:
  assumes "writeSchedule E I plan r actual w = (err, w')" "cw_sent w' \<noteq> cw_sent w"
  shows "ui_ID (ri_update I) \<in> set (requestKeys (cw_db w'))"
proof -
  obtain ok run db1 where b: "BeginChannelScheduleWrite (ri_begin I) r actual (ri_beginAt I) (cw_db w) = (ok, run, db1)"
    by (metis prod_cases3)
  let ?req = "(noUpdate (sd_ChannelID plan))\<lparr>up_Status := Some (ex_Target run)\<rparr>"
  obtain e key w2 where j: "journalUpdate (scheduleJournal plan run actual) (ri_update I) ?req (w\<lparr>cw_db := db1\<rparr>) = (e, key, w2)"
    by (metis prod_cases3)
  let ?w3 = "linkRequest (ri_update I) key (ex_ID run) w2"
  have ok using assms b by (cases ok) (auto simp: writeSchedule_def)
  then obtain s m wr where f: "finishRun E I run s m wr ?w3 = (err, w')"
    using assms(1) b j by (auto simp: writeSchedule_def Let_def split: option.splits if_splits)
  then have "cw_sent w2 \<noteq> cw_sent w" using assms(2) by (auto simp: finishRun_def split: prod.splits)
  then have "ui_ID (ri_update I) \<in> set (requestKeys (cw_db w2))" using journalUpdate_row[OF j] by simp
  moreover have "requestKeys (cw_db ?w3) = requestKeys (cw_db w2)" by (simp add: linkRequest_def)
  moreover have "requestKeys (cw_db w') = requestKeys (cw_db ?w3)"
    using f finish_requests[of E "ri_finish I" run s m wr "ri_finishAt I" "cw_db ?w3"] by (auto simp: finishRun_def split: prod.splits)
  ultimately show ?thesis by simp
qed

section \<open>Saving and deleting\<close>

lemma save_movesOn: "movesOn (db_executions db) (db_executions (snd (SaveChannelSchedule E I site channel config db)))"
proof -
  have s: "movesOn (db_executions db) (db_executions (storeSchedule E I site channel c db))" for c
    using supersede_executions[of "db\<lparr>db_schedules := q\<rparr>" for q]
    by (simp add: movesOn_def storeSchedule_def Let_def resolveScheduleAlert_def)
  have "movesOn (db_executions db) (db_executions (snd (finishSave E I site channel c old db)))" for c old
    using commitTx_all[of "\<lambda>d. movesOn (db_executions db) (db_executions d)" db "storeSchedule E I site channel c' db" "si_fault I" for c'] s
    by (simp add: finishSave_def Let_def case_prod_beta)
  then show ?thesis by (simp add: SaveChannelSchedule_def split: option.split prod.split)
qed

lemma delete_movesOn: "movesOn (db_executions db) (db_executions (snd (DeleteChannelSchedule E I site channel revision expected db)))"
proof -
  let ?db1 = "db\<lparr>db_schedules := AList.delete (site, channel) (db_schedules db)\<rparr>"
  let ?db3 = "resolveScheduleAlert E site channel (si_now I) (supersedeScheduleExecutions E site channel [] MsgDeleted (si_now I) ?db1)"
  let ?db4 = "\<lambda>q. ?db3\<lparr>db_audits := q # db_audits ?db3\<rparr>"
  have "movesOn (db_executions db) (db_executions (?db4 q))" for q
    using supersede_executions[of ?db1] by (simp add: movesOn_def resolveScheduleAlert_def)
  then have "movesOn (db_executions db) (db_executions (fst (commitTx (si_fault I) db (?db4 q))))" for q
    using commitTx_all[of "\<lambda>d. movesOn (db_executions db) (db_executions d)" db "?db4 q" "si_fault I"] by simp
  then show ?thesis by (simp add: DeleteChannelSchedule_def Let_def case_prod_beta split: option.split)
qed

end
