(* ===== verification/ScheduleExecution.thy ===== *)
theory ScheduleExecution
  imports ScheduleRun
begin

text \<open>
  Properties of the execution of channel schedules over arbitrary sequences of operations: applications with
  any answers of the upstream and any failure of the database, saves, deletions, and whatever the rest of the
  program does to the other tables.
\<close>

section \<open>Sequences of operations\<close>

text \<open>\<open>OpElse\<close> stands for the rest of the program: it may replace every table but that of the executions, which only the
  schedule store writes.\<close>

datatype scheduleOp =
    OpApply runInput string int64
  | OpSave saveInput string int64 Config
  | OpDelete saveInput string int64 int64 "time option"
  | OpElse controlDB

definition stepOp :: "textEnv \<Rightarrow> controlWorld \<Rightarrow> scheduleOp \<Rightarrow> controlWorld" where
  "stepOp E w op =
     (case op of
        OpApply I site channel \<Rightarrow> snd (applyChannelSchedule E I site channel w)
      | OpSave I site channel config \<Rightarrow> w\<lparr>cw_db := snd (SaveChannelSchedule E I site channel config (cw_db w))\<rparr>
      | OpDelete I site channel revision expected \<Rightarrow> w\<lparr>cw_db := snd (DeleteChannelSchedule E I site channel revision expected (cw_db w))\<rparr>
      | OpElse db \<Rightarrow> w\<lparr>cw_db := db\<lparr>db_executions := db_executions (cw_db w)\<rparr>\<rparr>)"

definition runOps :: "textEnv \<Rightarrow> controlWorld \<Rightarrow> scheduleOp list \<Rightarrow> controlWorld" where
  "runOps E w ops = foldl (stepOp E) w ops"

lemma runOps_simps [simp]: "runOps E w [] = w" "runOps E w (op # ops) = runOps E (stepOp E w op) ops"
  by (simp_all add: runOps_def)

text \<open>The executions for which requests were sent, in order.\<close>

fun sentFor :: "textEnv \<Rightarrow> controlWorld \<Rightarrow> scheduleOp \<Rightarrow> string option list" where
  "sentFor E w (OpApply I site channel) =
     (if cw_sent (stepOp E w (OpApply I site channel)) = cw_sent w then []
      else [map_option ex_ID (workedOn E I site channel (cw_db w))])"
| "sentFor E w op = []"

fun writeLog :: "textEnv \<Rightarrow> controlWorld \<Rightarrow> scheduleOp list \<Rightarrow> string option list" where
  "writeLog E w [] = []"
| "writeLog E w (op # ops) = sentFor E w op @ writeLog E (stepOp E w op) ops"

abbreviation executionsOf :: "controlWorld \<Rightarrow> (string \<times> Execution) list" where
  "executionsOf w \<equiv> db_executions (cw_db w)"

lemma step_movesOn: "movesOn (executionsOf w) (executionsOf (stepOp E w op))"
proof (cases op)
  case (OpApply I site channel)
  obtain err w' where "applyChannelSchedule E I site channel w = (err, w')" by fastforce
  with apply_effect[of w E I site channel err w'] show ?thesis
    by (auto simp: OpApply stepOp_def appliedOK_def) (auto simp: movesOn_def)
qed (simp_all add: stepOp_def save_movesOn delete_movesOn)

lemma run_movesOn: "movesOn (executionsOf w) (executionsOf (runOps E w ops))"
  by (induction ops arbitrary: w) (auto intro: movesOn_trans step_movesOn)

text \<open>One step sends at most one request, for an execution whose write had not started and counts as started afterwards.\<close>

lemma step_sent:
  assumes good: "goodTable (executionsOf w)"
  obtains (silent) "sentFor E w op = []" "cw_sent (stepOp E w op) = cw_sent w"
  | (sends) k req where "sentFor E w op = [Some k]" "cw_sent (stepOp E w op) = req # cw_sent w"
      "\<not> startedIn (executionsOf w) k" "startedIn (executionsOf (stepOp E w op)) k"
proof (cases "cw_sent (stepOp E w op) = cw_sent w")
  case True
  then have "sentFor E w op = []" by (cases op) simp_all
  with True show thesis by (rule silent[rotated])
next
  case False
  then obtain I site channel where op: "op = OpApply I site channel" by (cases op) (simp_all add: stepOp_def)
  obtain err w' where a: "applyChannelSchedule E I site channel w = (err, w')" by fastforce
  have st: "stepOp E w op = w'" using a by (simp add: op stepOp_def)
  obtain plan run db1 actual where s: "sendsFor E I site channel w plan run db1 actual"
    and w': "cw_sent w' = scheduleRequest I plan (ex_Target run) # cw_sent w" "startedIn (executionsOf w') (ex_ID run)"
    using apply_effect[OF good a] False st unfolding appliedOK_def by auto
  have p: "PrepareChannelSchedule E (ri_prepare I) plan (ri_now I) (cw_db w) = (Inr (Some run), db1)"
    and idle: "idleStatus (ex_Status run)" and l: "LoadChannelSchedule (cw_db w) site channel = Some plan"
    using s by (simp_all add: sendsFor_def)
  note pe = prepare_executions[OF good p]
  have "\<not> startedIn (db_executions db1) (ex_ID run)" using pe(3)[OF refl] idle by (simp add: startedIn_def)
  then have n: "\<not> startedIn (executionsOf w) (ex_ID run)" using startedIn_follows[OF pe(2)] by blast
  have "sentFor E w op = [Some (ex_ID run)]" using False by (simp add: op workedOn_def l p)
  from sends[OF this _ n] w' st show thesis by simp
qed

lemma writeLog_facts:
  assumes "goodTable (executionsOf w)"
  shows "distinct (writeLog E w ops) \<and> None \<notin> set (writeLog E w ops) \<and> (\<forall>k. startedIn (executionsOf w) k \<longrightarrow> Some k \<notin> set (writeLog E w ops)) \<and>
    length (cw_sent (runOps E w ops)) = length (cw_sent w) + length (writeLog E w ops)"
  using assms
proof (induction ops arbitrary: w)
  case (Cons op ops)
  have m: "goodTable (executionsOf (stepOp E w op))" "follows (executionsOf w) (executionsOf (stepOp E w op))"
    using step_movesOn[of w E op] Cons.prems by (simp_all add: movesOn_def)
  note IH = Cons.IH[OF m(1)]
  from Cons.prems show ?case
  proof (cases rule: step_sent[where E = E and op = op])
    case silent
    then show ?thesis using IH startedIn_follows[OF m(2)] by auto
  next
    case (sends k req)
    then show ?thesis using IH startedIn_follows[OF m(2)] by auto
  qed
qed simp

section \<open>The schedules a closing looks at\<close>

text \<open>Keys are unique and the listing of a site is not cut off.\<close>

definition scheduleTableOK :: "controlDB \<Rightarrow> string \<Rightarrow> bool" where
  "scheduleTableOK db site \<longleftrightarrow> distinct (map fst (db_schedules db)) \<and>
     length (filter (\<lambda>k. fst k = site) (map fst (db_schedules db))) \<le> MaxPerSite"

lemma scan_frame [simp]:
  "scanChannelSchedule k (r\<lparr>sr_LastExecution := x\<rparr>) = scanChannelSchedule k r"
  "scanChannelSchedule k (r\<lparr>sr_NextCheckAt := t\<rparr>) = scanChannelSchedule k r"
  by (simp_all add: scanChannelSchedule_def split: prod.split option.split)

lemma scan_channel: "scanChannelSchedule k r = Some v \<Longrightarrow> sd_ChannelID v = snd k \<and> sd_SiteID v = fst k"
  by (auto simp: scanChannelSchedule_def split: prod.splits option.splits)

lemma onSchedule_load:
  assumes "distinct (map fst (db_schedules db))" "\<And>r. scanChannelSchedule (s, c) (f r) = scanChannelSchedule (s, c) r"
  shows "LoadChannelSchedule (onSchedule site channel p f db) s c = LoadChannelSchedule db s c"
  using assms by (auto simp: LoadChannelSchedule_def onSchedule_def split: option.split)

lemma onSchedule_keys [simp]: "map fst (db_schedules (onSchedule site channel p f db)) = map fst (db_schedules db)"
  by (simp add: onSchedule_def)

text \<open>Preparing an execution changes neither the configurations nor the engine's states.\<close>

lemma prepare_frame:
  assumes "PrepareChannelSchedule E f plan now db = (r, db1)" and d: "distinct (map fst (db_schedules db))"
  shows "LoadChannelSchedule db1 s c = LoadChannelSchedule db s c \<and> db_states db1 = db_states db \<and>
    map fst (db_schedules db1) = map fst (db_schedules db)"
proof -
  let ?P = "\<lambda>d. LoadChannelSchedule d s c = LoadChannelSchedule db s c \<and> db_states d = db_states db \<and>
    map fst (db_schedules d) = map fst (db_schedules db)"
  have on: "?P (onSchedule site channel p g d)" if "?P d" "\<And>r. scanChannelSchedule (s, c) (g r) = scanChannelSchedule (s, c) r" for site channel p g d
    using that onSchedule_load[of d s c g site channel p] assms(2) by (simp add: onSchedule_def)
  have nc: "?P (setNextCheck plan t d)" if "?P d" for t d
    unfolding setNextCheck_def by (rule on[OF that]) simp
  have tx: "?P new" if "prepareTx E plan p boundary now db = Some (run, new)" for p boundary run new
  proof -
    let ?i = "insertExecution (newExecution E plan p boundary now)
      (supersedeScheduleExecutions E (sd_SiteID plan) (sd_ChannelID plan) (executionID E plan boundary) MsgNextBoundary now db)"
    have "?P ?i" by (simp add: insertExecution_def LoadChannelSchedule_def)
    then have "?P (onSchedule (sd_SiteID plan) (sd_ChannelID plan) q (\<lambda>r. r\<lparr>sr_LastExecution := x, sr_NextCheckAt := t\<rparr>) ?i)" for q x t
      by (rule on) simp
    then show ?thesis using that nc by (auto simp: prepareTx_def Let_def split: option.splits if_splits)
  qed
  have "?P (fst (commitTx f db new))" if "?P new" for new
    by (rule commitTx_all[of ?P]) (use that in simp_all)
  then show ?thesis using assms(1) tx nc[of db]
    by (auto simp: PrepareChannelSchedule_def Let_def split: if_splits option.splits prod.splits) (metis fst_conv)+
qed

lemma scanAll_rel: "scanAll rows = Some items \<Longrightarrow> list_all2 (\<lambda>x v. scanChannelSchedule (fst x) (snd x) = Some v) rows items"
  by (induction rows arbitrary: items) (auto split: option.splits)

lemma scanAll_elems:
  assumes "scanAll rows = Some items"
  shows "map (\<lambda>v. (sd_SiteID v, sd_ChannelID v)) items = map fst rows"
    and "v \<in> set items \<longleftrightarrow> (\<exists>x \<in> set rows. scanChannelSchedule (fst x) (snd x) = Some v)"
proof -
  have r: "list_all2 (\<lambda>x v. scanChannelSchedule (fst x) (snd x) = Some v) rows items" using scanAll_rel[OF assms] .
  then show "map (\<lambda>v. (sd_SiteID v, sd_ChannelID v)) items = map fst rows"
    by (induction rule: list_all2_induct) (auto dest: scan_channel simp: prod_eq_iff)
  show "v \<in> set items \<longleftrightarrow> (\<exists>x \<in> set rows. scanChannelSchedule (fst x) (snd x) = Some v)"
    using r by (induction rule: list_all2_induct) auto
qed

lemma controls_shape:
  assumes "ListChannelScheduleControls db site listedAt now = Some ctls"
  shows "\<exists>items g. scanAll (take MaxPerSite (sort_key (\<lambda>(k, r). snd k) (filter (\<lambda>(k, r). fst k = site) (db_schedules db)))) = Some items \<and>
    ctls = map (\<lambda>v. (sd_ChannelID v, g v)) items \<and>
    (\<forall>v. ctl_Enabled (g v) = cfg_Enabled (sd_Config v) \<and> ctl_Allowed (g v) = pos_Allowed (PositionOf (sd_Config v) now))"
proof -
  let ?d = "\<lambda>v. let d = Describe v listedAt
     in case map_of (lastExecutions db site) (sd_ChannelID v) of None \<Rightarrow> d | Some e \<Rightarrow> d\<lparr>sd_Execution := Some e\<rparr>"
  let ?g = "\<lambda>v. \<lparr>ctl_Enabled = cfg_Enabled (sd_Config (?d v)), ctl_Allowed = pos_Allowed (PositionOf (sd_Config (?d v)) now),
         ctl_Closed = sd_ClosedBySchedule (?d v), ctl_Opening = PendingOpen (?d v) now\<rparr>"
  have d: "sd_Config (?d v) = sd_Config v" "sd_ChannelID (?d v) = sd_ChannelID v" for v
    by (simp_all add: Describe_def Let_def split: option.split)
  obtain items where "scanAll (take MaxPerSite (sort_key (\<lambda>(k, r). snd k) (filter (\<lambda>(k, r). fst k = site) (db_schedules db)))) = Some items"
    "ctls = map (\<lambda>v. (sd_ChannelID (?d v), ?g v)) items"
    using assms by (auto simp: ListChannelScheduleControls_def ListChannelSchedules_def split: option.splits)
  then show ?thesis by (intro exI[of _ items] exI[of _ ?g]) (simp only: d, simp)
qed

text \<open>What the map of controls says of a channel is what its schedule says.\<close>

definition scheduleAllows :: "controlDB \<Rightarrow> string \<Rightarrow> int64 \<Rightarrow> time \<Rightarrow> bool" where
  "scheduleAllows db site channel now \<longleftrightarrow>
     (case LoadChannelSchedule db site channel of
        None \<Rightarrow> True
      | Some v \<Rightarrow> cfg_Enabled (sd_Config v) \<longrightarrow> pos_Allowed (PositionOf (sd_Config v) now))"

lemma controls_tell:
  assumes ok: "scheduleTableOK db site" and l: "ListChannelScheduleControls db site listedAt now = Some ctls"
    and c: "ctl_Enabled (controlAt ctls c) \<longrightarrow> ctl_Allowed (controlAt ctls c)"
  shows "scheduleAllows db site c now"
proof (cases "LoadChannelSchedule db site c")
  case (Some v)
  let ?mine = "filter (\<lambda>(k, r). fst k = site) (db_schedules db)"
  let ?rows = "sort_key (\<lambda>(k, r). snd k) ?mine"
  have len: "length ?mine \<le> MaxPerSite" using ok by (simp add: scheduleTableOK_def filter_map o_def case_prod_unfold)
  then obtain items where items: "scanAll ?rows = Some items"
    using l by (auto simp: ListChannelScheduleControls_def ListChannelSchedules_def split: option.splits)
  obtain r where r: "map_of (db_schedules db) (site, c) = Some r" "scanChannelSchedule (site, c) r = Some v"
    using Some by (auto simp: LoadChannelSchedule_def split: option.splits)
  then have "((site, c), r) \<in> set ?rows" by (auto dest: map_of_SomeD)
  then have v: "v \<in> set items" using r(2) scanAll_elems(2)[OF items] by fastforce
  obtain g where ctls: "ctls = map (\<lambda>v. (sd_ChannelID v, g v)) items"
    and g: "\<And>v. ctl_Enabled (g v) = cfg_Enabled (sd_Config v)" "\<And>v. ctl_Allowed (g v) = pos_Allowed (PositionOf (sd_Config v) now)"
    using controls_shape[OF l] len items by auto
  have "distinct (map fst ?mine)" using ok by (simp add: scheduleTableOK_def distinct_map_filter)
  then have "distinct (map fst ?rows)" by (simp add: distinct_map)
  then have "distinct (map (\<lambda>v. (sd_SiteID v, sd_ChannelID v)) items)" using scanAll_elems(1)[OF items] by simp
  moreover have "sd_SiteID u = site" if "u \<in> set items" for u
    using that scanAll_elems(2)[OF items] by (auto dest: scan_channel)
  ultimately have "distinct (map fst ctls)" by (auto simp: ctls o_def distinct_map inj_on_def)
  then have "map_of (rev ctls) c = Some (g v)"
    using v scan_channel[OF r(2)] by (intro map_of_is_SomeI) (auto simp: rev_map[symmetric] distinct_rev ctls)
  then show ?thesis using c g by (simp add: controlAt_def scheduleAllows_def Some)
qed (simp add: scheduleAllows_def)

end
