(* ===== verification/ScheduleExample.thy ===== *)
theory ScheduleExample
  imports ScheduleExecution
begin

text \<open>
  A concrete site for the witnesses: channel 7 is open daily from eight to twenty o'clock local time, channel 8
  serves the same model and group.  At twenty-one o'clock an application closes channel 7.
\<close>

definition exTexts :: textEnv where
  "exTexts = \<lparr>te_text = (\<lambda>m. []), te_summary = (\<lambda>c s. s), te_sha256 = (\<lambda>s. s), te_rfc3339 = showInt\<rparr>"

definition exConfig :: Config where
  "exConfig = \<lparr>cfg_Enabled = True, cfg_Days = [1, 2, 3, 4, 5, 6, 7], cfg_Windows = [\<lparr>win_Start = ''08:00'', win_End = ''20:00''\<rparr>],
     cfg_Revision = 1, cfg_AlignNow = False, cfg_ExpectedUpdatedAt = None\<rparr>"

definition exDB :: controlDB where
  "exDB = emptyDB\<lparr>db_schedules := [((''s'', 7), \<lparr>sr_Enabled = True, sr_Config = exConfig, sr_Revision = 1, sr_EffectiveAt = 1,
     sr_UpdatedAt = 1, sr_UpdatedBy = ''admin'', sr_Closed = False, sr_LastExecution = [], sr_NextCheckAt = 1\<rparr>)]\<rparr>"

definition exWorld :: controlWorld where
  "exWorld = \<lparr>cw_db = exDB, cw_sent = []\<rparr>"

definition exNow :: time where
  "exNow = 253 * Hour"

definition exChannel :: "int64 \<Rightarrow> Channel" where
  "exChannel c = \<lparr>ch_ID = c, ch_Name = ''c'', ch_Status = 1, ch_Weight = 10, ch_Priority = 0, ch_Models = ''m'', ch_Group = ''g''\<rparr>"

definition exInput :: runInput where
  "exInput = \<lparr>ri_siteLock = None, ri_channelLock = None, ri_loadFails = False, ri_now = exNow, ri_prepare = DbOk,
     ri_controller = CtlDirect True, ri_read = Inr (Some 1), ri_states = None, ri_policy = Inr None, ri_bases = (\<lambda>m. Inr []),
     ri_list = Inr [exChannel 7, exChannel 8], ri_controls = None, ri_listedAt = exNow, ri_checkAt = exNow, ri_expiryAt = exNow,
     ri_available = Inr True, ri_beginAt = exNow, ri_begin = DbOk,
     ri_update = \<lparr>ui_ID = ''r'', ui_startedAt = exNow, ui_begin = DbOk, ui_answer = None, ui_ctxDeadline = False, ui_ctxCanceled = False,
       ui_finishedAt = exNow, ui_finish = DbOk, ui_link = DbOk\<rparr>,
     ri_observed = Inr None, ri_finishAt = exNow, ri_finish = DbOk\<rparr>"

lemma ex_normal: "Normalize exConfig = (exConfig, None)"
  by code_simp

lemma ex_position: "PositionOf exConfig exNow = \<lparr>pos_Allowed = False, pos_Boundary = 252 * Hour, pos_NextAt = 264 * Hour, pos_NextStatus = 1\<rparr>"
  by code_simp

definition exPlan :: Schedule where
  "exPlan = \<lparr>sd_Config = exConfig, sd_SiteID = ''s'', sd_ChannelID = 7, sd_EffectiveAt = 1, sd_UpdatedAt = 1, sd_UpdatedBy = ''admin'',
     sd_ClosedBySchedule = False, sd_Execution = None, sd_Allowed = False, sd_NextAt = None, sd_NextStatus = 0\<rparr>"

lemma ex_config: "exConfig\<lparr>cfg_Enabled := True, cfg_Revision := 1\<rparr> = exConfig"
  by (simp add: exConfig_def)

lemma ex_load: "LoadChannelSchedule exDB ''s'' 7 = Some exPlan"
  by (simp add: LoadChannelSchedule_def exDB_def emptyDB_def scanChannelSchedule_def ex_config ex_normal exPlan_def)

definition exRun :: Execution where
  "exRun = newExecution exTexts exPlan (PositionOf exConfig exNow) (252 * Hour) exNow"

definition exDB1 :: controlDB where
  "exDB1 = exDB\<lparr>db_schedules := updateWhere (\<lambda>(k, r). k = (''s'', 7) \<and> sr_Revision r = 1)
       (\<lambda>r. r\<lparr>sr_LastExecution := ex_ID exRun, sr_NextCheckAt := exNow + 30 * Second\<rparr>) (db_schedules exDB),
     db_executions := [(ex_ID exRun, exRun)]\<rparr>"

lemma ex_plan [simp]: "sd_Config exPlan = exConfig" "sd_SiteID exPlan = ''s''" "sd_ChannelID exPlan = 7" "sd_EffectiveAt exPlan = 1"
  "cfg_Enabled exConfig" "cfg_Revision exConfig = 1" "\<not> cfg_AlignNow exConfig"
  by (simp_all add: exPlan_def exConfig_def)

lemma ex_run [simp]: "ex_ID exRun = executionID exTexts exPlan (252 * Hour)" "ex_Status exRun = ''pending''" "ex_Target exRun = 2"
  "ex_Boundary exRun = 252 * Hour" "ex_ExpiresAt exRun = Some (264 * Hour)" "ex_SiteID exRun = ''s''" "ex_ChannelID exRun = 7" "ex_Revision exRun = 1"
  by (simp_all add: exRun_def newExecution_def ex_position)

lemma ex_new: "newExecution exTexts exPlan \<lparr>pos_Allowed = False, pos_Boundary = 252 * Hour, pos_NextAt = 264 * Hour, pos_NextStatus = 1\<rparr> (252 * Hour) exNow = exRun"
  by (simp only: exRun_def ex_position)

lemma ex_clock: "timeTruncate exNow (30 * Second) + 30 * Second = exNow + 30 * Second" "\<not> 264 * Hour < exNow + 30 * Second"
  by (simp_all add: exNow_def timeTruncate_def)

lemma ex_prepare: "PrepareChannelSchedule exTexts DbOk exPlan exNow exDB = (Inr (Some exRun), exDB1)"
proof -
  have "prepareTx exTexts exPlan (PositionOf exConfig exNow) (252 * Hour) exNow exDB = Some (exRun, exDB1)"
    unfolding prepareTx_def ex_position Let_def ex_new ex_clock(1)
    using ex_clock(2)
    by (simp add: supersedeScheduleExecutions_def exDB_def emptyDB_def insertExecution_def onSchedule_def updateWhere_def exDB1_def Terminal_def)
  then show ?thesis by (simp add: PrepareChannelSchedule_def ex_position Let_def)
qed

lemma ex_models: "splitScheduleValues ''m'' = [''m'']" "splitScheduleValues ''g'' = [''g'']"
  by code_simp+

lemma ex_closable: "fst (scheduleCloseBlocked 7 [exChannel 7, exChannel 8] [] ctls) = None" if "\<not> ctl_Enabled (controlAt ctls 8)"
  using that by (auto simp: closeBlocked_None exChannel_def pairsOf_def ex_models covers_def containsScheduleValue_def)

lemma ex_controls: "\<exists>ctls. ListChannelScheduleControls exDB1 ''s'' exNow exNow = Some ctls \<and> \<not> ctl_Enabled (controlAt ctls 8)"
  by (simp add: ListChannelScheduleControls_def ListChannelSchedules_def exDB1_def exDB_def emptyDB_def updateWhere_def MaxPerSite_def
      scanChannelSchedule_def ex_config ex_normal controlAt_def zeroControl_def Describe_def Let_def split: option.split)

lemma ex_states: "statesOfSite exDB1 ''s'' = []"
  by (simp add: statesOfSite_def exDB1_def exDB_def emptyDB_def)

lemma ex_decide: "decide exInput exPlan exRun exDB1 = Write (exRun\<lparr>ex_BeforeStatus := 1\<rparr>) 1"
proof -
  obtain ctls where c: "ListChannelScheduleControls exDB1 ''s'' exNow exNow = Some ctls" "\<not> ctl_Enabled (controlAt ctls 8)"
    using ex_controls by blast
  have "closeHolds exInput exPlan (exRun\<lparr>ex_BeforeStatus := 1\<rparr>) exDB1 = None"
    using ex_closable[OF c(2)] by (auto simp: closeHolds_def exInput_def c(1) ex_states split: prod.split)
  moreover have "windowHolds exInput exPlan (exRun\<lparr>ex_BeforeStatus := 1\<rparr>) = None"
    by (simp add: windowHolds_def exInput_def ex_position Let_def) (simp add: exNow_def)
  ultimately show ?thesis
    by (simp add: decide_def decideStatus_def exInput_def Let_def ex_states)
qed

lemma ex_sends: "cw_sent (snd (applyChannelSchedule exTexts exInput ''s'' 7 exWorld)) = [scheduleRequest exInput exPlan 2]"
proof -
  have i: "ri_siteLock exInput = None" "ri_channelLock exInput = None" "\<not> ri_loadFails exInput" "ri_now exInput = exNow" "ri_prepare exInput = DbOk"
    "ri_begin exInput = DbOk" "ui_begin (ri_update exInput) = DbOk" "ui_answer (ri_update exInput) = None"
    by (simp_all add: exInput_def)
  have r: "db_requests exDB1 = []" by (simp add: exDB1_def exDB_def emptyDB_def)
  have n: "\<not> Terminal (ex_Status exRun)" by (simp add: Terminal_def)
  have j: "journalUpdate c (ri_update exInput) q \<lparr>cw_db = onExecution k f exDB1, cw_sent = []\<rparr> = (e, key, w) \<Longrightarrow>
      e = None \<and> cw_sent w = [\<lparr>sw_Request = ui_ID (ri_update exInput), sw_Site = jc_site c, sw_Update = q\<rparr>]" for c q k f e key w
    by (auto simp: journalUpdate_def BeginChannelControlRequest_def onExecution_def r i Let_def)
  show ?thesis
    using n i ex_load ex_prepare ex_decide
    by (auto simp: applyChannelSchedule_def exWorld_def carryOut_def writeSchedule_def BeginChannelScheduleWrite_def Let_def
        finishRun_def scheduleRequest_def scheduleJournal_def dest!: j split: prod.splits option.splits)
qed

lemma ex_succeeds: "\<exists>x. map_of (db_executions (cw_db (snd (applyChannelSchedule exTexts exInput ''s'' 7 exWorld)))) (ex_ID exRun) = Some x \<and>
  ex_Status x = ''succeeded'' \<and> ex_Target x = 2"
proof -
  let ?run = "exRun\<lparr>ex_BeforeStatus := 1\<rparr>"
  have i: "ri_begin exInput = DbOk" "ui_begin (ri_update exInput) = DbOk" "ui_answer (ri_update exInput) = None" "ri_finish exInput = DbOk"
    by (simp_all add: exInput_def)
  have "sendsFor exTexts exInput ''s'' 7 exWorld exPlan exRun exDB1 1"
    using ex_load ex_prepare ex_decide by (simp add: sendsFor_def exWorld_def) (simp add: exInput_def)
  then have a: "applyChannelSchedule exTexts exInput ''s'' 7 exWorld = writeSchedule exTexts exInput exPlan ?run 1 (exWorld\<lparr>cw_db := exDB1\<rparr>)"
    by (rule sendsFor_apply)
  obtain run db1 where b: "BeginChannelScheduleWrite DbOk ?run 1 (ri_beginAt exInput) exDB1 = (True, run, db1)"
    and run: "ex_ID run = ex_ID exRun" "ex_SiteID run = ''s''" "ex_ChannelID run = 7" "ex_Revision run = 1"
    and db1: "db_requests db1 = []" "map_of (db_schedules db1) (''s'', 7) \<noteq> None" "\<And>r. map_of (db_schedules db1) (''s'', 7) = Some r \<Longrightarrow> sr_Revision r = 1"
      "\<exists>x. db_executions db1 = [(ex_ID exRun, x)] \<and> ex_Target x = 2"
    by (simp add: BeginChannelScheduleWrite_def Let_def onExecution_def exDB1_def exDB_def emptyDB_def updateWhere_def)
  obtain key w2 where j: "journalUpdate (scheduleJournal exPlan run 1) (ri_update exInput)
      ((noUpdate 7)\<lparr>up_Status := Some (ex_Target run)\<rparr>) (exWorld\<lparr>cw_db := db1\<rparr>) = (None, key, w2)"
    using db1(1) by (simp add: journalUpdate_def BeginChannelControlRequest_def i Let_def)
  define w3 where "w3 = linkRequest (ri_update exInput) key (ex_ID run) w2"
  have f: "db_executions (cw_db w3) = db_executions db1" "db_schedules (cw_db w3) = db_schedules db1"
    using otherTables_executions[of "cw_db w3" db1] journalUpdate_frame[OF j] by (simp_all add: w3_def)
  have "snd (applyChannelSchedule exTexts exInput ''s'' 7 exWorld) = snd (finishRun exTexts exInput run ''succeeded'' MsgNone True w3)"
    using b j by (simp add: a writeSchedule_def i w3_def)
  then show ?thesis using db1 run
    by (auto simp: finishRun_def FinishChannelSchedule_def f i finishTx_executions updateWhere_def)
qed

end
