(* ===== verification/ScheduleResults.thy ===== *)
theory ScheduleResults
  imports ScheduleExample
begin

text \<open>
  Which results an application may record: an execution becomes \<open>succeeded\<close> only on the word of the upstream.
\<close>

section \<open>Rows that became successes\<close>

text \<open>Every success of a table was one in the table before or reached a target that is confirmed.\<close>

definition successOK :: "(string \<times> Execution) list \<Rightarrow> (int64 \<Rightarrow> bool) \<Rightarrow> (string \<times> Execution) list \<Rightarrow> bool" where
  "successOK t confirmed u \<longleftrightarrow> (\<forall>k x. map_of u k = Some x \<longrightarrow> ex_Status x = ''succeeded'' \<longrightarrow>
     (\<exists>e. map_of t k = Some e \<and> ex_Status e = ''succeeded'') \<or> confirmed (ex_Target x))"

lemma successOK_refl [simp]: "successOK t confirmed t"
  by (simp add: successOK_def)

lemma successOK_update:
  assumes "goodTable u" "successOK t confirmed u"
    and "\<And>k e. map_of u k = Some e \<Longrightarrow> p (k, e) \<Longrightarrow> ex_Status (f e) = ''succeeded'' \<Longrightarrow> confirmed (ex_Target (f e))"
  shows "successOK t confirmed (updateWhere p f u)"
  unfolding successOK_def
proof (intro allI impI)
  fix k x assume x: "map_of (updateWhere p f u) k = Some x" "ex_Status x = ''succeeded''"
  have "distinct (map fst u)" using assms(1) by (simp add: goodTable_def)
  then obtain e where e: "map_of u k = Some e" "x = (if p (k, e) then f e else e)" using x(1) by auto
  show "(\<exists>e. map_of t k = Some e \<and> ex_Status e = ''succeeded'') \<or> confirmed (ex_Target x)"
  proof (cases "p (k, e)")
    case True
    then show ?thesis using assms(3)[OF e(1) True] e x by simp
  next
    case False
    then show ?thesis using assms(2) e x by (simp add: successOK_def)
  qed
qed

lemma prepare_success:
  assumes good: "goodTable (db_executions db)" and p: "PrepareChannelSchedule E f plan now db = (r, db1)"
  shows "successOK (db_executions db) confirmed (db_executions db1)"
proof -
  have tx: "successOK (db_executions db) confirmed (db_executions new)"
    if t: "prepareTx E plan pos boundary now db = Some (run, new)" for pos boundary run new
  proof -
    let ?s = "supersedeScheduleExecutions E (sd_SiteID plan) (sd_ChannelID plan) (executionID E plan boundary) MsgNextBoundary now db"
    have s: "successOK (db_executions db) confirmed (db_executions ?s)"
      unfolding supersedeScheduleExecutions_def Let_def by (simp, rule successOK_update[OF good successOK_refl]) simp
    have "db_executions new = db_executions (insertExecution (newExecution E plan pos boundary now) ?s)"
      using t by (auto simp: prepareTx_def Let_def touches split: option.splits if_splits)
    then show ?thesis using s by (auto simp: insertExecution_def successOK_def newExecution_def)
  qed
  show ?thesis using p tx
    by (cases f; auto simp: PrepareChannelSchedule_def Let_def touches split: if_splits option.splits prod.splits)
qed

lemma finishRun_success:
  assumes good: "goodTable (db_executions (cw_db w))" and ok: "successOK t confirmed (db_executions (cw_db w))"
    and row: "map_of (db_executions (cw_db w)) (ex_ID r) = Some e" "ex_Target e = ex_Target r"
    and conf: "s = ''succeeded'' \<Longrightarrow> confirmed (ex_Target r)" and f: "finishRun E I r s m wr w = (err, w')"
  shows "successOK t confirmed (db_executions (cw_db w'))"
proof -
  let ?new = "finishTx E r s m wr (ri_finishAt I) (cw_db w)"
  have "successOK t confirmed (db_executions ?new)"
    unfolding finishTx_executions by (rule successOK_update[OF good ok]) (use row conf in auto)
  then have "successOK t confirmed (db_executions (fst (commitTx (ri_finish I) (cw_db w) ?new)))"
    using ok commitTx_all[of "\<lambda>d. successOK t confirmed (db_executions d)" "cw_db w" ?new "ri_finish I"] by simp
  then show ?thesis using f ok by (auto simp: finishRun_def FinishChannelSchedule_def case_prod_beta split: option.splits if_splits)
qed

text \<open>What confirms a target: the status read, the status read back, or the acknowledgement of the request sent.\<close>

definition confirmedBy :: "runInput \<Rightarrow> bool \<Rightarrow> int64 \<Rightarrow> bool" where
  "confirmedBy I sent target \<longleftrightarrow> ri_read I = Inr (Some target) \<or> ri_observed I = Inr (Some target) \<or> sent \<and> ui_answer (ri_update I) = None"

lemma decide_success:
  assumes "decide I plan run db = Conclude r ''succeeded'' m wr"
  shows "ri_read I = Inr (Some (ex_Target r))"
proof -
  have no: "readFailure x e \<noteq> Conclude r ''succeeded'' m wr" for x e by (simp add: readFailure_def Let_def)
  have sh: "stateHolds I plan x ss \<noteq> Some (Conclude r ''succeeded'' m wr)" for x ss
    by (induction ss) (use no in \<open>auto split: if_splits sum.splits\<close>)
  have cl: "closeHolds I plan x db \<noteq> Some (Conclude r ''succeeded'' m wr)" for x
    using no unfolding closeHolds_def by (auto split: if_splits sum.splits option.splits prod.splits bool.splits)
  have wi: "windowHolds I plan x \<noteq> Some (Conclude r ''succeeded'' m wr)" for x
    using no unfolding windowHolds_def Let_def by (auto split: if_splits sum.splits option.splits bool.splits)
  obtain a where a: "ri_read I = Inr (Some a)" "decideStatus I plan run db a = Conclude r ''succeeded'' m wr"
    using assms no unfolding decide_def by (auto split: controllerLookup.splits bool.splits sum.splits option.splits if_splits)
  then have "a = ex_Target r" using no sh cl wi unfolding decideStatus_def Let_def by (auto split: if_splits option.splits)
  then show ?thesis using a by simp
qed

lemma writeSchedule_success:
  assumes good: "goodTable (db_executions (cw_db w))" and ok: "successOK t confirmed (db_executions (cw_db w))"
    and row: "map_of (db_executions (cw_db w)) (ex_ID r) = Some e" and same: "sameExecution e r"
    and idle: "idleStatus (ex_Status e)" and att: "ex_Attempts r = ex_Attempts e"
    and conf: "\<And>target. confirmedBy I (cw_sent w' \<noteq> cw_sent w) target \<Longrightarrow> confirmed target"
    and w': "writeSchedule E I plan r actual w = (err, w')"
  shows "successOK t confirmed (db_executions (cw_db w'))"
proof -
  obtain begun run db1 where b: "BeginChannelScheduleWrite (ri_begin I) r actual (ri_beginAt I) (cw_db w) = (begun, run, db1)"
    by (metis prod_cases3)
  note bm = begin_movesOn[OF row idle att good b]
  let ?f = "\<lambda>e. e\<lparr>ex_Status := ''running'', ex_Attempts := ex_Attempts r + 1, ex_BeforeStatus := actual, ex_UpdatedAt := ri_beginAt I\<rparr>"
  have "successOK t confirmed (db_executions (onExecution (ex_ID r) ?f (cw_db w)))"
    unfolding onExecution_def by (simp, rule successOK_update[OF good ok]) simp
  then have s1: "successOK t confirmed (db_executions db1)"
    using b ok commitTx_all[of "\<lambda>d. successOK t confirmed (db_executions d)" "cw_db w" "onExecution (ex_ID r) ?f (cw_db w)" "ri_begin I"]
    by (auto simp: BeginChannelScheduleWrite_def Let_def split: prod.splits)
  show ?thesis
  proof (cases begun)
    case False
    then show ?thesis using w' b s1 by (auto simp: writeSchedule_def)
  next
    case True
    obtain x where x: "map_of (db_executions db1) (ex_ID r) = Some x" using bm(3)[OF True] by blast
    have g1: "goodTable (db_executions db1)" and f1: "follows (db_executions (cw_db w)) (db_executions db1)"
      using bm(1) good by (simp_all add: movesOn_def)
    have tx: "ex_Target x = ex_Target run" "ex_ID run = ex_ID r"
      using follows_row[OF f1 row] x same bm(2) by (auto simp: sameExecution_def)
    let ?req = "(noUpdate (sd_ChannelID plan))\<lparr>up_Status := Some (ex_Target run)\<rparr>"
    obtain e2 key w2 where j: "journalUpdate (scheduleJournal plan run actual) (ri_update I) ?req (w\<lparr>cw_db := db1\<rparr>) = (e2, key, w2)"
      by (metis prod_cases3)
    let ?w3 = "linkRequest (ri_update I) key (ex_ID run) w2"
    have ex3: "db_executions (cw_db ?w3) = db_executions db1"
      using otherTables_executions[of "cw_db ?w3" db1] journalUpdate_frame[OF j] by simp
    obtain s m wr where fin: "finishRun E I run s m wr ?w3 = (err, w')"
      and s: "s = ''succeeded'' \<Longrightarrow> e2 = None \<or> ri_observed I = Inr (Some (ex_Target run))"
      using w' b True j by (auto simp: writeSchedule_def Let_def split: option.splits if_splits)
    have "cw_sent w' = cw_sent w2" using fin by (auto simp: finishRun_def split: prod.splits)
    moreover have "e2 = None \<Longrightarrow> cw_sent w2 \<noteq> cw_sent w \<and> ui_answer (ri_update I) = None"
      by (rule journalUpdate_sent[OF j]) simp_all
    ultimately have "s = ''succeeded'' \<Longrightarrow> confirmed (ex_Target run)" using s conf by (auto simp: confirmedBy_def)
    moreover have "map_of (db_executions db1) (ex_ID run) = Some x" using x tx(2) by simp
    ultimately show ?thesis
      by (intro finishRun_success[where e = x, OF _ _ _ tx(1) _ fin]) (simp_all add: ex3 g1 s1)
  qed
qed

lemma carryOut_success:
  assumes good: "goodTable (db_executions (cw_db w))" and s: "successOK t confirmed (db_executions (cw_db w))"
    and row: "map_of (db_executions (cw_db w)) (ex_ID run) = Some run" and live: "\<not> Terminal (ex_Status run)"
    and conf: "\<And>target. confirmedBy I (cw_sent w' \<noteq> cw_sent w) target \<Longrightarrow> confirmed target"
    and c: "carryOut E I plan (decide I plan run (cw_db w)) w = (err, w')"
  shows "successOK t confirmed (db_executions (cw_db w'))"
proof -
  have "liveExecution run" using table_row[OF good row] live by (simp add: liveExecution_def)
  note ok = decide_OK[OF this, of I plan "cw_db w"]
  show ?thesis
  proof (cases "decide I plan run (cw_db w)")
    case Quiet
    then show ?thesis using c s by (auto simp: carryOut_def)
  next
    case (Conclude q st m wr)
    have q: "ex_ID q = ex_ID run" "ex_Target run = ex_Target q"
      using ok by (simp_all add: Conclude decisionOK_def resultOK_def sameExecution_def)
    have f: "finishRun E I q st m wr w = (err, w')" using c by (simp add: Conclude carryOut_def)
    show ?thesis
      by (rule finishRun_success[OF good s _ q(2) _ f]) (use row q(1) decide_success Conclude conf in \<open>auto simp: confirmedBy_def\<close>)
  next
    case (Write q actual)
    have q: "sameExecution run q" "ex_Attempts q = ex_Attempts run" "idleStatus (ex_Status run)" using ok by (simp_all add: Write decisionOK_def)
    have f: "writeSchedule E I plan q actual w = (err, w')" using c by (simp add: Write carryOut_def)
    show ?thesis
      by (rule writeSchedule_success[OF good s _ q(1,3,2) _ f]) (use row q(1) conf in \<open>simp_all add: sameExecution_def\<close>)
  qed
qed

lemma apply_success:
  assumes good: "goodTable (db_executions (cw_db w))" and a: "applyChannelSchedule E I site channel w = (err, w')"
  shows "successOK (db_executions (cw_db w)) (confirmedBy I (cw_sent w' \<noteq> cw_sent w)) (db_executions (cw_db w'))"
  using a
proof (cases rule: apply_cases)
  case (prepared plan r db1)
  then show ?thesis using prepare_success[OF good prepared(2)] by simp
next
  case (worked plan run db1)
  note pe = prepare_executions[OF good worked(7)]
  show ?thesis
    by (rule carryOut_success[where w = "w\<lparr>cw_db := db1\<rparr>" and run = run and I = I and E = E and plan = plan and err = err])
       (use pe worked prepare_success[OF good worked(7)] in simp_all)
qed simp

section \<open>One open execution per channel\<close>

definition oneOpen :: "(string \<times> Execution) list \<Rightarrow> bool" where
  "oneOpen t \<longleftrightarrow> (\<forall>k e k' e'. map_of t k = Some e \<longrightarrow> map_of t k' = Some e' \<longrightarrow> openStatus (ex_Status e) \<longrightarrow> openStatus (ex_Status e') \<longrightarrow>
     ex_SiteID e = ex_SiteID e' \<longrightarrow> ex_ChannelID e = ex_ChannelID e' \<longrightarrow> k = k')"

lemma oneOpenD:
  "oneOpen t \<Longrightarrow> map_of t k = Some e \<Longrightarrow> map_of t k' = Some e' \<Longrightarrow> openStatus (ex_Status e) \<Longrightarrow> openStatus (ex_Status e') \<Longrightarrow>
   ex_SiteID e = ex_SiteID e' \<Longrightarrow> ex_ChannelID e = ex_ChannelID e' \<Longrightarrow> k = k'"
  unfolding oneOpen_def by blast

text \<open>Without new rows nothing opens.\<close>

lemma follows_back:
  assumes "follows t u" "map fst u = map fst t" "map_of u k = Some x" "openStatus (ex_Status x)"
  shows "\<exists>e. map_of t k = Some e \<and> openStatus (ex_Status e) \<and> ex_SiteID x = ex_SiteID e \<and> ex_ChannelID x = ex_ChannelID e"
proof -
  have "map_of t k \<noteq> None" using assms(2,3) by (metis list.set_map map_of_eq_None_iff option.discI)
  then obtain e where e: "map_of t k = Some e" by auto
  then have "sameExecution e x" "statusStep (ex_Status e) (ex_Status x)" using follows_row[OF assms(1) e] assms(3) by auto
  then show ?thesis using e assms(4) by (auto simp: sameExecution_def statusStep_def openStatus_iff dest: status_disjoint(1))
qed

lemma oneOpen_follows:
  assumes "oneOpen t" "follows t u" "map fst u = map fst t"
  shows "oneOpen u"
  unfolding oneOpen_def by (intro allI impI) (metis follows_back[OF assms(2,3)] oneOpenD[OF assms(1)])

lemma supersede_closes:
  assumes "goodTable (db_executions db)"
    and "map_of (db_executions (supersedeScheduleExecutions E site channel except msg now db)) k = Some e"
    and "ex_SiteID e = site" "ex_ChannelID e = channel" "k \<noteq> except"
  shows "\<not> openStatus (ex_Status e)"
proof -
  have "distinct (map fst (db_executions db))" using assms(1) by (simp add: goodTable_def)
  then obtain v where v: "e = (if ex_SiteID v = site \<and> ex_ChannelID v = channel \<and> k \<noteq> except \<and> openStatus (ex_Status v)
      then v\<lparr>ex_Status := ''superseded'', ex_Error := te_text E msg, ex_UpdatedAt := now\<rparr> else v)"
    using assms(2) by (auto simp: supersedeScheduleExecutions_def Let_def)
  have sv: "ex_SiteID v = site" "ex_ChannelID v = channel" using assms(3,4) v by (simp_all split: if_splits)
  have "ex_Status e = (if openStatus (ex_Status v) then ''superseded'' else ex_Status v)" using arg_cong[OF v, of ex_Status] assms(5) sv by simp
  then show ?thesis by (simp add: openStatus_iff split: if_splits)
qed

lemma prepare_oneOpen:
  assumes good: "goodTable (db_executions db)" and one: "oneOpen (db_executions db)"
    and p: "PrepareChannelSchedule E f plan now db = (r, db1)"
  shows "oneOpen (db_executions db1)"
proof -
  have tx: "oneOpen (db_executions new)" if t: "prepareTx E plan pos boundary now db = Some (run, new)" for pos boundary run new
  proof -
    let ?xid = "executionID E plan boundary"
    let ?s = "supersedeScheduleExecutions E (sd_SiteID plan) (sd_ChannelID plan) ?xid MsgNextBoundary now db"
    let ?n = "newExecution E plan pos boundary now"
    have k: "map fst (db_executions ?s) = map fst (db_executions db)" by (simp add: supersedeScheduleExecutions_def Let_def)
    have s: "oneOpen (db_executions ?s)" by (rule oneOpen_follows[OF one supersede_executions(2)[OF good] k])
    have only: "key = ?xid" if h: "map_of (db_executions ?s) key = Some e" "openStatus (ex_Status e)" "ex_SiteID e = sd_SiteID plan" "ex_ChannelID e = sd_ChannelID plan" for key e
      using supersede_closes[OF good h(1,3,4)] h(2) by blast
    have n: "ex_ID ?n = ?xid" "ex_SiteID ?n = sd_SiteID plan" "ex_ChannelID ?n = sd_ChannelID plan" by (simp_all add: newExecution_def)
    have "oneOpen ((?xid, ?n) # db_executions ?s)"
      unfolding oneOpen_def by (auto simp: n dest: only oneOpenD[OF s] split: if_splits)
    then have "oneOpen (db_executions (insertExecution ?n ?s))" using s n by (simp add: insertExecution_def)
    moreover have "db_executions new = db_executions (insertExecution ?n ?s)"
      using t by (auto simp: prepareTx_def Let_def touches split: option.splits if_splits)
    ultimately show ?thesis by simp
  qed
  show ?thesis using p tx one
    by (cases f; auto simp: PrepareChannelSchedule_def Let_def touches split: if_splits option.splits prod.splits)
qed

lemma finishRun_keys:
  assumes "finishRun E I r s m wr w = (err, w')"
  shows "map fst (db_executions (cw_db w')) = map fst (db_executions (cw_db w))"
  using assms commitTx_all[of "\<lambda>d. map fst (db_executions d) = map fst (db_executions (cw_db w))" "cw_db w"
      "finishTx E r s m wr (ri_finishAt I) (cw_db w)" "ri_finish I"]
  by (auto simp: finishRun_def FinishChannelSchedule_def finishTx_executions case_prod_beta split: option.splits if_splits)

lemma writeSchedule_keys:
  assumes "writeSchedule E I plan r actual w = (err, w')"
  shows "map fst (db_executions (cw_db w')) = map fst (db_executions (cw_db w))"
proof -
  obtain begun run db1 where b: "BeginChannelScheduleWrite (ri_begin I) r actual (ri_beginAt I) (cw_db w) = (begun, run, db1)"
    by (metis prod_cases3)
  have k1: "map fst (db_executions db1) = map fst (db_executions (cw_db w))"
    using b by (cases "ri_begin I") (auto simp: BeginChannelScheduleWrite_def Let_def onExecution_def)
  show ?thesis
  proof (cases begun)
    case False
    then show ?thesis using assms b k1 by (auto simp: writeSchedule_def)
  next
    case True
    let ?req = "(noUpdate (sd_ChannelID plan))\<lparr>up_Status := Some (ex_Target run)\<rparr>"
    obtain e2 key w2 where j: "journalUpdate (scheduleJournal plan run actual) (ri_update I) ?req (w\<lparr>cw_db := db1\<rparr>) = (e2, key, w2)"
      by (metis prod_cases3)
    let ?w3 = "linkRequest (ri_update I) key (ex_ID run) w2"
    have "db_executions (cw_db ?w3) = db_executions db1"
      using otherTables_executions[of "cw_db ?w3" db1] journalUpdate_frame[OF j] by simp
    moreover obtain s m wr where "finishRun E I run s m wr ?w3 = (err, w')"
      using assms b True j by (auto simp: writeSchedule_def Let_def split: option.splits if_splits)
    ultimately show ?thesis using finishRun_keys k1 by metis
  qed
qed

lemma carryOut_keys:
  assumes "carryOut E I plan d w = (err, w')"
  shows "map fst (db_executions (cw_db w')) = map fst (db_executions (cw_db w))"
  using assms by (cases d) (auto simp: carryOut_def dest: finishRun_keys writeSchedule_keys)

lemma apply_oneOpen:
  assumes good: "goodTable (db_executions (cw_db w))" and one: "oneOpen (db_executions (cw_db w))"
    and a: "applyChannelSchedule E I site channel w = (err, w')"
  shows "oneOpen (db_executions (cw_db w'))"
  using a
proof (cases rule: apply_cases)
  case same
  then show ?thesis using one by simp
next
  case (prepared plan r db1)
  then show ?thesis using prepare_oneOpen[OF good one prepared(2)] by simp
next
  case (worked plan run db1)
  let ?w = "w\<lparr>cw_db := db1\<rparr>"
  note pe = prepare_executions[OF good worked(7)]
  have c: "carryOut E I plan (decide I plan run (cw_db ?w)) ?w = (err, w')" and g: "goodTable (db_executions (cw_db ?w))"
    and row: "map_of (db_executions (cw_db ?w)) (ex_ID run) = Some run"
    using worked(8) pe by simp_all
  have "follows (db_executions (cw_db ?w)) (db_executions (cw_db w'))"
    using carryOut_effect(1)[OF g row worked(6) c] g by (simp add: movesOn_def)
  moreover have "oneOpen (db_executions (cw_db ?w))" using prepare_oneOpen[OF good one worked(7)] by simp
  ultimately show ?thesis using oneOpen_follows carryOut_keys[OF c] by blast
qed

lemma store_keys:
  "map fst (db_executions (snd (SaveChannelSchedule E S site channel config db))) = map fst (db_executions db)"
  "map fst (db_executions (snd (DeleteChannelSchedule E S site channel revision expected db))) = map fst (db_executions db)"
  by (cases "si_fault S";
      simp add: SaveChannelSchedule_def finishSave_def storeSchedule_def DeleteChannelSchedule_def Let_def supersedeScheduleExecutions_def
        resolveScheduleAlert_def split: prod.split option.split)+

lemma step_oneOpen:
  assumes "goodTable (executionsOf w)" "oneOpen (executionsOf w)"
  shows "oneOpen (executionsOf (stepOp E w op))"
proof (cases op)
  case (OpApply I site channel)
  then show ?thesis using apply_oneOpen[OF assms, of E I site channel] by (cases "applyChannelSchedule E I site channel w") (simp add: stepOp_def)
next
  case (OpSave S site channel config)
  then show ?thesis using save_movesOn[of "cw_db w" E S site channel config] assms
    by (auto simp: stepOp_def movesOn_def store_keys intro: oneOpen_follows)
next
  case (OpDelete S site channel revision expected)
  then show ?thesis using delete_movesOn[of "cw_db w" E S site channel revision expected] assms
    by (auto simp: stepOp_def movesOn_def store_keys intro: oneOpen_follows)
next
  case (OpElse db)
  then show ?thesis using assms by (simp add: stepOp_def)
qed

lemma run_oneOpen:
  assumes "goodTable (executionsOf w)" "oneOpen (executionsOf w)"
  shows "goodTable (executionsOf (runOps E w ops)) \<and> oneOpen (executionsOf (runOps E w ops))"
  using assms
proof (induction ops arbitrary: w)
  case (Cons op ops)
  then show ?case using step_oneOpen[of w E op] step_movesOn[of w E op] by (simp add: movesOn_def)
qed simp

end
