(* ===== verification/ScheduleProperties.thy ===== *)
theory ScheduleProperties
  imports ScheduleResults
begin

text \<open>
  The guarantees of the execution of channel schedules.
\<close>

section \<open>Requests\<close>

lemma ex_table [simp]: "db_executions (cw_db exWorld) = []" "goodTable []" "oneOpen []" "scheduleTableOK (cw_db exWorld) ''s''"
  by (simp_all add: exWorld_def exDB_def emptyDB_def goodTable_def oneOpen_def scheduleTableOK_def MaxPerSite_def)

text \<open>C18: whatever the database and the upstream answer and however applications, saves, deletions and other work
  follow one another, every request to switch a channel belongs to an execution and no execution sends a second
  request, nor one whose write had already started: a lost answer never leads to a repeated write.\<close>

theorem schedule_writes_at_most_once:
  assumes "goodTable (executionsOf w)"
  shows "distinct (writeLog E w ops) \<and> None \<notin> set (writeLog E w ops) \<and>
    (\<forall>k. startedIn (executionsOf w) k \<longrightarrow> Some k \<notin> set (writeLog E w ops)) \<and>
    length (cw_sent (runOps E w ops)) = length (cw_sent w) + length (writeLog E w ops)"
  by (rule writeLog_facts[OF assms])

theorem schedule_writes_at_most_once_witness:
  "goodTable (executionsOf exWorld) \<and> distinct (writeLog exTexts exWorld [OpApply exInput ''s'' 7, OpApply exInput ''s'' 7]) \<and>
   length (writeLog exTexts exWorld [OpApply exInput ''s'' 7]) = 1"
proof -
  have "length (cw_sent (runOps exTexts exWorld [OpApply exInput ''s'' 7])) = 1"
    by (simp add: stepOp_def ex_sends)
  moreover have "length (cw_sent exWorld) = 0" by (simp add: exWorld_def)
  moreover have g: "goodTable (executionsOf exWorld)" by simp
  ultimately show ?thesis
    using schedule_writes_at_most_once[OF g, of exTexts "[OpApply exInput ''s'' 7, OpApply exInput ''s'' 7]"]
      schedule_writes_at_most_once[OF g, of exTexts "[OpApply exInput ''s'' 7]"]
    by linarith
qed

text \<open>C19: a channel is closed only when the listing the application read shows, for every model and every group
  of it, another channel that serves both, is enabled with a weight, is not held by a state of the engine, and
  is open in its own schedule.\<close>

theorem closing_keeps_coverage:
  assumes "goodTable (executionsOf w)" "scheduleTableOK (cw_db w) site"
    and a: "applyChannelSchedule E I site channel w = (err, w')"
    and "cw_sent w' = req # cw_sent w" "up_Status (sw_Update req) = Some 2"
  shows "\<exists>channels target. ri_list I = Inr channels \<and> find (\<lambda>c. ch_ID c = channel) channels = Some target \<and> pairsOf target \<noteq> [] \<and>
    (\<forall>model grp. (model, grp) \<in> set (pairsOf target) \<longrightarrow>
      (\<exists>p \<in> set channels. ch_ID p \<noteq> channel \<and> containsScheduleValue (ch_Models p) model \<and> containsScheduleValue (ch_Group p) grp \<and>
        ch_Status p = 1 \<and> ch_Weight p \<noteq> 0 \<and> (\<forall>s \<in> set (statesOfSite (cw_db w) site). s_ChannelID s = ch_ID p \<longrightarrow> \<not> stateBlocks s) \<and>
        scheduleAllows (cw_db w) site (ch_ID p) (ri_now I)))"
proof -
  obtain plan run db1 actual where s: "sendsFor E I site channel w plan run db1 actual"
    and w': "cw_sent w' = scheduleRequest I plan (ex_Target run) # cw_sent w"
    using apply_effect[OF assms(1) a] assms(4) by (auto simp: appliedOK_def)
  have t: "ex_Target run = 2" using w' assms(4,5) by (auto simp: scheduleRequest_def noUpdate_def)
  have load: "LoadChannelSchedule (cw_db w) site channel = Some plan"
    and p: "PrepareChannelSchedule E (ri_prepare I) plan (ri_now I) (cw_db w) = (Inr (Some run), db1)"
    and d: "decide I plan run db1 = Write (run\<lparr>ex_BeforeStatus := actual\<rparr>) actual"
    using s by (simp_all add: sendsFor_def)
  have id: "sd_SiteID plan = site" "sd_ChannelID plan = channel"
    using load by (auto simp: LoadChannelSchedule_def split: option.splits dest!: scan_channel)
  have fr: "LoadChannelSchedule db1 x c = LoadChannelSchedule (cw_db w) x c" "db_states db1 = db_states (cw_db w)"
    "map fst (db_schedules db1) = map fst (db_schedules (cw_db w))" for x c
    using prepare_frame[OF p] assms(2) by (simp_all add: scheduleTableOK_def)
  have states: "statesOfSite db1 site = statesOfSite (cw_db w) site" by (simp add: statesOfSite_def fr)
  have ok: "scheduleTableOK db1 site" using assms(2) by (simp add: scheduleTableOK_def fr)
  obtain channels ctls where c: "ri_list I = Inr channels" "ListChannelScheduleControls db1 site (ri_listedAt I) (ri_now I) = Some ctls"
    "fst (scheduleCloseBlocked channel channels (statesOfSite db1 site) ctls) = None"
    using decide_Write(6)[OF d] t id by (auto simp: closeHolds_def split: sum.splits if_splits option.splits prod.splits bool.splits)
  have "scheduleAllows (cw_db w) site x (ri_now I)" if "ctl_Enabled (controlAt ctls x) \<longrightarrow> ctl_Allowed (controlAt ctls x)" for x
    using controls_tell[OF ok c(2) that] by (simp add: scheduleAllows_def fr)
  then show ?thesis using c(1) c(3)[unfolded closeBlocked_None states] unfolding covers_def by fastforce
qed

theorem closing_keeps_coverage_witness:
  "\<exists>channels target. ri_list exInput = Inr channels \<and> find (\<lambda>c. ch_ID c = 7) channels = Some target \<and> pairsOf target \<noteq> []"
proof -
  obtain err w' where a: "applyChannelSchedule exTexts exInput ''s'' 7 exWorld = (err, w')" by fastforce
  have s: "cw_sent w' = scheduleRequest exInput exPlan 2 # cw_sent exWorld" using ex_sends a by (simp add: exWorld_def)
  have g: "goodTable (executionsOf exWorld)" by simp
  from closing_keeps_coverage[OF g ex_table(4) a s] show ?thesis by (auto simp: scheduleRequest_def)
qed

text \<open>C20: a request goes out only for a plan that is stored and enabled; it asks for exactly the state the schedule
  prescribes at the last clock reading before it, which the upstream did not report already, and its row is in
  the journal.\<close>

theorem schedule_write_is_due:
  assumes "goodTable (executionsOf w)" and a: "applyChannelSchedule E I site channel w = (err, w')"
    and "cw_sent w' \<noteq> cw_sent w"
  shows "\<exists>plan target. LoadChannelSchedule (cw_db w) site channel = Some plan \<and> cfg_Enabled (sd_Config plan) \<and>
    cw_sent w' = \<lparr>sw_Request = ui_ID (ri_update I), sw_Site = site, sw_Update = (noUpdate channel)\<lparr>up_Status := Some target\<rparr>\<rparr> # cw_sent w \<and>
    target = (if pos_Allowed (PositionOf (sd_Config plan) (ri_checkAt I)) then 1 else 2) \<and>
    ri_read I = Inr (Some (3 - target)) \<and> ri_available I = Inr True \<and>
    ui_ID (ri_update I) \<in> set (requestKeys (cw_db w'))"
proof -
  obtain plan run db1 actual where s: "sendsFor E I site channel w plan run db1 actual"
    and w': "cw_sent w' = scheduleRequest I plan (ex_Target run) # cw_sent w"
    using apply_effect[OF assms(1) a] assms(3) by (auto simp: appliedOK_def)
  have load: "LoadChannelSchedule (cw_db w) site channel = Some plan" "cfg_Enabled (sd_Config plan)"
    and d: "decide I plan run db1 = Write (run\<lparr>ex_BeforeStatus := actual\<rparr>) actual"
    using s by (simp_all add: sendsFor_def)
  have id: "sd_SiteID plan = site" "sd_ChannelID plan = channel"
    using load by (auto simp: LoadChannelSchedule_def split: option.splits dest!: scan_channel)
  note dw = decide_Write[OF d]
  have win: "ex_Target run = (if pos_Allowed (PositionOf (sd_Config plan) (ri_checkAt I)) then 1 else 2)" "ri_available I = Inr True"
    using dw(7) by (auto simp: windowHolds_def Let_def split: if_splits sum.splits bool.splits)
  have rd: "ri_read I = Inr (Some (3 - ex_Target run))" using dw(3,4,5) win(1) by (auto split: if_splits)
  have "ui_ID (ri_update I) \<in> set (requestKeys (cw_db w'))"
    by (rule writeSchedule_journal[where w = "w\<lparr>cw_db := db1\<rparr>"]) (use a sendsFor_apply[OF s] assms(3) in simp_all)
  with load id win rd w' show ?thesis
    by (intro exI[of _ plan] exI[of _ "ex_Target run"]) (simp add: scheduleRequest_def)
qed

theorem schedule_write_is_due_witness:
  "\<exists>target. ri_read exInput = Inr (Some (3 - target)) \<and> target = (if pos_Allowed (PositionOf exConfig exNow) then 1 else 2)"
proof -
  obtain err w' where a: "applyChannelSchedule exTexts exInput ''s'' 7 exWorld = (err, w')" by fastforce
  have s: "cw_sent w' \<noteq> cw_sent exWorld" using ex_sends a by (simp add: exWorld_def)
  have g: "goodTable (executionsOf exWorld)" by simp
  have l: "LoadChannelSchedule (cw_db exWorld) ''s'' 7 = Some exPlan" by (simp add: exWorld_def ex_load)
  from schedule_write_is_due[OF g a s] show ?thesis by (auto simp: l exInput_def)
qed

section \<open>Executions\<close>

text \<open>C21: the stored status of every execution follows the abstract machine of a write, whatever happens: an idle
  execution may wait, retry, start or end, a started one can only end, an end is final; an execution is never
  lost and what it is for never changes.\<close>

theorem executions_follow_machine:
  assumes "goodTable (executionsOf w)" "map_of (executionsOf w) k = Some e"
  shows "\<exists>x. map_of (executionsOf (runOps E w ops)) k = Some x \<and> sameExecution e x \<and> statusStep (ex_Status e) (ex_Status x)"
  using run_movesOn[of w E ops] assms follows_row by (auto simp: movesOn_def)

theorem executions_follow_machine_witness:
  "\<exists>x. map_of (executionsOf (runOps exTexts \<lparr>cw_db = exDB1, cw_sent = []\<rparr> [OpApply exInput ''s'' 7])) (ex_ID exRun) = Some x \<and>
     statusStep ''pending'' (ex_Status x)"
proof -
  let ?w = "\<lparr>cw_db = exDB1, cw_sent = []\<rparr>"
  have g: "goodTable (executionsOf ?w)" by (simp add: exDB1_def goodTable_def goodExecution_def exRun_def newExecution_def MaxAttempts_def)
  have r: "map_of (executionsOf ?w) (ex_ID exRun) = Some exRun" by (simp add: exDB1_def)
  from executions_follow_machine[OF g r, of exTexts "[OpApply exInput ''s'' 7]"] show ?thesis by auto
qed

text \<open>C22: the table of executions is well formed in every reachable state: identifiers are unique and agree with
  their rows, every status is a known one, at most five attempts are counted, an execution that may still be tried
  has attempts left, and a channel has at most one open execution.\<close>

theorem execution_table_well_formed:
  assumes "goodTable (executionsOf w)" "oneOpen (executionsOf w)"
  shows "goodTable (executionsOf (runOps E w ops)) \<and> oneOpen (executionsOf (runOps E w ops))"
  by (rule run_oneOpen[OF assms])

theorem execution_table_well_formed_witness:
  "goodTable (executionsOf (runOps exTexts exWorld [OpApply exInput ''s'' 7])) \<and> oneOpen (executionsOf (runOps exTexts exWorld [OpApply exInput ''s'' 7]))"
  by (rule execution_table_well_formed) simp_all

text \<open>An execution is recorded as succeeded only on the word of the upstream: the status read before or after the
  request is the target, or the request was sent and acknowledged.\<close>

theorem success_is_confirmed:
  assumes "goodTable (executionsOf w)" and a: "applyChannelSchedule E I site channel w = (err, w')"
    and "map_of (executionsOf w') k = Some x" "ex_Status x = ''succeeded''"
    and "\<And>e. map_of (executionsOf w) k = Some e \<Longrightarrow> ex_Status e \<noteq> ''succeeded''"
  shows "ri_read I = Inr (Some (ex_Target x)) \<or> ri_observed I = Inr (Some (ex_Target x)) \<or>
    (cw_sent w' \<noteq> cw_sent w \<and> ui_answer (ri_update I) = None)"
  using apply_success[OF assms(1) a] assms(3-5) unfolding successOK_def confirmedBy_def by blast

theorem success_is_confirmed_witness:
  "ri_read exInput = Inr (Some 2) \<or> ri_observed exInput = Inr (Some 2) \<or> ui_answer (ri_update exInput) = None"
proof -
  obtain err w' where a: "applyChannelSchedule exTexts exInput ''s'' 7 exWorld = (err, w')" by fastforce
  have g: "goodTable (executionsOf exWorld)" by simp
  obtain x where x: "map_of (executionsOf w') (ex_ID exRun) = Some x" "ex_Status x = ''succeeded''" "ex_Target x = 2"
    using ex_succeeds a by auto
  from success_is_confirmed[OF g a x(1,2)] x(3) show ?thesis by auto
qed

section \<open>Edits\<close>

definition scheduleRevision :: "controlDB \<Rightarrow> string \<Rightarrow> int64 \<Rightarrow> int64" where
  "scheduleRevision db site channel = (case map_of (db_schedules db) (site, channel) of None \<Rightarrow> 0 | Some r \<Rightarrow> sr_Revision r)"

lemma Normalize_revision: "Normalize c = (d, e) \<Longrightarrow> cfg_Revision d = cfg_Revision c"
  by (auto simp: Normalize_def split: if_splits prod.splits)

lemma scan_revision: "scanChannelSchedule k r = Some v \<Longrightarrow> cfg_Revision (sd_Config v) = sr_Revision r"
  by (auto simp: scanChannelSchedule_def split: prod.splits option.splits dest: Normalize_revision)


definition exSave :: saveInput where
  "exSave = \<lparr>si_siteLock = None, si_channelLock = None, si_available = Some True, si_channels = Some [7, 8], si_auditID = ''a'',
     si_actor = ''admin'', si_now = exNow, si_fault = DbOk\<rparr>"


end
