(* ===== verification/LatencyHist.thy ===== *)
theory LatencyHist
  imports Prelude
begin

text \<open>
  Latency histograms (\<open>internal/latencyhist\<close>): bucket search, addition, the exact derivation of the
  legacy ten-bucket form from the fifteen-bucket form, interpolated quantiles and the estimate that
  knows when only a lower bound is available.  Arrays of fixed size are lists of that length.
\<close>

section \<open>Model\<close>

type_synonym Buckets = "int64 list"

definition UpperBounds :: "float64 list" where
  "UpperBounds = [1/4, 1/2, 1, 2, 3, 5, 10, 30, 60, 120]"

definition UpperBoundsV2 :: "float64 list" where
  "UpperBoundsV2 = [1/4, 1/2, 1, 2, 3, 5, 8, 10, 12, 20, 30, 45, 60, 90, 120]"

definition BucketCount :: nat where
  "BucketCount = 10"

definition BucketCountV2 :: nat where
  "BucketCountV2 = 15"

text \<open>The search loop stops at the last bucket, which is open-ended.\<close>

fun indexLoop :: "float64 list \<Rightarrow> nat \<Rightarrow> float64 \<Rightarrow> nat" where
  "indexLoop [] i seconds = i"
| "indexLoop (b # bs) i seconds = (if seconds \<le> b then i else indexLoop bs (i + 1) seconds)"

definition Index :: "float64 \<Rightarrow> nat" where
  "Index seconds = indexLoop (take (BucketCount - 1) UpperBounds) 0 seconds"

definition IndexV2 :: "float64 \<Rightarrow> nat" where
  "IndexV2 seconds = indexLoop (take (BucketCountV2 - 1) UpperBoundsV2) 0 seconds"

definition AddBuckets :: "Buckets \<Rightarrow> Buckets \<Rightarrow> Buckets" where
  "AddBuckets left right = map2 (+) left right"

text \<open>The inner loop of \<open>DeriveV1\<close> consumes the fine buckets up to the coarse bound.\<close>

fun consumeUpTo :: "float64 \<Rightarrow> int64 \<Rightarrow> (float64 \<times> int64) list \<Rightarrow> int64 \<times> (float64 \<times> int64) list" where
  "consumeUpTo b acc [] = (acc, [])"
| "consumeUpTo b acc ((u, n) # rest) = (if u \<le> b then consumeUpTo b (acc + n) rest else (acc, (u, n) # rest))"

fun deriveLoop :: "float64 list \<Rightarrow> (float64 \<times> int64) list \<Rightarrow> Buckets" where
  "deriveLoop [] rest = []"
| "deriveLoop (b # bs) rest = (case consumeUpTo b 0 rest of (n, rest') \<Rightarrow> n # deriveLoop bs rest')"

definition DeriveV1 :: "Buckets \<Rightarrow> Buckets" where
  "DeriveV1 v2 = deriveLoop UpperBounds (zip UpperBoundsV2 v2)"

text \<open>The loop over the buckets: \<open>lower\<close> is the bound of the bucket before, \<open>cumulative\<close> the count up
  to it.\<close>

fun interpolateLoop :: "float64 \<Rightarrow> float64 \<Rightarrow> int64 \<Rightarrow> (int64 \<times> float64) list \<Rightarrow> float64 option" where
  "interpolateLoop target lower cumulative [] = None"
| "interpolateLoop target lower cumulative ((count, bound) # rest) =
     (let next = cumulative + count
      in if of_int next \<ge> target
         then let fraction = (if count > 0 then (target - of_int cumulative) / of_int count else 1);
                  clamped = max 0 (min 1 fraction)
              in Some (lower + clamped * (bound - lower))
         else interpolateLoop target bound next rest)"

definition quantileTarget :: "int64 \<Rightarrow> float64 \<Rightarrow> float64" where
  "quantileTarget samples quantile =
     (let q0 = (if quantile \<le> 0 then 0 else quantile);
          q1 = (if q0 > 1 then 1 else q0);
          target = of_int samples * q1
      in if target \<le> 0 then 1 else target)"

definition interpolate :: "int64 list \<Rightarrow> float64 list \<Rightarrow> float64 \<Rightarrow> float64 option" where
  "interpolate counts bounds quantile =
     (let samples = sum_list counts
      in if samples = 0 then None
         else case interpolateLoop (quantileTarget samples quantile) 0 0 (zip counts bounds) of
                Some v \<Rightarrow> Some v
              | None \<Rightarrow> Some (last bounds))"

definition Quantile :: "Buckets \<Rightarrow> float64 \<Rightarrow> float64 option" where
  "Quantile buckets quantile = interpolate buckets UpperBounds quantile"

definition QuantileV2 :: "Buckets \<Rightarrow> float64 \<Rightarrow> float64 option" where
  "QuantileV2 buckets quantile = interpolate buckets UpperBoundsV2 quantile"

definition Estimate :: "Buckets \<Rightarrow> Buckets option \<Rightarrow> float64 \<Rightarrow> float64 option \<times> bool" where
  "Estimate v1 v2 q =
     (case (case v2 of None \<Rightarrow> (v1, UpperBounds) | Some v \<Rightarrow> (v, UpperBoundsV2)) of
        (counts, bounds) \<Rightarrow>
          if \<exists>n \<in> set counts. n < 0 then (None, False)
          else let samples = sum_list counts; below = sum_list (butlast counts)
               in if samples = 0 then (None, False)
                  else if of_int below < of_int samples * q then (Some (bounds ! (length bounds - 2)), True)
                  else (interpolate counts bounds q, False))"

text \<open>Counting a list of observations.\<close>

definition observe :: "(float64 \<Rightarrow> nat) \<Rightarrow> nat \<Rightarrow> float64 list \<Rightarrow> Buckets" where
  "observe index n xs = foldl (\<lambda>h s. h[index s := h ! index s + 1]) (replicate n 0) xs"

section \<open>Coarsening\<close>

lemma indexLoop_bounds: "i \<le> indexLoop bs i s \<and> indexLoop bs i s \<le> i + length bs"
proof (induction bs arbitrary: i)
  case (Cons b bs)
  show ?case using Cons.IH[of "i + 1"] by auto
qed simp

lemma Index_less: "Index s < BucketCount" "IndexV2 s < BucketCountV2"
  using indexLoop_bounds[of 0 "take (BucketCount - 1) UpperBounds" s]
    indexLoop_bounds[of 0 "take (BucketCountV2 - 1) UpperBoundsV2" s]
  by (simp_all add: Index_def IndexV2_def BucketCount_def BucketCountV2_def UpperBounds_def UpperBoundsV2_def)

lemma DeriveV1_explicit:
  "DeriveV1 [c0, c1, c2, c3, c4, c5, c6, c7, c8, c9, c10, c11, c12, c13, c14] =
     [c0, c1, c2, c3, c4, c5, c6 + c7, c8 + c9 + c10, c11 + c12, c13 + c14]"
  by (simp add: DeriveV1_def UpperBounds_def UpperBoundsV2_def)

lemma length_15:
  assumes "length xs = 15"
  obtains c0 c1 c2 c3 c4 c5 c6 c7 c8 c9 c10 c11 c12 c13 c14
  where "xs = [c0, c1, c2, c3, c4, c5, c6, c7, c8, c9, c10, c11, c12, c13, c14]"
  using assms by (auto simp: length_Suc_conv numeral_eq_Suc)

text \<open>Recording one observation commutes with the derivation.\<close>

lemma DeriveV1_record:
  assumes "length h = BucketCountV2"
  shows "DeriveV1 (h[IndexV2 s := h ! IndexV2 s + 1]) = (DeriveV1 h)[Index s := DeriveV1 h ! Index s + 1]"
proof -
  have "length h = 15" using assms by (simp add: BucketCountV2_def)
  then obtain c0 c1 c2 c3 c4 c5 c6 c7 c8 c9 c10 c11 c12 c13 c14 where
    h: "h = [c0, c1, c2, c3, c4, c5, c6, c7, c8, c9, c10, c11, c12, c13, c14]"
    by (rule length_15)
  show ?thesis
    by (simp add: h IndexV2_def Index_def BucketCountV2_def BucketCount_def UpperBounds_def UpperBoundsV2_def DeriveV1_explicit)
qed

lemma length_DeriveV1 [simp]: "length (DeriveV1 h) = BucketCount"
proof -
  have "length (deriveLoop bs rest) = length bs" for bs rest
    by (induction bs arbitrary: rest) (auto split: prod.split)
  then have "length (DeriveV1 h) = length UpperBounds" by (simp only: DeriveV1_def)
  then show ?thesis by (simp add: UpperBounds_def BucketCount_def)
qed

lemma observe_length [simp]: "length (observe f n xs) = n"
  by (induction xs rule: rev_induct) (simp_all add: observe_def)

lemma observe_snoc: "observe f n (xs @ [s]) = (observe f n xs)[f s := observe f n xs ! f s + 1]"
  by (simp add: observe_def)

section \<open>Quantiles\<close>

lemma interpolate_range:
  assumes "interpolateLoop target lower c rest = Some v" "of_int c < target" "sorted (lower # map snd rest)"
  shows "lower \<le> v \<and> v \<le> last (lower # map snd rest)"
  using assms
proof (induction rest arbitrary: lower c)
  case (Cons x rest)
  obtain count bound where x: "x = (count, bound)" by (cases x)
  let ?last = "last (bound # map snd rest)"
  have "\<forall>y \<in> set (bound # map snd rest). bound \<le> y" using Cons.prems(3) x by auto
  then have "bound \<le> ?last" using last_in_set[of "bound # map snd rest"] by blast
  then have sorted: "lower \<le> bound" "sorted (bound # map snd rest)" "bound \<le> ?last"
    using Cons.prems(3) x by auto
  show ?case
  proof (cases "of_int (c + count) \<ge> target")
    case True
    define f where "f = max 0 (min 1 ((target - of_int c) / of_int count))"
    have "0 < count" using True Cons.prems(2) by (smt (verit) of_int_add of_int_le_0_iff)
    then have v: "v = lower + f * (bound - lower)" using Cons.prems(1) True x by (simp add: Let_def f_def)
    have f: "0 \<le> f" "f \<le> 1" by (simp_all add: f_def)
    have "0 \<le> f * (bound - lower)" "f * (bound - lower) \<le> 1 * (bound - lower)"
      using f sorted(1) by (simp, intro mult_right_mono) simp_all
    then show ?thesis using v sorted x by simp
  next
    case False
    then have "bound \<le> v \<and> v \<le> ?last" using Cons.IH[of bound "c + count"] Cons.prems(1) x sorted(2) by (simp add: Let_def)
    then show ?thesis using sorted(1) x by simp
  qed
qed simp

lemma interpolate_stops:
  assumes "target \<le> of_int (c + sum_list (map fst xs))" "of_int c < target"
  shows "\<exists>v. interpolateLoop target lower c xs = Some v \<and> (\<forall>ys. interpolateLoop target lower c (xs @ ys) = Some v)"
  using assms
proof (induction xs arbitrary: lower c)
  case (Cons x xs)
  obtain count bound where x: "x = (count, bound)" by (cases x)
  then show ?case using Cons.IH[of "c + count" bound] Cons.prems by (auto simp: Let_def add.assoc)
qed simp

lemma interpolate_mono:
  assumes "interpolateLoop t lower c rest = Some v" "interpolateLoop t' lower c rest = Some v'"
    "of_int c < t" "t \<le> t'" "sorted (lower # map snd rest)"
  shows "v \<le> v'"
  using assms
proof (induction rest arbitrary: lower c)
  case (Cons x rest)
  obtain count bound where x: "x = (count, bound)" by (cases x)
  have sorted: "lower \<le> bound" "sorted (bound # map snd rest)" using Cons.prems(5) x by auto
  show ?case
  proof (cases "of_int (c + count) \<ge> t")
    case t: True
    define f g where "f = max 0 (min 1 ((t - of_int c) / of_int count))"
      and "g = max 0 (min 1 ((t' - of_int c) / of_int count))"
    have "0 < count" using t Cons.prems(3) by (smt (verit) of_int_add of_int_le_0_iff)
    then have v: "v = lower + f * (bound - lower)" using Cons.prems(1) t x by (simp add: Let_def f_def)
    have "(t - of_int c) / of_int count \<le> (t' - of_int c) / of_int count"
      using Cons.prems(4) \<open>0 < count\<close> by (intro divide_right_mono) simp_all
    then have fg: "f \<le> g" "f \<le> 1" unfolding f_def g_def by (intro max.mono min.mono order_refl) simp_all
    show ?thesis
    proof (cases "of_int (c + count) \<ge> t'")
      case True
      then have "v' = lower + g * (bound - lower)" using Cons.prems(2) x \<open>0 < count\<close> by (simp add: Let_def g_def)
      then show ?thesis using v fg(1) sorted(1) by (simp add: mult_right_mono)
    next
      case False
      then have "bound \<le> v'" using interpolate_range[of t' bound "c + count" rest v'] Cons.prems(2) x sorted(2) by (simp add: Let_def)
      moreover have "f * (bound - lower) \<le> 1 * (bound - lower)" using fg(2) sorted(1) by (intro mult_right_mono) simp_all
      ultimately show ?thesis using v by simp
    qed
  next
    case False
    then show ?thesis using Cons.IH[of bound "c + count"] Cons.prems x sorted(2) by (simp add: Let_def)
  qed
qed simp

lemma quantileTarget_range:
  assumes "0 < samples" "0 < q"
  shows "0 < quantileTarget samples q" "quantileTarget samples q \<le> of_int samples" "quantileTarget samples q \<le> of_int samples * q"
    and "q \<le> q' \<Longrightarrow> quantileTarget samples q \<le> quantileTarget samples q'"
proof -
  have pos: "quantileTarget samples x = of_int samples * min x 1" if "0 < x" for x
    using that assms(1) by (auto simp: quantileTarget_def Let_def min_def zero_less_mult_iff not_le)
  show "0 < quantileTarget samples q" "quantileTarget samples q \<le> of_int samples" "quantileTarget samples q \<le> of_int samples * q"
    using assms by (simp_all add: pos mult_left_le)
  show "q \<le> q' \<Longrightarrow> quantileTarget samples q \<le> quantileTarget samples q'"
    using assms by (simp add: pos min.coboundedI1)
qed

text \<open>A histogram of non-negative counts over increasing bounds has every quantile, within the bounds.\<close>

definition goodBounds :: "float64 list \<Rightarrow> bool" where
  "goodBounds bounds \<longleftrightarrow> sorted (0 # bounds) \<and> bounds \<noteq> []"

lemma UpperBounds_good: "goodBounds UpperBounds" "goodBounds UpperBoundsV2"
  by (simp_all add: goodBounds_def UpperBounds_def UpperBoundsV2_def)

lemma interpolate_eq:
  assumes "length counts = length bounds" "0 < sum_list counts" "0 < q"
  shows "interpolate counts bounds q = interpolateLoop (quantileTarget (sum_list counts) q) 0 0 (zip counts bounds)"
    and "\<exists>v. interpolate counts bounds q = Some v"
proof -
  note t = quantileTarget_range[OF assms(2,3)]
  have "map fst (zip counts bounds) = counts" using assms(1) by simp
  then obtain v where "interpolateLoop (quantileTarget (sum_list counts) q) 0 0 (zip counts bounds) = Some v"
    using interpolate_stops[of "quantileTarget (sum_list counts) q" 0 "zip counts bounds" 0] t by auto
  then show "interpolate counts bounds q = interpolateLoop (quantileTarget (sum_list counts) q) 0 0 (zip counts bounds)"
    "\<exists>v. interpolate counts bounds q = Some v" using assms(2) by (simp_all add: interpolate_def Let_def)
qed

lemma interpolate_ordered:
  assumes "goodBounds bounds" "length counts = length bounds" "0 < sum_list counts" "0 < q" "q \<le> q'"
  obtains v v' where "interpolate counts bounds q = Some v" "interpolate counts bounds q' = Some v'"
    "0 \<le> v" "v \<le> v'" "v' \<le> last bounds"
proof -
  have q': "0 < q'" using assms(4,5) by simp
  obtain v v' where v: "interpolate counts bounds q = Some v" "interpolate counts bounds q' = Some v'"
    using interpolate_eq(2)[OF assms(2,3)] assms(4) q' by blast
  have s: "sorted (0 # map snd (zip counts bounds))" using assms(1,2) by (simp add: goodBounds_def)
  note t = quantileTarget_range[OF assms(3)]
  have "0 \<le> v \<and> v \<le> last (0 # map snd (zip counts bounds))" "0 \<le> v' \<and> v' \<le> last (0 # map snd (zip counts bounds))"
    using interpolate_range[OF _ _ s] v interpolate_eq(1)[OF assms(2,3)] assms(4) q' t(1) by simp_all
  moreover have "v \<le> v'"
    using interpolate_mono[OF _ _ _ _ s] v interpolate_eq(1)[OF assms(2,3)] assms(4,5) q' t(1,4) by simp
  ultimately show ?thesis using that[OF v] assms(1,2) by (simp add: goodBounds_def)
qed

section \<open>Properties\<close>

text \<open>C40: the legacy histogram is derived exactly: for every list of observations, coarsening the
  fifteen-bucket histogram gives the histogram the legacy buckets would have counted.\<close>

theorem legacy_histogram_exact:
  "DeriveV1 (observe IndexV2 BucketCountV2 xs) = observe Index BucketCount xs"
proof (induction xs rule: rev_induct)
  case Nil
  show ?case by (simp add: observe_def BucketCountV2_def BucketCount_def DeriveV1_explicit numeral_eq_Suc)
next
  case (snoc s xs)
  then show ?case by (simp add: observe_snoc DeriveV1_record)
qed

text \<open>over a histogram with observations, every positive quantile exists, lies between zero and the
  last bound, and does not decrease when the quantile grows.\<close>

theorem quantiles_ordered:
  assumes "length h = BucketCountV2" "0 < sum_list h" "0 < q" "q \<le> q'"
  shows "\<exists>v v'. QuantileV2 h q = Some v \<and> QuantileV2 h q' = Some v' \<and> 0 \<le> v \<and> v \<le> v' \<and> v' \<le> 120"
proof -
  have "length h = length UpperBoundsV2" using assms(1) by (simp add: UpperBoundsV2_def BucketCountV2_def)
  from interpolate_ordered[OF UpperBounds_good(2) this assms(2-4)]
  obtain v v' where "QuantileV2 h q = Some v" "QuantileV2 h q' = Some v'" "0 \<le> v" "v \<le> v'" "v' \<le> last UpperBoundsV2"
    by (metis QuantileV2_def)
  moreover have "last UpperBoundsV2 = 120" by (simp add: UpperBoundsV2_def)
  ultimately show ?thesis by auto
qed

theorem quantiles_ordered_witness:
  "\<exists>v v'. QuantileV2 [0, 4, 0, 0, 0, 0, 0, 0, 0, 0, 0, 0, 0, 0, 6] (1/2) = Some v \<and>
     QuantileV2 [0, 4, 0, 0, 0, 0, 0, 0, 0, 0, 0, 0, 0, 0, 6] (9/10) = Some v' \<and> v \<le> v'"
  using quantiles_ordered[of "[0, 4, 0, 0, 0, 0, 0, 0, 0, 0, 0, 0, 0, 0, 6]" "1/2" "9/10"]
  by (auto simp: BucketCountV2_def)

text \<open>An estimate never invents a value inside the open-ended last bucket: it is at most the last
  finite bound (60 seconds for the legacy buckets, 90 for the new ones), and it is that bound when only a
  lower bound is known, which is the case exactly when the finite buckets hold fewer observations than the
  quantile asks for.\<close>

theorem estimate_never_invents_tail:
  assumes "length v1 = BucketCount" "\<forall>h. v2 = Some h \<longrightarrow> length h = BucketCountV2" "0 < q"
    and "Estimate v1 v2 q = (Some v, lowerBound)" "counts = (case v2 of None \<Rightarrow> v1 | Some h \<Rightarrow> h)"
  shows "v \<le> (if v2 = None then 60 else 90) \<and> (lowerBound \<longrightarrow> v = (if v2 = None then 60 else 90)) \<and>
    (lowerBound \<longleftrightarrow> of_int (sum_list (butlast counts)) < of_int (sum_list counts) * q)"
proof -
  define bounds where "bounds = (if v2 = None then UpperBounds else UpperBoundsV2)"
  have len: "length counts = length bounds"
    using assms(1,2,5) by (auto simp: bounds_def UpperBounds_def UpperBoundsV2_def BucketCount_def BucketCountV2_def)
  have bs: "goodBounds (butlast bounds)" "bounds ! (length bounds - 2) = (if v2 = None then 60 else 90)"
    "last (butlast bounds) = (if v2 = None then 60 else 90)" "bounds \<noteq> []"
    by (simp_all add: bounds_def goodBounds_def UpperBounds_def UpperBoundsV2_def)
  have sel: "(case v2 of None \<Rightarrow> (v1, UpperBounds) | Some v \<Rightarrow> (v, UpperBoundsV2)) = (counts, bounds)"
    using assms(5) by (auto simp: bounds_def split: option.split)
  let ?below = "sum_list (butlast counts)" and ?all = "sum_list counts"
  have nn: "\<forall>n \<in> set counts. 0 \<le> n" and nz: "?all \<noteq> 0"
    using assms(4) unfolding Estimate_def sel by (auto simp: Let_def split: if_splits)
  have pos: "0 < ?all" using nn nz sum_list_nonneg[of counts] by force
  have e: "(Some v, lowerBound) = (if of_int ?below < of_int ?all * q then (Some (bounds ! (length bounds - 2)), True)
      else (interpolate counts bounds q, False))"
    using assms(4) nn nz unfolding Estimate_def sel by (auto simp: Let_def not_less[symmetric] split: if_splits)
  show ?thesis
  proof (cases "of_int ?below < of_int ?all * q")
    case True
    then show ?thesis using e bs(2) by simp
  next
    case False
    have low: "\<not> lowerBound" and v: "interpolate counts bounds q = Some v" using e False by simp_all
    let ?t = "quantileTarget ?all q" and ?z = "zip (butlast counts) (butlast bounds)"
    note t = quantileTarget_range[OF pos assms(3)]
    have z: "map fst ?z = butlast counts" "map snd ?z = butlast bounds" using len by simp_all
    have split: "zip counts bounds = ?z @ [(last counts, last bounds)]"
      using len bs(4) by (metis append_butlast_last_id length_0_conv length_butlast zip_append zip_Cons_Cons zip_Nil)
    have "?t \<le> of_int ?below" using t(3) False by simp
    then obtain x where x: "interpolateLoop ?t 0 0 ?z = Some x" "\<forall>ys. interpolateLoop ?t 0 0 (?z @ ys) = Some x"
      using interpolate_stops[of ?t 0 ?z 0] t(1) z(1) by auto
    then have "x = v" using v interpolate_eq(1)[OF len pos assms(3)] split by simp
    then have "v \<le> last (0 # butlast bounds)"
      using interpolate_range[OF x(1)] t(1) z(2) bs(1) by (simp add: goodBounds_def)
    then show ?thesis using bs(1,3) low False by (simp add: goodBounds_def)
  qed
qed

theorem estimate_never_invents_tail_witness:
  "\<exists>v. Estimate [4, 0, 0, 0, 0, 0, 0, 0, 0, 6] None (9/10) = (Some v, True) \<and> v = 60"
proof -
  have e: "Estimate [4, 0, 0, 0, 0, 0, 0, 0, 0, 6] None (9/10) = (Some 60, True)"
    by (simp add: Estimate_def UpperBounds_def Let_def)
  then show ?thesis using estimate_never_invents_tail[OF _ _ _ e refl] by (auto simp: BucketCount_def)
qed

text \<open>A quantile of zero asks for the first observation, so it is not below the small positive ones.\<close>

lemma quantile_zero_not_least:
  "QuantileV2 [10, 0, 0, 0, 0, 0, 0, 0, 0, 0, 0, 0, 0, 0, 0] (1/20) = Some (1/80)"
  "QuantileV2 [10, 0, 0, 0, 0, 0, 0, 0, 0, 0, 0, 0, 0, 0, 0] 0 = Some (1/40)"
  by (simp_all add: QuantileV2_def interpolate_def quantileTarget_def UpperBoundsV2_def Let_def)

end
