(* ===== verification/EvidenceStats.thy ===== *)
theory EvidenceStats
  imports LatencyHist "HOL-Library.Multiset" "HOL-Library.Monad_Syntax"
begin

text \<open>
  Optional speed evidence of a report: direct-attempt latency (\<open>internal/speedstats\<close>), output speed over
  the whole request (\<open>internal/outputstats\<close>), and cache accounting (\<open>internal/cachemetrics\<close>).  A nil
  pointer is \<open>None\<close>.

  The locale \<open>evidence_merge\<close> is the contract the aggregation of reports relies on: merging is associative
  and commutative on valid evidence, and valid evidence for \<open>m\<close> and \<open>n\<close> requests merges to valid
  evidence for \<open>m + n\<close>.  Histograms, latency evidence and output evidence interpret it.
\<close>

section \<open>The contract of merged evidence\<close>

locale evidence_merge =
  fixes merge :: "'a \<Rightarrow> 'a \<Rightarrow> 'a" and ok :: "int \<Rightarrow> 'a \<Rightarrow> bool" and none :: 'a
  assumes ok_none: "ok 0 none"
    and ok_merge: "ok m a \<Longrightarrow> ok n b \<Longrightarrow> ok (m + n) (merge a b)"
    and merge_none: "ok m a \<Longrightarrow> merge none a = a"
    and merge_comm: "ok m a \<Longrightarrow> ok n b \<Longrightarrow> merge a b = merge b a"
    and merge_assoc: "ok k a \<Longrightarrow> ok m b \<Longrightarrow> ok n c \<Longrightarrow> merge (merge a b) c = merge a (merge b c)"
begin

text \<open>Reports arrive with their request counts; the aggregate is folded in arrival order.\<close>

definition mergeAll :: "(int \<times> 'a) list \<Rightarrow> 'a" where
  "mergeAll rs = foldl (\<lambda>acc r. merge acc (snd r)) none rs"

definition allOk :: "(int \<times> 'a) list \<Rightarrow> bool" where
  "allOk rs \<longleftrightarrow> (\<forall>r \<in> set rs. ok (fst r) (snd r))"

lemma allOk_simps [simp]:
  "allOk []" "allOk (r # rs) \<longleftrightarrow> ok (fst r) (snd r) \<and> allOk rs" "allOk (xs @ ys) \<longleftrightarrow> allOk xs \<and> allOk ys"
  by (auto simp: allOk_def)

lemma fold_ok: "ok n acc \<Longrightarrow> allOk rs \<Longrightarrow> ok (n + sum_list (map fst rs)) (foldl (\<lambda>acc r. merge acc (snd r)) acc rs)"
proof (induction rs arbitrary: n acc)
  case (Cons r rs)
  then show ?case using Cons.IH[OF ok_merge[of n acc "fst r" "snd r"]] by (simp add: add.assoc)
qed simp

lemma mergeAll_ok: "allOk rs \<Longrightarrow> ok (sum_list (map fst rs)) (mergeAll rs)"
  using fold_ok[OF ok_none, of rs] by (simp add: mergeAll_def)

lemma fold_acc:
  "ok n acc \<Longrightarrow> allOk rs \<Longrightarrow> foldl (\<lambda>acc r. merge acc (snd r)) acc rs = merge acc (mergeAll rs)"
proof (induction rs arbitrary: n acc)
  case Nil
  then show ?case using merge_comm[OF Nil(1) ok_none] merge_none[OF Nil(1)] by (simp add: mergeAll_def)
next
  case (Cons r rs)
  have r: "ok (fst r) (snd r)" and rs: "allOk rs" using Cons.prems(2) by simp_all
  have "foldl (\<lambda>acc r. merge acc (snd r)) acc (r # rs) = merge (merge acc (snd r)) (mergeAll rs)"
    using Cons.IH[OF ok_merge[OF Cons.prems(1) r] rs] by simp
  moreover have "mergeAll (r # rs) = merge (snd r) (mergeAll rs)"
    using Cons.IH[OF r rs] merge_none[OF r] by (simp add: mergeAll_def)
  ultimately show ?case using merge_assoc[OF Cons.prems(1) r mergeAll_ok[OF rs]] by simp
qed

lemma mergeAll_Cons: "allOk (r # rs) \<Longrightarrow> mergeAll (r # rs) = merge (snd r) (mergeAll rs)"
  using fold_acc[of "fst r" "snd r" rs] merge_none[of "fst r" "snd r"] by (simp add: mergeAll_def)

lemma mergeAll_append: "allOk xs \<Longrightarrow> allOk ys \<Longrightarrow> mergeAll (xs @ ys) = merge (mergeAll xs) (mergeAll ys)"
  using fold_acc[OF mergeAll_ok, of xs ys] by (simp add: mergeAll_def)

lemma mergeAll_middle:
  assumes "allOk (xs @ r # ys)"
  shows "mergeAll (xs @ r # ys) = merge (snd r) (mergeAll (xs @ ys))"
proof -
  have ok: "ok (fst r) (snd r)" "allOk xs" "allOk ys" using assms by simp_all
  note m = mergeAll_ok[OF ok(2)] mergeAll_ok[OF ok(3)]
  have "mergeAll (xs @ r # ys) = merge (mergeAll xs) (merge (snd r) (mergeAll ys))"
    using ok mergeAll_append[of xs "r # ys"] mergeAll_Cons[of r ys] by simp
  also have "\<dots> = merge (snd r) (merge (mergeAll xs) (mergeAll ys))"
    using merge_assoc[OF m(1) ok(1) m(2)] merge_assoc[OF ok(1) m(1) m(2)] merge_comm[OF m(1) ok(1)] by simp
  finally show ?thesis using mergeAll_append[OF ok(2,3)] by simp
qed

text \<open>The aggregate does not depend on the order of the reports.\<close>

lemma mergeAll_order: "allOk rs \<Longrightarrow> mset rs = mset qs \<Longrightarrow> mergeAll qs = mergeAll rs"
proof (induction rs arbitrary: qs)
  case (Cons r rs)
  obtain xs ys where qs: "qs = xs @ r # ys"
    using Cons.prems(2) by (metis list.set_intros(1) set_mset_mset split_list)
  then have ms: "mset rs = mset (xs @ ys)" using Cons.prems(2) by simp
  have all: "allOk qs" using Cons.prems mset_eq_setD[of "r # rs" qs] unfolding allOk_def by metis
  show ?case
    using Cons.IH[OF _ ms] Cons.prems(1) mergeAll_middle[of xs r ys] mergeAll_Cons[OF Cons.prems(1)] all qs by simp
qed (simp add: mergeAll_def)

end

section \<open>Histograms\<close>

definition bucketsOk :: "nat \<Rightarrow> int \<Rightarrow> Buckets \<Rightarrow> bool" where
  "bucketsOk k n h \<longleftrightarrow> length h = k \<and> (\<forall>v \<in> set h. 0 \<le> v) \<and> sum_list h = n"

lemma AddBuckets_sum: "length a = length b \<Longrightarrow> sum_list (AddBuckets a b) = sum_list a + sum_list b"
  by (induction a b rule: list_induct2) (simp_all add: AddBuckets_def)

lemma AddBuckets_ok: "bucketsOk k m a \<Longrightarrow> bucketsOk k n b \<Longrightarrow> bucketsOk k (m + n) (AddBuckets a b)"
  using AddBuckets_sum[of a b] by (auto simp: bucketsOk_def AddBuckets_def set_zip)

lemma AddBuckets_comm: "AddBuckets a b = AddBuckets b a"
  by (simp add: AddBuckets_def list_eq_iff_nth_eq add.commute)

lemma AddBuckets_assoc: "AddBuckets (AddBuckets a b) c = AddBuckets a (AddBuckets b c)"
  by (simp add: AddBuckets_def list_eq_iff_nth_eq add.assoc)

lemma AddBuckets_zero: "length a = k \<Longrightarrow> AddBuckets (replicate k 0) a = a"
  by (simp add: AddBuckets_def list_eq_iff_nth_eq)

interpretation hist: evidence_merge AddBuckets "bucketsOk k" "replicate k 0" for k
proof
  show "bucketsOk k 0 (replicate k 0)" by (simp add: bucketsOk_def sum_list_replicate)
  show "AddBuckets (replicate k 0) a = a" if "bucketsOk k m a" for m a
    using that by (simp add: bucketsOk_def AddBuckets_zero)
qed (auto intro: AddBuckets_ok AddBuckets_comm AddBuckets_assoc)

section \<open>Direct-attempt latency\<close>

record SpeedStats =
  sp_Buckets :: "int64 list"
  sp_RetryCount :: int64
  sp_UnknownCount :: int64

definition NewSpeedStats :: SpeedStats where
  "NewSpeedStats = \<lparr>sp_Buckets = replicate BucketCountV2 0, sp_RetryCount = 0, sp_UnknownCount = 0\<rparr>"

definition SpeedSamples :: "SpeedStats option \<Rightarrow> int64" where
  "SpeedSamples s = (case s of None \<Rightarrow> 0 | Some x \<Rightarrow> sum_list (sp_Buckets x))"

text \<open>The loops of \<open>Valid\<close>: what remains after subtracting, unless a value is negative or too large.\<close>

fun subtractAll :: "int64 \<Rightarrow> int64 list \<Rightarrow> int64 option" where
  "subtractAll remaining [] = Some remaining"
| "subtractAll remaining (v # vs) = (if v < 0 \<or> v > remaining then None else subtractAll (remaining - v) vs)"

definition SpeedValid :: "SpeedStats option \<Rightarrow> int64 \<Rightarrow> bool" where
  "SpeedValid s n =
     (case s of
        None \<Rightarrow> False
      | Some x \<Rightarrow>
          if length (sp_Buckets x) \<noteq> BucketCountV2 \<or> n < 0 then False
          else (case subtractAll n (sp_Buckets x) of
                  None \<Rightarrow> False
                | Some r \<Rightarrow>
                    (case subtractAll r [sp_RetryCount x, sp_UnknownCount x] of
                       None \<Rightarrow> False
                     | Some r' \<Rightarrow> r' = 0)))"

text \<open>\<open>Merge\<close> indexes the right operand by the positions of the left one: a shorter one is a run-time
  panic, the outer \<open>None\<close>.\<close>

definition SpeedMerge :: "SpeedStats option \<Rightarrow> SpeedStats option \<Rightarrow> SpeedStats option option" where
  "SpeedMerge a b =
     (case (a, b) of
        (None, _) \<Rightarrow> Some b
      | (_, None) \<Rightarrow> Some a
      | (Some x, Some y) \<Rightarrow>
          if length (sp_Buckets y) < length (sp_Buckets x) then None
          else Some (Some \<lparr>sp_Buckets = map2 (+) (sp_Buckets x) (sp_Buckets y),
            sp_RetryCount = sp_RetryCount x + sp_RetryCount y, sp_UnknownCount = sp_UnknownCount x + sp_UnknownCount y\<rparr>))"

lemma subtractAll_Some:
  "subtractAll n vs = Some r \<longleftrightarrow> (\<forall>v \<in> set vs. 0 \<le> v) \<and> r = n - sum_list vs \<and> (vs = [] \<or> 0 \<le> r)"
proof (induction vs arbitrary: n)
  case (Cons v vs)
  have "0 \<le> sum_list vs" if "\<forall>v \<in> set vs. 0 \<le> v" using that sum_list_nonneg by blast
  then show ?case using Cons.IH[of "n - v"] by (cases vs) auto
qed auto

text \<open>Validity in declarative form: fifteen buckets, nothing negative, and together with the retries and
  the unknown records they account for every record.\<close>

lemma SpeedValid_iff:
  "SpeedValid (Some x) n \<longleftrightarrow> length (sp_Buckets x) = BucketCountV2 \<and> (\<forall>v \<in> set (sp_Buckets x). 0 \<le> v) \<and>
     0 \<le> sp_RetryCount x \<and> 0 \<le> sp_UnknownCount x \<and> n = sum_list (sp_Buckets x) + sp_RetryCount x + sp_UnknownCount x"
proof -
  have nn: "0 \<le> sum_list (sp_Buckets x)" if "\<forall>v \<in> set (sp_Buckets x). 0 \<le> v" using that sum_list_nonneg by blast
  have ne: "sp_Buckets x \<noteq> []" if "length (sp_Buckets x) = BucketCountV2" using that by (auto simp: BucketCountV2_def)
  show ?thesis
  proof
    assume "SpeedValid (Some x) n"
    then show "length (sp_Buckets x) = BucketCountV2 \<and> (\<forall>v \<in> set (sp_Buckets x). 0 \<le> v) \<and>
        0 \<le> sp_RetryCount x \<and> 0 \<le> sp_UnknownCount x \<and> n = sum_list (sp_Buckets x) + sp_RetryCount x + sp_UnknownCount x"
      by (auto simp: SpeedValid_def subtractAll_Some split: if_splits option.splits)
  next
    assume r: "length (sp_Buckets x) = BucketCountV2 \<and> (\<forall>v \<in> set (sp_Buckets x). 0 \<le> v) \<and>
        0 \<le> sp_RetryCount x \<and> 0 \<le> sp_UnknownCount x \<and> n = sum_list (sp_Buckets x) + sp_RetryCount x + sp_UnknownCount x"
    then have "subtractAll n (sp_Buckets x) = Some (sp_RetryCount x + sp_UnknownCount x)"
      using ne by (simp add: subtractAll_Some)
    then show "SpeedValid (Some x) n" using r nn by (simp add: SpeedValid_def)
  qed
qed

definition speedOk :: "int \<Rightarrow> SpeedStats option \<Rightarrow> bool" where
  "speedOk n s \<longleftrightarrow> (case s of None \<Rightarrow> n = 0 | Some x \<Rightarrow> SpeedValid s n)"

definition speedMerged :: "SpeedStats option \<Rightarrow> SpeedStats option \<Rightarrow> SpeedStats option" where
  "speedMerged a b = (case SpeedMerge a b of Some r \<Rightarrow> r | None \<Rightarrow> None)"

lemma SpeedMerge_total: "speedOk m a \<Longrightarrow> speedOk n b \<Longrightarrow> SpeedMerge a b = Some (speedMerged a b)"
  by (auto simp: speedOk_def speedMerged_def SpeedMerge_def SpeedValid_iff split: option.splits)

lemma speedMerged_simps:
  "speedMerged None b = b" "speedMerged a None = a"
  "length (sp_Buckets x) = length (sp_Buckets y) \<Longrightarrow> speedMerged (Some x) (Some y) =
     Some \<lparr>sp_Buckets = AddBuckets (sp_Buckets x) (sp_Buckets y),
       sp_RetryCount = sp_RetryCount x + sp_RetryCount y, sp_UnknownCount = sp_UnknownCount x + sp_UnknownCount y\<rparr>"
  by (auto simp: speedMerged_def SpeedMerge_def AddBuckets_def split: option.split)

lemma speedOk_Some:
  "speedOk n (Some x) \<longleftrightarrow> bucketsOk BucketCountV2 (n - sp_RetryCount x - sp_UnknownCount x) (sp_Buckets x) \<and>
     0 \<le> sp_RetryCount x \<and> 0 \<le> sp_UnknownCount x"
  by (auto simp: speedOk_def SpeedValid_iff bucketsOk_def)

lemma length_AddBuckets [simp]: "length (AddBuckets a b) = min (length a) (length b)"
  by (simp add: AddBuckets_def)

lemma speed_merge_ok:
  assumes "speedOk m a" "speedOk n b"
  shows "speedOk (m + n) (speedMerged a b)"
proof (cases a; cases b)
  fix x y assume ab: "a = Some x" "b = Some y"
  have "bucketsOk BucketCountV2 ((m - sp_RetryCount x - sp_UnknownCount x) + (n - sp_RetryCount y - sp_UnknownCount y))
      (AddBuckets (sp_Buckets x) (sp_Buckets y))"
    using assms ab by (intro AddBuckets_ok) (simp_all add: speedOk_Some)
  moreover have "length (sp_Buckets x) = length (sp_Buckets y)" using assms ab by (simp add: speedOk_Some bucketsOk_def)
  ultimately show ?thesis using assms ab by (simp add: speedMerged_simps speedOk_Some algebra_simps)
qed (use assms in \<open>auto simp: speedMerged_simps speedOk_def\<close>)

lemma speed_lengths: "speedOk n (Some x) \<Longrightarrow> length (sp_Buckets x) = BucketCountV2"
  by (simp add: speedOk_Some bucketsOk_def)

interpretation speed: evidence_merge speedMerged speedOk None
proof
  show "speedOk 0 None" by (simp add: speedOk_def)
  show "speedMerged a b = speedMerged b a" if "speedOk m a" "speedOk n b" for m n a b
    using that speed_lengths by (cases a; cases b) (auto simp: speedMerged_simps AddBuckets_comm add.commute)
  show "speedMerged (speedMerged a b) c = speedMerged a (speedMerged b c)"
    if "speedOk k a" "speedOk m b" "speedOk n c" for k m n a b c
    using that speed_lengths by (cases a; cases b; cases c) (auto simp: speedMerged_simps AddBuckets_assoc add.assoc)
qed (simp_all add: speed_merge_ok speedMerged_simps)

section \<open>Output speed\<close>

text \<open>Not-a-number and infinite durations, which \<open>finite\<close> excludes, are not values of the model.\<close>

record OutputStats =
  os_Tokens :: int64
  os_Seconds :: float64
  os_Samples :: int64
  os_DirectTokens :: int64
  os_DirectSeconds :: float64
  os_DirectSamples :: int64
  os_RetrySamples :: int64
  os_UnknownSamples :: int64
  os_invalid :: bool

definition validPart :: "int64 \<Rightarrow> int64 \<Rightarrow> float64 \<Rightarrow> bool" where
  "validPart tokens samples seconds =
     (if tokens < 0 \<or> samples < 0 \<or> seconds < 0 then False
      else if samples = 0 then tokens = 0 \<and> seconds = 0
      else tokens \<ge> samples \<and> seconds > 0)"

definition OutputValid :: "OutputStats option \<Rightarrow> int64 \<Rightarrow> bool \<Rightarrow> bool" where
  "OutputValid s requests channel =
     (case s of
        None \<Rightarrow> False
      | Some x \<Rightarrow>
          if os_invalid x \<or> requests < 0 \<or> os_Samples x > requests \<or>
             \<not> validPart (os_Tokens x) (os_Samples x) (os_Seconds x) \<or>
             \<not> validPart (os_DirectTokens x) (os_DirectSamples x) (os_DirectSeconds x) then False
          else if os_DirectTokens x > os_Tokens x \<or> os_DirectSeconds x > os_Seconds x \<or> os_DirectSamples x > os_Samples x \<or>
                  os_RetrySamples x < 0 \<or> os_UnknownSamples x < 0 then False
          else if \<not> channel then os_DirectSamples x = 0 \<and> os_RetrySamples x = 0 \<and> os_UnknownSamples x = 0
          else let remaining = os_Samples x - os_DirectSamples x
               in os_RetrySamples x \<le> remaining \<and> os_UnknownSamples x = remaining - os_RetrySamples x)"

definition OutputAdd :: "OutputStats \<Rightarrow> int64 \<Rightarrow> float64 \<Rightarrow> int64 \<Rightarrow> bool \<Rightarrow> OutputStats" where
  "OutputAdd s tokens seconds attempts channel =
     (if tokens \<le> 0 \<or> seconds \<le> 0 then s
      else let t = s\<lparr>os_Tokens := os_Tokens s + tokens, os_Seconds := os_Seconds s + seconds, os_Samples := os_Samples s + 1\<rparr>
           in if \<not> channel then t
              else if attempts = 1
              then t\<lparr>os_DirectTokens := os_DirectTokens t + tokens, os_DirectSeconds := os_DirectSeconds t + seconds,
                     os_DirectSamples := os_DirectSamples t + 1\<rparr>
              else if attempts > 1 then t\<lparr>os_RetrySamples := os_RetrySamples t + 1\<rparr>
              else t\<lparr>os_UnknownSamples := os_UnknownSamples t + 1\<rparr>)"

definition OutputMerge :: "OutputStats option \<Rightarrow> OutputStats option \<Rightarrow> OutputStats option" where
  "OutputMerge a b =
     (case (a, b) of
        (None, _) \<Rightarrow> b
      | (_, None) \<Rightarrow> a
      | (Some x, Some y) \<Rightarrow>
          Some \<lparr>os_Tokens = os_Tokens x + os_Tokens y, os_Seconds = os_Seconds x + os_Seconds y,
            os_Samples = os_Samples x + os_Samples y, os_DirectTokens = os_DirectTokens x + os_DirectTokens y,
            os_DirectSeconds = os_DirectSeconds x + os_DirectSeconds y, os_DirectSamples = os_DirectSamples x + os_DirectSamples y,
            os_RetrySamples = os_RetrySamples x + os_RetrySamples y, os_UnknownSamples = os_UnknownSamples x + os_UnknownSamples y,
            os_invalid = (os_invalid x \<or> os_invalid y)\<rparr>)"

definition OutputRate :: "OutputStats option \<Rightarrow> float64 option" where
  "OutputRate s =
     (case s of
        None \<Rightarrow> None
      | Some x \<Rightarrow> if os_Tokens x \<le> 0 \<or> os_Seconds x \<le> 0 then None else Some (of_int (os_Tokens x) / os_Seconds x))"

definition SampleTokens :: "OutputStats option \<Rightarrow> int64" where
  "SampleTokens s = (case s of None \<Rightarrow> 0 | Some x \<Rightarrow> os_Tokens x)"

definition OutputDuration :: "OutputStats option \<Rightarrow> float64" where
  "OutputDuration s = (case s of None \<Rightarrow> 0 | Some x \<Rightarrow> os_Seconds x)"

definition outputOk :: "bool \<Rightarrow> int \<Rightarrow> OutputStats option \<Rightarrow> bool" where
  "outputOk channel n s \<longleftrightarrow> (case s of None \<Rightarrow> n = 0 | Some x \<Rightarrow> OutputValid s n channel)"

lemma OutputValid_iff:
  "OutputValid (Some x) n channel \<longleftrightarrow>
     \<not> os_invalid x \<and> 0 \<le> n \<and> os_Samples x \<le> n \<and>
     validPart (os_Tokens x) (os_Samples x) (os_Seconds x) \<and>
     validPart (os_DirectTokens x) (os_DirectSamples x) (os_DirectSeconds x) \<and>
     os_DirectTokens x \<le> os_Tokens x \<and> os_DirectSeconds x \<le> os_Seconds x \<and> os_DirectSamples x \<le> os_Samples x \<and>
     0 \<le> os_RetrySamples x \<and> 0 \<le> os_UnknownSamples x \<and>
     (if channel then os_DirectSamples x + os_RetrySamples x + os_UnknownSamples x = os_Samples x
      else os_DirectSamples x = 0 \<and> os_RetrySamples x = 0 \<and> os_UnknownSamples x = 0)"
  by (auto simp: OutputValid_def Let_def)

lemma validPart_add: "validPart t n x \<Longrightarrow> validPart u m y \<Longrightarrow> validPart (t + u) (n + m) (x + y)"
  by (auto simp: validPart_def split: if_splits)

lemma validPart_one: "validPart t n x \<Longrightarrow> 0 < u \<Longrightarrow> 0 < y \<Longrightarrow> validPart (t + u) (n + 1) (x + y)"
  by (auto simp: validPart_def split: if_splits)

lemma output_merge_ok:
  assumes "outputOk channel m a" "outputOk channel n b"
  shows "outputOk channel (m + n) (OutputMerge a b)"
proof (cases a; cases b)
  fix x y assume ab: "a = Some x" "b = Some y"
  then have v: "OutputValid (Some x) m channel" "OutputValid (Some y) n channel" using assms by (simp_all add: outputOk_def)
  then show ?thesis
    using validPart_add[of "os_Tokens x" "os_Samples x" "os_Seconds x" "os_Tokens y" "os_Samples y" "os_Seconds y"]
      validPart_add[of "os_DirectTokens x" "os_DirectSamples x" "os_DirectSeconds x" "os_DirectTokens y" "os_DirectSamples y" "os_DirectSeconds y"]
    unfolding ab outputOk_def OutputMerge_def by (simp add: OutputValid_iff split: if_splits)
qed (use assms in \<open>auto simp: OutputMerge_def outputOk_def\<close>)

interpretation outp: evidence_merge OutputMerge "outputOk channel" None for channel
proof
  show "outputOk channel 0 None" by (simp add: outputOk_def)
  show "OutputMerge a b = OutputMerge b a" for a b
    by (cases a; cases b) (auto simp: OutputMerge_def)
  show "OutputMerge (OutputMerge a b) c = OutputMerge a (OutputMerge b c)" for a b c
    by (cases a; cases b; cases c) (auto simp: OutputMerge_def)
  show "OutputMerge None a = a" for a by (simp add: OutputMerge_def)
qed (rule output_merge_ok)

section \<open>Cache accounting\<close>

definition MinPromptTokens :: int64 where
  "MinPromptTokens = 512"

definition PromptTotal :: "int64 \<Rightarrow> int64 \<Rightarrow> int64 option \<Rightarrow> int64" where
  "PromptTotal promptTokens cacheTokens normalizedTotal =
     (let t0 = (case normalizedTotal of Some n \<Rightarrow> if n > 0 then n else promptTokens | None \<Rightarrow> promptTokens)
      in if t0 < cacheTokens then cacheTokens else t0)"

definition ClampRate :: "float64 \<Rightarrow> float64" where
  "ClampRate rate = (if rate < 0 then 0 else if rate > 1 then 1 else rate)"

section \<open>Properties\<close>

text \<open>latency evidence merges losslessly: over reports that each are absent or valid for their own
  record count, merging never panics, the result is valid for the sum of the counts, and it does not
  depend on the order in which the reports arrive.\<close>

theorem speed_evidence_merges:
  assumes "\<forall>r \<in> set reports. (case snd r of None \<Rightarrow> fst r = 0 | Some x \<Rightarrow> SpeedValid (Some x) (fst r))"
    and "mset arrival = mset reports"
  shows "foldl (\<lambda>acc r. acc \<bind> (\<lambda>a. SpeedMerge a (snd r))) (Some None) arrival =
      Some (foldl (\<lambda>acc r. speedMerged acc (snd r)) None reports) \<and>
    (case foldl (\<lambda>acc r. speedMerged acc (snd r)) None reports of
       None \<Rightarrow> sum_list (map fst reports) = 0
     | Some x \<Rightarrow> SpeedValid (Some x) (sum_list (map fst reports)))"
proof -
  have ok: "speed.allOk reports" using assms(1) by (auto simp: speed.allOk_def speedOk_def split: option.splits)
  then have ok': "speed.allOk arrival" using mset_eq_setD[OF assms(2)] by (simp add: speed.allOk_def)
  have run: "foldl (\<lambda>acc r. acc \<bind> (\<lambda>a. SpeedMerge a (snd r))) (Some a) rs = Some (foldl (\<lambda>acc r. speedMerged acc (snd r)) a rs)"
    if "speedOk n a" "speed.allOk rs" for n a rs
    using that
  proof (induction rs arbitrary: n a)
    case (Cons r rs)
    then show ?case
      using SpeedMerge_total[of n a "fst r" "snd r"] Cons.IH[OF speed_merge_ok[of n a "fst r" "snd r"]] by simp
  qed simp
  have "speed.mergeAll arrival = speed.mergeAll reports" using speed.mergeAll_order[OF ok assms(2)[symmetric]] .
  moreover have "speedOk (sum_list (map fst reports)) (speed.mergeAll reports)" by (rule speed.mergeAll_ok[OF ok])
  ultimately show ?thesis
    using run[OF speed.ok_none ok'] by (simp add: speed.mergeAll_def speedOk_def split: option.splits)
qed

theorem speed_evidence_merges_witness:
  "foldl (\<lambda>acc r. acc \<bind> (\<lambda>a. SpeedMerge a (snd r))) (Some None)
     [(0, None), (3, Some (NewSpeedStats\<lparr>sp_RetryCount := 3\<rparr>))] = Some (Some (NewSpeedStats\<lparr>sp_RetryCount := 3\<rparr>))"
proof -
  have "SpeedValid (Some (NewSpeedStats\<lparr>sp_RetryCount := 3\<rparr>)) 3"
    by (simp add: SpeedValid_iff NewSpeedStats_def sum_list_replicate)
  then show ?thesis
    using speed_evidence_merges[of "[(0, None), (3, Some (NewSpeedStats\<lparr>sp_RetryCount := 3\<rparr>))]"
        "[(0, None), (3, Some (NewSpeedStats\<lparr>sp_RetryCount := 3\<rparr>))]"] by (simp add: speedMerged_simps)
qed

text \<open>output evidence stays consistent: recording one more request keeps it valid, merging the
  evidence of two sets of requests is valid for both together, and the merged rate lies between the two
  rates.\<close>

theorem output_evidence_consistent:
  assumes "OutputValid (Some s) m channel" "OutputValid (Some t) n channel"
  shows "OutputValid (Some (OutputAdd s tokens seconds attempts channel)) (m + 1) channel \<and>
    OutputValid (OutputMerge (Some s) (Some t)) (m + n) channel \<and>
    (case (OutputRate (Some s), OutputRate (Some t)) of
       (Some a, Some b) \<Rightarrow> (\<exists>r. OutputRate (OutputMerge (Some s) (Some t)) = Some r \<and> min a b \<le> r \<and> r \<le> max a b)
     | _ \<Rightarrow> True)"
proof -
  have add: "OutputValid (Some (OutputAdd s tokens seconds attempts channel)) (m + 1) channel"
    using assms(1) validPart_one by (auto simp: OutputValid_iff OutputAdd_def Let_def split: if_splits)
  have "outputOk channel (m + n) (OutputMerge (Some s) (Some t))"
    using assms by (intro output_merge_ok) (simp_all add: outputOk_def)
  then have merge: "OutputValid (OutputMerge (Some s) (Some t)) (m + n) channel"
    by (simp add: outputOk_def OutputMerge_def)
  have mediant: "min (x / y) (u / v) \<le> (x + u) / (y + v) \<and> (x + u) / (y + v) \<le> max (x / y) (u / v)"
    if "0 < y" "0 < v" for x y u v :: real
    using that by (auto simp: min_def max_def field_simps)
  show ?thesis
    using add merge mediant[of "os_Seconds s" "os_Seconds t" "of_int (os_Tokens s)" "of_int (os_Tokens t)"]
    by (auto simp: OutputRate_def OutputMerge_def split: option.split)
qed

definition exampleOutput :: OutputStats where
  "exampleOutput = \<lparr>os_Tokens = 100, os_Seconds = 5, os_Samples = 2, os_DirectTokens = 60, os_DirectSeconds = 2,
     os_DirectSamples = 1, os_RetrySamples = 1, os_UnknownSamples = 0, os_invalid = False\<rparr>"

theorem output_evidence_consistent_witness:
  "OutputValid (Some (OutputAdd exampleOutput 10 1 2 True)) 4 True"
proof -
  have v: "OutputValid (Some exampleOutput) 3 True" by (simp add: OutputValid_iff exampleOutput_def validPart_def)
  show ?thesis using output_evidence_consistent[OF v v, of 10 1 2] by simp
qed

text \<open>The share of cached prompt tokens is a rate: the denominator is never below the cached tokens,
  whichever way the provider reports prompts, and a rate read from elsewhere is clamped to the unit
  interval and left alone inside it.\<close>

theorem cache_share_is_a_rate:
  assumes "0 \<le> cached" "0 < PromptTotal prompt cached normalized"
  shows "0 \<le> (of_int cached / of_int (PromptTotal prompt cached normalized) :: real) \<and>
    (of_int cached / of_int (PromptTotal prompt cached normalized) :: real) \<le> 1 \<and>
    0 \<le> ClampRate rate \<and> ClampRate rate \<le> 1 \<and> (0 \<le> rate \<and> rate \<le> 1 \<longrightarrow> ClampRate rate = rate)"
proof -
  have "cached \<le> PromptTotal prompt cached normalized" by (simp add: PromptTotal_def Let_def)
  then show ?thesis using assms by (simp add: ClampRate_def)
qed

theorem cache_share_is_a_rate_witness:
  "(of_int 800 / of_int (PromptTotal 200 800 None) :: real) \<le> 1"
  using cache_share_is_a_rate[of 800 200 None] by (simp add: PromptTotal_def)

end
