(* ===== verification/Scheduler.thy ===== *)
theory Scheduler
  imports Examples Calls "HOL-Library.Multiset"
begin

text \<open>
  Scheduling of evaluations (\<open>server/internal/tuning/scheduler.go\<close>): the loop that queues enabled sites
  and evaluates at most four of them at a time (\<open>runSites\<close>), and the worker pool that runs the channel
  jobs of one site (\<open>runChannels\<close> with more than one worker).  Both are step relations: a step is what one
  goroutine does between two synchronisations, and steps interleave freely.
\<close>

section \<open>The site loop\<close>

text \<open>The variables of the loop, the sites being evaluated by a goroutine, and the contents of the
  \<open>done\<close> channel.\<close>

record siteLoop =
  sl_queue :: "string list"
  sl_queued :: "string set"
  sl_lastStarted :: "string \<Rightarrow> time"
  sl_running :: nat
  sl_active :: "string list"
  sl_done :: "string list"

definition initialLoop :: siteLoop where
  "initialLoop = \<lparr>sl_queue = [], sl_queued = {}, sl_lastStarted = (\<lambda>id. 0), sl_running = 0, sl_active = [], sl_done = []\<rparr>"

definition pushSite :: "string \<Rightarrow> siteLoop \<Rightarrow> siteLoop" where
  "pushSite i l = (if i \<in> sl_queued l then l else l\<lparr>sl_queued := insert i (sl_queued l), sl_queue := sl_queue l @ [i]\<rparr>)"

text \<open>With per-site policies a site whose evaluation interval has not passed is skipped, and so is one whose
  policy cannot be read.\<close>

definition enqueueSite :: "env \<Rightarrow> bool \<Rightarrow> string \<Rightarrow> siteLoop \<times> world \<Rightarrow> siteLoop \<times> world" where
  "enqueueSite E perSite i lw =
     (case lw of (l, w) \<Rightarrow>
        if \<not> perSite then (pushSite i l, w)
        else let w1 = emit (GetPolicy i) w in
          (case getPolicy E (trace w) i of
             Inr e \<Rightarrow> (l, w1)
           | Inl found \<Rightarrow>
               let rules = (case found of Some pr \<Rightarrow> Rules (pol_Continuous (pr_Policy pr)) | None \<Rightarrow> DefaultContinuousRules);
                   since = timeSub (clock E (trace w1)) (sl_lastStarted l i)
               in if since < r_EvaluationIntervalSeconds rules * Second then (l, emit Now w1)
                  else (pushSite i l, emit Now w1)))"

definition enqueue :: "env \<Rightarrow> bool \<Rightarrow> siteLoop \<Rightarrow> world \<Rightarrow> siteLoop \<times> world" where
  "enqueue E perSite l w =
     (let w1 = emit ListEnabledSites w
      in case listEnabledSites E (trace w) of
           Inr e \<Rightarrow> (l, w1)
         | Inl ids \<Rightarrow> foldl (\<lambda>lw i. enqueueSite E perSite i lw) (l, w1) ids)"

definition maxRunning :: nat where
  "maxRunning = 4"

text \<open>The inner loop: start queued sites while there is room.  The queue shrinks with every start.\<close>

fun startFrom :: "env \<Rightarrow> string list \<Rightarrow> siteLoop \<Rightarrow> world \<Rightarrow> siteLoop \<times> world" where
  "startFrom E [] l w = (l\<lparr>sl_queue := []\<rparr>, w)"
| "startFrom E (i # rest) l w =
     (if sl_running l < maxRunning
      then startFrom E rest
             (l\<lparr>sl_lastStarted := (sl_lastStarted l)(i := clock E (trace w)), sl_running := sl_running l + 1,
                sl_active := sl_active l @ [i]\<rparr>) (emit Now w)
      else (l\<lparr>sl_queue := i # rest\<rparr>, w))"

definition startSites :: "env \<Rightarrow> siteLoop \<Rightarrow> world \<Rightarrow> siteLoop \<times> world" where
  "startSites E l w = startFrom E (sl_queue l) l w"

definition receiveDone :: "string \<Rightarrow> siteLoop \<Rightarrow> siteLoop" where
  "receiveDone i l = l\<lparr>sl_running := sl_running l - 1, sl_queued := sl_queued l - {i}\<rparr>"

text \<open>One event: a goroutine ends its evaluation and sends its site, the loop receives a finished site,
  or the ticker fires.  The loop starts queued sites after each event it handles.\<close>

inductive siteStep :: "env \<Rightarrow> bool \<Rightarrow> siteLoop \<times> world \<Rightarrow> siteLoop \<times> world \<Rightarrow> bool" for E perSite where
  evaluated: "i \<in> set (sl_active l) \<Longrightarrow>
    siteStep E perSite (l, w) (l\<lparr>sl_active := remove1 i (sl_active l), sl_done := sl_done l @ [i]\<rparr>, w')"
| received: "sl_done l = i # rest \<Longrightarrow>
    siteStep E perSite (l, w) (startSites E (receiveDone i (l\<lparr>sl_done := rest\<rparr>)) w)"
| ticked: "enqueue E perSite l w = (l', w') \<Longrightarrow> siteStep E perSite (l, w) (startSites E l' w')"

inductive siteReach :: "env \<Rightarrow> bool \<Rightarrow> siteLoop \<times> world \<Rightarrow> bool" for E perSite where
  start: "enqueue E perSite initialLoop w = (l, w') \<Longrightarrow> siteReach E perSite (startSites E l w')"
| step: "siteReach E perSite x \<Longrightarrow> siteStep E perSite x y \<Longrightarrow> siteReach E perSite y"

section \<open>The pool of channel workers\<close>

text \<open>The jobs not yet handed out, those a worker has received, and those that were executed or skipped
  because the context was cancelled.\<close>

record 'a pool =
  pl_pending :: "'a list"
  pl_busy :: "'a list"
  pl_executed :: "'a list"
  pl_skipped :: "'a list"
  pl_cancelled :: bool

definition poolWidth :: "int64 \<Rightarrow> nat \<Rightarrow> nat" where
  "poolWidth parallelism jobs = min (nat (max 1 parallelism)) jobs"

definition initialPool :: "'a list \<Rightarrow> 'a pool" where
  "initialPool jobs = \<lparr>pl_pending = jobs, pl_busy = [], pl_executed = [], pl_skipped = [], pl_cancelled = False\<rparr>"

text \<open>A job is handed to a free worker; a worker executes its job unless the context was cancelled; a
  cancelled context ends the hand-out, whatever jobs are left.\<close>

inductive poolStep :: "nat \<Rightarrow> 'a pool \<Rightarrow> 'a pool \<Rightarrow> bool" for width where
  hand: "pl_pending p = j # rest \<Longrightarrow> length (pl_busy p) < width \<Longrightarrow>
    poolStep width p (p\<lparr>pl_pending := rest, pl_busy := j # pl_busy p\<rparr>)"
| run: "j \<in> set (pl_busy p) \<Longrightarrow> \<not> pl_cancelled p \<Longrightarrow>
    poolStep width p (p\<lparr>pl_busy := remove1 j (pl_busy p), pl_executed := pl_executed p @ [j]\<rparr>)"
| skip: "j \<in> set (pl_busy p) \<Longrightarrow> pl_cancelled p \<Longrightarrow>
    poolStep width p (p\<lparr>pl_busy := remove1 j (pl_busy p), pl_skipped := j # pl_skipped p\<rparr>)"
| cancel: "poolStep width p (p\<lparr>pl_cancelled := True\<rparr>)"
| stop: "pl_cancelled p \<Longrightarrow> poolStep width p (p\<lparr>pl_pending := [], pl_skipped := pl_pending p @ pl_skipped p\<rparr>)"

inductive poolReach :: "nat \<Rightarrow> 'a list \<Rightarrow> 'a pool \<Rightarrow> bool" for width jobs where
  start: "poolReach width jobs (initialPool jobs)"
| step: "poolReach width jobs p \<Longrightarrow> poolStep width p q \<Longrightarrow> poolReach width jobs q"

definition poolFinished :: "'a pool \<Rightarrow> bool" where
  "poolFinished p \<longleftrightarrow> pl_pending p = [] \<and> pl_busy p = []"

section \<open>Invariant of the site loop\<close>

definition wfLoop :: "siteLoop \<Rightarrow> bool" where
  "wfLoop l \<longleftrightarrow> distinct (sl_queue l @ sl_active l @ sl_done l) \<and>
     sl_queued l = set (sl_queue l) \<union> set (sl_active l) \<union> set (sl_done l) \<and>
     sl_running l = length (sl_active l) + length (sl_done l) \<and> sl_running l \<le> maxRunning"

definition saturated :: "siteLoop \<Rightarrow> bool" where
  "saturated l \<longleftrightarrow> sl_queue l = [] \<or> sl_running l = maxRunning"

lemma wf_push: "wfLoop l \<Longrightarrow> wfLoop (pushSite i l)"
  by (auto simp: wfLoop_def pushSite_def)

lemma wf_enqueueSite: "wfLoop (fst lw) \<Longrightarrow> wfLoop (fst (enqueueSite E perSite i lw))"
  by (auto simp: enqueueSite_def Let_def wf_push split: prod.split sum.split)

lemma wf_enqueue: "wfLoop l \<Longrightarrow> wfLoop (fst (enqueue E perSite l w))"
proof -
  have "wfLoop (fst lw) \<Longrightarrow> wfLoop (fst (foldl (\<lambda>lw i. enqueueSite E perSite i lw) lw ids))" for lw ids
    by (induction ids arbitrary: lw) (simp_all add: wf_enqueueSite)
  then show "wfLoop l \<Longrightarrow> wfLoop (fst (enqueue E perSite l w))" by (simp add: enqueue_def Let_def split: sum.split)
qed

lemma wf_startFrom: "wfLoop (l\<lparr>sl_queue := q\<rparr>) \<Longrightarrow> wfLoop (fst (startFrom E q l w)) \<and> saturated (fst (startFrom E q l w))"
proof (induction q arbitrary: l w)
  case (Cons i q)
  show ?case
  proof (cases "sl_running l < maxRunning")
    case True
    let ?l = "l\<lparr>sl_lastStarted := (sl_lastStarted l)(i := clock E (trace w)), sl_running := sl_running l + 1,
      sl_active := sl_active l @ [i]\<rparr>"
    have "wfLoop (?l\<lparr>sl_queue := q\<rparr>)" using Cons.prems True by (auto simp: wfLoop_def)
    then show ?thesis using Cons.IH True by simp
  next
    case False
    then show ?thesis using Cons.prems by (auto simp: saturated_def wfLoop_def)
  qed
qed (simp add: saturated_def)

lemma wf_startSites: "wfLoop l \<Longrightarrow> wfLoop (fst (startSites E l w)) \<and> saturated (fst (startSites E l w))"
  using wf_startFrom[where l = l and q = "sl_queue l"] by (simp add: startSites_def)

lemma wf_siteStep:
  assumes "siteStep E perSite x y" "wfLoop (fst x)" "saturated (fst x)"
  shows "wfLoop (fst y) \<and> saturated (fst y)"
  using assms
proof (cases rule: siteStep.cases)
  case (evaluated i l w w')
  then have "length (remove1 i (sl_active l)) = length (sl_active l) - 1" "0 < length (sl_active l)"
    by (auto simp: length_remove1)
  then show ?thesis using evaluated assms(2,3) by (auto simp: wfLoop_def saturated_def set_remove1_eq)
next
  case (received l i rest w)
  have "wfLoop (receiveDone i (l\<lparr>sl_done := rest\<rparr>))"
    using received assms(2) by (auto simp: wfLoop_def receiveDone_def)
  then show ?thesis using received wf_startSites by simp
next
  case (ticked l w l' w')
  then show ?thesis using wf_enqueue[of l E perSite w] wf_startSites assms(2) by simp
qed

lemma wf_initial: "wfLoop initialLoop"
  by (simp add: wfLoop_def initialLoop_def)

lemma reach_loop: "siteReach E perSite x \<Longrightarrow> wfLoop (fst x) \<and> saturated (fst x)"
proof (induction rule: siteReach.induct)
  case (start w l w')
  then show ?case using wf_enqueue[OF wf_initial, of E perSite w] wf_startSites by simp
next
  case (step x y)
  then show ?case using wf_siteStep by blast
qed

section \<open>Invariant of the pool\<close>

definition wfPool :: "nat \<Rightarrow> 'a list \<Rightarrow> 'a pool \<Rightarrow> bool" where
  "wfPool width jobs p \<longleftrightarrow>
     mset (pl_executed p) + mset (pl_skipped p) + mset (pl_busy p) + mset (pl_pending p) = mset jobs \<and>
     length (pl_busy p) \<le> width \<and> (\<not> pl_cancelled p \<longrightarrow> pl_skipped p = [])"

lemma wf_poolStep: "poolStep width p q \<Longrightarrow> wfPool width jobs p \<Longrightarrow> wfPool width jobs q"
proof (induction rule: poolStep.induct)
  case (run j p)
  then show ?case by (auto simp: wfPool_def length_remove1)
next
  case (skip j p)
  then show ?case by (auto simp: wfPool_def length_remove1)
qed (auto simp: wfPool_def ac_simps)

lemma reach_pool: "poolReach width jobs p \<Longrightarrow> wfPool width jobs p"
proof (induction rule: poolReach.induct)
  case start
  then show ?case by (simp add: wfPool_def initialPool_def)
next
  case (step p q)
  then show ?case using wf_poolStep by blast
qed

section \<open>Properties\<close>

text \<open>A loop with one enabled site: it is started at once.\<close>

lemma example_loop:
  fixes w :: world
  assumes "listEnabledSites E (trace w) = Inl [i]"
  shows "\<exists>w'. siteReach E False (initialLoop\<lparr>sl_queued := {i}, sl_running := 1, sl_active := [i],
      sl_lastStarted := (\<lambda>x. 0)(i := clock E (ListEnabledSites # trace w))\<rparr>, w')"
proof -
  let ?l = "initialLoop\<lparr>sl_queued := {i}, sl_queue := [i]\<rparr>"
  have "enqueue E False initialLoop w = (?l, emit ListEnabledSites w)"
    using assms by (simp add: enqueue_def enqueueSite_def pushSite_def initialLoop_def)
  from siteReach.start[OF this] show ?thesis
    by (auto simp: startSites_def initialLoop_def maxRunning_def)
qed

text \<open>C39: evaluations of sites never overlap: in every reachable state of the loop at most four sites are
  evaluated or waiting to be collected, no site is evaluated twice at a time or queued while it is
  evaluated, the \<open>done\<close> channel never fills up (so no evaluation blocks), and no site waits while there
  is room.\<close>

theorem sites_never_overlap:
  assumes "siteReach E perSite (l, w)"
  shows "distinct (sl_queue l @ sl_active l @ sl_done l) \<and>
    length (sl_active l) + length (sl_done l) = sl_running l \<and> sl_running l \<le> 4 \<and>
    (sl_queue l = [] \<or> sl_running l = 4)"
  using reach_loop[OF assms] by (auto simp: wfLoop_def saturated_def maxRunning_def)

theorem sites_never_overlap_witness:
  "\<exists>l w'. siteReach exampleEnv False (l, w') \<and> sl_active l = [''site''] \<and> sl_running l \<le> 4"
proof -
  have "listEnabledSites exampleEnv (trace exampleWorld) = Inl [''site'']" by (simp add: exampleEnv_def)
  from example_loop[OF this] obtain w' where r: "siteReach exampleEnv False
      (initialLoop\<lparr>sl_queued := {''site''}, sl_running := 1, sl_active := [''site''],
      sl_lastStarted := (\<lambda>x. 0)(''site'' := clock exampleEnv (ListEnabledSites # trace exampleWorld))\<rparr>, w')" by blast
  then show ?thesis using sites_never_overlap[OF r] by (intro exI conjI) auto
qed

text \<open>the pool of channel workers runs every job exactly once: at most the configured number of jobs
  runs at a time, no job is lost or run twice, and unless the context was cancelled a finished pool has
  executed exactly the jobs it was given.\<close>

theorem pool_runs_each_job_once:
  assumes "poolReach (poolWidth parallelism (length jobs)) jobs p"
  shows "int (length (pl_busy p)) \<le> max 1 parallelism \<and>
    mset (pl_executed p) \<subseteq># mset jobs \<and>
    (poolFinished p \<and> \<not> pl_cancelled p \<longrightarrow> mset (pl_executed p) = mset jobs)"
proof -
  have wf: "wfPool (poolWidth parallelism (length jobs)) jobs p" by (rule reach_pool[OF assms])
  then have "mset (pl_executed p) + (mset (pl_skipped p) + mset (pl_busy p) + mset (pl_pending p)) = mset jobs"
    by (simp add: wfPool_def add.assoc)
  then have "mset (pl_executed p) \<subseteq># mset jobs" by (metis mset_subset_eq_add_left)
  moreover have "int (length (pl_busy p)) \<le> max 1 parallelism" using wf by (auto simp: wfPool_def poolWidth_def)
  ultimately show ?thesis using wf by (auto simp: wfPool_def poolFinished_def)
qed

theorem pool_runs_each_job_once_witness:
  "\<exists>p. poolReach (poolWidth 4 2) [''a'', ''b''] p \<and> pl_busy p = [''a''] \<and> int (length (pl_busy p)) \<le> 4"
proof -
  let ?p = "(initialPool [''a'', ''b''])\<lparr>pl_pending := [''b''], pl_busy := [''a'']\<rparr>"
  have "poolStep (poolWidth 4 2) (initialPool [''a'', ''b'']) ?p"
    using poolStep.hand[of "initialPool [''a'', ''b'']" "''a''" "[''b'']" "poolWidth 4 2"]
    by (simp add: initialPool_def poolWidth_def)
  then have r: "poolReach (poolWidth 4 2) [''a'', ''b''] ?p" using poolReach.intros by blast
  then show ?thesis using pool_runs_each_job_once[of 4 "[''a'', ''b'']" ?p] by (intro exI[of _ ?p]) (simp add: initialPool_def numeral_eq_Suc)
qed

end
