(* ===== verification/ProbeStore.thy ===== *)
theory ProbeStore
  imports AssocMaps
begin

text \<open>
  Batched upserts (\<open>StoreRoutineProbeCoverage\<close> and \<open>StoreProbeRecords\<close> of
  \<open>server/internal/mysqlstore\<close>).  A table is a map from primary keys to rows.  Rows are written in batches
  of 200, each by one \<open>INSERT ... ON DUPLICATE KEY UPDATE\<close> statement; a statement can be committed, be
  rejected, or be committed although the client sees an error.  The locale \<open>snapshot_table\<close> is what the
  buffers rely on: a row that the table may hold is absorbed by the newer snapshot of the same key.
\<close>

datatype dbOutcome = Committed | Rejected | Ambiguous

text \<open>One statement: the rows are upserted in the order of the list.\<close>

definition upsertAll :: "('v \<Rightarrow> 'k) \<Rightarrow> ('r option \<Rightarrow> 'v \<Rightarrow> 'r) \<Rightarrow> 'v list \<Rightarrow> ('k \<rightharpoonup> 'r) \<Rightarrow> ('k \<rightharpoonup> 'r)" where
  "upsertAll key ups vs table = foldl (\<lambda>t v. t(key v \<mapsto> ups (t (key v)) v)) table vs"

definition batchSize :: nat where
  "batchSize = 200"

text \<open>The loop over the batches; \<open>outcome n\<close> is what happens to the \<open>n\<close>th statement.  It stops at the first
  error, with the earlier batches committed.\<close>

function storeBatches ::
    "('v \<Rightarrow> 'k) \<Rightarrow> ('r option \<Rightarrow> 'v \<Rightarrow> 'r) \<Rightarrow> (nat \<Rightarrow> dbOutcome) \<Rightarrow> nat \<Rightarrow> 'v list \<Rightarrow> ('k \<rightharpoonup> 'r) \<Rightarrow> bool \<times> ('k \<rightharpoonup> 'r)" where
  "storeBatches key ups outcome n vs table =
     (if vs = [] then (True, table)
      else let written = upsertAll key ups (take batchSize vs) table
           in case outcome n of
                Committed \<Rightarrow> storeBatches key ups outcome (Suc n) (drop batchSize vs) written
              | Rejected \<Rightarrow> (False, table)
              | Ambiguous \<Rightarrow> (False, written))"
  by pat_completeness auto
termination
  by (relation "measure (\<lambda>(_, _, _, _, vs, _). length vs)") (auto simp: batchSize_def)

declare storeBatches.simps [simp del]

lemma upsertAll_simps [simp]:
  "upsertAll key ups [] table = table"
  "upsertAll key ups (v # vs) table = upsertAll key ups vs (table(key v \<mapsto> ups (table (key v)) v))"
  by (simp_all add: upsertAll_def)

lemma upsertAll_append: "upsertAll key ups (xs @ ys) table = upsertAll key ups ys (upsertAll key ups xs table)"
  by (simp add: upsertAll_def)

lemma upsertAll_other: "k \<notin> key ` set vs \<Longrightarrow> upsertAll key ups vs table k = table k"
  by (induction vs arbitrary: table) auto

lemma upsertAll_at: "distinct (map key vs) \<Longrightarrow> v \<in> set vs \<Longrightarrow> upsertAll key ups vs table (key v) = Some (ups (table (key v)) v)"
proof (induction vs arbitrary: table)
  case (Cons x vs)
  then show ?case
  proof (cases "v = x")
    case True
    then show ?thesis using Cons.prems(1) by (simp add: upsertAll_other)
  next
    case False
    have "key x \<notin> key ` set vs" using Cons.prems(1) by simp
    moreover have "v \<in> set vs" using False Cons.prems(2) by simp
    ultimately have "v \<in> set vs" "key v \<noteq> key x" by (blast, metis imageI)
    then show ?thesis using Cons by simp
  qed
qed simp

text \<open>However the statements end, the table holds the upserts of a prefix of the list, and of the whole list
  when no error is reported.\<close>

lemma storeBatches_prefix:
  "\<exists>m \<le> length vs. snd (storeBatches key ups outcome n vs table) = upsertAll key ups (take m vs) table \<and>
     (fst (storeBatches key ups outcome n vs table) \<longrightarrow> m = length vs)"
proof (induction key ups outcome n vs table rule: storeBatches.induct)
  case (1 key ups outcome n vs table)
  show ?case
  proof (cases "vs = []")
    case True
    then show ?thesis by (simp add: storeBatches.simps)
  next
    case False
    let ?w = "upsertAll key ups (take batchSize vs) table"
    show ?thesis
    proof (cases "outcome n")
      case Committed
      from 1[OF False refl Committed] obtain m where m: "m \<le> length (drop batchSize vs)"
        "snd (storeBatches key ups outcome (Suc n) (drop batchSize vs) ?w) = upsertAll key ups (take m (drop batchSize vs)) ?w"
        "fst (storeBatches key ups outcome (Suc n) (drop batchSize vs) ?w) \<longrightarrow> m = length (drop batchSize vs)" by blast
      have t: "take (min (length vs) (batchSize + m)) vs = take batchSize vs @ take m (drop batchSize vs)"
        by (simp add: take_add min_def)
      show ?thesis
        by (rule exI[of _ "min (length vs) (batchSize + m)"]) (use False Committed m in
          \<open>simp add: storeBatches.simps[of key ups outcome n vs] t upsertAll_append; auto simp: min_def\<close>)
    next
      case Rejected
      then show ?thesis using False by (intro exI[of _ 0]) (simp add: storeBatches.simps)
    next
      case Ambiguous
      have "take (min (length vs) batchSize) vs = take batchSize vs" by (simp add: min_def)
      then show ?thesis using False Ambiguous
        by (intro exI[of _ "min (length vs) batchSize"]) (simp add: storeBatches.simps)
    qed
  qed
qed

text \<open>What a reader of the table finds at one key.\<close>

lemma storeBatches_at:
  assumes d: "distinct (map key vs)" and s: "storeBatches key ups outcome n vs table = (done, table')"
  shows "v \<in> set vs \<Longrightarrow> table' (key v) = Some (ups (table (key v)) v) \<or> \<not> done \<and> table' (key v) = table (key v)"
    and "k \<notin> key ` set vs \<Longrightarrow> table' k = table k"
proof -
  obtain m where m: "m \<le> length vs" "table' = upsertAll key ups (take m vs) table" "done \<longrightarrow> m = length vs"
    using storeBatches_prefix[of vs key ups outcome n table] s by auto
  have dm: "distinct (map key (take m vs))" using d by (metis distinct_take take_map)
  have sub: "key ` set (take m vs) \<subseteq> key ` set vs" by (auto dest: in_set_takeD)
  show "k \<notin> key ` set vs \<Longrightarrow> table' k = table k"
    using m(2) upsertAll_other[of k key "take m vs" ups table] sub by blast
  show "table' (key v) = Some (ups (table (key v)) v) \<or> \<not> done \<and> table' (key v) = table (key v)" if v: "v \<in> set vs"
  proof (cases "v \<in> set (take m vs)")
    case True
    then show ?thesis using upsertAll_at[OF dm] m(2) by blast
  next
    case False
    have "key v \<notin> key ` set (take m vs)"
      using v False d by (metis distinct_map image_iff in_set_takeD inj_on_def)
    then show ?thesis using upsertAll_other[of "key v" key "take m vs"] m v False by auto
  qed
qed

section \<open>Tables of absolute snapshots\<close>

text \<open>\<open>covered r v\<close>: the row may be replaced by the snapshot \<open>v\<close> (it is absent or an older stage of it);
  \<open>row v\<close> is the row the snapshot stands for.\<close>

locale snapshot_table =
  fixes key :: "'v \<Rightarrow> 'k" and ups :: "'r option \<Rightarrow> 'v \<Rightarrow> 'r" and row :: "'v \<Rightarrow> 'r" and covered :: "'r option \<Rightarrow> 'v \<Rightarrow> bool"
  assumes absorbs: "covered r v \<Longrightarrow> ups r v = row v"
    and covers_itself: "covered (Some (row v)) v"
begin

text \<open>A successful write leaves exactly the snapshots; a failed one leaves each row old or new.\<close>

lemma write_rows:
  assumes "distinct (map key vs)" "storeBatches key ups outcome n vs table = (done, table')"
    and "v \<in> set vs" "covered (table (key v)) v"
  shows "table' (key v) = Some (row v) \<or> \<not> done \<and> table' (key v) = table (key v)"
  using storeBatches_at(1)[OF assms(1,2,3)] absorbs[OF assms(4)] by simp

text \<open>A failed write can be repeated: afterwards every snapshot is covered again.\<close>

lemma write_keeps_covered:
  assumes "distinct (map key vs)" "storeBatches key ups outcome n vs table = (done, table')"
    and "v \<in> set vs" "covered (table (key v)) v"
  shows "covered (table' (key v)) v"
  using write_rows[OF assms] covers_itself assms(4) by auto

text \<open>Hence a retry after an error gives the table a first success would have given.\<close>

lemma retry_is_idempotent:
  assumes d: "distinct (map key vs)" and first: "storeBatches key ups outcome n vs table = (done, table')"
    and second: "storeBatches key ups outcome' m vs table' = (True, table'')"
    and direct: "storeBatches key ups outcome'' l vs table = (True, direct)"
    and c: "\<forall>v \<in> set vs. covered (table (key v)) v"
  shows "table'' = direct"
proof
  fix k
  show "table'' k = direct k"
  proof (cases "k \<in> key ` set vs")
    case True
    then obtain v where v: "v \<in> set vs" "k = key v" by blast
    then show ?thesis
      using write_rows[OF d second v(1) write_keeps_covered[OF d first v(1)]] write_rows[OF d direct v(1)] c by auto
  next
    case False
    then show ?thesis
      using storeBatches_at(2)[OF d first False] storeBatches_at(2)[OF d second False] storeBatches_at(2)[OF d direct False]
      by simp
  qed
qed

end

end
