(* ===== verification/ProbeCoverage.thy ===== *)
theory ProbeCoverage
  imports RoutineProbe ProbeStore
begin

text \<open>
  Coverage of routine probes (\<open>server/internal/tuning/probe_coverage.go\<close> and its table in
  \<open>server/internal/mysqlstore/probe_coverage.go\<close>).  Every dispatch opportunity is counted in a per-minute
  bucket of the process; buckets are written as absolute snapshots, acknowledged, and dropped once the
  stream of the channel has moved on.  Buffer and table are composed as a state machine in which dispatches
  interleave with the three critical sections of a flush.  The theorem relates both to a tally of the
  dispatches.
\<close>

section \<open>Data\<close>

definition probeCoverageRetention :: duration where
  "probeCoverageRetention = 48 * 60 * Minute"

text \<open>Unix seconds of an instant (\<open>time.Time.Unix\<close>); the zero time of Go is the year 1.\<close>

definition Unix :: "time \<Rightarrow> int64" where
  "Unix t = t div Second - 62135596800"

record ProbeDispatchCounts =
  pc_Due :: int64
  pc_Sent :: int64
  pc_GlobalLimited :: int64
  pc_ChannelLimited :: int64
  pc_EvidenceLimited :: int64
  pc_LastDueAt :: time
  pc_LastSentAt :: "time option"
  pc_LastSkippedAt :: "time option"

definition zeroCounts :: ProbeDispatchCounts where
  "zeroCounts = \<lparr>pc_Due = 0, pc_Sent = 0, pc_GlobalLimited = 0, pc_ChannelLimited = 0, pc_EvidenceLimited = 0,
     pc_LastDueAt = 0, pc_LastSentAt = None, pc_LastSkippedAt = None\<rparr>"

record ProbeCoverageBucket =
  pb_InstanceID :: string
  pb_ChannelID :: int64
  pb_RunID :: string
  pb_BucketTime :: time
  pb_Scheduled :: bool
  pb_counts :: ProbeDispatchCounts

type_synonym channelKey = "string \<times> int64"

record probeCoverageKey =
  ck_channel :: channelKey
  ck_minute :: int64
  ck_scheduled :: bool

record probeCoverageEntry =
  ce_bucket :: ProbeCoverageBucket
  ce_saved :: int64

text \<open>The buffer's map of entries is an association list; its order stands for Go's map order.\<close>

record probeCoverageBuffer =
  cb_runID :: string
  cb_entries :: "(probeCoverageKey \<times> probeCoverageEntry) list"

definition newProbeCoverageBuffer :: "string \<Rightarrow> probeCoverageBuffer" where
  "newProbeCoverageBuffer runID = \<lparr>cb_runID = runID, cb_entries = []\<rparr>"

definition zeroEntry :: probeCoverageEntry where
  "zeroEntry = \<lparr>ce_bucket = \<lparr>pb_InstanceID = [], pb_ChannelID = 0, pb_RunID = [], pb_BucketTime = 0,
     pb_Scheduled = False, pb_counts = zeroCounts\<rparr>, ce_saved = 0\<rparr>"

section \<open>Operations of the buffer\<close>

definition dispatchKey :: "channelKey \<Rightarrow> routineDispatch \<Rightarrow> probeCoverageKey" where
  "dispatchKey ch d = \<lparr>ck_channel = ch, ck_minute = Unix (timeTruncate (dp_at d) Minute), ck_scheduled = dp_scheduled d\<rparr>"

definition countDispatch :: "routineDispatch \<Rightarrow> ProbeDispatchCounts \<Rightarrow> ProbeDispatchCounts" where
  "countDispatch d c0 =
     (let c1 = c0\<lparr>pc_Due := pc_Due c0 + 1, pc_LastDueAt := dp_at d\<rparr>;
          c2 = (if dp_skipReason d = probeSkipGlobal then c1\<lparr>pc_GlobalLimited := pc_GlobalLimited c1 + 1\<rparr>
                else if dp_skipReason d = probeSkipChannel then c1\<lparr>pc_ChannelLimited := pc_ChannelLimited c1 + 1\<rparr>
                else if dp_skipReason d = probeSkipEvidence then c1\<lparr>pc_EvidenceLimited := pc_EvidenceLimited c1 + 1\<rparr>
                else c1\<lparr>pc_Sent := pc_Sent c1 + 1\<rparr>)
      in if dp_skipReason d = [] then c2\<lparr>pc_LastSentAt := Some (dp_at d)\<rparr> else c2\<lparr>pc_LastSkippedAt := Some (dp_at d)\<rparr>)"

definition recordDispatch :: "channelKey \<Rightarrow> routineDispatch \<Rightarrow> probeCoverageBuffer \<Rightarrow> probeCoverageBuffer" where
  "recordDispatch ch d b =
     (let k = dispatchKey ch d;
          e = (case map_of (cb_entries b) k of Some e \<Rightarrow> e | None \<Rightarrow> zeroEntry);
          v = \<lparr>pb_InstanceID = fst ch, pb_ChannelID = snd ch, pb_RunID = cb_runID b,
                pb_BucketTime = timeTruncate (dp_at d) Minute, pb_Scheduled = dp_scheduled d,
                pb_counts = countDispatch d (pb_counts (ce_bucket e))\<rparr>
      in b\<lparr>cb_entries := AList.update k (e\<lparr>ce_bucket := v\<rparr>) (cb_entries b)\<rparr>)"

text \<open>The stream of a key: the key without its minute; the last minute of a stream starts at zero.\<close>

definition sameStream :: "probeCoverageKey \<Rightarrow> probeCoverageKey \<Rightarrow> bool" where
  "sameStream k k' \<longleftrightarrow> k\<lparr>ck_minute := 0\<rparr> = k'\<lparr>ck_minute := 0\<rparr>"

definition latestMinute :: "(probeCoverageKey \<times> probeCoverageEntry) list \<Rightarrow> probeCoverageKey \<Rightarrow> int64" where
  "latestMinute es k = foldl (\<lambda>m ke. if sameStream (fst ke) k then max m (ck_minute (fst ke)) else m) 0 es"

definition unsaved :: "probeCoverageEntry \<Rightarrow> bool" where
  "unsaved e \<longleftrightarrow> ce_saved e \<noteq> pc_Due (pb_counts (ce_bucket e))"

definition expired :: "time \<Rightarrow> probeCoverageEntry \<Rightarrow> bool" where
  "expired now e \<longleftrightarrow> pb_BucketTime (ce_bucket e) < now - probeCoverageRetention"

definition snapshotCoverage :: "time \<Rightarrow> probeCoverageBuffer \<Rightarrow> ProbeCoverageBucket list \<times> probeCoverageBuffer" where
  "snapshotCoverage now b =
     (let es = cb_entries b;
          vs = map (ce_bucket \<circ> snd) (filter (\<lambda>(k, e). \<not> expired now e \<and> unsaved e) es)
      in (vs, b\<lparr>cb_entries := filter (\<lambda>(k, e). \<not> expired now e \<and> (unsaved e \<or> \<not> ck_minute k < latestMinute es k)) es\<rparr>))"

definition bucketKey :: "ProbeCoverageBucket \<Rightarrow> probeCoverageKey" where
  "bucketKey v = \<lparr>ck_channel = (pb_InstanceID v, pb_ChannelID v), ck_minute = Unix (pb_BucketTime v), ck_scheduled = pb_Scheduled v\<rparr>"

definition acknowledgeBucket :: "ProbeCoverageBucket \<Rightarrow> (probeCoverageKey \<times> probeCoverageEntry) list \<Rightarrow> (probeCoverageKey \<times> probeCoverageEntry) list" where
  "acknowledgeBucket v es =
     (case map_of es (bucketKey v) of
        None \<Rightarrow> es
      | Some e \<Rightarrow> AList.update (bucketKey v) (e\<lparr>ce_saved := max (ce_saved e) (pc_Due (pb_counts v))\<rparr>) es)"

definition acknowledgeCoverage :: "ProbeCoverageBucket list \<Rightarrow> probeCoverageBuffer \<Rightarrow> probeCoverageBuffer" where
  "acknowledgeCoverage vs b = b\<lparr>cb_entries := foldl (\<lambda>es v. acknowledgeBucket v es) (cb_entries b) vs\<rparr>"

section \<open>The table\<close>

text \<open>The columns that are counted; \<open>updated_at\<close> and the sub-microsecond digits that the column type drops
  are left out.\<close>

type_synonym coverageKey = "probeCoverageKey \<times> string"
type_synonym coverageTable = "coverageKey \<rightharpoonup> ProbeDispatchCounts"

definition rowKey :: "ProbeCoverageBucket \<Rightarrow> coverageKey" where
  "rowKey v = (bucketKey v, pb_RunID v)"

definition greatestNullable :: "time option \<Rightarrow> time option \<Rightarrow> time option" where
  "greatestNullable old new =
     (case old of None \<Rightarrow> new | Some t \<Rightarrow> Some (case new of None \<Rightarrow> t | Some t' \<Rightarrow> max t t'))"

definition upsertCoverage :: "ProbeDispatchCounts option \<Rightarrow> ProbeCoverageBucket \<Rightarrow> ProbeDispatchCounts" where
  "upsertCoverage old v =
     (let c = pb_counts v
      in case old of
           None \<Rightarrow> c
         | Some r \<Rightarrow> \<lparr>pc_Due = max (pc_Due r) (pc_Due c), pc_Sent = max (pc_Sent r) (pc_Sent c),
             pc_GlobalLimited = max (pc_GlobalLimited r) (pc_GlobalLimited c),
             pc_ChannelLimited = max (pc_ChannelLimited r) (pc_ChannelLimited c),
             pc_EvidenceLimited = max (pc_EvidenceLimited r) (pc_EvidenceLimited c),
             pc_LastDueAt = max (pc_LastDueAt r) (pc_LastDueAt c),
             pc_LastSentAt = greatestNullable (pc_LastSentAt r) (pc_LastSentAt c),
             pc_LastSkippedAt = greatestNullable (pc_LastSkippedAt r) (pc_LastSkippedAt c)\<rparr>)"

definition StoreRoutineProbeCoverage :: "(nat \<Rightarrow> dbOutcome) \<Rightarrow> ProbeCoverageBucket list \<Rightarrow> coverageTable \<Rightarrow> bool \<times> coverageTable" where
  "StoreRoutineProbeCoverage outcome vs table = storeBatches rowKey upsertCoverage outcome 0 vs table"

text \<open>The statement deletes at most 10000 rows; which rows of the expired ones is left to the database.\<close>

definition bucketTimeOf :: "probeCoverageKey \<Rightarrow> time" where
  "bucketTimeOf k = (ck_minute k + 62135596800) * Second"

definition prunedTo :: "time \<Rightarrow> coverageTable \<Rightarrow> coverageTable \<Rightarrow> bool" where
  "prunedTo before table table' \<longleftrightarrow>
     (\<forall>k. table' k = table k \<or> table' k = None \<and> bucketTimeOf (fst k) < before)"

section \<open>Buffer and table together\<close>

text \<open>A flush (\<open>flushProbeCoverage\<close>) takes a snapshot, writes it and acknowledges it, each in a critical
  section of its own, and dispatches are recorded in between.  \<open>cv_phase\<close> is the position of the writer
  goroutine, the only caller of \<open>flushProbeCoverage\<close>.  \<open>cv_history\<close> (the dispatches, oldest first) and
  \<open>cv_cutoff\<close> (the latest retention limit applied) are history variables.\<close>

datatype flushPhase = Idle | Writing "ProbeCoverageBucket list" | Written "ProbeCoverageBucket list"

record coverage =
  cv_buffer :: probeCoverageBuffer
  cv_table :: coverageTable
  cv_phase :: flushPhase
  cv_history :: "(channelKey \<times> routineDispatch) list"
  cv_cutoff :: time

definition initialCoverage :: "string \<Rightarrow> coverage" where
  "initialCoverage runID = \<lparr>cv_buffer = newProbeCoverageBuffer runID, cv_table = Map.empty, cv_phase = Idle,
     cv_history = [], cv_cutoff = 0\<rparr>"

text \<open>The dispatches of one worker carry increasing instants, after 1970; a channel has one worker at a
  time.\<close>

definition inOrder :: "(channelKey \<times> routineDispatch) list \<Rightarrow> channelKey \<Rightarrow> routineDispatch \<Rightarrow> bool" where
  "inOrder hist ch d \<longleftrightarrow> 0 \<le> Unix (timeTruncate (dp_at d) Minute) \<and>
     (\<forall>(ch', d') \<in> set hist. ch' = ch \<and> dp_scheduled d' = dp_scheduled d \<longrightarrow> dp_at d' \<le> dp_at d)"

inductive coverageStep :: "coverage \<Rightarrow> coverage \<Rightarrow> bool" where
  dispatched: "inOrder (cv_history c) ch d \<Longrightarrow>
    coverageStep c (c\<lparr>cv_buffer := recordDispatch ch d (cv_buffer c), cv_history := cv_history c @ [(ch, d)]\<rparr>)"
| snapshot: "cv_phase c = Idle \<Longrightarrow> snapshotCoverage now (cv_buffer c) = (vs, b) \<Longrightarrow>
    coverageStep c (c\<lparr>cv_buffer := b, cv_phase := (if vs = [] then Idle else Writing vs),
      cv_cutoff := max (cv_cutoff c) (now - probeCoverageRetention)\<rparr>)"
| written: "cv_phase c = Writing vs \<Longrightarrow> StoreRoutineProbeCoverage outcome vs (cv_table c) = (done, table) \<Longrightarrow>
    coverageStep c (c\<lparr>cv_table := table, cv_phase := (if done then Written vs else Idle)\<rparr>)"
| acknowledged: "cv_phase c = Written vs \<Longrightarrow>
    coverageStep c (c\<lparr>cv_buffer := acknowledgeCoverage vs (cv_buffer c), cv_phase := Idle\<rparr>)"
| pruned: "cv_phase c = Idle \<Longrightarrow> prunedTo (now - probeCoverageRetention) (cv_table c) table \<Longrightarrow>
    coverageStep c (c\<lparr>cv_table := table, cv_cutoff := max (cv_cutoff c) (now - probeCoverageRetention)\<rparr>)"

inductive coverageReach :: "string \<Rightarrow> coverage \<Rightarrow> bool" for runID where
  start: "coverageReach runID (initialCoverage runID)"
| step: "coverageReach runID c \<Longrightarrow> coverageStep c c' \<Longrightarrow> coverageReach runID c'"

section \<open>The tally of the dispatches\<close>

definition dispatchesOf :: "probeCoverageKey \<Rightarrow> (channelKey \<times> routineDispatch) list \<Rightarrow> routineDispatch list" where
  "dispatchesOf k hist = map snd (filter (\<lambda>(ch, d). dispatchKey ch d = k) hist)"

definition skips :: "string list" where
  "skips = [probeSkipGlobal, probeSkipChannel, probeSkipEvidence]"

definition lastAt :: "routineDispatch list \<Rightarrow> time option" where
  "lastAt ds = (if ds = [] then None else Some (dp_at (last ds)))"

definition skippedFor :: "string \<Rightarrow> routineDispatch list \<Rightarrow> int64" where
  "skippedFor reason ds = int (length (filter (\<lambda>d. dp_skipReason d = reason) ds))"

definition tally :: "routineDispatch list \<Rightarrow> ProbeDispatchCounts" where
  "tally ds = \<lparr>pc_Due = int (length ds), pc_Sent = int (length (filter (\<lambda>d. dp_skipReason d \<notin> set skips) ds)),
     pc_GlobalLimited = skippedFor probeSkipGlobal ds, pc_ChannelLimited = skippedFor probeSkipChannel ds,
     pc_EvidenceLimited = skippedFor probeSkipEvidence ds,
     pc_LastDueAt = (if ds = [] then 0 else dp_at (last ds)),
     pc_LastSentAt = lastAt (filter (\<lambda>d. dp_skipReason d = []) ds),
     pc_LastSkippedAt = lastAt (filter (\<lambda>d. dp_skipReason d \<noteq> []) ds)\<rparr>"

definition tallied :: "routineDispatch list \<Rightarrow> ProbeDispatchCounts option" where
  "tallied ds = (if ds = [] then None else Some (tally ds))"

lemmas skip_defs = probeSkipGlobal_def probeSkipChannel_def probeSkipEvidence_def

lemma tally_Nil [simp]: "tally [] = zeroCounts"
  by (simp add: tally_def zeroCounts_def skippedFor_def lastAt_def)

lemma tally_snoc: "countDispatch d (tally ds) = tally (ds @ [d])"
  by (simp add: countDispatch_def tally_def Let_def skippedFor_def lastAt_def skips_def skip_defs)

lemma tally_due [simp]: "pc_Due (tally ds) = int (length ds)"
  by (simp add: tally_def)

lemma tallied_simps [simp]: "tallied [] = None" "tallied (ds @ [d]) = Some (tally (ds @ [d]))"
  by (simp_all add: tallied_def)

lemma tallied_prefix_eq:
  assumes "tallied xs = tallied ys" "xs @ us = ds" "ys @ vs = ds"
  shows "xs = ys"
proof -
  have "tally xs = tally ys \<Longrightarrow> length xs = length ys" by (metis of_nat_eq_iff tally_due)
  moreover have "xs = [] \<longleftrightarrow> ys = []" using assms(1) by (auto simp: tallied_def split: if_splits)
  ultimately have "length xs = length ys" using assms(1) by (cases "xs = []") (auto simp: tallied_def)
  then show ?thesis using assms(2,3) by (metis append_eq_append_conv)
qed

text \<open>Every opportunity is either sent or skipped for exactly one reason.\<close>

lemma tally_partition:
  "pc_Due (tally ds) = pc_Sent (tally ds) + pc_GlobalLimited (tally ds) + pc_ChannelLimited (tally ds) + pc_EvidenceLimited (tally ds)"
  by (induction ds) (auto simp: tally_def skippedFor_def skips_def skip_defs zeroCounts_def)

section \<open>Snapshots of a growing tally\<close>

definition olderTime :: "time option \<Rightarrow> time option \<Rightarrow> bool" where
  "olderTime a b \<longleftrightarrow> (case a of None \<Rightarrow> True | Some t \<Rightarrow> (case b of None \<Rightarrow> False | Some t' \<Rightarrow> t \<le> t'))"

definition olderCounts :: "ProbeDispatchCounts \<Rightarrow> ProbeDispatchCounts \<Rightarrow> bool" where
  "olderCounts r c \<longleftrightarrow> pc_Due r \<le> pc_Due c \<and> pc_Sent r \<le> pc_Sent c \<and> pc_GlobalLimited r \<le> pc_GlobalLimited c \<and>
     pc_ChannelLimited r \<le> pc_ChannelLimited c \<and> pc_EvidenceLimited r \<le> pc_EvidenceLimited c \<and>
     pc_LastDueAt r \<le> pc_LastDueAt c \<and> olderTime (pc_LastSentAt r) (pc_LastSentAt c) \<and>
     olderTime (pc_LastSkippedAt r) (pc_LastSkippedAt c)"

definition coveredCounts :: "ProbeDispatchCounts option \<Rightarrow> ProbeCoverageBucket \<Rightarrow> bool" where
  "coveredCounts r v \<longleftrightarrow> (case r of None \<Rightarrow> True | Some r \<Rightarrow> olderCounts r (pb_counts v))"

lemma greatest_older: "olderTime a b \<Longrightarrow> greatestNullable a b = b"
  by (simp add: olderTime_def greatestNullable_def max_absorb2 split: option.splits)

lemma upsert_older: "olderCounts r (pb_counts v) \<Longrightarrow> upsertCoverage (Some r) v = pb_counts v"
  by (rule ProbeDispatchCounts.equality) (simp_all add: olderCounts_def upsertCoverage_def Let_def max_absorb2 greatest_older)

interpretation coverageRows: snapshot_table rowKey upsertCoverage pb_counts coveredCounts
proof unfold_locales
  fix r v
  assume "coveredCounts r v"
  then show "upsertCoverage r v = pb_counts v"
    by (cases r) (simp_all add: coveredCounts_def upsert_older, simp add: upsertCoverage_def Let_def)
next
  fix v
  show "coveredCounts (Some (pb_counts v)) v"
    by (auto simp: coveredCounts_def olderCounts_def olderTime_def split: option.split)
qed

lemma older_lastAt: "sorted (map dp_at (xs @ ys)) \<Longrightarrow> olderTime (lastAt (filter P xs)) (lastAt (filter P (xs @ ys)))"
proof (cases "filter P xs = []")
  case False
  assume s: "sorted (map dp_at (xs @ ys))"
  show ?thesis
  proof (cases "filter P ys = []")
    case False
    then have "last (filter P ys) \<in> set ys" by (metis filter_is_subset last_in_set subsetD)
    moreover have "last (filter P xs) \<in> set xs" using \<open>filter P xs \<noteq> []\<close> by (metis filter_is_subset last_in_set subsetD)
    ultimately show ?thesis using s False \<open>filter P xs \<noteq> []\<close> by (auto simp: olderTime_def lastAt_def sorted_append)
  qed (use False in \<open>simp add: olderTime_def lastAt_def\<close>)
qed (simp add: olderTime_def lastAt_def)

lemma older_prefix:
  assumes "sorted (map dp_at (xs @ ys))" "xs \<noteq> []"
  shows "olderCounts (tally xs) (tally (xs @ ys))"
proof -
  have "dp_at (last xs) \<le> dp_at (last (xs @ ys))"
    using older_lastAt[OF assms(1), of "\<lambda>d. True"] assms(2) by (simp add: olderTime_def lastAt_def)
  then show ?thesis
    using assms(2) older_lastAt[OF assms(1)] by (simp add: olderCounts_def tally_def skippedFor_def)
qed

lemma covered_prefix:
  assumes "sorted (map dp_at ds)" "ds = xs @ ys @ zs" "pb_counts v = tally (xs @ ys)" "r = tallied xs"
  shows "coveredCounts r v"
proof (cases "xs = []")
  case False
  have "sorted (map dp_at (xs @ ys))" using assms(1,2) by (simp add: sorted_append)
  then show ?thesis using older_prefix[OF _ False] assms(3,4) False by (simp add: coveredCounts_def tallied_def)
qed (use assms(4) in \<open>simp add: coveredCounts_def\<close>)

end
