(* ===== verification/ProbeCoverageProofs.thy ===== *)
theory ProbeCoverageProofs
  imports ProbeCoverage
begin

text \<open>
  The invariant of probe coverage: for every bucket within retention the buffered entry is the tally of the
  dispatches, the stored row is the tally of a prefix of them, and a bucket that left the buffer is
  completely stored and never receives another dispatch.
\<close>

section \<open>Keys and minutes\<close>

lemma bucketTime_dispatch: "bucketTimeOf (dispatchKey ch d) = timeTruncate (dp_at d) Minute"
proof -
  have "Minute dvd timeTruncate (dp_at d) Minute" by (simp add: timeTruncate_def dvd_minus_mod)
  then have "Second dvd timeTruncate (dp_at d) Minute" by (rule dvd_trans[rotated]) simp
  then show ?thesis by (simp add: bucketTimeOf_def dispatchKey_def Unix_def dvd_div_mult_self)
qed

lemma minute_mono: "dp_at d \<le> dp_at d' \<Longrightarrow> ck_minute (dispatchKey ch d) \<le> ck_minute (dispatchKey ch' d')"
proof -
  assume "dp_at d \<le> dp_at d'"
  then have "dp_at d div Minute * Minute \<le> dp_at d' div Minute * Minute" by (simp add: zdiv_mono1)
  then have "timeTruncate (dp_at d) Minute \<le> timeTruncate (dp_at d') Minute"
    by (simp add: timeTruncate_def minus_mod_eq_div_mult)
  then show ?thesis by (simp add: dispatchKey_def Unix_def zdiv_mono1)
qed

lemma bucketTime_less: "ck_minute k < ck_minute k' \<Longrightarrow> bucketTimeOf k < bucketTimeOf k'"
  by (simp add: bucketTimeOf_def)

lemma stream_dispatch: "sameStream (dispatchKey ch d) (dispatchKey ch' d') \<longleftrightarrow> ch = ch' \<and> dp_scheduled d = dp_scheduled d'"
  by (auto simp: sameStream_def dispatchKey_def)

lemma dispatchesOf_snoc:
  "dispatchesOf k (hist @ [(ch, d)]) = dispatchesOf k hist @ (if dispatchKey ch d = k then [d] else [])"
  by (simp add: dispatchesOf_def)

lemma dispatchesOf_mem: "d \<in> set (dispatchesOf k hist) \<longleftrightarrow> (\<exists>ch. (ch, d) \<in> set hist \<and> dispatchKey ch d = k)"
  by (force simp: dispatchesOf_def)

section \<open>The invariant\<close>

definition liveKey :: "coverage \<Rightarrow> probeCoverageKey \<Rightarrow> bool" where
  "liveKey c k \<longleftrightarrow> cv_cutoff c \<le> bucketTimeOf k"

definition orderedHistory :: "(channelKey \<times> routineDispatch) list \<Rightarrow> bool" where
  "orderedHistory hist \<longleftrightarrow> (\<forall>k. sorted (map dp_at (dispatchesOf k hist))) \<and>
     (\<forall>(ch, d) \<in> set hist. 0 \<le> ck_minute (dispatchKey ch d))"

definition superseded :: "(channelKey \<times> routineDispatch) list \<Rightarrow> probeCoverageKey \<Rightarrow> bool" where
  "superseded hist k \<longleftrightarrow> (\<exists>(ch, d) \<in> set hist. sameStream (dispatchKey ch d) k \<and> ck_minute k < ck_minute (dispatchKey ch d))"

text \<open>An entry against the dispatches of its key and the row stored for it.\<close>

definition entryOk :: "routineDispatch list \<Rightarrow> ProbeDispatchCounts option \<Rightarrow> probeCoverageEntry \<Rightarrow> bool" where
  "entryOk ds row e \<longleftrightarrow> ds \<noteq> [] \<and> pb_counts (ce_bucket e) = tally ds \<and>
     (\<exists>ys zs. ds = ys @ zs \<and> ce_saved e \<le> int (length ys) \<and> row = tallied ys)"

definition keyed :: "string \<Rightarrow> probeCoverageKey \<Rightarrow> probeCoverageEntry \<Rightarrow> bool" where
  "keyed r k e \<longleftrightarrow> bucketKey (ce_bucket e) = k \<and> pb_RunID (ce_bucket e) = r \<and> pb_BucketTime (ce_bucket e) = bucketTimeOf k"

definition bufferOk :: "string \<Rightarrow> coverage \<Rightarrow> bool" where
  "bufferOk r c \<longleftrightarrow> cb_runID (cv_buffer c) = r \<and> distinct (map fst (cb_entries (cv_buffer c))) \<and>
     (\<forall>(k, e) \<in> set (cb_entries (cv_buffer c)). keyed r k e)"

definition keyOk :: "string \<Rightarrow> coverage \<Rightarrow> probeCoverageKey \<Rightarrow> bool" where
  "keyOk r c k \<longleftrightarrow>
     (let ds = dispatchesOf k (cv_history c); row = cv_table c (k, r)
      in case map_of (cb_entries (cv_buffer c)) k of
           Some e \<Rightarrow> entryOk ds row e
         | None \<Rightarrow> row = tallied ds \<and> (ds \<noteq> [] \<longrightarrow> superseded (cv_history c) k))"

text \<open>A value being written: the tally of a prefix, not older than the row.\<close>

definition valueOk :: "string \<Rightarrow> coverage \<Rightarrow> bool \<Rightarrow> ProbeCoverageBucket \<Rightarrow> bool" where
  "valueOk r c stored v \<longleftrightarrow>
     pb_RunID v = r \<and>
     (liveKey c (bucketKey v) \<longrightarrow>
       map_of (cb_entries (cv_buffer c)) (bucketKey v) \<noteq> None \<and>
       (\<exists>xs ys zs. dispatchesOf (bucketKey v) (cv_history c) = xs @ ys @ zs \<and> xs @ ys \<noteq> [] \<and>
          pb_counts v = tally (xs @ ys) \<and>
          cv_table c (bucketKey v, r) = tallied (if stored then xs @ ys else xs)))"

definition phaseOk :: "string \<Rightarrow> coverage \<Rightarrow> bool" where
  "phaseOk r c \<longleftrightarrow>
     (case cv_phase c of
        Idle \<Rightarrow> True
      | Writing vs \<Rightarrow> distinct (map rowKey vs) \<and> (\<forall>v \<in> set vs. valueOk r c False v)
      | Written vs \<Rightarrow> (\<forall>v \<in> set vs. valueOk r c True v))"

definition coverageInv :: "string \<Rightarrow> coverage \<Rightarrow> bool" where
  "coverageInv r c \<longleftrightarrow> orderedHistory (cv_history c) \<and> bufferOk r c \<and> (\<forall>k. liveKey c k \<longrightarrow> keyOk r c k) \<and> phaseOk r c"

lemma entry_at: "coverageInv r c \<Longrightarrow> liveKey c k \<Longrightarrow> map_of (cb_entries (cv_buffer c)) k = Some e \<Longrightarrow>
  entryOk (dispatchesOf k (cv_history c)) (cv_table c (k, r)) e"
  unfolding coverageInv_def keyOk_def Let_def by (metis option.simps(5))

lemma inv_initial: "coverageInv r (initialCoverage r)"
  by (simp add: coverageInv_def initialCoverage_def orderedHistory_def dispatchesOf_def bufferOk_def keyOk_def
      phaseOk_def newProbeCoverageBuffer_def)

section \<open>Recording a dispatch\<close>

lemma ordered_snoc:
  assumes "orderedHistory hist" "inOrder hist ch d"
  shows "orderedHistory (hist @ [(ch, d)])"
proof -
  have "dp_at x \<le> dp_at d" if "x \<in> set (dispatchesOf (dispatchKey ch d) hist)" for x
  proof -
    from that obtain ch' where x: "(ch', x) \<in> set hist" "dispatchKey ch' x = dispatchKey ch d" by (auto simp: dispatchesOf_mem)
    then have "ch' = ch" "dp_scheduled x = dp_scheduled d" by (simp_all add: dispatchKey_def)
    then show ?thesis using assms(2) x(1) by (auto simp: inOrder_def)
  qed
  then show ?thesis using assms by (auto simp: orderedHistory_def dispatchesOf_snoc sorted_append inOrder_def dispatchKey_def)
qed

text \<open>A bucket that was superseded gets no further dispatch.\<close>

lemma superseded_closed:
  assumes "inOrder hist ch d"
  shows "\<not> superseded hist (dispatchKey ch d)"
proof
  assume "superseded hist (dispatchKey ch d)"
  then obtain ch' d' where h: "(ch', d') \<in> set hist" "sameStream (dispatchKey ch' d') (dispatchKey ch d)"
    "ck_minute (dispatchKey ch d) < ck_minute (dispatchKey ch' d')" by (auto simp: superseded_def)
  then have "dp_at d' \<le> dp_at d" using assms by (auto simp: inOrder_def stream_dispatch)
  then show False using minute_mono[of d' d ch' ch] h(3) by simp
qed

lemma record_entries:
  "cb_entries (recordDispatch ch d b) = AList.update (dispatchKey ch d)
     (let e = (case map_of (cb_entries b) (dispatchKey ch d) of Some e \<Rightarrow> e | None \<Rightarrow> zeroEntry)
      in e\<lparr>ce_bucket := \<lparr>pb_InstanceID = fst ch, pb_ChannelID = snd ch, pb_RunID = cb_runID b,
             pb_BucketTime = timeTruncate (dp_at d) Minute, pb_Scheduled = dp_scheduled d,
             pb_counts = countDispatch d (pb_counts (ce_bucket e))\<rparr>\<rparr>) (cb_entries b)"
  by (simp add: recordDispatch_def Let_def)

lemma keyed_recorded:
  "keyed r (dispatchKey ch d) (e\<lparr>ce_bucket := \<lparr>pb_InstanceID = fst ch, pb_ChannelID = snd ch, pb_RunID = r,
     pb_BucketTime = timeTruncate (dp_at d) Minute, pb_Scheduled = dp_scheduled d, pb_counts = x\<rparr>\<rparr>)"
  by (simp add: keyed_def bucketKey_def bucketTime_dispatch) (simp add: dispatchKey_def)

lemma keyOk_record:
  assumes "keyOk r c (dispatchKey ch d)" "inOrder (cv_history c) ch d"
  shows "keyOk r (c\<lparr>cv_buffer := recordDispatch ch d (cv_buffer c), cv_history := cv_history c @ [(ch, d)]\<rparr>) (dispatchKey ch d)"
proof (cases "map_of (cb_entries (cv_buffer c)) (dispatchKey ch d)")
  case None
  then have "dispatchesOf (dispatchKey ch d) (cv_history c) = []"
    using assms superseded_closed by (auto simp: keyOk_def Let_def)
  then show ?thesis using None assms(1)
    by (simp add: keyOk_def record_entries Let_def AList.update_conv' dispatchesOf_snoc entryOk_def zeroEntry_def
        tally_snoc[of d "[]", simplified]) (rule exI[of _ "[]"], simp)
next
  case (Some e)
  then obtain ys zs where e: "pb_counts (ce_bucket e) = tally (ys @ zs)"
    "dispatchesOf (dispatchKey ch d) (cv_history c) = ys @ zs" "ce_saved e \<le> int (length ys)"
    "cv_table c (dispatchKey ch d, r) = tallied ys"
    using assms(1) by (auto simp: keyOk_def entryOk_def Let_def)
  have "entryOk ((ys @ zs) @ [d]) (tallied ys) (e\<lparr>ce_bucket := v\<lparr>pb_counts := countDispatch d (pb_counts (ce_bucket e))\<rparr>\<rparr>)" for v
    unfolding entryOk_def using e(3)
    by (intro conjI exI[of _ ys] exI[of _ "zs @ [d]"]) (simp_all add: e(1) tally_snoc flip: append_assoc)
  from this[of "\<lparr>pb_InstanceID = fst ch, pb_ChannelID = snd ch, pb_RunID = cb_runID (cv_buffer c),
      pb_BucketTime = timeTruncate (dp_at d) Minute, pb_Scheduled = dp_scheduled d, pb_counts = zeroCounts\<rparr>"]
  show ?thesis using Some e(2,4)
    by (simp add: keyOk_def record_entries Let_def AList.update_conv' dispatchesOf_snoc)
qed

lemma keyOk_record_other:
  assumes "keyOk r c k" "k \<noteq> dispatchKey ch d"
  shows "keyOk r (c\<lparr>cv_buffer := recordDispatch ch d (cv_buffer c), cv_history := cv_history c @ [(ch, d)]\<rparr>) k"
  using assms by (auto simp: keyOk_def record_entries Let_def AList.update_conv' dispatchesOf_snoc superseded_def split: option.splits)

lemma valueOk_record:
  assumes "valueOk r c stored v"
  shows "valueOk r (c\<lparr>cv_buffer := recordDispatch ch d (cv_buffer c), cv_history := cv_history c @ [(ch, d)]\<rparr>) stored v"
proof (cases "liveKey c (bucketKey v)")
  case True
  then obtain xs ys zs where v: "dispatchesOf (bucketKey v) (cv_history c) = xs @ ys @ zs" "xs @ ys \<noteq> []"
    "pb_counts v = tally (xs @ ys)" "cv_table c (bucketKey v, r) = tallied (if stored then xs @ ys else xs)"
    using assms unfolding valueOk_def by blast
  obtain zs' where z: "dispatchesOf (bucketKey v) (cv_history c @ [(ch, d)]) = xs @ ys @ zs'"
    using v(1) by (simp add: dispatchesOf_snoc)
  have "pb_RunID v = r" "map_of (cb_entries (cv_buffer c)) (bucketKey v) \<noteq> None"
    using assms True unfolding valueOk_def by blast+
  then show ?thesis unfolding valueOk_def using v(2-4) z
    by (intro conjI impI exI[of _ xs] exI[of _ ys] exI[of _ zs']) (simp_all add: record_entries AList.update_conv')
qed (use assms in \<open>simp add: valueOk_def liveKey_def\<close>)

lemma bufferOk_record:
  assumes "bufferOk r c"
  shows "bufferOk r (c\<lparr>cv_buffer := recordDispatch ch d (cv_buffer c), cv_history := h\<rparr>)"
proof -
  have "set (AList.update k x es) \<subseteq> insert (k, x) (set es)" for k x and es :: "(probeCoverageKey \<times> probeCoverageEntry) list"
    by (induction es) auto
  then show ?thesis using assms keyed_recorded[of r ch d]
    by (fastforce simp: bufferOk_def record_entries Let_def AList.distinct_update recordDispatch_def[of ch d "cv_buffer c"])
qed

lemma inv_record:
  assumes "coverageInv r c" "inOrder (cv_history c) ch d"
  shows "coverageInv r (c\<lparr>cv_buffer := recordDispatch ch d (cv_buffer c), cv_history := cv_history c @ [(ch, d)]\<rparr>)" (is "coverageInv r ?c")
proof -
  have "keyOk r ?c k" if "liveKey ?c k" for k
    using that assms keyOk_record keyOk_record_other by (cases "k = dispatchKey ch d") (auto simp: coverageInv_def liveKey_def)
  moreover have "phaseOk r ?c"
    using assms(1) valueOk_record by (auto simp: coverageInv_def phaseOk_def split: flushPhase.splits)
  ultimately show ?thesis using assms ordered_snoc bufferOk_record by (simp add: coverageInv_def)
qed

section \<open>Snapshots\<close>

lemma latest_acc: "m \<le> foldl (\<lambda>m ke. if sameStream (fst ke) k then max m (ck_minute (fst ke)) else m) m es"
  by (induction es arbitrary: m) (auto intro: order.trans[OF max.cobounded1])

lemma latest_from_entry:
  "foldl (\<lambda>m ke. if sameStream (fst ke) k then max m (ck_minute (fst ke)) else m) m es = m \<or>
   (\<exists>k' \<in> fst ` set es. sameStream k' k \<and>
      ck_minute k' = foldl (\<lambda>m ke. if sameStream (fst ke) k then max m (ck_minute (fst ke)) else m) m es)"
proof (induction es arbitrary: m)
  case (Cons ke es)
  let ?m = "if sameStream (fst ke) k then max m (ck_minute (fst ke)) else m"
  have "?m = m \<or> sameStream (fst ke) k \<and> ?m = ck_minute (fst ke)" by (auto simp: max_def)
  then show ?case using Cons.IH[of ?m] by auto
qed simp

lemma dropped_superseded:
  assumes inv: "coverageInv r c" and live: "liveKey c k" and late: "ck_minute k < latestMinute (cb_entries (cv_buffer c)) k"
    and pos: "0 \<le> ck_minute k"
  shows "superseded (cv_history c) k"
proof -
  obtain k' where k': "k' \<in> fst ` set (cb_entries (cv_buffer c))" "sameStream k' k" "ck_minute k < ck_minute k'"
    using latest_from_entry[of k 0 "cb_entries (cv_buffer c)"] late pos
    unfolding latestMinute_def[symmetric] by (metis leD)
  then obtain e where e: "map_of (cb_entries (cv_buffer c)) k' = Some e" by (metis map_of_eq_None_iff not_None_eq)
  have "liveKey c k'" using live bucketTime_less[OF k'(3)] by (simp add: liveKey_def)
  then have "dispatchesOf k' (cv_history c) \<noteq> []" using inv e by (auto simp: coverageInv_def keyOk_def entryOk_def Let_def)
  then obtain d where "d \<in> set (dispatchesOf k' (cv_history c))" by (meson list.set_sel(1))
  then obtain ch where "(ch, d) \<in> set (cv_history c)" "dispatchKey ch d = k'" by (auto simp: dispatchesOf_mem)
  then show ?thesis using k'(2,3) by (auto simp: superseded_def)
qed

lemma entry_minute_nonneg:
  assumes "coverageInv r c" "dispatchesOf k (cv_history c) \<noteq> []"
  shows "0 \<le> ck_minute k"
proof -
  obtain d where "d \<in> set (dispatchesOf k (cv_history c))" using assms(2) by (meson list.set_sel(1))
  then show ?thesis using assms(1) by (auto simp: coverageInv_def orderedHistory_def dispatchesOf_mem)
qed

text \<open>An entry that is fully acknowledged is fully stored.\<close>

lemma saved_stored:
  assumes "entryOk ds row e" "\<not> unsaved e"
  shows "row = tallied ds"
proof -
  obtain ys zs where y: "ds = ys @ zs" "ce_saved e \<le> int (length ys)" "row = tallied ys" "pb_counts (ce_bucket e) = tally ds"
    using assms(1) by (auto simp: entryOk_def)
  then have "zs = []" using assms(2) by (simp add: unsaved_def)
  then show ?thesis using y by simp
qed

lemma keyed_at: "bufferOk r c \<Longrightarrow> map_of (cb_entries (cv_buffer c)) k = Some e \<Longrightarrow> keyed r k e"
  by (auto simp: bufferOk_def dest!: map_of_SomeD)

lemma keyOk_snapshot:
  assumes inv: "coverageInv r c" and snap: "snapshotCoverage now (cv_buffer c) = (vs, b)"
    and live: "liveKey c k" "now - probeCoverageRetention \<le> bucketTimeOf k"
  shows "keyOk r (c\<lparr>cv_buffer := b, cv_phase := p, cv_cutoff := x\<rparr>) k"
proof -
  let ?es = "cb_entries (cv_buffer c)"
  have k: "keyOk r c k" and d: "distinct (map fst ?es)" and b: "bufferOk r c" using inv live(1) by (auto simp: coverageInv_def bufferOk_def)
  have es: "cb_entries b = filter (\<lambda>(k, e). \<not> expired now e \<and> (unsaved e \<or> \<not> ck_minute k < latestMinute ?es k)) ?es"
    using snap by (auto simp: snapshotCoverage_def Let_def)
  show ?thesis
  proof (cases "map_of ?es k")
    case None
    then show ?thesis using k by (simp add: keyOk_def Let_def es map_of_filter_distinct[OF d])
  next
    case (Some e)
    have ok: "entryOk (dispatchesOf k (cv_history c)) (cv_table c (k, r)) e" using k Some by (simp add: keyOk_def Let_def)
    have "\<not> expired now e" using keyed_at[OF b Some] live(2) by (simp add: keyed_def expired_def)
    moreover have "superseded (cv_history c) k" if "ck_minute k < latestMinute ?es k"
      using dropped_superseded[OF inv live(1) that] entry_minute_nonneg[OF inv] ok by (simp add: entryOk_def)
    ultimately show ?thesis using ok Some saved_stored[OF ok] by (auto simp: keyOk_def Let_def es map_of_filter_distinct[OF d])
  qed
qed

lemma rowKeys_distinct:
  assumes "bufferOk r c"
  shows "distinct (map rowKey (map (ce_bucket \<circ> snd) (filter P (cb_entries (cv_buffer c)))))"
proof -
  have "map rowKey (map (ce_bucket \<circ> snd) (filter P (cb_entries (cv_buffer c)))) =
      map (\<lambda>k. (k, r)) (map fst (filter P (cb_entries (cv_buffer c))))"
    using assms by (auto simp: bufferOk_def keyed_def rowKey_def)
  moreover have "distinct (map fst (filter P (cb_entries (cv_buffer c))))"
    using assms by (simp add: bufferOk_def distinct_map_filter)
  ultimately show ?thesis by (simp add: distinct_map inj_on_def)
qed

lemma valueOk_snapshot:
  assumes inv: "coverageInv r c" and snap: "snapshotCoverage now (cv_buffer c) = (vs, b)" and v: "v \<in> set vs"
    and x: "cv_cutoff c \<le> x"
  shows "valueOk r (c\<lparr>cv_buffer := b, cv_phase := p, cv_cutoff := x\<rparr>) False v"
proof -
  let ?es = "cb_entries (cv_buffer c)"
  have b: "bufferOk r c" and d: "distinct (map fst ?es)" using inv by (auto simp: coverageInv_def bufferOk_def)
  obtain k e where e: "(k, e) \<in> set ?es" "\<not> expired now e" "unsaved e" "v = ce_bucket e"
    using snap v by (auto simp: snapshotCoverage_def Let_def)
  then have m: "map_of ?es k = Some e" using d by simp
  have key: "bucketKey v = k" "pb_RunID v = r" using keyed_at[OF b m] e(4) by (simp_all add: keyed_def)
  have "map_of (cb_entries b) k = Some e"
    using snap e(2,3) m by (auto simp: snapshotCoverage_def Let_def map_of_filter_distinct[OF d])
  moreover have "\<exists>xs ys zs. dispatchesOf k (cv_history c) = xs @ ys @ zs \<and> xs @ ys \<noteq> [] \<and> pb_counts v = tally (xs @ ys) \<and>
      cv_table c (k, r) = tallied xs" if "liveKey c k"
  proof -
    have "entryOk (dispatchesOf k (cv_history c)) (cv_table c (k, r)) e"
      by (rule entry_at[OF inv that m])
    then obtain ys zs where "dispatchesOf k (cv_history c) = ys @ zs" "ys @ zs \<noteq> []" "pb_counts v = tally (ys @ zs)"
      "cv_table c (k, r) = tallied ys" using e(4) by (auto simp: entryOk_def)
    then show ?thesis by (intro exI[of _ ys] exI[of _ zs] exI[of _ "[]"]) simp
  qed
  ultimately show ?thesis using key x by (auto simp: valueOk_def liveKey_def)
qed

lemma inv_snapshot:
  assumes inv: "coverageInv r c" and idle: "cv_phase c = Idle" and snap: "snapshotCoverage now (cv_buffer c) = (vs, b)"
  shows "coverageInv r (c\<lparr>cv_buffer := b, cv_phase := (if vs = [] then Idle else Writing vs),
    cv_cutoff := max (cv_cutoff c) (now - probeCoverageRetention)\<rparr>)" (is "coverageInv r ?c")
proof -
  have ok: "bufferOk r c" using inv by (simp add: coverageInv_def)
  have "bufferOk r ?c" using ok snap by (auto simp: bufferOk_def snapshotCoverage_def Let_def distinct_map_filter)
  moreover have "distinct (map rowKey vs)"
    using snap rowKeys_distinct[OF ok] by (auto simp: snapshotCoverage_def Let_def)
  moreover have "keyOk r ?c k" if "liveKey ?c k" for k
    using keyOk_snapshot[OF inv snap] that by (simp add: liveKey_def)
  moreover have "valueOk r ?c False v" if "v \<in> set vs" for v by (rule valueOk_snapshot[OF inv snap that]) simp
  ultimately show ?thesis using inv by (auto simp: coverageInv_def phaseOk_def)
qed

section \<open>Writing, acknowledging and pruning\<close>

lemma entry_row_grows:
  assumes "entryOk ds (tallied xs) e" "ds = xs @ ys @ zs"
  shows "entryOk ds (tallied (xs @ ys)) e"
proof -
  obtain us vs where u: "ds = us @ vs" "ce_saved e \<le> int (length us)" "tallied xs = tallied us"
    "ds \<noteq> []" "pb_counts (ce_bucket e) = tally ds" using assms(1) by (auto simp: entryOk_def)
  have "xs = us" using tallied_prefix_eq[OF u(3)] assms(2) u(1) by metis
  then show ?thesis unfolding entryOk_def using u(2,4,5) assms(2)
    by (intro conjI exI[of _ "xs @ ys"] exI[of _ zs]) simp_all
qed

lemma stored_row:
  assumes inv: "coverageInv r c" and ph: "cv_phase c = Writing vs"
    and st: "StoreRoutineProbeCoverage outcome vs (cv_table c) = (done, table)"
    and v: "v \<in> set vs" "liveKey c (bucketKey v)"
  obtains xs ys zs where "dispatchesOf (bucketKey v) (cv_history c) = xs @ ys @ zs" "xs @ ys \<noteq> []"
    "pb_counts v = tally (xs @ ys)" "cv_table c (bucketKey v, r) = tallied xs"
    "table (bucketKey v, r) = tallied (xs @ ys) \<or> \<not> done \<and> table (bucketKey v, r) = tallied xs"
proof -
  have ok: "valueOk r c False v" and d: "distinct (map rowKey vs)" using inv ph v(1) by (simp_all add: coverageInv_def phaseOk_def)
  then obtain xs ys zs where x: "dispatchesOf (bucketKey v) (cv_history c) = xs @ ys @ zs" "xs @ ys \<noteq> []"
    "pb_counts v = tally (xs @ ys)" "cv_table c (bucketKey v, r) = tallied xs"
    using v(2) unfolding valueOk_def by auto
  have key: "rowKey v = (bucketKey v, r)" using ok by (simp add: rowKey_def valueOk_def)
  have "coveredCounts (cv_table c (rowKey v)) v"
    by (rule covered_prefix[OF _ x(1,3)]) (use inv x(4) key in \<open>auto simp: coverageInv_def orderedHistory_def\<close>)
  from coverageRows.write_rows[OF d st[unfolded StoreRoutineProbeCoverage_def] v(1) this]
  have "table (bucketKey v, r) = tallied (xs @ ys) \<or> \<not> done \<and> table (bucketKey v, r) = tallied xs"
    using key x(2-4) by (auto simp: tallied_def)
  then show thesis by (rule that[OF x])
qed

lemma inv_written:
  assumes inv: "coverageInv r c" and ph: "cv_phase c = Writing vs"
    and st: "StoreRoutineProbeCoverage outcome vs (cv_table c) = (done, table)"
  shows "coverageInv r (c\<lparr>cv_table := table, cv_phase := (if done then Written vs else Idle)\<rparr>)" (is "coverageInv r ?c")
proof -
  have vals: "valueOk r c False v" if "v \<in> set vs" for v using inv ph that by (simp add: coverageInv_def phaseOk_def)
  have "keyOk r ?c k" if "liveKey ?c k" for k
  proof (cases "k \<in> bucketKey ` set vs")
    case True
    then obtain v where v: "v \<in> set vs" "k = bucketKey v" by blast
    have l: "liveKey c (bucketKey v)" using that v(2) by (simp add: liveKey_def)
    obtain e where e: "map_of (cb_entries (cv_buffer c)) k = Some e" using vals[OF v(1)] l v(2) by (auto simp: valueOk_def)
    have ok: "entryOk (dispatchesOf k (cv_history c)) (cv_table c (k, r)) e" using entry_at[OF inv _ e] l v(2) by simp
    from stored_row[OF inv ph st v(1) l] obtain xs ys zs where
      "dispatchesOf k (cv_history c) = xs @ ys @ zs" "cv_table c (k, r) = tallied xs"
      "table (k, r) = tallied (xs @ ys) \<or> \<not> done \<and> table (k, r) = tallied xs" unfolding v(2) by metis
    then have "entryOk (dispatchesOf k (cv_history c)) (table (k, r)) e" using ok entry_row_grows by metis
    then show ?thesis using e by (simp add: keyOk_def Let_def)
  next
    case False
    then have "(k, r) \<notin> rowKey ` set vs" by (auto simp: rowKey_def)
    moreover have "distinct (map rowKey vs)" using inv ph by (simp add: coverageInv_def phaseOk_def)
    ultimately have "table (k, r) = cv_table c (k, r)"
      using storeBatches_at(2)[OF _ st[unfolded StoreRoutineProbeCoverage_def]] by blast
    moreover have "keyOk r c k" using inv that by (simp add: coverageInv_def liveKey_def)
    ultimately show ?thesis by (simp add: keyOk_def Let_def split: option.splits)
  qed
  moreover have "valueOk r ?c True v" if v: "v \<in> set vs" "done" for v
  proof (cases "liveKey c (bucketKey v)")
    case True
    from stored_row[OF inv ph st v(1) True] v(2) obtain xs ys zs where
      "dispatchesOf (bucketKey v) (cv_history c) = xs @ ys @ zs" "xs @ ys \<noteq> []" "pb_counts v = tally (xs @ ys)"
      "table (bucketKey v, r) = tallied (xs @ ys)" by metis
    moreover have "pb_RunID v = r" "map_of (cb_entries (cv_buffer c)) (bucketKey v) \<noteq> None"
      using vals[OF v(1)] True unfolding valueOk_def by blast+
    ultimately show ?thesis unfolding valueOk_def
      by (intro conjI impI exI[of _ xs] exI[of _ ys] exI[of _ zs]) simp_all
  qed (use vals[OF v(1)] in \<open>simp add: valueOk_def liveKey_def\<close>)
  ultimately show ?thesis using inv by (simp add: coverageInv_def bufferOk_def phaseOk_def)
qed

definition ackOne :: "coverage \<Rightarrow> ProbeCoverageBucket \<Rightarrow> coverage" where
  "ackOne c v = c\<lparr>cv_buffer := (cv_buffer c)\<lparr>cb_entries := acknowledgeBucket v (cb_entries (cv_buffer c))\<rparr>\<rparr>"

lemma ackOne_simps [simp]:
  "cv_table (ackOne c v) = cv_table c" "cv_phase (ackOne c v) = cv_phase c" "cv_history (ackOne c v) = cv_history c"
  "cv_cutoff (ackOne c v) = cv_cutoff c" "cb_runID (cv_buffer (ackOne c v)) = cb_runID (cv_buffer c)"
  "liveKey (ackOne c v) = liveKey c"
  by (simp_all add: ackOne_def liveKey_def fun_eq_iff)

lemma ackOne_entries: "map_of (cb_entries (cv_buffer (ackOne c v))) k =
    (if k = bucketKey v then map_option (\<lambda>e. e\<lparr>ce_saved := max (ce_saved e) (pc_Due (pb_counts v))\<rparr>) (map_of (cb_entries (cv_buffer c)) k)
     else map_of (cb_entries (cv_buffer c)) k)"
  by (simp add: ackOne_def acknowledgeBucket_def AList.update_conv' split: option.split)

lemma valueOk_ackOne: "valueOk r c stored v' \<Longrightarrow> valueOk r (ackOne c v) stored v'"
  unfolding valueOk_def by (auto simp: ackOne_entries)

lemma bufferOk_ackOne:
  assumes "bufferOk r c"
  shows "bufferOk r (ackOne c v)"
proof -
  have d: "distinct (map fst (cb_entries (cv_buffer (ackOne c v))))"
    using assms by (auto simp: bufferOk_def ackOne_def acknowledgeBucket_def AList.distinct_update split: option.split)
  have "keyed r k e" if "map_of (cb_entries (cv_buffer (ackOne c v))) k = Some e" for k e
    using that keyed_at[OF assms] by (auto simp: ackOne_entries keyed_def split: if_splits)
  then show ?thesis using d assms by (auto simp: bufferOk_def)
qed

lemma inv_ackOne:
  assumes inv: "coverageInv r c" and v: "valueOk r c True v" and idle: "cv_phase c = Idle"
  shows "coverageInv r (ackOne c v)"
proof -
  have "keyOk r (ackOne c v) k" if l: "liveKey c k" for k
  proof (cases "k = bucketKey v")
    case True
    then obtain xs ys zs where x: "dispatchesOf k (cv_history c) = (xs @ ys) @ zs" "pb_counts v = tally (xs @ ys)"
      "cv_table c (k, r) = tallied (xs @ ys)" using v l unfolding valueOk_def by auto
    obtain e where e: "map_of (cb_entries (cv_buffer c)) k = Some e" using v l True by (auto simp: valueOk_def)
    have "entryOk (dispatchesOf k (cv_history c)) (cv_table c (k, r)) e" by (rule entry_at[OF inv l e])
    then obtain us ws where u: "dispatchesOf k (cv_history c) = us @ ws" "ce_saved e \<le> int (length us)"
      "cv_table c (k, r) = tallied us" "dispatchesOf k (cv_history c) \<noteq> []" "pb_counts (ce_bucket e) = tally (dispatchesOf k (cv_history c))"
      by (auto simp: entryOk_def)
    have "xs @ ys = us" using tallied_prefix_eq[of "xs @ ys" us zs _ ws] x(1,3) u(1,3) by simp
    then have "entryOk (dispatchesOf k (cv_history c)) (cv_table c (k, r)) (e\<lparr>ce_saved := max (ce_saved e) (pc_Due (pb_counts v))\<rparr>)"
      unfolding entryOk_def using u x(2) by (intro conjI exI[of _ us] exI[of _ ws]) simp_all
    then show ?thesis using e True by (simp add: keyOk_def Let_def ackOne_entries)
  next
    case False
    moreover have "keyOk r c k" using inv l by (simp add: coverageInv_def)
    ultimately show ?thesis by (simp add: keyOk_def Let_def ackOne_entries split: option.splits)
  qed
  then show ?thesis using inv idle bufferOk_ackOne by (simp add: coverageInv_def phaseOk_def)
qed

lemma ack_fold: "foldl ackOne c vs = c\<lparr>cv_buffer := acknowledgeCoverage vs (cv_buffer c)\<rparr>"
  by (induction vs arbitrary: c) (simp_all add: acknowledgeCoverage_def ackOne_def)

lemma keyOk_phase: "keyOk r (c\<lparr>cv_phase := p\<rparr>) k = keyOk r c k"
  by (simp add: keyOk_def Let_def split: option.split)

lemma inv_acknowledged:
  assumes "coverageInv r c" "cv_phase c = Written vs"
  shows "coverageInv r (c\<lparr>cv_buffer := acknowledgeCoverage vs (cv_buffer c), cv_phase := Idle\<rparr>)"
proof -
  let ?c = "c\<lparr>cv_phase := Idle\<rparr>"
  have fold: "coverageInv r x \<Longrightarrow> cv_phase x = Idle \<Longrightarrow> \<forall>v \<in> set ws. valueOk r x True v \<Longrightarrow> coverageInv r (foldl ackOne x ws)" for x ws
    by (induction ws arbitrary: x) (simp_all add: inv_ackOne valueOk_ackOne)
  have "coverageInv r ?c" using assms(1) 
    by (simp add: coverageInv_def bufferOk_def phaseOk_def keyOk_phase liveKey_def)
  moreover have "\<forall>v \<in> set vs. valueOk r ?c True v" using assms by (simp add: coverageInv_def phaseOk_def valueOk_def liveKey_def)
  ultimately have "coverageInv r (foldl ackOne ?c vs)" using fold by simp
  moreover have "foldl ackOne ?c vs = c\<lparr>cv_buffer := acknowledgeCoverage vs (cv_buffer c), cv_phase := Idle\<rparr>"
    unfolding ack_fold by simp
  ultimately show ?thesis by simp
qed

lemma inv_pruned:
  assumes "coverageInv r c" "cv_phase c = Idle" "prunedTo (now - probeCoverageRetention) (cv_table c) table"
  shows "coverageInv r (c\<lparr>cv_table := table, cv_cutoff := max (cv_cutoff c) (now - probeCoverageRetention)\<rparr>)" (is "coverageInv r ?c")
proof -
  have "keyOk r ?c k" if "liveKey ?c k" for k
  proof -
    have "table (k, r) = cv_table c (k, r)"
      using assms(3) that unfolding prunedTo_def liveKey_def by (metis fst_conv leD max.bounded_iff coverage.select_convs(5) coverage.surjective coverage.update_convs(2,5))
    moreover have "keyOk r c k" using assms(1) that by (simp add: coverageInv_def liveKey_def)
    ultimately show ?thesis by (simp add: keyOk_def Let_def split: option.splits)
  qed
  then show ?thesis using assms(1,2) by (simp add: coverageInv_def bufferOk_def phaseOk_def)
qed

lemma reach_inv: "coverageReach r c \<Longrightarrow> coverageInv r c"
proof (induction rule: coverageReach.induct)
  case (step c c')
  from step(2) show ?case
    using step.IH by cases (simp_all add: inv_record inv_snapshot inv_written inv_acknowledged inv_pruned)
qed (rule inv_initial)

section \<open>Properties\<close>

text \<open>What a reader of process and table together sees of a bucket: the buffered counts, or the stored row
  once the bucket left the buffer.\<close>

definition observedCoverage :: "string \<Rightarrow> coverage \<Rightarrow> probeCoverageKey \<Rightarrow> ProbeDispatchCounts option" where
  "observedCoverage r c k =
     (case map_of (cb_entries (cv_buffer c)) k of Some e \<Rightarrow> Some (pb_counts (ce_bucket e)) | None \<Rightarrow> cv_table c (k, r))"

text \<open>C24: buffer and table refine a plain tally of the dispatches.  Whatever the interleaving of dispatches,
  snapshots, writes (also those that fail after or before their commit), acknowledgements and pruning, the
  counts observed for a bucket within retention are exactly those of its dispatches: nothing is lost, nothing
  is counted twice, an acknowledged bucket is completely stored, and every opportunity is counted as sent or
  as skipped for one reason.\<close>

theorem coverage_refines_tally:
  assumes "coverageReach r c" and "cv_cutoff c \<le> bucketTimeOf k"
  shows "observedCoverage r c k = tallied (dispatchesOf k (cv_history c)) \<and>
    (\<forall>e. map_of (cb_entries (cv_buffer c)) k = Some e \<and> \<not> unsaved e \<longrightarrow> cv_table c (k, r) = observedCoverage r c k) \<and>
    (\<forall>x. observedCoverage r c k = Some x \<longrightarrow>
       pc_Due x = pc_Sent x + pc_GlobalLimited x + pc_ChannelLimited x + pc_EvidenceLimited x)"
proof -
  have inv: "coverageInv r c" and l: "liveKey c k" using assms reach_inv by (simp_all add: liveKey_def)
  have obs: "observedCoverage r c k = tallied (dispatchesOf k (cv_history c))"
  proof (cases "map_of (cb_entries (cv_buffer c)) k")
    case None
    moreover have "keyOk r c k" using inv l by (simp add: coverageInv_def)
    ultimately show ?thesis by (simp add: observedCoverage_def keyOk_def Let_def)
  next
    case (Some e)
    then show ?thesis using entry_at[OF inv l Some] by (auto simp: observedCoverage_def entryOk_def tallied_def)
  qed
  moreover have "cv_table c (k, r) = tallied (dispatchesOf k (cv_history c))"
    if "map_of (cb_entries (cv_buffer c)) k = Some e" "\<not> unsaved e" for e
    by (rule saved_stored[OF entry_at[OF inv l that(1)] that(2)])
  moreover have "pc_Due x = pc_Sent x + pc_GlobalLimited x + pc_ChannelLimited x + pc_EvidenceLimited x"
    if "tallied (dispatchesOf k (cv_history c)) = Some x" for x
    using that tally_partition by (auto simp: tallied_def split: if_splits)
  ultimately show ?thesis by metis
qed

definition exampleDispatch :: routineDispatch where
  "exampleDispatch = \<lparr>dp_id = ''p1'', dp_at = 70000000000000000000, dp_scheduled = True, dp_skipReason = []\<rparr>"

lemma example_coverage_reach:
  "coverageReach ''run'' ((initialCoverage ''run'')\<lparr>cv_buffer := recordDispatch (''site'', 7) exampleDispatch (newProbeCoverageBuffer ''run''),
     cv_history := [((''site'', 7), exampleDispatch)]\<rparr>)" (is "coverageReach _ ?c")
proof -
  have "inOrder (cv_history (initialCoverage ''run'')) (''site'', 7) exampleDispatch"
    by (simp add: inOrder_def initialCoverage_def exampleDispatch_def Unix_def timeTruncate_def)
  from coverageStep.dispatched[OF this] have "coverageStep (initialCoverage ''run'') ?c" by (simp add: initialCoverage_def)
  then show ?thesis using coverageReach.intros by blast
qed

theorem coverage_refines_tally_witness:
  "\<exists>c. coverageReach ''run'' c \<and> cv_history c = [((''site'', 7), exampleDispatch)] \<and>
     observedCoverage ''run'' c (dispatchKey (''site'', 7) exampleDispatch) = Some (tally [exampleDispatch])"
proof -
  let ?c = "(initialCoverage ''run'')\<lparr>cv_buffer := recordDispatch (''site'', 7) exampleDispatch (newProbeCoverageBuffer ''run''),
     cv_history := [((''site'', 7), exampleDispatch)]\<rparr>"
  have "cv_cutoff ?c \<le> bucketTimeOf (dispatchKey (''site'', 7) exampleDispatch)"
    by (simp add: bucketTime_dispatch exampleDispatch_def timeTruncate_def initialCoverage_def)
  from coverage_refines_tally[OF example_coverage_reach this]
  have "observedCoverage ''run'' ?c (dispatchKey (''site'', 7) exampleDispatch) = Some (tally [exampleDispatch])"
    by (simp add: dispatchesOf_def tallied_def)
  then show ?thesis using example_coverage_reach by (intro exI[of _ ?c]) simp
qed

end
