(* ===== verification/ProbeRecords.thy ===== *)
theory ProbeRecords
  imports RoutineProbe ProbeStore
begin

text \<open>
  Records of single probes (\<open>server/internal/tuning/probe_records.go\<close> and its tables in
  \<open>server/internal/mysqlstore/probe_records.go\<close>).  A record is put as pending when a probe is dispatched and
  again with its result when it settles; a bounded buffer keeps the newest stage until it was written.
\<close>

section \<open>Data\<close>

definition ProbeRecordRetention :: duration where
  "ProbeRecordRetention = 7 * 24 * 60 * Minute"

definition probeRecordBufferLimit :: nat where
  "probeRecordBufferLimit = 65536"

record ProbeRecord =
  pr_RoundID :: string
  pr_RoundIndex :: int64
  pr_ID :: string
  pr_InstanceID :: string
  pr_ChannelID :: int64
  pr_ChannelName :: string
  pr_ModelName :: string
  pr_Kind :: string
  pr_StartedAt :: time
  pr_DeadlineAt :: time
  pr_FinishedAt :: "time option"
  pr_Outcome :: string
  pr_Reason :: string
  pr_DurationSeconds :: "float64 option"

record ProbeRecorderHealth =
  rh_InstanceID :: string
  rh_RunID :: string
  rh_StartedAt :: time
  rh_LastSeenAt :: time
  rh_LastLossAt :: "time option"
  rh_DroppedRecords :: int64
  rh_QueuedRecords :: int64

text \<open>The maps of the buffer are association lists; their order stands for Go's map order.\<close>

record probeRecordBuffer =
  rb_runID :: string
  rb_rows :: "(string \<times> ProbeRecord) list"
  rb_health :: "(string \<times> ProbeRecorderHealth) list"

definition newProbeRecordBuffer :: "string \<Rightarrow> probeRecordBuffer" where
  "newProbeRecordBuffer runID = \<lparr>rb_runID = runID, rb_rows = [], rb_health = []\<rparr>"

definition probeRecord :: "ChannelBaseValue \<Rightarrow> string \<Rightarrow> string \<Rightarrow> time \<Rightarrow> bool \<Rightarrow> duration \<Rightarrow> ProbeRecord" where
  "probeRecord base site i started scheduled timeout =
     \<lparr>pr_RoundID = [], pr_RoundIndex = 0, pr_ID = i, pr_InstanceID = site, pr_ChannelID = b_ChannelID base,
      pr_ChannelName = b_ChannelName base, pr_ModelName = b_ModelName base,
      pr_Kind = (if scheduled then ''scheduled'' else ''accelerated''), pr_StartedAt = started,
      pr_DeadlineAt = started + timeout, pr_FinishedAt = None, pr_Outcome = ''pending'', pr_Reason = [],
      pr_DurationSeconds = None\<rparr>"

definition probeRecordResult :: "time \<Rightarrow> ProbeRecord \<Rightarrow> routineResult \<Rightarrow> ProbeRecord" where
  "probeRecordResult now v r =
     (let v1 = v\<lparr>pr_FinishedAt := Some now, pr_DurationSeconds := Some (rr_duration r)\<rparr>
      in case rr_outcome r of
           routineHealthy \<Rightarrow> v1\<lparr>pr_Outcome := ''success''\<rparr>
         | routineSlow \<Rightarrow> v1\<lparr>pr_Outcome := ''slow'', pr_Reason := ''slow_threshold''\<rparr>
         | routineError \<Rightarrow> v1\<lparr>pr_Outcome := ''error'', pr_Reason := ''channel_error''\<rparr>
         | routineCanceled \<Rightarrow> v1\<lparr>pr_Outcome := ''canceled'', pr_Reason := ''scheduler_canceled''\<rparr>
         | _ \<Rightarrow> v1\<lparr>pr_Outcome := ''unknown'', pr_Reason := ''control_unavailable''\<rparr>)"

text \<open>The record of a dispatch (\<open>routine_probe.go\<close>): pending, or skipped for the reason of the dispatch.\<close>

definition dispatchRecord :: "ChannelBaseValue \<Rightarrow> string \<Rightarrow> duration \<Rightarrow> routineDispatch \<Rightarrow> ProbeRecord" where
  "dispatchRecord base site timeout d =
     (let v = probeRecord base site (dp_id d) (dp_at d) (dp_scheduled d) timeout
      in if dp_skipReason d = [] then v
         else v\<lparr>pr_Outcome := ''skipped'', pr_Reason := dp_skipReason d, pr_FinishedAt := Some (dp_at d)\<rparr>)"

definition settledRecord :: "ChannelBaseValue \<Rightarrow> string \<Rightarrow> duration \<Rightarrow> time \<Rightarrow> routineResult \<Rightarrow> ProbeRecord" where
  "settledRecord base site timeout now r =
     probeRecordResult now (probeRecord base site (rr_id r) (rr_started r) (rr_scheduled r) timeout) r"

definition historyCleanupInterval :: "bool \<Rightarrow> goerr option \<Rightarrow> duration" where
  "historyCleanupInterval pending err = (if pending \<and> err = None then 10 * Second else Minute)"

section \<open>Operations of the buffer\<close>

definition pending :: "ProbeRecord \<Rightarrow> bool" where
  "pending v \<longleftrightarrow> pr_Outcome v = ''pending''"

definition healthOf :: "time \<Rightarrow> string \<Rightarrow> probeRecordBuffer \<Rightarrow> ProbeRecorderHealth" where
  "healthOf now site b =
     (case map_of (rb_health b) site of
        Some h \<Rightarrow> if rh_RunID h = [] then \<lparr>rh_InstanceID = site, rh_RunID = rb_runID b, rh_StartedAt = now, rh_LastSeenAt = 0,
                     rh_LastLossAt = None, rh_DroppedRecords = 0, rh_QueuedRecords = 0\<rparr> else h
      | None \<Rightarrow> \<lparr>rh_InstanceID = site, rh_RunID = rb_runID b, rh_StartedAt = now, rh_LastSeenAt = 0,
                  rh_LastLossAt = None, rh_DroppedRecords = 0, rh_QueuedRecords = 0\<rparr>)"

definition noteLoss :: "time \<Rightarrow> ProbeRecorderHealth \<Rightarrow> ProbeRecorderHealth" where
  "noteLoss now h = h\<lparr>rh_DroppedRecords := rh_DroppedRecords h + 1, rh_LastLossAt := Some now\<rparr>"

definition putRecord :: "time \<Rightarrow> ProbeRecord \<Rightarrow> probeRecordBuffer \<Rightarrow> probeRecordBuffer" where
  "putRecord now v b =
     (let site = pr_InstanceID v; h = healthOf now site b; old = map_of (rb_rows b) (pr_ID v)
      in if (case old of Some u \<Rightarrow> \<not> pending u | None \<Rightarrow> False) then b
         else if old = None \<and> length (rb_rows b) \<ge> probeRecordBufferLimit
         then b\<lparr>rb_health := AList.update site (noteLoss now h) (rb_health b)\<rparr>
         else b\<lparr>rb_rows := AList.update (pr_ID v) v (rb_rows b), rb_health := AList.update site h (rb_health b)\<rparr>)"

definition overdue :: "time \<Rightarrow> ProbeRecord \<Rightarrow> bool" where
  "overdue now v \<longleftrightarrow> pr_StartedAt v < now - ProbeRecordRetention"

text \<open>The health of a site is created by the first \<open>put\<close>; a missing entry reads as the zero value.\<close>

definition zeroHealth :: ProbeRecorderHealth where
  "zeroHealth = \<lparr>rh_InstanceID = [], rh_RunID = [], rh_StartedAt = 0, rh_LastSeenAt = 0, rh_LastLossAt = None,
     rh_DroppedRecords = 0, rh_QueuedRecords = 0\<rparr>"

definition loseRecord :: "time \<Rightarrow> (string \<times> ProbeRecorderHealth) list \<Rightarrow> string \<times> ProbeRecord \<Rightarrow> (string \<times> ProbeRecorderHealth) list" where
  "loseRecord now hs kv =
     (let site = pr_InstanceID (snd kv); h = (case map_of hs site of Some h \<Rightarrow> h | None \<Rightarrow> zeroHealth)
      in AList.update site (noteLoss now h) hs)"

definition snapshotRecords :: "time \<Rightarrow> probeRecordBuffer \<Rightarrow> (ProbeRecord list \<times> ProbeRecorderHealth list) \<times> probeRecordBuffer" where
  "snapshotRecords now b =
     (let kept = filter (\<lambda>kv. \<not> overdue now (snd kv)) (rb_rows b);
          hs = foldl (loseRecord now) (rb_health b) (filter (\<lambda>kv. overdue now (snd kv)) (rb_rows b));
          queued = (\<lambda>site. int (length (filter (\<lambda>kv. pr_InstanceID (snd kv) = site) kept)))
      in ((map snd kept, map (\<lambda>(site, h). h\<lparr>rh_LastSeenAt := now, rh_QueuedRecords := queued (rh_InstanceID h)\<rparr>) hs),
          b\<lparr>rb_rows := kept, rb_health := hs\<rparr>))"

definition acknowledgeRecord :: "(string \<times> ProbeRecord) list \<Rightarrow> ProbeRecord \<Rightarrow> (string \<times> ProbeRecord) list" where
  "acknowledgeRecord rows v =
     (case map_of rows (pr_ID v) of
        Some u \<Rightarrow> if pr_Outcome u = pr_Outcome v then AList.delete (pr_ID v) rows else rows
      | None \<Rightarrow> rows)"

definition acknowledgeRecords :: "ProbeRecord list \<Rightarrow> probeRecordBuffer \<Rightarrow> probeRecordBuffer" where
  "acknowledgeRecords vs b = b\<lparr>rb_rows := foldl acknowledgeRecord (rb_rows b) vs\<rparr>"

section \<open>The tables\<close>

text \<open>Only the four columns of the result are updated, and only while the stored outcome is pending.\<close>

definition upsertRecord :: "ProbeRecord option \<Rightarrow> ProbeRecord \<Rightarrow> ProbeRecord" where
  "upsertRecord old v =
     (case old of
        None \<Rightarrow> v
      | Some t \<Rightarrow> if pending t then t\<lparr>pr_FinishedAt := pr_FinishedAt v, pr_Reason := pr_Reason v,
                     pr_DurationSeconds := pr_DurationSeconds v, pr_Outcome := pr_Outcome v\<rparr>
                   else t)"

type_synonym recordTable = "string \<rightharpoonup> ProbeRecord"
type_synonym healthTable = "(string \<times> string) \<rightharpoonup> ProbeRecorderHealth"

definition upsertHealth :: "ProbeRecorderHealth option \<Rightarrow> ProbeRecorderHealth \<Rightarrow> ProbeRecorderHealth" where
  "upsertHealth old h =
     (case old of
        None \<Rightarrow> h
      | Some g \<Rightarrow> g\<lparr>rh_LastSeenAt := rh_LastSeenAt h, rh_LastLossAt := rh_LastLossAt h,
                     rh_DroppedRecords := max (rh_DroppedRecords g) (rh_DroppedRecords h), rh_QueuedRecords := rh_QueuedRecords h\<rparr>)"

fun storeHealth :: "(nat \<Rightarrow> dbOutcome) \<Rightarrow> nat \<Rightarrow> ProbeRecorderHealth list \<Rightarrow> healthTable \<Rightarrow> bool \<times> healthTable" where
  "storeHealth outcome n [] table = (True, table)"
| "storeHealth outcome n (h # hs) table =
     (let k = (rh_InstanceID h, rh_RunID h); written = table(k \<mapsto> upsertHealth (table k) h)
      in case outcome n of
           Committed \<Rightarrow> storeHealth outcome (Suc n) hs written
         | Rejected \<Rightarrow> (False, table)
         | Ambiguous \<Rightarrow> (False, written))"

definition StoreProbeRecords ::
    "(nat \<Rightarrow> dbOutcome) \<Rightarrow> (nat \<Rightarrow> dbOutcome) \<Rightarrow> ProbeRecord list \<Rightarrow> ProbeRecorderHealth list
     \<Rightarrow> recordTable \<times> healthTable \<Rightarrow> bool \<times> recordTable \<times> healthTable" where
  "StoreProbeRecords outcome outcome' rows health tables =
     (case storeBatches pr_ID upsertRecord outcome 0 rows (fst tables) of
        (False, records) \<Rightarrow> (False, records, snd tables)
      | (True, records) \<Rightarrow> (case storeHealth outcome' 0 health (snd tables) of (done, table) \<Rightarrow> (done, records, table)))"

section \<open>Buffer and tables together\<close>

text \<open>A flush (\<open>flushProbeRecords\<close>) is a snapshot, a write and an acknowledgement, with puts in between.
  History variables: the records put, the first result accepted for each probe, the sites of the records
  that were lost, and the latest retention limit applied.\<close>

datatype recordPhase =
    RecordsIdle
  | RecordsWriting "ProbeRecord list" "ProbeRecorderHealth list"
  | RecordsWritten "ProbeRecord list"

record recorder =
  rc_buffer :: probeRecordBuffer
  rc_tables :: "recordTable \<times> healthTable"
  rc_phase :: recordPhase
  rc_puts :: "ProbeRecord list"
  rc_settled :: "string \<rightharpoonup> ProbeRecord"
  rc_lost :: "string list"
  rc_cutoff :: time

definition initialRecorder :: "string \<Rightarrow> recorder" where
  "initialRecorder runID = \<lparr>rc_buffer = newProbeRecordBuffer runID, rc_tables = (Map.empty, Map.empty), rc_phase = RecordsIdle,
     rc_puts = [], rc_settled = Map.empty, rc_lost = [], rc_cutoff = 0\<rparr>"

text \<open>The columns that identify the probe and never change between its stages.\<close>

definition identity :: "ProbeRecord \<Rightarrow> ProbeRecord" where
  "identity v = v\<lparr>pr_FinishedAt := None, pr_Outcome := [], pr_Reason := [], pr_DurationSeconds := None\<rparr>"

definition sameProbe :: "ProbeRecord list \<Rightarrow> ProbeRecord \<Rightarrow> bool" where
  "sameProbe puts v \<longleftrightarrow> (\<forall>u \<in> set puts. pr_ID u = pr_ID v \<longrightarrow> identity u = identity v)"

definition accepted :: "probeRecordBuffer \<Rightarrow> ProbeRecord \<Rightarrow> bool" where
  "accepted b v \<longleftrightarrow> (case map_of (rb_rows b) (pr_ID v) of Some u \<Rightarrow> pending u | None \<Rightarrow> length (rb_rows b) < probeRecordBufferLimit)"

definition rejected :: "probeRecordBuffer \<Rightarrow> ProbeRecord \<Rightarrow> bool" where
  "rejected b v \<longleftrightarrow> map_of (rb_rows b) (pr_ID v) = None \<and> length (rb_rows b) \<ge> probeRecordBufferLimit"

definition notePut :: "time \<Rightarrow> ProbeRecord \<Rightarrow> recorder \<Rightarrow> recorder" where
  "notePut now v c =
     c\<lparr>rc_buffer := putRecord now v (rc_buffer c), rc_puts := v # rc_puts c,
       rc_settled := (if accepted (rc_buffer c) v \<and> \<not> pending v \<and> rc_settled c (pr_ID v) = None
                      then (rc_settled c)(pr_ID v \<mapsto> v) else rc_settled c),
       rc_lost := (if rejected (rc_buffer c) v then pr_InstanceID v # rc_lost c else rc_lost c)\<rparr>"

definition noteSnapshot :: "time \<Rightarrow> recorder \<Rightarrow> recorder" where
  "noteSnapshot now c =
     (case snapshotRecords now (rc_buffer c) of ((rows, health), b) \<Rightarrow>
        c\<lparr>rc_buffer := b, rc_phase := (if health = [] then RecordsIdle else RecordsWriting rows health),
          rc_lost := map (pr_InstanceID \<circ> snd) (filter (\<lambda>kv. overdue now (snd kv)) (rb_rows (rc_buffer c))) @ rc_lost c,
          rc_cutoff := max (rc_cutoff c) (now - ProbeRecordRetention)\<rparr>)"

definition recordsPruned :: "time \<Rightarrow> recordTable \<Rightarrow> recordTable \<Rightarrow> bool" where
  "recordsPruned before table table' \<longleftrightarrow>
     (\<forall>i. table' i = table i \<or> table' i = None \<and> (\<exists>t. table i = Some t \<and> pr_StartedAt t < before))"

inductive recorderStep :: "recorder \<Rightarrow> recorder \<Rightarrow> bool" where
  putting: "sameProbe (rc_puts c) v \<Longrightarrow> recorderStep c (notePut now v c)"
| snapshotting: "rc_phase c = RecordsIdle \<Longrightarrow> recorderStep c (noteSnapshot now c)"
| writing: "rc_phase c = RecordsWriting rows health \<Longrightarrow>
    StoreProbeRecords outcome outcome' rows health (rc_tables c) = (done, tables) \<Longrightarrow>
    recorderStep c (c\<lparr>rc_tables := tables, rc_phase := (if done then RecordsWritten rows else RecordsIdle)\<rparr>)"
| acknowledging: "rc_phase c = RecordsWritten rows \<Longrightarrow>
    recorderStep c (c\<lparr>rc_buffer := acknowledgeRecords rows (rc_buffer c), rc_phase := RecordsIdle\<rparr>)"
| pruning: "rc_phase c = RecordsIdle \<Longrightarrow> recordsPruned before (fst (rc_tables c)) table \<Longrightarrow>
    recorderStep c (c\<lparr>rc_tables := (table, health), rc_cutoff := max (rc_cutoff c) before\<rparr>)"

inductive recorderReach :: "string \<Rightarrow> recorder \<Rightarrow> bool" for runID where
  start: "recorderReach runID (initialRecorder runID)"
| step: "recorderReach runID c \<Longrightarrow> recorderStep c c' \<Longrightarrow> recorderReach runID c'"

end
