(* ===== verification/ProbeRecordsProofs.thy ===== *)
theory ProbeRecordsProofs
  imports ProbeRecords "HOL-Library.Multiset"
begin

text \<open>
  The invariant of the probe recorder: the first result accepted for a probe is kept in the buffer until
  the table holds it, and every record that is lost is counted in the health of its site.
\<close>

section \<open>Rows of the buffer and of the table\<close>

abbreviation bufferRow :: "recorder \<Rightarrow> string \<Rightarrow> ProbeRecord option" where
  "bufferRow c \<equiv> map_of (rb_rows (rc_buffer c))"

abbreviation tableRow :: "recorder \<Rightarrow> string \<Rightarrow> ProbeRecord option" where
  "tableRow c \<equiv> fst (rc_tables c)"

lemma putRecord_rows: "rb_rows (putRecord now v b) = (if accepted b v then AList.update (pr_ID v) v (rb_rows b) else rb_rows b)"
  by (auto simp: putRecord_def accepted_def Let_def split: option.splits)

text \<open>A stage absorbs an older stage of the same probe.\<close>

definition coveredRecord :: "ProbeRecord option \<Rightarrow> ProbeRecord \<Rightarrow> bool" where
  "coveredRecord r v \<longleftrightarrow> (case r of None \<Rightarrow> True | Some t \<Rightarrow> t = v \<or> pending t \<and> identity t = identity v)"

lemma upsert_same_identity:
  assumes "identity t = identity v"
  shows "t\<lparr>pr_FinishedAt := pr_FinishedAt v, pr_Reason := pr_Reason v,
    pr_DurationSeconds := pr_DurationSeconds v, pr_Outcome := pr_Outcome v\<rparr> = v"
  using assms by (cases t, cases v) (simp add: identity_def)

interpretation recordRows: snapshot_table pr_ID upsertRecord "\<lambda>v. v" coveredRecord
proof unfold_locales
  fix r v
  assume "coveredRecord r v"
  then show "upsertRecord r v = v"
    by (auto simp: coveredRecord_def upsertRecord_def upsert_same_identity split: option.splits)
qed (simp add: coveredRecord_def)

section \<open>The invariant\<close>

definition rowsOk :: "recorder \<Rightarrow> bool" where
  "rowsOk c \<longleftrightarrow> distinct (map fst (rb_rows (rc_buffer c))) \<and> length (rb_rows (rc_buffer c)) \<le> probeRecordBufferLimit \<and>
     (\<forall>(i, v) \<in> set (rb_rows (rc_buffer c)). pr_ID v = i \<and> v \<in> set (rc_puts c))"

definition probesOk :: "recorder \<Rightarrow> bool" where
  "probesOk c \<longleftrightarrow>
     (\<forall>u \<in> set (rc_puts c). \<forall>v \<in> set (rc_puts c). pr_ID u = pr_ID v \<longrightarrow> identity u = identity v) \<and>
     (\<forall>i t. tableRow c i = Some t \<longrightarrow> (\<exists>u \<in> set (rc_puts c). pr_ID u = i \<and> identity u = identity t))"

definition settledOk :: "recorder \<Rightarrow> string \<Rightarrow> bool" where
  "settledOk c i \<longleftrightarrow>
     (case rc_settled c i of
        None \<Rightarrow> (\<forall>u. bufferRow c i = Some u \<longrightarrow> pending u) \<and> (\<forall>t. tableRow c i = Some t \<longrightarrow> pending t)
      | Some v \<Rightarrow> \<not> pending v \<and> pr_ID v = i \<and> v \<in> set (rc_puts c) \<and>
          (rc_cutoff c \<le> pr_StartedAt v \<longrightarrow>
             bufferRow c i = Some v \<and> (\<forall>t. tableRow c i = Some t \<longrightarrow> pending t) \<or> tableRow c i = Some v))"

definition writingOk :: "recorder \<Rightarrow> bool \<Rightarrow> ProbeRecord list \<Rightarrow> bool" where
  "writingOk c written rs \<longleftrightarrow> distinct (map pr_ID rs) \<and>
     (\<forall>u \<in> set rs. u \<in> set (rc_puts c) \<and>
        (\<not> pending u \<longrightarrow> bufferRow c (pr_ID u) = Some u \<and>
           (written \<longrightarrow> (\<exists>t. tableRow c (pr_ID u) = Some t \<and> \<not> pending t))))"

definition recordPhaseOk :: "recorder \<Rightarrow> bool" where
  "recordPhaseOk c \<longleftrightarrow>
     (case rc_phase c of RecordsIdle \<Rightarrow> True | RecordsWriting rs hs \<Rightarrow> writingOk c False rs | RecordsWritten rs \<Rightarrow> writingOk c True rs)"

definition recorderInv :: "recorder \<Rightarrow> bool" where
  "recorderInv c \<longleftrightarrow> rowsOk c \<and> probesOk c \<and> (\<forall>i. settledOk c i) \<and> recordPhaseOk c"

lemma row_id: "rowsOk c \<Longrightarrow> (i, v) \<in> set (rb_rows (rc_buffer c)) \<Longrightarrow> pr_ID v = i \<and> v \<in> set (rc_puts c)"
  unfolding rowsOk_def by blast

lemma probesOk_rows:
  assumes "rc_puts c' = rc_puts c" "probesOk c"
    and "\<And>i t. tableRow c' i = Some t \<Longrightarrow> \<exists>u \<in> set (rc_puts c). pr_ID u = i \<and> identity u = identity t"
  shows "probesOk c'"
  using assms unfolding probesOk_def by metis

lemma probesOk_cong: "rc_puts c' = rc_puts c \<Longrightarrow> tableRow c' = tableRow c \<Longrightarrow> probesOk c \<Longrightarrow> probesOk c'"
  unfolding probesOk_def by metis

lemma recInv_initial: "recorderInv (initialRecorder r)"
  by (simp add: recorderInv_def rowsOk_def probesOk_def settledOk_def recordPhaseOk_def initialRecorder_def newProbeRecordBuffer_def)

section \<open>Putting a record\<close>

lemma notePut_simps [simp]:
  "rc_tables (notePut now v c) = rc_tables c" "rc_phase (notePut now v c) = rc_phase c"
  "rc_puts (notePut now v c) = v # rc_puts c" "rc_cutoff (notePut now v c) = rc_cutoff c"
  "rb_rows (rc_buffer (notePut now v c)) =
     (if accepted (rc_buffer c) v then AList.update (pr_ID v) v (rb_rows (rc_buffer c)) else rb_rows (rc_buffer c))"
  by (simp_all add: notePut_def putRecord_rows)

lemma notePut_row: "bufferRow (notePut now v c) i =
    (if accepted (rc_buffer c) v \<and> i = pr_ID v then Some v else bufferRow c i)"
  by (simp add: AList.update_conv')

lemma accepted_pending: "accepted (rc_buffer c) v \<Longrightarrow> bufferRow c (pr_ID v) = Some u \<Longrightarrow> pending u"
  by (simp add: accepted_def)

lemma rowsOk_put: "rowsOk c \<Longrightarrow> rowsOk (notePut now v c)"
proof -
  assume r: "rowsOk c"
  have "length (AList.update (pr_ID v) v (rb_rows (rc_buffer c))) \<le> probeRecordBufferLimit" if "accepted (rc_buffer c) v"
  proof (cases "bufferRow c (pr_ID v)")
    case None
    then show ?thesis using that by (simp add: update_length accepted_def)
  next
    case (Some u)
    then have "pr_ID v \<in> fst ` set (rb_rows (rc_buffer c))" by (metis domI dom_map_of_conv_image_fst)
    then show ?thesis using r by (simp add: rowsOk_def update_length)
  qed
  then show ?thesis using r update_set[of "pr_ID v" v "rb_rows (rc_buffer c)"]
    by (auto simp: rowsOk_def AList.distinct_update)
qed

lemma probesOk_put: "probesOk c \<Longrightarrow> sameProbe (rc_puts c) v \<Longrightarrow> probesOk (notePut now v c)"
  unfolding probesOk_def sameProbe_def notePut_simps by (metis (no_types, lifting) insert_iff list.simps(15))

lemma settledOk_put:
  assumes "settledOk c i"
  shows "settledOk (notePut now v c) i"
proof (cases "rc_settled c i")
  case None
  then show ?thesis using assms unfolding settledOk_def notePut_row
    by (auto simp: notePut_def)
next
  case (Some x)
  then have "rc_settled (notePut now v c) i = Some x" by (auto simp: notePut_def)
  moreover have "bufferRow (notePut now v c) i = Some x" if "bufferRow c i = Some x"
    using that assms Some accepted_pending[of c v x] by (auto simp: notePut_row settledOk_def AList.update_conv')
  ultimately show ?thesis using assms Some by (auto simp: settledOk_def notePut_simps(1-4))
qed

lemma writingOk_put: "writingOk c written rs \<Longrightarrow> writingOk (notePut now v c) written rs"
  unfolding writingOk_def notePut_row using accepted_pending by (auto simp: notePut_simps(1-4))

lemma recInv_put:
  assumes "recorderInv c" "sameProbe (rc_puts c) v"
  shows "recorderInv (notePut now v c)"
  using assms rowsOk_put probesOk_put settledOk_put writingOk_put
  by (simp add: recorderInv_def recordPhaseOk_def split: recordPhase.splits)

section \<open>Snapshots\<close>

lemma snapshot_rows:
  "rb_rows (rc_buffer (noteSnapshot now c)) = filter (\<lambda>kv. \<not> overdue now (snd kv)) (rb_rows (rc_buffer c))"
  by (simp add: noteSnapshot_def snapshotRecords_def Let_def)

lemma noteSnapshot_simps [simp]:
  "rc_tables (noteSnapshot now c) = rc_tables c" "rc_puts (noteSnapshot now c) = rc_puts c"
  "rc_settled (noteSnapshot now c) = rc_settled c"
  "rc_cutoff (noteSnapshot now c) = max (rc_cutoff c) (now - ProbeRecordRetention)"
  by (simp_all add: noteSnapshot_def snapshotRecords_def Let_def)

lemma settledOk_snapshot:
  assumes "rowsOk c" "settledOk c i"
  shows "settledOk (noteSnapshot now c) i"
proof -
  have d: "distinct (map fst (rb_rows (rc_buffer c)))" using assms(1) by (simp add: rowsOk_def)
  have "bufferRow (noteSnapshot now c) i = (case bufferRow c i of Some u \<Rightarrow> if overdue now u then None else Some u | None \<Rightarrow> None)"
    by (simp add: snapshot_rows map_of_filter_distinct[OF d] split: option.split)
  then show ?thesis using assms(2)
    by (auto simp: settledOk_def overdue_def split: option.splits if_splits)
qed

lemma snapshot_phase: "rc_phase (noteSnapshot now c) = RecordsIdle \<or>
  (\<exists>hs. rc_phase (noteSnapshot now c) = RecordsWriting (map snd (filter (\<lambda>kv. \<not> overdue now (snd kv)) (rb_rows (rc_buffer c)))) hs)"
  by (simp add: noteSnapshot_def snapshotRecords_def Let_def)

lemma writingOk_snapshot:
  assumes "rowsOk c"
  shows "writingOk (noteSnapshot now c) False (map snd (filter (\<lambda>kv. \<not> overdue now (snd kv)) (rb_rows (rc_buffer c))))"
proof -
  let ?kept = "filter (\<lambda>kv. \<not> overdue now (snd kv)) (rb_rows (rc_buffer c))"
  have ids: "map pr_ID (map snd ?kept) = map fst ?kept" using assms by (auto simp: rowsOk_def)
  have d: "distinct (map fst ?kept)" using assms by (simp add: rowsOk_def distinct_map_filter)
  have "map_of ?kept (pr_ID v) = Some v \<and> v \<in> set (rc_puts c)" if "v \<in> set (map snd ?kept)" for v
  proof -
    from that obtain i where "(i, v) \<in> set ?kept" by auto
    moreover from this have "pr_ID v = i" "v \<in> set (rc_puts c)" using row_id[OF assms, of i v] by simp_all
    ultimately show ?thesis using map_of_is_SomeI[OF d] by blast
  qed
  then show ?thesis using d unfolding writingOk_def ids snapshot_rows noteSnapshot_simps by blast
qed

lemma recInv_snapshot: "recorderInv c \<Longrightarrow> recorderInv (noteSnapshot now c)"
proof -
  assume inv: "recorderInv c"
  then have r: "rowsOk c" by (simp add: recorderInv_def)
  have "length (rb_rows (rc_buffer (noteSnapshot now c))) \<le> probeRecordBufferLimit"
    unfolding snapshot_rows by (rule order.trans[OF length_filter_le]) (use r in \<open>simp add: rowsOk_def\<close>)
  moreover have "pr_ID v = i \<and> v \<in> set (rc_puts c)" if "(i, v) \<in> set (rb_rows (rc_buffer (noteSnapshot now c)))" for i v
    by (rule row_id[OF r]) (use that in \<open>simp add: snapshot_rows\<close>)
  moreover have "distinct (map fst (rb_rows (rc_buffer (noteSnapshot now c))))"
    using r by (simp add: rowsOk_def snapshot_rows distinct_map_filter)
  ultimately have "rowsOk (noteSnapshot now c)" unfolding rowsOk_def noteSnapshot_simps by blast
  moreover have "recordPhaseOk (noteSnapshot now c)"
    using snapshot_phase[of now c] writingOk_snapshot[OF r, of now] by (auto simp: recordPhaseOk_def)
  moreover have "probesOk (noteSnapshot now c)" by (rule probesOk_cong[where c = c]) (use inv in \<open>simp_all add: recorderInv_def\<close>)
  ultimately show ?thesis using inv settledOk_snapshot[OF r] by (simp add: recorderInv_def)
qed

section \<open>Writing, acknowledging and pruning\<close>

lemma stored_records:
  assumes "StoreProbeRecords outcome outcome' rs hs tables = (done, tables')"
  obtains fin where "storeBatches pr_ID upsertRecord outcome 0 rs (fst tables) = (fin, fst tables')" "done \<longrightarrow> fin"
  using assms by (auto simp: StoreProbeRecords_def split: prod.splits bool.splits)

lemma upsert_keeps_result: "\<not> pending t \<Longrightarrow> upsertRecord (Some t) v = t"
  by (simp add: upsertRecord_def)

lemma upsert_result: "\<not> pending v \<Longrightarrow> \<not> pending (upsertRecord r v)"
  by (auto simp: upsertRecord_def pending_def split: option.split)

text \<open>Every row is covered by a stage being written, or already holds a result.\<close>

lemma row_covered:
  assumes "probesOk c" "v \<in> set (rc_puts c)"
  shows "coveredRecord (tableRow c (pr_ID v)) v \<or> (\<exists>t. tableRow c (pr_ID v) = Some t \<and> \<not> pending t)"
proof (cases "tableRow c (pr_ID v)")
  case (Some t)
  then obtain u where "u \<in> set (rc_puts c)" "pr_ID u = pr_ID v" "identity u = identity t" using assms(1) unfolding probesOk_def by blast
  then have "identity t = identity v" using assms unfolding probesOk_def by metis
  then show ?thesis using Some by (auto simp: coveredRecord_def)
qed (simp add: coveredRecord_def)

text \<open>One row after a write: unchanged, or the written stage.\<close>

lemma written_row:
  assumes inv: "recorderInv c" and ph: "rc_phase c = RecordsWriting rs hs"
    and st: "StoreProbeRecords outcome outcome' rs hs (rc_tables c) = (done, tables)"
  shows "fst tables i = tableRow c i \<and> (done \<longrightarrow> i \<notin> pr_ID ` set rs \<or> (\<exists>t. tableRow c i = Some t \<and> \<not> pending t) \<or> (\<exists>u \<in> set rs. pr_ID u = i \<and> fst tables i = Some u)) \<or>
    (\<exists>u \<in> set rs. pr_ID u = i \<and> fst tables i = Some u \<and> (\<forall>t. tableRow c i = Some t \<longrightarrow> pending t))"
proof (cases "i \<in> pr_ID ` set rs")
  case True
  then obtain u where u: "u \<in> set rs" "i = pr_ID u" by blast
  obtain fin where f: "storeBatches pr_ID upsertRecord outcome 0 rs (tableRow c) = (fin, fst tables)" "done \<longrightarrow> fin"
    by (rule stored_records[OF st])
  have d: "distinct (map pr_ID rs)" and p: "u \<in> set (rc_puts c)"
    using inv ph u(1) by (auto simp: recorderInv_def recordPhaseOk_def writingOk_def)
  have at: "fst tables i = Some (upsertRecord (tableRow c i) u) \<or> \<not> fin \<and> fst tables i = tableRow c i"
    using storeBatches_at(1)[OF d f(1) u(1)] u(2) by simp
  show ?thesis
  proof (cases "\<exists>t. tableRow c i = Some t \<and> \<not> pending t")
    case True
    then show ?thesis using at upsert_keeps_result by auto
  next
    case False
    then have "upsertRecord (tableRow c i) u = u"
      using row_covered[OF _ p] inv u(2) recordRows.absorbs by (auto simp: recorderInv_def)
    then show ?thesis using at f(2) u False by auto
  qed
next
  case False
  obtain fin where f: "storeBatches pr_ID upsertRecord outcome 0 rs (tableRow c) = (fin, fst tables)" by (rule stored_records[OF st])
  have "distinct (map pr_ID rs)" using inv ph by (simp add: recorderInv_def recordPhaseOk_def writingOk_def)
  then show ?thesis using storeBatches_at(2)[OF _ f False] False by simp
qed

lemma recInv_written:
  assumes inv: "recorderInv c" and ph: "rc_phase c = RecordsWriting rs hs"
    and st: "StoreProbeRecords outcome outcome' rs hs (rc_tables c) = (done, tables)"
  shows "recorderInv (c\<lparr>rc_tables := tables, rc_phase := (if done then RecordsWritten rs else RecordsIdle)\<rparr>)" (is "recorderInv ?c")
proof -
  note row = written_row[OF inv ph st]
  have w: "writingOk c False rs" and s: "settledOk c i" and p: "probesOk c" for i
    using inv ph by (simp_all add: recorderInv_def recordPhaseOk_def)
  have inj: "inj_on pr_ID (set rs)" using w by (simp add: writingOk_def distinct_map)
  have rsput: "u \<in> set rs \<Longrightarrow> u \<in> set (rc_puts c)" for u using w by (simp add: writingOk_def)
  have "\<exists>u \<in> set (rc_puts c). pr_ID u = i \<and> identity u = identity t" if "fst tables i = Some t" for i t
    using row[of i] that p rsput unfolding probesOk_def by (metis option.inject)
  then have "probesOk ?c" using probesOk_rows[of ?c c] p by simp
  moreover have "settledOk ?c i" for i
  proof (cases "fst tables i = tableRow c i")
    case True
    then show ?thesis using s[of i] by (auto simp: settledOk_def split: option.splits)
  next
    case False
    then obtain u where u: "u \<in> set rs" "pr_ID u = i" "fst tables i = Some u" "\<forall>t. tableRow c i = Some t \<longrightarrow> pending t"
      using row[of i] by blast
    have b: "\<not> pending u \<Longrightarrow> bufferRow c i = Some u" using w u(1,2) by (auto simp: writingOk_def)
    show ?thesis using s[of i] u(3,4) b by (cases "pending u") (auto simp: settledOk_def split: option.splits)
  qed
  moreover have "writingOk ?c True rs" if "done"
  proof -
    have "\<exists>t. fst tables (pr_ID u) = Some t \<and> \<not> pending t" if "u \<in> set rs" "\<not> pending u" for u
    proof -
      have "u' = u" if "u' \<in> set rs" "pr_ID u' = pr_ID u" for u'
        using inj_onD[OF inj that(2,1) \<open>u \<in> set rs\<close>] .
      then show ?thesis using row[of "pr_ID u"] that \<open>done\<close> by (metis image_eqI)
    qed
    then show ?thesis using w by (simp add: writingOk_def)
  qed
  ultimately show ?thesis using inv by (simp add: recorderInv_def rowsOk_def recordPhaseOk_def)
qed

definition ackRecord :: "recorder \<Rightarrow> ProbeRecord \<Rightarrow> recorder" where
  "ackRecord c v = c\<lparr>rc_buffer := (rc_buffer c)\<lparr>rb_rows := acknowledgeRecord (rb_rows (rc_buffer c)) v\<rparr>\<rparr>"

lemma ackRecord_simps [simp]:
  "rc_tables (ackRecord c v) = rc_tables c" "rc_phase (ackRecord c v) = rc_phase c" "rc_puts (ackRecord c v) = rc_puts c"
  "rc_settled (ackRecord c v) = rc_settled c" "rc_cutoff (ackRecord c v) = rc_cutoff c" "rc_lost (ackRecord c v) = rc_lost c"
  "rb_health (rc_buffer (ackRecord c v)) = rb_health (rc_buffer c)" "rb_runID (rc_buffer (ackRecord c v)) = rb_runID (rc_buffer c)"
  by (simp_all add: ackRecord_def)

lemma ackRecord_row: "bufferRow (ackRecord c v) i =
    (if i = pr_ID v \<and> (\<exists>u. bufferRow c i = Some u \<and> pr_Outcome u = pr_Outcome v) then None else bufferRow c i)"
  by (simp add: ackRecord_def acknowledgeRecord_def AList.delete_conv' split: option.split)

lemma ackRecord_subset: "set (rb_rows (rc_buffer (ackRecord c v))) \<subseteq> set (rb_rows (rc_buffer c))"
  by (auto simp: ackRecord_def acknowledgeRecord_def AList.delete_eq split: option.splits if_splits)

lemma rowsOk_ack: "rowsOk c \<Longrightarrow> rowsOk (ackRecord c v)"
proof -
  assume r: "rowsOk c"
  have "distinct (map fst (rb_rows (rc_buffer (ackRecord c v))))"
    using r by (auto simp: rowsOk_def ackRecord_def acknowledgeRecord_def AList.distinct_delete split: option.split)
  moreover have "length (rb_rows (rc_buffer (ackRecord c v))) \<le> length (rb_rows (rc_buffer c))"
    by (auto simp: ackRecord_def acknowledgeRecord_def AList.length_delete_le split: option.split)
  ultimately show ?thesis using r ackRecord_subset[of c v] order.trans unfolding rowsOk_def ackRecord_simps by blast
qed

lemma settledOk_ack:
  assumes "settledOk c i" "writingOk c True (v # vs)"
  shows "settledOk (ackRecord c v) i"
proof (cases "rc_settled c i")
  case None
  then show ?thesis using assms(1) by (simp add: settledOk_def ackRecord_row)
next
  case (Some x)
  have "\<exists>t. tableRow c i = Some t \<and> \<not> pending t"
    if "i = pr_ID v" "bufferRow c i = Some x" "pr_Outcome x = pr_Outcome v" "\<not> pending x"
    using that assms(2) by (auto simp: writingOk_def pending_def)
  then show ?thesis using assms(1) Some by (auto simp: settledOk_def ackRecord_row)
qed

lemma writingOk_ack:
  assumes "writingOk c True (v # vs)"
  shows "writingOk (ackRecord c v) True vs"
proof -
  have "pr_ID v \<notin> pr_ID ` set vs" using assms by (simp add: writingOk_def)
  then have "bufferRow (ackRecord c v) (pr_ID u) = bufferRow c (pr_ID u)" if "u \<in> set vs" for u
    using that ackRecord_row[of c v "pr_ID u"] by (metis imageI)
  then show ?thesis using assms by (simp add: writingOk_def)
qed

lemma recInv_ack:
  "recorderInv c \<Longrightarrow> rc_phase c = RecordsIdle \<Longrightarrow> writingOk c True vs \<Longrightarrow> recorderInv (foldl ackRecord c vs)"
proof (induction vs arbitrary: c)
  case (Cons v vs)
  have "recorderInv (ackRecord c v)"
    using Cons.prems rowsOk_ack settledOk_ack probesOk_cong[of "ackRecord c v" c]
    by (simp add: recorderInv_def recordPhaseOk_def)
  then show ?case using Cons.IH[OF _ _ writingOk_ack[OF Cons.prems(3)]] Cons.prems(2) by simp
qed simp

lemma ackRecord_fold: "foldl ackRecord c vs = c\<lparr>rc_buffer := acknowledgeRecords vs (rc_buffer c)\<rparr>"
  by (induction vs arbitrary: c) (simp_all add: acknowledgeRecords_def ackRecord_def)

lemma settledOk_phase: "settledOk (c\<lparr>rc_phase := p\<rparr>) i = settledOk c i"
  by (simp add: settledOk_def split: option.split)

lemma recInv_acknowledged:
  assumes "recorderInv c" "rc_phase c = RecordsWritten rs"
  shows "recorderInv (c\<lparr>rc_buffer := acknowledgeRecords rs (rc_buffer c), rc_phase := RecordsIdle\<rparr>)"
proof -
  let ?c = "c\<lparr>rc_phase := RecordsIdle\<rparr>"
  have "writingOk ?c True rs" using assms by (simp add: recorderInv_def recordPhaseOk_def writingOk_def)
  moreover have "recorderInv ?c"
    using assms(1) probesOk_cong[of ?c c] by (simp add: recorderInv_def rowsOk_def recordPhaseOk_def settledOk_phase)
  ultimately have "recorderInv (foldl ackRecord ?c rs)" using recInv_ack by simp
  moreover have "foldl ackRecord ?c rs = c\<lparr>rc_buffer := acknowledgeRecords rs (rc_buffer c), rc_phase := RecordsIdle\<rparr>"
    unfolding ackRecord_fold by simp
  ultimately show ?thesis by simp
qed

lemma recInv_pruned:
  assumes inv: "recorderInv c" and idle: "rc_phase c = RecordsIdle" and pr: "recordsPruned before (tableRow c) table"
  shows "recorderInv (c\<lparr>rc_tables := (table, health), rc_cutoff := max (rc_cutoff c) before\<rparr>)" (is "recorderInv ?c")
proof -
  have sub: "tableRow c i = Some t" if "table i = Some t" for i t using pr that unfolding recordsPruned_def by (metis option.distinct(1))
  have kept: "table i = Some t" if "tableRow c i = Some t" "before \<le> pr_StartedAt t" for i t
    using pr that unfolding recordsPruned_def by (metis leD option.inject)
  have p: "probesOk c" using inv by (simp add: recorderInv_def)
  have "probesOk ?c"
  proof (rule probesOk_rows[OF _ p])
    show "\<exists>u \<in> set (rc_puts c). pr_ID u = i \<and> identity u = identity t" if "tableRow ?c i = Some t" for i t
    proof -
      have "tableRow c i = Some t" using that sub by simp
      then show ?thesis using p unfolding probesOk_def by blast
    qed
  qed simp
  moreover have "settledOk ?c i" for i
  proof -
    have ok: "settledOk c i" using inv by (simp add: recorderInv_def)
    have keep: "\<forall>t. table i = Some t \<longrightarrow> pending t" if "\<forall>t. tableRow c i = Some t \<longrightarrow> pending t" using that sub by blast
    have eqs: "rc_settled ?c = rc_settled c" "bufferRow ?c = bufferRow c" "tableRow ?c = table" "rc_puts ?c = rc_puts c"
      "rc_cutoff ?c = max (rc_cutoff c) before" by simp_all
    show ?thesis
    proof (cases "rc_settled c i")
      case None
      then show ?thesis using ok keep unfolding settledOk_def eqs None option.case by blast
    next
      case (Some v)
      then show ?thesis using ok keep kept[of i v] unfolding settledOk_def eqs Some option.case max.bounded_iff by blast
    qed
  qed
  ultimately show ?thesis using inv idle by (simp add: recorderInv_def rowsOk_def recordPhaseOk_def)
qed

lemma recReach_inv: "recorderReach r c \<Longrightarrow> recorderInv c"
proof (induction rule: recorderReach.induct)
  case (step c c')
  from step(2) show ?case
    using step.IH by cases (simp_all add: recInv_put recInv_snapshot recInv_written recInv_acknowledged recInv_pruned)
qed (rule recInv_initial)

section \<open>Losses\<close>

definition droppedAt :: "(string \<times> ProbeRecorderHealth) list \<Rightarrow> string \<Rightarrow> int64" where
  "droppedAt hs site = (case map_of hs site of None \<Rightarrow> 0 | Some h \<Rightarrow> rh_DroppedRecords h)"

definition healthNamed :: "string \<Rightarrow> (string \<times> ProbeRecorderHealth) list \<Rightarrow> bool" where
  "healthNamed r hs \<longleftrightarrow> (\<forall>site h. map_of hs site = Some h \<longrightarrow> rh_RunID h = r)"

definition lossInv :: "string \<Rightarrow> recorder \<Rightarrow> bool" where
  "lossInv r c \<longleftrightarrow> rb_runID (rc_buffer c) = r \<and> healthNamed r (rb_health (rc_buffer c)) \<and>
     (\<forall>kv \<in> set (rb_rows (rc_buffer c)). map_of (rb_health (rc_buffer c)) (pr_InstanceID (snd kv)) \<noteq> None) \<and>
     (\<forall>site. droppedAt (rb_health (rc_buffer c)) site = int (count (mset (rc_lost c)) site))"

lemma healthOf_named: "healthNamed (rb_runID b) (rb_health b) \<Longrightarrow> rb_runID b \<noteq> [] \<Longrightarrow> rh_RunID (healthOf now site b) = rb_runID b"
  by (simp add: healthNamed_def healthOf_def split: option.split)

lemma healthOf_dropped: "healthNamed (rb_runID b) (rb_health b) \<Longrightarrow> rb_runID b \<noteq> [] \<Longrightarrow>
  rh_DroppedRecords (healthOf now site b) = droppedAt (rb_health b) site"
  by (auto simp: healthNamed_def healthOf_def droppedAt_def split: option.split)

lemma droppedAt_update: "droppedAt (AList.update site h hs) site' = (if site' = site then rh_DroppedRecords h else droppedAt hs site')"
  by (simp add: droppedAt_def AList.update_conv')

lemma healthNamed_update: "healthNamed r hs \<Longrightarrow> rh_RunID h = r \<Longrightarrow> healthNamed r (AList.update site h hs)"
  by (simp add: healthNamed_def AList.update_conv')

lemma noteLoss_simps [simp]: "rh_DroppedRecords (noteLoss now h) = rh_DroppedRecords h + 1" "rh_RunID (noteLoss now h) = rh_RunID h"
  by (simp_all add: noteLoss_def)

text \<open>The health after a \<open>put\<close>: one more loss exactly when the record was rejected for want of room.\<close>

lemma put_health: "rb_health (putRecord now v b) =
    (let h = healthOf now (pr_InstanceID v) b
     in if rejected b v then AList.update (pr_InstanceID v) (noteLoss now h) (rb_health b)
        else if accepted b v then AList.update (pr_InstanceID v) h (rb_health b) else rb_health b)"
  by (auto simp: putRecord_def rejected_def accepted_def Let_def split: option.splits)

lemma loss_put:
  assumes "lossInv r c" "r \<noteq> []"
  shows "lossInv r (notePut now v c)"
proof -
  let ?b = "rc_buffer c" and ?h = "healthOf now (pr_InstanceID v) (rc_buffer c)"
  have named: "healthNamed (rb_runID ?b) (rb_health ?b)" and run: "rb_runID ?b = r" using assms(1) by (auto simp: lossInv_def)
  have h: "rh_RunID ?h = r" "rh_DroppedRecords ?h = droppedAt (rb_health ?b) (pr_InstanceID v)"
    using healthOf_named[OF named] healthOf_dropped[OF named] run assms(2) by simp_all
  have hb: "rb_health (rc_buffer (notePut now v c)) = rb_health (putRecord now v ?b)"
    "rb_runID (rc_buffer (notePut now v c)) = r" using run by (simp_all add: notePut_def putRecord_def Let_def split: option.split)
  have "healthNamed r (rb_health (putRecord now v ?b))"
    using named run h(1) by (simp add: put_health Let_def healthNamed_update)
  moreover have "droppedAt (rb_health (putRecord now v ?b)) site = int (count (mset (rc_lost (notePut now v c))) site)" for site
    using assms(1) h(2) by (simp add: put_health Let_def droppedAt_update lossInv_def notePut_def)
  moreover have "map_of (rb_health (putRecord now v ?b)) (pr_InstanceID (snd kv)) \<noteq> None"
    if "kv \<in> set (rb_rows (rc_buffer (notePut now v c)))" for kv
  proof -
    have "kv = (pr_ID v, v) \<and> accepted ?b v \<or> kv \<in> set (rb_rows ?b)"
      using that update_set[of "pr_ID v" v "rb_rows ?b"] by (auto split: if_splits)
    then show ?thesis using assms(1) by (auto simp: put_health Let_def AList.update_conv' lossInv_def rejected_def accepted_def)
  qed
  ultimately show ?thesis unfolding lossInv_def hb by blast
qed

lemma lose_fold:
  assumes "healthNamed r hs" "\<forall>kv \<in> set kvs. map_of hs (pr_InstanceID (snd kv)) \<noteq> None"
  shows "healthNamed r (foldl (loseRecord now) hs kvs) \<and>
    (\<forall>site. map_of hs site \<noteq> None \<longrightarrow> map_of (foldl (loseRecord now) hs kvs) site \<noteq> None) \<and>
    (\<forall>site. droppedAt (foldl (loseRecord now) hs kvs) site =
       droppedAt hs site + int (count (mset (map (pr_InstanceID \<circ> snd) kvs)) site))"
  using assms
proof (induction kvs arbitrary: hs)
  case (Cons kv kvs)
  then obtain h where h: "map_of hs (pr_InstanceID (snd kv)) = Some h" by auto
  let ?hs = "loseRecord now hs kv"
  have eq: "?hs = AList.update (pr_InstanceID (snd kv)) (noteLoss now h) hs" using h by (simp add: loseRecord_def)
  have "rh_RunID h = r" using Cons.prems(1) h by (simp add: healthNamed_def)
  then have "healthNamed r ?hs" using Cons.prems(1) by (simp add: eq healthNamed_update)
  moreover have mono: "map_of hs site \<noteq> None \<Longrightarrow> map_of ?hs site \<noteq> None" for site by (simp add: eq AList.update_conv')
  moreover have "droppedAt ?hs site = droppedAt hs site + (if site = pr_InstanceID (snd kv) then 1 else 0)" for site
    using h by (simp add: eq droppedAt_update) (simp add: droppedAt_def)
  moreover have "\<forall>kv' \<in> set kvs. map_of ?hs (pr_InstanceID (snd kv')) \<noteq> None" using Cons.prems(2) mono by simp
  ultimately show ?case using Cons.IH[of ?hs] mono by (simp add: add.assoc)
qed simp

lemma loss_snapshot:
  assumes "lossInv r c"
  shows "lossInv r (noteSnapshot now c)"
proof -
  let ?over = "filter (\<lambda>kv. overdue now (snd kv)) (rb_rows (rc_buffer c))"
  let ?hs = "foldl (loseRecord now) (rb_health (rc_buffer c)) ?over"
  have eqs: "rb_health (rc_buffer (noteSnapshot now c)) = ?hs" "rb_runID (rc_buffer (noteSnapshot now c)) = rb_runID (rc_buffer c)"
    "rc_lost (noteSnapshot now c) = map (pr_InstanceID \<circ> snd) ?over @ rc_lost c"
    by (simp_all add: noteSnapshot_def snapshotRecords_def Let_def)
  have f: "healthNamed r ?hs \<and> (\<forall>site. map_of (rb_health (rc_buffer c)) site \<noteq> None \<longrightarrow> map_of ?hs site \<noteq> None) \<and>
    (\<forall>site. droppedAt ?hs site = droppedAt (rb_health (rc_buffer c)) site + int (count (mset (map (pr_InstanceID \<circ> snd) ?over)) site))"
    by (rule lose_fold) (use assms in \<open>auto simp: lossInv_def\<close>)
  then show ?thesis using assms unfolding lossInv_def eqs snapshot_rows by simp
qed

lemma loss_acknowledged:
  assumes "lossInv r c"
  shows "lossInv r (c\<lparr>rc_buffer := acknowledgeRecords rs (rc_buffer c), rc_phase := p\<rparr>)"
proof -
  have one: "lossInv r x \<Longrightarrow> lossInv r (ackRecord x v)" for x v using ackRecord_subset[of x v] by (auto simp: lossInv_def)
  have "lossInv r (foldl ackRecord c rs)" using assms by (induction rs arbitrary: c) (simp_all add: one)
  then show ?thesis unfolding ackRecord_fold by (simp add: lossInv_def)
qed

lemma recReach_loss: "recorderReach r c \<Longrightarrow> r \<noteq> [] \<Longrightarrow> lossInv r c"
proof (induction rule: recorderReach.induct)
  case start
  then show ?case by (simp add: lossInv_def initialRecorder_def newProbeRecordBuffer_def healthNamed_def droppedAt_def)
next
  case (step c c')
  from step(2) show ?case
    using step.IH step.prems
    by cases (simp_all add: loss_put loss_snapshot loss_acknowledged, simp_all add: lossInv_def)
qed

section \<open>Properties\<close>

text \<open>C25: a probe result is durable and unique.  Whatever the interleaving of puts, snapshots, writes (also those
  that fail after or before their commit), acknowledgements and pruning, the first result accepted for a probe
  within retention is either still buffered or stored as it is, later stages never replace it, the buffer never
  exceeds its limit, and the health of each site counts exactly the records that were lost.\<close>

theorem probe_result_durable:
  assumes "recorderReach r c" and "r \<noteq> []"
  shows "(\<forall>v. rc_settled c i = Some v \<and> rc_cutoff c \<le> pr_StartedAt v \<longrightarrow>
      map_of (rb_rows (rc_buffer c)) i = Some v \<or> fst (rc_tables c) i = Some v) \<and>
    (\<forall>v t. rc_settled c i = Some v \<and> rc_cutoff c \<le> pr_StartedAt v \<and> fst (rc_tables c) i = Some t \<longrightarrow>
      pr_Outcome t = ''pending'' \<or> t = v) \<and>
    length (rb_rows (rc_buffer c)) \<le> 65536 \<and>
    droppedAt (rb_health (rc_buffer c)) site = int (count (mset (rc_lost c)) site)"
proof -
  have "rowsOk c" and s: "settledOk c i" using recReach_inv[OF assms(1)] by (simp_all add: recorderInv_def)
  moreover have "lossInv r c" by (rule recReach_loss[OF assms])
  ultimately show ?thesis
    by (auto simp: rowsOk_def settledOk_def lossInv_def pending_def probeRecordBufferLimit_def)
qed

definition exampleRecord :: ProbeRecord where
  "exampleRecord = \<lparr>pr_RoundID = [], pr_RoundIndex = 0, pr_ID = ''p1'', pr_InstanceID = ''site'', pr_ChannelID = 7,
     pr_ChannelName = ''ch'', pr_ModelName = ''m'', pr_Kind = ''scheduled'', pr_StartedAt = 70000000000000000000,
     pr_DeadlineAt = 70000000030000000000, pr_FinishedAt = Some 70000000002000000000, pr_Outcome = ''success'', pr_Reason = [],
     pr_DurationSeconds = Some 2\<rparr>"

lemma example_recorder_reach:
  "recorderReach ''run'' (notePut 70000000002000000000 exampleRecord (initialRecorder ''run''))"
proof -
  have "sameProbe (rc_puts (initialRecorder ''run'')) exampleRecord" by (simp add: sameProbe_def initialRecorder_def)
  then show ?thesis using recorderStep.putting recorderReach.intros by blast
qed

theorem probe_result_durable_witness:
  "\<exists>c. recorderReach ''run'' c \<and> rc_settled c ''p1'' = Some exampleRecord \<and>
     (map_of (rb_rows (rc_buffer c)) ''p1'' = Some exampleRecord \<or> fst (rc_tables c) ''p1'' = Some exampleRecord) \<and>
     droppedAt (rb_health (rc_buffer c)) ''site'' = 0"
proof -
  let ?c = "notePut 70000000002000000000 exampleRecord (initialRecorder ''run'')"
  have s: "rc_settled ?c ''p1'' = Some exampleRecord"
    by (simp add: notePut_def accepted_def initialRecorder_def newProbeRecordBuffer_def exampleRecord_def pending_def probeRecordBufferLimit_def)
  have l: "rc_lost ?c = []"
    by (simp add: notePut_def rejected_def initialRecorder_def newProbeRecordBuffer_def probeRecordBufferLimit_def)
  have "rc_cutoff ?c \<le> pr_StartedAt exampleRecord" by (simp add: initialRecorder_def exampleRecord_def)
  then show ?thesis
    using probe_result_durable[OF example_recorder_reach, of "''p1''" "''site''"] s l example_recorder_reach
    by (intro exI[of _ ?c]) simp
qed

end
