(* ===== verification/ArchivePipeline.thy ===== *)
theory ArchivePipeline
  imports Strings AssocMaps "HOL-Library.Word" "HOL-Library.List_Lexorder" "HOL-Library.Char_ord"
begin

text \<open>
  The durable state of the archive scheduler (\<open>internal/archivepipeline/state.go\<close> and the checks of
  \<open>codec.go\<close>): task reservations, days with their revisions, and the transitions between them.  Counters are
  64-bit words.  Go maps are association lists, a nil map is \<open>None\<close>; dates are texts compared byte by byte.
\<close>

section \<open>Dates and identifiers\<close>

definition leapYear :: "nat \<Rightarrow> bool" where
  "leapYear y \<longleftrightarrow> 4 dvd y \<and> (\<not> 100 dvd y \<or> 400 dvd y)"

definition daysIn :: "nat \<Rightarrow> nat \<Rightarrow> nat" where
  "daysIn y m = (if m = 2 then (if leapYear y then 29 else 28) else if m \<in> {4, 6, 9, 11} then 30 else 31)"

text \<open>\<open>time.Parse\<close> with the layout \<open>2006-01-02\<close>: fixed-width digits, month and day in range.  Formatting the
  result gives the text back, because every field has a fixed width.\<close>

definition parseDate :: "string \<Rightarrow> (nat \<times> nat \<times> nat) option" where
  "parseDate s =
     (if length s = 10 \<and> s ! 4 = CHR ''-'' \<and> s ! 7 = CHR ''-'' then
        (case (digitsVal 0 (take 4 s), digitsVal 0 (take 2 (drop 5 s)), digitsVal 0 (drop 8 s)) of
           (Some y, Some m, Some d) \<Rightarrow> if 1 \<le> m \<and> m \<le> 12 \<and> 1 \<le> d \<and> d \<le> daysIn y m then Some (y, m, d) else None
         | _ \<Rightarrow> None)
      else None)"

definition validDate :: "string \<Rightarrow> bool" where
  "validDate date \<longleftrightarrow> parseDate date \<noteq> None \<and> ''1970-01-01'' \<le> date \<and> date \<le> ''9998-12-31''"

definition lowerHex :: "char \<Rightarrow> bool" where
  "lowerHex c \<longleftrightarrow> (let n = of_char c :: nat in (48 \<le> n \<and> n \<le> 57) \<or> (97 \<le> n \<and> n \<le> 102))"

definition IDBytes :: "string \<Rightarrow> bool" where
  "IDBytes v \<longleftrightarrow> length v = 32 \<and> list_all lowerHex v \<and> v \<noteq> replicate 32 CHR ''0''"

section \<open>Data\<close>

type_synonym uint64 = "64 word"

definition MaxUint64 :: uint64 where
  "MaxUint64 = - 1"

datatype Task = Migration | Organization | Verification | Collection | OtherTask string

datatype pipeError = ErrConflict | ErrNotReady | ErrStale

record Settings =
  se_RetryToken :: string
  se_Migration :: bool
  se_Organization :: bool
  se_Verification :: bool
  se_Collection :: bool
  se_CollectionFrom :: string
  se_CollectionThrough :: string
  se_CollectionNewestFirst :: bool

record Work =
  wk_Token :: uint64
  wk_Task :: Task
  wk_Date :: string
  wk_Revision :: uint64

text \<open>Operations and diagnostics of \<open>archivecontract/execution.go\<close>.\<close>

record Operation =
  op_Phase :: string
  op_Code :: string
  op_Database :: string
  op_Table :: string
  op_Date :: string
  op_State :: string
  op_StartedAt :: time
  op_FinishedAt :: "time option"

record Diagnostic =
  dg_Code :: string
  dg_Operation :: "Operation option"
  dg_MySQLNumber :: int
  dg_SQLState :: string
  dg_RowID :: int64
  dg_RowBytes :: uint64
  dg_OccurredAt :: time
  dg_RetryAt :: "time option"

record Result =
  re_CompletedAt :: "time option"
  re_Diagnostic :: "Diagnostic option"
  re_Round :: uint64
  re_Revision :: uint64
  re_Code :: string
  re_SealVersion :: string

record ArchiveDay =
  da_Revision :: uint64
  da_Collected :: bool
  da_OrganizedRevision :: uint64
  da_Result :: "Result option"
  da_LastSeal :: "Result option"

type_synonym dayMap = "(string \<times> ArchiveDay) list"
type_synonym activeMap = "(Task \<times> Work) list"

record ArchiveState =
  as_Version :: int
  as_Settings :: Settings
  as_SchemaReady :: bool
  as_MigrationDone :: bool
  as_Round :: uint64
  as_Cutoff :: string
  as_Frontier :: string
  as_NextToken :: uint64
  as_Days :: "dayMap option"
  as_Active :: "activeMap option"

definition NewArchive :: "Settings \<Rightarrow> ArchiveState" where
  "NewArchive settings = \<lparr>as_Version = 1, as_Settings = settings, as_SchemaReady = False, as_MigrationDone = False,
     as_Round = 0, as_Cutoff = [], as_Frontier = [], as_NextToken = 0, as_Days = Some [], as_Active = Some []\<rparr>"

text \<open>Reading a nil map finds nothing.\<close>

definition days :: "ArchiveState \<Rightarrow> dayMap" where
  "days s = (case as_Days s of None \<Rightarrow> [] | Some m \<Rightarrow> m)"

definition active :: "ArchiveState \<Rightarrow> activeMap" where
  "active s = (case as_Active s of None \<Rightarrow> [] | Some m \<Rightarrow> m)"

definition dayAt :: "ArchiveState \<Rightarrow> string \<Rightarrow> ArchiveDay option" where
  "dayAt s date = map_of (days s) date"

definition workAt :: "ArchiveState \<Rightarrow> Task \<Rightarrow> Work option" where
  "workAt s task = map_of (active s) task"

definition zeroDay :: ArchiveDay where
  "zeroDay = \<lparr>da_Revision = 0, da_Collected = False, da_OrganizedRevision = 0, da_Result = None, da_LastSeal = None\<rparr>"

section \<open>Validation of settings and diagnostics\<close>

definition SettingsValidate :: "Settings \<Rightarrow> bool" where
  "SettingsValidate s \<longleftrightarrow>
     (if se_RetryToken s \<noteq> [] \<and> \<not> IDBytes (se_RetryToken s) then False
      else if se_CollectionFrom s = [] \<and> se_CollectionThrough s = [] then \<not> se_CollectionNewestFirst s
      else validDate (se_CollectionFrom s) \<and> validDate (se_CollectionThrough s) \<and> se_CollectionFrom s \<le> se_CollectionThrough s)"

definition SameRange :: "Settings \<Rightarrow> Settings \<Rightarrow> bool" where
  "SameRange s other \<longleftrightarrow> se_CollectionFrom s = se_CollectionFrom other \<and>
     se_CollectionThrough s = se_CollectionThrough other \<and> se_CollectionNewestFirst s = se_CollectionNewestFirst other"

fun enabled :: "Settings \<Rightarrow> Task \<Rightarrow> bool" where
  "enabled s Migration = se_Migration s"
| "enabled s Organization = se_Organization s"
| "enabled s Verification = se_Verification s"
| "enabled s Collection = se_Collection s"
| "enabled s (OtherTask t) = False"

definition charIn :: "(nat \<times> nat) list \<Rightarrow> char \<Rightarrow> bool" where
  "charIn ranges c \<longleftrightarrow> (\<exists>(lo, hi) \<in> set ranges. lo \<le> (of_char c :: nat) \<and> (of_char c :: nat) \<le> hi)"

text \<open>The patterns \<open>^[a-z][a-z0-9_]{0,127}$\<close> and \<open>^[A-Z0-9]{5}$\<close>.\<close>

definition executionIdentifier :: "string \<Rightarrow> bool" where
  "executionIdentifier v \<longleftrightarrow> v \<noteq> [] \<and> length v \<le> 128 \<and> charIn [(97, 122)] (hd v) \<and>
     list_all (charIn [(97, 122), (48, 57), (95, 95)]) (tl v)"

definition executionSQLState :: "string \<Rightarrow> bool" where
  "executionSQLState v \<longleftrightarrow> length v = 5 \<and> list_all (charIn [(65, 90), (48, 57)]) v"

text \<open>\<open>DateBounds\<close> succeeds for dates of the years 1970 to 9999.\<close>

definition dateBoundsOk :: "string \<Rightarrow> bool" where
  "dateBoundsOk date \<longleftrightarrow> (case parseDate date of Some (y, m, d) \<Rightarrow> 1970 \<le> y | None \<Rightarrow> False)"

definition OperationValidate :: "Operation \<Rightarrow> bool" where
  "OperationValidate op \<longleftrightarrow>
     executionIdentifier (op_Phase op) \<and> executionIdentifier (op_Code op) \<and>
     (op_Table op = [] \<or> executionIdentifier (op_Table op)) \<and> op_StartedAt op \<noteq> 0 \<and>
     op_Database op \<in> {''source'', ''archive'', ''both'', ''control''} \<and>
     (op_Date op = [] \<or> dateBoundsOk (op_Date op)) \<and>
     op_State op \<in> {''executing'', ''completed'', ''failed''} \<and>
     (op_State op = ''executing'' \<longleftrightarrow> op_FinishedAt op = None) \<and>
     (case op_FinishedAt op of Some t \<Rightarrow> \<not> t < op_StartedAt op | None \<Rightarrow> True)"

definition DiagnosticValidate :: "Diagnostic \<Rightarrow> bool" where
  "DiagnosticValidate d \<longleftrightarrow>
     executionIdentifier (dg_Code d) \<and> dg_OccurredAt d \<noteq> 0 \<and> \<not> dg_RowID d < 0 \<and>
     (case dg_Operation d of Some op \<Rightarrow> OperationValidate op | None \<Rightarrow> True) \<and>
     (dg_SQLState d = [] \<or> executionSQLState (dg_SQLState d)) \<and>
     (case dg_RetryAt d of Some t \<Rightarrow> \<not> t < dg_OccurredAt d | None \<Rightarrow> True)"

section \<open>Rounds and committed rows\<close>

text \<open>\<open>location\<close> is the calendar of the site's time zone: the date of the day before an instant, or nothing for a
  nil location.\<close>

definition BeginRound :: "time \<Rightarrow> (time \<Rightarrow> string) option \<Rightarrow> ArchiveState \<Rightarrow> pipeError option \<times> ArchiveState" where
  "BeginRound now location s =
     (case location of
        None \<Rightarrow> (Some ErrConflict, s)
      | Some yesterday \<Rightarrow>
          if now = 0 \<or> active s \<noteq> [] \<or> as_Round s = MaxUint64 then (Some ErrConflict, s)
          else if \<not> validDate (yesterday now) then (Some ErrConflict, s)
          else (None, s\<lparr>as_Round := as_Round s + 1, as_Cutoff := yesterday now\<rparr>))"

definition observeDate :: "string \<times> dayMap \<Rightarrow> string \<Rightarrow> string \<times> dayMap" where
  "observeDate fm date =
     (if fst fm < date then date else fst fm,
      if map_of (snd fm) date = None then AList.update date (zeroDay\<lparr>da_Revision := 1\<rparr>) (snd fm) else snd fm)"

definition mutateDate :: "dayMap \<Rightarrow> string \<times> bool \<Rightarrow> dayMap" where
  "mutateDate m dc =
     (if snd dc then
        let d = (case map_of m (fst dc) of Some d \<Rightarrow> d | None \<Rightarrow> zeroDay)
        in AList.update (fst dc) (d\<lparr>da_Revision := da_Revision d + 1, da_OrganizedRevision := 0, da_Result := None\<rparr>) m
      else m)"

definition observeBad :: "ArchiveState \<Rightarrow> string list \<Rightarrow> (string \<times> bool) list \<Rightarrow> bool" where
  "observeBad s observed changed \<longleftrightarrow>
     as_Days s = None \<or> \<not> list_all validDate observed \<or>
     list_ex (\<lambda>(date, mutation). \<not> validDate date \<or>
       (case dayAt s date of Some d \<Rightarrow> mutation \<and> da_Revision d = MaxUint64 | None \<Rightarrow> False)) changed"

definition ObserveCommittedRows :: "string list \<Rightarrow> (string \<times> bool) list \<Rightarrow> ArchiveState \<Rightarrow> pipeError option \<times> ArchiveState" where
  "ObserveCommittedRows observed changed s =
     (if observeBad s observed changed then (Some ErrConflict, s)
      else
        let (frontier, m1) = foldl observeDate (as_Frontier s, days s) observed;
            m2 = foldl mutateDate m1 changed
        in (None, s\<lparr>as_Frontier := frontier,
             as_Days := Some (map (\<lambda>(date, d). (date, d\<lparr>da_Collected := date < frontier\<rparr>)) m2)\<rparr>))"

section \<open>Choosing and reserving work\<close>

definition attempted :: "ArchiveState \<Rightarrow> ArchiveDay \<Rightarrow> bool" where
  "attempted s d \<longleftrightarrow>
     (case da_Result d of
        Some r \<Rightarrow> re_Revision r = da_Revision d \<and> (re_SealVersion r \<noteq> [] \<or> re_Round r = as_Round s)
      | None \<Rightarrow> False)"

definition eligible :: "ArchiveState \<Rightarrow> string \<times> ArchiveDay \<Rightarrow> bool" where
  "eligible s dd \<longleftrightarrow> \<not> as_Cutoff s < fst dd \<and> da_Collected (snd dd) \<and> \<not> attempted s (snd dd)"

definition NextDate :: "ArchiveState \<Rightarrow> string" where
  "NextDate s = (case sort (map fst (filter (eligible s) (days s))) of [] \<Rightarrow> [] | date # _ \<Rightarrow> date)"

definition organized :: "ArchiveDay \<Rightarrow> bool" where
  "organized d \<longleftrightarrow> da_OrganizedRevision d = da_Revision d"

text \<open>The guards of one task; success gives the work without its token.\<close>

definition reservable :: "Task \<Rightarrow> ArchiveState \<Rightarrow> Work + pipeError" where
  "reservable task s =
     (let w = \<lparr>wk_Token = 0, wk_Task = task, wk_Date = [], wk_Revision = 0\<rparr>; date = NextDate s;
          dated = (if \<not> as_MigrationDone s \<or> as_Round s = 0 \<or> workAt s Organization \<noteq> None \<or> workAt s Verification \<noteq> None \<or> date = []
                   then None else dayAt s date)
      in case task of
           Migration \<Rightarrow> if as_MigrationDone s then Inr ErrNotReady else Inl w
         | Collection \<Rightarrow>
             if workAt s Verification \<noteq> None then Inr ErrNotReady
             else if date \<noteq> [] \<and> as_MigrationDone s \<and> se_Verification (as_Settings s) \<and>
               (case dayAt s date of Some d \<Rightarrow> organized d | None \<Rightarrow> False) then Inr ErrNotReady
             else Inl w
         | Organization \<Rightarrow>
             (case dated of
                None \<Rightarrow> Inr ErrNotReady
              | Some d \<Rightarrow> if organized d then Inr ErrNotReady else Inl (w\<lparr>wk_Date := date, wk_Revision := da_Revision d\<rparr>))
         | Verification \<Rightarrow>
             (case dated of
                None \<Rightarrow> Inr ErrNotReady
              | Some d \<Rightarrow> if \<not> organized d \<or> workAt s Collection \<noteq> None then Inr ErrNotReady
                          else Inl (w\<lparr>wk_Date := date, wk_Revision := da_Revision d\<rparr>))
         | OtherTask t \<Rightarrow> Inr ErrConflict)"

definition Reserve :: "Task \<Rightarrow> ArchiveState \<Rightarrow> (Work + pipeError) \<times> ArchiveState" where
  "Reserve task s =
     (if \<not> enabled (as_Settings s) task \<or> \<not> as_SchemaReady s then (Inr ErrNotReady, s)
      else if workAt s task \<noteq> None then (Inr ErrConflict, s)
      else if as_NextToken s = MaxUint64 \<or> as_Active s = None then (Inr ErrConflict, s)
      else case reservable task s of
             Inr e \<Rightarrow> (Inr e, s)
           | Inl w0 \<Rightarrow>
               let token = as_NextToken s + 1; w = w0\<lparr>wk_Token := token\<rparr>
               in (Inl w, s\<lparr>as_NextToken := token, as_Active := Some (AList.update task w (active s))\<rparr>))"

section \<open>Finishing, releasing and recovering\<close>

definition owns :: "ArchiveState \<Rightarrow> Work \<Rightarrow> bool" where
  "owns s w \<longleftrightarrow> workAt s (wk_Task w) = Some w \<and> wk_Token w \<noteq> 0"

definition dropWork :: "Task \<Rightarrow> ArchiveState \<Rightarrow> ArchiveState" where
  "dropWork task s = s\<lparr>as_Active := map_option (AList.delete task) (as_Active s)\<rparr>"

definition setDay :: "string \<Rightarrow> ArchiveDay \<Rightarrow> ArchiveState \<Rightarrow> ArchiveState" where
  "setDay date d s = s\<lparr>as_Days := map_option (AList.update date d) (as_Days s)\<rparr>"

definition resultOf :: "time \<Rightarrow> ArchiveState \<Rightarrow> ArchiveDay \<Rightarrow> string \<Rightarrow> string \<Rightarrow> Result" where
  "resultOf now s d code seal = \<lparr>re_CompletedAt = Some now, re_Diagnostic = None, re_Round = as_Round s,
     re_Revision = da_Revision d, re_Code = code, re_SealVersion = seal\<rparr>"

definition finishDay :: "time \<Rightarrow> Work \<Rightarrow> string \<Rightarrow> string \<Rightarrow> ArchiveState \<Rightarrow> ArchiveDay \<Rightarrow> ArchiveDay option" where
  "finishDay now w code seal s d =
     (if code \<noteq> [] then Some (d\<lparr>da_Result := Some (resultOf now s d code [])\<rparr>)
      else if wk_Task w = Organization then Some (d\<lparr>da_OrganizedRevision := da_Revision d\<rparr>)
      else if seal = [] then None
      else Some (d\<lparr>da_Result := Some (resultOf now s d [] seal), da_LastSeal := Some (resultOf now s d [] seal)\<rparr>))"

definition Finish :: "time \<Rightarrow> Work \<Rightarrow> string \<Rightarrow> string \<Rightarrow> ArchiveState \<Rightarrow> pipeError option \<times> ArchiveState" where
  "Finish now w code seal s =
     (if \<not> owns s w \<or> length code > 128 \<or> length seal > 128 \<or> (code \<noteq> [] \<and> seal \<noteq> []) then (Some ErrConflict, s)
      else if wk_Task w \<noteq> Verification \<and> seal \<noteq> [] then (Some ErrConflict, s)
      else if wk_Date w \<noteq> [] then
        (case dayAt s (wk_Date w) of
           None \<Rightarrow> (Some ErrStale, s)
         | Some d \<Rightarrow>
             if da_Revision d \<noteq> wk_Revision w then (Some ErrStale, s)
             else case finishDay now w code seal s d of
                    None \<Rightarrow> (Some ErrConflict, s)
                  | Some d' \<Rightarrow> (None, dropWork (wk_Task w) (setDay (wk_Date w) d' s)))
      else if code \<noteq> [] then (Some ErrConflict, s)
      else (None, dropWork (wk_Task w) (if wk_Task w = Migration then s\<lparr>as_MigrationDone := True\<rparr> else s)))"

definition Release :: "Work \<Rightarrow> ArchiveState \<Rightarrow> pipeError option \<times> ArchiveState" where
  "Release w s = (if \<not> owns s w then (Some ErrConflict, s) else (None, dropWork (wk_Task w) s))"

definition RecoverAfterFence :: "ArchiveState \<Rightarrow> ArchiveState" where
  "RecoverAfterFence s = s\<lparr>as_Active := Some []\<rparr>"

fun taskName :: "Task \<Rightarrow> string" where
  "taskName Migration = ''migration''"
| "taskName Organization = ''organization''"
| "taskName Verification = ''verification''"
| "taskName Collection = ''collection''"
| "taskName (OtherTask t) = t"

definition workOn :: "ArchiveState \<Rightarrow> string \<Rightarrow> ArchiveDay \<Rightarrow> Task \<Rightarrow> bool" where
  "workOn s date d task \<longleftrightarrow> (case workAt s task of Some w \<Rightarrow> wk_Date w = date \<and> wk_Revision w = da_Revision d | None \<Rightarrow> False)"

definition DayState :: "ArchiveState \<Rightarrow> string \<Rightarrow> string" where
  "DayState s date =
     (case dayAt s date of
        None \<Rightarrow> ''unknown''
      | Some d \<Rightarrow>
          if \<not> da_Collected d then ''collecting''
          else if \<not> as_MigrationDone s then ''waiting_migration''
          else if workOn s date d Organization then taskName Organization
          else if workOn s date d Verification then taskName Verification
          else case (case da_Result d of Some r \<Rightarrow> if re_Revision r = da_Revision d then Some r else None | None \<Rightarrow> None) of
                 Some r \<Rightarrow> if re_SealVersion r \<noteq> [] then ''sealed'' else ''blocked''
               | None \<Rightarrow> if organized d then ''organized''
                         else if da_LastSeal d \<noteq> None then ''changed'' else ''collected'')"

section \<open>Validation of a checkpoint\<close>

definition ResultValidate :: "ArchiveState \<Rightarrow> ArchiveDay \<Rightarrow> Result \<Rightarrow> bool" where
  "ResultValidate s d r \<longleftrightarrow>
     (case re_Diagnostic r of Some g \<Rightarrow> DiagnosticValidate g | None \<Rightarrow> True) \<and> re_CompletedAt r \<noteq> Some 0 \<and>
     re_Revision r \<noteq> 0 \<and> re_Revision r \<le> da_Revision d \<and> re_Round r \<noteq> 0 \<and> re_Round r \<le> as_Round s \<and>
     length (re_Code r) \<le> 128 \<and> length (re_SealVersion r) \<le> 128 \<and> (re_Code r = []) \<noteq> (re_SealVersion r = [])"

definition DayValidate :: "ArchiveState \<Rightarrow> string \<Rightarrow> ArchiveDay \<Rightarrow> bool" where
  "DayValidate s date d \<longleftrightarrow>
     validDate date \<and> da_Revision d \<noteq> 0 \<and> da_OrganizedRevision d \<le> da_Revision d \<and>
     da_Collected d = (date < as_Frontier s) \<and>
     (case da_Result d of Some r \<Rightarrow> ResultValidate s d r \<and> re_Revision r = da_Revision d | None \<Rightarrow> True) \<and>
     (case da_LastSeal d of Some r \<Rightarrow> ResultValidate s d r \<and> re_SealVersion r \<noteq> [] | None \<Rightarrow> True)"

definition WorkValidate :: "ArchiveState \<Rightarrow> Task \<Rightarrow> Work \<Rightarrow> bool" where
  "WorkValidate s task w \<longleftrightarrow>
     as_SchemaReady s \<and> task = wk_Task w \<and> wk_Token w \<noteq> 0 \<and> wk_Token w \<le> as_NextToken s \<and>
     (case task of
        Migration \<Rightarrow> \<not> as_MigrationDone s \<and> wk_Date w = [] \<and> wk_Revision w = 0
      | Collection \<Rightarrow> wk_Date w = [] \<and> wk_Revision w = 0
      | OtherTask t \<Rightarrow> False
      | _ \<Rightarrow> as_MigrationDone s \<and> as_Round s \<noteq> 0 \<and> \<not> as_Cutoff s < wk_Date w \<and>
             (case dayAt s (wk_Date w) of
                Some d \<Rightarrow> da_Collected d \<and> wk_Revision w \<noteq> 0 \<and> wk_Revision w \<le> da_Revision d
              | None \<Rightarrow> False))"

definition ArchiveValidate :: "ArchiveState \<Rightarrow> bool" where
  "ArchiveValidate s \<longleftrightarrow>
     SettingsValidate (as_Settings s) \<and> as_Version s = 1 \<and> as_Days s \<noteq> None \<and> as_Active s \<noteq> None \<and>
     length (active s) \<le> 2 \<and> (as_MigrationDone s \<longrightarrow> as_SchemaReady s) \<and>
     (as_Round s = 0 \<longrightarrow> as_Cutoff s = []) \<and> (as_Round s \<noteq> 0 \<longrightarrow> validDate (as_Cutoff s)) \<and>
     (as_Frontier s = [] \<or> validDate (as_Frontier s)) \<and>
     list_all (\<lambda>(date, d). DayValidate s date d) (days s) \<and>
     list_all (\<lambda>(task, w). WorkValidate s task w) (active s) \<and>
     distinct (map (wk_Token \<circ> snd) (active s)) \<and>
     (workAt s Verification \<noteq> None \<longrightarrow> length (active s) = 1) \<and>
     (workAt s Migration \<noteq> None \<longrightarrow> workAt s Organization = None)"

end
