(* ===== verification/ArchiveProofs.thy ===== *)
theory ArchiveProofs
  imports ArchivePipeline
begin

text \<open>
  Correctness of the archive scheduler's state: every transition keeps the checks of a checkpoint, a fenced
  reservation never commits, a seal always describes the current rows of its day, and a round ends.
\<close>

section \<open>Words and maps\<close>

lemma word_succ:
  fixes r :: uint64
  assumes "r \<noteq> MaxUint64"
  shows "r < r + 1" "r \<le> r + 1" "r + 1 \<noteq> 0"
proof -
  have n: "r + 1 \<noteq> 0" using assms by (metis MaxUint64_def add.commute eq_neg_iff_add_eq_0)
  then have "unat (r + 1) = Suc (unat r)" using unatSuc[of r] by (simp add: add.commute)
  then show "r < r + 1" by (simp add: word_less_nat_alt)
  then show "r \<le> r + 1" by simp
  show "r + 1 \<noteq> 0" by (rule n)
qed

lemma date_nonempty: "validDate date \<Longrightarrow> date \<noteq> []"
  by (auto simp: validDate_def parseDate_def)

text \<open>Go maps have distinct keys.\<close>

definition wfMaps :: "ArchiveState \<Rightarrow> bool" where
  "wfMaps s \<longleftrightarrow> as_Days s \<noteq> None \<and> as_Active s \<noteq> None \<and> distinct (map fst (days s)) \<and> distinct (map fst (active s))"

lemma list_all_map: "distinct (map fst m) \<Longrightarrow> list_all (\<lambda>(k, v). P k v) m \<longleftrightarrow> (\<forall>k v. map_of m k = Some v \<longrightarrow> P k v)"
  by (auto simp: list_all_iff)

lemma length_keys: "distinct (map fst m) \<Longrightarrow> length m = card (dom (map_of m))"
  by (metis distinct_card dom_map_of_conv_image_fst length_map list.set_map)

lemma keys_Some: "map_of m k = Some v \<Longrightarrow> k \<in> dom (map_of m)"
  by blast

section \<open>The checks, one map entry at a time\<close>

definition baseOk :: "ArchiveState \<Rightarrow> bool" where
  "baseOk s \<longleftrightarrow> SettingsValidate (as_Settings s) \<and> as_Version s = 1 \<and> (as_MigrationDone s \<longrightarrow> as_SchemaReady s) \<and>
     (as_Round s = 0 \<longrightarrow> as_Cutoff s = []) \<and> (as_Round s \<noteq> 0 \<longrightarrow> validDate (as_Cutoff s)) \<and>
     (as_Frontier s = [] \<or> validDate (as_Frontier s))"

definition daysOk :: "ArchiveState \<Rightarrow> bool" where
  "daysOk s \<longleftrightarrow> (\<forall>date d. dayAt s date = Some d \<longrightarrow> DayValidate s date d)"

definition workOk :: "ArchiveState \<Rightarrow> bool" where
  "workOk s \<longleftrightarrow> (\<forall>task w. workAt s task = Some w \<longrightarrow> WorkValidate s task w)"

definition tokensOk :: "ArchiveState \<Rightarrow> bool" where
  "tokensOk s \<longleftrightarrow> (\<forall>t t' w w'. workAt s t = Some w \<and> workAt s t' = Some w' \<and> wk_Token w = wk_Token w' \<longrightarrow> t = t')"

definition exclusive :: "ArchiveState \<Rightarrow> bool" where
  "exclusive s \<longleftrightarrow> (workAt s Verification \<noteq> None \<longrightarrow> (\<forall>t. t \<noteq> Verification \<longrightarrow> workAt s t = None))"

definition pipeOk :: "ArchiveState \<Rightarrow> bool" where
  "pipeOk s \<longleftrightarrow> wfMaps s \<and> baseOk s \<and> daysOk s \<and> workOk s \<and> tokensOk s \<and> exclusive s"

lemma WorkValidate_simps:
  "WorkValidate s (OtherTask x) w = False"
  "WorkValidate s Migration w \<Longrightarrow> \<not> as_MigrationDone s"
  "WorkValidate s Organization w \<Longrightarrow> as_MigrationDone s"
  "WorkValidate s Verification w \<Longrightarrow> as_MigrationDone s"
  by (simp_all add: WorkValidate_def)

lemma work_at: "workOk s \<Longrightarrow> workAt s task = Some w \<Longrightarrow> WorkValidate s task w"
  by (simp add: workOk_def)

lemma absent_work:
  assumes "workOk s"
  shows "as_MigrationDone s \<Longrightarrow> workAt s Migration = None" "\<not> as_MigrationDone s \<Longrightarrow> workAt s Verification = None"
    "workAt s (OtherTask x) = None"
  using WorkValidate_simps work_at[OF assms] by (metis not_Some_eq)+

lemma workOk_migration: "workOk s \<Longrightarrow> workAt s Migration \<noteq> None \<Longrightarrow> workAt s Organization = None"
  using WorkValidate_simps(2,3) work_at by (metis not_Some_eq)

lemma active_dom:
  assumes "workOk s" "exclusive s"
  shows "dom (workAt s) \<subseteq> {Verification} \<or> dom (workAt s) \<subseteq> {Migration, Collection} \<or> dom (workAt s) \<subseteq> {Organization, Collection}"
proof -
  have four: "dom (workAt s) \<subseteq> {Migration, Organization, Verification, Collection}"
  proof
    fix t
    assume "t \<in> dom (workAt s)"
    then show "t \<in> {Migration, Organization, Verification, Collection}"
      by (cases t) (auto dest: work_at[OF assms(1)] simp: WorkValidate_simps(1))
  qed
  show ?thesis
  proof (cases "workAt s Verification = None")
    case True
    then show ?thesis using four workOk_migration[OF assms(1)] by (cases "workAt s Migration = None") auto
  next
    case False
    then show ?thesis using assms(2) by (force simp: exclusive_def)
  qed
qed

lemma active_length: "wfMaps s \<Longrightarrow> workOk s \<Longrightarrow> exclusive s \<Longrightarrow> length (active s) \<le> 2"
proof -
  assume a: "wfMaps s" "workOk s" "exclusive s"
  have "card (dom (workAt s)) \<le> 2"
    using active_dom[OF a(2,3)] card_mono[of "{Verification}" "dom (workAt s)"] card_mono[of "{Migration, Collection}" "dom (workAt s)"]
      card_mono[of "{Organization, Collection}" "dom (workAt s)"] by auto
  moreover have "workAt s = map_of (active s)" by (simp add: workAt_def fun_eq_iff)
  ultimately show ?thesis using a(1) length_keys[of "active s"] by (simp add: wfMaps_def)
qed

lemma tokens_distinct: "distinct (map fst m) \<Longrightarrow>
  distinct (map (wk_Token \<circ> snd) m) \<longleftrightarrow> (\<forall>t t' w w'. map_of m t = Some w \<and> map_of m t' = Some w' \<and> wk_Token w = wk_Token w' \<longrightarrow> t = t')"
proof -
  assume d: "distinct (map fst m)"
  have mem: "map_of m t = Some w \<longleftrightarrow> (t, w) \<in> set m" for t w using d by (rule map_of_eq_Some_iff)
  have uniq: "(t, w) \<in> set m \<Longrightarrow> (t, w') \<in> set m \<Longrightarrow> w = w'" for t w w' using d eq_key_imp_eq_value by fast
  have "distinct (map (wk_Token \<circ> snd) m) \<longleftrightarrow> inj_on (wk_Token \<circ> snd) (set m)"
    using d by (simp add: distinct_map)
  also have "\<dots> \<longleftrightarrow> (\<forall>t t' w w'. (t, w) \<in> set m \<and> (t', w') \<in> set m \<and> wk_Token w = wk_Token w' \<longrightarrow> t = t')"
  proof
    assume inj: "inj_on (wk_Token \<circ> snd) (set m)"
    show "\<forall>t t' w w'. (t, w) \<in> set m \<and> (t', w') \<in> set m \<and> wk_Token w = wk_Token w' \<longrightarrow> t = t'"
    proof (intro allI impI, elim conjE)
      fix t t' w w'
      assume "(t, w) \<in> set m" "(t', w') \<in> set m" "wk_Token w = wk_Token w'"
      then have "(t, w) = (t', w')" using inj_onD[OF inj, of "(t, w)" "(t', w')"] by simp
      then show "t = t'" by simp
    qed
  next
    assume same: "\<forall>t t' w w'. (t, w) \<in> set m \<and> (t', w') \<in> set m \<and> wk_Token w = wk_Token w' \<longrightarrow> t = t'"
    show "inj_on (wk_Token \<circ> snd) (set m)"
    proof (rule inj_onI)
      fix x y
      assume xy: "x \<in> set m" "y \<in> set m" "(wk_Token \<circ> snd) x = (wk_Token \<circ> snd) y"
      then have "fst x = fst y" using same by (metis comp_apply prod.collapse)
      then show "x = y" using xy(1,2) uniq by (metis prod.collapse)
    qed
  qed
  finally show ?thesis by (simp add: mem)
qed

text \<open>The checks of the code are these predicates.\<close>

lemma validate_iff:
  assumes "wfMaps s"
  shows "ArchiveValidate s \<longleftrightarrow> pipeOk s"
proof
  have d: "distinct (map fst (days s))" "distinct (map fst (active s))" using assms by (simp_all add: wfMaps_def)
  note iffs = list_all_map[OF d(1), of "DayValidate s"] list_all_map[OF d(2), of "WorkValidate s"] tokens_distinct[OF d(2)]
  show "ArchiveValidate s" if "pipeOk s"
  proof -
    have "length (active s) = 1" if v: "workAt s Verification \<noteq> None"
    proof -
      have "dom (map_of (active s)) = {Verification}"
        using v \<open>pipeOk s\<close> by (auto simp: pipeOk_def exclusive_def workAt_def)
      then show ?thesis using length_keys[OF d(2)] by simp
    qed
    then show ?thesis using that active_length workOk_migration[of s] iffs
      by (simp add: pipeOk_def ArchiveValidate_def baseOk_def daysOk_def workOk_def tokensOk_def wfMaps_def dayAt_def workAt_def)
  qed
  show "pipeOk s" if v: "ArchiveValidate s"
  proof -
    have "workAt s t = None" if "workAt s Verification \<noteq> None" "t \<noteq> Verification" for t
    proof (rule ccontr)
      assume "workAt s t \<noteq> None"
      then have "{t, Verification} \<subseteq> dom (map_of (active s))" using that(1) by (auto simp: workAt_def)
      then have "card {t, Verification} \<le> length (active s)"
        using length_keys[OF d(2)] card_mono[OF finite_dom_map_of] by metis
      then show False using v that by (simp add: ArchiveValidate_def)
    qed
    then show ?thesis using v assms iffs
      by (simp add: pipeOk_def ArchiveValidate_def baseOk_def daysOk_def workOk_def tokensOk_def exclusive_def dayAt_def workAt_def)
  qed
qed

section \<open>Reading the maps after an update\<close>

lemma workAt_drop [simp]: "workAt (dropWork t s) = (workAt s)(t := None)"
  by (cases "as_Active s") (auto simp: dropWork_def workAt_def active_def AList.delete_conv' fun_eq_iff)

lemma dropWork_simps [simp]:
  "dayAt (dropWork t s) = dayAt s" "days (dropWork t s) = days s" "as_Days (dropWork t s) = as_Days s"
  "as_Round (dropWork t s) = as_Round s" "as_Cutoff (dropWork t s) = as_Cutoff s" "as_Frontier (dropWork t s) = as_Frontier s"
  "as_MigrationDone (dropWork t s) = as_MigrationDone s" "as_SchemaReady (dropWork t s) = as_SchemaReady s"
  "as_NextToken (dropWork t s) = as_NextToken s" "as_Settings (dropWork t s) = as_Settings s" "as_Version (dropWork t s) = as_Version s"
  by (simp_all add: dropWork_def dayAt_def days_def fun_eq_iff)

lemma wfMaps_drop [simp]: "wfMaps s \<Longrightarrow> wfMaps (dropWork t s)"
  by (auto simp: wfMaps_def) (auto simp: dropWork_def active_def AList.distinct_delete)

lemma dayAt_set: "wfMaps s \<Longrightarrow> dayAt (setDay date d s) = (dayAt s)(date \<mapsto> d)"
  by (auto simp: wfMaps_def setDay_def dayAt_def days_def AList.update_conv' fun_eq_iff)

lemma setDay_simps [simp]:
  "workAt (setDay date d s) = workAt s" "active (setDay date d s) = active s" "as_Active (setDay date d s) = as_Active s"
  "as_Round (setDay date d s) = as_Round s" "as_Cutoff (setDay date d s) = as_Cutoff s" "as_Frontier (setDay date d s) = as_Frontier s"
  "as_MigrationDone (setDay date d s) = as_MigrationDone s" "as_SchemaReady (setDay date d s) = as_SchemaReady s"
  "as_NextToken (setDay date d s) = as_NextToken s" "as_Settings (setDay date d s) = as_Settings s" "as_Version (setDay date d s) = as_Version s"
  by (simp_all add: setDay_def workAt_def active_def fun_eq_iff)

lemma wfMaps_set [simp]: "wfMaps s \<Longrightarrow> wfMaps (setDay date d s)"
  by (auto simp: wfMaps_def) (auto simp: setDay_def days_def AList.distinct_update)

text \<open>The checks of a day and of a work depend on a few fields only.\<close>

lemma DayValidate_mono:
  assumes "DayValidate s date d" "as_Frontier s' = as_Frontier s" "as_Round s \<le> as_Round s'"
  shows "DayValidate s' date d"
  using assms by (auto simp: DayValidate_def ResultValidate_def split: option.splits intro: order.trans)

lemma WorkValidate_mono:
  assumes "WorkValidate s task w" "as_SchemaReady s' = as_SchemaReady s" "as_NextToken s \<le> as_NextToken s'"
    and "as_MigrationDone s' = as_MigrationDone s" "as_Round s' = as_Round s" "as_Cutoff s' = as_Cutoff s"
    and "\<And>d. dayAt s (wk_Date w) = Some d \<Longrightarrow> da_Collected d \<Longrightarrow> wk_Revision w \<le> da_Revision d \<Longrightarrow>
      \<exists>d'. dayAt s' (wk_Date w) = Some d' \<and> da_Collected d' \<and> da_Revision d \<le> da_Revision d'"
  shows "WorkValidate s' task w"
proof -
  have "\<exists>d'. dayAt s' (wk_Date w) = Some d' \<and> da_Collected d' \<and> wk_Revision w \<noteq> 0 \<and> wk_Revision w \<le> da_Revision d'"
    if "\<exists>d. dayAt s (wk_Date w) = Some d \<and> da_Collected d \<and> wk_Revision w \<noteq> 0 \<and> wk_Revision w \<le> da_Revision d"
    using that assms(7) order.trans by metis
  then show ?thesis using assms(1-6) by (cases task) (auto simp: WorkValidate_def split: option.splits)
qed

section \<open>Beginning, releasing and recovering\<close>

lemma ok_drop: "pipeOk s \<Longrightarrow> pipeOk (dropWork t s)"
proof -
  assume p: "pipeOk s"
  have "daysOk (dropWork t s)" using p DayValidate_mono[of s _ _ "dropWork t s"] by (auto simp: pipeOk_def daysOk_def)
  moreover have "workOk (dropWork t s)"
    using p WorkValidate_mono[of s _ _ "dropWork t s"] by (auto simp: pipeOk_def workOk_def)
  moreover have "tokensOk (dropWork t s)" using p unfolding pipeOk_def tokensOk_def workAt_drop by (metis fun_upd_apply option.distinct(1))
  ultimately show ?thesis using p by (auto simp: pipeOk_def baseOk_def exclusive_def)
qed

lemma ok_begin:
  assumes "pipeOk s"
  shows "pipeOk (snd (BeginRound now location s))"
proof (cases "\<exists>yesterday. location = Some yesterday \<and> \<not> (now = 0 \<or> active s \<noteq> [] \<or> as_Round s = MaxUint64) \<and> validDate (yesterday now)")
  case True
  then obtain yesterday where y: "location = Some yesterday" "active s = []" "as_Round s \<noteq> MaxUint64" "validDate (yesterday now)" "now \<noteq> 0" by auto
  let ?s = "s\<lparr>as_Round := as_Round s + 1, as_Cutoff := yesterday now\<rparr>"
  have eqs: "dayAt ?s = dayAt s" "workAt ?s = Map.empty" "wfMaps ?s = wfMaps s"
    using y(2) by (simp_all add: dayAt_def days_def workAt_def active_def wfMaps_def fun_eq_iff)
  have "daysOk ?s"
    using assms DayValidate_mono[of s _ _ ?s] word_succ(2)[OF y(3)] by (auto simp: pipeOk_def daysOk_def eqs)
  then have "pipeOk ?s" using assms y(4) word_succ(3)[OF y(3)]
    by (simp add: pipeOk_def baseOk_def workOk_def tokensOk_def exclusive_def eqs)
  then show ?thesis using y by (simp add: BeginRound_def)
next
  case False
  then show ?thesis using assms by (auto simp: BeginRound_def split: option.split)
qed

lemma ok_release: "pipeOk s \<Longrightarrow> pipeOk (snd (Release w s))"
  by (simp add: Release_def ok_drop)

lemma recover_simps [simp]:
  "dayAt (RecoverAfterFence s) = dayAt s" "workAt (RecoverAfterFence s) = Map.empty" "days (RecoverAfterFence s) = days s"
  "active (RecoverAfterFence s) = []" "as_Days (RecoverAfterFence s) = as_Days s" "as_Active (RecoverAfterFence s) = Some []"
  "as_Round (RecoverAfterFence s) = as_Round s" "as_Cutoff (RecoverAfterFence s) = as_Cutoff s" "as_Frontier (RecoverAfterFence s) = as_Frontier s"
  "as_MigrationDone (RecoverAfterFence s) = as_MigrationDone s" "as_SchemaReady (RecoverAfterFence s) = as_SchemaReady s"
  "as_NextToken (RecoverAfterFence s) = as_NextToken s" "as_Settings (RecoverAfterFence s) = as_Settings s" "as_Version (RecoverAfterFence s) = as_Version s"
  by (simp_all add: RecoverAfterFence_def dayAt_def days_def workAt_def active_def fun_eq_iff)

lemma ok_recover: "pipeOk s \<Longrightarrow> pipeOk (RecoverAfterFence s)"
  using DayValidate_mono[of s _ _ "RecoverAfterFence s"]
  by (auto simp: pipeOk_def daysOk_def baseOk_def workOk_def tokensOk_def exclusive_def wfMaps_def)

section \<open>Choosing a date\<close>

lemma NextDate_cases:
  assumes "distinct (map fst (days s))"
  obtains "NextDate s = []" "filter (eligible s) (days s) = []"
  | d where "dayAt s (NextDate s) = Some d" "eligible s (NextDate s, d)"
      "\<And>date d'. dayAt s date = Some d' \<Longrightarrow> eligible s (date, d') \<Longrightarrow> NextDate s \<le> date"
proof (cases "sort (map fst (filter (eligible s) (days s)))")
  case Nil
  then have "set (sort (map fst (filter (eligible s) (days s)))) = {}" by simp
  then have "filter (eligible s) (days s) = []" by (auto simp: filter_empty_conv)
  moreover have "NextDate s = []" using Nil by (simp add: NextDate_def)
  ultimately show thesis by (rule that(1)[rotated])
next
  case (Cons date rest)
  then have n: "NextDate s = date" by (simp add: NextDate_def)
  have all: "set (date # rest) = fst ` set (filter (eligible s) (days s))" using arg_cong[OF Cons, of set] by simp
  have "date \<in> fst ` set (filter (eligible s) (days s))" unfolding all[symmetric] by simp
  then obtain d where d: "(date, d) \<in> set (days s)" "eligible s (date, d)" by auto
  have "sorted (date # rest)" using sorted_sort[of "map fst (filter (eligible s) (days s))"] Cons by simp
  then have least: "x \<in> set (date # rest) \<Longrightarrow> date \<le> x" for x by auto
  have "date \<le> date'" if "dayAt s date' = Some d'" "eligible s (date', d')" for date' d'
  proof (rule least)
    have "(date', d') \<in> set (filter (eligible s) (days s))" using that by (auto simp: dayAt_def dest: map_of_SomeD)
    then show "date' \<in> set (date # rest)" unfolding all by force
  qed
  moreover have "dayAt s date = Some d" using d(1) assms by (simp add: dayAt_def)
  ultimately show thesis using that(2) d(2) n by blast
qed

section \<open>Reserving\<close>

lemma reserve_eqs:
  assumes "Reserve task s = (Inl w, s')"
  shows "enabled (as_Settings s) task \<and> as_SchemaReady s \<and> workAt s task = None \<and> as_NextToken s \<noteq> MaxUint64 \<and>
    wk_Token w = as_NextToken s + 1 \<and> reservable task s = Inl (w\<lparr>wk_Token := 0\<rparr>) \<and>
    s' = s\<lparr>as_NextToken := as_NextToken s + 1, as_Active := Some (AList.update task w (active s))\<rparr>"
proof -
  obtain w0 where w0: "reservable task s = Inl w0" "w = w0\<lparr>wk_Token := as_NextToken s + 1\<rparr>"
    and rest: "enabled (as_Settings s) task" "as_SchemaReady s" "workAt s task = None" "as_NextToken s \<noteq> MaxUint64"
      "s' = s\<lparr>as_NextToken := as_NextToken s + 1, as_Active := Some (AList.update task w (active s))\<rparr>"
    using assms by (auto simp: Reserve_def Let_def split: if_splits sum.splits)
  have "wk_Token w0 = 0" using w0(1)
    by (auto simp: reservable_def Let_def split: Task.splits if_splits option.splits)
  then have "w\<lparr>wk_Token := 0\<rparr> = w0" using w0(2) by (cases w0) simp
  then show ?thesis using w0 rest by simp
qed

lemma reserve_error: "Reserve task s = (Inr e, s') \<Longrightarrow> s' = s"
  by (auto simp: Reserve_def Let_def split: if_splits sum.splits)

text \<open>What the guards establish.\<close>

definition reservedOk :: "ArchiveState \<Rightarrow> Task \<Rightarrow> Work \<Rightarrow> bool" where
  "reservedOk s task w \<longleftrightarrow> wk_Task w = task \<and>
     (case task of
        Migration \<Rightarrow> \<not> as_MigrationDone s \<and> wk_Date w = [] \<and> wk_Revision w = 0
      | Collection \<Rightarrow> workAt s Verification = None \<and> wk_Date w = [] \<and> wk_Revision w = 0
      | OtherTask t \<Rightarrow> False
      | _ \<Rightarrow> as_MigrationDone s \<and> as_Round s \<noteq> 0 \<and> workAt s Organization = None \<and> workAt s Verification = None \<and>
          wk_Date w = NextDate s \<and> wk_Date w \<noteq> [] \<and>
          (\<exists>d. dayAt s (wk_Date w) = Some d \<and> eligible s (wk_Date w, d) \<and> wk_Revision w = da_Revision d \<and>
             (if task = Organization then \<not> organized d else organized d \<and> workAt s Collection = None)))"

lemma next_eligible: "wfMaps s \<Longrightarrow> NextDate s \<noteq> [] \<Longrightarrow> dayAt s (NextDate s) = Some d \<Longrightarrow> eligible s (NextDate s, d)"
  by (rule NextDate_cases[of s]) (auto simp: wfMaps_def)

lemma reservable_ok:
  assumes "wfMaps s" "reservable task s = Inl w"
  shows "reservedOk s task w"
proof (cases task)
  case Migration
  then show ?thesis using assms(2) by (auto simp: reservable_def reservedOk_def Let_def split: if_splits)
next
  case Collection
  then show ?thesis using assms(2) by (auto simp: reservable_def reservedOk_def Let_def split: if_splits)
next
  case (OtherTask t)
  then show ?thesis using assms(2) by (simp add: reservable_def Let_def)
next
  case Organization
  then show ?thesis using assms next_eligible[OF assms(1)]
    by (auto simp: reservable_def reservedOk_def Let_def split: if_splits option.splits)
next
  case Verification
  then show ?thesis using assms next_eligible[OF assms(1)]
    by (auto simp: reservable_def reservedOk_def Let_def split: if_splits option.splits)
qed

lemma reservedOk_token: "reservedOk s task (w\<lparr>wk_Token := t\<rparr>) = reservedOk s task w"
  by (simp add: reservedOk_def split: Task.split)

lemma reserve_ok:
  assumes "wfMaps s" "Reserve task s = (Inl w, s')"
  shows "reservedOk s task w"
  using reservable_ok[OF assms(1)] reserve_eqs[OF assms(2)] reservedOk_token by metis

lemma reserve_maps:
  assumes "wfMaps s" "Reserve task s = (Inl w, s')"
  shows "workAt s' = (workAt s)(task \<mapsto> w)" "dayAt s' = dayAt s" "days s' = days s" "wfMaps s'"
    "as_Round s' = as_Round s" "as_Cutoff s' = as_Cutoff s" "as_Frontier s' = as_Frontier s"
    "as_MigrationDone s' = as_MigrationDone s" "as_SchemaReady s' = as_SchemaReady s" "as_NextToken s' = as_NextToken s + 1"
    "as_Settings s' = as_Settings s" "as_Version s' = as_Version s"
proof -
  have eq: "s' = s\<lparr>as_NextToken := as_NextToken s + 1, as_Active := Some (AList.update task w (active s))\<rparr>"
    using reserve_eqs[OF assms(2)] by blast
  show "workAt s' = (workAt s)(task \<mapsto> w)" "dayAt s' = dayAt s" "days s' = days s" "as_Round s' = as_Round s" "as_Cutoff s' = as_Cutoff s"
    "as_Frontier s' = as_Frontier s" "as_MigrationDone s' = as_MigrationDone s" "as_SchemaReady s' = as_SchemaReady s"
    "as_NextToken s' = as_NextToken s + 1" "as_Settings s' = as_Settings s" "as_Version s' = as_Version s"
    by (simp_all add: eq workAt_def active_def dayAt_def days_def AList.update_conv' fun_eq_iff)
  show "wfMaps s'" using assms(1) by (simp add: eq wfMaps_def days_def active_def AList.distinct_update)
qed

lemma reserved_validate:
  assumes "pipeOk s" "reservedOk s task w" "as_SchemaReady s" "wk_Token w = as_NextToken s + 1" "as_NextToken s \<noteq> MaxUint64"
    and "as_SchemaReady s' = as_SchemaReady s" "as_NextToken s' = as_NextToken s + 1" "as_MigrationDone s' = as_MigrationDone s"
    "as_Round s' = as_Round s" "as_Cutoff s' = as_Cutoff s" "dayAt s' = dayAt s"
  shows "WorkValidate s' task w"
proof -
  have rev: "da_Revision d \<noteq> 0" if "dayAt s date = Some d" for date d
    using assms(1) that by (auto simp: pipeOk_def daysOk_def DayValidate_def)
  show ?thesis using assms word_succ(3)[OF assms(5)] rev
    by (cases task) (auto simp: WorkValidate_def reservedOk_def eligible_def)
qed

lemma ok_reserve:
  assumes p: "pipeOk s" and r: "Reserve task s = (Inl w, s')"
  shows "pipeOk s'"
proof -
  have wf: "wfMaps s" using p by (simp add: pipeOk_def)
  note m = reserve_maps[OF wf r]
  have e: "as_SchemaReady s" "workAt s task = None" "as_NextToken s \<noteq> MaxUint64" "wk_Token w = as_NextToken s + 1"
    using reserve_eqs[OF r] by simp_all
  have ok: "reservedOk s task w" by (rule reserve_ok[OF wf r])
  have lt: "as_NextToken s < as_NextToken s + 1" "as_NextToken s \<le> as_NextToken s + 1" by (rule word_succ[OF e(3)])+
  have wo: "workOk s" using p by (simp add: pipeOk_def)
  have old: "WorkValidate s t x" if "workAt s t = Some x" for t x using p that by (simp add: pipeOk_def workOk_def)
  have "daysOk s'" using p DayValidate_mono[of s _ _ s'] by (auto simp: pipeOk_def daysOk_def m)
  moreover have "workOk s'"
  proof (unfold workOk_def, intro allI impI)
    fix t x
    assume x: "workAt s' t = Some x"
    show "WorkValidate s' t x"
    proof (cases "t = task")
      case True
      then show ?thesis using x reserved_validate[OF p ok e(1,4,3)] by (simp add: m)
    next
      case False
      then show ?thesis using WorkValidate_mono[OF old, of t x s'] x lt by (simp add: m)
    qed
  qed
  moreover have "tokensOk s'"
  proof -
    have "wk_Token x \<noteq> as_NextToken s + 1" if "workAt s t = Some x" for t x
      using old[OF that] lt(1) by (auto simp: WorkValidate_def)
    then show ?thesis using p e(4) unfolding tokensOk_def pipeOk_def m(1) by (metis fun_upd_apply option.inject)
  qed
  moreover have "exclusive s'"
  proof -
    have "workAt s t = None" if "task = Verification" "t \<noteq> Verification" for t
    proof (cases t)
      case Migration
      then show ?thesis using ok that(1) absent_work(1)[OF wo] by (auto simp: reservedOk_def)
    next
      case (OtherTask x)
      then show ?thesis using absent_work(3)[OF wo] by simp
    qed (use ok that in \<open>auto simp: reservedOk_def\<close>)
    moreover have "workAt s Verification = None" if "task \<noteq> Verification"
    proof (cases task)
      case Migration
      then show ?thesis using ok absent_work(2)[OF wo] by (auto simp: reservedOk_def)
    qed (use ok that in \<open>auto simp: reservedOk_def\<close>)
    ultimately show ?thesis by (auto simp: exclusive_def m)
  qed
  ultimately show ?thesis using p by (simp add: pipeOk_def baseOk_def m)
qed

end
