(* ===== verification/ArchiveRun.thy ===== *)
theory ArchiveRun
  imports ArchiveProofs
begin

text \<open>
  The archive scheduler as a whole: finishing work and observing rows keep the checks, runs of transitions,
  and the properties of runs.
\<close>

section \<open>Finishing\<close>

lemma finish_cases:
  assumes "Finish now w code seal s = (None, s')"
  obtains (dated) d d' where "owns s w" "wk_Date w \<noteq> []" "dayAt s (wk_Date w) = Some d" "da_Revision d = wk_Revision w"
      "finishDay now w code seal s d = Some d'" "length code \<le> 128" "length seal \<le> 128" "code = [] \<or> seal = []"
      "s' = dropWork (wk_Task w) (setDay (wk_Date w) d' s)"
  | (undated) "owns s w" "wk_Date w = []" "code = []"
      "s' = dropWork (wk_Task w) (if wk_Task w = Migration then s\<lparr>as_MigrationDone := True\<rparr> else s)"
  using assms by (auto simp: Finish_def not_less split: if_splits option.splits)

lemma finish_error: "Finish now w code seal s = (Some e, s') \<Longrightarrow> s' = s"
  by (auto simp: Finish_def split: if_splits option.splits)

lemma finishDay_keeps: "finishDay now w code seal s d = Some d' \<Longrightarrow> da_Revision d' = da_Revision d \<and> da_Collected d' = da_Collected d"
  by (auto simp: finishDay_def split: if_splits)

lemma ResultValidate_cong: "da_Revision d' = da_Revision d \<Longrightarrow> ResultValidate s d' = ResultValidate s d"
  by (simp add: ResultValidate_def fun_eq_iff)

lemma resultOf_valid:
  assumes "da_Revision d \<noteq> 0" "as_Round s \<noteq> 0" "now \<noteq> 0" "length code \<le> 128" "length seal \<le> 128" "(code = []) \<noteq> (seal = [])"
  shows "ResultValidate s d (resultOf now s d code seal)"
  using assms by (simp add: ResultValidate_def resultOf_def)

lemma finishDay_valid:
  assumes "finishDay now w code seal s d = Some d'" "DayValidate s date d" "as_Round s \<noteq> 0" "now \<noteq> 0"
    and "length code \<le> 128" "length seal \<le> 128"
  shows "DayValidate s date d'"
proof -
  have rev: "da_Revision d \<noteq> 0" and same: "da_Revision d' = da_Revision d"
    using assms(2) finishDay_keeps[OF assms(1)] by (simp_all add: DayValidate_def)
  note cong = ResultValidate_cong[OF same]
  note res = resultOf_valid[OF rev assms(3,4)] and rv = resultOf_def[of now s d]
  consider (failed) "code \<noteq> []" "d' = d\<lparr>da_Result := Some (resultOf now s d code [])\<rparr>"
    | (organized) "d' = d\<lparr>da_OrganizedRevision := da_Revision d\<rparr>"
    | (sealed) "seal \<noteq> []" "d' = d\<lparr>da_Result := Some (resultOf now s d [] seal), da_LastSeal := Some (resultOf now s d [] seal)\<rparr>"
    using assms(1) by (auto simp: finishDay_def split: if_splits)
  then show ?thesis
  proof cases
    case failed
    then show ?thesis using assms(2) res[OF assms(5), of "[]"] unfolding DayValidate_def cong by (simp add: rv split: option.splits)
  next
    case organized
    then show ?thesis using assms(2) unfolding DayValidate_def cong by (simp split: option.splits)
  next
    case sealed
    then show ?thesis using assms(2) res[of "[]", OF _ assms(6)] unfolding DayValidate_def cong by (simp add: rv)
  qed
qed

lemma ok_setDay:
  assumes p: "pipeOk s" and d: "dayAt s date = Some d" "DayValidate s date d'" "da_Revision d' = da_Revision d" "da_Collected d' = da_Collected d"
  shows "pipeOk (setDay date d' s)"
proof -
  have wf: "wfMaps s" using p by (simp add: pipeOk_def)
  note m = dayAt_set[OF wf, of date d']
  have "daysOk (setDay date d' s)"
    using p d(2) DayValidate_mono[of s _ _ "setDay date d' s"] by (auto simp: pipeOk_def daysOk_def m)
  moreover have "workOk (setDay date d' s)"
  proof (unfold workOk_def, intro allI impI)
    fix t x
    assume "workAt (setDay date d' s) t = Some x"
    then have "WorkValidate s t x" using p by (simp add: pipeOk_def workOk_def)
    then show "WorkValidate (setDay date d' s) t x"
      by (rule WorkValidate_mono) (use d in \<open>auto simp: m\<close>)
  qed
  ultimately show ?thesis using p wf by (simp add: pipeOk_def baseOk_def tokensOk_def exclusive_def)
qed

lemma ok_migrated:
  assumes p: "pipeOk s" and w: "workAt s Migration \<noteq> None"
  shows "pipeOk (dropWork Migration (s\<lparr>as_MigrationDone := True\<rparr>))" (is "pipeOk ?s")
proof -
  let ?m = "s\<lparr>as_MigrationDone := True\<rparr>"
  have eqs: "workAt ?m = workAt s" "dayAt ?m = dayAt s" "wfMaps ?m = wfMaps s"
    by (simp_all add: workAt_def active_def dayAt_def days_def wfMaps_def fun_eq_iff)
  have wo: "workOk s" using p by (simp add: pipeOk_def)
  obtain x where "WorkValidate s Migration x" using w work_at[OF wo] by auto
  then have ready: "as_SchemaReady s" "\<not> as_MigrationDone s" by (simp_all add: WorkValidate_def)
  have none: "workAt s Organization = None" "workAt s Verification = None"
    using workOk_migration[OF wo w] absent_work(2)[OF wo ready(2)] .
  have "daysOk ?s" using p DayValidate_mono[of s _ _ ?s] by (auto simp: pipeOk_def daysOk_def eqs)
  moreover have "workOk ?s"
  proof (unfold workOk_def, intro allI impI)
    fix t x
    assume a: "workAt ?s t = Some x"
    then have "WorkValidate s t x" "t \<noteq> Migration" using work_at[OF wo] by (auto simp: eqs split: if_splits)
    then show "WorkValidate ?s t x" using a none by (cases t) (auto simp: WorkValidate_def eqs split: if_splits)
  qed
  moreover have "tokensOk ?s" using p unfolding pipeOk_def tokensOk_def workAt_drop eqs by (metis fun_upd_apply option.distinct(1))
  ultimately show ?thesis using p ready by (simp add: pipeOk_def baseOk_def exclusive_def eqs none)
qed

lemma ok_finish:
  assumes p: "pipeOk s" and f: "Finish now w code seal s = (None, s')" and n: "now \<noteq> 0"
  shows "pipeOk s'"
  using f
proof (cases rule: finish_cases)
  case (dated d d')
  have "WorkValidate s (wk_Task w) w" using p dated(1) by (simp add: pipeOk_def workOk_def owns_def)
  then have r: "as_Round s \<noteq> 0" using dated(2) by (cases "wk_Task w") (auto simp: WorkValidate_def)
  have "DayValidate s (wk_Date w) d" using p dated(3) by (simp add: pipeOk_def daysOk_def)
  from finishDay_valid[OF dated(5) this r n dated(6,7)]
  have "pipeOk (setDay (wk_Date w) d' s)" using ok_setDay[OF p dated(3)] finishDay_keeps[OF dated(5)] by simp
  then show ?thesis using dated(9) ok_drop by simp
next
  case undated
  then show ?thesis using p ok_drop ok_migrated by (auto simp: owns_def)
qed

section \<open>Observing committed rows\<close>

definition observedDay :: "string list \<Rightarrow> string \<Rightarrow> ArchiveDay option \<Rightarrow> ArchiveDay option" where
  "observedDay observed date old =
     (case old of Some d \<Rightarrow> Some d | None \<Rightarrow> if date \<in> set observed then Some (zeroDay\<lparr>da_Revision := 1\<rparr>) else None)"

definition mutatedDay :: "ArchiveDay option \<Rightarrow> ArchiveDay" where
  "mutatedDay old =
     (let d = (case old of Some d \<Rightarrow> d | None \<Rightarrow> zeroDay)
      in d\<lparr>da_Revision := da_Revision d + 1, da_OrganizedRevision := 0, da_Result := None\<rparr>)"

lemma observe_fold:
  "fst (foldl observeDate (f, m) observed) = foldl max f observed \<and>
   map_of (snd (foldl observeDate (f, m) observed)) date = observedDay observed date (map_of m date) \<and>
   (distinct (map fst m) \<longrightarrow> distinct (map fst (snd (foldl observeDate (f, m) observed))))"
proof (induction observed arbitrary: f m)
  case (Cons x xs)
  let ?fm = "observeDate (f, m) x"
  have "fst ?fm = max f x" by (auto simp: observeDate_def max_def)
  moreover have "map_of (snd ?fm) date = observedDay [x] date (map_of m date)"
    by (auto simp: observeDate_def observedDay_def AList.update_conv' split: option.split)
  moreover have "distinct (map fst m) \<longrightarrow> distinct (map fst (snd ?fm))" by (simp add: observeDate_def AList.distinct_update)
  moreover have "observedDay xs date (observedDay [x] date old) = observedDay (x # xs) date old" for old
    by (auto simp: observedDay_def split: option.split)
  ultimately show ?case using Cons.IH[of "fst ?fm" "snd ?fm"] by (cases ?fm) simp
qed (simp add: observedDay_def split: option.split)

lemma mutate_fold:
  "distinct (map fst changed) \<Longrightarrow>
   map_of (foldl mutateDate m changed) date = (if (date, True) \<in> set changed then Some (mutatedDay (map_of m date)) else map_of m date) \<and>
   (distinct (map fst m) \<longrightarrow> distinct (map fst (foldl mutateDate m changed)))"
proof (induction changed arbitrary: m)
  case (Cons dc changed)
  obtain x b where dc: "dc = (x, b)" by (cases dc)
  have one: "map_of (mutateDate m dc) date = (if date = x \<and> b then Some (mutatedDay (map_of m date)) else map_of m date)"
    by (auto simp: mutateDate_def mutatedDay_def dc AList.update_conv' Let_def)
  have d: "distinct (map fst m) \<longrightarrow> distinct (map fst (mutateDate m dc))" by (simp add: mutateDate_def Let_def AList.distinct_update)
  have "(x, c) \<notin> set changed" for c using Cons.prems dc by force
  then show ?case using Cons.IH[of "mutateDate m dc"] Cons.prems one d dc by auto
qed simp

lemma foldl_max_ge: "f \<le> foldl max f xs" "foldl max f xs = f \<or> foldl max f xs \<in> set xs" for f :: string
proof (induction xs arbitrary: f)
  case (Cons x xs)
  { case 1 show ?case using Cons.IH(1)[of "max f x"] by (simp add: max.bounded_iff) }
  { case 2 show ?case using Cons.IH(2)[of "max f x"] by (auto simp: max_def split: if_splits) }
qed simp_all

lemma observe_cases:
  assumes "ObserveCommittedRows observed changed s = (None, s')" "wfMaps s" "distinct (map fst changed)"
  shows "\<not> observeBad s observed changed \<and> as_Frontier s' = foldl max (as_Frontier s) observed \<and>
    (\<forall>date. dayAt s' date = map_option (\<lambda>d. d\<lparr>da_Collected := date < as_Frontier s'\<rparr>)
       (let old = observedDay observed date (dayAt s date)
        in if (date, True) \<in> set changed then Some (mutatedDay old) else old)) \<and>
    workAt s' = workAt s \<and> wfMaps s' \<and> as_Round s' = as_Round s \<and> as_Cutoff s' = as_Cutoff s \<and>
    as_MigrationDone s' = as_MigrationDone s \<and> as_SchemaReady s' = as_SchemaReady s \<and> as_NextToken s' = as_NextToken s \<and>
    as_Settings s' = as_Settings s \<and> as_Version s' = as_Version s"
proof -
  obtain f m1 where fm: "foldl observeDate (as_Frontier s, days s) observed = (f, m1)" by fastforce
  have o: "f = foldl max (as_Frontier s) observed" "map_of m1 date = observedDay observed date (dayAt s date)" "distinct (map fst m1)" for date
    using observe_fold[where f = "as_Frontier s" and m = "days s" and observed = observed and date = date] assms(2) fm
    by (simp_all add: dayAt_def wfMaps_def)
  have s': "\<not> observeBad s observed changed" "s' = s\<lparr>as_Frontier := f,
      as_Days := Some (map (\<lambda>(date, d). (date, d\<lparr>da_Collected := date < f\<rparr>)) (foldl mutateDate m1 changed))\<rparr>"
    using assms(1) fm by (auto simp: ObserveCommittedRows_def Let_def split: if_splits)
  note mut = mutate_fold[OF assms(3), of m1]
  have keys: "map fst (map (\<lambda>(date, d). (date, d\<lparr>da_Collected := date < f\<rparr>)) m) = map fst m" for m by (induction m) auto
  have look: "map_of (map (\<lambda>(date, d). (date, d\<lparr>da_Collected := date < g\<rparr>)) m) date = map_option (\<lambda>d. d\<lparr>da_Collected := date < g\<rparr>) (map_of m date)"
    for m date and g :: string by (induction m) auto
  have "distinct (map fst (map (\<lambda>(date, d). (date, d\<lparr>da_Collected := date < f\<rparr>)) (foldl mutateDate m1 changed)))"
    unfolding keys using mut o(3) by blast
  then have "wfMaps s'" using assms(2) by (simp add: s'(2) wfMaps_def days_def active_def del: map_map)
  then show ?thesis using mut o(1,2) s'(1)
    by (simp add: s'(2) workAt_def active_def dayAt_def days_def look Let_def fun_eq_iff)
qed

lemma observe_error: "ObserveCommittedRows observed changed s = (Some e, s') \<Longrightarrow> s' = s"
  by (auto simp: ObserveCommittedRows_def Let_def split: if_splits prod.splits)

text \<open>What observing does to one day: a mutation raises the revision, and nothing else does.\<close>

lemma observe_revision:
  assumes "ObserveCommittedRows observed changed s = (None, s')" "wfMaps s" "distinct (map fst changed)" "dayAt s date = Some d"
  obtains d' where "dayAt s' date = Some d'" "da_Collected d' = (date < as_Frontier s')" "da_LastSeal d' = da_LastSeal d"
    "if (date, True) \<in> set changed then da_Revision d' = da_Revision d + 1 \<and> da_Revision d \<noteq> MaxUint64 \<and> da_OrganizedRevision d' = 0 \<and> da_Result d' = None
     else da_Revision d' = da_Revision d \<and> da_OrganizedRevision d' = da_OrganizedRevision d \<and> da_Result d' = da_Result d"
proof -
  note c = observe_cases[OF assms(1-3)]
  have m: "da_Revision d \<noteq> MaxUint64" if "(date, True) \<in> set changed"
    using c that assms(4) by (force simp: observeBad_def list_ex_iff)
  have at: "dayAt s' date = Some ((if (date, True) \<in> set changed then mutatedDay (Some d) else d)\<lparr>da_Collected := date < as_Frontier s'\<rparr>)"
    using c assms(4) by (simp add: Let_def observedDay_def)
  show thesis by (rule that[OF at]) (use m in \<open>simp_all add: mutatedDay_def\<close>)
qed

lemma mutated_valid:
  assumes "DayValidate s date d" "da_Revision d \<noteq> MaxUint64" "as_Round s' = as_Round s"
  shows "DayValidate s' date (d\<lparr>da_Revision := da_Revision d + 1, da_OrganizedRevision := 0, da_Result := None, da_Collected := date < as_Frontier s'\<rparr>)"
  using assms(1,3) word_succ[OF assms(2)] order.trans[OF _ word_succ(2)[OF assms(2)]]
  by (auto simp: DayValidate_def ResultValidate_def split: option.splits)

lemma recollected_valid:
  assumes "DayValidate s date d" "as_Round s' = as_Round s"
  shows "DayValidate s' date (d\<lparr>da_Collected := date < as_Frontier s'\<rparr>)"
  using assms by (auto simp: DayValidate_def ResultValidate_def split: option.splits)

lemma fresh_valid:
  assumes "validDate date" "r \<noteq> 0"
  shows "DayValidate s date (zeroDay\<lparr>da_Revision := r, da_Collected := date < as_Frontier s\<rparr>)"
  using assms by (simp add: DayValidate_def zeroDay_def)

lemma ok_observe:
  assumes p: "pipeOk s" and ob: "ObserveCommittedRows observed changed s = (None, s')" and dc: "distinct (map fst changed)"
  shows "pipeOk s'"
proof -
  have wf: "wfMaps s" using p by (simp add: pipeOk_def)
  note c = observe_cases[OF ob wf dc]
  have valid: "date \<in> set observed \<or> (date, True) \<in> set changed \<Longrightarrow> validDate date" for date
    using c by (force simp: observeBad_def list_ex_iff list_all_iff)
  have eq: "dayAt s' date = map_option (\<lambda>d. d\<lparr>da_Collected := date < as_Frontier s'\<rparr>)
      (if (date, True) \<in> set changed then Some (mutatedDay (observedDay observed date (dayAt s date))) else observedDay observed date (dayAt s date))" for date
    using c unfolding Let_def by blast
  have dv: "dayAt s date = Some d \<Longrightarrow> DayValidate s date d" for date d using p by (simp add: pipeOk_def daysOk_def)
  have "DayValidate s' date d'" if d': "dayAt s' date = Some d'" for date d'
  proof (cases "dayAt s date")
    case (Some d)
    have m: "da_Revision d \<noteq> MaxUint64" if "(date, True) \<in> set changed"
      using c that Some by (force simp: observeBad_def list_ex_iff)
    have "d' = (if (date, True) \<in> set changed then mutatedDay (Some d) else d)\<lparr>da_Collected := date < as_Frontier s'\<rparr>"
      using d' eq[of date] Some by (simp add: observedDay_def split: if_splits)
    moreover have "as_Round s' = as_Round s" using c by blast
    ultimately show ?thesis using mutated_valid[OF dv[OF Some] m, of s'] recollected_valid[OF dv[OF Some], of s']
      by (simp add: mutatedDay_def split: if_splits)
  next
    case None
    have "(2 :: uint64) \<noteq> 0" by simp
    then have "\<exists>r. r \<noteq> 0 \<and> d' = zeroDay\<lparr>da_Revision := r, da_Collected := date < as_Frontier s'\<rparr> \<and> (date \<in> set observed \<or> (date, True) \<in> set changed)"
      using d' eq[of date] None by (auto simp: observedDay_def mutatedDay_def zeroDay_def split: if_splits)
    then show ?thesis using fresh_valid valid by blast
  qed
  then have "daysOk s'" by (simp add: daysOk_def)
  moreover have "workOk s'"
  proof (unfold workOk_def, intro allI impI)
    fix t x
    assume x: "workAt s' t = Some x"
    then have "WorkValidate s t x" using p c by (simp add: pipeOk_def workOk_def)
    then show "WorkValidate s' t x"
    proof (rule WorkValidate_mono)
      fix d
      assume d: "dayAt s (wk_Date x) = Some d" "da_Collected d"
      have f: "as_Frontier s \<le> as_Frontier s'" using c foldl_max_ge(1) by metis
      have "wk_Date x < as_Frontier s" using dv[OF d(1)] d(2) by (simp add: DayValidate_def)
      then have lt: "wk_Date x < as_Frontier s'" using f by (rule less_le_trans)
      obtain d' where d': "dayAt s' (wk_Date x) = Some d'" "da_Collected d' = (wk_Date x < as_Frontier s')"
        "if (wk_Date x, True) \<in> set changed then da_Revision d' = da_Revision d + 1 \<and> da_Revision d \<noteq> MaxUint64 \<and> da_OrganizedRevision d' = 0 \<and> da_Result d' = None
         else da_Revision d' = da_Revision d \<and> da_OrganizedRevision d' = da_OrganizedRevision d \<and> da_Result d' = da_Result d"
        by (rule observe_revision[OF ob wf dc d(1)])
      then show "\<exists>d'. dayAt s' (wk_Date x) = Some d' \<and> da_Collected d' \<and> da_Revision d \<le> da_Revision d'"
        using lt word_succ(2)[of "da_Revision d"] by (auto split: if_splits)
    qed (use c in simp_all)
  qed
  moreover have "as_Frontier s' = [] \<or> validDate (as_Frontier s')"
    using c foldl_max_ge(2)[of "as_Frontier s" observed] valid p by (auto simp: pipeOk_def baseOk_def)
  ultimately show ?thesis using p c by (simp add: pipeOk_def baseOk_def tokensOk_def exclusive_def)
qed

section \<open>Runs\<close>

text \<open>The transitions the callers make, successful or not; a failed one leaves the state as it is.  The
  settings and the readiness of the schema are written by the callers directly.\<close>

inductive archiveStep :: "ArchiveState \<Rightarrow> ArchiveState \<Rightarrow> bool" where
  begun: "archiveStep s (snd (BeginRound now location s))"
| observed: "distinct (map fst changed) \<Longrightarrow> archiveStep s (snd (ObserveCommittedRows dates changed s))"
| reserved: "archiveStep s (snd (Reserve task s))"
| finished: "now \<noteq> 0 \<Longrightarrow> archiveStep s (snd (Finish now w code seal s))"
| released: "archiveStep s (snd (Release w s))"
| recovered: "archiveStep s (RecoverAfterFence s)"
| configured: "SettingsValidate settings \<Longrightarrow> archiveStep s (s\<lparr>as_Settings := settings\<rparr>)"
| prepared: "archiveStep s (s\<lparr>as_SchemaReady := True\<rparr>)"

inductive archiveRun :: "ArchiveState \<Rightarrow> ArchiveState \<Rightarrow> bool" where
  refl: "archiveRun s s"
| step: "archiveRun s t \<Longrightarrow> archiveStep t u \<Longrightarrow> archiveRun s u"

definition archiveReach :: "ArchiveState \<Rightarrow> bool" where
  "archiveReach s \<longleftrightarrow> (\<exists>settings. SettingsValidate settings \<and> archiveRun (NewArchive settings) s)"

lemma ok_new: "SettingsValidate settings \<Longrightarrow> pipeOk (NewArchive settings)"
  by (simp add: pipeOk_def NewArchive_def wfMaps_def baseOk_def daysOk_def workOk_def tokensOk_def exclusive_def
      dayAt_def days_def workAt_def active_def)

lemma ok_configured:
  assumes "pipeOk s" "SettingsValidate settings"
  shows "pipeOk (s\<lparr>as_Settings := settings\<rparr>)" (is "pipeOk ?s")
proof -
  have eqs: "workAt ?s = workAt s" "dayAt ?s = dayAt s" "wfMaps ?s = wfMaps s"
    by (simp_all add: workAt_def active_def dayAt_def days_def wfMaps_def fun_eq_iff)
  have "daysOk ?s" using assms(1) DayValidate_mono[of s _ _ ?s] by (auto simp: pipeOk_def daysOk_def eqs)
  moreover have "workOk ?s" using assms(1) WorkValidate_mono[of s _ _ ?s] by (auto simp: pipeOk_def workOk_def eqs)
  ultimately show ?thesis using assms by (simp add: pipeOk_def baseOk_def tokensOk_def exclusive_def eqs)
qed

lemma ok_prepared:
  assumes "pipeOk s"
  shows "pipeOk (s\<lparr>as_SchemaReady := True\<rparr>)" (is "pipeOk ?s")
proof -
  have eqs: "workAt ?s = workAt s" "dayAt ?s = dayAt s" "wfMaps ?s = wfMaps s"
    by (simp_all add: workAt_def active_def dayAt_def days_def wfMaps_def fun_eq_iff)
  have "daysOk ?s" using assms DayValidate_mono[of s _ _ ?s] by (auto simp: pipeOk_def daysOk_def eqs)
  moreover have "workOk ?s"
  proof (unfold workOk_def eqs, intro allI impI)
    fix t w
    assume "workAt s t = Some w"
    then have "WorkValidate s t w" using assms by (simp add: pipeOk_def workOk_def)
    then show "WorkValidate ?s t w" by (cases t) (auto simp: WorkValidate_def eqs)
  qed
  ultimately show ?thesis using assms by (simp add: pipeOk_def baseOk_def tokensOk_def exclusive_def eqs)
qed

lemma ok_step: "archiveStep s s' \<Longrightarrow> pipeOk s \<Longrightarrow> pipeOk s'"
proof (induction rule: archiveStep.induct)
  case (observed changed s dates)
  then show ?case using ok_observe[of s dates changed] observe_error[of dates changed s]
    by (cases "ObserveCommittedRows dates changed s"; cases "fst (ObserveCommittedRows dates changed s)") auto
next
  case (reserved s task)
  then show ?case using ok_reserve[of s task] reserve_error[of task s]
    by (cases "Reserve task s"; cases "fst (Reserve task s)") auto
next
  case (finished now s w code seal)
  then show ?case using ok_finish[of s now w code seal] finish_error[of now w code seal s]
    by (cases "Finish now w code seal s"; cases "fst (Finish now w code seal s)") auto
qed (simp_all add: ok_begin ok_release ok_recover ok_configured ok_prepared)

lemma ok_run: "archiveRun s t \<Longrightarrow> pipeOk s \<Longrightarrow> pipeOk t"
  by (induction rule: archiveRun.induct) (auto intro: ok_step)

lemma ok_reach: "archiveReach s \<Longrightarrow> pipeOk s"
  using ok_run ok_new by (auto simp: archiveReach_def)

section \<open>Tokens and revisions only grow\<close>

lemma begin_frame:
  "as_NextToken (snd (BeginRound now location s)) = as_NextToken s" "dayAt (snd (BeginRound now location s)) = dayAt s"
  "workAt (snd (BeginRound now location s)) = workAt s"
  by (auto simp: BeginRound_def dayAt_def days_def workAt_def active_def split: option.split)

text \<open>One step: no token is reused, and no revision falls.\<close>

lemma step_grows:
  assumes "archiveStep s s'" "pipeOk s"
  shows "as_NextToken s \<le> as_NextToken s' \<and>
    (\<forall>t w. workAt s' t = Some w \<longrightarrow> workAt s t = Some w \<or> as_NextToken s < wk_Token w) \<and>
    (\<forall>date d. dayAt s date = Some d \<longrightarrow> (\<exists>d'. dayAt s' date = Some d' \<and> da_Revision d \<le> da_Revision d'))"
  using assms
proof (induction rule: archiveStep.induct)
  case (begun s now location)
  then show ?case by (auto simp: begin_frame)
next
  case (observed changed s dates)
  show ?case
  proof (cases "fst (ObserveCommittedRows dates changed s)")
    case None
    then obtain s' where ob: "ObserveCommittedRows dates changed s = (None, s')" by (metis prod.collapse)
    have wf: "wfMaps s" using observed by (simp add: pipeOk_def)
    note c = observe_cases[OF ob wf observed(1)]
    have "\<exists>d'. dayAt s' date = Some d' \<and> da_Revision d \<le> da_Revision d'" if "dayAt s date = Some d" for date d
      by (rule observe_revision[OF ob wf observed(1) that]) (use word_succ(2) in \<open>auto split: if_splits\<close>)
    then show ?thesis using c ob by auto
  next
    case (Some e)
    then have "snd (ObserveCommittedRows dates changed s) = s" using observe_error by (metis prod.collapse)
    then show ?thesis by auto
  qed
next
  case (reserved s task)
  show ?case
  proof (cases "fst (Reserve task s)")
    case (Inl w)
    then obtain s' where r: "Reserve task s = (Inl w, s')" by (metis prod.collapse)
    have wf: "wfMaps s" using reserved by (simp add: pipeOk_def)
    show ?thesis using reserve_maps[OF wf r] reserve_eqs[OF r] word_succ[of "as_NextToken s"] r by auto
  next
    case (Inr e)
    then have "snd (Reserve task s) = s" using reserve_error by (metis prod.collapse)
    then show ?thesis by auto
  qed
next
  case (finished now s w code seal)
  have wf: "wfMaps s" using finished by (simp add: pipeOk_def)
  show ?case
  proof (cases "fst (Finish now w code seal s)")
    case None
    then obtain s' where f: "Finish now w code seal s = (None, s')" by (metis prod.collapse)
    then show ?thesis
    proof (cases rule: finish_cases)
      case (dated d d')
      then show ?thesis using f finishDay_keeps[OF dated(5)] dayAt_set[OF wf] by auto
    next
      case undated
      have "dayAt (s\<lparr>as_MigrationDone := True\<rparr>) = dayAt s" "workAt (s\<lparr>as_MigrationDone := True\<rparr>) = workAt s"
        by (simp_all add: dayAt_def days_def workAt_def active_def fun_eq_iff)
      then show ?thesis using f undated by auto
    qed
  next
    case (Some e)
    then have "snd (Finish now w code seal s) = s" using finish_error by (metis prod.collapse)
    then show ?thesis by auto
  qed
next
  case (released s w)
  then show ?case by (auto simp: Release_def)
next
  case (configured settings s)
  then show ?case by (auto simp: dayAt_def days_def workAt_def active_def)
next
  case (prepared s)
  then show ?case by (auto simp: dayAt_def days_def workAt_def active_def)
qed auto

end
