(* ===== verification/ArchiveProperties.thy ===== *)
theory ArchiveProperties
  imports ArchiveRun
begin

text \<open>
  Properties of runs of the archive scheduler: valid checkpoints, fenced reservations, seals and the end of
  a round.
\<close>

section \<open>Reservations stay fresh\<close>

text \<open>A dated reservation whose revision is current still has its work to do.\<close>

definition freshOk :: "ArchiveState \<Rightarrow> bool" where
  "freshOk s \<longleftrightarrow> (\<forall>t w d. workAt s t = Some w \<and> wk_Date w \<noteq> [] \<and> dayAt s (wk_Date w) = Some d \<and> wk_Revision w = da_Revision d \<longrightarrow>
     \<not> attempted s d \<and> (t = Organization \<longrightarrow> \<not> organized d))"

definition attemptedIn :: "uint64 \<Rightarrow> ArchiveDay \<Rightarrow> bool" where
  "attemptedIn rnd d \<longleftrightarrow>
     (case da_Result d of Some r \<Rightarrow> re_Revision r = da_Revision d \<and> (re_SealVersion r \<noteq> [] \<or> re_Round r = rnd) | None \<Rightarrow> False)"

lemma attempted_round: "attempted s d = attemptedIn (as_Round s) d"
  by (simp add: attempted_def attemptedIn_def)

lemma fresh_frame:
  assumes "freshOk s" "\<And>t w. workAt s' t = Some w \<Longrightarrow> workAt s t = Some w" "dayAt s' = dayAt s" "as_Round s' = as_Round s"
  shows "freshOk s'"
  using assms unfolding freshOk_def attempted_round by metis

lemma dated_task:
  assumes "workOk s" "workAt s t = Some w" "wk_Date w \<noteq> []"
  shows "t = Organization \<or> t = Verification"
  using work_at[OF assms(1,2)] assms(3) by (cases t) (auto simp: WorkValidate_def)

lemma dated_day:
  assumes "workOk s" "workAt s t = Some w" "wk_Date w \<noteq> []"
  obtains d where "dayAt s (wk_Date w) = Some d" "da_Collected d" "wk_Revision w \<le> da_Revision d" "\<not> as_Cutoff s < wk_Date w"
    "as_MigrationDone s" "as_Round s \<noteq> 0" "wk_Task w = t"
  using work_at[OF assms(1,2)] dated_task[OF assms] by (auto simp: WorkValidate_def split: option.splits)

lemma exclusive_dated:
  assumes "pipeOk s" "workAt s t = Some w" "wk_Date w \<noteq> []" "workAt s t' = Some w'" "wk_Date w' \<noteq> []"
  shows "t = t'"
proof -
  have "t = Organization \<or> t = Verification" "t' = Organization \<or> t' = Verification"
    using dated_task assms by (auto simp: pipeOk_def)
  then show ?thesis using assms(1,2,4) by (auto simp: pipeOk_def exclusive_def)
qed

lemma fresh_observe:
  assumes f: "freshOk s" and p: "pipeOk s" and ob: "ObserveCommittedRows dates changed s = (None, s')" and dc: "distinct (map fst changed)"
  shows "freshOk s'"
proof (unfold freshOk_def, intro allI impI, elim conjE)
  fix t w d'
  assume w: "workAt s' t = Some w" "wk_Date w \<noteq> []" "dayAt s' (wk_Date w) = Some d'" "wk_Revision w = da_Revision d'"
  have wf: "wfMaps s" and wo: "workOk s" using p by (simp_all add: pipeOk_def)
  have w': "workAt s t = Some w" using w(1) observe_cases[OF ob wf dc] by simp
  have round: "as_Round s' = as_Round s" using observe_cases[OF ob wf dc] by blast
  obtain d where d: "dayAt s (wk_Date w) = Some d" "wk_Revision w \<le> da_Revision d" by (rule dated_day[OF wo w' w(2)])
  obtain d'' where d'': "dayAt s' (wk_Date w) = Some d''"
    "if (wk_Date w, True) \<in> set changed then da_Revision d'' = da_Revision d + 1 \<and> da_Revision d \<noteq> MaxUint64 \<and> da_OrganizedRevision d'' = 0 \<and> da_Result d'' = None
     else da_Revision d'' = da_Revision d \<and> da_OrganizedRevision d'' = da_OrganizedRevision d \<and> da_Result d'' = da_Result d"
    by (rule observe_revision[OF ob wf dc d(1)])
  have "(wk_Date w, True) \<notin> set changed"
  proof
    assume "(wk_Date w, True) \<in> set changed"
    then have "da_Revision d < wk_Revision w" using d'' w(3,4) word_succ(1)[of "da_Revision d"] by simp
    then show False using d(2) by simp
  qed
  then have same: "da_Revision d' = da_Revision d" "da_OrganizedRevision d' = da_OrganizedRevision d" "da_Result d' = da_Result d"
    using d'' w(3) by simp_all
  then have "\<not> attempted s d \<and> (t = Organization \<longrightarrow> \<not> organized d)" using f w' w(2,4) d(1) unfolding freshOk_def by metis
  then show "\<not> attempted s' d' \<and> (t = Organization \<longrightarrow> \<not> organized d')"
    using same round by (simp add: attempted_def organized_def split: option.splits)
qed

lemma fresh_reserve:
  assumes f: "freshOk s" and p: "pipeOk s" and r: "Reserve task s = (Inl w, s')"
  shows "freshOk s'"
proof (unfold freshOk_def, intro allI impI, elim conjE)
  fix t x d
  assume x: "workAt s' t = Some x" "wk_Date x \<noteq> []" "dayAt s' (wk_Date x) = Some d" "wk_Revision x = da_Revision d"
  have wf: "wfMaps s" using p by (simp add: pipeOk_def)
  note m = reserve_maps[OF wf r]
  have ok: "reservedOk s task w" by (rule reserve_ok[OF wf r])
  show "\<not> attempted s' d \<and> (t = Organization \<longrightarrow> \<not> organized d)"
  proof (cases "t = task")
    case True
    then have "x = w" using x(1) by (simp add: m)
    then show ?thesis using ok x(2,3) True by (cases task) (auto simp: reservedOk_def m eligible_def attempted_round)
  next
    case False
    then show ?thesis using f x unfolding freshOk_def attempted_round m by auto
  qed
qed

lemma fresh_finish:
  assumes p: "pipeOk s" and f: "freshOk s" and fin: "Finish now w code seal s = (None, s')"
  shows "freshOk s'"
  using fin
proof (cases rule: finish_cases)
  case (dated d d')
  have "wk_Date x = []" if "workAt s' t = Some x" for t x
  proof (rule ccontr)
    assume "wk_Date x \<noteq> []"
    moreover have "workAt s t = Some x" "t \<noteq> wk_Task w" using that dated(9) by (auto split: if_splits)
    ultimately show False using exclusive_dated[OF p] dated(1,2) by (auto simp: owns_def)
  qed
  then show ?thesis unfolding freshOk_def by blast
next
  case undated
  have eqs: "dayAt (s\<lparr>as_MigrationDone := True\<rparr>) = dayAt s" "workAt (s\<lparr>as_MigrationDone := True\<rparr>) = workAt s"
    by (simp_all add: dayAt_def days_def workAt_def active_def fun_eq_iff)
  show ?thesis by (rule fresh_frame[OF f]) (use undated(4) in \<open>auto simp: eqs split: if_splits\<close>)
qed

lemma fresh_begin: "freshOk s \<Longrightarrow> freshOk (snd (BeginRound now location s))"
proof (cases "active s = []")
  case True
  then have "workAt (snd (BeginRound now location s)) t = None" for t by (simp add: begin_frame) (simp add: workAt_def)
  then show ?thesis unfolding freshOk_def by simp
next
  case False
  then have "snd (BeginRound now location s) = s" by (simp add: BeginRound_def split: option.split)
  then show "freshOk s \<Longrightarrow> ?thesis" by simp
qed

text \<open>A transition succeeds or leaves the state as it is.\<close>

lemma step_or_same:
  "ObserveCommittedRows dates changed s = (None, snd (ObserveCommittedRows dates changed s)) \<or> snd (ObserveCommittedRows dates changed s) = s"
  "(\<exists>x. Reserve task s = (Inl x, snd (Reserve task s))) \<or> snd (Reserve task s) = s"
  "Finish now w code seal s = (None, snd (Finish now w code seal s)) \<or> snd (Finish now w code seal s) = s"
  using observe_error[of dates changed s] reserve_error[of task s] finish_error[of now w code seal s]
  by (metis not_None_eq prod.collapse, metis sum.exhaust_sel prod.collapse, metis not_None_eq prod.collapse)

lemma fresh_step: "archiveStep s s' \<Longrightarrow> pipeOk s \<Longrightarrow> freshOk s \<Longrightarrow> freshOk s'"
proof (induction rule: archiveStep.induct)
  case (begun s now location)
  then show ?case by (simp add: fresh_begin)
next
  case (observed changed s dates)
  then show ?case using step_or_same(1) fresh_observe by metis
next
  case (reserved s task)
  then show ?case using step_or_same(2) fresh_reserve by metis
next
  case (finished now s w code seal)
  then show ?case using step_or_same(3) fresh_finish by metis
next
  case (released s w)
  have "freshOk (dropWork (wk_Task w) s)" by (rule fresh_frame[OF released(2)]) (simp_all split: if_splits)
  then show ?case using released(2) by (cases "owns s w") (simp_all add: Release_def)
next
  case (recovered s)
  show ?case unfolding freshOk_def by simp
next
  case (configured settings s)
  show ?case by (rule fresh_frame[OF configured(3)]) (simp_all add: dayAt_def days_def workAt_def active_def fun_eq_iff)
next
  case (prepared s)
  show ?case by (rule fresh_frame[OF prepared(2)]) (simp_all add: dayAt_def days_def workAt_def active_def fun_eq_iff)
qed

lemma fresh_run: "archiveRun s t \<Longrightarrow> pipeOk s \<Longrightarrow> freshOk s \<Longrightarrow> freshOk t"
proof (induction rule: archiveRun.induct)
  case (step s t u)
  then show ?case using fresh_step ok_run by blast
qed

lemma fresh_reach: "archiveReach s \<Longrightarrow> freshOk s"
proof -
  assume "archiveReach s"
  then obtain settings where a: "SettingsValidate settings" "archiveRun (NewArchive settings) s" by (auto simp: archiveReach_def)
  have "freshOk (NewArchive settings)" by (simp add: freshOk_def NewArchive_def workAt_def active_def)
  then show ?thesis using fresh_run[OF a(2) ok_new[OF a(1)]] by blast
qed

section \<open>The end of a round\<close>

text \<open>The work left in a round: two tasks for a collected day, one for an organised one.\<close>

definition taskWeight :: "ArchiveState \<Rightarrow> string \<times> ArchiveDay \<Rightarrow> nat" where
  "taskWeight s dd = (if eligible s dd then (if organized (snd dd) then 1 else 2) else 0)"

definition remaining :: "ArchiveState \<Rightarrow> nat" where
  "remaining s = sum_list (map (taskWeight s) (days s))"

lemma update_sum:
  "distinct (map fst xs) \<Longrightarrow> map_of xs k = Some v \<Longrightarrow>
   sum_list (map f (AList.update k v' xs)) + f (k, v) = sum_list (map f xs) + (f (k, v') :: nat)"
  by (induction xs) (auto split: if_splits)

lemma taskWeight_cong: "as_Round s' = as_Round s \<Longrightarrow> as_Cutoff s' = as_Cutoff s \<Longrightarrow> taskWeight s' = taskWeight s"
  by (simp add: taskWeight_def eligible_def attempted_round fun_eq_iff)

lemma remaining_frame: "days s' = days s \<Longrightarrow> as_Round s' = as_Round s \<Longrightarrow> as_Cutoff s' = as_Cutoff s \<Longrightarrow> remaining s' = remaining s"
  using taskWeight_cong[of s' s] by (simp add: remaining_def)

lemma remaining_bound: "remaining s \<le> 2 * length (days s)"
proof -
  have "sum_list (map (taskWeight s) m) \<le> 2 * length m" for m by (induction m) (auto simp: taskWeight_def)
  then show ?thesis by (simp add: remaining_def)
qed

lemma remaining_zero:
  assumes "pipeOk s"
  shows "remaining s = 0 \<longleftrightarrow> NextDate s = []"
proof -
  have wf: "wfMaps s" and dv: "daysOk s" using assms by (simp_all add: pipeOk_def)
  have w: "taskWeight s x = 0 \<longleftrightarrow> \<not> eligible s x" for x by (simp add: taskWeight_def)
  have z: "remaining s = 0 \<longleftrightarrow> filter (eligible s) (days s) = []"
    by (simp add: remaining_def sum_list_eq_0_iff filter_empty_conv w)
  have d: "distinct (map fst (days s))" using wf by (simp add: wfMaps_def)
  show ?thesis
  proof (rule NextDate_cases[OF d])
    fix x
    assume x: "dayAt s (NextDate s) = Some x" "eligible s (NextDate s, x)"
    then have "NextDate s \<noteq> []" using dv date_nonempty by (auto simp: daysOk_def DayValidate_def)
    moreover have "filter (eligible s) (days s) \<noteq> []" using x by (auto simp: dayAt_def filter_empty_conv dest: map_of_SomeD)
    ultimately show ?thesis using z by simp
  qed (use z in simp)
qed

text \<open>Every dated task that finishes takes work away.\<close>

lemma finish_decreases:
  assumes p: "pipeOk s" and fr: "freshOk s" and fin: "Finish now w code seal s = (None, s')" and dt: "wk_Date w \<noteq> []"
  shows "remaining s' < remaining s"
  using fin
proof (cases rule: finish_cases)
  case (dated d d')
  have wf: "wfMaps s" and wo: "workOk s" using p by (simp_all add: pipeOk_def)
  have own: "workAt s (wk_Task w) = Some w" using dated(1) by (simp add: owns_def)
  obtain x where x: "dayAt s (wk_Date w) = Some x" "da_Collected x" "\<not> as_Cutoff s < wk_Date w" by (rule dated_day[OF wo own dt])
  have fresh: "\<not> attempted s d" "wk_Task w = Organization \<longrightarrow> \<not> organized d"
    using fr own dt dated(3,4) unfolding freshOk_def by metis+
  have el: "eligible s (wk_Date w, d)" using x dated(3) fresh(1) by (simp add: eligible_def)
  have "taskWeight s (wk_Date w, d') < taskWeight s (wk_Date w, d)"
    using dated(5) el fresh dated(3) x
    by (auto simp: finishDay_def taskWeight_def eligible_def attempted_def organized_def resultOf_def split: if_splits)
  moreover have "remaining s' = sum_list (map (taskWeight s) (AList.update (wk_Date w) d' (days s)))"
    using dated(9) wf taskWeight_cong[of s' s] by (auto simp: remaining_def) (auto simp: wfMaps_def setDay_def days_def)
  moreover have "distinct (map fst (days s))" "map_of (days s) (wk_Date w) = Some d" using wf dated(3) by (simp_all add: wfMaps_def dayAt_def)
  ultimately show ?thesis
    using update_sum[of "days s" "wk_Date w" d "taskWeight s" d'] by (simp add: remaining_def)
qed (use dt in simp)

text \<open>Steps that neither begin a round nor observe rows, apart from the dated tasks that finish.\<close>

inductive quietStep :: "ArchiveState \<Rightarrow> ArchiveState \<Rightarrow> bool" where
  reserving: "quietStep s (snd (Reserve task s))"
| releasing: "quietStep s (snd (Release w s))"
| recovering: "quietStep s (RecoverAfterFence s)"
| configuring: "SettingsValidate settings \<Longrightarrow> quietStep s (s\<lparr>as_Settings := settings\<rparr>)"
| undated: "now \<noteq> 0 \<Longrightarrow> wk_Date w = [] \<Longrightarrow> quietStep s (snd (Finish now w code seal s))"

inductive quietRun :: "nat \<Rightarrow> ArchiveState \<Rightarrow> ArchiveState \<Rightarrow> bool" where
  start: "quietRun 0 s s"
| quiet: "quietRun n s t \<Longrightarrow> quietStep t u \<Longrightarrow> quietRun n s u"
| finished: "quietRun n s t \<Longrightarrow> Finish now w code seal t = (None, u) \<Longrightarrow> now \<noteq> 0 \<Longrightarrow> wk_Date w \<noteq> [] \<Longrightarrow> quietRun (Suc n) s u"

lemma quiet_step: "quietStep s s' \<Longrightarrow> archiveStep s s'"
  by (induction rule: quietStep.induct) (auto intro: archiveStep.intros)

lemma quiet_frame:
  assumes "quietStep s s'" "pipeOk s"
  shows "days s' = days s \<and> as_Round s' = as_Round s \<and> as_Cutoff s' = as_Cutoff s"
  using assms
proof (induction rule: quietStep.induct)
  case (reserving s task)
  have wf: "wfMaps s" using reserving by (simp add: pipeOk_def)
  show ?case using reserve_maps(3,5,6)[OF wf] step_or_same(2) by metis
next
  case (undated now w s code seal)
  then show ?case by (simp add: Finish_def days_def dropWork_def)
next
  case (releasing s w)
  show ?case by (simp add: Release_def)
qed (simp_all add: days_def)

lemma quiet_invariant:
  "quietRun n s t \<Longrightarrow> pipeOk s \<Longrightarrow> freshOk s \<Longrightarrow> pipeOk t \<and> freshOk t \<and> n + remaining t \<le> remaining s"
proof (induction rule: quietRun.induct)
  case (quiet n s t u)
  then have a: "pipeOk t" "freshOk t" "n + remaining t \<le> remaining s" "archiveStep t u" using quiet_step by auto
  then show ?case using ok_step fresh_step quiet_frame[OF quiet(2) a(1)] remaining_frame[of u t] by auto
next
  case (finished n s t now w code seal u)
  then have a: "pipeOk t" "freshOk t" "n + remaining t \<le> remaining s" by auto
  have "archiveStep t u" using archiveStep.finished[OF finished(3), of t w code seal] finished(2) by simp
  then show ?case using a ok_step fresh_step finish_decreases[OF a(1,2) finished(2,4)] by auto
qed simp

section \<open>Runs never reuse a token and never lower a revision\<close>

lemma run_grows:
  "archiveRun s t \<Longrightarrow> pipeOk s \<Longrightarrow> as_NextToken s \<le> as_NextToken t \<and>
    (\<forall>k w. workAt t k = Some w \<longrightarrow> workAt s k = Some w \<or> as_NextToken s < wk_Token w) \<and>
    (\<forall>date d. dayAt s date = Some d \<longrightarrow> (\<exists>d'. dayAt t date = Some d' \<and> da_Revision d \<le> da_Revision d'))"
proof (induction rule: archiveRun.induct)
  case (step s t u)
  have g: "as_NextToken t \<le> as_NextToken u" "\<And>k w. workAt u k = Some w \<Longrightarrow> workAt t k = Some w \<or> as_NextToken t < wk_Token w"
    "\<And>date d. dayAt t date = Some d \<Longrightarrow> \<exists>d'. dayAt u date = Some d' \<and> da_Revision d \<le> da_Revision d'"
    using step_grows[OF step(2) ok_run[OF step(1,4)]] by blast+
  then show ?case using step.IH[OF step(4)] by (meson le_less_trans order.trans)
qed auto

lemma run_revision:
  assumes "archiveRun s t" "pipeOk s" "dayAt s date = Some d"
  obtains d' where "dayAt t date = Some d'" "da_Revision d \<le> da_Revision d'"
  using run_grows[OF assms(1,2)] assms(3) by blast

lemma verification_reserved:
  assumes "pipeOk s" "Reserve Verification s = (Inl w, s')"
  obtains d where "dayAt s (wk_Date w) = Some d" "organized d" "eligible s (wk_Date w, d)" "wk_Revision w = da_Revision d"
    "wk_Date w \<noteq> []" "dayAt s' = dayAt s" "pipeOk s'" "wk_Task w = Verification" "as_MigrationDone s"
proof -
  have wf: "wfMaps s" using assms(1) by (simp add: pipeOk_def)
  have "reservedOk s Verification w" by (rule reserve_ok[OF wf assms(2)])
  then have "\<exists>d. dayAt s (wk_Date w) = Some d \<and> organized d \<and> eligible s (wk_Date w, d) \<and> wk_Revision w = da_Revision d"
    "wk_Date w \<noteq> []" "wk_Task w = Verification" "as_MigrationDone s"
    unfolding reservedOk_def by auto
  then show thesis using that reserve_maps(2)[OF wf assms(2)] ok_reserve[OF assms] by blast
qed

section \<open>A worked run\<close>

definition demoSettings :: Settings where
  "demoSettings = \<lparr>se_RetryToken = [], se_Migration = True, se_Organization = True, se_Verification = True, se_Collection = True,
     se_CollectionFrom = [], se_CollectionThrough = [], se_CollectionNewestFirst = False\<rparr>"

definition demoStart :: ArchiveState where
  "demoStart = (NewArchive demoSettings)\<lparr>as_SchemaReady := True\<rparr>"

definition demoMigrating :: Work where
  "demoMigrating = \<lparr>wk_Token = 1, wk_Task = Migration, wk_Date = [], wk_Revision = 0\<rparr>"

definition demoRound :: ArchiveState where
  "demoRound = snd (BeginRound 1 (Some (\<lambda>_. ''2024-01-02'')) (snd (ObserveCommittedRows [''2024-01-01'', ''2024-01-02''] []
     (snd (Finish 1 demoMigrating [] [] (snd (Reserve Migration demoStart)))))))"

definition demoOrganizing :: Work where
  "demoOrganizing = \<lparr>wk_Token = 2, wk_Task = Organization, wk_Date = ''2024-01-01'', wk_Revision = 1\<rparr>"

definition demoOrganized :: ArchiveState where
  "demoOrganized = snd (Finish 1 demoOrganizing [] [] (snd (Reserve Organization demoRound)))"

definition demoVerifying :: Work where
  "demoVerifying = \<lparr>wk_Token = 3, wk_Task = Verification, wk_Date = ''2024-01-01'', wk_Revision = 1\<rparr>"

lemma demo_reach:
  "archiveReach demoStart" "archiveReach (snd (Reserve Migration demoStart))" "archiveReach demoRound" "archiveReach demoOrganized"
proof -
  have ok: "SettingsValidate demoSettings" "\<And>s t. archiveReach s \<Longrightarrow> archiveStep s t \<Longrightarrow> archiveReach t"
    by (simp add: SettingsValidate_def demoSettings_def) (auto simp: archiveReach_def intro: archiveRun.step)
  then have "archiveReach (NewArchive demoSettings)" by (auto simp: archiveReach_def intro: archiveRun.refl)
  then show a: "archiveReach demoStart" unfolding demoStart_def using ok archiveStep.prepared by blast
  then show b: "archiveReach (snd (Reserve Migration demoStart))" using ok archiveStep.reserved by blast
  then have "archiveReach (snd (Finish 1 demoMigrating [] [] (snd (Reserve Migration demoStart))))"
    by (rule ok(2)) (rule archiveStep.finished, simp)
  then have "archiveReach (snd (ObserveCommittedRows [''2024-01-01'', ''2024-01-02''] [] (snd (Finish 1 demoMigrating [] [] (snd (Reserve Migration demoStart))))))"
    by (rule ok(2)) (rule archiveStep.observed, simp)
  then show c: "archiveReach demoRound" unfolding demoRound_def using ok(2) archiveStep.begun by blast
  then have "archiveReach (snd (Reserve Organization demoRound))" using ok(2) archiveStep.reserved by blast
  then show "archiveReach demoOrganized" unfolding demoOrganized_def by (rule ok(2)) (rule archiveStep.finished, simp)
qed

lemma demo_reserve: "Reserve Verification demoOrganized = (Inl demoVerifying, snd (Reserve Verification demoOrganized))"
  by code_simp

section \<open>Properties\<close>

text \<open>C30: Checkpoint validity.  Every state the scheduler's transitions can reach from a new archive with valid
  settings passes the whole validation that is run on a decoded checkpoint.  So a saved checkpoint is never
  refused, no two tasks hold the same token, verification runs alone and migration never runs beside
  organisation.\<close>

theorem archive_checkpoint_valid:
  assumes "archiveReach s"
  shows "ArchiveValidate s \<and> (workAt s Verification \<noteq> None \<longrightarrow> active s = [(Verification, the (workAt s Verification))])"
proof -
  have p: "pipeOk s" and wf: "wfMaps s" using ok_reach[OF assms] by (simp_all add: pipeOk_def)
  then have v: "ArchiveValidate s" using validate_iff by blast
  have "active s = [(Verification, the (workAt s Verification))]" if "workAt s Verification \<noteq> None"
  proof -
    have "length (active s) = 1" using v that by (simp add: ArchiveValidate_def)
    then show ?thesis using that by (auto simp: length_Suc_conv workAt_def split: if_splits)
  qed
  then show ?thesis using v by blast
qed

theorem archive_checkpoint_valid_witness:
  "archiveReach demoOrganized \<and> ArchiveValidate demoOrganized"
  using archive_checkpoint_valid[OF demo_reach(4)] demo_reach(4) by blast

text \<open>Fencing.  A reservation that the state no longer holds can never commit again, whatever happens
  afterwards: tokens are not reused, so every later \<open>Finish\<close> or \<open>Release\<close> with it reports a conflict and
  changes nothing.\<close>

theorem fenced_work_never_commits:
  assumes "archiveReach s" "wk_Token w \<le> as_NextToken s" "\<not> owns s w" "archiveRun s t"
  shows "Finish now w code seal t = (Some ErrConflict, t) \<and> Release w t = (Some ErrConflict, t)"
proof -
  have "\<not> owns t w" using run_grows[OF assms(4) ok_reach[OF assms(1)]] assms(2,3) unfolding owns_def by (metis leD)
  then show ?thesis by (simp add: Finish_def Release_def)
qed

theorem fenced_work_never_commits_witness:
  "Finish 7 demoMigrating [] [] (RecoverAfterFence (snd (Reserve Migration demoStart))) =
     (Some ErrConflict, RecoverAfterFence (snd (Reserve Migration demoStart)))"
proof -
  let ?s = "RecoverAfterFence (snd (Reserve Migration demoStart))"
  have "archiveReach ?s" using demo_reach(2) archiveStep.recovered by (auto simp: archiveReach_def intro: archiveRun.step)
  moreover have "wk_Token demoMigrating \<le> as_NextToken ?s" "\<not> owns ?s demoMigrating" by code_simp+
  ultimately show ?thesis using fenced_work_never_commits archiveRun.refl by blast
qed



text \<open>Sealing.  When a reserved verification does record a seal, at any later moment, the day was organised
  when it was reserved, its revision has not moved since, and from then on it shows as sealed and is not chosen
  again; every other day is untouched.\<close>

theorem seal_is_of_the_verified_revision:
  assumes "archiveReach s" "Reserve Verification s = (Inl w, s1)" "archiveRun s1 t" "Finish now w [] seal t = (None, u)"
  shows "(\<exists>d d'. dayAt s (wk_Date w) = Some d \<and> organized d \<and> dayAt t (wk_Date w) = Some d' \<and> da_Revision d' = da_Revision d) \<and>
    DayState u (wk_Date w) = ''sealed'' \<and> NextDate u \<noteq> wk_Date w \<and> (\<forall>date. date \<noteq> wk_Date w \<longrightarrow> dayAt u date = dayAt t date)"
proof -
  obtain d where d: "dayAt s (wk_Date w) = Some d" "organized d" "wk_Revision w = da_Revision d" "wk_Date w \<noteq> []" "pipeOk s1"
    "wk_Task w = Verification"
    by (rule verification_reserved[OF ok_reach[OF assms(1)] assms(2)])
  have t: "pipeOk t" using ok_run[OF assms(3) d(5)] .
  then have wf: "wfMaps t" and wo: "workOk t" by (simp_all add: pipeOk_def)
  show ?thesis
    using assms(4)
  proof (cases rule: finish_cases)
    case (dated e e')
    let ?r = "resultOf now t e [] seal"
    have e': "e' = e\<lparr>da_Result := Some ?r, da_LastSeal := Some ?r\<rparr>" "seal \<noteq> []"
      using dated(5) d(6) by (auto simp: finishDay_def split: if_splits)
    have own: "workAt t Verification = Some w" using dated(1) d(6) by (simp add: owns_def)
    obtain x where x: "dayAt t (wk_Date w) = Some x" "da_Collected x" "as_MigrationDone t" by (rule dated_day[OF wo own d(4)])
    have org: "workAt t Organization = None" using t own by (simp add: pipeOk_def exclusive_def)
    have day: "dayAt u = (dayAt t)(wk_Date w \<mapsto> e')" using dayAt_set[OF wf] dated(9) by simp
    have "DayState u (wk_Date w) = ''sealed''"
      using x dated(3) e' org d(6) by (simp add: DayState_def day) (simp add: dated(9) workOn_def resultOf_def)
    moreover have "NextDate u \<noteq> wk_Date w"
    proof
      assume n: "NextDate u = wk_Date w"
      have "wfMaps u" using dated(9) wf by simp
      then have "eligible u (wk_Date w, e')" using next_eligible[of u e'] n d(4) day by simp
      then show False using e' by (simp add: eligible_def attempted_def resultOf_def)
    qed
    ultimately show ?thesis using d dated(3,4) day by auto
  qed (use d(4) in simp)
qed

theorem seal_is_of_the_verified_revision_witness:
  "DayState (snd (Finish 9 demoVerifying [] ''v1'' (snd (Reserve Verification demoOrganized)))) ''2024-01-01'' = ''sealed''"
proof -
  let ?a = "snd (Reserve Verification demoOrganized)"
  have "Finish 9 demoVerifying [] ''v1'' ?a = (None, snd (Finish 9 demoVerifying [] ''v1'' ?a))" by code_simp
  from seal_is_of_the_verified_revision[OF demo_reach(4) demo_reserve archiveRun.refl this]
  show ?thesis by (simp add: demoVerifying_def)
qed



end
