(* ===== verification/Permissions.thy ===== *)
theory Permissions
  imports Strings
begin

text \<open>
  Accounts, permissions and the request gate of the dashboard (\<open>auth/permissions.go\<close>, the middleware of
  \<open>auth/handlers.go\<close> and the user of \<open>storage/models.go\<close>).  Only the keys of the permission catalog matter;
  its labels and descriptions are display text.  A query is the function from a key to its list of values.
\<close>

section \<open>Users and permission keys\<close>

text \<open>A nil permission list is \<open>None\<close>; an empty one is \<open>Some []\<close>.\<close>

record User =
  us_ID :: int64
  us_Username :: string
  us_PasswordHash :: string
  us_Role :: string
  us_ScopeSite :: string
  us_ScopeUserIDs :: "int64 list"
  us_DisplayName :: string
  us_Permissions :: "string list option"
  us_PermissionPresetID :: int64
  us_Enabled :: bool
  us_CreatedAt :: time
  us_UpdatedAt :: time

definition IsFullAdmin :: "User \<Rightarrow> bool" where
  "IsFullAdmin u \<longleftrightarrow> us_Role u = ''admin'' \<and> (case us_Permissions u of None \<Rightarrow> True | Some ps \<Rightarrow> ''*'' \<in> set ps)"

definition PermissionCatalog :: "string list" where
  "PermissionCatalog =
     [''monitor.trials'', ''archive.manage'', ''logs.query'', ''overview.read'', ''monitor.customers'', ''monitor.requests'',
      ''monitor.channels'', ''monitor.models'', ''monitor.runtime'', ''monitor.samples'', ''monitor.latency'', ''data.usage'',
      ''data.users'', ''data.logs'', ''billing.users'', ''billing.channels'', ''billing.tasks'', ''models.manage'',
      ''upstreams.manage'', ''discounts.manage'', ''tuning.manage'', ''alerts.manage'', ''notifications.manage'',
      ''instances.manage'', ''audits.read'', ''settings.manage'', ''accounts.manage'']"

definition legacyBundles :: "(string \<times> string list) list" where
  "legacyBundles =
     [(''monitor.read'', [''overview.read'', ''monitor.customers'', ''monitor.channels'', ''monitor.models'', ''monitor.runtime'',
         ''monitor.samples'', ''monitor.latency'']),
      (''data.read'', [''data.usage'', ''data.users'', ''data.logs'']),
      (''billing.manage'', [''billing.users'', ''billing.channels'', ''billing.tasks''])]"

definition legacyPermissions :: "string \<Rightarrow> string list option" where
  "legacyPermissions = map_of legacyBundles"

text \<open>Ranging over a nil list visits nothing.\<close>

definition permissionsOf :: "User \<Rightarrow> string list" where
  "permissionsOf u = (case us_Permissions u of None \<Rightarrow> [] | Some ps \<Rightarrow> ps)"

definition addKey :: "string list \<Rightarrow> string \<Rightarrow> string list" where
  "addKey out k = (if k \<in> set out then out else out @ [k])"

definition bundleOf :: "string \<Rightarrow> string list" where
  "bundleOf key = (case legacyPermissions key of Some keys \<Rightarrow> keys | None \<Rightarrow> [key])"

definition ExpandPermissions :: "string list \<Rightarrow> string list" where
  "ExpandPermissions permissions = foldl (\<lambda>out key. foldl addKey out (bundleOf key)) [] permissions"

lemma legacy_table:
  "list_all (\<lambda>(key, children). children \<noteq> [] \<and> list_all (\<lambda>c. c \<in> set PermissionCatalog \<and> legacyPermissions c = None) children) legacyBundles"
  by code_simp

lemma legacy_cases:
  "legacyPermissions key = Some children \<Longrightarrow> child \<in> set children \<Longrightarrow> child \<in> set PermissionCatalog \<and> legacyPermissions child = None"
  using legacy_table by (auto simp: legacyPermissions_def list_all_iff dest!: map_of_SomeD)

lemma legacy_nonempty: "legacyPermissions key = Some children \<Longrightarrow> children \<noteq> []"
  using legacy_table by (auto simp: legacyPermissions_def list_all_iff dest!: map_of_SomeD)

function HasPermission :: "User \<Rightarrow> string \<Rightarrow> bool" where
  "HasPermission u key \<longleftrightarrow>
     (if us_Role u \<noteq> ''admin'' then False
      else if IsFullAdmin u then True
      else case legacyPermissions key of
             Some children \<Rightarrow> list_all (HasPermission u) children
           | None \<Rightarrow> key \<in> set (ExpandPermissions (permissionsOf u)))"
  by pat_completeness auto
termination
  by (relation "measure (\<lambda>(u, key). if legacyPermissions key = None then 0 else 1)") (auto dest: legacy_cases)

declare HasPermission.simps [simp del]

definition canGrant :: "User \<Rightarrow> string list \<Rightarrow> bool" where
  "canGrant actor permissions \<longleftrightarrow>
     list_all (\<lambda>p. (p = ''*'' \<or> p \<in> set PermissionCatalog) \<and> HasPermission actor p) (ExpandPermissions permissions)"

definition canManage :: "User \<Rightarrow> User \<Rightarrow> bool" where
  "canManage actor target \<longleftrightarrow>
     (if \<not> HasPermission actor ''accounts.manage'' then False
      else if us_Role target = ''viewer'' then True
      else if IsFullAdmin target then IsFullAdmin actor
      else canGrant actor (permissionsOf target))"

section \<open>Requests\<close>

record Request =
  rq_Method :: string
  rq_Path :: string
  rq_Query :: "string \<Rightarrow> string list"
  rq_RequestedWith :: string
  rq_Authorization :: string
  rq_Cookie :: "string option"

definition queryGet :: "(string \<Rightarrow> string list) \<Rightarrow> string \<Rightarrow> string" where
  "queryGet q key = (case q key of [] \<Rightarrow> [] | v # _ \<Rightarrow> v)"

definition hasPrefix :: "string \<Rightarrow> string \<Rightarrow> bool" where
  "hasPrefix p s \<longleftrightarrow> stripPrefix p s \<noteq> None"

definition hasSuffix :: "string \<Rightarrow> string \<Rightarrow> bool" where
  "hasSuffix p s \<longleftrightarrow> hasPrefix (rev p) (rev s)"

definition trimPrefix :: "string \<Rightarrow> string \<Rightarrow> string" where
  "trimPrefix p s = (case stripPrefix p s of Some t \<Rightarrow> t | None \<Rightarrow> s)"

text \<open>The three switches of \<open>allowAdminRequest\<close>, over the permissions \<open>has\<close> of the user.\<close>

definition billingRoute :: "(string \<Rightarrow> bool) \<Rightarrow> string \<Rightarrow> string \<Rightarrow> bool" where
  "billingRoute has method path \<longleftrightarrow>
     (let read = (method = ''GET''); anyOf = list_ex has in
      if path = ''models'' then
        anyOf [''models.manage''] \<or>
        (read \<and> anyOf [''billing.users'', ''billing.channels'', ''billing.tasks'', ''tuning.manage'', ''discounts.manage''])
      else if path \<in> {''prices'', ''group-ratios'', ''import-prices''} then
        anyOf [''models.manage''] \<or> (read \<and> anyOf [''billing.users'', ''billing.channels'', ''billing.tasks'', ''tuning.manage''])
      else if path = ''upstreams'' then
        anyOf [''upstreams.manage''] \<or> (read \<and> anyOf [''billing.channels'', ''billing.tasks'', ''discounts.manage''])
      else if path = ''configuration'' then anyOf [''settings.manage'']
      else if path = ''current-discounts'' then read \<and> anyOf [''discounts.manage'']
      else if path = ''report-tasks'' then anyOf [''billing.channels'']
      else if path = ''reports'' then read \<and> anyOf [''billing.channels'']
      else if path = ''generation-batch'' then anyOf [''billing.users'', ''billing.channels'', ''billing.tasks'']
      else if path = ''catalog'' then read \<and> anyOf [''billing.users'', ''billing.channels'', ''billing.tasks'']
      else if path \<in> {''workspace'', ''generate-missing'', ''jobs/steps''} then
        anyOf [''billing.users'', ''billing.channels'', ''billing.tasks'']
      else if path = ''discounts'' then
        anyOf [''discounts.manage''] \<or>
        (read \<and> anyOf [''billing.users'', ''billing.channels'', ''billing.tasks'', ''upstreams.manage''])
      else if path = ''jobs'' then
        (if method = ''POST'' then anyOf [''billing.tasks''] else anyOf [''billing.users'', ''billing.channels'', ''billing.tasks''])
      else if path \<in> {''statements'', ''statements/result'', ''statements/details''} then
        anyOf [''billing.users'', ''billing.channels'', ''billing.tasks'']
      else if path = ''backfill'' then anyOf [''billing.tasks'']
      else if path \<in> {''upstream-channels'', ''upstream-channels/detail'', ''upstream-channels/requests'', ''channels''} then
        anyOf [''billing.channels'']
      else if path \<in> {''overview'', ''files'', ''user-days'', ''user-token-days'', ''range-workbook'', ''anomalies'', ''summary'',
          ''detail'', ''reconciliation'', ''reconciliation/requests'', ''tokens'', ''tokens/daily'', ''user-settings''} then
        anyOf [''billing.users'']
      else if path = ''verification'' then anyOf [''billing.tasks'']
      else False)"

definition dimensionRoute :: "(string \<Rightarrow> bool) \<Rightarrow> string \<Rightarrow> bool" where
  "dimensionRoute has dimension \<longleftrightarrow>
     (if dimension = ''instance'' then has ''overview.read''
      else if dimension \<in> {''instance_user'', ''instance_user_model'', ''instance_user_channel''} then has ''monitor.customers''
      else if dimension \<in> {''instance_channel'', ''instance_channel_model'', ''instance_channel_user''} then has ''monitor.channels''
      else if dimension \<in> {''instance_model'', ''instance_model_user'', ''instance_model_channel''} then has ''monitor.models''
      else False)"

definition monitorRoute :: "(string \<Rightarrow> bool) \<Rightarrow> string \<Rightarrow> string \<Rightarrow> string \<Rightarrow> bool" where
  "monitorRoute has method path dimension \<longleftrightarrow>
     (let read = (method = ''GET''); anyOf = list_ex has in
      if path \<in> {''overview'', ''overview-snapshot''} then read \<and> anyOf [''overview.read'']
      else if path \<in> {''metrics'', ''metric-history'', ''monitor-error-codes'', ''error-statistics''} then
        (if \<not> read then False else if anyOf [''tuning.manage''] then True else dimensionRoute has dimension)
      else if path = ''channel-snapshots'' then read \<and> anyOf [''monitor.channels'', ''tuning.manage'']
      else if path \<in> {''agents'', ''server-metrics'', ''health-checks'', ''docker-statuses''} then read \<and> anyOf [''monitor.runtime'']
      else if path \<in> {''nginx-timing'', ''nginx-timing/slow-samples''} then read \<and> anyOf [''monitor.latency'']
      else if path \<in> {''log-samples'', ''logs''} then read \<and> anyOf [''monitor.samples'']
      else False)"

definition adminRoute :: "(string \<Rightarrow> bool) \<Rightarrow> string \<Rightarrow> string \<Rightarrow> string \<Rightarrow> bool" where
  "adminRoute has method path dimension \<longleftrightarrow>
     (let read = (method = ''GET''); anyOf = list_ex has in
      if path = ''trial-followup'' \<or> hasPrefix ''trial-followup/'' path then has ''monitor.trials''
      else if path = ''operations-people'' then has ''settings.manage''
      else if path = ''log-archive-connection'' \<or> path = ''log-archive-connection/test'' \<or> hasPrefix ''log-archive-read/'' path \<or>
          path = ''log-archive-jobs'' \<or> hasPrefix ''log-archive-jobs/'' path \<or> path = ''log-archives'' \<or> hasPrefix ''log-archives/'' path \<or>
          path = ''archive-datasets'' \<or> hasPrefix ''archive-datasets/'' path then has ''archive.manage''
      else if hasPrefix ''container-log-'' path then has ''logs.query''
      else if path = ''model-square'' then (read \<or> method = ''POST'') \<and> has ''models.manage''
      else if path = ''request-monitor/rules'' then
        (read \<and> (has ''monitor.requests'' \<or> has ''settings.manage'')) \<or> (method = ''PUT'' \<and> has ''settings.manage'')
      else if path = ''request-monitor'' \<or> path = ''request-monitor/channels'' then read \<and> has ''monitor.requests''
      else if path = ''menu-visibility'' then read \<or> (method = ''PUT'' \<and> has ''settings.manage'')
      else if path = ''instances'' \<and> read then True
      else if hasPrefix ''instances/'' path \<or> path = ''instances'' then anyOf [''instances.manage'']
      else if hasPrefix ''tuning/'' path \<or> path = ''channel-commands'' \<or> (hasPrefix ''channels/'' path \<and> hasSuffix ''/commands'' path) then
        anyOf [''tuning.manage'']
      else if path = ''operation-audits'' then read \<and> anyOf [''audits.read'']
      else if path = ''settings'' \<or> path = ''voice-alerts'' \<or> path = ''alb-access-log'' \<or> path = ''alb-access-log/test'' then
        anyOf [''settings.manage'']
      else if hasPrefix ''notification-'' path then anyOf [''notifications.manage'']
      else if path = ''balance-alert-users'' then anyOf [''alerts.manage'']
      else if path = ''alerts'' \<or> hasPrefix ''alerts/'' path then
        anyOf [''alerts.manage''] \<or> (read \<and> anyOf [''overview.read'', ''tuning.manage''])
      else if path = ''passthrough/currency'' then read
      else if path = ''passthrough/users'' then
        read \<and> anyOf [''data.users'', ''accounts.manage'', ''billing.users'', ''billing.tasks'', ''discounts.manage'', ''alerts.manage'']
      else if hasPrefix ''passthrough/logs'' path then read \<and> anyOf [''data.logs'', ''billing.users'']
      else if hasPrefix ''billing/'' path then billingRoute has method (trimPrefix ''billing/'' path)
      else if path = ''usage'' then read \<and> anyOf [''data.usage'', ''overview.read'']
      else monitorRoute has method path dimension)"

definition allowAdminRequest :: "User \<Rightarrow> Request \<Rightarrow> bool" where
  "allowAdminRequest u r \<longleftrightarrow>
     (if us_Role u \<noteq> ''admin'' then False
      else if IsFullAdmin u then True
      else adminRoute (HasPermission u) (rq_Method r) (trimPrefix ''/api/dashboard/'' (rq_Path r)) (queryGet (rq_Query r) ''dimension_type''))"

section \<open>The gate\<close>

text \<open>\<open>Served\<close> hands the request on, with the actor name and the user of the session if there is one.\<close>

datatype gateResult = Denied int string | Served string "User option" Request

definition passthroughPath :: "string \<Rightarrow> bool" where
  "passthroughPath path \<longleftrightarrow>
     path \<in> {''/api/dashboard/passthrough/currency'', ''/api/dashboard/passthrough/users'', ''/api/dashboard/passthrough/logs'',
       ''/api/dashboard/passthrough/logs/stat'', ''/api/dashboard/passthrough/logs/count''}"

definition scopeQuery :: "User \<Rightarrow> Request \<Rightarrow> Request" where
  "scopeQuery u r = r\<lparr>rq_Query := (rq_Query r)(''site'' := [us_ScopeSite u], ''instance_id'' := [])\<rparr>"

definition sessionGate :: "User \<Rightarrow> Request \<Rightarrow> gateResult" where
  "sessionGate u r =
     (let path = rq_Path r; read = (rq_Method r = ''GET''); serve = Served (us_Username u) (Some u) in
      if \<not> read \<and> rq_RequestedWith r \<noteq> ''XMLHttpRequest'' then Denied 403 ''csrf''
      else if us_Role u = ''viewer'' then
        (if read \<and> path = ''/api/dashboard/menu-visibility'' then serve r
         else if \<not> read \<or> (path \<noteq> ''/api/dashboard/error-statistics'' \<and> path \<noteq> ''/api/dashboard/metrics'' \<and>
             path \<noteq> ''/api/dashboard/metric-history'' \<and> path \<noteq> ''/api/dashboard/instances'' \<and> \<not> passthroughPath path) then Denied 403 ''forbidden''
         else if path \<noteq> ''/api/dashboard/instances'' \<and> \<not> passthroughPath path \<and>
             \<not> hasPrefix ''instance_user'' (queryGet (rq_Query r) ''dimension_type'') then Denied 403 ''forbidden''
         else serve (scopeQuery u r))
      else if \<not> allowAdminRequest u r then Denied 403 ''forbidden''
      else serve r)"

definition tokenGate :: "string \<Rightarrow> Request \<Rightarrow> gateResult" where
  "tokenGate token r =
     (let v = trimPrefix ''Bearer '' (rq_Authorization r)
      in if token \<noteq> [] \<and> v \<noteq> [] \<and> length v = length token \<and> v = token then Served ''token'' None r else Denied 401 ''unauthorized'')"

text \<open>\<open>validate\<close> is the session lookup of the manager at the time of the request.\<close>

definition RequireSessionOrToken :: "(string \<Rightarrow> User option) \<Rightarrow> string \<Rightarrow> Request \<Rightarrow> gateResult" where
  "RequireSessionOrToken validate token r =
     (case (case rq_Cookie r of Some c \<Rightarrow> validate c | None \<Rightarrow> None) of
        Some u \<Rightarrow> sessionGate u r
      | None \<Rightarrow> tokenGate token r)"

section \<open>Keys\<close>

lemma addKey_set [simp]: "set (addKey out k) = insert k (set out)" "distinct out \<Longrightarrow> distinct (addKey out k)"
  by (auto simp: addKey_def)

lemma addKeys_set: "set (foldl addKey out ks) = set out \<union> set ks \<and> (distinct out \<longrightarrow> distinct (foldl addKey out ks))"
  by (induction ks arbitrary: out) auto

lemma expand_fold:
  "set (foldl (\<lambda>out key. foldl addKey out (bundleOf key)) out ps) = set out \<union> (\<Union>p\<in>set ps. set (bundleOf p)) \<and>
   (distinct out \<longrightarrow> distinct (foldl (\<lambda>out key. foldl addKey out (bundleOf key)) out ps))"
  by (induction ps arbitrary: out) (auto simp: addKeys_set)

lemma expand_set: "set (ExpandPermissions ps) = (\<Union>p\<in>set ps. set (bundleOf p))"
  by (simp add: ExpandPermissions_def expand_fold)

lemma expand_distinct: "distinct (ExpandPermissions ps)"
  by (simp add: ExpandPermissions_def expand_fold)

lemma bundle_plain: "k \<in> set (bundleOf p) \<Longrightarrow> legacyPermissions k = None"
  using legacy_cases by (auto simp: bundleOf_def split: option.splits)

lemma expand_plain: "k \<in> set (ExpandPermissions ps) \<Longrightarrow> legacyPermissions k = None"
  using bundle_plain by (auto simp: expand_set)

lemma bundle_self: "legacyPermissions k = None \<Longrightarrow> bundleOf k = [k]"
  by (simp add: bundleOf_def)

lemma legacy_star [simp]: "legacyPermissions ''*'' = None" "''*'' \<notin> set PermissionCatalog"
  by code_simp+

lemma bundle_star: "''*'' \<in> set (bundleOf p) \<longleftrightarrow> p = ''*''"
proof (cases "legacyPermissions p")
  case (Some children)
  then show ?thesis using legacy_cases[OF Some, of "''*''"] legacy_star by (auto simp: bundleOf_def)
qed (auto simp: bundleOf_def)

lemma expand_star: "''*'' \<in> set (ExpandPermissions ps) \<longleftrightarrow> ''*'' \<in> set ps"
  by (simp add: expand_set bundle_star)

text \<open>Expanding is idempotent: an expanded list is kept as it is.\<close>

lemma addKeys_distinct: "distinct (out @ ks) \<Longrightarrow> foldl addKey out ks = out @ ks"
  by (induction ks arbitrary: out) (auto simp: addKey_def)

lemma expand_fixed: "distinct ks \<Longrightarrow> (\<And>k. k \<in> set ks \<Longrightarrow> legacyPermissions k = None) \<Longrightarrow> ExpandPermissions ks = ks"
proof -
  assume d: "distinct ks" and n: "\<And>k. k \<in> set ks \<Longrightarrow> legacyPermissions k = None"
  have "foldl (\<lambda>out key. foldl addKey out (bundleOf key)) out xs = foldl addKey out xs" if "set xs \<subseteq> set ks" for out xs
    using that n by (induction xs arbitrary: out) (auto simp: bundle_self)
  then show ?thesis using addKeys_distinct[of "[]" ks] d by (simp add: ExpandPermissions_def)
qed

lemma expand_idem [simp]: "ExpandPermissions (ExpandPermissions ps) = ExpandPermissions ps"
  using expand_fixed expand_distinct expand_plain by blast

lemma expand_expand_set: "set (ExpandPermissions (xs @ ys)) = set (ExpandPermissions xs) \<union> set (ExpandPermissions ys)"
  by (auto simp: expand_set)

section \<open>Holding and delegating permissions\<close>

lemma has_admin: "HasPermission u k \<Longrightarrow> us_Role u = ''admin''"
  by (subst (asm) HasPermission.simps) (simp split: if_splits)

lemma has_full: "IsFullAdmin u \<Longrightarrow> HasPermission u k"
  by (subst HasPermission.simps) (simp add: IsFullAdmin_def)

lemma has_plain:
  "\<not> IsFullAdmin u \<Longrightarrow> legacyPermissions k = None \<Longrightarrow> HasPermission u k \<longleftrightarrow> us_Role u = ''admin'' \<and> k \<in> set (ExpandPermissions (permissionsOf u))"
  by (subst HasPermission.simps) simp

lemma has_legacy:
  "\<not> IsFullAdmin u \<Longrightarrow> legacyPermissions k = Some children \<Longrightarrow> HasPermission u k \<longleftrightarrow> us_Role u = ''admin'' \<and> list_all (HasPermission u) children"
  by (subst HasPermission.simps) simp

lemma has_star: "HasPermission u ''*'' \<longleftrightarrow> IsFullAdmin u"
proof (cases "IsFullAdmin u")
  case False
  then have "\<not> HasPermission u ''*''"
    by (auto simp: has_plain[OF False legacy_star(1)] expand_star IsFullAdmin_def permissionsOf_def split: option.splits)
  then show ?thesis using False by simp
qed (simp add: has_full)

text \<open>One account covers another when it holds every permission the other holds.\<close>

definition covers :: "User \<Rightarrow> User \<Rightarrow> bool" where
  "covers actor u \<longleftrightarrow> (\<forall>k. HasPermission u k \<longrightarrow> HasPermission actor k)"

lemma covers_plain:
  assumes "us_Role actor = ''admin''" "\<not> IsFullAdmin u"
    and plain: "\<And>k. k \<in> set (ExpandPermissions (permissionsOf u)) \<Longrightarrow> HasPermission actor k"
  shows "covers actor u"
  unfolding covers_def
proof (intro allI impI)
  fix k
  assume h: "HasPermission u k"
  show "HasPermission actor k"
  proof (cases "legacyPermissions k")
    case None
    then show ?thesis using h plain by (simp add: has_plain[OF assms(2)])
  next
    case (Some children)
    have "HasPermission actor c" if c: "c \<in> set children" for c
    proof -
      have "HasPermission u c" using h c by (simp add: has_legacy[OF assms(2) Some] list_all_iff)
      then show ?thesis using legacy_cases[OF Some c] plain has_plain[OF assms(2)] by blast
    qed
    then show ?thesis using assms(1) has_full by (cases "IsFullAdmin actor") (simp_all add: has_legacy[OF _ Some] list_all_iff)
  qed
qed

lemma grant_covers:
  assumes "canGrant actor ps" "us_Role actor = ''admin''" "us_Role u = ''admin''"
    and "us_Permissions u = Some qs" "set (ExpandPermissions qs) \<subseteq> set (ExpandPermissions ps)"
  shows "covers actor u \<and> (IsFullAdmin u \<longrightarrow> IsFullAdmin actor)"
proof (cases "IsFullAdmin actor")
  case True
  then show ?thesis by (simp add: covers_def has_full)
next
  case False
  have has: "HasPermission actor k" if "k \<in> set (ExpandPermissions qs)" for k
    using assms(1,5) that by (auto simp: canGrant_def list_all_iff)
  have "\<not> IsFullAdmin u"
  proof
    assume "IsFullAdmin u"
    then have "''*'' \<in> set (ExpandPermissions qs)" using assms(4) by (simp add: IsFullAdmin_def expand_star)
    then show False using has[of "''*''"] False by (simp add: has_star)
  qed
  moreover have "permissionsOf u = qs" using assms(4) by (simp add: permissionsOf_def)
  ultimately show ?thesis using covers_plain[OF assms(2), of u] has by blast
qed

lemma manage_covers:
  assumes "canManage actor u" "us_Role u = ''admin''"
  shows "covers actor u \<and> (IsFullAdmin u \<longrightarrow> IsFullAdmin actor)"
proof (cases "IsFullAdmin u")
  case True
  then have "IsFullAdmin actor" using assms by (simp add: canManage_def split: if_splits)
  then show ?thesis by (simp add: covers_def has_full)
next
  case False
  then obtain qs where "us_Permissions u = Some qs" using assms(2) by (auto simp: IsFullAdmin_def split: option.splits)
  then show ?thesis using grant_covers[of actor "permissionsOf u" u qs] assms False has_admin
    by (auto simp: canManage_def permissionsOf_def split: if_splits)
qed

section \<open>The routes only ever ask for permissions\<close>

lemma if_mono: "(P \<longrightarrow> P') \<Longrightarrow> (Q \<longrightarrow> Q') \<Longrightarrow> (if c then P else Q) \<longrightarrow> (if c then P' else Q')"
  by simp

lemma any_mono: "(\<And>k. has k \<Longrightarrow> has' k) \<Longrightarrow> list_ex has ks \<longrightarrow> list_ex has' ks"
  by (auto simp: list_ex_iff)

lemmas route_mono = if_mono conj_mono disj_mono imp_refl

lemma dimension_mono: "(\<And>k. has k \<Longrightarrow> has' k) \<Longrightarrow> dimensionRoute has d \<longrightarrow> dimensionRoute has' d"
  unfolding dimensionRoute_def by (intro if_mono impI) simp_all

lemma billing_mono:
  assumes "\<And>k. has k \<Longrightarrow> has' k"
  shows "billingRoute has m p \<longrightarrow> billingRoute has' m p"
proof -
  have any: "list_ex has ks \<longrightarrow> list_ex has' ks" for ks by (rule any_mono[OF assms])
  show ?thesis unfolding billingRoute_def Let_def by (intro route_mono any)
qed

lemma monitor_mono:
  assumes "\<And>k. has k \<Longrightarrow> has' k"
  shows "monitorRoute has m p d \<longrightarrow> monitorRoute has' m p d"
proof -
  have any: "list_ex has ks \<longrightarrow> list_ex has' ks" for ks by (rule any_mono[OF assms])
  have "(if list_ex has ks then True else dimensionRoute has d) \<longrightarrow> (if list_ex has' ks then True else dimensionRoute has' d)" for ks
    using any[of ks] dimension_mono[of has has' d, OF assms] by simp
  then show ?thesis unfolding monitorRoute_def Let_def by (intro if_mono conj_mono imp_refl any)
qed

lemma admin_mono:
  assumes "\<And>k. has k \<Longrightarrow> has' k"
  shows "adminRoute has m p d \<longrightarrow> adminRoute has' m p d"
proof -
  have any: "list_ex has ks \<longrightarrow> list_ex has' ks" for ks by (rule any_mono[OF assms])
  have one: "has k \<longrightarrow> has' k" for k using assms by blast
  show ?thesis unfolding adminRoute_def Let_def
    by (intro route_mono any one billing_mono[OF assms] monitor_mono[OF assms])
qed

lemma covers_requests:
  assumes "covers actor u" "IsFullAdmin u \<longrightarrow> IsFullAdmin actor" "us_Role actor = ''admin''"
  shows "allowAdminRequest u r \<Longrightarrow> allowAdminRequest actor r"
  using assms admin_mono[of "HasPermission u" "HasPermission actor"] by (auto simp: allowAdminRequest_def covers_def split: if_splits)

section \<open>Properties\<close>

text \<open>Delegation.  Whatever list of keys an administrator may grant, legacy bundles included, the account
  that receives it holds no permission the grantor lacks, is not a full administrator unless the grantor is one,
  and reaches no dashboard request the grantor could not make.\<close>

theorem delegation_never_escalates:
  assumes "canGrant actor ps" "us_Role actor = ''admin''" "us_Role u = ''admin''" "us_Permissions u = Some (ExpandPermissions ps)"
  shows "(\<forall>k. HasPermission u k \<longrightarrow> HasPermission actor k) \<and> (IsFullAdmin u \<longrightarrow> IsFullAdmin actor) \<and>
    (\<forall>r. allowAdminRequest u r \<longrightarrow> allowAdminRequest actor r)"
proof -
  have c: "covers actor u \<and> (IsFullAdmin u \<longrightarrow> IsFullAdmin actor)" by (rule grant_covers[OF assms(1-4)]) simp
  then show ?thesis using covers_requests[OF _ _ assms(2)] by (auto simp: covers_def)
qed

definition sampleUser :: User where
  "sampleUser = \<lparr>us_ID = 1, us_Username = ''ops'', us_PasswordHash = [], us_Role = ''admin'', us_ScopeSite = [], us_ScopeUserIDs = [],
     us_DisplayName = [], us_Permissions = Some [''accounts.manage'', ''data.read''], us_PermissionPresetID = 0, us_Enabled = True,
     us_CreatedAt = 1, us_UpdatedAt = 1\<rparr>"

definition sampleRequest :: Request where
  "sampleRequest = \<lparr>rq_Method = ''GET'', rq_Path = ''/api/dashboard/passthrough/users'', rq_Query = (\<lambda>_. []), rq_RequestedWith = [],
     rq_Authorization = [], rq_Cookie = Some ''c''\<rparr>"

theorem delegation_never_escalates_witness:
  "allowAdminRequest (sampleUser\<lparr>us_Permissions := Some [''data.users'', ''data.logs'']\<rparr>) sampleRequest \<and> allowAdminRequest sampleUser sampleRequest"
proof -
  have g: "canGrant sampleUser [''data.users'', ''data.logs'']" by code_simp
  have r: "us_Role sampleUser = ''admin''" "us_Role (sampleUser\<lparr>us_Permissions := Some [''data.users'', ''data.logs'']\<rparr>) = ''admin''"
    "us_Permissions (sampleUser\<lparr>us_Permissions := Some [''data.users'', ''data.logs'']\<rparr>) = Some (ExpandPermissions [''data.users'', ''data.logs''])"
    by code_simp+
  have "allowAdminRequest (sampleUser\<lparr>us_Permissions := Some [''data.users'', ''data.logs'']\<rparr>) sampleRequest" by code_simp
  then show ?thesis using delegation_never_escalates[OF g r] by blast
qed

text \<open>Fail closed.  An administrator without any permission reaches exactly three resources, and those for
  reading only: the site selector, the menu visibility and the currency.  So a route nobody mapped, or one mapped
  to a permission, is closed.\<close>

theorem routes_fail_closed:
  assumes "us_Role u = ''admin''" "us_Permissions u = Some []"
  shows "allowAdminRequest u r \<longleftrightarrow> rq_Method r = ''GET'' \<and>
    trimPrefix ''/api/dashboard/'' (rq_Path r) \<in> {''instances'', ''menu-visibility'', ''passthrough/currency''}"
proof -
  have f: "\<not> IsFullAdmin u" using assms by (simp add: IsFullAdmin_def)
  have plain: "\<not> HasPermission u k" if "legacyPermissions k = None" for k
    using has_plain[OF f that] assms(2) by (simp add: permissionsOf_def ExpandPermissions_def)
  have "\<not> HasPermission u k" for k
  proof (cases "legacyPermissions k")
    case (Some children)
    then obtain c where "c \<in> set children" using legacy_nonempty by (metis list.set_sel(1))
    then show ?thesis using plain legacy_cases[OF Some] has_legacy[OF f Some] by (auto simp: list_all_iff)
  qed (rule plain)
  then have h: "HasPermission u = (\<lambda>_. False)" by auto
  have n: "list_ex (\<lambda>_. False) ks = False" for ks :: "string list" by (simp add: list_ex_iff)
  have b: "billingRoute (\<lambda>_. False) m p = False" "monitorRoute (\<lambda>_. False) m p d = False" for m p d
    by (simp_all only: billingRoute_def monitorRoute_def dimensionRoute_def Let_def n if_False simp_thms if_cancel)
  have "adminRoute (\<lambda>_. False) m p d \<longleftrightarrow> m = ''GET'' \<and> p \<in> {''instances'', ''menu-visibility'', ''passthrough/currency''}" for m p d
  proof (cases "p \<in> {''instances'', ''menu-visibility'', ''passthrough/currency''}")
    case True
    then show ?thesis by (elim insertE emptyE) (simp_all add: adminRoute_def hasPrefix_def n)
  next
    case False
    then have "p \<noteq> ''instances''" "p \<noteq> ''menu-visibility''" "p \<noteq> ''passthrough/currency''" by auto
    then show ?thesis by (simp only: adminRoute_def Let_def n b if_False simp_thms if_cancel insert_iff empty_iff)
  qed
  then show ?thesis using assms f h by (simp add: allowAdminRequest_def)
qed

theorem routes_fail_closed_witness:
  "allowAdminRequest (sampleUser\<lparr>us_Permissions := Some []\<rparr>) (sampleRequest\<lparr>rq_Path := ''/api/dashboard/instances''\<rparr>) \<and>
   \<not> allowAdminRequest (sampleUser\<lparr>us_Permissions := Some []\<rparr>) (sampleRequest\<lparr>rq_Path := ''/api/dashboard/new-endpoint''\<rparr>)"
proof -
  have a: "us_Role (sampleUser\<lparr>us_Permissions := Some []\<rparr>) = ''admin''" "us_Permissions (sampleUser\<lparr>us_Permissions := Some []\<rparr>) = Some []"
    by (simp_all add: sampleUser_def)
  have p: "trimPrefix ''/api/dashboard/'' ''/api/dashboard/instances'' = ''instances''"
    "trimPrefix ''/api/dashboard/'' ''/api/dashboard/new-endpoint'' = ''new-endpoint''" by code_simp+
  show ?thesis unfolding routes_fail_closed[OF a] by (simp add: sampleRequest_def p)
qed



end
