(* ===== verification/LoginGuard.thy ===== *)
theory LoginGuard
  imports Permissions AssocMaps
begin

text \<open>
  The two brakes on password guessing: the limiter of login attempts per address (\<open>auth/handlers.go\<close>) and the
  failure counter per user name with its temporary lock (\<open>auth/auth.go\<close>).  Go maps are association lists.  The
  user store, the password check and the random session id are arguments of a login.
\<close>

section \<open>Attempts per address\<close>

definition maxLoginIPEntries :: nat where
  "maxLoginIPEntries = 8192"

definition maxLoginAttemptsPerIP :: nat where
  "maxLoginAttemptsPerIP = 10"

abbreviation loginIPAttemptWindow :: duration where
  "loginIPAttemptWindow \<equiv> Minute"

abbreviation loginIPCleanupInterval :: duration where
  "loginIPCleanupInterval \<equiv> Minute"

record IPLimiter =
  ip_entries :: "(string \<times> time list) list"
  ip_nextCleanup :: time

definition NewIPLimiter :: IPLimiter where
  "NewIPLimiter = \<lparr>ip_entries = [], ip_nextCleanup = 0\<rparr>"

definition pruneLoginIPAttempts :: "time list \<Rightarrow> time \<Rightarrow> time list" where
  "pruneLoginIPAttempts attempts cutoff = filter (\<lambda>t. cutoff < t) attempts"

definition pruneExpired :: "time \<Rightarrow> (string \<times> time list) list \<Rightarrow> (string \<times> time list) list" where
  "pruneExpired cutoff es = filter (\<lambda>e. snd e \<noteq> []) (map (\<lambda>e. (fst e, pruneLoginIPAttempts (snd e) cutoff)) es)"

definition Allow :: "string \<Rightarrow> time \<Rightarrow> IPLimiter \<Rightarrow> bool \<times> IPLimiter" where
  "Allow ip now l =
     (let cutoff = now - loginIPAttemptWindow;
          l1 = (if ip_nextCleanup l = 0 \<or> \<not> now < ip_nextCleanup l
                then \<lparr>ip_entries = pruneExpired cutoff (ip_entries l), ip_nextCleanup = now + loginIPCleanupInterval\<rparr> else l);
          found = map_of (ip_entries l1) ip;
          items = pruneLoginIPAttempts (case found of Some xs \<Rightarrow> xs | None \<Rightarrow> []) cutoff;
          l2 = (if found = None then l1
                else if items = [] then l1\<lparr>ip_entries := AList.delete ip (ip_entries l1)\<rparr>
                else l1\<lparr>ip_entries := AList.update ip items (ip_entries l1)\<rparr>)
      in if length items \<ge> maxLoginAttemptsPerIP then (False, l2)
         else if found = None \<and> length (ip_entries l2) \<ge> maxLoginIPEntries then (False, l2)
         else (True, l2\<lparr>ip_entries := AList.update ip (items @ [now]) (ip_entries l2)\<rparr>))"

section \<open>Failures per user name\<close>

definition maxTrackedLoginAttempts :: nat where
  "maxTrackedLoginAttempts = 8192"

definition loginFailureThreshold :: int where
  "loginFailureThreshold = 5"

abbreviation loginAttemptLockDuration :: duration where
  "loginAttemptLockDuration \<equiv> 10 * Minute"

abbreviation loginAttemptRetention :: duration where
  "loginAttemptRetention \<equiv> 10 * Minute"

abbreviation loginAttemptCleanupEvery :: duration where
  "loginAttemptCleanupEvery \<equiv> Minute"

record attempt =
  at_failures :: int
  at_until :: time
  at_lastFailure :: time

record Manager =
  mg_ttl :: duration
  mg_attempts :: "(string \<times> attempt) list"
  mg_nextAttemptCleanup :: time

definition NewManager :: "duration \<Rightarrow> Manager" where
  "NewManager ttl = \<lparr>mg_ttl = ttl, mg_attempts = [], mg_nextAttemptCleanup = 0\<rparr>"

definition zeroAttempt :: attempt where
  "zeroAttempt = \<lparr>at_failures = 0, at_until = 0, at_lastFailure = 0\<rparr>"

definition cleanupLoginAttemptsLocked :: "time \<Rightarrow> Manager \<Rightarrow> Manager" where
  "cleanupLoginAttemptsLocked now m =
     (if mg_nextAttemptCleanup m \<noteq> 0 \<and> now < mg_nextAttemptCleanup m then m
      else m\<lparr>mg_nextAttemptCleanup := now + loginAttemptCleanupEvery,
             mg_attempts := filter (\<lambda>e. now < at_lastFailure (snd e) + loginAttemptRetention) (mg_attempts m)\<rparr>)"

definition loginLocked :: "string \<Rightarrow> time \<Rightarrow> Manager \<Rightarrow> bool \<times> Manager" where
  "loginLocked name now m =
     (let m1 = cleanupLoginAttemptsLocked now m
      in case map_of (mg_attempts m1) name of
           None \<Rightarrow> (False, m1)
         | Some a \<Rightarrow>
             if now < at_until a then (True, m1)
             else if at_until a \<noteq> 0 \<or> \<not> now < at_lastFailure a + loginAttemptRetention
             then (False, m1\<lparr>mg_attempts := AList.delete name (mg_attempts m1)\<rparr>)
             else (False, m1))"

definition nextAttempt :: "time \<Rightarrow> attempt \<Rightarrow> attempt" where
  "nextAttempt now a0 =
     (let a1 = (if at_until a0 \<noteq> 0 \<or> (at_lastFailure a0 \<noteq> 0 \<and> \<not> now < at_lastFailure a0 + loginAttemptRetention) then zeroAttempt else a0);
          a2 = a1\<lparr>at_failures := at_failures a1 + 1, at_lastFailure := now\<rparr>
      in if at_failures a2 \<ge> loginFailureThreshold then a2\<lparr>at_until := now + loginAttemptLockDuration\<rparr> else a2)"

definition recordLoginFailure :: "string \<Rightarrow> time \<Rightarrow> Manager \<Rightarrow> Manager" where
  "recordLoginFailure name now m =
     (let m1 = cleanupLoginAttemptsLocked now m; found = map_of (mg_attempts m1) name
      in if found = None \<and> length (mg_attempts m1) \<ge> maxTrackedLoginAttempts then m1
         else m1\<lparr>mg_attempts := AList.update name (nextAttempt now (case found of Some a \<Rightarrow> a | None \<Rightarrow> zeroAttempt)) (mg_attempts m1)\<rparr>)"

record Session =
  sn_ID :: string
  sn_UserID :: int64
  sn_CreatedAt :: time
  sn_ExpiresAt :: time

datatype loginError = ErrInvalid | ErrLocked | StoreError | RandError

text \<open>What a login asks of its surroundings: the user of a name (or a failing store), the password check, a
  fresh session id (or a failing random source), and whether the session can be stored.\<close>

record loginEnv =
  le_UserByUsername :: "string \<Rightarrow> (User option) option"
  le_VerifyPassword :: "string \<Rightarrow> string \<Rightarrow> bool"
  le_Random :: "string option"
  le_CreateSession :: bool

definition Login :: "loginEnv \<Rightarrow> string \<Rightarrow> string \<Rightarrow> time \<Rightarrow> Manager \<Rightarrow> ((User \<times> Session) + loginError) \<times> Manager" where
  "Login E name p now m =
     (if trimSpace name = [] then (Inr ErrInvalid, m)
      else case loginLocked name now m of
        (True, m1) \<Rightarrow> (Inr ErrLocked, m1)
      | (False, m1) \<Rightarrow>
          (case le_UserByUsername E name of
             None \<Rightarrow> (Inr StoreError, m1)
           | Some None \<Rightarrow> (Inr ErrInvalid, m1)
           | Some (Some u) \<Rightarrow>
               if \<not> us_Enabled u then (Inr ErrInvalid, m1)
               else if \<not> le_VerifyPassword E (us_PasswordHash u) p then (Inr ErrInvalid, recordLoginFailure name now m1)
               else let m2 = m1\<lparr>mg_attempts := AList.delete name (mg_attempts m1)\<rparr>
                    in case le_Random E of
                         None \<Rightarrow> (Inr RandError, m2)
                       | Some sid \<Rightarrow>
                           if le_CreateSession E
                           then (Inl (u, \<lparr>sn_ID = sid, sn_UserID = us_ID u, sn_CreatedAt = now, sn_ExpiresAt = now + mg_ttl m2\<rparr>), m2)
                           else (Inr StoreError, m2)))"

section \<open>Entries\<close>

lemma prune_keys: "map fst (pruneExpired cutoff es) = map fst (filter (\<lambda>e. pruneLoginIPAttempts (snd e) cutoff \<noteq> []) es)"
  by (induction es) (auto simp: pruneExpired_def)

lemma prune_look:
  "distinct (map fst es) \<Longrightarrow> map_of (pruneExpired cutoff es) ip =
     (case map_of es ip of Some xs \<Rightarrow> if pruneLoginIPAttempts xs cutoff = [] then None else Some (pruneLoginIPAttempts xs cutoff) | None \<Rightarrow> None)"
proof (induction es)
  case (Cons e es)
  have "set (map fst (pruneExpired cutoff es)) \<subseteq> set (map fst es)" unfolding prune_keys by auto
  then have "map_of (pruneExpired cutoff es) (fst e) = None" using Cons.prems by (auto simp: map_of_eq_None_iff)
  then show ?case using Cons by (auto simp: pruneExpired_def split: option.splits)
qed (simp add: pruneExpired_def)

lemma prune_entries:
  "distinct (map fst es) \<Longrightarrow> distinct (map fst (pruneExpired cutoff es))" "length (pruneExpired cutoff es) \<le> length es"
proof -
  show "distinct (map fst es) \<Longrightarrow> distinct (map fst (pruneExpired cutoff es))"
    unfolding prune_keys by (rule distinct_map_filter)
  show "length (pruneExpired cutoff es) \<le> length es"
    using arg_cong[OF prune_keys[of cutoff es], of length] length_filter_le[of "\<lambda>e. pruneLoginIPAttempts (snd e) cutoff \<noteq> []" es] by simp
qed

section \<open>The limiter\<close>

definition itemsOf :: "IPLimiter \<Rightarrow> string \<Rightarrow> time list" where
  "itemsOf l ip = (case map_of (ip_entries l) ip of Some xs \<Rightarrow> xs | None \<Rightarrow> [])"

definition limiterOk :: "IPLimiter \<Rightarrow> bool" where
  "limiterOk l \<longleftrightarrow> distinct (map fst (ip_entries l)) \<and> length (ip_entries l) \<le> maxLoginIPEntries \<and>
     (\<forall>ip. length (itemsOf l ip) \<le> maxLoginAttemptsPerIP)"

definition recent :: "time \<Rightarrow> time list \<Rightarrow> time list" where
  "recent now xs = filter (\<lambda>t. now - loginIPAttemptWindow < t) xs"

lemma recent_idem [simp]: "recent now (recent now xs) = recent now xs"
  by (simp add: recent_def)

lemma recent_length: "length (recent now xs) \<le> length xs"
  by (simp add: recent_def)

text \<open>The clean-up at the start of a call.\<close>

definition swept :: "time \<Rightarrow> IPLimiter \<Rightarrow> IPLimiter" where
  "swept now l = (if ip_nextCleanup l = 0 \<or> \<not> now < ip_nextCleanup l
     then \<lparr>ip_entries = pruneExpired (now - loginIPAttemptWindow) (ip_entries l), ip_nextCleanup = now + loginIPCleanupInterval\<rparr> else l)"

lemma swept_ok:
  assumes "limiterOk l"
  shows "limiterOk (swept now l)" "recent now (itemsOf (swept now l) ip) = recent now (itemsOf l ip)"
proof -
  have d: "distinct (map fst (ip_entries l))" using assms by (simp add: limiterOk_def)
  have i: "itemsOf (swept now l) ip = itemsOf l ip \<or> itemsOf (swept now l) ip = recent now (itemsOf l ip)" for ip
    using prune_look[OF d, of "now - loginIPAttemptWindow" ip]
    by (auto simp: swept_def itemsOf_def recent_def pruneLoginIPAttempts_def split: option.splits if_splits)
  then show "recent now (itemsOf (swept now l) ip) = recent now (itemsOf l ip)" by (metis recent_idem)
  have "length (itemsOf (swept now l) ip) \<le> length (itemsOf l ip)" for ip using i[of ip] recent_length by auto
  moreover have "distinct (map fst (ip_entries (swept now l)))" "length (ip_entries (swept now l)) \<le> length (ip_entries l)"
    using prune_entries(1)[OF d] prune_entries(2) d by (auto simp: swept_def)
  ultimately show "limiterOk (swept now l)" using assms unfolding limiterOk_def by (meson order.trans)
qed

text \<open>What a call does: it is allowed only when the window has room, and then the window is recorded.\<close>

lemma allow_effect:
  assumes ok: "limiterOk l" and a: "Allow ip now l = (granted, l')"
  shows "limiterOk l'" "granted \<Longrightarrow> length (recent now (itemsOf l ip)) < maxLoginAttemptsPerIP"
    "recent now (itemsOf l' ip') = recent now (itemsOf l ip') @ (if granted \<and> ip' = ip then [now] else [])"
proof -
  define l1 where "l1 = swept now l"
  define items where "items = recent now (itemsOf l1 ip)"
  define l2 where "l2 = (if map_of (ip_entries l1) ip = None then l1
    else if items = [] then l1\<lparr>ip_entries := AList.delete ip (ip_entries l1)\<rparr> else l1\<lparr>ip_entries := AList.update ip items (ip_entries l1)\<rparr>)"
  have ok1: "limiterOk l1" and same: "recent now (itemsOf l1 k) = recent now (itemsOf l k)" for k
    unfolding l1_def by (rule swept_ok[OF ok])+
  have allow: "Allow ip now l =
     (if length items \<ge> maxLoginAttemptsPerIP then (False, l2)
      else if map_of (ip_entries l1) ip = None \<and> length (ip_entries l2) \<ge> maxLoginIPEntries then (False, l2)
      else (True, l2\<lparr>ip_entries := AList.update ip (items @ [now]) (ip_entries l2)\<rparr>))"
    unfolding Allow_def Let_def l2_def items_def l1_def swept_def itemsOf_def recent_def pruneLoginIPAttempts_def by simp
  have look2: "itemsOf l2 k = (if k = ip then items else itemsOf l1 k)" for k
    by (auto simp: l2_def itemsOf_def items_def AList.update_conv' AList.delete_conv' recent_def split: option.splits)
  have short: "length items \<le> length (itemsOf l1 ip)" by (simp add: items_def recent_length)
  have "distinct (map fst (ip_entries l2))" "length (ip_entries l2) \<le> length (ip_entries l1)"
    using ok1 update_length_le(2)[of "ip_entries l1" ip] delete_length[of ip "ip_entries l1"]
    by (auto simp: l2_def limiterOk_def AList.distinct_update AList.distinct_delete)
  moreover have "length (itemsOf l2 k) \<le> maxLoginAttemptsPerIP" for k using ok1 short look2[of k] by (auto simp: limiterOk_def intro: order.trans)
  ultimately have ok2: "limiterOk l2" using ok1 by (auto simp: limiterOk_def)
  let ?l3 = "l2\<lparr>ip_entries := AList.update ip (items @ [now]) (ip_entries l2)\<rparr>"
  have look3: "itemsOf ?l3 k = (if k = ip then items @ [now] else itemsOf l2 k)" for k
    by (simp add: itemsOf_def AList.update_conv')
  have room: "length (ip_entries ?l3) \<le> maxLoginIPEntries" if "\<not> (map_of (ip_entries l1) ip = None \<and> length (ip_entries l2) \<ge> maxLoginIPEntries)"
  proof (cases "map_of (ip_entries l1) ip = None")
    case True
    then show ?thesis using that update_length_le(1)[of ip "items @ [now]" "ip_entries l2"] by simp
  next
    case False
    have "length (ip_entries l1) \<le> maxLoginIPEntries" using ok1 by (simp add: limiterOk_def)
    moreover have "length (ip_entries ?l3) \<le> length (ip_entries l1)"
    proof (cases "items = []")
      case True
      then show ?thesis using False delete_shrinks[of "ip_entries l1" ip] update_length_le(1)[of ip "[now]" "AList.delete ip (ip_entries l1)"]
        by (auto simp: l2_def)
    next
      case ne: False
      have "map_of (ip_entries l2) ip \<noteq> None" using ne False by (simp add: l2_def AList.update_conv')
      then show ?thesis using update_length_le(2)[of "ip_entries l2" ip] update_length_le(2)[of "ip_entries l1" ip] ne False by (simp add: l2_def)
    qed
    ultimately show ?thesis by simp
  qed
  have r: "recent now (items @ [now]) = items @ [now]" "recent now items = items" by (simp_all add: items_def recent_def)
  consider (denied) "granted = False" "l' = l2" | (allowed) "granted" "l' = ?l3" "length items < maxLoginAttemptsPerIP"
      "\<not> (map_of (ip_entries l1) ip = None \<and> length (ip_entries l2) \<ge> maxLoginIPEntries)"
    using a unfolding allow by (auto split: if_splits)
  then have "limiterOk l' \<and> (granted \<longrightarrow> length items < maxLoginAttemptsPerIP) \<and>
      recent now (itemsOf l' ip') = recent now (itemsOf l ip') @ (if granted \<and> ip' = ip then [now] else [])"
  proof cases
    case denied
    then show ?thesis using ok2 look2[of ip'] same[of ip'] same[of ip] r by (simp add: items_def)
  next
    case allowed
    have "length (itemsOf ?l3 k) \<le> maxLoginAttemptsPerIP" for k using ok2 look3[of k] allowed(3) by (auto simp: limiterOk_def)
    moreover have "distinct (map fst (ip_entries ?l3))" using ok2 by (simp add: limiterOk_def AList.distinct_update)
    ultimately have "limiterOk ?l3" using room[OF allowed(4)] by (auto simp: limiterOk_def)
    then show ?thesis using allowed look3[of ip'] look2[of ip'] same[of ip'] same[of ip] r by (simp add: items_def)
  qed
  then show "limiterOk l'" "granted \<Longrightarrow> length (recent now (itemsOf l ip)) < maxLoginAttemptsPerIP"
    "recent now (itemsOf l' ip') = recent now (itemsOf l ip') @ (if granted \<and> ip' = ip then [now] else [])"
    using same[of ip] by (auto simp: items_def)
qed

section \<open>Runs of the limiter\<close>

text \<open>The granted attempts so far, latest first, the time of the last call, and the limiter.\<close>

inductive limiterRun :: "(string \<times> time) list \<Rightarrow> time \<Rightarrow> IPLimiter \<Rightarrow> bool" where
  start: "limiterRun [] prev NewIPLimiter"
| call: "limiterRun gs prev l \<Longrightarrow> prev \<le> now \<Longrightarrow> Allow ip now l = (granted, l') \<Longrightarrow> limiterRun (if granted then (ip, now) # gs else gs) now l'"

definition grantsOf :: "string \<Rightarrow> (string \<times> time) list \<Rightarrow> time list" where
  "grantsOf ip gs = rev (map snd (filter (\<lambda>g. fst g = ip) gs))"

definition inWindow :: "duration \<Rightarrow> time \<Rightarrow> time list \<Rightarrow> nat" where
  "inWindow w since ts = length (filter (\<lambda>t. since < t \<and> t \<le> since + w) ts)"

lemma inWindow_snoc: "inWindow w since (ts @ [t]) = inWindow w since ts + (if since < t \<and> t \<le> since + w then 1 else 0)"
  by (simp add: inWindow_def)

lemma recent_later: "prev \<le> now \<Longrightarrow> recent now (recent prev xs) = recent now xs"
  by (auto simp: recent_def intro!: filter_cong)

lemma window_recent: "now \<le> since + loginIPAttemptWindow \<Longrightarrow> inWindow loginIPAttemptWindow since ts \<le> length (recent now ts)"
  unfolding inWindow_def recent_def by (induction ts) auto

lemma limiter_invariant:
  "limiterRun gs prev l \<Longrightarrow> limiterOk l \<and> (\<forall>ip. recent prev (itemsOf l ip) = recent prev (grantsOf ip gs)) \<and>
     (\<forall>ip since. inWindow loginIPAttemptWindow since (grantsOf ip gs) \<le> maxLoginAttemptsPerIP)"
proof (induction rule: limiterRun.induct)
  case (call gs prev l now ip granted l')
  note eff = allow_effect[OF _ call(3)]
  have ok: "limiterOk l" and rec: "\<And>k. recent prev (itemsOf l k) = recent prev (grantsOf k gs)"
    and win: "\<And>k since. inWindow loginIPAttemptWindow since (grantsOf k gs) \<le> maxLoginAttemptsPerIP" using call.IH by auto
  let ?gs = "if granted then (ip, now) # gs else gs"
  have gr: "grantsOf k ?gs = grantsOf k gs @ (if granted \<and> k = ip then [now] else [])" for k by (simp add: grantsOf_def)
  have now: "recent now (itemsOf l k) = recent now (grantsOf k gs)" for k using rec[of k] recent_later[OF call(2)] by metis
  have "recent now (itemsOf l' k) = recent now (grantsOf k ?gs)" for k
    using eff(3)[OF ok, of k] now[of k] unfolding gr by (simp add: recent_def)
  moreover have "inWindow loginIPAttemptWindow since (grantsOf k ?gs) \<le> maxLoginAttemptsPerIP" for k since
  proof (cases "granted \<and> k = ip \<and> now \<le> since + loginIPAttemptWindow")
    case True
    then show ?thesis using eff(2)[OF ok] now[of ip] window_recent[of now since "grantsOf ip gs"] unfolding gr by (simp add: inWindow_snoc)
  next
    case False
    then show ?thesis using win[of since k] unfolding gr by (auto simp: inWindow_snoc)
  qed
  ultimately show ?case using eff(1)[OF ok] by blast
qed (simp add: NewIPLimiter_def limiterOk_def itemsOf_def grantsOf_def recent_def inWindow_def)

section \<open>Failures of one user name\<close>

definition wrongGuess :: "loginEnv \<Rightarrow> string \<Rightarrow> string \<Rightarrow> time \<Rightarrow> Manager \<Rightarrow> bool" where
  "wrongGuess E name p now m \<longleftrightarrow> trimSpace name \<noteq> [] \<and> \<not> fst (loginLocked name now m) \<and>
     (case le_UserByUsername E name of Some (Some u) \<Rightarrow> us_Enabled u \<and> \<not> le_VerifyPassword E (us_PasswordHash u) p | _ \<Rightarrow> False)"

definition rightGuess :: "loginEnv \<Rightarrow> string \<Rightarrow> string \<Rightarrow> time \<Rightarrow> Manager \<Rightarrow> bool" where
  "rightGuess E name p now m \<longleftrightarrow> trimSpace name \<noteq> [] \<and> \<not> fst (loginLocked name now m) \<and>
     (case le_UserByUsername E name of Some (Some u) \<Rightarrow> us_Enabled u \<and> le_VerifyPassword E (us_PasswordHash u) p | _ \<Rightarrow> False)"

lemma login_state:
  "snd (Login E name p now m) =
     (if trimSpace name = [] then m
      else let m1 = snd (loginLocked name now m)
           in if wrongGuess E name p now m then recordLoginFailure name now m1
              else if rightGuess E name p now m then m1\<lparr>mg_attempts := AList.delete name (mg_attempts m1)\<rparr> else m1)"
  by (cases "loginLocked name now m")
    (auto simp: Login_def wrongGuess_def rightGuess_def Let_def split: option.splits bool.splits)

definition tracked :: "string \<Rightarrow> Manager \<Rightarrow> bool" where
  "tracked name m \<longleftrightarrow> map_of (mg_attempts m) name \<noteq> None \<or> length (mg_attempts m) < maxTrackedLoginAttempts"

text \<open>Logins one after the other, and the times of the wrong passwords tried for one name, latest first.  No
  login of that name succeeds, and its failures find room in the table.\<close>

inductive guessRun :: "string \<Rightarrow> time list \<Rightarrow> time \<Rightarrow> Manager \<Rightarrow> bool" where
  start: "guessRun name [] prev (NewManager ttl)"
| login: "guessRun name ts prev m \<Longrightarrow> prev \<le> now \<Longrightarrow> 0 < now \<Longrightarrow> (n = name \<Longrightarrow> \<not> rightGuess E n p now m) \<Longrightarrow>
    (n = name \<Longrightarrow> tracked name (snd (loginLocked name now m))) \<Longrightarrow>
    guessRun name (if n = name \<and> wrongGuess E n p now m then now # ts else ts) now (snd (Login E n p now m))"

text \<open>What the entry of a name says about the failures of that name.\<close>

definition entryOk :: "time list \<Rightarrow> time \<Rightarrow> attempt option \<Rightarrow> bool" where
  "entryOk ts now entry \<longleftrightarrow>
     (case entry of
        None \<Rightarrow> \<forall>t\<in>set ts. t + loginAttemptRetention \<le> now
      | Some a \<Rightarrow> 0 < at_lastFailure a \<and> at_lastFailure a \<le> now \<and> (\<forall>t\<in>set ts. t \<le> at_lastFailure a) \<and>
          1 \<le> at_failures a \<and> at_failures a \<le> loginFailureThreshold \<and>
          at_until a = (if at_failures a = loginFailureThreshold then at_lastFailure a + loginAttemptLockDuration else 0) \<and>
          int (length (filter (\<lambda>t. at_lastFailure a < t + loginAttemptRetention) ts)) \<le> at_failures a)"

lemma entry_later: "entryOk ts prev e \<Longrightarrow> prev \<le> now \<Longrightarrow> entryOk ts now e"
  by (fastforce simp: entryOk_def split: option.splits)

lemma entry_forgotten:
  "entryOk ts now (Some a) \<Longrightarrow> at_lastFailure a + loginAttemptRetention \<le> now \<Longrightarrow> entryOk ts now None"
  by (fastforce simp: entryOk_def)

definition uniqueNames :: "Manager \<Rightarrow> bool" where
  "uniqueNames m \<longleftrightarrow> distinct (map fst (mg_attempts m))"

lemma cleanup_look:
  assumes "uniqueNames m"
  shows "map_of (mg_attempts (cleanupLoginAttemptsLocked now m)) name =
      (case map_of (mg_attempts m) name of
         Some a \<Rightarrow> if (mg_nextAttemptCleanup m \<noteq> 0 \<and> now < mg_nextAttemptCleanup m) \<or> now < at_lastFailure a + loginAttemptRetention then Some a else None
       | None \<Rightarrow> None)"
    "uniqueNames (cleanupLoginAttemptsLocked now m)" "length (mg_attempts (cleanupLoginAttemptsLocked now m)) \<le> length (mg_attempts m)"
proof -
  show "map_of (mg_attempts (cleanupLoginAttemptsLocked now m)) name =
      (case map_of (mg_attempts m) name of
         Some a \<Rightarrow> if (mg_nextAttemptCleanup m \<noteq> 0 \<and> now < mg_nextAttemptCleanup m) \<or> now < at_lastFailure a + loginAttemptRetention then Some a else None
       | None \<Rightarrow> None)"
    using assms by (auto simp: cleanupLoginAttemptsLocked_def uniqueNames_def map_of_filter_distinct split: option.split)
  show "uniqueNames (cleanupLoginAttemptsLocked now m)" "length (mg_attempts (cleanupLoginAttemptsLocked now m)) \<le> length (mg_attempts m)"
    using assms by (auto simp: cleanupLoginAttemptsLocked_def uniqueNames_def distinct_map_filter)
qed

lemma cleanup_entry:
  assumes "uniqueNames m" "entryOk ts now (map_of (mg_attempts m) name)"
  shows "entryOk ts now (map_of (mg_attempts (cleanupLoginAttemptsLocked now m)) name)"
proof (cases "map_of (mg_attempts m) name")
  case (Some a)
  then show ?thesis using assms cleanup_look(1)[OF assms(1), of now name] entry_forgotten[of ts now a] by (simp add: not_less)
qed (use assms cleanup_look(1)[OF assms(1), of now name] in simp)

text \<open>The table itself: unique names, and never more than its limit.\<close>

definition tableOk :: "Manager \<Rightarrow> bool" where
  "tableOk m \<longleftrightarrow> uniqueNames m \<and> length (mg_attempts m) \<le> maxTrackedLoginAttempts"

lemma table_cleanup: "tableOk m \<Longrightarrow> tableOk (cleanupLoginAttemptsLocked now m)"
  using cleanup_look(2,3)[of m now] by (auto simp: tableOk_def)

lemma table_delete: "tableOk m \<Longrightarrow> tableOk (m\<lparr>mg_attempts := AList.delete name (mg_attempts m)\<rparr>)"
  using delete_length[of name "mg_attempts m"] by (auto simp: tableOk_def uniqueNames_def AList.distinct_delete)

lemma table_locked: "tableOk m \<Longrightarrow> tableOk (snd (loginLocked name now m))"
  by (auto simp: loginLocked_def Let_def table_cleanup table_delete split: option.split)

lemma table_record:
  assumes "tableOk m"
  shows "tableOk (recordLoginFailure name now m)"
proof -
  let ?m = "cleanupLoginAttemptsLocked now m"
  have ok: "tableOk ?m" using assms by (rule table_cleanup)
  have "tableOk (?m\<lparr>mg_attempts := AList.update name a (mg_attempts ?m)\<rparr>)" if t: "tracked name ?m" for a
  proof -
    have "length (AList.update name a (mg_attempts ?m)) \<le> maxTrackedLoginAttempts"
    proof (cases "map_of (mg_attempts ?m) name = None")
      case True
      then show ?thesis using t update_length_le(1)[of name a "mg_attempts ?m"] by (simp add: tracked_def)
    next
      case False
      then show ?thesis using ok update_length_le(2)[OF False, of a] by (simp add: tableOk_def)
    qed
    then show ?thesis using ok by (simp add: tableOk_def uniqueNames_def AList.distinct_update)
  qed
  then show ?thesis using ok by (auto simp: recordLoginFailure_def Let_def tracked_def not_le)
qed

lemma table_login: "tableOk m \<Longrightarrow> tableOk (snd (Login E name p now m))"
  unfolding login_state Let_def by (simp add: table_locked table_record table_delete)

text \<open>The lock check keeps the entry true; a name it lets through has room for another failure.\<close>

lemma locked_entry:
  assumes "uniqueNames m" "entryOk ts now (map_of (mg_attempts m) name)" "0 < now"
  shows "entryOk ts now (map_of (mg_attempts (snd (loginLocked name now m))) name)"
    "\<not> fst (loginLocked name now m) \<Longrightarrow>
       (case map_of (mg_attempts (snd (loginLocked name now m))) name of
          Some a \<Rightarrow> at_until a = 0 \<and> now < at_lastFailure a + loginAttemptRetention | None \<Rightarrow> True)"
proof -
  let ?m = "cleanupLoginAttemptsLocked now m"
  have e: "entryOk ts now (map_of (mg_attempts ?m) name)" by (rule cleanup_entry[OF assms(1,2)])
  show "entryOk ts now (map_of (mg_attempts (snd (loginLocked name now m))) name)"
  proof (cases "map_of (mg_attempts ?m) name")
    case (Some a)
    have "at_lastFailure a + loginAttemptRetention \<le> now"
      if "\<not> now < at_until a" "at_until a \<noteq> 0 \<or> \<not> now < at_lastFailure a + loginAttemptRetention"
      using that e Some by (auto simp: entryOk_def split: if_splits)
    then show ?thesis using e entry_forgotten[of ts now a] Some by (auto simp: loginLocked_def Let_def AList.delete_conv')
  qed (use e in \<open>simp add: loginLocked_def\<close>)
  show "case map_of (mg_attempts (snd (loginLocked name now m))) name of
          Some a \<Rightarrow> at_until a = 0 \<and> now < at_lastFailure a + loginAttemptRetention | None \<Rightarrow> True"
    if "\<not> fst (loginLocked name now m)"
    using that by (auto simp: loginLocked_def Let_def AList.delete_conv' split: option.splits if_splits)
qed

lemma locked_other:
  assumes "uniqueNames m" "entryOk ts now (map_of (mg_attempts m) name)" "n \<noteq> name"
  shows "entryOk ts now (map_of (mg_attempts (snd (loginLocked n now m))) name)"
  using cleanup_entry[OF assms(1,2)] assms(3) by (auto simp: loginLocked_def Let_def AList.delete_conv' split: option.split)

lemma record_entry:
  assumes "uniqueNames m" "entryOk ts now (map_of (mg_attempts m) name)" "0 < now" "tracked name m"
    and "case map_of (mg_attempts m) name of Some a \<Rightarrow> at_until a = 0 \<and> now < at_lastFailure a + loginAttemptRetention | None \<Rightarrow> True"
  shows "entryOk (now # ts) now (map_of (mg_attempts (recordLoginFailure name now m)) name)"
proof (cases "map_of (mg_attempts m) name")
  case None
  have n: "map_of (mg_attempts (cleanupLoginAttemptsLocked now m)) name = None" using cleanup_look(1)[OF assms(1)] None by simp
  have "length (mg_attempts (cleanupLoginAttemptsLocked now m)) < maxTrackedLoginAttempts"
    using assms(4) None cleanup_look(3)[OF assms(1), of now] by (simp add: tracked_def)
  then have look: "map_of (mg_attempts (recordLoginFailure name now m)) name = Some \<lparr>at_failures = 1, at_until = 0, at_lastFailure = now\<rparr>"
    by (simp add: recordLoginFailure_def Let_def n AList.update_conv' nextAttempt_def zeroAttempt_def loginFailureThreshold_def)
  have old: "\<forall>t\<in>set ts. t + loginAttemptRetention \<le> now" using assms(2) None by (simp add: entryOk_def)
  then have "filter (\<lambda>t. now < t + loginAttemptRetention) ts = []" by (auto simp: filter_empty_conv)
  then show ?thesis using old assms(3) by (auto simp: look entryOk_def loginFailureThreshold_def)
next
  case (Some a)
  have a: "at_until a = 0" "now < at_lastFailure a + loginAttemptRetention" using assms(5) Some by simp_all
  have e: "0 < at_lastFailure a" "at_lastFailure a \<le> now" "\<forall>t\<in>set ts. t \<le> at_lastFailure a" "1 \<le> at_failures a" "at_failures a < loginFailureThreshold"
    "int (length (filter (\<lambda>t. at_lastFailure a < t + loginAttemptRetention) ts)) \<le> at_failures a"
    using assms(2) Some a(1) by (auto simp: entryOk_def split: if_splits)
  have c: "map_of (mg_attempts (cleanupLoginAttemptsLocked now m)) name = Some a" using cleanup_look(1)[OF assms(1)] Some a(2) by simp
  let ?n = "nextAttempt now a"
  have look: "map_of (mg_attempts (recordLoginFailure name now m)) name = Some ?n" by (simp add: recordLoginFailure_def Let_def c AList.update_conv')
  have nxt: "at_failures ?n = at_failures a + 1" "at_lastFailure ?n = now"
    "at_until ?n = (if at_failures a + 1 \<ge> loginFailureThreshold then now + loginAttemptLockDuration else 0)"
    using a e(1) by (simp_all add: nextAttempt_def Let_def)
  have "length (filter (\<lambda>t. now < t + loginAttemptRetention) ts) \<le> length (filter (\<lambda>t. at_lastFailure a < t + loginAttemptRetention) ts)"
    using e(2) by (induction ts) auto
  moreover have "\<forall>t\<in>set ts. t \<le> now" using e(2,3) by fastforce
  ultimately show ?thesis using e assms(3) by (auto simp: look entryOk_def nxt)
qed

lemma record_other:
  assumes "uniqueNames m" "entryOk ts now (map_of (mg_attempts m) name)" "n \<noteq> name"
  shows "entryOk ts now (map_of (mg_attempts (recordLoginFailure n now m)) name)"
  using cleanup_entry[OF assms(1,2)] assms(3) by (auto simp: recordLoginFailure_def Let_def AList.update_conv')

lemma login_entry:
  assumes "tableOk m" "entryOk ts now (map_of (mg_attempts m) name)" "0 < now"
    and "n = name \<Longrightarrow> \<not> rightGuess E n p now m" "n = name \<Longrightarrow> tracked name (snd (loginLocked name now m))"
  shows "entryOk (if n = name \<and> wrongGuess E n p now m then now # ts else ts) now (map_of (mg_attempts (snd (Login E n p now m))) name)"
proof -
  have u: "uniqueNames m" "uniqueNames (snd (loginLocked n now m))" using assms(1) table_locked by (simp_all add: tableOk_def)
  show ?thesis
  proof (cases "n = name")
    case True
    note l = locked_entry[OF u(1) assms(2,3)]
    have "wrongGuess E name p now m \<Longrightarrow> \<not> fst (loginLocked name now m)" by (simp add: wrongGuess_def)
    then show ?thesis using True assms(2,4,5) l record_entry[OF _ l(1) assms(3)] u(2)
      by (auto simp: login_state Let_def wrongGuess_def)
  next
    case False
    have l: "entryOk ts now (map_of (mg_attempts (snd (loginLocked n now m))) name)" by (rule locked_other[OF u(1) assms(2) False])
    then show ?thesis using False assms(2) record_other[OF u(2) l False] by (simp add: login_state Let_def AList.delete_conv')
  qed
qed

definition guessesIn :: "time \<Rightarrow> time list \<Rightarrow> nat" where
  "guessesIn since ts = length (filter (\<lambda>t. since \<le> t \<and> t < since + loginAttemptRetention) ts)"

lemma guess_window:
  assumes "entryOk (now # ts) now e" "now < since + loginAttemptRetention"
  shows "guessesIn since (now # ts) \<le> nat loginFailureThreshold"
proof -
  obtain a where e: "e = Some a" using assms(1) by (cases e) (auto simp: entryOk_def)
  then have "at_lastFailure a = now" "int (length (filter (\<lambda>t. now < t + loginAttemptRetention) (now # ts))) \<le> loginFailureThreshold"
    using assms(1) by (auto simp: entryOk_def)
  moreover have "guessesIn since xs \<le> length (filter (\<lambda>t. now < t + loginAttemptRetention) xs)" for xs
    using assms(2) unfolding guessesIn_def by (induction xs) auto
  ultimately have "int (guessesIn since (now # ts)) \<le> loginFailureThreshold" by (meson of_nat_mono order.trans)
  then show ?thesis by (simp add: loginFailureThreshold_def)
qed

lemma guess_invariant:
  "guessRun name ts prev m \<Longrightarrow> tableOk m \<and> entryOk ts prev (map_of (mg_attempts m) name) \<and>
     (\<forall>since. guessesIn since ts \<le> nat loginFailureThreshold)"
proof (induction rule: guessRun.induct)
  case (login name ts prev m now n E p)
  have ok: "tableOk m" and e: "entryOk ts now (map_of (mg_attempts m) name)" and w: "\<And>since. guessesIn since ts \<le> nat loginFailureThreshold"
    using login.IH entry_later[OF _ login(2)] by auto
  note le = login_entry[OF ok e login(3-5)]
  have "guessesIn since (if n = name \<and> wrongGuess E n p now m then now # ts else ts) \<le> nat loginFailureThreshold" for since
  proof (cases "n = name \<and> wrongGuess E n p now m \<and> now < since + loginAttemptRetention")
    case True
    then have g: "n = name" "wrongGuess E n p now m" "now < since + loginAttemptRetention" by auto
    then have "entryOk (now # ts) now (map_of (mg_attempts (snd (Login E n p now m))) name)" using le by simp
    then show ?thesis using guess_window[OF _ g(3)] g by simp
  next
    case False
    then show ?thesis using w[of since] by (auto simp: guessesIn_def)
  qed
  then show ?case using le table_login[OF ok] by blast
qed (simp add: NewManager_def tableOk_def uniqueNames_def entryOk_def guessesIn_def)

section \<open>Properties\<close>

text \<open>Attempts per address.  Over any sequence of login attempts at times that do not go back, at most ten
  attempts of one address pass in any minute, whatever other addresses do, and the table never holds more than
  8192 addresses; when it is full, new addresses are refused.\<close>

theorem login_rate_limited:
  assumes "limiterRun gs prev l"
  shows "length (ip_entries l) \<le> maxLoginIPEntries \<and>
    (\<forall>ip since. inWindow loginIPAttemptWindow since (grantsOf ip gs) \<le> maxLoginAttemptsPerIP) \<and>
    (length (ip_entries l) = maxLoginIPEntries \<and> map_of (ip_entries l) ip = None \<and> ip_nextCleanup l \<noteq> 0 \<and> now < ip_nextCleanup l \<longrightarrow>
       Allow ip now l = (False, l))"
  using limiter_invariant[OF assms]
  by (auto simp: limiterOk_def Allow_def Let_def pruneLoginIPAttempts_def maxLoginAttemptsPerIP_def)

theorem login_rate_limited_witness:
  "\<exists>l. limiterRun [(''10.0.0.1'', 7), (''10.0.0.1'', 5)] 7 l \<and> length (ip_entries l) \<le> maxLoginIPEntries"
proof -
  let ?l = "snd (Allow ''10.0.0.1'' 5 NewIPLimiter)"
  have a: "Allow ''10.0.0.1'' 5 NewIPLimiter = (True, ?l)" "Allow ''10.0.0.1'' 7 ?l = (True, snd (Allow ''10.0.0.1'' 7 ?l))" by code_simp+
  have "limiterRun [(''10.0.0.1'', 5)] 5 ?l" using limiterRun.call[OF limiterRun.start[of 0] _ a(1)] by simp
  then have "limiterRun [(''10.0.0.1'', 7), (''10.0.0.1'', 5)] 7 (snd (Allow ''10.0.0.1'' 7 ?l))" using limiterRun.call[OF _ _ a(2)] by fastforce
  then show ?thesis using login_rate_limited by blast
qed


definition sampleEnv :: loginEnv where
  "sampleEnv = \<lparr>le_UserByUsername = (\<lambda>_. Some (Some sampleUser)), le_VerifyPassword = (\<lambda>_ p. p = ''right''), le_Random = Some ''s'', le_CreateSession = True\<rparr>"

definition fiveWrong :: Manager where
  "fiveWrong = foldl (\<lambda>m now. snd (Login sampleEnv ''ops'' ''wrong'' now m)) (NewManager Hour) [1, 2, 3, 4, 5]"


text \<open>A failure that is recorded while the name is locked clears the lock.  Logins that follow one another never
  do this, but the lock check and the recording take the mutex separately: a login that passed the check before
  the fifth failure and fails after it reaches this case.\<close>

theorem failure_during_lock_unlocks:
  assumes "uniqueNames m" "map_of (mg_attempts m) name = Some a" "now < at_until a" "now < at_lastFailure a + loginAttemptRetention" "0 < now"
  shows "fst (loginLocked name now m) \<and> \<not> fst (loginLocked name now (recordLoginFailure name now m))"
proof -
  have c: "map_of (mg_attempts (cleanupLoginAttemptsLocked now m)) name = Some a" using cleanup_look(1)[OF assms(1)] assms(2,4) by simp
  have r: "map_of (mg_attempts (recordLoginFailure name now m)) name = Some (nextAttempt now a)"
    by (simp add: recordLoginFailure_def Let_def c AList.update_conv')
  have u: "uniqueNames (recordLoginFailure name now m)"
    using cleanup_look(2)[OF assms(1), of now] by (simp add: recordLoginFailure_def Let_def uniqueNames_def AList.distinct_update)
  show ?thesis
  proof (cases "at_until a = 0")
    case True
    then show ?thesis using assms(3,5) by simp
  next
    case False
    then have n: "nextAttempt now a = \<lparr>at_failures = 1, at_until = 0, at_lastFailure = now\<rparr>"
      by (simp add: nextAttempt_def zeroAttempt_def loginFailureThreshold_def)
    have "map_of (mg_attempts (cleanupLoginAttemptsLocked now (recordLoginFailure name now m))) name = Some (nextAttempt now a)"
      using cleanup_look(1)[OF u] r n by simp
    then show ?thesis using c assms(3,5) n by (simp add: loginLocked_def Let_def)
  qed
qed

theorem failure_during_lock_unlocks_witness:
  "fst (loginLocked ''ops'' 6 fiveWrong) \<and> \<not> fst (loginLocked ''ops'' 6 (recordLoginFailure ''ops'' 6 fiveWrong))"
proof -
  have a: "uniqueNames fiveWrong" "map_of (mg_attempts fiveWrong) ''ops'' = Some \<lparr>at_failures = 5, at_until = 5 + 10 * Minute, at_lastFailure = 5\<rparr>" by code_simp+
  show ?thesis using failure_during_lock_unlocks[OF a, of 6] by simp
qed

end
