(* ===== verification/Accounts.thy ===== *)
theory Accounts
  imports LoginGuard "HOL-Library.List_Lexorder" "HOL-Library.Char_ord"
begin

text \<open>
  Account and permission-preset operations (\<open>auth/accounts.go\<close>, \<open>auth/permission_presets.go\<close>) over the in-memory
  store (\<open>ingest/memory_store.go\<close>, \<open>ingest/permission_presets.go\<close>): creating and editing accounts, resetting
  passwords, and creating, editing, deleting and applying presets.  A transaction works on a copy that replaces
  the store when it succeeds.  The HTTP decoding around the operations is not modelled; audits are recorded by
  their operation and target.
\<close>

section \<open>Runes\<close>

text \<open>The width of the first rune of a UTF-8 text; an invalid byte is a rune of its own.\<close>

definition contByte :: "nat \<Rightarrow> nat \<Rightarrow> nat list \<Rightarrow> nat \<Rightarrow> bool" where
  "contByte lo hi bs i \<longleftrightarrow> i < length bs \<and> lo \<le> bs ! i \<and> bs ! i \<le> hi"

definition runeWidth :: "nat list \<Rightarrow> nat" where
  "runeWidth bs =
     (let b = hd bs; tailByte = contByte 128 191 bs in
      if 194 \<le> b \<and> b \<le> 223 \<and> tailByte 1 then 2
      else if 224 \<le> b \<and> b \<le> 239 \<and> contByte (if b = 224 then 160 else 128) (if b = 237 then 159 else 191) bs 1 \<and> tailByte 2 then 3
      else if 240 \<le> b \<and> b \<le> 244 \<and> contByte (if b = 240 then 144 else 128) (if b = 244 then 143 else 191) bs 1 \<and> tailByte 2 \<and> tailByte 3 then 4
      else 1)"

lemma runeWidth_pos: "0 < runeWidth bs"
  by (simp add: runeWidth_def Let_def)

function runes :: "nat list \<Rightarrow> nat list list" where
  "runes bs = (if bs = [] then [] else take (runeWidth bs) bs # runes (drop (runeWidth bs) bs))"
  by pat_completeness auto
termination
  by (relation "measure length") (auto simp: runeWidth_pos)

declare runes.simps [simp del]

definition runeCount :: "string \<Rightarrow> nat" where
  "runeCount s = length (runes (map of_char s))"

definition controlRune :: "nat list \<Rightarrow> bool" where
  "controlRune r \<longleftrightarrow> (\<exists>b. r = [b] \<and> (b < 32 \<or> b = 127)) \<or> (\<exists>b. r = [194, b] \<and> b < 160)"

lemma controlRune_code [code]:
  "controlRune r = (case r of [b] \<Rightarrow> b < 32 \<or> b = 127 | [a, b] \<Rightarrow> a = 194 \<and> b < 160 | _ \<Rightarrow> False)"
  by (auto simp: controlRune_def split: list.split)

section \<open>The store\<close>

record PermissionPreset =
  pp_ID :: int64
  pp_Name :: string
  pp_Description :: string
  pp_Permissions :: "string list"
  pp_Version :: int64
  pp_CreatedBy :: string
  pp_UpdatedBy :: string
  pp_CreatedAt :: time
  pp_UpdatedAt :: time

type_synonym auditEntry = "string \<times> string \<times> int64"

record Store =
  st_users :: "(int64 \<times> User) list"
  st_presets :: "(int64 \<times> PermissionPreset) list"
  st_audits :: "auditEntry list"
  st_nextPresetID :: int64
  st_sessions :: "(string \<times> Session) list"
  st_nextUserID :: int64

definition NewStore :: Store where
  "NewStore = \<lparr>st_users = [], st_presets = [], st_audits = [], st_nextPresetID = 0, st_sessions = [], st_nextUserID = 1\<rparr>"

datatype authError = Invalid | Forbidden | PresetConflict | PresetMissing | PresetLimit | PresetInvalid | PresetName
  | AccountsChanged | LastFullAdmin | AccountExists | AuditFailed | ContextError | HashFailed

text \<open>The surroundings of an operation: the password hash, the two checks of the request context around a
  transaction, whether an audit can be written, and Unicode case folding.\<close>

record accountEnv =
  ae_Hash :: "string \<Rightarrow> string option"
  ae_ctxBefore :: bool
  ae_ctxAfter :: bool
  ae_auditOk :: "auditEntry \<Rightarrow> bool"
  ae_EqualFold :: "string \<Rightarrow> string \<Rightarrow> bool"

definition UserByUsername :: "string \<Rightarrow> Store \<Rightarrow> User option" where
  "UserByUsername n s = find (\<lambda>u. us_Username u = n) (map snd (st_users s))"

definition UserByID :: "int64 \<Rightarrow> Store \<Rightarrow> User option" where
  "UserByID uid s = map_of (st_users s) uid"

definition dropSessions :: "int64 \<Rightarrow> Store \<Rightarrow> Store" where
  "dropSessions uid s = s\<lparr>st_sessions := filter (\<lambda>e. sn_UserID (snd e) \<noteq> uid) (st_sessions s)\<rparr>"

definition putUser :: "User \<Rightarrow> Store \<Rightarrow> Store" where
  "putUser u s = s\<lparr>st_users := AList.update (us_ID u) u (st_users s)\<rparr>"

definition CreateUser :: "User \<Rightarrow> Store \<Rightarrow> Store" where
  "CreateUser u s =
     (if us_ID u = 0 then putUser (u\<lparr>us_ID := st_nextUserID s\<rparr>) (s\<lparr>st_nextUserID := st_nextUserID s + 1\<rparr>) else putUser u s)"

definition activeFull :: "User \<Rightarrow> bool" where
  "activeFull u \<longleftrightarrow> us_Enabled u \<and> IsFullAdmin u"

definition UpdateUser :: "User \<Rightarrow> Store \<Rightarrow> authError option \<times> Store" where
  "UpdateUser u s =
     (case map_of (st_users s) (us_ID u) of
        None \<Rightarrow> (None, s)
      | Some existing \<Rightarrow>
          if activeFull existing \<and> (\<not> us_Enabled u \<or> \<not> IsFullAdmin u) \<and> length (filter activeFull (map snd (st_users s))) \<le> 1
          then (Some LastFullAdmin, s)
          else (None, if us_Enabled u then putUser u s else dropSessions (us_ID u) (putUser u s)))"

definition zeroUser :: User where
  "zeroUser = \<lparr>us_ID = 0, us_Username = [], us_PasswordHash = [], us_Role = [], us_ScopeSite = [], us_ScopeUserIDs = [], us_DisplayName = [],
     us_Permissions = None, us_PermissionPresetID = 0, us_Enabled = False, us_CreatedAt = 0, us_UpdatedAt = 0\<rparr>"

definition ResetUserPassword :: "int64 \<Rightarrow> string \<Rightarrow> time \<Rightarrow> Store \<Rightarrow> Store" where
  "ResetUserPassword uid hash now s =
     (let u = (case map_of (st_users s) uid of Some u \<Rightarrow> u | None \<Rightarrow> zeroUser)
      in dropSessions uid (s\<lparr>st_users := AList.update uid (u\<lparr>us_PasswordHash := hash, us_UpdatedAt := now\<rparr>) (st_users s)\<rparr>))"

definition CreateSession :: "Session \<Rightarrow> Store \<Rightarrow> Store" where
  "CreateSession v s = s\<lparr>st_sessions := AList.update (sn_ID v) v (st_sessions s)\<rparr>"

definition SessionByID :: "string \<Rightarrow> Store \<Rightarrow> Session option" where
  "SessionByID sid s = map_of (st_sessions s) sid"

definition DeleteSession :: "string \<Rightarrow> Store \<Rightarrow> Store" where
  "DeleteSession sid s = s\<lparr>st_sessions := AList.delete sid (st_sessions s)\<rparr>"

definition DeleteExpiredSessions :: "time \<Rightarrow> Store \<Rightarrow> Store" where
  "DeleteExpiredSessions now s = s\<lparr>st_sessions := filter (\<lambda>e. now < sn_ExpiresAt (snd e)) (st_sessions s)\<rparr>"

text \<open>The session lookup of the manager.\<close>

definition ValidateSession :: "string \<Rightarrow> time \<Rightarrow> Store \<Rightarrow> User option" where
  "ValidateSession sid now s =
     (case SessionByID sid s of
        None \<Rightarrow> None
      | Some v \<Rightarrow>
          if \<not> now < sn_ExpiresAt v then None
          else case UserByID (sn_UserID v) s of Some u \<Rightarrow> if us_Enabled u then Some u else None | None \<Rightarrow> None)"

section \<open>Transactions\<close>

definition WithPermissionPresetTransaction :: "accountEnv \<Rightarrow> (Store \<Rightarrow> authError option \<times> Store) \<Rightarrow> Store \<Rightarrow> authError option \<times> Store" where
  "WithPermissionPresetTransaction E apply s =
     (if ae_ctxBefore E then (Some ContextError, s)
      else case apply s of
             (Some e, t) \<Rightarrow> (Some e, s)
           | (None, t) \<Rightarrow> if ae_ctxAfter E then (Some ContextError, s) else (None, t))"

definition Administrators :: "Store \<Rightarrow> User list" where
  "Administrators t = sort_key us_ID (filter (\<lambda>u. us_Role u = ''admin'') (map snd (st_users t)))"

definition Presets :: "Store \<Rightarrow> PermissionPreset list" where
  "Presets t = sort_key pp_ID (map snd (st_presets t))"

definition SavePreset :: "PermissionPreset \<Rightarrow> Store \<Rightarrow> PermissionPreset \<times> Store" where
  "SavePreset p t =
     (if pp_ID p = 0 then
        let i = foldl (\<lambda>i k. if i \<le> k then k + 1 else i) (st_nextPresetID t + 1) (map fst (st_presets t)); q = p\<lparr>pp_ID := i\<rparr>
        in (q, t\<lparr>st_nextPresetID := i, st_presets := AList.update i q (st_presets t)\<rparr>)
      else (p, t\<lparr>st_presets := AList.update (pp_ID p) p (st_presets t)\<rparr>))"

definition DeletePreset :: "int64 \<Rightarrow> Store \<Rightarrow> Store" where
  "DeletePreset pid t = t\<lparr>st_presets := AList.delete pid (st_presets t)\<rparr>"

definition insertPresetAudit :: "accountEnv \<Rightarrow> auditEntry \<Rightarrow> Store \<Rightarrow> authError option \<times> Store" where
  "insertPresetAudit E audit t = (if ae_auditOk E audit then (None, t\<lparr>st_audits := st_audits t @ [audit]\<rparr>) else (Some AuditFailed, t))"

text \<open>The search for an unused identifier; as many steps as there are users are enough.\<close>

fun nextFree :: "nat \<Rightarrow> int64 list \<Rightarrow> int64 \<Rightarrow> int64" where
  "nextFree 0 ids n = n"
| "nextFree (Suc k) ids n = (if n \<in> set ids then nextFree k ids (n + 1) else n)"

definition SaveAccount :: "User \<Rightarrow> Store \<Rightarrow> authError option \<times> User \<times> Store" where
  "SaveAccount user t =
     (if us_ID user = 0 \<and> list_ex (\<lambda>e. us_Username e = us_Username user) (map snd (st_users t)) then (Some AccountExists, user, t)
      else
        let (u, t1) = (if us_ID user = 0
              then let i = nextFree (length (st_users t)) (map fst (st_users t)) (max 1 (st_nextUserID t))
                   in (user\<lparr>us_ID := i\<rparr>, t\<lparr>st_nextUserID := i + 1\<rparr>)
              else (user, t));
            t2 = putUser u t1
        in (None, u, if us_Enabled u then t2 else dropSessions (us_ID u) t2))"

definition lockedPresetActor :: "Store \<Rightarrow> int64 \<Rightarrow> User option" where
  "lockedPresetActor t uid = find (\<lambda>u. us_ID u = uid \<and> us_Enabled u \<and> HasPermission u ''accounts.manage'') (Administrators t)"

section \<open>Accounts\<close>

record AccountInput =
  ai_Username :: string
  ai_Password :: string
  ai_Role :: string
  ai_ScopeSite :: string
  ai_ScopeUserIDs :: "int64 list"
  ai_Enabled :: bool
  ai_DisplayName :: string
  ai_Permissions :: "string list"
  ai_PermissionPresetID :: "int64 option"
  ai_PermissionPresetVersion :: int64
  ai_ExpectedPermissions :: "string list option"
  ai_ExpectedPermissionPresetID :: "int64 option"

definition accountActor :: "int64 \<Rightarrow> Store \<Rightarrow> User option" where
  "accountActor uid s =
     (case UserByID uid s of
        Some u \<Rightarrow> if us_Enabled u \<and> HasPermission u ''accounts.manage'' then Some u else None
      | None \<Rightarrow> None)"

definition presetWanted :: "AccountInput \<Rightarrow> bool" where
  "presetWanted q \<longleftrightarrow> (case ai_PermissionPresetID q of Some i \<Rightarrow> i \<noteq> 0 | None \<Rightarrow> False)"

definition applyAccountInput :: "User \<Rightarrow> User \<Rightarrow> AccountInput \<Rightarrow> User + authError" where
  "applyAccountInput actor target q =
     (if ai_Role q \<noteq> us_Role target \<or> (ai_Role q \<noteq> ''admin'' \<and> ai_Role q \<noteq> ''viewer'') then Inr Invalid
      else if ai_Role q = ''viewer'' then
        (if ai_Permissions q \<noteq> [] \<or> presetWanted q then Inr Forbidden
         else if trimSpace (ai_ScopeSite q) = [] \<or> ai_ScopeUserIDs q = [] then Inr Invalid
         else Inl (target\<lparr>us_Permissions := Some [], us_ScopeSite := trimSpace (ai_ScopeSite q), us_ScopeUserIDs := ai_ScopeUserIDs q\<rparr>))
      else if runeCount (ai_DisplayName q) > 64 \<or> \<not> canGrant actor (ai_Permissions q) then Inr Forbidden
      else Inl (target\<lparr>us_DisplayName := trimSpace (ai_DisplayName q), us_Permissions := Some (ExpandPermissions (ai_Permissions q)),
             us_ScopeSite := [], us_ScopeUserIDs := []\<rparr>))"

definition samePresetPermissions :: "string list \<Rightarrow> string list \<Rightarrow> bool" where
  "samePresetPermissions left right \<longleftrightarrow> sort (ExpandPermissions left) = sort (ExpandPermissions right)"

text \<open>The checks on an existing account: it is the locked row, not the draft, that is edited.\<close>

definition lockedTarget :: "User \<Rightarrow> User list \<Rightarrow> int64 \<Rightarrow> User \<Rightarrow> AccountInput \<Rightarrow> User + authError" where
  "lockedTarget actor users actorID draft q =
     (case find (\<lambda>u. us_ID u = us_ID draft) users of
        None \<Rightarrow> Inr Forbidden
      | Some before \<Rightarrow>
          if us_ID draft = actorID \<or> \<not> canManage actor before then Inr Forbidden
          else let actual = (if IsFullAdmin before then [''*''] else permissionsOf before)
               in if (us_PermissionPresetID before \<noteq> 0 \<and> ai_ExpectedPermissions q = None) \<or>
                     (case ai_ExpectedPermissions q of Some e \<Rightarrow> \<not> samePresetPermissions e actual | None \<Rightarrow> False) \<or>
                     (case ai_ExpectedPermissionPresetID q of Some i \<Rightarrow> i \<noteq> us_PermissionPresetID before | None \<Rightarrow> False)
                  then Inr AccountsChanged else Inl before)"

definition zeroPreset :: PermissionPreset where
  "zeroPreset = \<lparr>pp_ID = 0, pp_Name = [], pp_Description = [], pp_Permissions = [], pp_Version = 0, pp_CreatedBy = [], pp_UpdatedBy = [],
     pp_CreatedAt = 0, pp_UpdatedAt = 0\<rparr>"

definition bindPreset :: "User \<Rightarrow> PermissionPreset list \<Rightarrow> User \<Rightarrow> User \<Rightarrow> AccountInput \<Rightarrow> User + authError" where
  "bindPreset actor presets before after q =
     (case ai_PermissionPresetID q of
        None \<Rightarrow> Inl after
      | Some i \<Rightarrow>
          if i < 0 \<or> ai_PermissionPresetVersion q < 0 \<or> (i \<noteq> 0 \<and> IsFullAdmin after) then Inr PresetInvalid
          else if i = 0 then Inl (after\<lparr>us_PermissionPresetID := 0\<rparr>)
          else case find (\<lambda>p. pp_ID p = i) presets of
                 None \<Rightarrow> Inr PresetMissing
               | Some preset \<Rightarrow>
                   if ai_PermissionPresetVersion q = 0 \<and> i \<noteq> us_PermissionPresetID before then Inr PresetInvalid
                   else if ai_PermissionPresetVersion q \<noteq> 0 \<and> ai_PermissionPresetVersion q \<noteq> pp_Version preset then Inr PresetConflict
                   else if \<not> canGrant actor (pp_Permissions preset) then Inr Forbidden
                   else Inl (after\<lparr>us_PermissionPresetID := i\<rparr>))"

definition draftOf :: "User \<Rightarrow> User list \<Rightarrow> int64 \<Rightarrow> User \<Rightarrow> AccountInput \<Rightarrow> (User \<times> User) + authError" where
  "draftOf actor users actorID draft q =
     (if us_ID draft = 0 then Inl (zeroUser, draft)
      else case lockedTarget actor users actorID draft q of Inr e \<Rightarrow> Inr e | Inl before \<Rightarrow> Inl (before, before))"

definition saveAdministratorTx :: "int64 \<Rightarrow> User \<Rightarrow> AccountInput \<Rightarrow> time \<Rightarrow> Store \<Rightarrow> authError option \<times> Store" where
  "saveAdministratorTx actorID draft q now t =
     (case lockedPresetActor t actorID of
        None \<Rightarrow> (Some Forbidden, t)
      | Some actor \<Rightarrow>
          (case draftOf actor (Administrators t) actorID draft q of
             Inr e \<Rightarrow> (Some e, t)
           | Inl (before, base) \<Rightarrow>
               (case applyAccountInput actor base q of
                  Inr e \<Rightarrow> (Some e, t)
                | Inl a0 \<Rightarrow>
                    let a1 = a0\<lparr>us_Enabled := (if us_ID draft \<noteq> 0 then ai_Enabled q else us_Enabled a0), us_UpdatedAt := now\<rparr>
                    in case bindPreset actor (Presets t) before a1 q of
                         Inr e \<Rightarrow> (Some e, t)
                       | Inl a2 \<Rightarrow>
                           let after = (if IsFullAdmin a2 then a2\<lparr>us_PermissionPresetID := 0\<rparr> else a2)
                           in if activeFull before \<and> \<not> activeFull after \<and> length (filter activeFull (Administrators t)) \<le> 1
                              then (Some LastFullAdmin, t)
                              else case SaveAccount after t of (e, u, t') \<Rightarrow> (e, t'))))"

definition CreateAccount :: "accountEnv \<Rightarrow> int64 \<Rightarrow> AccountInput \<Rightarrow> time \<Rightarrow> Store \<Rightarrow> authError option \<times> Store" where
  "CreateAccount E actorID q now s =
     (case accountActor actorID s of
        None \<Rightarrow> (Some Forbidden, s)
      | Some actor \<Rightarrow>
          let name = trimSpace (ai_Username q) in
          if name = [] \<or> runeCount name > 64 \<or> length (ai_Password q) < 8 \<or> length (ai_Password q) > 1024 then (Some Invalid, s)
          else if UserByUsername name s \<noteq> None then (Some Invalid, s)
          else (case applyAccountInput actor (zeroUser\<lparr>us_Username := name, us_Role := ai_Role q, us_Enabled := True,
                    us_CreatedAt := now, us_UpdatedAt := now\<rparr>) q of
                  Inr e \<Rightarrow> (Some e, s)
                | Inl u \<Rightarrow>
                    (case ae_Hash E (ai_Password q) of
                       None \<Rightarrow> (Some HashFailed, s)
                     | Some h \<Rightarrow>
                         let v = u\<lparr>us_PasswordHash := h\<rparr>
                         in if ai_Role q = ''admin'' then WithPermissionPresetTransaction E (saveAdministratorTx actorID v q now) s
                            else if presetWanted q then (Some Forbidden, s)
                            else (None, CreateUser v s))))"

definition UpdateAccount :: "accountEnv \<Rightarrow> int64 \<Rightarrow> int64 \<Rightarrow> AccountInput \<Rightarrow> time \<Rightarrow> Store \<Rightarrow> authError option \<times> Store" where
  "UpdateAccount E actorID targetID q now s =
     (case accountActor actorID s of
        None \<Rightarrow> (Some Forbidden, s)
      | Some actor \<Rightarrow>
          (case UserByID targetID s of
             None \<Rightarrow> (Some Invalid, s)
           | Some before \<Rightarrow>
               if targetID = actorID then (Some Invalid, s)
               else if \<not> canManage actor before then (Some Forbidden, s)
               else case applyAccountInput actor before q of
                      Inr e \<Rightarrow> (Some e, s)
                    | Inl a \<Rightarrow>
                        let after = a\<lparr>us_Enabled := ai_Enabled q, us_UpdatedAt := now\<rparr>
                        in if us_Role before = ''admin'' then WithPermissionPresetTransaction E (saveAdministratorTx actorID after q now) s
                           else if presetWanted q then (Some Forbidden, s)
                           else UpdateUser after s))"

definition ResetAccountPassword :: "accountEnv \<Rightarrow> int64 \<Rightarrow> int64 \<Rightarrow> string \<Rightarrow> time \<Rightarrow> Store \<times> Manager \<Rightarrow> authError option \<times> Store \<times> Manager" where
  "ResetAccountPassword E actorID targetID password now sm =
     (let (s, m) = sm in
      case accountActor actorID s of
        None \<Rightarrow> (Some Forbidden, s, m)
      | Some actor \<Rightarrow>
          (case UserByID targetID s of
             None \<Rightarrow> (Some Invalid, s, m)
           | Some target \<Rightarrow>
               if targetID = actorID \<or> us_Role target \<noteq> ''admin'' \<or> length password < 8 \<or> length password > 1024 then (Some Invalid, s, m)
               else if \<not> canManage actor target then (Some Forbidden, s, m)
               else case ae_Hash E password of
                      None \<Rightarrow> (Some HashFailed, s, m)
                    | Some h \<Rightarrow>
                        (None, ResetUserPassword targetID h now s, m\<lparr>mg_attempts := AList.delete (us_Username target) (mg_attempts m)\<rparr>)))"

definition ChangePassword :: "accountEnv \<Rightarrow> (string \<Rightarrow> string \<Rightarrow> bool) \<Rightarrow> int64 \<Rightarrow> string \<Rightarrow> string \<Rightarrow> time \<Rightarrow> Store \<Rightarrow> authError option \<times> Store" where
  "ChangePassword E verify uid old new now s =
     (if length new < 8 \<or> length new > 1024 then (Some Invalid, s)
      else case UserByID uid s of
             None \<Rightarrow> (Some Invalid, s)
           | Some u \<Rightarrow>
               if \<not> verify (us_PasswordHash u) old then (Some Invalid, s)
               else case ae_Hash E new of None \<Rightarrow> (Some HashFailed, s) | Some h \<Rightarrow> (None, ResetUserPassword uid h now s))"

end
