(* ===== verification/Presets.thy ===== *)
theory Presets
  imports Accounts
begin

text \<open>
  The operations on permission presets (\<open>auth/permission_presets.go\<close>): each is one transaction over the store
  of Accounts, taken from the point where its input has been decoded.  Errors leave the store as it was.
\<close>

definition maxPermissionPresets :: nat where
  "maxPermissionPresets = 100"

definition maxPresetApplyAccounts :: nat where
  "maxPresetApplyAccounts = 50"

record presetInput =
  pi_Name :: string
  pi_Description :: string
  pi_Permissions :: "string list"
  pi_Version :: int64

definition normalizePreset :: "User \<Rightarrow> presetInput \<Rightarrow> PermissionPreset + authError" where
  "normalizePreset actor q =
     (let p = zeroPreset\<lparr>pp_Name := trimSpace (pi_Name q), pp_Description := trimSpace (pi_Description q),
                pp_Permissions := ExpandPermissions (pi_Permissions q)\<rparr>
      in if pp_Name p = [] \<or> runeCount (pp_Name p) > 64 \<or> runeCount (pp_Description p) > 256 \<or> length (pi_Permissions q) > 128 \<or>
            pp_Permissions p = [] \<or> list_ex controlRune (runes (map of_char (pp_Name p))) then Inr PresetInvalid
         else if ''*'' \<in> set (pp_Permissions p) then Inr PresetInvalid
         else if \<not> canGrant actor (pp_Permissions p) then Inr Forbidden
         else Inl (p\<lparr>pp_Permissions := sort (pp_Permissions p)\<rparr>))"

definition presetByID :: "PermissionPreset list \<Rightarrow> int64 \<Rightarrow> int64 \<Rightarrow> PermissionPreset + authError" where
  "presetByID items pid version =
     (case find (\<lambda>p. pp_ID p = pid) items of
        None \<Rightarrow> Inr PresetMissing
      | Some p \<Rightarrow> if version \<noteq> pp_Version p then Inr PresetConflict else Inl p)"

section \<open>Creating\<close>

definition createPresetTx :: "accountEnv \<Rightarrow> int64 \<Rightarrow> presetInput \<Rightarrow> time \<Rightarrow> Store \<Rightarrow> authError option \<times> Store" where
  "createPresetTx E actorID q now t =
     (case lockedPresetActor t actorID of
        None \<Rightarrow> (Some Forbidden, t)
      | Some actor \<Rightarrow>
          (case normalizePreset actor q of
             Inr e \<Rightarrow> (Some e, t)
           | Inl p \<Rightarrow>
               if length (Presets t) \<ge> maxPermissionPresets then (Some PresetLimit, t)
               else if list_ex (\<lambda>x. ae_EqualFold E (pp_Name x) (pp_Name p)) (Presets t) then (Some PresetName, t)
               else let (saved, t1) = SavePreset (p\<lparr>pp_Version := 1, pp_CreatedBy := us_Username actor, pp_UpdatedBy := us_Username actor,
                          pp_CreatedAt := now, pp_UpdatedAt := now\<rparr>) t
                    in insertPresetAudit E (''auth.permission_preset_create'', ''permission_preset'', pp_ID saved) t1))"

definition CreatePreset :: "accountEnv \<Rightarrow> int64 \<Rightarrow> presetInput \<Rightarrow> time \<Rightarrow> Store \<Rightarrow> authError option \<times> Store" where
  "CreatePreset E actorID q now s = WithPermissionPresetTransaction E (createPresetTx E actorID q now) s"

section \<open>Saving one account of a batch\<close>

text \<open>Saving an account together with its audit, as every batch does.\<close>

definition saveAudited :: "accountEnv \<Rightarrow> User \<Rightarrow> Store \<Rightarrow> authError option \<times> Store" where
  "saveAudited E after t =
     (case SaveAccount after t of
        (Some e, u, t1) \<Rightarrow> (Some e, t1)
      | (None, u, t1) \<Rightarrow> insertPresetAudit E (''auth.permission_preset_apply'', ''ct_user'', us_ID u) t1)"

text \<open>A loop over accounts that stops at the first error; the body gives the account to save, an error, or
  nothing to do.\<close>

datatype verdict = Skip | Refuse authError | Save User

fun saveAll :: "accountEnv \<Rightarrow> (User \<Rightarrow> verdict) \<Rightarrow> User list \<Rightarrow> Store \<Rightarrow> authError option \<times> Store" where
  "saveAll E body [] t = (None, t)"
| "saveAll E body (u # us) t =
     (case body u of
        Skip \<Rightarrow> saveAll E body us t
      | Refuse e \<Rightarrow> (Some e, t)
      | Save after \<Rightarrow> (case saveAudited E after t of (Some e, t1) \<Rightarrow> (Some e, t1) | (None, t1) \<Rightarrow> saveAll E body us t1))"

section \<open>Deleting and editing\<close>

definition unbindUser :: "User \<Rightarrow> int64 \<Rightarrow> time \<Rightarrow> User \<Rightarrow> verdict" where
  "unbindUser actor pid now u =
     (if us_PermissionPresetID u \<noteq> pid then Skip
      else if \<not> canManage actor u then Refuse Forbidden
      else Save (u\<lparr>us_PermissionPresetID := 0, us_UpdatedAt := now\<rparr>))"

definition syncUser :: "User \<Rightarrow> int64 \<Rightarrow> string list \<Rightarrow> time \<Rightarrow> User \<Rightarrow> verdict" where
  "syncUser actor pid added now u =
     (if us_PermissionPresetID u \<noteq> pid then Skip
      else if IsFullAdmin u \<or> added = [] then Skip
      else let permissions = ExpandPermissions (permissionsOf u @ added)
           in if samePresetPermissions permissions (permissionsOf u) then Skip
              else if \<not> canManage actor u \<or> \<not> canGrant actor permissions then Refuse Forbidden
              else Save (u\<lparr>us_Permissions := Some permissions, us_UpdatedAt := now\<rparr>))"

definition deletePresetTx :: "accountEnv \<Rightarrow> User \<Rightarrow> int64 \<Rightarrow> time \<Rightarrow> Store \<Rightarrow> authError option \<times> Store" where
  "deletePresetTx E actor pid now t =
     (case saveAll E (unbindUser actor pid now) (Administrators t) t of
        (Some e, t1) \<Rightarrow> (Some e, t1)
      | (None, t1) \<Rightarrow> insertPresetAudit E (''auth.permission_preset_delete'', ''permission_preset'', pid) (DeletePreset pid t1))"

definition editPresetTx :: "accountEnv \<Rightarrow> User \<Rightarrow> int64 \<Rightarrow> presetInput \<Rightarrow> PermissionPreset \<Rightarrow> time \<Rightarrow> Store \<Rightarrow> authError option \<times> Store" where
  "editPresetTx E actor pid q before now t =
     (case normalizePreset actor q of
        Inr e \<Rightarrow> (Some e, t)
      | Inl p \<Rightarrow>
          if list_ex (\<lambda>x. pp_ID x \<noteq> pid \<and> ae_EqualFold E (pp_Name x) (pp_Name p)) (Presets t) then (Some PresetName, t)
          else
            let after = p\<lparr>pp_ID := pid, pp_Version := pp_Version before + 1, pp_CreatedAt := pp_CreatedAt before,
                   pp_CreatedBy := pp_CreatedBy before, pp_UpdatedAt := now, pp_UpdatedBy := us_Username actor\<rparr>;
                (saved, t1) = SavePreset after t;
                added = filter (\<lambda>k. k \<notin> set (pp_Permissions before)) (pp_Permissions after)
            in case saveAll E (syncUser actor pid added now) (Administrators t) t1 of
                 (Some e, t2) \<Rightarrow> (Some e, t2)
               | (None, t2) \<Rightarrow> insertPresetAudit E (''auth.permission_preset_update'', ''permission_preset'', pid) t2)"

definition presetTx :: "accountEnv \<Rightarrow> bool \<Rightarrow> int64 \<Rightarrow> int64 \<Rightarrow> presetInput \<Rightarrow> time \<Rightarrow> Store \<Rightarrow> authError option \<times> Store" where
  "presetTx E deleting actorID pid q now t =
     (case lockedPresetActor t actorID of
        None \<Rightarrow> (Some Forbidden, t)
      | Some actor \<Rightarrow>
          (case presetByID (Presets t) pid (pi_Version q) of
             Inr e \<Rightarrow> (Some e, t)
           | Inl before \<Rightarrow>
               if \<not> canGrant actor (pp_Permissions before) then (Some Forbidden, t)
               else if deleting then deletePresetTx E actor pid now t
               else editPresetTx E actor pid q before now t))"

definition EditPreset :: "accountEnv \<Rightarrow> bool \<Rightarrow> int64 \<Rightarrow> int64 \<Rightarrow> presetInput \<Rightarrow> time \<Rightarrow> Store \<Rightarrow> authError option \<times> Store" where
  "EditPreset E deleting actorID pid q now s =
     (if pid \<le> 0 \<or> pi_Version q \<le> 0 then (Some PresetInvalid, s)
      else WithPermissionPresetTransaction E (presetTx E deleting actorID pid q now) s)"

section \<open>Applying\<close>

record presetApplyInput =
  pa_Version :: int64
  pa_UserIDs :: "int64 list"
  pa_Mode :: string
  pa_ExpectedPermissions :: "(int64 \<times> string list option) list"
  pa_ExpectedPresetIDs :: "(int64 \<times> int64) list"

text \<open>A JSON null as the expected list of an account is \<open>Some None\<close> here.\<close>

definition applyInputOk :: "presetApplyInput \<Rightarrow> bool" where
  "applyInputOk q \<longleftrightarrow>
     pa_Version q > 0 \<and> pa_UserIDs q \<noteq> [] \<and> length (pa_UserIDs q) \<le> maxPresetApplyAccounts \<and>
     length (pa_ExpectedPermissions q) = length (pa_UserIDs q) \<and> (pa_Mode q = ''replace'' \<or> pa_Mode q = ''merge'') \<and>
     distinct (pa_UserIDs q) \<and>
     list_all (\<lambda>i. i > 0 \<and> (case map_of (pa_ExpectedPermissions q) i of Some (Some ps) \<Rightarrow> length ps \<le> 128 | _ \<Rightarrow> False)) (pa_UserIDs q)"

definition expectedFor :: "presetApplyInput \<Rightarrow> int64 \<Rightarrow> string list" where
  "expectedFor q i = (case map_of (pa_ExpectedPermissions q) i of Some (Some ps) \<Rightarrow> ps | _ \<Rightarrow> [])"

definition applyTargetError :: "User \<Rightarrow> presetApplyInput \<Rightarrow> User \<Rightarrow> authError option" where
  "applyTargetError actor q u =
     (if us_ID u \<notin> set (pa_UserIDs q) then None
      else if us_ID u = us_ID actor \<or> IsFullAdmin u \<or> \<not> canManage actor u then Some Forbidden
      else if sort (ExpandPermissions (expectedFor q (us_ID u))) \<noteq> sort (ExpandPermissions (permissionsOf u)) then Some AccountsChanged
      else case map_of (pa_ExpectedPresetIDs q) (us_ID u) of
             Some i \<Rightarrow> if i \<noteq> us_PermissionPresetID u then Some AccountsChanged else None
           | None \<Rightarrow> None)"

fun firstError :: "('a \<Rightarrow> authError option) \<Rightarrow> 'a list \<Rightarrow> authError option" where
  "firstError f [] = None"
| "firstError f (x # xs) = (case f x of Some e \<Rightarrow> Some e | None \<Rightarrow> firstError f xs)"

definition applyUser :: "User \<Rightarrow> PermissionPreset \<Rightarrow> presetApplyInput \<Rightarrow> time \<Rightarrow> User \<Rightarrow> verdict" where
  "applyUser actor preset q now u =
     (if us_ID u \<notin> set (pa_UserIDs q) then Skip
      else let permissions = (if pa_Mode q = ''merge'' then ExpandPermissions (permissionsOf u @ pp_Permissions preset) else pp_Permissions preset)
           in if \<not> canGrant actor permissions then Refuse Forbidden
              else if sort (ExpandPermissions (permissionsOf u)) = sort permissions \<and> us_PermissionPresetID u = pp_ID preset then Skip
              else Save (u\<lparr>us_Permissions := Some (sort permissions), us_PermissionPresetID := pp_ID preset, us_UpdatedAt := now\<rparr>))"

definition applyPresetTx :: "accountEnv \<Rightarrow> int64 \<Rightarrow> int64 \<Rightarrow> presetApplyInput \<Rightarrow> time \<Rightarrow> Store \<Rightarrow> authError option \<times> Store" where
  "applyPresetTx E actorID pid q now t =
     (case lockedPresetActor t actorID of
        None \<Rightarrow> (Some Forbidden, t)
      | Some actor \<Rightarrow>
          (case presetByID (Presets t) pid (pa_Version q) of
             Inr e \<Rightarrow> (Some e, t)
           | Inl preset \<Rightarrow>
               if \<not> canGrant actor (pp_Permissions preset) \<or> ''*'' \<in> set (pp_Permissions preset) then (Some Forbidden, t)
               else case firstError (applyTargetError actor q) (Administrators t) of
                      Some e \<Rightarrow> (Some e, t)
                    | None \<Rightarrow>
                        if length (filter (\<lambda>u. us_ID u \<in> set (pa_UserIDs q)) (Administrators t)) \<noteq> length (pa_UserIDs q) then (Some Forbidden, t)
                        else saveAll E (applyUser actor preset q now) (Administrators t) t))"

definition ApplyPreset :: "accountEnv \<Rightarrow> int64 \<Rightarrow> int64 \<Rightarrow> presetApplyInput \<Rightarrow> time \<Rightarrow> Store \<Rightarrow> authError option \<times> Store" where
  "ApplyPreset E actorID pid q now s =
     (if pid \<le> 0 \<or> \<not> applyInputOk q then (Some PresetInvalid, s)
      else WithPermissionPresetTransaction E (applyPresetTx E actorID pid q now) s)"

end
