(* ===== verification/AccountProofs.thy ===== *)
theory AccountProofs
  imports Presets
begin

text \<open>
  What account and preset operations do to the users of the store: identifiers stay unique, an account only
  gets permissions its editor holds, and somebody remains in charge.
\<close>

section \<open>The users of a store\<close>

definition usersOf :: "Store \<Rightarrow> User set" where
  "usersOf s = set (map snd (st_users s))"

definition storeOk :: "Store \<Rightarrow> bool" where
  "storeOk s \<longleftrightarrow> distinct (map fst (st_users s)) \<and> (\<forall>e\<in>set (st_users s). us_ID (snd e) = fst e \<and> 0 < fst e \<and> fst e < st_nextUserID s)"

lemma users_look: "storeOk s \<Longrightarrow> map_of (st_users s) uid = Some u \<longleftrightarrow> u \<in> usersOf s \<and> us_ID u = uid"
  by (force simp: storeOk_def usersOf_def)

lemma users_unique: "storeOk s \<Longrightarrow> u \<in> usersOf s \<Longrightarrow> v \<in> usersOf s \<Longrightarrow> us_ID u = us_ID v \<Longrightarrow> u = v"
  using users_look by (metis option.inject)

lemma users_ids: "storeOk s \<Longrightarrow> u \<in> usersOf s \<Longrightarrow> 0 < us_ID u \<and> us_ID u < st_nextUserID s"
  by (auto simp: storeOk_def usersOf_def)

lemma administrators_set: "set (Administrators s) = {u \<in> usersOf s. us_Role u = ''admin''}"
  by (auto simp: Administrators_def usersOf_def)

lemma administrators_distinct:
  assumes "storeOk s"
  shows "distinct (map us_ID (Administrators s))"
proof -
  have "map (us_ID \<circ> snd) (st_users s) = map fst (st_users s)" using assms by (auto simp: storeOk_def)
  then have "distinct (map us_ID (map snd (st_users s)))" unfolding map_map using assms unfolding storeOk_def by metis
  then have "distinct (map us_ID (filter (\<lambda>u. us_Role u = ''admin'') (map snd (st_users s))))" by (rule distinct_map_filter)
  then show ?thesis unfolding Administrators_def distinct_map by simp
qed

lemma put_users:
  assumes "storeOk s" "0 < us_ID u" "us_ID u < st_nextUserID s"
  shows "storeOk (putUser u s)" "usersOf (putUser u s) = insert u {v \<in> usersOf s. us_ID v \<noteq> us_ID u}"
proof -
  have k: "\<And>e. e \<in> set (st_users s) \<Longrightarrow> us_ID (snd e) = fst e" using assms(1) by (simp add: storeOk_def)
  have d: "distinct (map fst (st_users s))" using assms(1) by (simp add: storeOk_def)
  have set: "set (AList.update (us_ID u) u (st_users s)) = insert (us_ID u, u) {e \<in> set (st_users s). fst e \<noteq> us_ID u}"
    by (rule update_entries[OF d])
  show "storeOk (putUser u s)" using assms by (auto simp: storeOk_def putUser_def set AList.distinct_update)
  show "usersOf (putUser u s) = insert u {v \<in> usersOf s. us_ID v \<noteq> us_ID u}"
  proof -
    have "snd ` {e \<in> set (st_users s). fst e \<noteq> us_ID u} = {v \<in> snd ` set (st_users s). us_ID v \<noteq> us_ID u}"
    proof (intro equalityI subsetI)
      fix v
      assume "v \<in> snd ` {e \<in> set (st_users s). fst e \<noteq> us_ID u}"
      then show "v \<in> {v \<in> snd ` set (st_users s). us_ID v \<noteq> us_ID u}" using k by auto
    next
      fix v
      assume "v \<in> {v \<in> snd ` set (st_users s). us_ID v \<noteq> us_ID u}"
      then obtain e where "e \<in> set (st_users s)" "v = snd e" "us_ID v \<noteq> us_ID u" by auto
      then show "v \<in> snd ` {e \<in> set (st_users s). fst e \<noteq> us_ID u}" using k by auto
    qed
    then show ?thesis by (simp add: usersOf_def putUser_def set)
  qed
qed

lemma drop_sessions_simps [simp]:
  "st_users (dropSessions i s) = st_users s" "st_nextUserID (dropSessions i s) = st_nextUserID s"
  "usersOf (dropSessions i s) = usersOf s" "storeOk (dropSessions i s) = storeOk s"
  by (simp_all add: dropSessions_def usersOf_def storeOk_def)

lemma nextFree_fresh: "distinct ids \<Longrightarrow> nextFree (length ids) ids n \<notin> set ids \<and> n \<le> nextFree (length ids) ids n"
proof -
  assume d: "distinct ids"
  have ge: "n \<le> nextFree k xs n" for k xs and n :: int64 by (induction k xs n rule: nextFree.induct) (auto intro: order.trans[rotated])
  have run: "nextFree k ids n \<notin> set ids \<or> {n ..< n + int k} \<subseteq> set ids \<and> nextFree k ids n = n + int k" for k and n :: int64
  proof (induction k arbitrary: n)
    case (Suc k)
    have "{n ..< n + int (Suc k)} = insert n {n + 1 ..< n + 1 + int k}" by auto
    then show ?case using Suc[of "n + 1"] by auto
  qed simp
  have "n + int (length ids) \<notin> set ids" if "{n ..< n + int (length ids)} \<subseteq> set ids"
  proof
    assume "n + int (length ids) \<in> set ids"
    then have "insert (n + int (length ids)) {n ..< n + int (length ids)} \<subseteq> set ids" using that by simp
    then have "card (insert (n + int (length ids)) {n ..< n + int (length ids)}) \<le> card (set ids)" by (rule card_mono[rotated]) simp
    then show False using d by (simp add: distinct_card)
  qed
  then show ?thesis using run[of "length ids" n] ge by metis
qed

lemma save_account:
  assumes "storeOk t" "SaveAccount after t = (None, u, t')" "us_ID after \<noteq> 0 \<Longrightarrow> \<exists>v\<in>usersOf t. us_ID v = us_ID after"
  shows "storeOk t'" "usersOf t' = insert u {v \<in> usersOf t. us_ID v \<noteq> us_ID u}" "u = after\<lparr>us_ID := us_ID u\<rparr>"
    "us_ID after \<noteq> 0 \<Longrightarrow> u = after" "us_ID after = 0 \<Longrightarrow> \<forall>v\<in>usersOf t. us_ID v \<noteq> us_ID u"
proof -
  let ?i = "nextFree (length (st_users t)) (map fst (st_users t)) (max 1 (st_nextUserID t))"
  have d: "distinct (map fst (st_users t))" using assms(1) by (simp add: storeOk_def)
  have f: "?i \<notin> set (map fst (st_users t))" "max 1 (st_nextUserID t) \<le> ?i"
    using nextFree_fresh[OF d, of "max 1 (st_nextUserID t)"] by (simp_all del: set_map)
  define t1 where "t1 = (if us_ID after = 0 then t\<lparr>st_nextUserID := ?i + 1\<rparr> else t)"
  have u: "u = (if us_ID after = 0 then after\<lparr>us_ID := ?i\<rparr> else after)" and t': "usersOf t' = usersOf (putUser u t1)" "storeOk t' = storeOk (putUser u t1)"
    using assms(2) by (auto simp: SaveAccount_def Let_def t1_def split: if_splits)
  have ok1: "storeOk t1" "usersOf t1 = usersOf t" using assms(1) f(2) by (auto simp: storeOk_def usersOf_def t1_def)
  have b: "0 < us_ID u" "us_ID u < st_nextUserID t1"
  proof -
    have "0 < us_ID u \<and> us_ID u < st_nextUserID t1"
    proof (cases "us_ID after = 0")
      case True
      then show ?thesis using u f(2) by (simp add: t1_def)
    next
      case False
      then obtain v where "v \<in> usersOf t" "us_ID v = us_ID after" using assms(3) by blast
      then show ?thesis using users_ids[OF assms(1), of v] u False by (simp add: t1_def)
    qed
    then show "0 < us_ID u" "us_ID u < st_nextUserID t1" by simp_all
  qed
  show "storeOk t'" "usersOf t' = insert u {v \<in> usersOf t. us_ID v \<noteq> us_ID u}" using put_users[OF ok1(1) b] ok1(2) t' by simp_all
  show "u = after\<lparr>us_ID := us_ID u\<rparr>" "us_ID after \<noteq> 0 \<Longrightarrow> u = after" using u by auto
  show "\<forall>v\<in>usersOf t. us_ID v \<noteq> us_ID u" if "us_ID after = 0"
  proof -
    have "us_ID v \<in> set (map fst (st_users t))" if "v \<in> usersOf t" for v
      using that assms(1) by (force simp: usersOf_def storeOk_def)
    moreover have "us_ID u = ?i" using u that by simp
    ultimately show ?thesis using f(1) by metis
  qed
qed

text \<open>Sessions belong to enabled users; saving an account keeps it so.\<close>

definition sessionsOk :: "Store \<Rightarrow> bool" where
  "sessionsOk s \<longleftrightarrow> (\<forall>e\<in>set (st_sessions s). \<exists>u\<in>usersOf s. us_ID u = sn_UserID (snd e) \<and> us_Enabled u)"

lemma sessions_save:
  assumes "storeOk t" "SaveAccount after t = (None, u, t')" "us_ID after \<noteq> 0 \<Longrightarrow> \<exists>v\<in>usersOf t. us_ID v = us_ID after" "sessionsOk t"
  shows "sessionsOk t'"
proof -
  have mem: "v \<in> usersOf t' \<longleftrightarrow> v = u \<or> (v \<in> usersOf t \<and> us_ID v \<noteq> us_ID u)" for v using save_account(2)[OF assms(1-3)] by auto
  have ses: "set (st_sessions t') = (if us_Enabled u then set (st_sessions t) else {e \<in> set (st_sessions t). sn_UserID (snd e) \<noteq> us_ID u})"
    using assms(2) by (auto simp: SaveAccount_def Let_def putUser_def dropSessions_def split: if_splits)
  show ?thesis
    unfolding sessionsOk_def
  proof
    fix e
    assume e: "e \<in> set (st_sessions t')"
    then obtain v where v: "v \<in> usersOf t" "us_ID v = sn_UserID (snd e)" "us_Enabled v" using assms(4) ses by (auto simp: sessionsOk_def split: if_splits)
    show "\<exists>w\<in>usersOf t'. us_ID w = sn_UserID (snd e) \<and> us_Enabled w"
    proof (cases "us_ID v = us_ID u")
      case True
      then have "us_Enabled u" using e ses v(2) by (auto split: if_splits)
      then show ?thesis using mem True v(2) by metis
    next
      case False
      then show ?thesis using mem v by blast
    qed
  qed
qed

section \<open>Where permissions come from\<close>

definition sameRights :: "User \<Rightarrow> User \<Rightarrow> bool" where
  "sameRights u v \<longleftrightarrow> us_ID u = us_ID v \<and> us_Role u = us_Role v \<and> us_Permissions u = us_Permissions v"

definition withinRights :: "User \<Rightarrow> User \<Rightarrow> bool" where
  "withinRights actor u \<longleftrightarrow> (us_Role u = ''admin'' \<longrightarrow> covers actor u \<and> (IsFullAdmin u \<longrightarrow> IsFullAdmin actor))"

definition derived :: "User \<Rightarrow> Store \<Rightarrow> Store \<Rightarrow> bool" where
  "derived actor s t \<longleftrightarrow> storeOk t \<and> (\<forall>u\<in>usersOf s. \<exists>v\<in>usersOf t. us_ID v = us_ID u) \<and>
     (\<forall>u\<in>usersOf t. (\<exists>v\<in>usersOf s. sameRights u v) \<or> withinRights actor u)"

definition keepsFull :: "Store \<Rightarrow> Store \<Rightarrow> bool" where
  "keepsFull s t \<longleftrightarrow> ((\<exists>u\<in>usersOf s. activeFull u) \<longrightarrow> (\<exists>u\<in>usersOf t. activeFull u))"

lemma derived_refl: "storeOk s \<Longrightarrow> derived actor s s"
  by (auto simp: derived_def sameRights_def)

lemma rights_same: "us_Role u = us_Role v \<Longrightarrow> us_Permissions u = us_Permissions v \<Longrightarrow> IsFullAdmin u = IsFullAdmin v \<and> HasPermission u k = HasPermission v k"
proof -
  assume a: "us_Role u = us_Role v" "us_Permissions u = us_Permissions v"
  have f: "IsFullAdmin u = IsFullAdmin v" using a by (simp add: IsFullAdmin_def)
  have p: "permissionsOf u = permissionsOf v" using a by (simp add: permissionsOf_def)
  show ?thesis
  proof (cases "IsFullAdmin v")
    case True
    then show ?thesis using f has_full by simp
  next
    case False
    have plain: "HasPermission u c = HasPermission v c" if "legacyPermissions c = None" for c
      using False f p a has_plain[OF _ that] by simp
    show ?thesis
    proof (cases "legacyPermissions k")
      case (Some children)
      have "list_all (HasPermission u) children = list_all (HasPermission v) children"
        using plain legacy_cases[OF Some] by (auto simp: list_all_iff)
      then show ?thesis using False f a has_legacy[OF _ Some] by simp
    qed (use f plain in simp)
  qed
qed

lemma within_same: "us_Role u = us_Role v \<Longrightarrow> us_Permissions u = us_Permissions v \<Longrightarrow> withinRights a u = withinRights a v"
proof -
  assume a: "us_Role u = us_Role v" "us_Permissions u = us_Permissions v"
  have "HasPermission u = HasPermission v" "IsFullAdmin u = IsFullAdmin v" using rights_same[OF a] by auto
  then show ?thesis using a(1) by (simp add: withinRights_def covers_def)
qed

text \<open>Storing an account that keeps its rights or stays within the rights of the actor.\<close>

lemma derived_save:
  assumes d: "derived actor s t" and save: "SaveAccount after t = (None, u, t')"
    and id: "us_ID after \<noteq> 0 \<Longrightarrow> \<exists>v\<in>usersOf s. us_ID v = us_ID after"
    and src: "(\<exists>v\<in>usersOf s. sameRights after v \<and> us_ID after \<noteq> 0) \<or> withinRights actor after"
  shows "derived actor s t'"
proof -
  have ok: "storeOk t" and ids: "\<forall>w\<in>usersOf s. \<exists>v\<in>usersOf t. us_ID v = us_ID w" using d by (auto simp: derived_def)
  have id': "us_ID after \<noteq> 0 \<Longrightarrow> \<exists>v\<in>usersOf t. us_ID v = us_ID after" using id ids by metis
  note sv = save_account[OF ok save id']
  have new: "(\<exists>v\<in>usersOf s. sameRights u v) \<or> withinRights actor u"
  proof (cases "us_ID after = 0")
    case True
    then have "withinRights actor after" using src by auto
    moreover have "us_Role u = us_Role after" "us_Permissions u = us_Permissions after" using sv(3) by (metis User.select_convs(4,8) User.surjective User.update_convs(1))+
    ultimately show ?thesis using within_same by blast
  next
    case False
    then show ?thesis using src sv(4) by auto
  qed
  have mem: "v \<in> usersOf t' \<longleftrightarrow> v = u \<or> (v \<in> usersOf t \<and> us_ID v \<noteq> us_ID u)" for v using sv(2) by auto
  have "\<exists>v\<in>usersOf t'. us_ID v = us_ID w" if "w \<in> usersOf s" for w using ids that mem by metis
  moreover have "(\<exists>v\<in>usersOf s. sameRights w v) \<or> withinRights actor w" if "w \<in> usersOf t'" for w
    using that new d mem by (auto simp: derived_def)
  ultimately show ?thesis using sv(1) by (simp add: derived_def)
qed

section \<open>Editing one account\<close>

lemma input_within:
  assumes "applyAccountInput actor target q = Inl a" "us_Role actor = ''admin''"
  shows "us_ID a = us_ID target" "us_Role a = us_Role target" "us_Enabled a = us_Enabled target" "withinRights actor a" "ai_Role q = us_Role target"
    "us_Username a = us_Username target"
proof -
  have c: "canGrant actor (ai_Permissions q) \<and> us_Permissions a = Some (ExpandPermissions (ai_Permissions q))" if "us_Role a = ''admin''"
    using assms(1) that by (auto simp: applyAccountInput_def split: if_splits)
  show "withinRights actor a"
  proof (cases "us_Role a = ''admin''")
    case True
    then have g: "canGrant actor (ai_Permissions q)" "us_Permissions a = Some (ExpandPermissions (ai_Permissions q))" using c by auto
    have "covers actor a \<and> (IsFullAdmin a \<longrightarrow> IsFullAdmin actor)" by (rule grant_covers[OF g(1) assms(2) True g(2)]) simp
    then show ?thesis by (simp add: withinRights_def)
  qed (simp add: withinRights_def)
qed (use assms(1) in \<open>auto simp: applyAccountInput_def split: if_splits\<close>)

lemma bind_same:
  assumes "bindPreset actor presets before after q = Inl a"
  shows "us_ID a = us_ID after" "us_Role a = us_Role after" "us_Permissions a = us_Permissions after" "us_Enabled a = us_Enabled after"
  using assms by (auto simp: bindPreset_def split: option.splits if_splits)

lemma actor_locked:
  assumes "lockedPresetActor t uid = Some actor"
  shows "actor \<in> usersOf t" "us_ID actor = uid" "us_Role actor = ''admin''"
  using assms administrators_set by (auto simp: lockedPresetActor_def find_Some_iff dest: nth_mem)

lemma draft_cases:
  assumes "draftOf actor (Administrators t) actorID draft q = Inl (before, base)"
  obtains (new) "us_ID draft = 0" "before = zeroUser" "base = draft"
  | (old) "us_ID draft \<noteq> 0" "base = before" "before \<in> usersOf t" "us_ID before = us_ID draft" "us_Role before = ''admin''"
proof (cases "us_ID draft = 0")
  case False
  then have l: "lockedTarget actor (Administrators t) actorID draft q = Inl before" "base = before"
    using assms by (auto simp: draftOf_def split: sum.splits)
  then have "find (\<lambda>u. us_ID u = us_ID draft) (Administrators t) = Some before" by (auto simp: lockedTarget_def Let_def split: option.splits if_splits)
  then have "before \<in> set (Administrators t)" "us_ID before = us_ID draft" by (auto simp: find_Some_iff)
  then show thesis using old False l(2) administrators_set by auto
next
  case True
  then have "before = zeroUser" "base = draft" using assms by (simp_all add: draftOf_def)
  then show thesis using new True by blast
qed

lemma full_count: "length (filter P xs) > 1 \<Longrightarrow> distinct (map f xs) \<Longrightarrow> \<exists>y\<in>set xs. P y \<and> f y \<noteq> f x"
proof -
  assume l: "length (filter P xs) > 1" and d: "distinct (map f xs)"
  then obtain a b ys where ab: "filter P xs = a # b # ys" by (metis One_nat_def length_0_conv length_Cons less_numeral_extra(4) list.exhaust not_less_zero)
  have "distinct (map f (filter P xs))" using d by (rule distinct_map_filter)
  then have "f a \<noteq> f b" using ab by simp
  moreover have "a \<in> set xs \<and> P a \<and> b \<in> set xs \<and> P b" using arg_cong[OF ab, of set] by auto
  ultimately show ?thesis by metis
qed

lemma save_administrator:
  assumes ok: "storeOk t" and tx: "saveAdministratorTx actorID draft q now t = (None, t')"
  obtains actor where "actor \<in> usersOf t" "us_ID actor = actorID" "us_Role actor = ''admin''" "derived actor t t'" "keepsFull t t'" "sessionsOk t \<longrightarrow> sessionsOk t'"
proof -
  obtain actor where a: "lockedPresetActor t actorID = Some actor" using tx by (auto simp: saveAdministratorTx_def split: option.splits)
  note al = actor_locked[OF a]
  obtain before base where d: "draftOf actor (Administrators t) actorID draft q = Inl (before, base)"
    using tx a by (auto simp: saveAdministratorTx_def split: option.splits sum.splits)
  obtain a0 where a0: "applyAccountInput actor base q = Inl a0"
    using tx a d by (auto simp: saveAdministratorTx_def split: option.splits sum.splits)
  define a1 where "a1 = a0\<lparr>us_Enabled := (if us_ID draft \<noteq> 0 then ai_Enabled q else us_Enabled a0), us_UpdatedAt := now\<rparr>"
  obtain a2 where a2: "bindPreset actor (Presets t) before a1 q = Inl a2"
    using tx a d a0 by (auto simp: saveAdministratorTx_def a1_def Let_def split: option.splits sum.splits)
  define after where "after = (if IsFullAdmin a2 then a2\<lparr>us_PermissionPresetID := 0\<rparr> else a2)"
  have tx': "(if activeFull before \<and> \<not> activeFull after \<and> length (filter activeFull (Administrators t)) \<le> 1 then (Some LastFullAdmin, t)
      else case SaveAccount after t of (e, u, t') \<Rightarrow> (e, t')) = (None, t')"
    using tx unfolding saveAdministratorTx_def by (simp add: a d a0 a2[unfolded a1_def] after_def[symmetric] Let_def)
  then obtain u where sv: "SaveAccount after t = (None, u, t')"
    and guard: "\<not> (activeFull before \<and> \<not> activeFull after \<and> length (filter activeFull (Administrators t)) \<le> 1)"
    by (auto split: if_splits prod.splits)
  have same: "us_ID after = us_ID base" "us_Role after = us_Role base" "us_Permissions after = us_Permissions a0"
    using input_within(1,2)[OF a0 al(3)] bind_same[OF a2] by (simp_all add: after_def a1_def)
  have w: "withinRights actor after"
    using input_within(2,4)[OF a0 al(3)] within_same[of after a0 actor] same by simp
  have ids: "us_ID after \<noteq> 0 \<Longrightarrow> \<exists>v\<in>usersOf t. us_ID v = us_ID after"
    using d by (cases rule: draft_cases) (auto simp: same)
  note s = save_account[OF ok sv ids]
  have mem: "v \<in> usersOf t' \<longleftrightarrow> v = u \<or> (v \<in> usersOf t \<and> us_ID v \<noteq> us_ID u)" for v using s(2) by auto
  have "keepsFull t t'"
    unfolding keepsFull_def
  proof
    assume "\<exists>v\<in>usersOf t. activeFull v"
    then obtain v where v: "v \<in> usersOf t" "activeFull v" by blast
    show "\<exists>v\<in>usersOf t'. activeFull v"
      using d
    proof (cases rule: draft_cases)
      case new
      then have "us_ID v \<noteq> us_ID u" using s(5) same v(1) by simp
      then show ?thesis using v mem by blast
    next
      case old
      then have u: "u = after" using s(4) same by simp
      show ?thesis
      proof (cases "v = before \<and> \<not> activeFull after")
        case True
        then have "length (filter activeFull (Administrators t)) > 1" using guard v(2) by simp
        then obtain y where "y \<in> set (Administrators t)" "activeFull y" "us_ID y \<noteq> us_ID before"
          using full_count administrators_distinct[OF ok] by metis
        then show ?thesis using mem administrators_set u same(1) old(2) by auto
      next
        case False
        then show ?thesis using mem v u same(1) old users_unique[OF ok v(1) old(3)] by metis
      qed
    qed
  qed
  moreover have "derived actor t t'" using derived_save[OF derived_refl[OF ok] sv ids] w by blast
  moreover have "sessionsOk t \<longrightarrow> sessionsOk t'" using sessions_save[OF ok sv ids] by blast
  ultimately show thesis using that[OF al] by blast
qed

end
