(* ===== verification/AccountProperties.thy ===== *)
theory AccountProperties
  imports AccountProofs
begin

text \<open>
  Every account and preset operation as a step of the store, and what holds over any sequence of them: nobody
  gains a permission that no editor held, the last full administrator stays, and a disabled account has no session.
\<close>

section \<open>Batches\<close>

definition evolves :: "User \<Rightarrow> Store \<Rightarrow> Store \<Rightarrow> bool" where
  "evolves actor s t \<longleftrightarrow> derived actor s t \<and> (sessionsOk s \<longrightarrow> sessionsOk t) \<and>
     (\<forall>v\<in>usersOf s. activeFull v \<longrightarrow> (\<exists>v'\<in>usersOf t. us_ID v' = us_ID v \<and> activeFull v'))"

lemma evolves_refl: "storeOk s \<Longrightarrow> evolves actor s s"
  by (auto simp: evolves_def derived_refl)

lemma evolves_full: "evolves actor s t \<Longrightarrow> keepsFull s t"
  by (auto simp: evolves_def keepsFull_def)

lemma users_frame: "st_users t' = st_users t \<Longrightarrow> st_nextUserID t' = st_nextUserID t \<Longrightarrow> usersOf t' = usersOf t \<and> storeOk t' = storeOk t"
  by (simp add: usersOf_def storeOk_def)

lemma evolves_frame:
  "st_users t' = st_users t \<Longrightarrow> st_nextUserID t' = st_nextUserID t \<Longrightarrow> st_sessions t' = st_sessions t \<Longrightarrow> evolves actor s t' = evolves actor s t"
  using users_frame[of t' t] by (simp add: evolves_def derived_def sessionsOk_def)

lemma audit_frame:
  "insertPresetAudit E audit t = (None, t') \<Longrightarrow> st_users t' = st_users t \<and> st_nextUserID t' = st_nextUserID t \<and> st_sessions t' = st_sessions t"
  by (auto simp: insertPresetAudit_def split: if_splits)

lemma preset_frame:
  "st_users (snd (SavePreset p t)) = st_users t" "st_nextUserID (snd (SavePreset p t)) = st_nextUserID t" "st_sessions (snd (SavePreset p t)) = st_sessions t"
  "st_users (DeletePreset i t) = st_users t" "st_nextUserID (DeletePreset i t) = st_nextUserID t" "st_sessions (DeletePreset i t) = st_sessions t"
  by (simp_all add: SavePreset_def DeletePreset_def Let_def)

definition goodSave :: "User \<Rightarrow> User \<Rightarrow> User \<Rightarrow> bool" where
  "goodSave actor u a \<longleftrightarrow> us_ID a = us_ID u \<and> us_Enabled a = us_Enabled u \<and> (sameRights a u \<or> withinRights actor a) \<and> (activeFull u \<longrightarrow> activeFull a)"

lemma save_audited:
  assumes "storeOk s" "evolves actor s t" "saveAudited E a t = (None, t')" "u \<in> usersOf s" "goodSave actor u a"
  shows "evolves actor s t'"
proof -
  obtain x t1 where sv: "SaveAccount a t = (None, x, t1)" and fr: "st_users t' = st_users t1" "st_nextUserID t' = st_nextUserID t1" "st_sessions t' = st_sessions t1"
    using assms(3) audit_frame by (auto simp: saveAudited_def split: prod.splits option.splits)
  have id: "us_ID a = us_ID u" "us_ID a \<noteq> 0" using assms(5) users_ids[OF assms(1,4)] by (auto simp: goodSave_def)
  have d: "derived actor s t1"
    using assms(2,4,5) id by (intro derived_save[OF _ sv]) (auto simp: evolves_def goodSave_def)
  have okt: "storeOk t" and ids: "\<exists>v\<in>usersOf t. us_ID v = us_ID a" using assms(2,4) id(1) by (auto simp: evolves_def derived_def)
  have sa: "usersOf t1 = insert x {v \<in> usersOf t. us_ID v \<noteq> us_ID x}" "x = a" using save_account(2,4)[OF okt sv ids] id(2) by simp_all
  have "\<exists>v'\<in>usersOf t1. us_ID v' = us_ID v \<and> activeFull v'" if v: "v \<in> usersOf s" "activeFull v" for v
  proof (cases "us_ID v = us_ID u")
    case True
    then have "v = u" using users_unique[OF assms(1) v(1) assms(4)] by blast
    then show ?thesis using sa id(1) assms(5) v(2) by (auto simp: goodSave_def)
  next
    case False
    then show ?thesis using assms(2) v sa id(1) by (fastforce simp: evolves_def)
  qed
  moreover have "sessionsOk s \<longrightarrow> sessionsOk t1" using sessions_save[OF okt sv ids] assms(2) by (simp add: evolves_def)
  ultimately have "evolves actor s t1" using d by (simp add: evolves_def)
  then show ?thesis using evolves_frame[OF fr] by simp
qed

lemma save_all:
  assumes "storeOk s"
  shows "evolves actor s t \<Longrightarrow> saveAll E body us t = (None, t') \<Longrightarrow> set us \<subseteq> usersOf s \<Longrightarrow>
    (\<And>u a. u \<in> set us \<Longrightarrow> body u = Save a \<Longrightarrow> goodSave actor u a) \<Longrightarrow> evolves actor s t'"
proof (induction us arbitrary: t)
  case (Cons u us)
  have rest: "evolves actor s t1 \<Longrightarrow> saveAll E body us t1 = (None, t') \<Longrightarrow> evolves actor s t'" for t1
    using Cons.IH[of t1] Cons.prems(3,4) by simp
  show ?case
  proof (cases "body u")
    case Skip
    then show ?thesis using rest Cons.prems(1,2) by simp
  next
    case (Save a)
    then obtain t1 where t1: "saveAudited E a t = (None, t1)" "saveAll E body us t1 = (None, t')"
      using Cons.prems(2) by (auto split: prod.splits option.splits)
    have "evolves actor s t1" using save_audited[OF assms Cons.prems(1) t1(1), of u] Cons.prems(3,4) Save by simp
    then show ?thesis using rest t1(2) by blast
  qed (use Cons.prems(2) in simp)
qed simp

lemma good_unbind: "unbindUser actor pid now u = Save a \<Longrightarrow> goodSave actor u a"
  by (auto simp: unbindUser_def goodSave_def sameRights_def activeFull_def IsFullAdmin_def split: if_splits)

lemma within_grant:
  assumes "canGrant actor ps" "us_Role actor = ''admin''" "us_Permissions a = Some qs" "set (ExpandPermissions qs) \<subseteq> set (ExpandPermissions ps)"
  shows "withinRights actor a"
  using grant_covers[OF assms(1,2) _ assms(3,4)] by (simp add: withinRights_def)

lemma good_sync:
  assumes "syncUser actor pid added now u = Save a" "us_Role actor = ''admin''"
  shows "goodSave actor u a"
proof -
  let ?ps = "ExpandPermissions (permissionsOf u @ added)"
  have c: "canGrant actor ?ps" "a = u\<lparr>us_Permissions := Some ?ps, us_UpdatedAt := now\<rparr>" "\<not> IsFullAdmin u"
    using assms(1) by (auto simp: syncUser_def Let_def split: if_splits)
  then have "us_Permissions a = Some ?ps" by simp
  then have "withinRights actor a" by (rule within_grant[OF c(1) assms(2)]) (rule subset_refl)
  then show ?thesis using c by (simp add: goodSave_def activeFull_def)
qed

lemma good_apply:
  assumes "applyUser actor preset q now u = Save a" "us_Role actor = ''admin''" "applyTargetError actor q u = None"
  shows "goodSave actor u a"
proof -
  obtain ps where c: "canGrant actor ps" "us_Permissions a = Some (sort ps)" "us_ID a = us_ID u" "us_Enabled a = us_Enabled u" "us_ID u \<in> set (pa_UserIDs q)"
    using assms(1) by (auto simp: applyUser_def Let_def split: if_splits)
  have "\<not> IsFullAdmin u" using assms(3) c(5) by (auto simp: applyTargetError_def split: if_splits)
  moreover have "withinRights actor a" by (rule within_grant[OF c(1) assms(2) c(2)]) (simp add: expand_set)
  ultimately show ?thesis using c by (simp add: goodSave_def activeFull_def)
qed

lemma firstError_none: "firstError f xs = None \<Longrightarrow> x \<in> set xs \<Longrightarrow> f x = None"
  by (induction xs) (auto split: option.splits)

section \<open>Preset transactions\<close>

lemma create_preset:
  assumes "storeOk t" "createPresetTx E actorID q now t = (None, t')"
  obtains actor where "actor \<in> usersOf t" "us_ID actor = actorID" "us_Role actor = ''admin''" "evolves actor t t'"
proof -
  obtain actor where a: "lockedPresetActor t actorID = Some actor" using assms(2) by (auto simp: createPresetTx_def split: option.splits)
  obtain p where "insertPresetAudit E (''auth.permission_preset_create'', ''permission_preset'', pp_ID (fst (SavePreset p t))) (snd (SavePreset p t)) = (None, t')"
    using assms(2) a by (auto simp: createPresetTx_def Let_def case_prod_beta split: sum.splits if_splits)
  then have "st_users t' = st_users t \<and> st_nextUserID t' = st_nextUserID t \<and> st_sessions t' = st_sessions t" using audit_frame preset_frame by metis
  then have "evolves actor t t'" using evolves_refl[OF assms(1)] evolves_frame by blast
  then show thesis using that actor_locked[OF a] by blast
qed

lemma administrators_users: "set (Administrators t) \<subseteq> usersOf t"
  by (auto simp: administrators_set)

lemma delete_preset:
  assumes "storeOk t" "deletePresetTx E actor pid now t = (None, t')"
  shows "evolves actor t t'"
proof -
  obtain t1 where t1: "saveAll E (unbindUser actor pid now) (Administrators t) t = (None, t1)"
    and au: "insertPresetAudit E (''auth.permission_preset_delete'', ''permission_preset'', pid) (DeletePreset pid t1) = (None, t')"
    using assms(2) by (auto simp: deletePresetTx_def split: prod.splits option.splits)
  have "evolves actor t t1" by (rule save_all[OF assms(1) evolves_refl[OF assms(1)] t1 administrators_users]) (rule good_unbind)
  moreover have "st_users t' = st_users t1 \<and> st_nextUserID t' = st_nextUserID t1 \<and> st_sessions t' = st_sessions t1" using audit_frame[OF au] by (simp add: preset_frame)
  ultimately show ?thesis using evolves_frame by blast
qed

lemma edit_preset:
  assumes "storeOk t" "editPresetTx E actor pid q before now t = (None, t')" "us_Role actor = ''admin''"
  shows "evolves actor t t'"
proof -
  obtain p added t2 where t2: "saveAll E (syncUser actor pid added now) (Administrators t) (snd (SavePreset p t)) = (None, t2)"
    and au: "insertPresetAudit E (''auth.permission_preset_update'', ''permission_preset'', pid) t2 = (None, t')"
    using assms(2) by (auto simp: editPresetTx_def Let_def case_prod_beta prod_eq_iff split: sum.splits if_splits option.splits)
  have "evolves actor t (snd (SavePreset p t))" using evolves_refl[OF assms(1)] evolves_frame preset_frame by metis
  then have "evolves actor t t2" by (rule save_all[OF assms(1) _ t2 administrators_users]) (rule good_sync[OF _ assms(3)])
  then show ?thesis using evolves_frame audit_frame[OF au] by blast
qed

lemma preset_tx:
  assumes "storeOk t" "presetTx E deleting actorID pid q now t = (None, t')"
  obtains actor where "actor \<in> usersOf t" "us_ID actor = actorID" "us_Role actor = ''admin''" "evolves actor t t'"
proof -
  obtain actor where a: "lockedPresetActor t actorID = Some actor" using assms(2) by (auto simp: presetTx_def split: option.splits)
  obtain before where "(if deleting then deletePresetTx E actor pid now t else editPresetTx E actor pid q before now t) = (None, t')"
    using assms(2) a by (auto simp: presetTx_def split: sum.splits if_splits)
  then have "evolves actor t t'"
    using delete_preset[OF assms(1)] edit_preset[OF assms(1)] actor_locked(3)[OF a] by (auto split: if_splits)
  then show thesis using that actor_locked[OF a] by blast
qed

lemma apply_tx:
  assumes "storeOk t" "applyPresetTx E actorID pid q now t = (None, t')"
  obtains actor where "actor \<in> usersOf t" "us_ID actor = actorID" "us_Role actor = ''admin''" "evolves actor t t'"
proof -
  obtain actor where a: "lockedPresetActor t actorID = Some actor" using assms(2) by (auto simp: applyPresetTx_def split: option.splits)
  obtain preset where sv: "saveAll E (applyUser actor preset q now) (Administrators t) t = (None, t')"
    and fe: "firstError (applyTargetError actor q) (Administrators t) = None"
    using assms(2) a by (auto simp: applyPresetTx_def split: sum.splits if_splits option.splits)
  have "evolves actor t t'"
    by (rule save_all[OF assms(1) evolves_refl[OF assms(1)] sv administrators_users])
      (rule good_apply[OF _ actor_locked(3)[OF a] firstError_none[OF fe]])
  then show thesis using that actor_locked[OF a] by blast
qed

section \<open>Operations\<close>

definition opOk :: "int64 \<Rightarrow> Store \<Rightarrow> Store \<Rightarrow> bool" where
  "opOk actorID s t \<longleftrightarrow> t = s \<or>
     (\<exists>actor\<in>usersOf s. us_ID actor = actorID \<and> us_Role actor = ''admin'' \<and> derived actor s t \<and> keepsFull s t \<and> (sessionsOk s \<longrightarrow> sessionsOk t))"

lemma tx_cases:
  assumes "\<And>t'. apply s = (None, t') \<Longrightarrow> opOk a s t'"
  shows "opOk a s (snd (WithPermissionPresetTransaction E apply s))"
  using assms by (auto simp: WithPermissionPresetTransaction_def opOk_def[of a s s] split: prod.splits option.splits)

lemma op_evolves: "actor \<in> usersOf s \<Longrightarrow> us_ID actor = a \<Longrightarrow> us_Role actor = ''admin'' \<Longrightarrow> evolves actor s t \<Longrightarrow> opOk a s t"
  using evolves_full by (auto simp: opOk_def evolves_def)

lemma op_save: "storeOk s \<Longrightarrow> saveAdministratorTx a draft q now s = (None, t) \<Longrightarrow> opOk a s t"
  by (erule (1) save_administrator) (auto simp: opOk_def)

lemma op_presets:
  assumes "storeOk s"
  shows "opOk a s (snd (CreatePreset E a pq now s))" "opOk a s (snd (EditPreset E deleting a pid pq now s))" "opOk a s (snd (ApplyPreset E a pid aq now s))"
proof -
  show "opOk a s (snd (CreatePreset E a pq now s))" unfolding CreatePreset_def
    by (rule tx_cases, erule create_preset[OF assms], rule op_evolves)
  have "opOk a s (snd (WithPermissionPresetTransaction E (presetTx E deleting a pid pq now) s))"
    by (rule tx_cases, erule preset_tx[OF assms], rule op_evolves)
  then show "opOk a s (snd (EditPreset E deleting a pid pq now s))" by (simp add: EditPreset_def opOk_def[of a s s])
  have "opOk a s (snd (WithPermissionPresetTransaction E (applyPresetTx E a pid aq now) s))"
    by (rule tx_cases, erule apply_tx[OF assms], rule op_evolves)
  then show "opOk a s (snd (ApplyPreset E a pid aq now s))" by (simp add: ApplyPreset_def opOk_def[of a s s])
qed

lemma actor_stored:
  assumes "storeOk s" "accountActor a s = Some actor"
  shows "actor \<in> usersOf s" "us_ID actor = a" "us_Role actor = ''admin''"
proof -
  have a: "map_of (st_users s) a = Some actor" "HasPermission actor ''accounts.manage''"
    using assms(2) by (simp_all add: accountActor_def UserByID_def split: option.splits if_splits)
  then show "actor \<in> usersOf s" "us_ID actor = a" "us_Role actor = ''admin''" using users_look[OF assms(1)] has_admin by blast+
qed

text \<open>Saving through the plain user operations: a viewer, or an account nobody held before.\<close>

lemma op_put:
  assumes ok: "storeOk s" and w: "withinRights actor u" "\<not> activeFull u" and a: "actor \<in> usersOf s" "us_ID actor = a" "us_Role actor = ''admin''"
    and b: "0 < us_ID u" "us_ID u < st_nextUserID s1" and s1: "st_users s1 = st_users s" "st_nextUserID s \<le> st_nextUserID s1" "st_sessions s1 = st_sessions s"
    and old: "\<forall>v\<in>usersOf s. us_ID v = us_ID u \<longrightarrow> \<not> activeFull v"
    and t: "t = (if us_Enabled u then putUser u s1 else dropSessions (us_ID u) (putUser u s1))"
  shows "opOk a s t"
proof -
  have ok1: "storeOk s1" "usersOf s1 = usersOf s" using ok s1 by (auto simp: storeOk_def usersOf_def)
  have ut: "usersOf t = usersOf (putUser u s1)" "storeOk t = storeOk (putUser u s1)" using t by auto
  have mem: "v \<in> usersOf t \<longleftrightarrow> v = u \<or> (v \<in> usersOf s \<and> us_ID v \<noteq> us_ID u)" for v using put_users(2)[OF ok1(1) b] ok1(2) ut by auto
  have "derived actor s t" unfolding derived_def
  proof (intro conjI ballI)
    show "storeOk t" using put_users(1)[OF ok1(1) b] ut by simp
    show "\<exists>v\<in>usersOf t. us_ID v = us_ID x" if "x \<in> usersOf s" for x using that mem by metis
    show "(\<exists>v\<in>usersOf s. sameRights x v) \<or> withinRights actor x" if "x \<in> usersOf t" for x using that mem w(1) by (auto simp: sameRights_def)
  qed
  moreover have "keepsFull s t" using mem old by (auto simp: keepsFull_def)
  moreover have "sessionsOk t" if so: "sessionsOk s"
    unfolding sessionsOk_def
  proof
    fix e
    assume e: "e \<in> set (st_sessions t)"
    then have "e \<in> set (st_sessions s)" using t s1(3) by (auto simp: putUser_def dropSessions_def split: if_splits)
    then obtain v where v: "v \<in> usersOf s" "us_ID v = sn_UserID (snd e)" "us_Enabled v" using so unfolding sessionsOk_def by blast
    have "us_Enabled u" if "us_ID u = sn_UserID (snd e)" using e t that by (auto simp: dropSessions_def split: if_splits)
    then show "\<exists>x\<in>usersOf t. us_ID x = sn_UserID (snd e) \<and> us_Enabled x" using mem v by metis
  qed
  ultimately show ?thesis using a by (auto simp: opOk_def)
qed

lemma op_create:
  assumes "storeOk s"
  shows "opOk a s (snd (CreateAccount E a q now s))"
proof (cases "accountActor a s")
  case None
  then show ?thesis by (simp add: CreateAccount_def opOk_def)
next
  case (Some actor)
  note ac = actor_stored[OF assms Some]
  let ?base = "zeroUser\<lparr>us_Username := trimSpace (ai_Username q), us_Role := ai_Role q, us_Enabled := True, us_CreatedAt := now, us_UpdatedAt := now\<rparr>"
  have tx: "opOk a s (snd (WithPermissionPresetTransaction E (saveAdministratorTx a v q now) s))" for v
    by (rule tx_cases) (rule op_save[OF assms])
  have plain: "opOk a s (CreateUser (u\<lparr>us_PasswordHash := h\<rparr>) s)" if u: "applyAccountInput actor ?base q = Inl u" "ai_Role q \<noteq> ''admin''" for u h
  proof -
    note i = input_within[OF u(1) ac(3)]
    let ?u = "u\<lparr>us_PasswordHash := h, us_ID := st_nextUserID s\<rparr>" and ?s = "s\<lparr>st_nextUserID := st_nextUserID s + 1\<rparr>"
    have "0 < st_nextUserID s" using ac(1) users_ids[OF assms] by fastforce
    moreover have "\<not> activeFull ?u" using i(2) u(2) by (simp add: activeFull_def IsFullAdmin_def)
    moreover have "withinRights actor ?u" using i(2,4) u(2) by (simp add: withinRights_def)
    moreover have "\<forall>v\<in>usersOf s. us_ID v = us_ID ?u \<longrightarrow> \<not> activeFull v" using users_ids[OF assms] by fastforce
    moreover have "us_Enabled ?u" using i(3) by simp
    ultimately have "opOk a s (putUser ?u ?s)" by (intro op_put[OF assms _ _ ac, of ?u ?s]) simp_all
    then show ?thesis using i(1) by (simp add: CreateUser_def zeroUser_def)
  qed
  show ?thesis using tx plain
    by (auto simp: CreateAccount_def Some Let_def opOk_def[of a s s] split: sum.splits option.splits)
qed

lemma op_update:
  assumes "storeOk s"
  shows "opOk a s (snd (UpdateAccount E a target q now s))"
proof (cases "accountActor a s")
  case None
  then show ?thesis by (simp add: UpdateAccount_def opOk_def)
next
  case (Some actor)
  note ac = actor_stored[OF assms Some]
  have tx: "opOk a s (snd (WithPermissionPresetTransaction E (saveAdministratorTx a v q now) s))" for v
    by (rule tx_cases) (rule op_save[OF assms])
  have plain: "opOk a s (snd (UpdateUser (u\<lparr>us_Enabled := on, us_UpdatedAt := now\<rparr>) s))"
    if u: "applyAccountInput actor before q = Inl u" "us_Role before \<noteq> ''admin''" "map_of (st_users s) target = Some before" for u before on
  proof -
    note i = input_within[OF u(1) ac(3)]
    let ?u = "u\<lparr>us_Enabled := on, us_UpdatedAt := now\<rparr>"
    have b: "before \<in> usersOf s" "us_ID before = target" using u(3) users_look[OF assms] by blast+
    have x: "map_of (st_users s) (us_ID ?u) = Some before" "\<not> activeFull before" using i(1) b(2) u(2,3) by (simp_all add: activeFull_def IsFullAdmin_def)
    have "\<not> activeFull ?u" using i(2) u(2) by (simp add: activeFull_def IsFullAdmin_def)
    moreover have "withinRights actor ?u" using i(2,4) u(2) by (simp add: withinRights_def)
    moreover have "\<forall>v\<in>usersOf s. us_ID v = us_ID ?u \<longrightarrow> \<not> activeFull v"
      using users_unique[OF assms _ b(1)] i(1) x(2) by auto
    ultimately show ?thesis using users_ids[OF assms b(1)] i(1) x
      by (intro op_put[OF assms _ _ ac, of ?u s]) (simp_all add: UpdateUser_def)
  qed
  show ?thesis using tx plain
    by (auto simp: UpdateAccount_def Some Let_def UserByID_def opOk_def[of a s s] split: sum.splits option.splits)
qed

text \<open>A new password leaves every right as it is.\<close>

lemma reset_rights:
  assumes ok: "storeOk s" and x: "map_of (st_users s) target = Some u"
  shows "derived actor s (ResetUserPassword target h now s)" "keepsFull s (ResetUserPassword target h now s)"
    "sessionsOk s \<longrightarrow> sessionsOk (ResetUserPassword target h now s)"
    "\<forall>w\<in>usersOf (ResetUserPassword target h now s). \<exists>v\<in>usersOf s. sameRights w v"
proof -
  let ?u = "u\<lparr>us_PasswordHash := h, us_UpdatedAt := now\<rparr>"
  have u: "u \<in> usersOf s" "us_ID u = target" using x users_look[OF ok] by blast+
  have t: "ResetUserPassword target h now s = dropSessions target (putUser ?u s)" using x u(2) by (simp add: ResetUserPassword_def putUser_def)
  have p: "storeOk (putUser ?u s)" "usersOf (putUser ?u s) = insert ?u {v \<in> usersOf s. us_ID v \<noteq> us_ID u}"
    using put_users[OF ok, of ?u] users_ids[OF ok u(1)] by simp_all
  have mem: "v \<in> usersOf (putUser ?u s) \<longleftrightarrow> v = ?u \<or> (v \<in> usersOf s \<and> us_ID v \<noteq> us_ID u)" for v using p(2) by auto
  have same: "sameRights ?u u" "activeFull ?u = activeFull u" by (simp_all add: sameRights_def activeFull_def IsFullAdmin_def)
  have rights: "\<exists>v\<in>usersOf s. sameRights w v" if "w \<in> usersOf (putUser ?u s)" for w
    using that mem same(1) u(1) by (auto simp: sameRights_def)
  then show "\<forall>w\<in>usersOf (ResetUserPassword target h now s). \<exists>v\<in>usersOf s. sameRights w v" by (simp add: t)
  have "\<exists>v\<in>usersOf (putUser ?u s). us_ID v = us_ID w" if "w \<in> usersOf s" for w
    by (rule bexI[of _ "if us_ID w = us_ID u then ?u else w"]) (use that mem in simp_all)
  then show "derived actor s (ResetUserPassword target h now s)" using p(1) rights by (simp add: derived_def t)
  show "keepsFull s (ResetUserPassword target h now s)"
    using mem same(2) users_unique[OF ok _ u(1)] unfolding keepsFull_def t drop_sessions_simps by metis
  show "sessionsOk s \<longrightarrow> sessionsOk (ResetUserPassword target h now s)"
    unfolding t sessionsOk_def[of "dropSessions target (putUser ?u s)"]
  proof (intro impI ballI)
    fix e
    assume so: "sessionsOk s" and "e \<in> set (st_sessions (dropSessions target (putUser ?u s)))"
    then have e: "e \<in> set (st_sessions s)" "sn_UserID (snd e) \<noteq> us_ID u" using u(2) by (auto simp: dropSessions_def putUser_def)
    then obtain v where "v \<in> usersOf s" "us_ID v = sn_UserID (snd e)" "us_Enabled v" using so unfolding sessionsOk_def by blast
    then show "\<exists>w\<in>usersOf (dropSessions target (putUser ?u s)). us_ID w = sn_UserID (snd e) \<and> us_Enabled w" using mem e(2) by auto
  qed
qed

lemma op_reset:
  assumes "storeOk s"
  shows "opOk a s (fst (snd (ResetAccountPassword E a target pw now (s, m))))"
proof (cases "accountActor a s")
  case None
  then show ?thesis by (simp add: ResetAccountPassword_def opOk_def)
next
  case (Some actor)
  note ac = actor_stored[OF assms Some]
  have "opOk a s (ResetUserPassword target h now s)" if x: "map_of (st_users s) target = Some u" for u h
    using reset_rights[OF assms x] ac unfolding opOk_def by blast
  then show ?thesis
    by (auto simp: ResetAccountPassword_def Some Let_def UserByID_def opOk_def[of a s s] split: option.splits)
qed

lemma change_password:
  "snd (ChangePassword E verify uid old new now s) = s \<or>
   (\<exists>u h. map_of (st_users s) uid = Some u \<and> snd (ChangePassword E verify uid old new now s) = ResetUserPassword uid h now s)"
  by (auto simp: ChangePassword_def UserByID_def split: option.splits)

section \<open>Runs\<close>

inductive accountStep :: "int64 \<Rightarrow> Store \<Rightarrow> Store \<Rightarrow> bool" where
  created: "accountStep a s (snd (CreateAccount E a q now s))"
| updated: "accountStep a s (snd (UpdateAccount E a target q now s))"
| reset: "accountStep a s (fst (snd (ResetAccountPassword E a target pw now (s, m))))"
| presetCreated: "accountStep a s (snd (CreatePreset E a pq now s))"
| presetEdited: "accountStep a s (snd (EditPreset E deleting a pid pq now s))"
| presetApplied: "accountStep a s (snd (ApplyPreset E a pid aq now s))"

text \<open>Logging in against this store, logging out and expiry.\<close>

inductive sessionStep :: "Store \<Rightarrow> Store \<Rightarrow> bool" where
  loggedIn: "le_UserByUsername E = (\<lambda>n. Some (UserByUsername n s)) \<Longrightarrow> Login E name p now m = (Inl (u, v), m') \<Longrightarrow> sessionStep s (CreateSession v s)"
| loggedOut: "sessionStep s (DeleteSession sid s)"
| expired: "sessionStep s (DeleteExpiredSessions now s)"

text \<open>Runs in which every acting account satisfies a condition at the time it acts.\<close>

inductive authRun :: "(User \<Rightarrow> bool) \<Rightarrow> Store \<Rightarrow> Store \<Rightarrow> bool" for P where
  refl: "authRun P s s"
| account: "authRun P s t \<Longrightarrow> accountStep a t u \<Longrightarrow> (\<And>actor. actor \<in> usersOf t \<Longrightarrow> us_ID actor = a \<Longrightarrow> P actor) \<Longrightarrow> authRun P s u"
| session: "authRun P s t \<Longrightarrow> sessionStep t u \<Longrightarrow> authRun P s u"
| password: "authRun P s t \<Longrightarrow> authRun P s (snd (ChangePassword E verify uid old new now t))"

lemma password_step:
  assumes "storeOk s" "t = snd (ChangePassword E verify uid old new now s)"
  shows "storeOk t" "keepsFull s t" "sessionsOk s \<longrightarrow> sessionsOk t" "\<forall>w\<in>usersOf t. \<exists>v\<in>usersOf s. sameRights w v"
proof -
  have "storeOk t \<and> keepsFull s t \<and> (sessionsOk s \<longrightarrow> sessionsOk t) \<and> (\<forall>w\<in>usersOf t. \<exists>v\<in>usersOf s. sameRights w v)"
  proof (cases "t = s")
    case True
    then show ?thesis using assms(1) by (auto simp: keepsFull_def sameRights_def)
  next
    case False
    then obtain u h where "map_of (st_users s) uid = Some u" "t = ResetUserPassword uid h now s"
      using change_password[of E verify uid old new now s] assms(2) by auto
    then show ?thesis using reset_rights[OF assms(1)] unfolding derived_def by metis
  qed
  then show "storeOk t" "keepsFull s t" "sessionsOk s \<longrightarrow> sessionsOk t" "\<forall>w\<in>usersOf t. \<exists>v\<in>usersOf s. sameRights w v" by blast+
qed

lemma account_step: "accountStep a s t \<Longrightarrow> storeOk s \<Longrightarrow> opOk a s t"
  by (induction rule: accountStep.induct) (simp_all add: op_create op_update op_reset op_presets)

lemma op_store: "opOk a s t \<Longrightarrow> storeOk s \<Longrightarrow> storeOk t"
  by (auto simp: opOk_def derived_def)

lemma find_user: "UserByUsername n s = Some u \<Longrightarrow> u \<in> usersOf s"
  by (auto simp: UserByUsername_def usersOf_def find_Some_iff intro!: imageI nth_mem)

lemma login_user:
  assumes "Login E name p now m = (Inl (u, v), m')"
  shows "le_UserByUsername E name = Some (Some u)" "us_Enabled u" "sn_UserID v = us_ID u"
  using assms by (auto simp: Login_def Let_def split: if_splits prod.splits bool.splits option.splits)

lemma session_step:
  assumes "sessionStep s t" "storeOk s"
  shows "usersOf t = usersOf s" "storeOk t" "sessionsOk s \<longrightarrow> sessionsOk t"
proof -
  show u: "usersOf t = usersOf s" "storeOk t"
    using assms by (induction rule: sessionStep.induct) (auto simp: CreateSession_def DeleteSession_def DeleteExpiredSessions_def usersOf_def storeOk_def)
  show "sessionsOk s \<longrightarrow> sessionsOk t"
    using assms(1)
  proof (induction rule: sessionStep.induct)
    case (loggedIn E s name p now m u v m')
    have "u \<in> usersOf s" "us_Enabled u" "sn_UserID v = us_ID u" using login_user[OF loggedIn(2)] loggedIn(1) find_user by auto
    moreover have "usersOf (CreateSession v s) = usersOf s" by (simp add: CreateSession_def usersOf_def)
    moreover have "set (st_sessions (CreateSession v s)) \<subseteq> insert (sn_ID v, v) (set (st_sessions s))" using update_set by (simp add: CreateSession_def)
    ultimately show ?case unfolding sessionsOk_def by fastforce
  next
    case (loggedOut s sid)
    show ?case by (auto simp: sessionsOk_def DeleteSession_def usersOf_def AList.delete_eq)
  next
    case (expired s now)
    then show ?case by (auto simp: sessionsOk_def DeleteExpiredSessions_def usersOf_def)
  qed
qed

lemma run_store: "authRun P s t \<Longrightarrow> storeOk s \<Longrightarrow> storeOk t"
  by (induction rule: authRun.induct) (auto dest: account_step op_store session_step(2) intro: password_step(1))

text \<open>Where the rights of an account come from, over a run of restricted administrators.\<close>

definition rooted :: "Store \<Rightarrow> User \<Rightarrow> bool" where
  "rooted s u \<longleftrightarrow> (\<exists>v\<in>usersOf s. sameRights u v) \<or>
     (\<exists>v\<in>usersOf s. us_Role v = ''admin'' \<and> \<not> IsFullAdmin v \<and> \<not> IsFullAdmin u \<and> covers v u)"

lemma rights_eqs: "sameRights u v \<Longrightarrow> HasPermission u = HasPermission v \<and> IsFullAdmin u = IsFullAdmin v \<and> us_Role u = us_Role v"
  using rights_same[of u v] by (auto simp: sameRights_def fun_eq_iff)

lemma rooted_within:
  assumes a: "rooted s actor" "us_Role actor = ''admin''" "\<not> IsFullAdmin actor" and u: "withinRights actor u" "us_Role u = ''admin''"
  shows "rooted s u"
proof -
  have c: "covers actor u" "\<not> IsFullAdmin u" using u a(3) by (simp_all add: withinRights_def)
  have "\<exists>v\<in>usersOf s. us_Role v = ''admin'' \<and> \<not> IsFullAdmin v \<and> covers v actor"
  proof (cases "\<exists>v\<in>usersOf s. sameRights actor v")
    case True
    then obtain v where v: "v \<in> usersOf s" "sameRights actor v" by blast
    then have "us_Role v = ''admin''" "\<not> IsFullAdmin v" "covers v actor" using rights_eqs[OF v(2)] a(2,3) by (simp_all add: covers_def)
    then show ?thesis using v(1) by blast
  next
    case False
    then show ?thesis using a(1) unfolding rooted_def by blast
  qed
  then obtain v where "v \<in> usersOf s" "us_Role v = ''admin''" "\<not> IsFullAdmin v" "covers v actor" by blast
  moreover from this c have "covers v u" by (simp add: covers_def)
  ultimately show ?thesis using c(2) unfolding rooted_def by blast
qed

lemma rooted_same:
  assumes "rooted s v" "sameRights u v"
  shows "rooted s u"
proof (cases "\<exists>w\<in>usersOf s. sameRights v w")
  case True
  then obtain w where "w \<in> usersOf s" "sameRights v w" by blast
  then have "sameRights u w" using assms(2) by (simp add: sameRights_def)
  then show ?thesis using \<open>w \<in> usersOf s\<close> unfolding rooted_def by blast
next
  case False
  then obtain w where "w \<in> usersOf s" "us_Role w = ''admin''" "\<not> IsFullAdmin w" "\<not> IsFullAdmin v" "covers w v"
    using assms(1) unfolding rooted_def by blast
  moreover from this have "\<not> IsFullAdmin u" "covers w u" using rights_eqs[OF assms(2)] by (simp_all add: covers_def)
  ultimately show ?thesis unfolding rooted_def by blast
qed

lemma restricted_rooted:
  "authRun (\<lambda>v. \<not> IsFullAdmin v) s t \<Longrightarrow> storeOk s \<Longrightarrow> \<forall>u\<in>usersOf t. us_Role u = ''admin'' \<longrightarrow> rooted s u"
proof (induction rule: authRun.induct)
  case (refl s)
  show ?case by (auto simp: rooted_def sameRights_def)
next
  case (account s t a u)
  have t: "storeOk t" by (rule run_store[OF account(1,5)])
  show ?case
  proof (cases "u = t")
    case True
    then show ?thesis using account.IH account.prems by simp
  next
    case False
    then obtain actor where actor: "actor \<in> usersOf t" "us_ID actor = a" "derived actor t u" and r: "us_Role actor = ''admin''"
      using account_step[OF account(2) t] by (auto simp: opOk_def)
    have root: "\<And>v. v \<in> usersOf t \<Longrightarrow> us_Role v = ''admin'' \<Longrightarrow> rooted s v" using account.IH account.prems by blast
    have full: "\<not> IsFullAdmin actor" using account(3) actor by blast
    show ?thesis
    proof (intro ballI impI)
      fix x
      assume x: "x \<in> usersOf u" "us_Role x = ''admin''"
      then consider v where "v \<in> usersOf t" "sameRights x v" | "withinRights actor x" using actor(3) unfolding derived_def by blast
      then show "rooted s x"
      proof cases
        case (1 v)
        then show ?thesis using root rooted_same x(2) by (auto simp: sameRights_def)
      next
        case 2
        then show ?thesis using rooted_within[OF root[OF actor(1) r] r full] x(2) by blast
      qed
    qed
  qed
next
  case (session s t u)
  have "storeOk t" by (rule run_store[OF session(1,4)])
  then show ?case using session_step(1)[OF session(2)] session.IH session.prems by simp
next
  case (password s t E verify uid old new now)
  have t: "storeOk t" by (rule run_store[OF password(1,3)])
  show ?case
  proof (intro ballI impI)
    fix x
    assume x: "x \<in> usersOf (snd (ChangePassword E verify uid old new now t))" "us_Role x = ''admin''"
    then obtain v where v: "v \<in> usersOf t" "sameRights x v" using password_step(4)[OF t HOL.refl] by blast
    then have "us_Role v = ''admin''" using x(2) by (simp add: sameRights_def)
    then show "rooted s x" using password.IH[OF password.prems] v rooted_same by blast
  qed
qed

lemma run_full: "authRun P s t \<Longrightarrow> storeOk s \<Longrightarrow> keepsFull s t \<and> (sessionsOk s \<longrightarrow> sessionsOk t)"
proof (induction rule: authRun.induct)
  case (account s t a u)
  have t: "storeOk t" by (rule run_store[OF account(1,5)])
  show ?case using account_step[OF account(2) t] account.IH account.prems by (auto simp: opOk_def keepsFull_def)
next
  case (session s t u)
  have t: "storeOk t" by (rule run_store[OF session(1,4)])
  show ?case using session_step[OF session(2) t] session.IH session.prems by (simp add: keepsFull_def)
next
  case (password s t E verify uid old new now)
  have t: "storeOk t" by (rule run_store[OF password(1,3)])
  show ?case using password_step(2,3)[OF t HOL.refl] password.IH password.prems unfolding keepsFull_def by blast
qed (simp add: keepsFull_def)

section \<open>Properties\<close>

definition demoFull :: User where
  "demoFull = sampleUser\<lparr>us_ID := 1, us_Username := ''root'', us_Permissions := None\<rparr>"

definition demoManager :: User where
  "demoManager = sampleUser\<lparr>us_ID := 2\<rparr>"

definition demoUsers :: Store where
  "demoUsers = NewStore\<lparr>st_users := [(1, demoFull), (2, demoManager)], st_nextUserID := 3\<rparr>"

definition demoAccountEnv :: accountEnv where
  "demoAccountEnv = \<lparr>ae_Hash = (\<lambda>p. Some (''h:'' @ p)), ae_ctxBefore = False, ae_ctxAfter = False, ae_auditOk = (\<lambda>_. True), ae_EqualFold = (=)\<rparr>"

definition demoInput :: "string list \<Rightarrow> AccountInput" where
  "demoInput ps = \<lparr>ai_Username = ''new'', ai_Password = ''12345678'', ai_Role = ''admin'', ai_ScopeSite = [], ai_ScopeUserIDs = [], ai_Enabled = True,
     ai_DisplayName = [], ai_Permissions = ps, ai_PermissionPresetID = None, ai_PermissionPresetVersion = 0, ai_ExpectedPermissions = None,
     ai_ExpectedPermissionPresetID = None\<rparr>"

definition demoCreated :: Store where
  "demoCreated = snd (CreateAccount demoAccountEnv 2 (demoInput [''data.logs'']) 9 demoUsers)"

lemma demo_store: "storeOk demoUsers" "sessionsOk demoUsers"
  by (simp_all add: storeOk_def sessionsOk_def demoUsers_def NewStore_def demoFull_def demoManager_def sampleUser_def)

lemma demo_run: "authRun (\<lambda>v. \<not> IsFullAdmin v) demoUsers demoCreated"
proof (rule authRun.account[OF authRun.refl])
  show "accountStep 2 demoUsers demoCreated" unfolding demoCreated_def by (rule accountStep.created)
  show "\<not> IsFullAdmin actor" if "actor \<in> usersOf demoUsers" "us_ID actor = 2" for actor
    using that by (auto simp: usersOf_def demoUsers_def demoFull_def demoManager_def sampleUser_def IsFullAdmin_def)
qed

text \<open>C26: No privilege escalation.  Take any sequence of account and preset operations, logins and logouts in which
  no full administrator acts.  At its end every administrator account still has the rights it had at the start,
  or all its rights, and every request they open, were held at the start by one single account that was not a full
  administrator.  No account becomes a full administrator.\<close>

theorem no_privilege_escalation:
  assumes "storeOk s" "authRun (\<lambda>v. \<not> IsFullAdmin v) s t" "u \<in> usersOf t" "us_Role u = ''admin''"
  shows "(\<exists>v\<in>usersOf s. us_ID v = us_ID u \<and> us_Role v = us_Role u \<and> us_Permissions v = us_Permissions u) \<or>
    (\<exists>v\<in>usersOf s. us_Role v = ''admin'' \<and> \<not> IsFullAdmin v \<and> \<not> IsFullAdmin u \<and> (\<forall>k. HasPermission u k \<longrightarrow> HasPermission v k) \<and>
       (\<forall>r. allowAdminRequest u r \<longrightarrow> allowAdminRequest v r))"
proof -
  have "rooted s u" using restricted_rooted[OF assms(2,1)] assms(3,4) by blast
  then show ?thesis
  proof (unfold rooted_def, elim disjE bexE conjE)
    fix v
    assume "v \<in> usersOf s" "sameRights u v"
    then show ?thesis unfolding sameRights_def by metis
  next
    fix v
    assume v: "v \<in> usersOf s" "us_Role v = ''admin''" "\<not> IsFullAdmin v" "\<not> IsFullAdmin u" "covers v u"
    then have "\<forall>r. allowAdminRequest u r \<longrightarrow> allowAdminRequest v r" using covers_requests[OF v(5) _ v(2)] by blast
    then show ?thesis using v unfolding covers_def by blast
  qed
qed

theorem no_privilege_escalation_witness:
  "\<exists>u\<in>usersOf demoCreated. us_ID u = 3 \<and> HasPermission u ''data.logs'' \<and> HasPermission demoManager ''data.logs''"
proof -
  obtain u where u: "map_of (st_users demoCreated) 3 = Some u" "us_Role u = ''admin''" "us_ID u = 3" "HasPermission u ''data.logs''"
  proof -
    have "list_ex (\<lambda>u. us_Role u = ''admin'' \<and> us_ID u = 3 \<and> HasPermission u ''data.logs'') (case map_of (st_users demoCreated) 3 of Some u \<Rightarrow> [u] | None \<Rightarrow> [])"
      by code_simp
    then show thesis using that by (auto split: option.splits)
  qed
  then have m: "u \<in> usersOf demoCreated" by (force simp: usersOf_def dest: map_of_SomeD)
  have "HasPermission demoManager ''data.logs''"
    using no_privilege_escalation[OF demo_store(1) demo_run m u(2)] u(3,4) has_full
    by (auto simp: usersOf_def demoUsers_def demoFull_def demoManager_def sampleUser_def IsFullAdmin_def)
  then show ?thesis using m u by blast
qed

text \<open>C27: Somebody stays in charge.  Whatever sequence of operations runs, by whomever, an installation that has an
  enabled full administrator keeps one.\<close>

theorem last_full_admin_stays:
  assumes "storeOk s" "authRun P s t" "u \<in> usersOf s" "us_Enabled u" "IsFullAdmin u"
  shows "\<exists>v\<in>usersOf t. us_Enabled v \<and> IsFullAdmin v"
  using run_full[OF assms(2,1)] assms(3-5) by (auto simp: keepsFull_def activeFull_def)

theorem last_full_admin_stays_witness:
  "\<exists>v\<in>usersOf demoCreated. us_Enabled v \<and> IsFullAdmin v"
proof -
  have "demoFull \<in> usersOf demoUsers" "us_Enabled demoFull" "IsFullAdmin demoFull"
    by (simp_all add: usersOf_def demoUsers_def demoFull_def sampleUser_def IsFullAdmin_def)
  then show ?thesis using last_full_admin_stays[OF demo_store(1) demo_run] by blast
qed

text \<open>Disabled accounts have no session.  Starting from a store where every session belongs to an enabled user,
  so does every session at the end of any run: disabling an account or resetting its password ends its sessions, and
  enabling it again brings none back.\<close>

theorem disabled_account_has_no_session:
  assumes "storeOk s" "sessionsOk s" "authRun P s t" "u \<in> usersOf t" "\<not> us_Enabled u" "SessionByID sid t = Some v"
  shows "sn_UserID v \<noteq> us_ID u"
proof
  assume eq: "sn_UserID v = us_ID u"
  have t: "sessionsOk t" "storeOk t" using run_full[OF assms(3,1)] assms(2) run_store[OF assms(3,1)] by auto
  have "(sid, v) \<in> set (st_sessions t)" using assms(6) by (auto simp: SessionByID_def dest: map_of_SomeD)
  then obtain w where w: "w \<in> usersOf t" "us_ID w = us_ID u" "us_Enabled w" using t(1) eq unfolding sessionsOk_def by force
  then show False using users_unique[OF t(2) w(1) assms(4)] assms(5) by simp
qed

definition demoSession :: Store where
  "demoSession = demoUsers\<lparr>st_users := [(1, demoFull), (2, demoManager\<lparr>us_Enabled := False\<rparr>)],
     st_sessions := [(''c'', \<lparr>sn_ID = ''c'', sn_UserID = 1, sn_CreatedAt = 1, sn_ExpiresAt = 9\<rparr>)]\<rparr>"

theorem disabled_account_has_no_session_witness:
  "SessionByID ''c'' demoSession = Some \<lparr>sn_ID = ''c'', sn_UserID = 1, sn_CreatedAt = 1, sn_ExpiresAt = 9\<rparr> \<and> us_ID demoManager \<noteq> 1"
proof -
  have a: "storeOk demoSession" "sessionsOk demoSession" "demoManager\<lparr>us_Enabled := False\<rparr> \<in> usersOf demoSession"
    by (simp_all add: storeOk_def sessionsOk_def usersOf_def demoSession_def demoUsers_def NewStore_def demoFull_def demoManager_def sampleUser_def)
  have s: "SessionByID ''c'' demoSession = Some \<lparr>sn_ID = ''c'', sn_UserID = 1, sn_CreatedAt = 1, sn_ExpiresAt = 9\<rparr>"
    by (simp add: SessionByID_def demoSession_def)
  show ?thesis using disabled_account_has_no_session[OF a(1,2) authRun.refl a(3) _ s] s by simp
qed

end
