(* ===== verification/WriteGates.thy ===== *)
theory WriteGates
  imports ScheduleApply Writes
begin

text \<open>
  The gates in front of a write to a channel (\<open>server/internal/mysqlstore/manual_channel.go\<close>,
  \<open>circuit_ownership.go\<close>, \<open>priority_sync.go\<close>, \<open>circuit_status.go\<close>, \<open>capacity_control.go\<close>): a decision of
  the engine is checked against the tables again when it is about to be carried out, because the operator, a
  collector or a schedule may have taken over the channel since it was made.

  A gate returns no error or the reason to drop the decision.  Every query may fail; which ones do is the input
  \<open>fails\<close>.
\<close>

section \<open>Queries\<close>

datatype gateQuery = ReadState | ReadBase | ReadPolicy | DecodePolicy | ReadCurrent | ReadSchedule

definition dbError :: goerr where
  "dbError = ErrText ''database''"

definition ErrPrioritySyncSuperseded :: goerr where
  "ErrPrioritySyncSuperseded = ErrText ''priority sync superseded by current target or mode''"

abbreviation superseded :: "goerr option" where
  "superseded \<equiv> Some ErrDecisionSuperseded"

text \<open>\<open>ORDER BY captured_at DESC, instance_id LIMIT 1\<close> over rows in the order of the key.\<close>

fun newestCurrent :: "currentRow list \<Rightarrow> currentRow option" where
  "newestCurrent [] = None"
| "newestCurrent (r # rs) =
     (case newestCurrent rs of
        None \<Rightarrow> Some r
      | Some q \<Rightarrow> Some (if cu_CapturedAt q > cu_CapturedAt r then q else r))"

definition currentOf :: "controlDB \<Rightarrow> string \<Rightarrow> int64 \<Rightarrow> currentRow option" where
  "currentOf db site channel =
     newestCurrent (filter (\<lambda>c. cu_Enabled c \<and> cu_Site c = site \<and> cu_ChannelID c = channel) (db_current db))"

definition policyFor :: "(gateQuery \<Rightarrow> bool) \<Rightarrow> goerr \<Rightarrow> controlDB \<Rightarrow> string \<Rightarrow> goerr + PolicyRecord" where
  "policyFor fails missing db site =
     (if fails ReadPolicy then Inl dbError
      else case map_of (db_policies db) site of
             None \<Rightarrow> Inl missing
           | Some r \<Rightarrow> if fails DecodePolicy then Inl dbError else Inr r)"

definition distinctFirst :: "'a list \<Rightarrow> 'a list" where
  "distinctFirst xs = rev (remdups (rev xs))"

definition parseChannelModels :: "modelsText \<Rightarrow> string list" where
  "parseChannelModels raw =
     distinctFirst (filter (\<lambda>m. m \<noteq> []) (map trimSpace (case raw of ModelsArray ms \<Rightarrow> ms | ModelsPlain s \<Rightarrow> splitComma s)))"

text \<open>\<open>strings.ToLower\<close> as far as a comparison with the labels of a status needs it: beside the ASCII letters only
  the capital I with a dot (two bytes) becomes a letter of a label.\<close>

definition lowerChar :: "char \<Rightarrow> char" where
  "lowerChar c = (let n = of_char c :: nat in if 65 \<le> n \<and> n \<le> 90 then char_of (n + 32) else c)"

fun goLower :: "string \<Rightarrow> string" where
  "goLower [] = []"
| "goLower [c] = [lowerChar c]"
| "goLower (c # d # cs) =
     (if c = CHR 0xC4 \<and> d = CHR 0xB0 then CHR ''i'' # goLower cs else lowerChar c # goLower (d # cs))"

definition enabledLabel :: "string \<Rightarrow> bool" where
  "enabledLabel s \<longleftrightarrow> s \<in> set [''enabled'', ''enable'', ''active'', ''normal'', ''1'']"

definition disabledLabel :: "string \<Rightarrow> bool" where
  "disabledLabel s \<longleftrightarrow> s \<in> set [''disabled'', ''disable'', ''inactive'', ''2'', ''3'', ''auto_disabled'', ''auto-disabled'']"

section \<open>Ownership\<close>

text \<open>The generation a decision was made in, read from its evidence through JSON: an absent value and \<open>null\<close> give
  0, a value that is not an integer gives -1.\<close>

definition recommendationControlRevision :: "Recommendation \<Rightarrow> int64" where
  "recommendationControlRevision v =
     (case rec_Evidence v ''control_revision'' of
        None \<Rightarrow> 0
      | Some (EvInt n) \<Rightarrow> n
      | Some (EvFloat x) \<Rightarrow> if x = of_int \<lfloor>x\<rfloor> \<and> \<bar>x\<bar> < 2 ^ 63 then \<lfloor>x\<rfloor> else -1
      | Some (EvEvaluation None) \<Rightarrow> 0
      | Some e \<Rightarrow> -1)"

definition recKey :: "Recommendation \<Rightarrow> string \<times> int64" where
  "recKey v = (rec_InstanceID v, rec_ChannelID v)"

definition prioritySyncRule :: string where
  "prioritySyncRule = ''base_priority_sync''"

definition checkManualChannelControl :: "(gateQuery \<Rightarrow> bool) \<Rightarrow> controlDB \<Rightarrow> Recommendation \<Rightarrow> goerr option" where
  "checkManualChannelControl fails db v =
     (if fails ReadState then Some dbError
      else case map_of (db_states db) (recKey v) of
             None \<Rightarrow> None
           | Some s \<Rightarrow>
               if s_PausedReason s = ManualDisabled \<or>
                  rec_Rule v \<noteq> prioritySyncRule \<and> s_ControlRevision s \<noteq> recommendationControlRevision v
               then superseded else None)"

definition checkPrioritySync :: "(gateQuery \<Rightarrow> bool) \<Rightarrow> controlDB \<Rightarrow> Recommendation \<Rightarrow> goerr option" where
  "checkPrioritySync fails db v =
     (if rec_Rule v \<noteq> prioritySyncRule then None
      else case checkManualChannelControl fails db v of
             Some e \<Rightarrow> Some (if errorsIs e ErrDecisionSuperseded then ErrPrioritySyncSuperseded else e)
           | None \<Rightarrow>
               (case rec_ProposedPriority v of
                  None \<Rightarrow> Some ErrPrioritySyncSuperseded
                | Some p \<Rightarrow>
                    if fails ReadBase then Some dbError
                    else case map_of (db_bases db) (recKey v) of
                           None \<Rightarrow> Some ErrPrioritySyncSuperseded
                         | Some b \<Rightarrow>
                             if b_BasePriority b \<noteq> p then Some ErrPrioritySyncSuperseded
                             else if rec_ModeAtCreation v \<noteq> ''auto'' then None
                             else case policyFor fails ErrPrioritySyncSuperseded db (rec_InstanceID v) of
                                    Inl e \<Rightarrow> Some e
                                  | Inr r \<Rightarrow>
                                      if strAt (pol_DispatchModes (pr_Policy r)) (b_ModelName b) \<noteq> ''auto''
                                      then Some ErrPrioritySyncSuperseded else None))"

section \<open>Status writes of the circuit\<close>

text \<open>The check of the schedule: the error, and whether the schedule has closed the channel.\<close>

definition scheduleGate :: "(gateQuery \<Rightarrow> bool) \<Rightarrow> controlDB \<Rightarrow> string \<Rightarrow> int64 \<Rightarrow> time \<Rightarrow> goerr option \<times> bool" where
  "scheduleGate fails db site channel now =
     (if fails ReadSchedule then (Some dbError, False)
      else case checkScheduleRecovery db site channel now of
             (byPlan, None) \<Rightarrow> (None, byPlan)
           | (byPlan, Some ErrSuperseded) \<Rightarrow> (superseded, byPlan)
           | (byPlan, Some e) \<Rightarrow> (Some dbError, byPlan))"

definition recoveredWeight :: "PolicyRecord \<Rightarrow> int64 \<Rightarrow> int64" where
  "recoveredWeight r weight =
     (let p = pol_Continuous (pr_Policy r)
      in max (r_RecoveryMinWeight (Rules p)) (goRound (of_int weight * p_SoftStartMultiplier p)))"

definition checkCircuitStatus :: "(gateQuery \<Rightarrow> bool) \<Rightarrow> controlDB \<Rightarrow> Recommendation \<Rightarrow> time \<Rightarrow> goerr option" where
  "checkCircuitStatus fails db v now =
     (case rec_ProposedChannelStatus v of
        None \<Rightarrow> None
      | Some target \<Rightarrow>
          (case (if target = 1 then scheduleGate fails db (rec_InstanceID v) (rec_ChannelID v) now else (None, False)) of
             (Some e, byPlan) \<Rightarrow> Some e
           | (None, byPlan) \<Rightarrow>
               if target \<noteq> 1 \<and> target \<noteq> 2 \<or> target = 1 \<and> rec_Rule v \<noteq> ''circuit_recovered'' \<or>
                  target = 2 \<and> rec_Rule v \<noteq> ''circuit_disabled'' \<or> rec_ModeAtCreation v \<noteq> ''auto''
               then superseded
               else if fails ReadBase then Some dbError
               else case (map_of (db_bases db) (recKey v), map_of (db_states db) (recKey v)) of
                      (Some b, Some s) \<Rightarrow>
                        if s_ControlRevision s \<noteq> recommendationControlRevision v \<or>
                           \<not> (s_CircuitDisabled s \<or> target = 1 \<and> byPlan) \<or> s_CircuitStatusTarget s \<noteq> target \<or>
                           b_BaseWeight b \<le> 0 \<or> b_ModelName b \<noteq> s_ModelName s \<or> s_ProposedWeight s \<noteq> rec_ProposedWeight v
                        then superseded
                        else (case policyFor fails ErrDecisionSuperseded db (rec_InstanceID v) of
                                Inl e \<Rightarrow> Some e
                              | Inr r \<Rightarrow>
                                  if target = 1 \<and> rec_ProposedWeight v \<noteq> recoveredWeight r (b_BaseWeight b) then superseded
                                  else if strAt (pol_DispatchModes (pr_Policy r)) (b_ModelName b) \<noteq> ''auto'' then superseded
                                  else if fails ReadCurrent then Some dbError
                                  else case currentOf db (rec_InstanceID v) (rec_ChannelID v) of
                                         None \<Rightarrow> superseded
                                       | Some c \<Rightarrow> if parseChannelModels (cu_Models c) \<noteq> [b_ModelName b] then superseded else None)
                    | _ \<Rightarrow> superseded))"

section \<open>Weight writes under the capacity controller\<close>

definition capacityManaged :: "Recommendation \<Rightarrow> bool" where
  "capacityManaged v \<longleftrightarrow> rec_Evidence v ''capacity_managed'' = Some (EvBool True) \<and>
     rec_ProposedChannelStatus v = None \<and> capacityManagedRule (rec_Rule v)"

definition statusRecovery :: "Recommendation \<Rightarrow> bool" where
  "statusRecovery v \<longleftrightarrow> rec_ProposedChannelStatus v = Some 1 \<and> rec_Rule v = ''circuit_recovered''"

definition freshSample :: "PolicyRecord \<Rightarrow> CapacityControl \<Rightarrow> time \<Rightarrow> bool" where
  "freshSample r c now \<longleftrightarrow> cap_Fresh c \<and> cap_SampleAt c \<noteq> 0 \<and> \<not> cap_SampleAt c > now \<and>
     timeSub now (cap_SampleAt c) \<le> r_CapacityMaxAgeSeconds (Rules (pol_Continuous (pr_Policy r))) * Second"

text \<open>The decoded evidence: an absent evaluation is nil, an absent tracker is the zero value, another kind of
  value is a decoding error.\<close>

definition evidenceEvaluation :: "Recommendation \<Rightarrow> goerr + EvaluationContext option" where
  "evidenceEvaluation v =
     (case rec_Evidence v ''evaluation'' of
        None \<Rightarrow> Inr None | Some (EvEvaluation e) \<Rightarrow> Inr e | Some x \<Rightarrow> Inl (ErrText ''json''))"

definition evidenceCapacity :: "Recommendation \<Rightarrow> goerr + CapacityControl" where
  "evidenceCapacity v =
     (case rec_Evidence v ''capacity'' of
        None \<Rightarrow> Inr zeroCapacityControl | Some (EvCapacity c) \<Rightarrow> Inr c
      | Some (EvEvaluation None) \<Rightarrow> Inr zeroCapacityControl | Some x \<Rightarrow> Inl (ErrText ''json''))"

text \<open>The last part of the check, for a decision that raises, lowers or restores a weight.\<close>

definition capacityDecision :: "ChannelBaseValue \<Rightarrow> ContinuousState \<Rightarrow> PolicyRecord \<Rightarrow> Recommendation \<Rightarrow> time \<Rightarrow> string \<Rightarrow> bool \<Rightarrow> goerr option" where
  "capacityDecision b s r v now command fresh =
     (let c = s_Capacity s;
          stale = (s_CapacityLimited s \<and> (command = [] \<or> cap_PendingCommandID c \<noteq> command))
      in if rec_Rule v = ''circuit_recovered''
         then (if stale \<or> cap_Active c \<or> cap_Utilization c \<ge> 1 \<or>
                  cap_PendingCommandID c \<noteq> [] \<and> cap_PendingCommandID c \<noteq> command \<or> \<not> fresh
               then superseded else None)
         else if \<not> cap_Initialized c \<or> s_Phase s \<noteq> ''normal'' \<or> cap_MaxRPM c \<noteq> b_MaxRPM b \<or> cap_MaxTPM c \<noteq> b_MaxTPM b
         then superseded
         else if (if command = [] then cap_PendingCommandID c \<noteq> []
                  else cap_PendingCommandID c \<noteq> command \<or> cap_PendingWeight c \<noteq> rec_ProposedWeight v)
         then superseded
         else if rec_ProposedWeight v > cap_ConfirmedWeight c \<and> (stale \<or> cap_Active c \<or> cap_Utilization c \<ge> 1 \<or> \<not> fresh)
         then superseded
         else if rec_Rule v = ''capacity_reduce'' \<and>
                 (\<not> fresh \<or> \<not> cap_Active c \<or> cap_Utilization c < 1 \<or> cap_Reason c = ''no_eligible_headroom'' \<or>
                  cap_Reason c = ''unknown_group'' \<or> rec_ProposedWeight v < r_CapacityMinWeight (Rules (pol_Continuous (pr_Policy r))) \<or>
                  rec_ProposedWeight v \<ge> cap_ConfirmedWeight c)
         then superseded
         else None)"

definition capacityWeight :: "(gateQuery \<Rightarrow> bool) \<Rightarrow> controlDB \<Rightarrow> ChannelBaseValue \<Rightarrow> ContinuousState \<Rightarrow> PolicyRecord \<Rightarrow> Recommendation \<Rightarrow>
    time \<Rightarrow> string \<Rightarrow> goerr option" where
  "capacityWeight fails db b s r v now command =
     (if fails ReadCurrent then Some dbError
      else case currentOf db (rec_InstanceID v) (rec_ChannelID v) of
             None \<Rightarrow> superseded
           | Some cu \<Rightarrow>
               if parseChannelModels (cu_Models cu) \<noteq> [b_ModelName b] \<or> \<not> enabledLabel (goLower (cu_Status cu)) then superseded
               else case evidenceEvaluation v of
                      Inl e \<Rightarrow> Some e
                    | Inr None \<Rightarrow> superseded
                    | Inr (Some e) \<Rightarrow>
                        if ev_BaseWeight e \<noteq> b_BaseWeight b \<or> ev_BaseUpdatedAt e \<noteq> b_UpdatedAt b \<or> ev_PolicyUpdatedAt e \<noteq> pr_UpdatedAt r \<or>
                           ev_Params e \<noteq> pol_Continuous (pr_Policy r) \<or> rec_Evidence v ''model'' \<noteq> Some (EvStr (b_ModelName b))
                        then superseded
                        else if cu_CapturedAt cu > ev_EvaluatedAt e \<and> cu_Weight cu \<noteq> rec_CurrentWeight v \<and> rec_Rule v \<noteq> ''circuit_opened''
                        then superseded
                        else if rec_Rule v = ''circuit_opened''
                        then (if rec_ProposedWeight v \<noteq> 0 \<or> command \<noteq> [] \<and> cap_PendingCommandID (s_Capacity s) \<noteq> command
                              then superseded else None)
                        else case evidenceCapacity v of
                               Inl x \<Rightarrow> Some x
                             | Inr decision \<Rightarrow>
                                 if cap_MaxRPM decision \<noteq> b_MaxRPM b \<or> cap_MaxTPM decision \<noteq> b_MaxTPM b then superseded
                                 else capacityDecision b s r v now command
                                        (b_MaxRPM b \<le> 0 \<and> b_MaxTPM b \<le> 0 \<or> freshSample r (s_Capacity s) now))"

definition checkContinuousCapacity :: "(gateQuery \<Rightarrow> bool) \<Rightarrow> controlDB \<Rightarrow> Recommendation \<Rightarrow> time \<Rightarrow> string \<Rightarrow> goerr option" where
  "checkContinuousCapacity fails db v now command =
     (case (if rec_Rule v = ''circuit_recovered'' then fst (scheduleGate fails db (rec_InstanceID v) (rec_ChannelID v) now) else None) of
        Some e \<Rightarrow> Some e
      | None \<Rightarrow>
          if \<not> statusRecovery v \<and> (rec_ProposedChannelStatus v \<noteq> None \<or> \<not> capacityManagedRule (rec_Rule v)) then None
          else if \<not> capacityManaged v \<and> \<not> statusRecovery v then superseded
          else if fails ReadBase then Some dbError
          else case (map_of (db_bases db) (recKey v), map_of (db_states db) (recKey v)) of
                 (Some b, Some s) \<Rightarrow>
                   if b_BaseWeight b \<le> 0 \<or> s_ModelName s \<noteq> b_ModelName b \<or> s_PausedReason s = ''mixed_channel'' \<or> s_PausedReason s = ManualDisabled
                   then superseded
                   else if s_RoutineCircuitLatched s \<and> \<not> statusRecovery v \<and> rec_Rule v \<noteq> ''circuit_opened'' then superseded
                   else (case policyFor fails ErrDecisionSuperseded db (rec_InstanceID v) of
                           Inl e \<Rightarrow> Some e
                         | Inr r \<Rightarrow>
                             if strAt (pol_DispatchModes (pr_Policy r)) (b_ModelName b) \<noteq> ''auto'' then superseded
                             else if statusRecovery v
                             then (if b_MaxRPM b \<le> 0 \<and> b_MaxTPM b \<le> 0 then None
                                   else if s_CapacityLimited s \<or> cap_Active (s_Capacity s) \<or> cap_Utilization (s_Capacity s) \<ge> 1 \<or>
                                           cap_PendingCommandID (s_Capacity s) \<noteq> [] \<or> \<not> freshSample r (s_Capacity s) now
                                   then superseded else None)
                             else capacityWeight fails db b s r v now command)
               | _ \<Rightarrow> superseded)"

section \<open>What a passed gate says\<close>

lemma manual_gate_passed:
  assumes "checkManualChannelControl fails db v = None"
  shows "map_of (db_states db) (recKey v) = None \<or>
    (\<exists>s. map_of (db_states db) (recKey v) = Some s \<and> s_PausedReason s \<noteq> ManualDisabled \<and>
         (rec_Rule v \<noteq> prioritySyncRule \<longrightarrow> s_ControlRevision s = recommendationControlRevision v))"
  using assms by (auto simp: checkManualChannelControl_def split: if_splits option.splits)

lemma circuit_gate_passed:
  assumes "checkCircuitStatus fails db v now = None" "rec_ProposedChannelStatus v = Some target"
  obtains b s r where "map_of (db_bases db) (recKey v) = Some b" "map_of (db_states db) (recKey v) = Some s"
    "map_of (db_policies db) (rec_InstanceID v) = Some r"
    "s_ControlRevision s = recommendationControlRevision v" "s_CircuitStatusTarget s = target"
    "b_ModelName b = s_ModelName s" "0 < b_BaseWeight b" "strAt (pol_DispatchModes (pr_Policy r)) (b_ModelName b) = ''auto''"
    "target = 1 \<and> rec_Rule v = ''circuit_recovered'' \<or> target = 2 \<and> rec_Rule v = ''circuit_disabled'' \<and> s_CircuitDisabled s"
    "target = 1 \<longrightarrow> rec_ProposedWeight v = recoveredWeight r (b_BaseWeight b)"
    "target = 1 \<longrightarrow> snd (checkScheduleRecovery db (rec_InstanceID v) (rec_ChannelID v) now) = None"
proof -
  let ?byPlan = "if target = 1 then scheduleGate fails db (rec_InstanceID v) (rec_ChannelID v) now else (None, False)"
  obtain b s r where rows: "map_of (db_bases db) (recKey v) = Some b" "map_of (db_states db) (recKey v) = Some s"
    and pol: "policyFor fails ErrDecisionSuperseded db (rec_InstanceID v) = Inr r"
    and rest: "s_ControlRevision s = recommendationControlRevision v" "s_CircuitStatusTarget s = target"
      "b_ModelName b = s_ModelName s" "0 < b_BaseWeight b" "strAt (pol_DispatchModes (pr_Policy r)) (b_ModelName b) = ''auto''"
      "target = 1 \<and> rec_Rule v = ''circuit_recovered'' \<or> target = 2 \<and> rec_Rule v = ''circuit_disabled'' \<and> s_CircuitDisabled s"
      "target = 1 \<longrightarrow> rec_ProposedWeight v = recoveredWeight r (b_BaseWeight b)" "fst ?byPlan = None"
    using assms by (auto simp: checkCircuitStatus_def split: option.splits prod.splits if_splits sum.splits)
  have "map_of (db_policies db) (rec_InstanceID v) = Some r"
    using pol by (auto simp: policyFor_def split: if_splits option.splits)
  moreover have "target = 1 \<longrightarrow> snd (checkScheduleRecovery db (rec_InstanceID v) (rec_ChannelID v) now) = None"
    using rest(8) by (auto simp: scheduleGate_def split: if_splits prod.splits option.splits storeError.splits)
  ultimately show thesis using that rows rest by metis
qed

end
