(* ===== verification/DirectWrites.thy ===== *)
theory DirectWrites
  imports WriteGates
begin

text \<open>
  Weight writes of the server itself (\<open>server/internal/directcontrol/store.go\<close>) and what the store keeps of them
  (\<open>server/internal/mysqlstore/tuning.go\<close>, \<open>channel_sync.go\<close>, \<open>capacity_control.go\<close>), saving the state of the
  engine under the control revision, and the result of a recovery probe.  The audit of operations is that of
  \<open>server/internal/storage/command_query.go\<close>.
\<close>

section \<open>Audits\<close>

record OperationAudit =
  oa_ID :: string
  oa_InstanceID :: string
  oa_OperationType :: string
  oa_TargetID :: string
  oa_ActorID :: string
  oa_Status :: string
  oa_ActorType :: string
  oa_ActorRole :: string
  oa_TriggerType :: string
  oa_AuthMethod :: string
  oa_ErrorSummary :: string
  oa_CreatedAt :: time
  oa_UpdatedAt :: time

definition zeroOperationAudit :: OperationAudit where
  "zeroOperationAudit = \<lparr>oa_ID = [], oa_InstanceID = [], oa_OperationType = [], oa_TargetID = [], oa_ActorID = [], oa_Status = [],
     oa_ActorType = [], oa_ActorRole = [], oa_TriggerType = [], oa_AuthMethod = [], oa_ErrorSummary = [], oa_CreatedAt = 0, oa_UpdatedAt = 0\<rparr>"

definition hasPrefix :: "string \<Rightarrow> string \<Rightarrow> bool" where
  "hasPrefix s p \<longleftrightarrow> take (length p) s = p"

definition systemName :: "string \<Rightarrow> bool" where
  "systemName s \<longleftrightarrow> hasPrefix s ''system:'' \<or> hasPrefix s ''agent:''"

text \<open>The redaction of secrets in an error text and the clock are inputs.\<close>

record auditEnv =
  ae_redact :: "string \<Rightarrow> string"
  ae_now :: time

definition NormalizeOperationAudit :: "auditEnv \<Rightarrow> OperationAudit \<Rightarrow> OperationAudit" where
  "NormalizeOperationAudit A v0 =
     (let v1 = v0\<lparr>oa_ErrorSummary := ae_redact A (oa_ErrorSummary v0)\<rparr>;
          v2 = (if oa_CreatedAt v1 = 0 then v1\<lparr>oa_CreatedAt := ae_now A\<rparr> else v1);
          v3 = (if oa_UpdatedAt v2 = 0 then v2\<lparr>oa_UpdatedAt := oa_CreatedAt v2\<rparr> else v2);
          v4 = (if oa_Status v3 = [] then v3\<lparr>oa_Status := ''unknown''\<rparr> else v3);
          v5 = (if oa_ActorType v4 = [] \<or> oa_ActorType v4 = ''unknown''
                then v4\<lparr>oa_ActorType := (if systemName (oa_ActorID v4) then ''system''
                     else if oa_ActorID v4 = ''token'' then ''service_token''
                     else if oa_ActorID v4 \<noteq> [] \<and> oa_ActorID v4 \<noteq> ''unknown'' \<and> oa_ActorID v4 \<noteq> ''legacy-admin'' then ''human''
                     else ''unknown'')\<rparr> else v4);
          v6 = (if oa_TriggerType v5 = [] \<or> oa_TriggerType v5 = ''unknown''
                then v5\<lparr>oa_TriggerType := (if oa_ActorType v5 = ''system'' then ''automatic'' else ''manual'')\<rparr> else v5)
      in if oa_AuthMethod v6 = []
         then v6\<lparr>oa_AuthMethod := (if oa_ActorType v6 = ''human'' then ''session''
                else if oa_ActorType v6 = ''service_token'' then ''bearer'' else [])\<rparr> else v6)"

definition IsManualOperationAudit :: "OperationAudit \<Rightarrow> bool" where
  "IsManualOperationAudit v \<longleftrightarrow>
     \<not> (oa_OperationType v = ''tuning.auto_execute'' \<or> oa_ActorType v = ''system'' \<or> oa_TriggerType v = ''automatic'') \<and>
     (oa_ActorType v = ''human'' \<and> (oa_ActorRole v = ''admin'' \<or> oa_ActorRole v = ''viewer'') \<and>
        (oa_AuthMethod v = ''session'' \<or> oa_AuthMethod v = ''web_session'') \<or>
      oa_ActorID v \<noteq> ''system'' \<and> oa_ActorID v \<noteq> ''agent'' \<and> \<not> systemName (oa_ActorID v))"

text \<open>\<open>None\<close> when the identifier is taken.\<close>

definition insertOperationAuditTx :: "auditEnv \<Rightarrow> OperationAudit \<Rightarrow> controlDB \<Rightarrow> controlDB option" where
  "insertOperationAuditTx A v0 db =
     (let v = NormalizeOperationAudit A v0
      in if \<not> IsManualOperationAudit v then Some db
         else if map_of (db_audits db) (oa_ID v) \<noteq> None then None
         else Some (db\<lparr>db_audits := (oa_ID v,
                \<lparr>au_InstanceID = oa_InstanceID v, au_OperationType = oa_OperationType v, au_TargetID = oa_TargetID v,
                 au_ActorID = oa_ActorID v, au_Status = oa_Status v, au_ErrorSummary = oa_ErrorSummary v,
                 au_CreatedAt = oa_CreatedAt v, au_UpdatedAt = oa_UpdatedAt v\<rparr>) # db_audits db\<rparr>))"

definition weightChangeAuditMetadata :: "string \<Rightarrow> string \<Rightarrow> OperationAudit \<Rightarrow> string \<times> string \<times> string" where
  "weightChangeAuditMetadata rule actor c =
     (let verifiedHuman = (oa_ActorType c = ''human'' \<and> oa_ActorRole c = ''admin'' \<and>
            (oa_AuthMethod c = ''session'' \<or> oa_AuthMethod c = ''web_session'') \<and> oa_TriggerType c \<noteq> ''automatic'')
      in if \<not> verifiedHuman \<and> systemName actor then (''tuning.auto_execute'', ''system'', ''automatic'')
         else (if rule = prioritySyncRule then ''tuning.base_priority_sync'' else ''tuning.manual_execute'',
               if \<not> verifiedHuman \<and> actor = ''token'' then ''service_token''
               else if actor = [] \<or> actor = ''unknown'' \<or> actor = ''legacy-admin'' then ''unknown'' else ''human'',
               ''manual''))"

definition weightAudit :: "string \<Rightarrow> Recommendation \<Rightarrow> string \<Rightarrow> OperationAudit \<Rightarrow> string \<Rightarrow> time \<Rightarrow> OperationAudit" where
  "weightAudit command v actor c status now =
     (case weightChangeAuditMetadata (rec_Rule v) actor c of (operation, actorType, trigger) \<Rightarrow>
        c\<lparr>oa_ID := command, oa_InstanceID := rec_InstanceID v, oa_OperationType := operation,
          oa_TargetID := showInt (rec_ChannelID v), oa_ActorID := actor, oa_ActorType := actorType, oa_TriggerType := trigger,
          oa_Status := status, oa_CreatedAt := now, oa_UpdatedAt := now\<rparr>)"

section \<open>The directory after a confirmed write\<close>

definition writeCurrent :: "string \<Rightarrow> int64 \<Rightarrow> UpdateRequest \<Rightarrow> time \<Rightarrow> controlDB \<Rightarrow> controlDB" where
  "writeCurrent site channel u t db =
     db\<lparr>db_current := map (\<lambda>c. if cu_Site c = site \<and> cu_ChannelID c = channel
        then c\<lparr>cu_Weight := (case up_Weight u of Some x \<Rightarrow> x | None \<Rightarrow> cu_Weight c),
               cu_Priority := (case up_Priority u of Some x \<Rightarrow> Some x | None \<Rightarrow> cu_Priority c),
               cu_Status := (case up_Status u of Some x \<Rightarrow> channelStatusLabel x | None \<Rightarrow> cu_Status c),
               cu_Group := (case up_Group u of Some x \<Rightarrow> Some x | None \<Rightarrow> cu_Group c),
               cu_CapturedAt := max (cu_CapturedAt c) t\<rparr> else c) (db_current db)\<rparr>"

definition ApplyChannelWrite :: "dbFault \<Rightarrow> string \<Rightarrow> int64 \<Rightarrow> int64 option \<Rightarrow> int64 option \<Rightarrow> int64 option \<Rightarrow> time \<Rightarrow> controlDB \<Rightarrow> controlDB \<times> bool" where
  "ApplyChannelWrite f site channel weight priority status t db =
     (let db1 = writeCurrent site channel
            ((noUpdate channel)\<lparr>up_Weight := weight, up_Priority := priority, up_Status := status\<rparr>) t db
      in commitTx f db (if status = Some 1 then setClosed site channel False db1 else db1))"

definition applyCompletedChannelWrite :: "ChannelCommand \<Rightarrow> time \<Rightarrow> controlDB \<Rightarrow> controlDB" where
  "applyCompletedChannelWrite c t db =
     (let u = pl_Update (cm_Payload c)
      in if up_Weight u = None \<and> up_Priority u = None \<and> up_Status u = None \<and> up_Group u = None then db
         else writeCurrent (cm_SiteID c) (cm_ChannelID c) u t db)"

section \<open>The record of a weight change\<close>

text \<open>\<open>None\<close> when no row of the states could take the marker.\<close>

definition linkCapacityCommand :: "Recommendation \<Rightarrow> string \<Rightarrow> controlDB \<Rightarrow> controlDB option" where
  "linkCapacityCommand v command db =
     (if \<not> capacityManaged v then Some db
      else let free = (\<lambda>s. cap_PendingCommandID (s_Capacity s) = [] \<or> rec_Rule v = ''circuit_opened'')
           in case map_of (db_states db) (recKey v) of
                None \<Rightarrow> None
              | Some s \<Rightarrow>
                  if free s
                  then Some (onState (rec_InstanceID v) (rec_ChannelID v) free
                         (\<lambda>s. s\<lparr>s_Capacity := (s_Capacity s)\<lparr>cap_PendingCommandID := command, cap_PendingWeight := rec_ProposedWeight v,
                              cap_Phase := ''awaiting_write''\<rparr>\<rparr>) db)
                  else None)"

definition weightPayload :: "Recommendation \<Rightarrow> commandPayload" where
  "weightPayload v =
     \<lparr>pl_Update = (noUpdate (rec_ChannelID v))\<lparr>up_Status := rec_ProposedChannelStatus v,
        up_Weight := (if rec_Rule v \<noteq> prioritySyncRule then Some (rec_ProposedWeight v) else None),
        up_Priority := (if rec_Rule v = prioritySyncRule then rec_ProposedPriority v else None)\<rparr>,
      pl_ManualControl = False, pl_ControlRevision = None, pl_Probe = None\<rparr>"

definition weightCommand :: "string \<Rightarrow> string \<Rightarrow> string \<Rightarrow> string \<Rightarrow> Recommendation \<Rightarrow> string \<Rightarrow> time \<Rightarrow> ChannelCommand" where
  "weightCommand kind instance status command v actor now =
     \<lparr>cm_SiteID = rec_InstanceID v, cm_ExecutionKind = kind, cm_ID = command, cm_InstanceID = instance, cm_ChannelID = rec_ChannelID v,
      cm_CommandType = ''channel.update'', cm_Payload = weightPayload v, cm_Status = status, cm_CreatedBy = actor,
      cm_ErrorSummary = [], cm_CreatedAt = now, cm_UpdatedAt = now\<rparr>"

definition markStatusCommand :: "Recommendation \<Rightarrow> string \<Rightarrow> controlDB \<Rightarrow> controlDB" where
  "markStatusCommand v command db =
     (case rec_ProposedChannelStatus v of
        None \<Rightarrow> db
      | Some target \<Rightarrow>
          onState (rec_InstanceID v) (rec_ChannelID v) (\<lambda>s. s_ControlRevision s = recommendationControlRevision v)
            (\<lambda>s. s\<lparr>s_CircuitStatusCommandID := command, s_CircuitStatusTarget := target\<rparr>) db)"

text \<open>The statements that the direct and the queued path share: the recommendation, the command, the marker of the
  capacity controller, the marker of the circuit and the audit.\<close>

definition weightTrail :: "auditEnv \<Rightarrow> ChannelCommand \<Rightarrow> Recommendation \<Rightarrow> string \<Rightarrow> OperationAudit \<Rightarrow> string \<Rightarrow> time \<Rightarrow> controlDB \<Rightarrow> goerr + controlDB" where
  "weightTrail A c v actor ctx status now db =
     (if map_of (db_recommendations db) (rec_ID v) \<noteq> None \<or> map_of (db_commands db) (cm_ID c) \<noteq> None then Inl dbError
      else let r = v\<lparr>rec_Status := ''auto_executed'', rec_CommandID := Some (cm_ID c), rec_ActedBy := actor, rec_ActedAt := Some now\<rparr>;
               db1 = db\<lparr>db_recommendations := (rec_ID v, r) # db_recommendations db, db_commands := (cm_ID c, c) # db_commands db\<rparr>
           in case linkCapacityCommand v (cm_ID c) db1 of
                None \<Rightarrow> Inl ErrDecisionSuperseded
              | Some db2 \<Rightarrow>
                  (case insertOperationAuditTx A (weightAudit (cm_ID c) v actor ctx status now) (markStatusCommand v (cm_ID c) db2) of
                     None \<Rightarrow> Inl dbError
                   | Some db3 \<Rightarrow> Inr db3))"

definition prioritySyncMalformed :: "Recommendation \<Rightarrow> bool" where
  "prioritySyncMalformed v \<longleftrightarrow> rec_Rule v = prioritySyncRule \<and> (rec_CurrentPriority v = None \<or> rec_ProposedPriority v = None)"

definition RecordDirectWeightChangeWithAudit ::
    "auditEnv \<Rightarrow> dbFault \<Rightarrow> string \<Rightarrow> Recommendation \<Rightarrow> string \<Rightarrow> time \<Rightarrow> OperationAudit \<Rightarrow> controlDB \<Rightarrow> (goerr + string) \<times> controlDB" where
  "RecordDirectWeightChangeWithAudit A f command v actor now ctx db =
     (if prioritySyncMalformed v then (Inl (ErrText ''base priority sync requires current and proposed priority''), db)
      else case weightTrail A (weightCommand ''ct_direct'' [] ''succeeded'' command v actor now) v actor ctx ''succeeded'' now db of
             Inl e \<Rightarrow> (Inl e, db)
           | Inr new \<Rightarrow> (case commitTx f db new of (db', ok) \<Rightarrow> (if ok then Inr command else Inl dbError, db')))"

text \<open>The queue of the Agent: the gates are passed again inside the transaction.\<close>

record queueInput =
  qi_fails :: "gateQuery \<Rightarrow> bool"
  qi_checkAt :: time
  qi_instance :: "string option"
  qi_command :: string
  qi_fault :: dbFault

definition queueWeightChange ::
    "auditEnv \<Rightarrow> queueInput \<Rightarrow> Recommendation \<Rightarrow> string \<Rightarrow> time \<Rightarrow> OperationAudit \<Rightarrow> controlDB \<Rightarrow> (goerr + string) \<times> controlDB" where
  "queueWeightChange A Q v actor now ctx db =
     (case checkPrioritySync (qi_fails Q) db v of Some e \<Rightarrow> (Inl e, db) | None \<Rightarrow>
      if prioritySyncMalformed v then (Inl (ErrText ''base priority sync requires current and proposed priority''), db)
      else case checkManualChannelControl (qi_fails Q) db v of Some e \<Rightarrow> (Inl e, db) | None \<Rightarrow>
      case checkContinuousCapacity (qi_fails Q) db v (qi_checkAt Q) [] of Some e \<Rightarrow> (Inl e, db) | None \<Rightarrow>
      case checkCircuitStatus (qi_fails Q) db v (qi_checkAt Q) of Some e \<Rightarrow> (Inl e, db) | None \<Rightarrow>
      case qi_instance Q of
        None \<Rightarrow> (Inl dbError, db)
      | Some i \<Rightarrow>
          (case weightTrail A (weightCommand ''agent'' i ''pending'' (qi_command Q) v actor now) v actor ctx ''submitted'' now db of
             Inl e \<Rightarrow> (Inl e, db)
           | Inr new \<Rightarrow> (case commitTx (qi_fault Q) db new of (db', ok) \<Rightarrow> (if ok then Inr (qi_command Q) else Inl dbError, db'))))"

section \<open>The direct write\<close>

text \<open>The locks of the site and of the channel.\<close>

datatype lockOutcome = LockHeld | LockDeadline | LockBusy | LockError

definition lockChannelWrite :: "lockOutcome \<Rightarrow> lockOutcome \<Rightarrow> storeError option" where
  "lockChannelWrite site channel =
     (case site of
        LockDeadline \<Rightarrow> Some ErrBusy
      | LockBusy \<Rightarrow> Some ErrBusy
      | LockError \<Rightarrow> Some ErrDB
      | LockHeld \<Rightarrow> (case channel of LockBusy \<Rightarrow> Some ErrBusy | LockHeld \<Rightarrow> None | _ \<Rightarrow> Some ErrDB))"

record writeAttempt =
  wa_apply :: dbFault
  wa_command :: string
  wa_record :: dbFault

record weightInput =
  wi_controller :: controllerLookup
  wi_queue :: queueInput
  wi_siteLock :: lockOutcome
  wi_channelLock :: lockOutcome
  wi_fails :: "gateQuery \<Rightarrow> bool"
  wi_statusAt :: time
  wi_capacityAt :: time
  wi_update :: updateInput
  wi_writtenAt :: time
  wi_first :: writeAttempt
  wi_second :: writeAttempt

definition weightGates :: "weightInput \<Rightarrow> Recommendation \<Rightarrow> controlDB \<Rightarrow> goerr option" where
  "weightGates I v db =
     (case checkManualChannelControl (wi_fails I) db v of Some e \<Rightarrow> Some e | None \<Rightarrow>
      case checkPrioritySync (wi_fails I) db v of Some e \<Rightarrow> Some e | None \<Rightarrow>
      case checkCircuitStatus (wi_fails I) db v (wi_statusAt I) of Some e \<Rightarrow> Some e | None \<Rightarrow>
      checkContinuousCapacity (wi_fails I) db v (wi_capacityAt I) [])"

definition weightRequest :: "Recommendation \<Rightarrow> goerr + UpdateRequest" where
  "weightRequest v =
     (if rec_Rule v = prioritySyncRule
      then (case rec_ProposedPriority v of
              None \<Rightarrow> Inl (ErrText ''proposed priority must not be negative'')
            | Some p \<Rightarrow> if p < 0 then Inl (ErrText ''proposed priority must not be negative'')
                        else Inr ((noUpdate (rec_ChannelID v))\<lparr>up_Priority := Some p\<rparr>))
      else if rec_ProposedWeight v < 0 then Inl (ErrText ''proposed weight must not be negative'')
      else Inr ((noUpdate (rec_ChannelID v))\<lparr>up_Weight := Some (rec_ProposedWeight v), up_Status := rec_ProposedChannelStatus v\<rparr>))"

definition weightJournal :: "Recommendation \<Rightarrow> string \<Rightarrow> journalController" where
  "weightJournal v actor =
     \<lparr>jc_site = rec_InstanceID v, jc_actor = actor, jc_recommendation = rec_ID v, jc_operation = [],
      jc_before = (noUpdate (rec_ChannelID v))\<lparr>up_Weight := Some (rec_CurrentWeight v), up_Priority := rec_CurrentPriority v\<rparr>\<rparr>"

text \<open>Any error of the request is reported with its text; the callers do not look into it.\<close>

definition executeWeightUpdate :: "weightInput \<Rightarrow> Recommendation \<Rightarrow> string \<Rightarrow> controlWorld \<Rightarrow> goerr option \<times> string \<times> controlWorld" where
  "executeWeightUpdate I v actor w =
     (case weightRequest v of
        Inl e \<Rightarrow> (Some e, [], w)
      | Inr u \<Rightarrow>
          (case journalUpdate (weightJournal v actor) (wi_update I) u w of
             (None, key, w1) \<Rightarrow> (None, key, w1)
           | (Some e, key, w1) \<Rightarrow> (Some (ErrText ''request''), key, w1)))"

definition recordAttempt :: "auditEnv \<Rightarrow> Recommendation \<Rightarrow> string \<Rightarrow> time \<Rightarrow> OperationAudit \<Rightarrow> writeAttempt \<Rightarrow> controlDB \<Rightarrow> (goerr + string) \<times> controlDB" where
  "recordAttempt A v actor t ctx a db =
     (let sync = (rec_Rule v = prioritySyncRule)
      in case ApplyChannelWrite (wa_apply a) (rec_InstanceID v) (rec_ChannelID v) (if sync then None else Some (rec_ProposedWeight v))
                (if sync then rec_ProposedPriority v else None) (rec_ProposedChannelStatus v) t db of
           (db1, False) \<Rightarrow> (Inl dbError, db1)
         | (db1, True) \<Rightarrow> RecordDirectWeightChangeWithAudit A (wa_record a) (wa_command a) v actor t ctx db1)"

text \<open>A write that reached the upstream is a success whatever happens to its record.\<close>

definition recordExecutedWrite :: "(controlDB \<Rightarrow> (goerr + string) \<times> controlDB) \<Rightarrow> (controlDB \<Rightarrow> (goerr + string) \<times> controlDB) \<Rightarrow>
    controlDB \<Rightarrow> string \<times> controlDB" where
  "recordExecutedWrite first second db =
     (case first db of
        (Inr command, db1) \<Rightarrow> (command, db1)
      | (Inl e, db1) \<Rightarrow>
          (case second db1 of
             (Inr command, db2) \<Rightarrow> (command, db2)
           | (Inl e, db2) \<Rightarrow> ([], db2)))"

definition writeWeight :: "auditEnv \<Rightarrow> weightInput \<Rightarrow> Recommendation \<Rightarrow> string \<Rightarrow> OperationAudit \<Rightarrow> controlWorld \<Rightarrow> (goerr + string) \<times> controlWorld" where
  "writeWeight A I v actor ctx w =
     (case executeWeightUpdate I v actor w of
        (Some e, key, w1) \<Rightarrow> (Inl (ErrWrap ''direct weight write'' e), w1)
      | (None, key, w1) \<Rightarrow>
          (case recordExecutedWrite (recordAttempt A v actor (wi_writtenAt I) ctx (wi_first I))
                  (recordAttempt A v actor (wi_writtenAt I) ctx (wi_second I)) (cw_db w1) of
             (command, db2) \<Rightarrow> (Inr command, linkRequest (wi_update I) key command (w1\<lparr>cw_db := db2\<rparr>))))"

definition directWeightChange :: "auditEnv \<Rightarrow> weightInput \<Rightarrow> Recommendation \<Rightarrow> string \<Rightarrow> time \<Rightarrow> OperationAudit \<Rightarrow> controlWorld \<Rightarrow>
    (goerr + string) \<times> controlWorld" where
  "directWeightChange A I v actor now ctx w =
     (case wi_controller I of
        CtlError \<Rightarrow> (Inl dbError, w)
      | CtlNone \<Rightarrow> (case queueWeightChange A (wi_queue I) v actor now ctx (cw_db w) of (r, db') \<Rightarrow> (r, w\<lparr>cw_db := db'\<rparr>))
      | CtlDirect reads \<Rightarrow>
          (case lockChannelWrite (wi_siteLock I) (wi_channelLock I) of
             Some ErrBusy \<Rightarrow> (Inl ErrDecisionSuperseded, w)
           | Some e \<Rightarrow> (Inl dbError, w)
           | None \<Rightarrow>
               (case weightGates I v (cw_db w) of
                  Some e \<Rightarrow> (Inl e, w)
                | None \<Rightarrow> writeWeight A I v actor ctx w)))"

section \<open>Saving the state of the engine\<close>

text \<open>A state of an older generation is refused.  A round of probes whose result has arrived is not reopened: its
  columns keep what the result wrote.\<close>

definition keepProbe :: "ContinuousState \<Rightarrow> ContinuousState \<Rightarrow> ContinuousState" where
  "keepProbe stored v =
     v\<lparr>s_ProbeCommandID := s_ProbeCommandID stored, s_ProbeAttempts := s_ProbeAttempts stored, s_ProbeSuccesses := s_ProbeSuccesses stored,
       s_ProbeDurationSum := s_ProbeDurationSum stored, s_ProbeSlowStreak := s_ProbeSlowStreak stored\<rparr>"

definition savedState :: "controlDB \<Rightarrow> ContinuousState \<Rightarrow> ContinuousState" where
  "savedState db v =
     (let key = (s_InstanceID v, s_ChannelID v)
      in case map_of (db_states db) key of
           None \<Rightarrow> v
         | Some stored \<Rightarrow>
             if s_ProbeCommandID v \<noteq> None \<and> s_ProbeCommandID v = map_of (db_lastProbe db) key then keepProbe stored v else v)"

definition storedRevision :: "controlDB \<Rightarrow> string \<times> int64 \<Rightarrow> int64" where
  "storedRevision db key = (case map_of (db_states db) key of None \<Rightarrow> 0 | Some s \<Rightarrow> s_ControlRevision s)"

definition putState :: "bool \<Rightarrow> dbFault \<Rightarrow> ContinuousState \<Rightarrow> controlDB \<Rightarrow> goerr option \<times> controlDB" where
  "putState readFails f v db =
     (if readFails then (Some dbError, db)
      else if storedRevision db (s_InstanceID v, s_ChannelID v) \<noteq> s_ControlRevision v then (superseded, db)
      else case commitTx f db (db\<lparr>db_states := AList.update (s_InstanceID v, s_ChannelID v) (savedState db v) (db_states db)\<rparr>) of
             (db', ok) \<Rightarrow> (if ok then None else Some dbError, db'))"

section \<open>The result of a recovery probe\<close>

definition RecordContinuousProbeResultWithLatency ::
    "dbFault \<Rightarrow> int64 \<Rightarrow> string \<Rightarrow> int64 \<Rightarrow> int64 \<Rightarrow> float64 \<Rightarrow> int64 \<Rightarrow> time \<Rightarrow> controlDB \<Rightarrow> goerr option \<times> controlDB" where
  "RecordContinuousProbeResultWithLatency f channel command attempts successes duration slowStreak now db =
     (if slowStreak < 0 \<or> slowStreak > attempts \<or> slowStreak > attempts - successes
      then (Some (ErrText ''invalid probe slow streak''), db)
      else let hit = (\<lambda>(k, s). snd k = channel \<and> s_ProbeCommandID s = Some command);
               keys = map fst (filter hit (db_states db))
           in case commitTx f db
                (db\<lparr>db_states := updateWhere hit
                      (\<lambda>s. s\<lparr>s_ProbeCommandID := None, s_ProbeAttempts := attempts, s_ProbeSuccesses := successes,
                           s_ProbeDurationSum := duration, s_ProbeSlowStreak := slowStreak, s_UpdatedAt := now\<rparr>) (db_states db),
                    db_lastProbe := foldl (\<lambda>m k. AList.update k command m) (db_lastProbe db) keys\<rparr>) of
                (db', ok) \<Rightarrow> (if ok then None else Some dbError, db'))"

end
