(* ===== verification/ManualControl.thy ===== *)
theory ManualControl
  imports DirectWrites
begin

text \<open>
  Manual control of a channel (\<open>server/internal/mysqlstore/manual_channel.go\<close>,
  \<open>server/internal/directcontrol/manual_channel.go\<close>) and the directory of channels as the collectors report it
  (\<open>server/internal/mysqlstore/circuit_ownership.go\<close>, \<open>store.go\<close>).

  An operator takes a channel over before the upstream is contacted: the state of the channel gets a new control
  revision and the pause \<open>manual_disabled\<close>, queued automatic commands expire, and only a confirmed enable, or the
  channel being seen enabled outside, gives it back to the engine.
\<close>

section \<open>Taking over\<close>

definition ErrChannelControlBusy :: goerr where
  "ErrChannelControlBusy = ErrText ''channel control is busy''"

definition ErrManualStatusUnavailable :: goerr where
  "ErrManualStatusUnavailable = ErrText ''manual channel status requires direct control''"

definition channelNotFound :: goerr where
  "channelNotFound = ErrText ''channel not found''"

text \<open>A command that may still change the channel: one an Agent has, or one of an operator.\<close>

definition busyCommand :: "string \<Rightarrow> int64 \<Rightarrow> ChannelCommand \<Rightarrow> bool" where
  "busyCommand site channel c \<longleftrightarrow>
     cm_SiteID c = site \<and> cm_ChannelID c = channel \<and> (cm_Status c = ''pending'' \<or> cm_Status c = ''delivered'') \<and>
     \<not> pl_ManualControl (cm_Payload c) \<and>
     cm_CommandType c = ''channel.update'' \<and> (cm_Status c = ''delivered'' \<or> cm_CreatedBy c \<noteq> ''system:auto'')"

text \<open>The defaults of the columns of the table of states.\<close>

definition defaultState :: "string \<Rightarrow> int64 \<Rightarrow> string \<Rightarrow> time \<Rightarrow> ContinuousState" where
  "defaultState site channel model now =
     zeroContinuousState\<lparr>s_InstanceID := site, s_ChannelID := channel, s_ModelName := model, s_KError := 1, s_KSpeed := 1,
       s_KCache := 1, s_KOTPS := 1, s_Multiplier := 1, s_Phase := ''normal'', s_UpdatedAt := now\<rparr>"

text \<open>A new generation of the state: nothing is left of circuit, probes, factors and pending writes.\<close>

definition newGeneration :: "string \<Rightarrow> int64 \<Rightarrow> time \<Rightarrow> ContinuousState \<Rightarrow> ContinuousState" where
  "newGeneration paused weight t s =
     s\<lparr>s_ControlRevision := s_ControlRevision s + 1, s_PausedReason := paused, s_Phase := ''normal'',
       s_CircuitDisabled := False, s_RoutineCircuitLatched := False, s_CircuitStatusTarget := 0, s_CircuitStatusCommandID := [],
       s_CircuitOpenedAt := None, s_NextProbeAt := None, s_ProbeCommandID := None, s_ProbeAttempts := 0, s_ProbeSuccesses := 0,
       s_ProbeDurationSum := 0, s_ProbeSlowStreak := 0, s_OriginalPriority := None, s_SoftStartPending := False,
       s_KError := 1, s_KSpeed := 1, s_KCache := 1, s_KOTPS := 1, s_Multiplier := 1, s_SmoothedErrorRate := 0,
       s_ProposedWeight := weight, s_LastWrittenWeight := None, s_LastWriteAt := None, s_LastObservedWeight := Some weight,
       s_LastBucketAt := Some t, s_WriteFailureStreak := 0, s_LastWriteFailureAt := None, s_LastWriteError := [],
       s_Capacity := zeroCapacityControl, s_Evaluation := None, s_ProbeSpeed := zeroProbeSpeedStats, s_UpdatedAt := t\<rparr>"

definition takeOver :: "string \<Rightarrow> int64 \<Rightarrow> int64 \<Rightarrow> time \<Rightarrow> controlDB \<Rightarrow> controlDB" where
  "takeOver site channel weight now db =
     (let key = (site, channel);
          model = (case map_of (db_bases db) key of None \<Rightarrow> [] | Some b \<Rightarrow> b_ModelName b);
          old = (case map_of (db_states db) key of None \<Rightarrow> defaultState site channel model now | Some s \<Rightarrow> s)
      in db\<lparr>db_states := AList.update key (newGeneration ManualDisabled weight now old) (db_states db),
            db_lastProbe := AList.delete key (db_lastProbe db)\<rparr>)"

definition pendingAuto :: "string \<Rightarrow> int64 \<Rightarrow> ChannelCommand \<Rightarrow> bool" where
  "pendingAuto site channel c \<longleftrightarrow> cm_SiteID c = site \<and> cm_ChannelID c = channel \<and> cm_CreatedBy c = ''system:auto'' \<and> cm_Status c = ''pending''"

definition expirePending :: "string \<Rightarrow> int64 \<Rightarrow> time \<Rightarrow> controlDB \<Rightarrow> controlDB" where
  "expirePending site channel now db =
     (let hit = (\<lambda>(k, c). pendingAuto site channel c);
          ids = map fst (filter hit (db_commands db))
      in db\<lparr>db_audits := updateWhere (\<lambda>(k, a). k \<in> set ids \<and> au_Status a = ''submitted'')
              (\<lambda>a. a\<lparr>au_Status := ''expired'', au_ErrorSummary := ''manual channel control'', au_UpdatedAt := now\<rparr>) (db_audits db),
            db_recommendations := updateWhere (\<lambda>(k, r). \<exists>c \<in> set ids. rec_CommandID r = Some c)
              (\<lambda>r. r\<lparr>rec_Status := ''expired'', rec_OutcomeAt := Some now\<rparr>) (db_recommendations db),
            db_commands := updateWhere hit
              (\<lambda>c. c\<lparr>cm_Status := ''expired'', cm_ErrorSummary := ''manual channel control'', cm_UpdatedAt := now\<rparr>) (db_commands db)\<rparr>)"

definition manualCommand :: "string \<Rightarrow> string \<Rightarrow> int64 \<Rightarrow> int64 \<Rightarrow> int64 \<Rightarrow> string \<Rightarrow> time \<Rightarrow> ChannelCommand" where
  "manualCommand command site channel target revision actor now =
     \<lparr>cm_SiteID = site, cm_ExecutionKind = ''ct_direct'', cm_ID = command, cm_InstanceID = [], cm_ChannelID = channel,
      cm_CommandType = ''channel.update'',
      cm_Payload = \<lparr>pl_Update = (noUpdate channel)\<lparr>up_Status := Some target\<rparr>, pl_ManualControl = True,
                    pl_ControlRevision = Some revision, pl_Probe = None\<rparr>,
      cm_Status = ''delivered'', cm_CreatedBy = actor, cm_ErrorSummary = [], cm_CreatedAt = now, cm_UpdatedAt = now\<rparr>"

definition manualAudit :: "string \<Rightarrow> string \<Rightarrow> int64 \<Rightarrow> string \<Rightarrow> time \<Rightarrow> OperationAudit" where
  "manualAudit command site channel actor now =
     zeroOperationAudit\<lparr>oa_ID := command, oa_InstanceID := site, oa_OperationType := ''channel.update'', oa_TargetID := showInt channel,
       oa_ActorID := actor, oa_Status := ''submitted'', oa_CreatedAt := now, oa_UpdatedAt := now\<rparr>"

text \<open>The statements of the transaction: the command and the tables; \<open>None\<close> when an identifier is taken.\<close>

definition beginTx :: "auditEnv \<Rightarrow> string \<Rightarrow> string \<Rightarrow> int64 \<Rightarrow> int64 \<Rightarrow> int64 \<Rightarrow> string \<Rightarrow> time \<Rightarrow> controlDB \<Rightarrow> (ChannelCommand \<times> controlDB) option" where
  "beginTx A command site channel weight target actor now db =
     (let db1 = takeOver site channel weight now db;
          cmd = manualCommand command site channel target (storedRevision db1 (site, channel)) actor now;
          db2 = expirePending site channel now db1
      in if map_of (db_commands db) command \<noteq> None then None
         else map_option (Pair cmd)
                (insertOperationAuditTx A (manualAudit command site channel actor now) (db2\<lparr>db_commands := (command, cmd) # db_commands db2\<rparr>)))"

definition BeginManualChannelStatus ::
    "auditEnv \<Rightarrow> bool \<Rightarrow> dbFault \<Rightarrow> string \<Rightarrow> string \<Rightarrow> int64 \<Rightarrow> int64 \<Rightarrow> string \<Rightarrow> time \<Rightarrow> controlDB \<Rightarrow> (goerr + ChannelCommand) \<times> controlDB" where
  "BeginManualChannelStatus A readFails f command site channel target actor now db =
     (if target \<noteq> 1 \<and> target \<noteq> 2 then (Inl (ErrText ''invalid channel status''), db)
      else if readFails then (Inl dbError, db)
      else if \<exists>(k, c) \<in> set (db_commands db). busyCommand site channel c then (Inl ErrChannelControlBusy, db)
      else case currentOf db site channel of
             None \<Rightarrow> (Inl channelNotFound, db)
           | Some cu \<Rightarrow>
               (case beginTx A command site channel (cu_Weight cu) target actor now db of
                  None \<Rightarrow> (Inl dbError, db)
                | Some (cmd, new) \<Rightarrow> (case commitTx f db new of (db', ok) \<Rightarrow> (if ok then Inr cmd else Inl dbError, db'))))"

section \<open>The result of a manual operation\<close>

definition settleManual :: "string \<Rightarrow> ChannelCommand \<Rightarrow> bool \<Rightarrow> time \<Rightarrow> controlDB \<Rightarrow> controlDB" where
  "settleManual site cmd succeeded t db =
     (let channel = cm_ChannelID cmd;
          status = (if succeeded then ''succeeded'' else ''failed'');
          reason = (if succeeded then [] else ''status request unconfirmed; manual hold retained'');
          db1 = (if \<not> succeeded then db
                 else let db2 = setClosed site channel False (applyCompletedChannelWrite cmd t db)
                      in if up_Status (pl_Update (cm_Payload cmd)) = Some 1
                         then onState site channel (\<lambda>s. True)
                                (\<lambda>s. s\<lparr>s_ControlRevision := s_ControlRevision s + 1, s_PausedReason := [], s_LastBucketAt := Some t, s_UpdatedAt := t\<rparr>) db2
                         else onState site channel (\<lambda>s. True) (\<lambda>s. s\<lparr>s_LastWriteAt := Some t, s_UpdatedAt := t\<rparr>) db2)
      in db1\<lparr>db_commands := updateWhere (\<lambda>(k, c). k = cm_ID cmd)
               (\<lambda>c. c\<lparr>cm_Status := status, cm_ErrorSummary := reason, cm_UpdatedAt := t\<rparr>) (db_commands db1),
             db_audits := updateWhere (\<lambda>(k, a). k = cm_ID cmd)
               (\<lambda>a. a\<lparr>au_Status := status, au_ErrorSummary := reason, au_UpdatedAt := t\<rparr>) (db_audits db1)\<rparr>)"

definition FinishManualChannelStatus ::
    "bool \<Rightarrow> dbFault \<Rightarrow> string \<Rightarrow> ChannelCommand \<Rightarrow> bool \<Rightarrow> time \<Rightarrow> controlDB \<Rightarrow> goerr option \<times> controlDB" where
  "FinishManualChannelStatus readFails f site cmd succeeded t db =
     (if readFails then (Some dbError, db)
      else case map_of (db_commands db) (cm_ID cmd) of
             None \<Rightarrow> (Some dbError, db)
           | Some c \<Rightarrow>
               if succeeded \<and> cm_Status c = ''succeeded'' \<or> \<not> succeeded \<and> cm_Status c = ''failed'' then (None, db)
               else case map_of (db_states db) (site, cm_ChannelID cmd) of
                      None \<Rightarrow> (Some dbError, db)
                    | Some s \<Rightarrow>
                        if s_ControlRevision s \<noteq> (case pl_ControlRevision (cm_Payload cmd) of None \<Rightarrow> 0 | Some r \<Rightarrow> r) then (superseded, db)
                        else case commitTx f db (settleManual site cmd succeeded t db) of
                               (db', ok) \<Rightarrow> (if ok then None else Some dbError, db'))"

section \<open>The handler\<close>

record manualInput =
  mi_controller :: controllerLookup
  mi_siteLock :: lockOutcome
  mi_channelLock :: lockOutcome
  mi_beginReads :: bool
  mi_begin :: dbFault
  mi_command :: string
  mi_update :: updateInput
  mi_writtenAt :: time
  mi_firstReads :: bool
  mi_first :: dbFault
  mi_secondReads :: bool
  mi_second :: dbFault

definition manualJournal :: "string \<Rightarrow> int64 \<Rightarrow> int64 \<Rightarrow> string \<Rightarrow> journalController" where
  "manualJournal site channel target actor =
     \<lparr>jc_site = site, jc_actor = actor, jc_recommendation = [],
      jc_operation = (if target = 1 then ''channel.manual_enable'' else ''channel.manual_disable''), jc_before = noUpdate channel\<rparr>"

text \<open>Everything after the take-over: the request, its result recorded in at most two attempts, the link of the journal.\<close>

definition finishTwice :: "manualInput \<Rightarrow> string \<Rightarrow> ChannelCommand \<Rightarrow> bool \<Rightarrow> controlDB \<Rightarrow> goerr option \<times> controlDB" where
  "finishTwice I site cmd succeeded db =
     (case FinishManualChannelStatus (mi_firstReads I) (mi_first I) site cmd succeeded (mi_writtenAt I) db of
        (None, db1) \<Rightarrow> (None, db1)
      | (Some e, db1) \<Rightarrow> FinishManualChannelStatus (mi_secondReads I) (mi_second I) site cmd succeeded (mi_writtenAt I) db1)"

definition requestManual :: "manualInput \<Rightarrow> string \<Rightarrow> ChannelCommand \<Rightarrow> int64 \<Rightarrow> string \<Rightarrow> controlWorld \<Rightarrow> (goerr + ChannelCommand) \<times> controlWorld" where
  "requestManual I site cmd target actor w =
     (case journalUpdate (manualJournal site (cm_ChannelID cmd) target actor) (mi_update I)
             ((noUpdate (cm_ChannelID cmd))\<lparr>up_Status := Some target\<rparr>) w of
        (err, key, w1) \<Rightarrow>
          (case finishTwice I site cmd (err = None) (cw_db w1) of
             (e2, db2) \<Rightarrow>
               let w2 = linkRequest (mi_update I) key (cm_ID cmd) (w1\<lparr>cw_db := db2\<rparr>)
               in (case e2 of
                     Some e \<Rightarrow> Inl (ErrWrap ''manual status result persistence'' e)
                   | None \<Rightarrow> if err \<noteq> None then Inl (ErrText ''manual status request'')
                             else Inr (cmd\<lparr>cm_Status := ''succeeded'', cm_UpdatedAt := mi_writtenAt I\<rparr>), w2)))"

definition UpdateChannelStatus ::
    "auditEnv \<Rightarrow> manualInput \<Rightarrow> string \<Rightarrow> int64 \<Rightarrow> int64 \<Rightarrow> string \<Rightarrow> time \<Rightarrow> controlWorld \<Rightarrow> (goerr + ChannelCommand) \<times> controlWorld" where
  "UpdateChannelStatus A I site channel target actor now w =
     (case mi_controller I of
        CtlError \<Rightarrow> (Inl dbError, w)
      | CtlNone \<Rightarrow> (Inl ErrManualStatusUnavailable, w)
      | CtlDirect reads \<Rightarrow>
          (case lockChannelWrite (mi_siteLock I) (mi_channelLock I) of
             Some ErrBusy \<Rightarrow> (Inl ErrChannelControlBusy, w)
           | Some e \<Rightarrow> (Inl dbError, w)
           | None \<Rightarrow>
               (case BeginManualChannelStatus A (mi_beginReads I) (mi_begin I) (mi_command I) site channel target actor now (cw_db w) of
                  (Inl e, db1) \<Rightarrow> (Inl e, w\<lparr>cw_db := db1\<rparr>)
                | (Inr cmd, db1) \<Rightarrow> requestManual I site cmd target actor (w\<lparr>cw_db := db1\<rparr>))))"

text \<open>Whether a running round of recovery probes still owns the channel.\<close>

definition ContinuousProbeActive :: "controlDB \<Rightarrow> string \<Rightarrow> int64 \<Rightarrow> string \<Rightarrow> bool" where
  "ContinuousProbeActive db site channel command \<longleftrightarrow>
     (case map_of (db_states db) (site, channel) of
        None \<Rightarrow> False
      | Some s \<Rightarrow> s_ProbeCommandID s = Some command \<and> s_PausedReason s \<noteq> ManualDisabled)"

section \<open>The directory\<close>

record ChannelSnapshot =
  sn_ChannelID :: int64
  sn_Status :: string
  sn_Weight :: int64
  sn_Models :: modelsText
  sn_Group :: "string option"
  sn_Priority :: "int64 option"
  sn_CapturedAt :: time

text \<open>Seeing the channel enabled outside ends the ownership of the circuit and a manual hold.  A hold whose close was
  never confirmed ends only if the channel was seen disabled before, and none ends while a manual command of its
  generation is under way.\<close>

definition manualUnderWay :: "controlDB \<Rightarrow> string \<Rightarrow> int64 \<Rightarrow> int64 \<Rightarrow> bool" where
  "manualUnderWay db site channel revision \<longleftrightarrow>
     (\<exists>(k, c) \<in> set (db_commands db). cm_SiteID c = site \<and> cm_ChannelID c = channel \<and> cm_CommandType c = ''channel.update'' \<and>
        cm_Status c = ''delivered'' \<and> pl_ManualControl (cm_Payload c) \<and> pl_ControlRevision (cm_Payload c) = Some revision)"

definition releasedBy :: "controlDB \<Rightarrow> string \<Rightarrow> ChannelSnapshot \<Rightarrow> bool \<Rightarrow> ContinuousState \<Rightarrow> bool" where
  "releasedBy db site snap previouslyDisabled s \<longleftrightarrow>
     s_CircuitDisabled s \<and> s_CircuitStatusTarget s = 0 \<and> (case s_LastWriteAt s of None \<Rightarrow> True | Some t \<Rightarrow> t < sn_CapturedAt snap) \<or>
     s_PausedReason s = ManualDisabled \<and> (previouslyDisabled \<or> s_LastWriteAt s \<noteq> None) \<and> s_UpdatedAt s < sn_CapturedAt snap \<and>
       \<not> manualUnderWay db site (sn_ChannelID snap) (s_ControlRevision s)"

definition reconcileChannelOwnership :: "string \<Rightarrow> ChannelSnapshot \<Rightarrow> string \<Rightarrow> controlDB \<Rightarrow> controlDB" where
  "reconcileChannelOwnership site snap previous db =
     (if \<not> enabledLabel (goLower (trimSpace (sn_Status snap))) then db
      else let channel = sn_ChannelID snap;
               wasDisabled = disabledLabel (goLower (trimSpace previous));
               running = (\<lambda>r. case map_of (db_executions db) (sr_LastExecution r) of None \<Rightarrow> False | Some e \<Rightarrow> ex_Status e = ''running'');
               db1 = onSchedule site channel (\<lambda>r. sr_Closed r \<and> \<not> running r) (\<lambda>r. r\<lparr>sr_Closed := False\<rparr>) db;
               released = (case map_of (db_states db1) (site, channel) of None \<Rightarrow> False | Some s \<Rightarrow> releasedBy db1 site snap wasDisabled s)
           in if \<not> released then db1
              else let db2 = onState site channel (\<lambda>s. True) (newGeneration [] (sn_Weight snap) (sn_CapturedAt snap)) db1
                   in db2\<lparr>db_lastProbe := AList.delete (site, channel) (db_lastProbe db2)\<rparr>)"

text \<open>The row of the instance; \<open>None\<close> for an instance the channel was not seen on.\<close>

definition currentOn :: "controlDB \<Rightarrow> string \<Rightarrow> int64 \<Rightarrow> currentRow option" where
  "currentOn db instance channel = find (\<lambda>c. cu_InstanceID c = instance \<and> cu_ChannelID c = channel) (db_current db)"

definition currentRowOf :: "string \<Rightarrow> string \<Rightarrow> bool \<Rightarrow> bool \<Rightarrow> ChannelSnapshot \<Rightarrow> currentRow" where
  "currentRowOf instance site enabled deleted snap =
     \<lparr>cu_InstanceID = instance, cu_Site = site, cu_Enabled = enabled, cu_Deleted = deleted, cu_ChannelID = sn_ChannelID snap,
      cu_Status = sn_Status snap, cu_Weight = sn_Weight snap, cu_Models = sn_Models snap, cu_Group = sn_Group snap,
      cu_Priority = sn_Priority snap, cu_CapturedAt = sn_CapturedAt snap\<rparr>"

definition upsertCurrent :: "string \<Rightarrow> string \<Rightarrow> bool \<Rightarrow> bool \<Rightarrow> ChannelSnapshot \<Rightarrow> controlDB \<Rightarrow> controlDB" where
  "upsertCurrent instance site enabled deleted snap db =
     (let row = currentRowOf instance site enabled deleted snap
      in case currentOn db instance (sn_ChannelID snap) of
           None \<Rightarrow> db\<lparr>db_current := db_current db @ [row]\<rparr>
         | Some c \<Rightarrow> db\<lparr>db_current := map (\<lambda>c. if cu_InstanceID c = instance \<and> cu_ChannelID c = sn_ChannelID snap then row else c) (db_current db)\<rparr>)"

definition upsertBase :: "string \<Rightarrow> ChannelSnapshot \<Rightarrow> string \<Rightarrow> controlDB \<Rightarrow> controlDB" where
  "upsertBase site snap model db =
     (let key = (site, sn_ChannelID snap)
      in db\<lparr>db_bases := AList.update key
          (case map_of (db_bases db) key of
             None \<Rightarrow> \<lparr>b_InstanceID = site, b_ChannelID = sn_ChannelID snap, b_ChannelName = [], b_GroupName = [], b_ModelName = model,
                      b_BaseWeight = sn_Weight snap, b_BasePriority = (case sn_Priority snap of None \<Rightarrow> 0 | Some p \<Rightarrow> p), b_MaxRPM = 0, b_MaxTPM = 0,
                      b_CurrentWeight = 0, b_CurrentPriority = 0, b_SnapshotAt = 0, b_Models = [], b_UpdatedAt = sn_CapturedAt snap,
                      b_UpdatedBy = ''system:snapshot''\<rparr>
           | Some b \<Rightarrow> if b_ModelName b \<noteq> model
                       then b\<lparr>b_ModelName := model, b_BaseWeight := sn_Weight snap, b_UpdatedAt := sn_CapturedAt snap, b_UpdatedBy := ''system:snapshot''\<rparr>
                       else b) (db_bases db)\<rparr>)"

text \<open>\<open>DELETE\<close> of the states that satisfy a condition; the key identifies the row.\<close>

definition deleteStates :: "((string \<times> int64) \<times> ContinuousState \<Rightarrow> bool) \<Rightarrow> controlDB \<Rightarrow> controlDB" where
  "deleteStates p db =
     (let hit = (\<lambda>k. case map_of (db_states db) k of None \<Rightarrow> False | Some s \<Rightarrow> p (k, s))
      in db\<lparr>db_states := filter (\<lambda>e. \<not> hit (fst e)) (db_states db), db_lastProbe := filter (\<lambda>e. \<not> hit (fst e)) (db_lastProbe db)\<rparr>)"

definition assignModel :: "string \<Rightarrow> ChannelSnapshot \<Rightarrow> controlDB \<Rightarrow> controlDB" where
  "assignModel site snap db =
     (case parseChannelModels (sn_Models snap) of
        [model] \<Rightarrow> upsertBase site snap model
          (deleteStates (\<lambda>(k, s). k = (site, sn_ChannelID snap) \<and> s_ModelName s \<noteq> model \<and> s_PausedReason s \<noteq> ManualDisabled) db)
      | _ \<Rightarrow> let db1 = deleteStates (\<lambda>(k, s). k = (site, sn_ChannelID snap) \<and> s_PausedReason s \<noteq> ManualDisabled) db
             in db1\<lparr>db_bases := updateWhere (\<lambda>(k, b). k = (site, sn_ChannelID snap)) (\<lambda>b. b\<lparr>b_ModelName := []\<rparr>) (db_bases db1)\<rparr>)"

text \<open>One snapshot: an older collection cannot overwrite a newer row, nor have any other effect.\<close>

definition syncSnapshot :: "string \<Rightarrow> string \<Rightarrow> bool \<Rightarrow> bool \<Rightarrow> controlDB \<Rightarrow> ChannelSnapshot \<Rightarrow> controlDB" where
  "syncSnapshot instance site enabled deleted db snap =
     (case currentOn db instance (sn_ChannelID snap) of
        Some c \<Rightarrow>
          if \<not> sn_CapturedAt snap > cu_CapturedAt c then db
          else assignModel site snap (reconcileChannelOwnership site snap (cu_Status c) (upsertCurrent instance site enabled deleted snap db))
      | None \<Rightarrow> assignModel site snap (reconcileChannelOwnership site snap [] (upsertCurrent instance site enabled deleted snap db)))"

definition dropAbsent :: "string \<Rightarrow> string \<Rightarrow> int64 list \<Rightarrow> time \<Rightarrow> controlDB \<Rightarrow> controlDB" where
  "dropAbsent instance site channels t db =
     (let db1 = db\<lparr>db_current := filter (\<lambda>c. \<not> (cu_InstanceID c = instance \<and> cu_ChannelID c \<notin> set channels \<and> cu_CapturedAt c \<le> t)) (db_current db)\<rparr>;
          live = map cu_ChannelID (filter (\<lambda>c. cu_Site c = site \<and> cu_Enabled c \<and> \<not> cu_Deleted c) (db_current db1));
          db2 = deleteStates (\<lambda>(k, s). fst k = site \<and> snd k \<notin> set live) db1
      in db2\<lparr>db_bases := filter (\<lambda>(k, b). \<not> (fst k = site \<and> snd k \<notin> set live)) (db_bases db2)\<rparr>)"

text \<open>The report of an Agent.  A site that is read through its own connection ignores it.\<close>

definition SyncChannelSnapshotsAt :: "bool \<Rightarrow> bool \<Rightarrow> dbFault \<Rightarrow> string \<Rightarrow> string \<Rightarrow> bool \<Rightarrow> bool \<Rightarrow> ChannelSnapshot list \<Rightarrow> time \<Rightarrow> controlDB \<Rightarrow>
    goerr option \<times> controlDB" where
  "SyncChannelSnapshotsAt readFails configured f instance site enabled deleted snaps t db =
     (if readFails then (Some dbError, db)
      else if configured then (None, db)
      else case commitTx f db (dropAbsent instance site (map sn_ChannelID snaps) t
                  (foldl (syncSnapshot instance site enabled deleted) db snaps)) of
             (db', ok) \<Rightarrow> (if ok then None else Some dbError, db'))"

end
