(* ===== verification/ControlFrames.thy ===== *)
theory ControlFrames
  imports ManualControl ScheduleRun
begin

text \<open>
  What each operation on the tables does to the generation of a channel: the pair of its pause and its control
  revision.  All but a few operations leave every generation alone; those that do not raise the revision or drop
  the row.
\<close>

section \<open>Generations\<close>

definition generation :: "controlDB \<Rightarrow> string \<times> int64 \<Rightarrow> (string \<times> int64) option" where
  "generation db k = map_option (\<lambda>s. (s_PausedReason s, s_ControlRevision s)) (map_of (db_states db) k)"

definition held :: "controlDB \<Rightarrow> string \<times> int64 \<Rightarrow> bool" where
  "held db k \<longleftrightarrow> (\<exists>r. generation db k = Some (ManualDisabled, r))"

definition sameGenerations :: "controlDB \<Rightarrow> controlDB \<Rightarrow> bool" where
  "sameGenerations db db' \<longleftrightarrow> generation db' = generation db"

lemma sameGenerations_refl [simp]: "sameGenerations db db"
  by (simp add: sameGenerations_def)

lemma sameGenerations_trans [trans]: "sameGenerations a b \<Longrightarrow> sameGenerations b c \<Longrightarrow> sameGenerations a c"
  by (simp add: sameGenerations_def)

lemma sameGenerations_states: "db_states db' = db_states db \<Longrightarrow> sameGenerations db db'"
  by (simp add: sameGenerations_def generation_def fun_eq_iff)

lemma held_same: "sameGenerations db db' \<Longrightarrow> held db' = held db"
  by (simp add: sameGenerations_def held_def fun_eq_iff)

lemma storedRevision_generation: "storedRevision db k = (case generation db k of None \<Rightarrow> 0 | Some (p, r) \<Rightarrow> r)"
  by (simp add: storedRevision_def generation_def split: option.split)

text \<open>An update of rows with their keys needs no distinctness: the first entry decides before and after.\<close>

lemma map_of_updateWhere: "map_of (updateWhere p f rows) k = map_option (\<lambda>v. if p (k, v) then f v else v) (map_of rows k)"
  by (induction rows) (auto simp: updateWhere_def)

lemma map_of_onState [simp]:
  "map_of (db_states (onState site channel p f db)) k =
     (if k = (site, channel) then map_option (\<lambda>s. if p s then f s else s) (map_of (db_states db) k) else map_of (db_states db) k)"
  by (cases "map_of (db_states db) k") (auto simp: onState_def map_of_updateWhere)

lemma onState_same:
  assumes "\<And>s. p s \<Longrightarrow> s_PausedReason (f s) = s_PausedReason s \<and> s_ControlRevision (f s) = s_ControlRevision s"
  shows "sameGenerations db (onState site channel p f db)"
proof -
  have "generation (onState site channel p f db) k = generation db k" for k
    using assms by (cases "map_of (db_states db) (site, channel)") (simp_all add: generation_def)
  then show ?thesis by (auto simp: sameGenerations_def)
qed

lemma commitTx_same: "sameGenerations db new \<Longrightarrow> sameGenerations db (fst (commitTx f db new))"
  by (cases f) auto

section \<open>Operations that leave every generation alone\<close>

lemma states_untouched [simp]:
  "db_states (writeCurrent site channel u t db) = db_states db"
  "db_states (setClosed site channel b db) = db_states db"
  "db_states (onSchedule site channel p g db) = db_states db"
  "db_states (applyCompletedChannelWrite c t db) = db_states db"
  "db_states (expirePending site channel t db) = db_states db"
  "db_states (upsertCurrent i site en del snap db) = db_states db"
  "db_states (confirmCurrent site channel target t db) = db_states db"
  "db_states (confirmRequests key db) = db_states db"
  "db_states (upsertBase site snap model db) = db_states db"
  by (simp_all add: writeCurrent_def setClosed_def onSchedule_def applyCompletedChannelWrite_def expirePending_def Let_def
      confirmCurrent_def confirmRequests_def upsertCurrent_def upsertBase_def split: option.split)

lemma otherTables_states: "otherTables d = otherTables d' \<Longrightarrow> db_states d = db_states d'"
  by (simp add: otherTables_def)

lemma insertAudit_states: "insertOperationAuditTx A v db = Some db' \<Longrightarrow> db_states db' = db_states db"
  by (auto simp: insertOperationAuditTx_def Let_def split: if_splits)

lemma link_same: "linkCapacityCommand v command db = Some db' \<Longrightarrow> sameGenerations db db'"
  by (auto simp: linkCapacityCommand_def Let_def split: if_splits option.splits intro!: onState_same)

lemma mark_same: "sameGenerations db (markStatusCommand v command db)"
  by (auto simp: markStatusCommand_def split: option.split intro!: onState_same)

lemma trail_same:
  assumes "weightTrail A c v actor ctx status now db = Inr db'"
  shows "sameGenerations db db'"
proof -
  let ?db1 = "\<lambda>r. db\<lparr>db_recommendations := (rec_ID v, r) # db_recommendations db, db_commands := (cm_ID c, c) # db_commands db\<rparr>"
  obtain r db2 where l: "linkCapacityCommand v (cm_ID c) (?db1 r) = Some db2"
    and a: "insertOperationAuditTx A (weightAudit (cm_ID c) v actor ctx status now) (markStatusCommand v (cm_ID c) db2) = Some db'"
    using assms by (auto simp: weightTrail_def Let_def split: if_splits option.splits)
  have "sameGenerations db (?db1 r)" by (intro sameGenerations_states) simp
  also have "sameGenerations \<dots> db2" using link_same[OF l] .
  also have "sameGenerations \<dots> (markStatusCommand v (cm_ID c) db2)" by (rule mark_same)
  also have "sameGenerations \<dots> db'" using insertAudit_states[OF a] by (rule sameGenerations_states)
  finally show ?thesis .
qed

lemma record_same: "sameGenerations db (snd (RecordDirectWeightChangeWithAudit A f command v actor now ctx db))"
  by (auto simp: RecordDirectWeightChangeWithAudit_def case_prod_beta split: sum.split dest: trail_same intro: commitTx_same)

lemma queue_same: "sameGenerations db (snd (queueWeightChange A Q v actor now ctx db))"
  by (auto simp: queueWeightChange_def case_prod_beta split: option.split sum.split dest: trail_same intro: commitTx_same)

lemma applyWrite_same: "sameGenerations db (fst (ApplyChannelWrite f site channel weight priority status t db))"
  unfolding ApplyChannelWrite_def Let_def by (intro commitTx_same sameGenerations_states) simp

lemma attempt_same: "sameGenerations db (snd (recordAttempt A v actor t ctx a db))"
proof -
  obtain db1 ok where a: "ApplyChannelWrite (wa_apply a) (rec_InstanceID v) (rec_ChannelID v) (if rec_Rule v = prioritySyncRule then None else Some (rec_ProposedWeight v))
      (if rec_Rule v = prioritySyncRule then rec_ProposedPriority v else None) (rec_ProposedChannelStatus v) t db = (db1, ok)"
    by fastforce
  then have "sameGenerations db db1" by (metis applyWrite_same fst_conv)
  then show ?thesis using a record_same sameGenerations_trans by (cases ok) (auto simp: recordAttempt_def Let_def)
qed

lemma recordTwice_same:
  assumes "\<And>d. sameGenerations d (snd (first d))" "\<And>d. sameGenerations d (snd (second d))"
  shows "sameGenerations db (snd (recordExecutedWrite first second db))"
proof -
  obtain r1 db1 where 1: "first db = (r1, db1)" by fastforce
  obtain r2 db2 where 2: "second db1 = (r2, db2)" by fastforce
  have "sameGenerations db db1" "sameGenerations db1 db2" using assms(1)[of db] assms(2)[of db1] 1 2 by simp_all
  then show ?thesis
    using sameGenerations_trans[of db db1 db2] 1 2 by (auto simp: recordExecutedWrite_def split: sum.split)
qed

lemma link_world_same: "sameGenerations (cw_db w) (cw_db (linkRequest u key command w))"
  by (intro sameGenerations_states otherTables_states linkRequest_frame)

lemma journal_same: "journalUpdate c u r w = (e, key, w') \<Longrightarrow> sameGenerations (cw_db w) (cw_db w')"
  by (intro sameGenerations_states otherTables_states journalUpdate_frame)

lemma writeWeight_same: "sameGenerations (cw_db w) (cw_db (snd (writeWeight A I v actor ctx w)))"
proof -
  obtain e key w1 where x: "executeWeightUpdate I v actor w = (e, key, w1)" by (metis prod_cases3)
  have 1: "sameGenerations (cw_db w) (cw_db w1)"
    using x by (auto simp: executeWeightUpdate_def split: sum.splits prod.splits option.splits dest: journal_same)
  obtain command db2 where r: "recordExecutedWrite (recordAttempt A v actor (wi_writtenAt I) ctx (wi_first I))
      (recordAttempt A v actor (wi_writtenAt I) ctx (wi_second I)) (cw_db w1) = (command, db2)" by (meson surj_pair)
  have 2: "sameGenerations (cw_db w1) db2"
    using recordTwice_same[of "recordAttempt A v actor (wi_writtenAt I) ctx (wi_first I)"
        "recordAttempt A v actor (wi_writtenAt I) ctx (wi_second I)" "cw_db w1"] attempt_same r by simp
  have "sameGenerations db2 (cw_db (linkRequest (wi_update I) key command (w1\<lparr>cw_db := db2\<rparr>)))"
    using link_world_same[of "w1\<lparr>cw_db := db2\<rparr>"] by simp
  then have "sameGenerations (cw_db w) (cw_db (linkRequest (wi_update I) key command (w1\<lparr>cw_db := db2\<rparr>)))"
    using 1 2 sameGenerations_trans by blast
  then show ?thesis using 1 x r by (cases e) (simp_all add: writeWeight_def)
qed

lemma probeResult_same:
  "sameGenerations db (snd (RecordContinuousProbeResultWithLatency f channel command attempts successes duration slow now db))"
proof -
  have "sameGenerations db (db\<lparr>db_states := updateWhere p (\<lambda>s. s\<lparr>s_ProbeCommandID := None, s_ProbeAttempts := attempts, s_ProbeSuccesses := successes,
      s_ProbeDurationSum := duration, s_ProbeSlowStreak := slow, s_UpdatedAt := now\<rparr>) (db_states db), db_lastProbe := q\<rparr>)" for p q
    by (auto simp: sameGenerations_def generation_def map_of_updateWhere option.map_comp o_def fun_eq_iff intro!: option.map_cong)
  then show ?thesis
    by (auto simp: RecordContinuousProbeResultWithLatency_def Let_def case_prod_beta intro: commitTx_same)
qed

section \<open>Saving a state\<close>

lemma keepProbe_generation [simp]: "s_PausedReason (keepProbe a v) = s_PausedReason v" "s_ControlRevision (keepProbe a v) = s_ControlRevision v"
  by (simp_all add: keepProbe_def)

lemma savedState_generation [simp]: "s_PausedReason (savedState db v) = s_PausedReason v" "s_ControlRevision (savedState db v) = s_ControlRevision v"
  by (simp_all add: savedState_def Let_def split: option.split)

lemma putState_result:
  assumes "putState readFails f v db = (e, db')"
  obtains (kept) "db' = db"
  | (saved) "storedRevision db (s_InstanceID v, s_ChannelID v) = s_ControlRevision v"
      "db' = db\<lparr>db_states := AList.update (s_InstanceID v, s_ChannelID v) (savedState db v) (db_states db)\<rparr>"
proof (cases "readFails \<or> storedRevision db (s_InstanceID v, s_ChannelID v) \<noteq> s_ControlRevision v")
  case True
  then show thesis using assms kept by (auto simp: putState_def split: if_splits)
next
  case False
  then have "db' = fst (commitTx f db (db\<lparr>db_states := AList.update (s_InstanceID v, s_ChannelID v) (savedState db v) (db_states db)\<rparr>))"
    using assms by (auto simp: putState_def split: prod.splits)
  then show thesis using kept saved False by (cases f) simp_all
qed

lemma putState_generation:
  assumes "putState readFails f v db = (e, db')"
  obtains (kept) "db' = db"
  | (saved) "storedRevision db (s_InstanceID v, s_ChannelID v) = s_ControlRevision v"
      "generation db' = (generation db)((s_InstanceID v, s_ChannelID v) \<mapsto> (s_PausedReason v, s_ControlRevision v))"
  using assms
proof (cases rule: putState_result)
  case saved
  then have "generation db' = (generation db)((s_InstanceID v, s_ChannelID v) \<mapsto> (s_PausedReason v, s_ControlRevision v))"
    by (auto simp: generation_def update_conv' fun_eq_iff)
  then show thesis using that(2) saved(1) by blast
qed (use that(1) in blast)

section \<open>Manual control\<close>

lemma takeOver_generation:
  "generation (takeOver site channel weight now db) = (generation db)((site, channel) \<mapsto> (ManualDisabled, storedRevision db (site, channel) + 1))"
  by (auto simp: generation_def takeOver_def Let_def update_conv' fun_eq_iff newGeneration_def defaultState_def storedRevision_def zeroContinuousState_def
      split: option.split)

lemma beginTx_generation:
  assumes "beginTx A command site channel weight target actor now db = Some (cmd, new)"
  shows "generation new = (generation db)((site, channel) \<mapsto> (ManualDisabled, storedRevision db (site, channel) + 1))"
    and "cmd = manualCommand command site channel target (storedRevision db (site, channel) + 1) actor now"
proof -
  let ?to = "takeOver site channel weight now db"
  have rev: "storedRevision ?to (site, channel) = storedRevision db (site, channel) + 1"
    by (simp add: storedRevision_generation[of ?to] takeOver_generation)
  have "db_states new = db_states ?to" and cmd: "cmd = manualCommand command site channel target (storedRevision ?to (site, channel)) actor now"
    using assms by (auto simp: beginTx_def Let_def split: if_splits dest: insertAudit_states)
  then show "generation new = (generation db)((site, channel) \<mapsto> (ManualDisabled, storedRevision db (site, channel) + 1))"
    using takeOver_generation[of site channel weight now db] by (simp add: generation_def fun_eq_iff)
  show "cmd = manualCommand command site channel target (storedRevision db (site, channel) + 1) actor now" using cmd rev by simp
qed

lemma begin_generation:
  assumes "BeginManualChannelStatus A readFails f command site channel target actor now db = (r, db')"
  obtains (kept) "db' = db" "\<exists>e. r = Inl e"
  | (taken) "generation db' = (generation db)((site, channel) \<mapsto> (ManualDisabled, storedRevision db (site, channel) + 1))"
      "\<And>cmd. r = Inr cmd \<Longrightarrow> cmd = manualCommand command site channel target (storedRevision db (site, channel) + 1) actor now"
proof (cases "currentOf db site channel")
  case None
  then have "db' = db \<and> (\<exists>e. r = Inl e)" using assms by (auto simp: BeginManualChannelStatus_def split: if_split_asm)
  then show thesis using kept by blast
next
  case (Some cu)
  show thesis
  proof (cases "beginTx A command site channel (cu_Weight cu) target actor now db")
    case None
    then have "db' = db \<and> (\<exists>e. r = Inl e)" using assms Some by (auto simp: BeginManualChannelStatus_def split: if_split_asm)
    then show thesis using kept by blast
  next
    case new: (Some x)
    obtain cmd new where x: "x = (cmd, new)" by (cases x)
    note g = beginTx_generation[OF new[unfolded x]]
    show thesis
    proof (cases "db' = db \<and> (\<exists>e. r = Inl e)")
      case False
      then have c: "commitTx f db new = (db', ok) \<Longrightarrow> r = (if ok then Inr cmd else Inl dbError)" and "db' = fst (commitTx f db new)" for ok
        using assms Some new x by (auto simp: BeginManualChannelStatus_def split: if_split_asm prod.splits)
      then have "db' = new" using False by (cases f) auto
      moreover have "\<And>c. r = Inr c \<Longrightarrow> c = cmd" using c \<open>db' = fst (commitTx f db new)\<close> by (cases "commitTx f db new") (auto split: if_splits)
      ultimately show thesis using taken g by simp
    qed (use kept in blast)
  qed
qed

lemma settle_states:
  "map_of (db_states (settleManual site cmd succeeded t db)) k =
     (if \<not> succeeded \<or> k \<noteq> (site, cm_ChannelID cmd) then map_of (db_states db) k
      else if up_Status (pl_Update (cm_Payload cmd)) = Some 1
      then map_option (\<lambda>s. s\<lparr>s_ControlRevision := s_ControlRevision s + 1, s_PausedReason := [], s_LastBucketAt := Some t, s_UpdatedAt := t\<rparr>) (map_of (db_states db) k)
      else map_option (\<lambda>s. s\<lparr>s_LastWriteAt := Some t, s_UpdatedAt := t\<rparr>) (map_of (db_states db) k))"
  by (cases "map_of (db_states db) k") (simp_all add: settleManual_def Let_def)

text \<open>Recording the result gives the channel back only after a confirmed enable.\<close>

definition givenBack :: "(string \<times> int64) \<Rightarrow> controlDB \<Rightarrow> controlDB \<Rightarrow> bool" where
  "givenBack k db db' \<longleftrightarrow> (\<exists>p r q. generation db k = Some (p, r) \<and> r < q \<and> generation db' = (generation db)(k \<mapsto> ([], q)))"

lemma finish_generation:
  assumes "FinishManualChannelStatus readFails f site cmd succeeded t db = (e, db')"
  shows "sameGenerations db db' \<or>
    succeeded \<and> up_Status (pl_Update (cm_Payload cmd)) = Some 1 \<and> givenBack (site, cm_ChannelID cmd) db db'"
proof (cases "db' = db")
  case False
  then obtain s where s: "map_of (db_states db) (site, cm_ChannelID cmd) = Some s" and db': "db' = settleManual site cmd succeeded t db"
    using assms by (cases f) (auto simp: FinishManualChannelStatus_def split: if_splits option.splits)
  have g: "generation db (site, cm_ChannelID cmd) = Some (s_PausedReason s, s_ControlRevision s)" using s by (simp add: generation_def)
  show ?thesis
  proof (cases "succeeded \<and> up_Status (pl_Update (cm_Payload cmd)) = Some 1")
    case True
    have "generation db' k = ((generation db)((site, cm_ChannelID cmd) \<mapsto> ([], s_ControlRevision s + 1))) k" for k
      using True s by (simp add: db' generation_def settle_states)
    then have "generation db' = (generation db)((site, cm_ChannelID cmd) \<mapsto> ([], s_ControlRevision s + 1))" by (rule ext)
    then show ?thesis using True g by (auto simp: givenBack_def intro!: exI[of _ "s_ControlRevision s + 1"])
  next
    case False
    have "generation db' k = generation db k" for k
      using False by (cases "map_of (db_states db) k") (auto simp: db' generation_def settle_states)
    then show ?thesis by (auto simp: sameGenerations_def)
  qed
qed simp

lemma givenBack_trans: "givenBack k a b \<Longrightarrow> givenBack k b c \<Longrightarrow> givenBack k a c"
  by (auto simp: givenBack_def) (metis order_less_trans)

lemma givenBack_same: "givenBack k a b \<Longrightarrow> sameGenerations b c \<Longrightarrow> givenBack k a c" "sameGenerations a b \<Longrightarrow> givenBack k b c \<Longrightarrow> givenBack k a c"
  by (simp_all add: givenBack_def sameGenerations_def)

lemma request_generation:
  assumes "requestManual I site cmd target actor w = (r, w')"
  shows "sameGenerations (cw_db w) (cw_db w') \<or>
    ui_answer (mi_update I) = None \<and> up_Status (pl_Update (cm_Payload cmd)) = Some 1 \<and> givenBack (site, cm_ChannelID cmd) (cw_db w) (cw_db w')"
proof -
  let ?k = "(site, cm_ChannelID cmd)" and ?up = "up_Status (pl_Update (cm_Payload cmd)) = Some 1"
  obtain err key w1 where j: "journalUpdate (manualJournal site (cm_ChannelID cmd) target actor) (mi_update I)
      ((noUpdate (cm_ChannelID cmd))\<lparr>up_Status := Some target\<rparr>) w = (err, key, w1)" by (metis prod_cases3)
  obtain e2 db2 where f: "finishTwice I site cmd (err = None) (cw_db w1) = (e2, db2)" by (meson surj_pair)
  have w': "cw_db w' = cw_db (linkRequest (mi_update I) key (cm_ID cmd) (w1\<lparr>cw_db := db2\<rparr>))"
    using assms unfolding requestManual_def j prod.case f Let_def by auto
  have last: "sameGenerations db2 (cw_db w')" unfolding w' using link_world_same[of "w1\<lparr>cw_db := db2\<rparr>"] by simp
  have ans: "err = None \<Longrightarrow> ui_answer (mi_update I) = None" by (rule journalUpdate_sent[OF j]) simp_all
  obtain e1 db1 where f1: "FinishManualChannelStatus (mi_firstReads I) (mi_first I) site cmd (err = None) (mi_writtenAt I) (cw_db w1) = (e1, db1)" by (meson surj_pair)
  obtain e3 db3 where f2: "FinishManualChannelStatus (mi_secondReads I) (mi_second I) site cmd (err = None) (mi_writtenAt I) db1 = (e3, db3)" by (meson surj_pair)
  have "db2 = db1 \<or> db2 = db3" using f f1 f2 by (cases e1) (auto simp: finishTwice_def)
  then have "sameGenerations (cw_db w1) db2 \<or> err = None \<and> ?up \<and> givenBack ?k (cw_db w1) db2"
    using finish_generation[OF f1] finish_generation[OF f2]
    by (elim disjE) (auto intro: sameGenerations_trans givenBack_trans givenBack_same)
  then show ?thesis using journal_same[OF j] last ans
    by (elim disjE) (auto intro: sameGenerations_trans givenBack_same)
qed

section \<open>Schedules\<close>

text \<open>A confirmed schedule starts a new generation of its channel; opening ends a manual hold.\<close>

definition fenced :: "(string \<times> int64) \<Rightarrow> controlDB \<Rightarrow> controlDB \<Rightarrow> bool" where
  "fenced k db db' \<longleftrightarrow> sameGenerations db db' \<or>
     (\<exists>p r p'. generation db k = Some (p, r) \<and> generation db' = (generation db)(k \<mapsto> (p', r + 1)) \<and> (p' = p \<or> p' = []))"

lemma confirm_fenced: "fenced (ex_SiteID run, ex_ChannelID run) db (confirmSchedule run now db)"
proof -
  let ?k = "(ex_SiteID run, ex_ChannelID run)"
  let ?db3 = "setClosed (ex_SiteID run) (ex_ChannelID run) (ex_Target run = 2)
    (confirmCurrent (ex_SiteID run) (ex_ChannelID run) (ex_Target run) now (confirmRequests (ex_ID run) db))"
  let ?db4 = "onState (ex_SiteID run) (ex_ChannelID run) (\<lambda>s. True) (fenceState (ex_Target run) now) ?db3"
  have 5: "sameGenerations ?db4 (confirmSchedule run now db)"
    unfolding confirmSchedule_def Let_def by (auto intro!: onState_same simp: forgetMetrics_def)
  have "fenced ?k db ?db4"
  proof (cases "map_of (db_states db) ?k")
    case None
    then have "generation ?db4 k = generation db k" for k by (simp add: generation_def)
    then show ?thesis by (auto simp: fenced_def sameGenerations_def)
  next
    case (Some s)
    let ?p = "if ex_Target run = 1 \<and> s_PausedReason s = ManualDisabled then [] else s_PausedReason s"
    have "generation ?db4 k = ((generation db)(?k \<mapsto> (?p, s_ControlRevision s + 1))) k" for k
      using Some by (simp add: generation_def fenceState_def)
    then have "generation ?db4 = (generation db)(?k \<mapsto> (?p, s_ControlRevision s + 1))" by (rule ext)
    moreover have "generation db ?k = Some (s_PausedReason s, s_ControlRevision s)" using Some by (simp add: generation_def)
    ultimately show ?thesis unfolding fenced_def by auto
  qed
  then show ?thesis using 5 by (auto simp: fenced_def sameGenerations_def)
qed

lemma schedule_states [simp]:
  "db_states (supersedeScheduleExecutions E site channel ex m now db) = db_states db"
  "db_states (resolveScheduleAlert E site channel now db) = db_states db"
  "db_states (raiseScheduleAlert E site channel m now db) = db_states db"
  "db_states (onExecution key f db) = db_states db"
  "db_states (recordAudit key a db) = db_states db"
  "db_states (setNextCheck plan t db) = db_states db"
  "db_states (insertExecution e db) = db_states db"
  "db_states (alertForResult E run status m now db) = db_states db"
  "db_states (storeSchedule E J site channel c db) = db_states db"
  by (simp_all add: supersedeScheduleExecutions_def resolveScheduleAlert_def raiseScheduleAlert_def onExecution_def recordAudit_def
      setNextCheck_def insertExecution_def alertForResult_def storeSchedule_def Let_def)

lemma fenced_same: "sameGenerations a b \<Longrightarrow> fenced k b c \<Longrightarrow> fenced k a c" "fenced k a b \<Longrightarrow> sameGenerations b c \<Longrightarrow> fenced k a c"
  by (auto simp: fenced_def sameGenerations_def)

lemma fenced_refl [simp]: "fenced k db db"
  by (simp add: fenced_def)

lemma fenced_states: "db_states b = db_states a \<Longrightarrow> fenced k a b"
  using sameGenerations_states by (simp add: fenced_def)

lemma finishTx_fenced: "fenced (ex_SiteID run, ex_ChannelID run) db (finishTx E run status m written now db)"
proof -
  let ?db1 = "if written then confirmSchedule run now db
     else if ex_Target run = 1 \<and> (status = ''unchanged'' \<or> status = ''succeeded'') then setClosed (ex_SiteID run) (ex_ChannelID run) False db else db"
  have "sameGenerations ?db1 (finishTx E run status m written now db)"
    unfolding finishTx_def Let_def by (intro sameGenerations_states) simp
  moreover have "fenced (ex_SiteID run, ex_ChannelID run) db ?db1" using confirm_fenced[of run db now] fenced_states by simp
  ultimately show ?thesis by (rule fenced_same(2)[rotated])
qed

lemma finishRun_fenced:
  assumes "finishRun E I run status m written w = (err, w')"
  shows "fenced (ex_SiteID run, ex_ChannelID run) (cw_db w) (cw_db w')"
proof -
  have "fenced (ex_SiteID run, ex_ChannelID run) d (snd (FinishChannelSchedule E f run status m written now d))" for f now d
    using commitTx_all[of "fenced (ex_SiteID run, ex_ChannelID run) d" d "finishTx E run status m written now d" f] finishTx_fenced
    by (auto simp: FinishChannelSchedule_def case_prod_beta split: option.split)
  then show ?thesis using assms by (auto simp: finishRun_def case_prod_beta)
qed

end
