(* ===== verification/ControlRun.thy ===== *)
theory ControlRun
  imports ControlFrames
begin

text \<open>
  The operations on the channels of a site as they interleave.  Manual operations and direct weight writes hold the
  lock of their channel from their first check to the record of the result; an application of a schedule holds
  the site.  Evaluations of the engine, collectors and results of probes take no lock: they come between any two
  steps of the others.  An evaluation reads the state of a channel at one time and saves it at another.
\<close>

section \<open>Operations that only advance a generation\<close>

text \<open>A generation stays, disappears with its row, or is replaced by a later one with the same pause or none.\<close>

fun genStep :: "(string \<times> int64) option \<Rightarrow> (string \<times> int64) option \<Rightarrow> bool" where
  "genStep g None \<longleftrightarrow> True"
| "genStep None (Some h) \<longleftrightarrow> False"
| "genStep (Some (p, r)) (Some (p', q)) \<longleftrightarrow> p' = p \<and> q = r \<or> r < q \<and> (p' = p \<or> p' = [])"

definition advances :: "controlDB \<Rightarrow> controlDB \<Rightarrow> bool" where
  "advances db db' \<longleftrightarrow> (\<forall>k. genStep (generation db k) (generation db' k))"

lemma genStep_refl [simp]: "genStep g g"
  by (cases g) auto

lemma genStep_trans: "genStep a b \<Longrightarrow> genStep b c \<Longrightarrow> genStep a c"
  by (cases a; cases b; cases c) auto

lemma advances_refl [simp]: "advances db db"
  by (simp add: advances_def)

lemma advances_trans [trans]: "advances a b \<Longrightarrow> advances b c \<Longrightarrow> advances a c"
  unfolding advances_def using genStep_trans by blast

lemma same_advances: "sameGenerations db db' \<Longrightarrow> advances db db'"
  by (simp add: sameGenerations_def advances_def)

lemma givenBack_advances: "givenBack k db db' \<Longrightarrow> advances db db'"
  by (auto simp: givenBack_def advances_def)

lemma fenced_advances: "fenced k db db' \<Longrightarrow> advances db db'"
  by (auto simp: fenced_def advances_def sameGenerations_def)

lemma genStep_held: "genStep g (Some (ManualDisabled, q)) \<Longrightarrow> \<exists>r. g = Some (ManualDisabled, r) \<and> r \<le> q"
  by (cases g) (auto simp: ManualDisabled_def)

lemma advances_held: "advances db db' \<Longrightarrow> held db' k \<Longrightarrow> held db k"
  unfolding advances_def held_def by (metis genStep_held)

lemma genStep_grows: "genStep g h \<Longrightarrow> h \<noteq> None \<Longrightarrow> g \<noteq> None \<and> snd (the g) \<le> snd (the h)"
  by (cases g; cases h) auto

lemma storedRevision_some: "generation db k = Some (p, r) \<Longrightarrow> storedRevision db k = r"
  by (simp add: storedRevision_generation)

lemma advances_grows: "advances db db' \<Longrightarrow> generation db' k \<noteq> None \<Longrightarrow> generation db k \<noteq> None \<and> storedRevision db k \<le> storedRevision db' k"
proof -
  assume a: "advances db db'" "generation db' k \<noteq> None"
  then have "generation db k \<noteq> None \<and> snd (the (generation db k)) \<le> snd (the (generation db' k))"
    unfolding advances_def using genStep_grows by blast
  then show ?thesis using a(2) by (cases "generation db k"; cases "generation db' k") (auto simp: storedRevision_generation)
qed

locale control_operation =
  fixes op :: "'i \<Rightarrow> controlDB \<Rightarrow> controlDB"
  assumes op_advances: "advances db (op i db)"
begin

lemma no_new_hold: "held (op i db) k \<Longrightarrow> held db k"
  using advances_held op_advances by blast

lemma revision_grows: "generation (op i db) k \<noteq> None \<Longrightarrow> storedRevision db k \<le> storedRevision (op i db) k"
  using advances_grows op_advances by blast

lemma run_advances: "advances db (fold op is db)"
  by (induction "is" arbitrary: db) (auto intro: advances_trans op_advances)

end

interpretation probe_result: control_operation
  "\<lambda>(f, channel, command, attempts, successes, duration, slow, now) db.
     snd (RecordContinuousProbeResultWithLatency f channel command attempts successes duration slow now db)"
  by unfold_locales (auto intro: same_advances probeResult_same)

interpretation queued_write: control_operation
  "\<lambda>(A, Q, v, actor, now, ctx) db. snd (queueWeightChange A Q v actor now ctx db)"
  by unfold_locales (auto intro: same_advances queue_same)

section \<open>Collectors\<close>

lemma map_of_filter_key: "map_of (filter (\<lambda>e. \<not> hit (fst e)) rows) k = (if hit k then None else map_of rows k)"
  by (induction rows) auto

lemma deleteStates_generation:
  "generation (deleteStates p db) k = (case map_of (db_states db) k of None \<Rightarrow> None | Some s \<Rightarrow> if p (k, s) then None else generation db k)"
  unfolding generation_def deleteStates_def Let_def
  by (cases "map_of (db_states db) k") (simp_all add: map_of_filter_key[where hit = "\<lambda>k. case map_of (db_states db) k of None \<Rightarrow> False | Some s \<Rightarrow> p (k, s)"])

lemma delete_advances: "advances db (deleteStates p db)"
  by (simp add: advances_def deleteStates_generation split: option.split)

lemma newGeneration_step [simp]:
  "s_PausedReason (newGeneration p w t s) = p" "s_ControlRevision (newGeneration p w t s) = s_ControlRevision s + 1"
  by (simp_all add: newGeneration_def)

lemma release_advances: "advances db ((onState site channel (\<lambda>s. True) (newGeneration [] w t) db)\<lparr>db_lastProbe := q\<rparr>)"
proof -
  have "genStep (generation db k) (generation ((onState site channel (\<lambda>s. True) (newGeneration [] w t) db)\<lparr>db_lastProbe := q\<rparr>) k)" for k
    by (cases "map_of (db_states db) k") (auto simp: generation_def)
  then show ?thesis by (simp add: advances_def)
qed

lemma states_advances: "db_states db' = db_states db \<Longrightarrow> advances db db'"
  by (intro same_advances sameGenerations_states)

lemma reconcile_advances: "advances db (reconcileChannelOwnership site snap previous db)"
proof -
  have o: "advances db (onSchedule site c p g db)" for c p g by (rule states_advances) simp
  show ?thesis unfolding reconcileChannelOwnership_def Let_def by (auto intro: o advances_trans[OF o release_advances])
qed

lemma assignModel_advances: "advances db (assignModel site snap db)"
proof -
  have u: "advances d (upsertBase site snap m d)" "advances d (d\<lparr>db_bases := q\<rparr>)" for d m q by (rule states_advances; simp)+
  show ?thesis unfolding assignModel_def Let_def
    by (auto split: list.split intro: advances_trans[OF delete_advances u(1)] advances_trans[OF delete_advances u(2)])
qed

lemma syncSnapshot_advances: "advances db (syncSnapshot i site en del db snap)"
proof -
  have "advances db (upsertCurrent i site en del snap db)" by (rule states_advances) simp
  then have "advances db (assignModel site snap (reconcileChannelOwnership site snap p (upsertCurrent i site en del snap db)))" for p
    using advances_trans reconcile_advances assignModel_advances by blast
  then show ?thesis by (simp add: syncSnapshot_def split: option.split)
qed

lemma dropAbsent_advances: "advances db (dropAbsent i site channels t db)"
proof -
  have c: "advances db (db\<lparr>db_current := q\<rparr>)" "advances d (d\<lparr>db_bases := q'\<rparr>)" for q d q' by (rule states_advances; simp)+
  show ?thesis unfolding dropAbsent_def Let_def
    by (rule advances_trans[OF c(1) advances_trans[OF delete_advances c(2)]])
qed

lemma sync_advances: "advances db (snd (SyncChannelSnapshotsAt readFails configured f i site en del snaps t db))"
proof -
  have "advances db (foldl (syncSnapshot i site en del) db snaps)"
    by (induction snaps arbitrary: db) (auto intro: advances_trans syncSnapshot_advances)
  then have "advances db (dropAbsent i site (map sn_ChannelID snaps) t (foldl (syncSnapshot i site en del) db snaps))"
    using advances_trans dropAbsent_advances by blast
  then show ?thesis
    using commitTx_all[of "advances db" db _ f] by (simp add: SyncChannelSnapshotsAt_def case_prod_beta)
qed

interpretation collector: control_operation
  "\<lambda>(readFails, configured, f, i, site, en, del, snaps, t) db. snd (SyncChannelSnapshotsAt readFails configured f i site en del snaps t db)"
  by unfold_locales (auto intro: sync_advances)

subsection \<open>A collector ends a hold only by what it has seen\<close>

definition seenEnabled :: "ChannelSnapshot \<Rightarrow> bool" where
  "seenEnabled snap \<longleftrightarrow> enabledLabel (goLower (trimSpace (sn_Status snap)))"

lemma assignModel_held: "held db k \<Longrightarrow> held (assignModel site snap db) k"
proof -
  assume h: "held db k"
  have d: "held (deleteStates p db) k" if "\<And>k s. p (k, s) \<Longrightarrow> s_PausedReason s \<noteq> ManualDisabled" for p
  proof (cases "map_of (db_states db) k")
    case (Some s)
    then have "s_PausedReason s = ManualDisabled" using h by (auto simp: held_def generation_def)
    then have "generation (deleteStates p db) k = generation db k" using that[of k s] Some by (auto simp: deleteStates_generation)
    then show ?thesis using h by (simp add: held_def)
  qed (use h in \<open>simp add: held_def generation_def\<close>)
  have u: "held (upsertBase site snap m e) k = held e k" "held (e\<lparr>db_bases := q\<rparr>) k = held e k" for m e q
    by (simp_all add: held_def generation_def)
  show ?thesis unfolding assignModel_def Let_def by (auto simp: u split: list.split intro!: d)
qed

lemma syncSnapshot_held:
  assumes "held db k" "\<not> (k = (site, sn_ChannelID snap) \<and> seenEnabled snap)"
  shows "held (syncSnapshot i site en del db snap) k"
proof -
  have 1: "held (upsertCurrent i site en del snap db) k" using assms(1) by (simp add: held_def generation_def)
  have "held (reconcileChannelOwnership site snap p d) k" if h: "held d k" for p d
  proof (cases "seenEnabled snap")
    case False
    then show ?thesis using h by (simp add: reconcileChannelOwnership_def seenEnabled_def)
  next
    case True
    then have "k \<noteq> (site, sn_ChannelID snap)" using assms(2) by simp
    then have "generation (reconcileChannelOwnership site snap p d) k = generation d k"
      unfolding reconcileChannelOwnership_def Let_def by (simp add: generation_def)
    then show ?thesis using h by (simp add: held_def)
  qed
  then show ?thesis using 1 assms(1) assignModel_held by (simp add: syncSnapshot_def split: option.split)
qed

lemma dropAbsent_held:
  assumes "held d k"
  shows "held (dropAbsent i site cs t d) k \<or> fst k = site \<and> generation (dropAbsent i site cs t d) k = None"
proof -
  obtain P d1 q where d: "dropAbsent i site cs t d = (deleteStates (\<lambda>(k, s). fst k = site \<and> P (snd k)) d1)\<lparr>db_bases := q\<rparr>" "db_states d1 = db_states d"
    unfolding dropAbsent_def Let_def by simp
  have g: "generation (dropAbsent i site cs t d) k = generation (deleteStates (\<lambda>(k, s). fst k = site \<and> P (snd k)) d1) k"
    unfolding d(1) by (simp add: generation_def)
  obtain s where s: "map_of (db_states d) k = Some s" using assms by (auto simp: held_def generation_def)
  show ?thesis
  proof (cases "fst k = site \<and> P (snd k)")
    case True
    then show ?thesis using g s d(2) by (auto simp: deleteStates_generation)
  next
    case False
    moreover have "generation d1 k = generation d k" by (simp add: generation_def d(2))
    ultimately have "generation (dropAbsent i site cs t d) k = generation d k" using g s d(2) by (auto simp: deleteStates_generation)
    then show ?thesis using assms by (simp add: held_def)
  qed
qed

lemma sync_held:
  assumes "held db k" "\<forall>snap \<in> set snaps. \<not> (k = (site, sn_ChannelID snap) \<and> seenEnabled snap)"
    and "SyncChannelSnapshotsAt readFails configured f i site en del snaps t db = (e, db')"
  shows "held db' k \<or> fst k = site \<and> generation db' k = None"
proof -
  let ?all = "foldl (syncSnapshot i site en del) db snaps"
  have "held ?all k" using assms(1,2) by (induction snaps arbitrary: db) (auto intro: syncSnapshot_held)
  then have "held (dropAbsent i site (map sn_ChannelID snaps) t ?all) k \<or>
      fst k = site \<and> generation (dropAbsent i site (map sn_ChannelID snaps) t ?all) k = None"
    by (rule dropAbsent_held)
  then show ?thesis using assms(1,3) by (cases f) (auto simp: SyncChannelSnapshotsAt_def split: if_splits)
qed

end
