(* ===== verification/ControlSteps.thy ===== *)
theory ControlSteps
  imports ControlRun
begin

text \<open>
  The interleaving of the operations on a channel as a labelled step relation, and its invariants: an evaluation
  that read a channel before a manual operation is of an older generation, and a weight write that has passed its
  gates is not on a channel under manual control.
\<close>

section \<open>Operations that keep every row\<close>

definition renews :: "controlDB \<Rightarrow> controlDB \<Rightarrow> bool" where
  "renews db db' \<longleftrightarrow> advances db db' \<and> (\<forall>k. generation db k \<noteq> None \<longrightarrow> generation db' k \<noteq> None)"

lemma renews_same: "sameGenerations db db' \<Longrightarrow> renews db db'"
  by (simp add: renews_def same_advances) (simp add: sameGenerations_def)

lemma renews_refl [simp]: "renews db db"
  by (simp add: renews_same)

lemma renews_trans: "renews a b \<Longrightarrow> renews b c \<Longrightarrow> renews a c"
  unfolding renews_def using advances_trans by blast

lemma renews_givenBack: "givenBack k db db' \<Longrightarrow> renews db db'"
  using givenBack_advances by (auto simp: renews_def givenBack_def)

lemma renews_fenced: "fenced k db db' \<Longrightarrow> renews db db'"
  using fenced_advances by (auto simp: renews_def fenced_def sameGenerations_def)

lemma renews_states: "db_states db' = db_states db \<Longrightarrow> renews db db'"
  by (intro renews_same sameGenerations_states)

lemma renews_grows: "renews db db' \<Longrightarrow> storedRevision db k \<le> storedRevision db' k"
proof (cases "generation db' k = None")
  case True
  assume "renews db db'"
  then have "generation db k = None" using True unfolding renews_def by blast
  then show ?thesis using True by (simp add: storedRevision_generation)
next
  case False
  assume "renews db db'"
  then show ?thesis using False advances_grows unfolding renews_def by blast
qed

lemma prepare_states: "db_states (snd (PrepareChannelSchedule E f plan now db)) = db_states db"
proof -
  have t: "prepareTx E plan p boundary now db = Some (run, new) \<Longrightarrow> db_states new = db_states db" for p boundary run new
    by (auto simp: prepareTx_def Let_def split: option.splits if_splits)
  have c: "db_states new = db_states db \<Longrightarrow> db_states (fst (commitTx f db new)) = db_states db" for new by (cases f) auto
  show ?thesis
    by (auto simp: PrepareChannelSchedule_def Let_def case_prod_beta split: option.split dest!: t intro!: c)
qed

lemma begin_states: "BeginChannelScheduleWrite f run prior now db = (ok, run', db') \<Longrightarrow> db_states db' = db_states db"
  by (cases f) (auto simp: BeginChannelScheduleWrite_def Let_def)

lemma writeSchedule_renews:
  assumes "writeSchedule E I plan run actual w = (err, w')"
  shows "renews (cw_db w) (cw_db w')"
proof -
  obtain ok r1 db1 where b: "BeginChannelScheduleWrite (ri_begin I) run actual (ri_beginAt I) (cw_db w) = (ok, r1, db1)" by (metis prod_cases3)
  have 1: "renews (cw_db w) db1" by (rule renews_states[OF begin_states[OF b]])
  show ?thesis
  proof (cases ok)
    case False
    then show ?thesis using assms b 1 by (auto simp: writeSchedule_def)
  next
    case True
    let ?req = "(noUpdate (sd_ChannelID plan))\<lparr>up_Status := Some (ex_Target r1)\<rparr>"
    obtain e key w2 where j: "journalUpdate (scheduleJournal plan r1 actual) (ri_update I) ?req (w\<lparr>cw_db := db1\<rparr>) = (e, key, w2)" by (metis prod_cases3)
    let ?w3 = "linkRequest (ri_update I) key (ex_ID r1) w2"
    obtain s m wr where f: "finishRun E I r1 s m wr ?w3 = (err, w')"
      using assms b True j by (auto simp: writeSchedule_def Let_def split: option.splits if_splits)
    have "renews db1 (cw_db ?w3)" using journal_same[OF j] link_world_same sameGenerations_trans by (intro renews_same) fastforce
    then show ?thesis using 1 renews_fenced[OF finishRun_fenced[OF f]] renews_trans by blast
  qed
qed

lemma apply_renews:
  assumes "applyChannelSchedule E I site channel w = (err, w')"
  shows "renews (cw_db w) (cw_db w')"
  using assms
proof (cases rule: apply_cases)
  case (prepared plan r db1)
  then show ?thesis using prepare_states[of E "ri_prepare I" plan "ri_now I" "cw_db w"] by (auto intro!: renews_states)
next
  case (worked plan run db1)
  have 1: "renews (cw_db w) db1"
    using prepare_states[of E "ri_prepare I" plan "ri_now I" "cw_db w"] worked(7) by (auto intro!: renews_states)
  have "renews db1 (cw_db w')"
  proof (cases "decide I plan run db1")
    case Quiet
    then show ?thesis using worked(8) by (auto simp: carryOut_def)
  next
    case (Conclude r s m wr)
    then show ?thesis using worked(8) finishRun_fenced[of E I r s m wr "w\<lparr>cw_db := db1\<rparr>" err w'] renews_fenced by (auto simp: carryOut_def)
  next
    case (Write r actual)
    then show ?thesis using worked(8) writeSchedule_renews[of E I plan r actual "w\<lparr>cw_db := db1\<rparr>" err w'] by (auto simp: carryOut_def)
  qed
  then show ?thesis using 1 renews_trans by blast
qed simp

lemma store_states:
  "db_states (snd (SaveChannelSchedule E I site channel config db)) = db_states db"
  "db_states (snd (DeleteChannelSchedule E I site channel revision expected db)) = db_states db"
proof -
  have c: "db_states new = db_states db \<Longrightarrow> db_states (fst (commitTx f db new)) = db_states db" for new f by (cases f) auto
  have "db_states (snd (finishSave E I site channel x old db)) = db_states db" for x old
    by (auto simp: finishSave_def Let_def case_prod_beta intro!: c)
  then show "db_states (snd (SaveChannelSchedule E I site channel config db)) = db_states db"
    by (simp add: SaveChannelSchedule_def split: option.split prod.split)
  show "db_states (snd (DeleteChannelSchedule E I site channel revision expected db)) = db_states db"
    by (auto simp: DeleteChannelSchedule_def Let_def case_prod_beta split: option.split intro!: c)
qed

lemma store_renews:
  "renews db (snd (SaveChannelSchedule E I site channel config db))"
  "renews db (snd (DeleteChannelSchedule E I site channel revision expected db))"
  by (intro renews_states store_states)+

section \<open>Steps\<close>

text \<open>Who holds the lock of a channel: a weight write behind its gates, or a manual operation after its take-over.\<close>

datatype lockedJob =
    WeightJob weightInput Recommendation string OperationAudit
  | ManualJob manualInput ChannelCommand int64 string

datatype controlEvent =
    Unseen
  | TookOver "string \<times> int64" int64
  | Answered "string \<times> int64" int64 bool
  | WeightSent Recommendation
  | ScheduleApplied string int64
  | Collected string "ChannelSnapshot list" "(string \<times> int64) list"

text \<open>The tables and requests, the states that evaluations under way have read, and the holders of the locks.\<close>

record controlRun =
  cr_world :: controlWorld
  cr_reads :: "ContinuousState list"
  cr_jobs :: "((string \<times> int64) \<times> lockedJob) list"

abbreviation runDB :: "controlRun \<Rightarrow> controlDB" where
  "runDB c \<equiv> cw_db (cr_world c)"

definition withDB :: "controlRun \<Rightarrow> controlDB \<Rightarrow> controlRun" where
  "withDB c db = c\<lparr>cr_world := (cr_world c)\<lparr>cw_db := db\<rparr>\<rparr>"

definition stateKey :: "ContinuousState \<Rightarrow> string \<times> int64" where
  "stateKey s = (s_InstanceID s, s_ChannelID s)"

text \<open>What an evaluation starts from: the row with its key, or the zero state.\<close>

definition loadState :: "controlDB \<Rightarrow> string \<times> int64 \<Rightarrow> ContinuousState" where
  "loadState db k = (case map_of (db_states db) k of None \<Rightarrow> zeroContinuousState | Some s \<Rightarrow> s)\<lparr>s_InstanceID := fst k, s_ChannelID := snd k\<rparr>"

definition goneKeys :: "controlDB \<Rightarrow> controlDB \<Rightarrow> (string \<times> int64) list" where
  "goneKeys db db' = filter (\<lambda>k. generation db' k = None) (map fst (db_states db))"

definition takeOverEvent :: "controlDB \<Rightarrow> controlDB \<Rightarrow> string \<times> int64 \<Rightarrow> controlEvent" where
  "takeOverEvent db db' k = (if generation db' k = generation db k then Unseen else TookOver k (storedRevision db' k))"

text \<open>An evaluation saves a state only if the one it read was not under manual control, and it never sets that pause
  itself.  A collector that deletes the row of a channel ends the evaluations of it that are under way.  The rest of
  the program may write every table but that of the states.\<close>

inductive controlStep :: "textEnv \<Rightarrow> auditEnv \<Rightarrow> controlRun \<Rightarrow> controlEvent \<Rightarrow> controlRun \<Rightarrow> bool" for E A where
  load: "controlStep E A c Unseen (c\<lparr>cr_reads := loadState (runDB c) k # cr_reads c\<rparr>)"
| save: "s \<in> set (cr_reads c) \<Longrightarrow> s_PausedReason s \<noteq> ManualDisabled \<Longrightarrow>
    stateKey v = stateKey s \<Longrightarrow> s_ControlRevision v = s_ControlRevision s \<Longrightarrow> s_PausedReason v \<noteq> ManualDisabled \<Longrightarrow>
    putState readFails f v (runDB c) = (e, db') \<Longrightarrow> controlStep E A c Unseen (withDB c db')"
| check: "map_of (cr_jobs c) (recKey v) = None \<Longrightarrow> weightGates I v (runDB c) = None \<Longrightarrow>
    controlStep E A c Unseen (c\<lparr>cr_jobs := (recKey v, WeightJob I v actor ctx) # cr_jobs c\<rparr>)"
| send: "map_of (cr_jobs c) k = Some (WeightJob I v actor ctx) \<Longrightarrow> writeWeight A I v actor ctx (cr_world c) = (r, w') \<Longrightarrow>
    controlStep E A c (if cw_sent w' = cw_sent (cr_world c) then Unseen else WeightSent v)
      (c\<lparr>cr_world := w', cr_jobs := AList.delete k (cr_jobs c)\<rparr>)"
| takeover: "map_of (cr_jobs c) (site, channel) = None \<Longrightarrow>
    BeginManualChannelStatus A readFails f command site channel target actor now (runDB c) = (Inr cmd, db') \<Longrightarrow>
    controlStep E A c (takeOverEvent (runDB c) db' (site, channel))
      ((withDB c db')\<lparr>cr_jobs := ((site, channel), ManualJob I cmd target actor) # cr_jobs c\<rparr>)"
| refused: "map_of (cr_jobs c) (site, channel) = None \<Longrightarrow>
    BeginManualChannelStatus A readFails f command site channel target actor now (runDB c) = (Inl e, db') \<Longrightarrow>
    controlStep E A c (takeOverEvent (runDB c) db' (site, channel)) (withDB c db')"
| answer: "map_of (cr_jobs c) k = Some (ManualJob I cmd target actor) \<Longrightarrow>
    requestManual I (fst k) cmd target actor (cr_world c) = (r, w') \<Longrightarrow>
    controlStep E A c (Answered k target (ui_answer (mi_update I) = None)) (c\<lparr>cr_world := w', cr_jobs := AList.delete k (cr_jobs c)\<rparr>)"
| schedule: "\<forall>k \<in> fst ` set (cr_jobs c). fst k \<noteq> site \<Longrightarrow> applyChannelSchedule E J site channel (cr_world c) = (err, w') \<Longrightarrow>
    controlStep E A c (ScheduleApplied site channel) (c\<lparr>cr_world := w'\<rparr>)"
| plan: "\<forall>k \<in> fst ` set (cr_jobs c). fst k \<noteq> site \<Longrightarrow>
    db' = snd (SaveChannelSchedule E S site channel config (runDB c)) \<or> db' = snd (DeleteChannelSchedule E S site channel revision expected (runDB c)) \<Longrightarrow>
    controlStep E A c Unseen (withDB c db')"
| collect: "SyncChannelSnapshotsAt readFails configured f i site en del snaps t (runDB c) = (e, db') \<Longrightarrow>
    controlStep E A c (Collected site snaps (goneKeys (runDB c) db'))
      ((withDB c db')\<lparr>cr_reads := filter (\<lambda>s. stateKey s \<notin> set (goneKeys (runDB c) db')) (cr_reads c)\<rparr>)"
| probe: "RecordContinuousProbeResultWithLatency f channel command attempts successes duration slow now (runDB c) = (e, db') \<Longrightarrow>
    controlStep E A c Unseen (withDB c db')"
| queue: "queueWeightChange A Q v actor now ctx (runDB c) = (r, db') \<Longrightarrow> controlStep E A c Unseen (withDB c db')"
| other: "db_states db' = db_states (runDB c) \<Longrightarrow> controlStep E A c Unseen (withDB c db')"

inductive controlSteps :: "textEnv \<Rightarrow> auditEnv \<Rightarrow> controlRun \<Rightarrow> controlEvent list \<Rightarrow> controlRun \<Rightarrow> bool" for E A where
  none: "controlSteps E A c [] c"
| more: "controlSteps E A c es d \<Longrightarrow> controlStep E A d e f \<Longrightarrow> controlSteps E A c (es @ [e]) f"

definition startRun :: "controlWorld \<Rightarrow> controlRun" where
  "startRun w = \<lparr>cr_world = w, cr_reads = [], cr_jobs = []\<rparr>"

lemma withDB_simps [simp]: "runDB (withDB c db) = db" "cr_reads (withDB c db) = cr_reads c" "cr_jobs (withDB c db) = cr_jobs c"
  "cw_sent (cr_world (withDB c db)) = cw_sent (cr_world c)"
  by (simp_all add: withDB_def)

section \<open>The handlers are steps\<close>

text \<open>Uninterrupted, the two steps of a weight write are the handler, and so are those of a manual operation.\<close>

lemma direct_write_is_steps:
  assumes "wi_controller I = CtlDirect reads" "lockChannelWrite (wi_siteLock I) (wi_channelLock I) = None"
    "map_of (cr_jobs c) (recKey v) = None" "weightGates I v (runDB c) = None"
    "directWeightChange A I v actor now ctx (cr_world c) = (r, w')"
  shows "\<exists>e. controlSteps E A c [Unseen, e] (c\<lparr>cr_world := w', cr_jobs := AList.delete (recKey v) (cr_jobs c)\<rparr>)"
proof -
  let ?d = "c\<lparr>cr_jobs := (recKey v, WeightJob I v actor ctx) # cr_jobs c\<rparr>"
  have w: "writeWeight A I v actor ctx (cr_world ?d) = (r, w')" using assms by (simp add: directWeightChange_def)
  have 1: "controlStep E A c Unseen ?d" using assms(3,4) by (rule check)
  have 2: "controlStep E A ?d (if cw_sent w' = cw_sent (cr_world ?d) then Unseen else WeightSent v)
      (?d\<lparr>cr_world := w', cr_jobs := AList.delete (recKey v) (cr_jobs ?d)\<rparr>)" using w by (intro send[where I = I]) auto
  have "?d\<lparr>cr_world := w', cr_jobs := AList.delete (recKey v) (cr_jobs ?d)\<rparr> = c\<lparr>cr_world := w', cr_jobs := AList.delete (recKey v) (cr_jobs c)\<rparr>"
    by (simp add: AList.delete_eq)
  then show ?thesis using more[OF more[OF none 1] 2] by auto
qed

section \<open>The invariant\<close>

definition runInv :: "controlRun \<Rightarrow> bool" where
  "runInv c \<longleftrightarrow>
     (\<forall>s \<in> set (cr_reads c). s_ControlRevision s \<le> storedRevision (runDB c) (stateKey s) \<and>
        (s_PausedReason s \<noteq> ManualDisabled \<longrightarrow> held (runDB c) (stateKey s) \<longrightarrow> s_ControlRevision s < storedRevision (runDB c) (stateKey s))) \<and>
     (\<forall>k I v actor ctx. map_of (cr_jobs c) k = Some (WeightJob I v actor ctx) \<longrightarrow> k = recKey v \<and> \<not> held (runDB c) k) \<and>
     (\<forall>k I cmd target actor. map_of (cr_jobs c) k = Some (ManualJob I cmd target actor) \<longrightarrow>
        cm_ChannelID cmd = snd k \<and> up_Status (pl_Update (cm_Payload cmd)) = Some target)"

lemma start_inv: "runInv (startRun w)"
  by (simp add: runInv_def startRun_def)

lemma map_of_delete: "map_of (AList.delete k rows) j = Some x \<Longrightarrow> map_of rows j = Some x \<and> j \<noteq> k"
  by (auto simp: delete_conv' split: if_splits)

text \<open>A step that creates no hold, keeps the generations it has readers for from falling back, and grants no lock.\<close>

lemma inv_quiet:
  assumes inv: "runInv c" and held: "\<And>k. held (runDB d) k \<Longrightarrow> held (runDB c) k"
    and reads: "\<And>s. s \<in> set (cr_reads d) \<Longrightarrow> s \<in> set (cr_reads c) \<and> storedRevision (runDB c) (stateKey s) \<le> storedRevision (runDB d) (stateKey s)"
    and jobs: "\<And>k j. map_of (cr_jobs d) k = Some j \<Longrightarrow> map_of (cr_jobs c) k = Some j"
  shows "runInv d"
proof -
  have "s_ControlRevision s \<le> storedRevision (runDB d) (stateKey s) \<and>
      (s_PausedReason s \<noteq> ManualDisabled \<longrightarrow> held (runDB d) (stateKey s) \<longrightarrow> s_ControlRevision s < storedRevision (runDB d) (stateKey s))"
    if "s \<in> set (cr_reads d)" for s
    using reads[OF that] inv held[of "stateKey s"] unfolding runInv_def by fastforce
  moreover have "k = recKey v \<and> \<not> held (runDB d) k" if "map_of (cr_jobs d) k = Some (WeightJob I v actor ctx)" for k I v actor ctx
    using jobs[OF that] inv held[of k] unfolding runInv_def by blast
  moreover have "cm_ChannelID cmd = snd k \<and> up_Status (pl_Update (cm_Payload cmd)) = Some target"
    if "map_of (cr_jobs d) k = Some (ManualJob I cmd target actor)" for k I cmd target actor
    using jobs[OF that] inv unfolding runInv_def by blast
  ultimately show ?thesis unfolding runInv_def by blast
qed

lemma inv_renews:
  assumes "runInv c" "renews (runDB c) (runDB d)" "cr_reads d = cr_reads c"
    "\<And>k j. map_of (cr_jobs d) k = Some j \<Longrightarrow> map_of (cr_jobs c) k = Some j"
  shows "runInv d"
proof (rule inv_quiet[OF assms(1)])
  show "held (runDB d) k \<Longrightarrow> held (runDB c) k" for k using assms(2) advances_held unfolding renews_def by blast
qed (use assms(3,4) renews_grows[OF assms(2)] in auto)

lemma load_inv: "runInv c \<Longrightarrow> runInv (c\<lparr>cr_reads := loadState (runDB c) k # cr_reads c\<rparr>)"
proof -
  assume inv: "runInv c"
  have key: "stateKey (loadState (runDB c) k) = k" by (simp add: stateKey_def loadState_def)
  have "s_ControlRevision (loadState (runDB c) k) = storedRevision (runDB c) k"
    by (simp add: loadState_def storedRevision_def zeroContinuousState_def split: option.split)
  moreover have "s_PausedReason (loadState (runDB c) k) = ManualDisabled" if "held (runDB c) k"
    using that by (auto simp: held_def generation_def loadState_def)
  ultimately show ?thesis using inv unfolding runInv_def by (auto simp: key)
qed

lemma save_effect:
  assumes "putState readFails f v db = (e, db')" "s_PausedReason v \<noteq> ManualDisabled"
  shows "held db' k \<Longrightarrow> held db k" "storedRevision db' k = storedRevision db k"
proof -
  have "(held db' k \<longrightarrow> held db k) \<and> storedRevision db' k = storedRevision db k"
    using assms(1)
  proof (cases rule: putState_generation)
    case saved
    then show ?thesis using assms(2) by (cases "k = (s_InstanceID v, s_ChannelID v)") (auto simp: held_def storedRevision_generation[of db'] storedRevision_generation[of db])
  qed simp
  then show "held db' k \<Longrightarrow> held db k" "storedRevision db' k = storedRevision db k" by simp_all
qed

lemma takeover_inv:
  assumes inv: "runInv c" and free: "map_of (cr_jobs c) (site, channel) = None"
    and b: "BeginManualChannelStatus A readFails f command site channel target actor now (runDB c) = (r, db')"
  shows "runInv (withDB c db')" and "r = Inr cmd \<Longrightarrow> cm_ChannelID cmd = channel \<and> up_Status (pl_Update (cm_Payload cmd)) = Some target"
proof -
  have "runInv (withDB c db') \<and> (\<forall>cmd. r = Inr cmd \<longrightarrow> cm_ChannelID cmd = channel \<and> up_Status (pl_Update (cm_Payload cmd)) = Some target)"
    using b
  proof (cases rule: begin_generation)
    case kept
    then show ?thesis using inv by (auto simp: withDB_def)
  next
    case taken
    let ?k = "(site, channel)"
    have g: "held db' k \<longleftrightarrow> k = ?k \<or> held (runDB c) k" "storedRevision db' k = (if k = ?k then storedRevision (runDB c) k + 1 else storedRevision (runDB c) k)" for k
      using taken(1) by (auto simp: held_def storedRevision_generation[of db'] storedRevision_generation[of "runDB c"])
    have "s_ControlRevision s \<le> storedRevision db' (stateKey s) \<and>
        (s_PausedReason s \<noteq> ManualDisabled \<longrightarrow> held db' (stateKey s) \<longrightarrow> s_ControlRevision s < storedRevision db' (stateKey s))"
      if "s \<in> set (cr_reads c)" for s
    proof -
      have "s_ControlRevision s \<le> storedRevision (runDB c) (stateKey s)"
        "s_PausedReason s \<noteq> ManualDisabled \<Longrightarrow> held (runDB c) (stateKey s) \<Longrightarrow> s_ControlRevision s < storedRevision (runDB c) (stateKey s)"
        using that inv unfolding runInv_def by blast+
      then show ?thesis using g(1)[of "stateKey s"] g(2)[of "stateKey s"] by (cases "stateKey s = ?k") auto
    qed
    moreover have "k = recKey v \<and> \<not> held db' k" if "map_of (cr_jobs c) k = Some (WeightJob I v actor ctx)" for k I v actor ctx
    proof -
      have "k \<noteq> ?k" using that free by auto
      then show ?thesis using that inv g(1)[of k] unfolding runInv_def by blast
    qed
    ultimately have "runInv (withDB c db')" using inv unfolding runInv_def withDB_simps by blast
    moreover have "r = Inr cmd \<Longrightarrow> cm_ChannelID cmd = channel \<and> up_Status (pl_Update (cm_Payload cmd)) = Some target" for cmd
      using taken(2) by (simp add: manualCommand_def)
    ultimately show ?thesis by blast
  qed
  then show "runInv (withDB c db')" "r = Inr cmd \<Longrightarrow> cm_ChannelID cmd = channel \<and> up_Status (pl_Update (cm_Payload cmd)) = Some target"
    by blast+
qed

lemma gates_unheld: "weightGates I v db = None \<Longrightarrow> \<not> held db (recKey v)"
  using manual_gate_passed[of "wi_fails I" db v] by (auto simp: weightGates_def held_def generation_def split: option.splits)

lemma collect_inv:
  assumes inv: "runInv c" and s: "SyncChannelSnapshotsAt readFails configured f i site en del snaps t (runDB c) = (e, db')"
  shows "runInv ((withDB c db')\<lparr>cr_reads := filter (\<lambda>s. stateKey s \<notin> set (goneKeys (runDB c) db')) (cr_reads c)\<rparr>)"
proof (rule inv_quiet[OF inv])
  have adv: "advances (runDB c) db'" using sync_advances[of "runDB c" readFails configured f i site en del snaps t] s by simp
  show "held (runDB c) k" if "held (runDB ((withDB c db')\<lparr>cr_reads := x\<rparr>)) k" for k x
    using that advances_held[OF adv] by (simp add: withDB_def)
  show "s \<in> set (cr_reads c) \<and> storedRevision (runDB c) (stateKey s) \<le> storedRevision (runDB ((withDB c db')\<lparr>cr_reads := x\<rparr>)) (stateKey s)"
    if "s \<in> set (cr_reads ((withDB c db')\<lparr>cr_reads := filter (\<lambda>s. stateKey s \<notin> set (goneKeys (runDB c) db')) (cr_reads c)\<rparr>))" for s x
  proof -
    have m: "s \<in> set (cr_reads c)" "stateKey s \<notin> set (goneKeys (runDB c) db')" using that by auto
    have "storedRevision (runDB c) (stateKey s) \<le> storedRevision db' (stateKey s)"
    proof (cases "generation db' (stateKey s) = None")
      case True
      then have "map_of (db_states (runDB c)) (stateKey s) = None" using m(2) by (auto simp: goneKeys_def map_of_eq_None_iff)
      then have "generation (runDB c) (stateKey s) = None" by (simp add: generation_def)
      then show ?thesis using True by (simp add: storedRevision_generation)
    next
      case False
      then show ?thesis using advances_grows[OF adv] by blast
    qed
    then show ?thesis using m by (simp add: withDB_def)
  qed
qed simp

lemma step_inv:
  assumes "controlStep E A c e d" "runInv c"
  shows "runInv d"
  using assms
proof (cases rule: controlStep.cases)
  case (load k)
  then show ?thesis using load_inv[OF assms(2)] by simp
next
  case (save s v readFails f e db')
  then show ?thesis using save_effect[OF save(8) save(7)] by (intro inv_quiet[OF assms(2)]) auto
next
  case (check v I actor ctx)
  then show ?thesis using assms(2) gates_unheld[OF check(4)] unfolding runInv_def by auto
next
  case (send k I v actor ctx r w')
  have "sameGenerations (runDB c) (cw_db w')" using writeWeight_same[of "cr_world c" A I v actor ctx] send(4) by simp
  then show ?thesis using send by (intro inv_renews[OF assms(2)]) (auto intro: renews_same dest: map_of_delete)
next
  case (takeover site channel readFails f command target actor now cmd db' I)
  note t = takeover_inv[OF assms(2) takeover(3,4)]
  have "runInv (withDB c db')" "cm_ChannelID cmd = channel \<and> up_Status (pl_Update (cm_Payload cmd)) = Some target" using t by auto
  then show ?thesis using takeover(2) unfolding runInv_def by (auto simp: withDB_def)
next
  case (refused site channel readFails f command target actor now e' db')
  then show ?thesis using takeover_inv(1)[OF assms(2) refused(3,4)] by simp
next
  case (answer k I cmd target actor r w')
  have "renews (runDB c) (cw_db w')" using request_generation[OF answer(4)] renews_same renews_givenBack by blast
  then show ?thesis using answer by (intro inv_renews[OF assms(2)]) (auto dest: map_of_delete)
next
  case (schedule site J channel err w')
  then show ?thesis using apply_renews[OF schedule(4)] by (intro inv_renews[OF assms(2)]) auto
next
  case (plan site db' S channel config revision expected)
  from plan(4) have "renews (runDB c) db'" by (elim disjE) (simp_all add: store_renews)
  then show ?thesis using plan by (intro inv_renews[OF assms(2)]) auto
next
  case (collect readFails configured f i site en del snaps t e' db')
  then show ?thesis using collect_inv[OF assms(2) collect(3)] by simp
next
  case (probe f channel command attempts successes duration slow now e' db')
  then have "renews (runDB c) db'" using probeResult_same[of "runDB c" f channel command attempts successes duration slow now] by (auto intro: renews_same)
  then show ?thesis using probe by (intro inv_renews[OF assms(2)]) auto
next
  case (queue Q v actor now ctx r db')
  then have "renews (runDB c) db'" using queue_same[of "runDB c" A Q v actor now ctx] by (auto intro: renews_same)
  then show ?thesis using queue by (intro inv_renews[OF assms(2)]) auto
next
  case (other db')
  then show ?thesis using renews_states[OF other(3)] by (intro inv_renews[OF assms(2)]) auto
qed

lemma steps_inv: "controlSteps E A c es d \<Longrightarrow> runInv c \<Longrightarrow> runInv d"
  by (induction rule: controlSteps.induct) (auto intro: step_inv)

end
