(* ===== verification/ControlExample.thy ===== *)
theory ControlExample
  imports ControlSteps
begin

text \<open>
  A concrete channel for the witnesses: an operator enables channel 7 and gets it confirmed; a decision made
  afterwards changes its weight.
\<close>

definition cxNow :: time where
  "cxNow = 1000 * Second"

definition cxAudit :: auditEnv where
  "cxAudit = \<lparr>ae_redact = (\<lambda>s. s), ae_now = cxNow\<rparr>"

definition cxTexts :: textEnv where
  "cxTexts = \<lparr>te_text = (\<lambda>m. []), te_summary = (\<lambda>c s. s), te_sha256 = (\<lambda>s. s), te_rfc3339 = showInt\<rparr>"

definition cxKey :: "string \<times> int64" where
  "cxKey = (''s'', 7)"

definition cxDB :: controlDB where
  "cxDB = emptyDB\<lparr>db_current := [\<lparr>cu_InstanceID = ''i'', cu_Site = ''s'', cu_Enabled = True, cu_Deleted = False, cu_ChannelID = 7,
     cu_Status = ''disabled'', cu_Weight = 10, cu_Models = ModelsPlain ''m'', cu_Group = None, cu_Priority = None, cu_CapturedAt = 1\<rparr>]\<rparr>"

definition cxUpdate :: "string \<Rightarrow> updateInput" where
  "cxUpdate key = \<lparr>ui_ID = key, ui_startedAt = cxNow, ui_begin = DbOk, ui_answer = None, ui_ctxDeadline = False, ui_ctxCanceled = False,
     ui_finishedAt = cxNow, ui_finish = DbOk, ui_link = DbOk\<rparr>"

definition cxManual :: manualInput where
  "cxManual = \<lparr>mi_controller = CtlDirect True, mi_siteLock = LockHeld, mi_channelLock = LockHeld, mi_beginReads = False, mi_begin = DbOk,
     mi_command = ''c1'', mi_update = cxUpdate ''r1'', mi_writtenAt = cxNow, mi_firstReads = False, mi_first = DbOk, mi_secondReads = False, mi_second = DbOk\<rparr>"

definition cxAttempt :: writeAttempt where
  "cxAttempt = \<lparr>wa_apply = DbOk, wa_command = ''c2'', wa_record = DbOk\<rparr>"

definition cxWeight :: weightInput where
  "cxWeight = \<lparr>wi_controller = CtlDirect True,
     wi_queue = \<lparr>qi_fails = (\<lambda>q. False), qi_checkAt = cxNow, qi_instance = None, qi_command = [], qi_fault = DbOk\<rparr>,
     wi_siteLock = LockHeld, wi_channelLock = LockHeld, wi_fails = (\<lambda>q. False), wi_statusAt = cxNow, wi_capacityAt = cxNow,
     wi_update = cxUpdate ''r2'', wi_writtenAt = cxNow, wi_first = cxAttempt, wi_second = cxAttempt\<rparr>"

definition cxDecision :: Recommendation where
  "cxDecision = \<lparr>rec_ID = ''d'', rec_InstanceID = ''s'', rec_ChannelName = [], rec_Rule = ''manual_adjust'', rec_ChannelID = 7, rec_CreatedAt = cxNow,
     rec_Evidence = [''control_revision'' \<mapsto> EvInt 2], rec_CurrentWeight = 10, rec_ProposedWeight = 20, rec_CurrentPriority = None,
     rec_ProposedPriority = None, rec_ProposedChannelStatus = None, rec_ModeAtCreation = ''manual'', rec_Status = ''recorded'', rec_CommandID = None,
     rec_Outcome = Map.empty, rec_OutcomeAt = None, rec_Hit = None, rec_ActedBy = [], rec_ActedAt = None\<rparr>"

definition cxStart :: controlRun where
  "cxStart = startRun \<lparr>cw_db = cxDB, cw_sent = []\<rparr>"

definition cxBegin :: "(goerr + ChannelCommand) \<times> controlDB" where
  "cxBegin = BeginManualChannelStatus cxAudit False DbOk ''c1'' ''s'' 7 1 ''admin'' cxNow cxDB"

definition cxCommand :: ChannelCommand where
  "cxCommand = manualCommand ''c1'' ''s'' 7 1 1 ''admin'' cxNow"

definition cxTaken :: controlRun where
  "cxTaken = (withDB cxStart (snd cxBegin))\<lparr>cr_jobs := [(cxKey, ManualJob cxManual cxCommand 1 ''admin'')]\<rparr>"

definition cxOpened :: controlRun where
  "cxOpened = cxTaken\<lparr>cr_world := snd (requestManual cxManual ''s'' cxCommand 1 ''admin'' (cr_world cxTaken)), cr_jobs := []\<rparr>"

definition cxChecked :: controlRun where
  "cxChecked = cxOpened\<lparr>cr_jobs := [(cxKey, WeightJob cxWeight cxDecision ''admin'' zeroOperationAudit)]\<rparr>"

definition cxDone :: controlRun where
  "cxDone = cxChecked\<lparr>cr_world := snd (writeWeight cxAudit cxWeight cxDecision ''admin'' zeroOperationAudit (cr_world cxChecked)), cr_jobs := []\<rparr>"

lemmas cx_defs = cxNow_def cxAudit_def cxKey_def cxDB_def cxUpdate_def cxManual_def cxAttempt_def cxWeight_def cxDecision_def cxStart_def

lemma cx_begin_ok: "fst cxBegin = Inr cxCommand"
  by code_simp

lemma cx_taken_row: "generation (snd cxBegin) cxKey = Some (ManualDisabled, 1)"
  by code_simp

lemma cx_begin_generation: "generation cxDB cxKey = None"
  by code_simp

lemma cx_opened_row: "generation (runDB cxOpened) cxKey = Some ([], 2)"
  by code_simp

lemma cx_gates: "weightGates cxWeight cxDecision (runDB cxOpened) = None"
  by code_simp

lemma cx_sent: "cw_sent (cr_world cxDone) \<noteq> cw_sent (cr_world cxChecked)"
  by code_simp

lemma cx_pair: "cxBegin = (Inr cxCommand, snd cxBegin)"
  using cx_begin_ok by (simp add: prod_eq_iff)

lemma cx_takeover: "controlStep E cxAudit cxStart (TookOver cxKey 1) cxTaken"
proof -
  have free: "map_of (cr_jobs cxStart) (''s'', 7) = None" by (simp add: cxStart_def startRun_def)
  have db: "runDB cxStart = cxDB" by (simp add: cxStart_def startRun_def)
  have "takeOverEvent cxDB (snd cxBegin) (''s'', 7) = TookOver cxKey 1"
    using cx_taken_row cx_begin_generation by (simp add: takeOverEvent_def storedRevision_generation cxKey_def)
  then show ?thesis
    using controlStep.takeover[OF free, of cxAudit False DbOk "''c1''" 1 "''admin''" cxNow cxCommand "snd cxBegin" E cxManual] cx_pair
    by (simp add: db cxBegin_def cxTaken_def cxKey_def cxStart_def startRun_def)
qed

lemma cx_answer: "controlStep E cxAudit cxTaken (Answered cxKey 1 True) cxOpened"
proof -
  have job: "map_of (cr_jobs cxTaken) cxKey = Some (ManualJob cxManual cxCommand 1 ''admin'')" by (simp add: cxTaken_def)
  obtain r where eq: "requestManual cxManual (fst cxKey) cxCommand 1 ''admin'' (cr_world cxTaken) = (r, snd (requestManual cxManual ''s'' cxCommand 1 ''admin'' (cr_world cxTaken)))"
    by (metis cxKey_def fst_conv prod.collapse)
  show ?thesis using controlStep.answer[OF job eq, of E cxAudit] by (simp add: cxOpened_def cxTaken_def cxManual_def cxUpdate_def)
qed

lemma cx_check: "controlStep E cxAudit cxOpened Unseen cxChecked"
proof -
  have "map_of (cr_jobs cxOpened) (recKey cxDecision) = None" by (simp add: cxOpened_def)
  then show ?thesis
    using controlStep.check[OF _ cx_gates, of E cxAudit "''admin''" zeroOperationAudit] by (simp add: cxChecked_def recKey_def cxKey_def cxDecision_def cxOpened_def)
qed

lemma cx_send: "controlStep E cxAudit cxChecked (WeightSent cxDecision) cxDone"
proof -
  have job: "map_of (cr_jobs cxChecked) cxKey = Some (WeightJob cxWeight cxDecision ''admin'' zeroOperationAudit)" by (simp add: cxChecked_def)
  have sent: "cw_sent (snd (writeWeight cxAudit cxWeight cxDecision ''admin'' zeroOperationAudit (cr_world cxChecked))) \<noteq> cw_sent (cr_world cxChecked)"
    using cx_sent by (simp add: cxDone_def)
  obtain r where eq: "writeWeight cxAudit cxWeight cxDecision ''admin'' zeroOperationAudit (cr_world cxChecked) =
      (r, snd (writeWeight cxAudit cxWeight cxDecision ''admin'' zeroOperationAudit (cr_world cxChecked)))" by (metis prod.collapse)
  show ?thesis using controlStep.send[OF job eq, of E] sent by (simp add: cxDone_def cxChecked_def)
qed

lemma cx_run: "controlSteps E cxAudit cxStart [TookOver cxKey 1, Answered cxKey 1 True, Unseen] cxChecked"
  using controlSteps.more[OF controlSteps.more[OF controlSteps.more[OF controlSteps.none cx_takeover] cx_answer] cx_check] by simp

lemma cx_rest: "controlSteps E cxAudit cxTaken [Answered cxKey 1 True, Unseen, WeightSent cxDecision] cxDone"
  using controlSteps.more[OF controlSteps.more[OF controlSteps.more[OF controlSteps.none cx_answer] cx_check] cx_send] by simp

end
