(* ===== verification/ControlProperties.thy ===== *)
theory ControlProperties
  imports ControlExample
begin

text \<open>
  The properties of manual control and direct writes: under every interleaving an automatic write never goes to a
  channel an operator holds, a decision made before a take-over is never carried out after it, and a hold ends only
  by what is meant to end it; results survive lost acknowledgements.
\<close>

section \<open>The fence\<close>

text \<open>The channel has a generation not older than \<open>r\<close>, and so has every decision on it that has passed its gates.\<close>

definition fencedAt :: "string \<times> int64 \<Rightarrow> int64 \<Rightarrow> controlRun \<Rightarrow> bool" where
  "fencedAt k r c \<longleftrightarrow> generation (runDB c) k \<noteq> None \<and> r \<le> storedRevision (runDB c) k \<and>
     (\<forall>I v actor ctx. map_of (cr_jobs c) k = Some (WeightJob I v actor ctx) \<longrightarrow> rec_Rule v \<noteq> prioritySyncRule \<longrightarrow> r \<le> recommendationControlRevision v)"

lemma fenced_renews:
  assumes "fencedAt k r c" "renews (runDB c) (runDB d)" "\<And>j. map_of (cr_jobs d) k = Some j \<Longrightarrow> map_of (cr_jobs c) k = Some j"
  shows "fencedAt k r d"
proof -
  have "generation (runDB d) k \<noteq> None" "r \<le> storedRevision (runDB d) k"
    using assms(1,2) renews_grows[OF assms(2), of k] unfolding fencedAt_def renews_def by (blast, linarith)
  then show ?thesis using assms(1,3) unfolding fencedAt_def by blast
qed

lemma gates_revision:
  assumes "weightGates I v db = None" "generation db (recKey v) \<noteq> None" "rec_Rule v \<noteq> prioritySyncRule"
  shows "recommendationControlRevision v = storedRevision db (recKey v)"
proof -
  have "checkManualChannelControl (wi_fails I) db v = None" using assms(1) by (auto simp: weightGates_def split: option.splits)
  then show ?thesis using manual_gate_passed[of "wi_fails I" db v] assms(2,3) by (auto simp: generation_def storedRevision_def)
qed

lemma takeover_generation:
  assumes "BeginManualChannelStatus A readFails f command site channel target actor now db = (r, db')"
  shows "renews db db' \<or> generation db' = (generation db)((site, channel) \<mapsto> (ManualDisabled, storedRevision db (site, channel) + 1))"
  using assms by (cases rule: begin_generation) auto

lemma takeover_fenced:
  assumes "fencedAt k r c" "BeginManualChannelStatus A readFails f command site channel target actor now (runDB c) = (x, db')"
    "runDB d = db'" "\<And>j. map_of (cr_jobs d) k = Some j \<Longrightarrow> map_of (cr_jobs c) k = Some j \<or> (\<exists>I cmd t a. j = ManualJob I cmd t a)"
  shows "fencedAt k r d"
proof -
  have "generation db' k \<noteq> None \<and> r \<le> storedRevision db' k"
    using takeover_generation[OF assms(2)]
  proof
    assume "renews (runDB c) db'"
    then have "generation db' k \<noteq> None" "storedRevision (runDB c) k \<le> storedRevision db' k"
      using assms(1) renews_grows unfolding fencedAt_def renews_def by blast+
    then show ?thesis using assms(1) unfolding fencedAt_def by linarith
  next
    assume "generation db' = (generation (runDB c))((site, channel) \<mapsto> (ManualDisabled, storedRevision (runDB c) (site, channel) + 1))"
    then show ?thesis using assms(1) by (cases "k = (site, channel)") (auto simp: fencedAt_def storedRevision_generation)
  qed
  moreover have "rec_Rule v \<noteq> prioritySyncRule \<longrightarrow> r \<le> recommendationControlRevision v"
    if "map_of (cr_jobs d) k = Some (WeightJob I v actor ctx)" for I v actor ctx
    using assms(4)[OF that] assms(1) unfolding fencedAt_def by auto
  ultimately show ?thesis using assms(3) unfolding fencedAt_def by blast
qed

lemma fence_step:
  assumes fence: "fencedAt k r c" and inv: "runInv c" and step: "controlStep E A c e d"
    and rows: "\<And>site snaps gone. e = Collected site snaps gone \<Longrightarrow> k \<notin> set gone"
  shows "fencedAt k r d" and "e = WeightSent v \<Longrightarrow> recKey v = k \<Longrightarrow> rec_Rule v \<noteq> prioritySyncRule \<Longrightarrow> r \<le> recommendationControlRevision v"
proof -
  show "fencedAt k r d"
    using step
  proof (cases rule: controlStep.cases)
    case (save s v readFails f e db')
    from save(8) have "generation db' k \<noteq> None" using fence by (cases rule: putState_generation) (auto simp: fencedAt_def)
    then show ?thesis using fence save_effect(2)[OF save(8) save(7), of k] save(2) by (simp add: fencedAt_def)
  next
    case (check v I actor ctx)
    then show ?thesis using fence gates_revision[OF check(4)] by (auto simp: fencedAt_def)
  next
    case (send k' I v actor ctx x w')
    have "sameGenerations (runDB c) (cw_db w')" using writeWeight_same[of "cr_world c" A I v actor ctx] send(4) by simp
    then show ?thesis using send by (intro fenced_renews[OF fence]) (auto intro: renews_same dest: map_of_delete)
  next
    case (takeover site channel readFails f command target actor now cmd db' I)
    then show ?thesis by (intro takeover_fenced[OF fence takeover(4)]) (auto split: if_splits)
  next
    case (refused site channel readFails f command target actor now x db')
    then show ?thesis by (intro takeover_fenced[OF fence refused(4)]) auto
  next
    case (answer k' I cmd target actor x w')
    have "renews (runDB c) (cw_db w')" using request_generation[OF answer(4)] renews_same renews_givenBack by blast
    then show ?thesis using answer by (intro fenced_renews[OF fence]) (auto dest: map_of_delete)
  next
    case (schedule site J channel err w')
    then show ?thesis using apply_renews[OF schedule(4)] by (intro fenced_renews[OF fence]) auto
  next
    case (plan site db' S channel config revision expected)
    from plan(4) have "renews (runDB c) db'" by (elim disjE) (simp_all add: store_renews)
    then show ?thesis using plan by (intro fenced_renews[OF fence]) auto
  next
    case (collect readFails configured f i site en del snaps t x db')
    have adv: "advances (runDB c) db'" using sync_advances[of "runDB c" readFails configured f i site en del snaps t] collect(3) by simp
    have "k \<in> set (map fst (db_states (runDB c)))" using fence by (auto simp: fencedAt_def generation_def map_of_eq_None_iff)
    then have "generation db' k \<noteq> None" using rows[OF collect(1)] by (auto simp: goneKeys_def)
    then show ?thesis using fence collect(2) advances_grows[OF adv, of k] by (auto simp: fencedAt_def withDB_def)
  next
    case (probe f channel command attempts successes duration slow now x db')
    then have "renews (runDB c) db'" using probeResult_same[of "runDB c" f channel command attempts successes duration slow now] by (auto intro: renews_same)
    then show ?thesis using probe by (intro fenced_renews[OF fence]) auto
  next
    case (queue Q v actor now ctx x db')
    then have "renews (runDB c) db'" using queue_same[of "runDB c" A Q v actor now ctx] by (auto intro: renews_same)
    then show ?thesis using queue by (intro fenced_renews[OF fence]) auto
  next
    case (other db')
    then show ?thesis using renews_states[OF other(3)] by (intro fenced_renews[OF fence]) auto
  qed (use fence in \<open>auto simp: fencedAt_def\<close>)
  show "r \<le> recommendationControlRevision v" if "e = WeightSent v" "recKey v = k" "rec_Rule v \<noteq> prioritySyncRule"
    using step
  proof (cases rule: controlStep.cases)
    case (send k' I v' actor ctx x w')
    then have v: "v' = v" using that(1) by (simp split: if_splits)
    then have "k' = k" using send(3) inv that(2) unfolding runInv_def by blast
    then show ?thesis using fence send(3) that(3) v unfolding fencedAt_def by blast
  qed (use that(1) in \<open>auto simp: takeOverEvent_def split: if_splits\<close>)
qed

lemma fence_run:
  assumes "controlSteps E A c es d" "fencedAt k r c" "runInv c" "\<forall>site snaps gone. Collected site snaps gone \<in> set es \<longrightarrow> k \<notin> set gone"
  shows "fencedAt k r d \<and> runInv d \<and>
    (\<forall>v. WeightSent v \<in> set es \<longrightarrow> recKey v = k \<longrightarrow> rec_Rule v \<noteq> prioritySyncRule \<longrightarrow> r \<le> recommendationControlRevision v)"
  using assms
proof (induction rule: controlSteps.induct)
  case (more c es d e f)
  then have IH: "fencedAt k r d" "runInv d"
    and old: "\<forall>v. WeightSent v \<in> set es \<longrightarrow> recKey v = k \<longrightarrow> rec_Rule v \<noteq> prioritySyncRule \<longrightarrow> r \<le> recommendationControlRevision v"
    by auto
  have rows: "\<And>site snaps gone. e = Collected site snaps gone \<Longrightarrow> k \<notin> set gone" using more.prems(3) by auto
  note st = fence_step[OF IH more.hyps(2) rows]
  show ?case using st step_inv[OF more.hyps(2) IH(2)] old by auto
qed simp

lemma takeover_step:
  assumes "controlStep E A c (TookOver k r) d" "runInv c"
  shows "fencedAt k r d"
proof -
  have d: "generation (runDB d) k \<noteq> None \<and> storedRevision (runDB d) k = r"
    if b: "BeginManualChannelStatus A readFails f command (fst k) (snd k) target actor now (runDB c) = (x, runDB d)"
      and e: "TookOver k r = takeOverEvent (runDB c) (runDB d) k" for readFails f command target actor now x
    using b
  proof (cases rule: begin_generation)
    case kept
    then show ?thesis using e by (simp add: takeOverEvent_def)
  next
    case taken
    then show ?thesis using e by (simp add: takeOverEvent_def split: if_splits)
  qed
  show ?thesis
    using assms(1)
  proof (cases rule: controlStep.cases)
    case (takeover site channel readFails f command target actor now cmd db' I)
    then have k: "k = (site, channel)" by (auto simp: takeOverEvent_def split: if_splits)
    with takeover d[of readFails f command target actor now "Inr cmd"] show ?thesis by (simp add: fencedAt_def withDB_def)
  next
    case (refused site channel readFails f command target actor now e db')
    then have k: "k = (site, channel)" by (auto simp: takeOverEvent_def split: if_splits)
    with refused d[of readFails f command target actor now "Inl e"] show ?thesis by (simp add: fencedAt_def withDB_def)
  qed (auto split: if_splits)
qed

section \<open>Properties\<close>

text \<open>C11: no automatic write under manual control.  Whatever operators, evaluations of the engine, collectors, schedules
  and probes do at the same time, and however the database and the upstream fail: at the moment a weight write is handed
  to the upstream, its channel is not held by an operator.\<close>

theorem no_weight_write_under_manual_control:
  assumes "controlSteps E A (startRun w) es c" "controlStep E A c (WeightSent v) d"
  shows "\<not> held (runDB c) (recKey v)"
proof -
  have inv: "runInv c" using steps_inv[OF assms(1) start_inv] .
  from assms(2) obtain k I actor ctx where "map_of (cr_jobs c) k = Some (WeightJob I v actor ctx)"
    by (cases rule: controlStep.cases) (auto simp: takeOverEvent_def split: if_splits)
  then show ?thesis using inv unfolding runInv_def by blast
qed

theorem no_weight_write_under_manual_control_witness:
  "controlStep cxTexts cxAudit cxChecked (WeightSent cxDecision) cxDone \<and> \<not> held (runDB cxChecked) cxKey"
  using no_weight_write_under_manual_control[OF cx_run[of cxTexts, unfolded cxStart_def] cx_send] cx_send
  by (simp add: recKey_def cxDecision_def cxKey_def)





text \<open>C14: a lost acknowledgement is harmless.  Recording the result of a manual request is tried twice; if the second
  attempt meets no failure, the tables and the outcome are those of a single undisturbed attempt, also when the first
  one had been committed without the server learning of it: an enable does not raise the revision twice.\<close>

theorem manual_result_recorded_once:
  assumes "\<not> mi_secondReads I" "mi_second I = DbOk"
  shows "finishTwice I site cmd succeeded db = FinishManualChannelStatus False DbOk site cmd succeeded (mi_writtenAt I) db"
proof -
  let ?t = "mi_writtenAt I" and ?S = "settleManual site cmd succeeded (mi_writtenAt I) db"
  have again: "FinishManualChannelStatus False DbOk site cmd succeeded ?t ?S = (None, ?S)" if "map_of (db_commands db) (cm_ID cmd) = Some c" for c
  proof -
    have "db_commands (onState site channel p f d) = db_commands d" "db_commands (setClosed site channel b d) = db_commands d"
      "db_commands (applyCompletedChannelWrite x ?t d) = db_commands d" for channel p f d b x
      by (simp_all add: onState_def setClosed_def onSchedule_def applyCompletedChannelWrite_def writeCurrent_def Let_def)
    then have "map_of (db_commands ?S) (cm_ID cmd) = Some (c\<lparr>cm_Status := (if succeeded then ''succeeded'' else ''failed''),
        cm_ErrorSummary := (if succeeded then [] else ''status request unconfirmed; manual hold retained''), cm_UpdatedAt := ?t\<rparr>)"
      using that by (simp add: settleManual_def Let_def map_of_updateWhere)
    then show ?thesis by (simp add: FinishManualChannelStatus_def)
  qed
  show ?thesis
  proof (cases "mi_firstReads I")
    case True
    then show ?thesis using assms by (simp add: finishTwice_def FinishManualChannelStatus_def[of True])
  next
    case False
    show ?thesis
      using assms False again
      by (cases "mi_first I") (auto simp: finishTwice_def FinishManualChannelStatus_def[of False] split: option.split)
  qed
qed

theorem manual_result_recorded_once_witness:
  "finishTwice (cxManual\<lparr>mi_first := DbLost\<rparr>) ''s'' cxCommand True (runDB cxTaken) =
   FinishManualChannelStatus False DbOk ''s'' cxCommand True cxNow (runDB cxTaken)"
  using manual_result_recorded_once[of "cxManual\<lparr>mi_first := DbLost\<rparr>" "''s''" cxCommand True "runDB cxTaken"] by (simp add: cxManual_def)

text \<open>C15: the result of a round of recovery probes is final.  Once the result of a round is recorded, saving a state of the
  engine that still carries the round's marker, read before the result arrived, neither reopens the round nor overwrites
  its counts.\<close>

theorem probe_result_is_final:
  assumes "map_of (db_states db) (site, channel) = Some s" "s_ProbeCommandID s = Some command"
    and "RecordContinuousProbeResultWithLatency DbOk channel command attempts successes duration slow now db = (None, db1)"
    and "putState readFails f v db1 = (e, db2)" "stateKey v = (site, channel)" "s_ProbeCommandID v = Some command"
  shows "\<exists>s'. map_of (db_states db2) (site, channel) = Some s' \<and> s_ProbeCommandID s' = None \<and> s_ProbeAttempts s' = attempts \<and>
    s_ProbeSuccesses s' = successes \<and> s_ProbeDurationSum s' = duration \<and> s_ProbeSlowStreak s' = slow"
proof -
  let ?hit = "\<lambda>(k, s). snd k = channel \<and> s_ProbeCommandID s = Some command"
  let ?s1 = "s\<lparr>s_ProbeCommandID := None, s_ProbeAttempts := attempts, s_ProbeSuccesses := successes,
    s_ProbeDurationSum := duration, s_ProbeSlowStreak := slow, s_UpdatedAt := now\<rparr>"
  have db1: "db_states db1 = updateWhere ?hit (\<lambda>s. s\<lparr>s_ProbeCommandID := None, s_ProbeAttempts := attempts, s_ProbeSuccesses := successes,
      s_ProbeDurationSum := duration, s_ProbeSlowStreak := slow, s_UpdatedAt := now\<rparr>) (db_states db)"
    "db_lastProbe db1 = foldl (\<lambda>m k. AList.update k command m) (db_lastProbe db) (map fst (filter ?hit (db_states db)))"
    using assms(3) by (auto simp: RecordContinuousProbeResultWithLatency_def Let_def split: if_splits)
  have s1: "map_of (db_states db1) (site, channel) = Some ?s1" using assms(1,2) by (simp add: db1(1) map_of_updateWhere)
  have marked: "map_of (foldl (\<lambda>m k. AList.update k command m) m ks) j = Some command" if "j \<in> set ks \<or> map_of m j = Some command" for m ks j
    using that by (induction ks arbitrary: m) (auto simp: update_conv')
  have "(site, channel) \<in> set (map fst (filter ?hit (db_states db)))"
    using map_of_SomeD[OF assms(1)] assms(2) by force
  then have "map_of (db_lastProbe db1) (site, channel) = Some command" unfolding db1(2) by (rule marked[OF disjI1])
  then have sv: "savedState db1 v = keepProbe ?s1 v" using assms(5,6) s1 by (simp add: savedState_def stateKey_def)
  have "db2 = db1 \<or> db2 = db1\<lparr>db_states := AList.update (site, channel) (savedState db1 v) (db_states db1)\<rparr>"
    by (rule putState_result[OF assms(4)]) (use assms(5) in \<open>simp_all add: stateKey_def\<close>)
  then have "map_of (db_states db2) (site, channel) = Some ?s1 \<or> map_of (db_states db2) (site, channel) = Some (keepProbe ?s1 v)"
    using s1 sv by (elim disjE) (simp_all add: update_conv')
  then show ?thesis by (elim disjE) (simp_all add: keepProbe_def)
qed

definition cxProbing :: ContinuousState where
  "cxProbing = (defaultState ''s'' 7 ''m'' 1)\<lparr>s_ProbeCommandID := Some ''p''\<rparr>"

definition cxProbeDB :: controlDB where
  "cxProbeDB = emptyDB\<lparr>db_states := [(cxKey, cxProbing)]\<rparr>"

theorem probe_result_is_final_witness:
  "\<exists>s'. map_of (db_states (snd (putState False DbOk cxProbing
      (snd (RecordContinuousProbeResultWithLatency DbOk 7 ''p'' 3 2 1 0 cxNow cxProbeDB))))) (''s'', 7) = Some s' \<and>
    s_ProbeCommandID s' = None \<and> s_ProbeAttempts s' = 3 \<and> s_ProbeSuccesses s' = 2 \<and> s_ProbeDurationSum s' = 1 \<and> s_ProbeSlowStreak s' = 0"
proof (rule probe_result_is_final)
  show "map_of (db_states cxProbeDB) (''s'', 7) = Some cxProbing" by (simp add: cxProbeDB_def cxKey_def)
  show "RecordContinuousProbeResultWithLatency DbOk 7 ''p'' 3 2 1 0 cxNow cxProbeDB = (None, snd (RecordContinuousProbeResultWithLatency DbOk 7 ''p'' 3 2 1 0 cxNow cxProbeDB))"
    by (simp add: RecordContinuousProbeResultWithLatency_def Let_def)
  show "putState False DbOk cxProbing (snd (RecordContinuousProbeResultWithLatency DbOk 7 ''p'' 3 2 1 0 cxNow cxProbeDB)) =
    (fst (putState False DbOk cxProbing (snd (RecordContinuousProbeResultWithLatency DbOk 7 ''p'' 3 2 1 0 cxNow cxProbeDB))),
     snd (putState False DbOk cxProbing (snd (RecordContinuousProbeResultWithLatency DbOk 7 ''p'' 3 2 1 0 cxNow cxProbeDB))))" by simp
qed (simp_all add: cxProbing_def stateKey_def defaultState_def)

text \<open>A direct write is reported as it happened.  At most one request is handed to the upstream, the one the decision
  asks for; the write is reported as a success exactly when the upstream confirmed that request, whatever becomes of its
  record in the database.\<close>

theorem direct_write_reported_as_executed:
  assumes "writeWeight A I v actor ctx w = (result, w')"
  shows "((\<exists>command. result = Inr command) \<longleftrightarrow> cw_sent w' \<noteq> cw_sent w \<and> ui_answer (wi_update I) = None) \<and>
    (cw_sent w' = cw_sent w \<or> (\<exists>u. weightRequest v = Inr u \<and>
      cw_sent w' = \<lparr>sw_Request = ui_ID (wi_update I), sw_Site = rec_InstanceID v, sw_Update = u\<rparr> # cw_sent w))"
proof (cases "weightRequest v")
  case (Inl e)
  then show ?thesis using assms by (auto simp: writeWeight_def executeWeightUpdate_def)
next
  case (Inr u)
  obtain err key w1 where j: "journalUpdate (weightJournal v actor) (wi_update I) u w = (err, key, w1)" by (metis prod_cases3)
  have r: "(\<exists>command. result = Inr command) \<longleftrightarrow> err = None" and s: "cw_sent w' = cw_sent w1"
    using assms Inr j by (cases err; auto simp: writeWeight_def executeWeightUpdate_def split: prod.splits)+
  from j show ?thesis
  proof (cases rule: journalUpdate_sent)
    case blocked
    then show ?thesis using r s by simp
  next
    case sent
    then show ?thesis using r s Inr by (auto simp: weightJournal_def)
  qed
qed

theorem direct_write_reported_as_executed_witness:
  "(\<exists>command. fst (writeWeight cxAudit cxWeight cxDecision ''admin'' zeroOperationAudit (cr_world cxChecked)) = Inr command)"
  using direct_write_reported_as_executed[of cxAudit cxWeight cxDecision "''admin''" zeroOperationAudit "cr_world cxChecked"
      "fst (writeWeight cxAudit cxWeight cxDecision ''admin'' zeroOperationAudit (cr_world cxChecked))" "cr_world cxDone"] cx_sent
  by (simp add: cxDone_def cxWeight_def cxUpdate_def)

end
