(* ===== verification/RecoveryProbe.thy ===== *)
theory RecoveryProbe
  imports ControlExample
begin

text \<open>
  A round of recovery probes run by the server (\<open>internal/channelcontrol/probe.go\<close>,
  \<open>server/internal/directcontrol/store.go\<close>, \<open>probe_journal.go\<close>, \<open>manual_channel.go\<close>): the loop over the attempts with its
  slow rule, the prober that gives up when the channel is no longer owned, the wait for the marker of the round,
  and the result in the tables; with it the settling of delivered commands
  (\<open>server/internal/mysqlstore/command_store.go\<close>).

  What happens around an attempt (cancellation of the context, answers, the clock) is an input per attempt.
\<close>

section \<open>The loop over the attempts\<close>

record ProbeResult =
  pb_Success :: bool
  pb_Slow :: bool
  pb_Duration :: float64
  pb_Message :: string

definition zeroProbeResult :: ProbeResult where
  "zeroProbeResult = \<lparr>pb_Success = False, pb_Slow = False, pb_Duration = 0, pb_Message = []\<rparr>"

record ProbeRoundResult =
  rr_Attempts :: int64
  rr_Successes :: int64
  rr_SlowStreak :: int64
  rr_DurationSeconds :: float64
  rr_Error :: string
  rr_Aborted :: bool

definition zeroRound :: ProbeRoundResult where
  "zeroRound = \<lparr>rr_Attempts = 0, rr_Successes = 0, rr_SlowStreak = 0, rr_DurationSeconds = 0, rr_Error = [], rr_Aborted = False\<rparr>"

definition Defaults :: "ProbeOptions \<Rightarrow> ProbeOptions" where
  "Defaults op =
     \<lparr>po_TimeoutSeconds = (if po_TimeoutSeconds op \<le> 0 then 30 else po_TimeoutSeconds op),
      po_SlowLimit = (if po_SlowLimit op \<le> 0 then 2 else po_SlowLimit op),
      po_RoundSeconds = (if po_RoundSeconds op \<le> 0 then 480 else po_RoundSeconds op)\<rparr>"

text \<open>The settings a decision carries; decisions without an evaluation have the default ones.\<close>

definition RecoveryProbeOptions :: "Recommendation \<Rightarrow> ProbeOptions" where
  "RecoveryProbeOptions v =
     (let p = (case rec_Evidence v ''evaluation'' of Some (EvEvaluation (Some e)) \<Rightarrow> ev_Params e | _ \<Rightarrow> pol_Continuous DefaultPolicy);
          r = Rules p
      in \<lparr>po_TimeoutSeconds = r_ProbeTimeoutSeconds r, po_SlowLimit = r_ProbeSlowLimit r, po_RoundSeconds = r_RecoveryRoundSeconds r\<rparr>)"

text \<open>An attempt as the loop sees it: whether the context is canceled before the pause, after it and after the
  answer (with the text of the context's error), and the answer with its error.\<close>

record attemptSeen =
  as_before :: bool
  as_slept :: bool
  as_error :: "string option"
  as_result :: ProbeResult
  as_after :: bool
  as_ctxError :: string

definition abortRound :: "attemptSeen \<Rightarrow> ProbeRoundResult \<Rightarrow> ProbeRoundResult" where
  "abortRound a r = r\<lparr>rr_Aborted := True, rr_Error := as_ctxError a\<rparr>"

definition slowResult :: "ProbeOptions \<Rightarrow> ProbeResult \<Rightarrow> bool" where
  "slowResult op p \<longleftrightarrow> pb_Slow p \<or> pb_Duration p > of_int (po_TimeoutSeconds op)"

definition countSlow :: "ProbeOptions \<Rightarrow> ProbeRoundResult \<Rightarrow> ProbeRoundResult" where
  "countSlow op r =
     (let n = rr_SlowStreak r + 1
      in r\<lparr>rr_Attempts := rr_Attempts r + 1, rr_SlowStreak := n,
           rr_Error := ''probe exceeded '' @ showInt (po_TimeoutSeconds op) @ ''s ('' @ showInt n @ '' slow results)''\<rparr>)"

definition countAnswer :: "attemptSeen \<Rightarrow> ProbeRoundResult \<Rightarrow> ProbeRoundResult" where
  "countAnswer a r0 =
     (let r = r0\<lparr>rr_Attempts := rr_Attempts r0 + 1\<rparr>; p = as_result a
      in case as_error a of
           None \<Rightarrow> if pb_Success p
                   then r\<lparr>rr_SlowStreak := 0, rr_Successes := rr_Successes r + 1, rr_DurationSeconds := rr_DurationSeconds r + pb_Duration p\<rparr>
                   else r\<lparr>rr_Error := pb_Message p\<rparr>
         | Some e \<Rightarrow> r\<lparr>rr_SlowStreak := 0, rr_Error := e\<rparr>)"

text \<open>The attempts that are left, the number of the next one and the attempts handed to the prober.\<close>

fun probeLoop :: "ProbeOptions \<Rightarrow> (nat \<Rightarrow> attemptSeen) \<Rightarrow> nat \<Rightarrow> nat \<Rightarrow> ProbeRoundResult \<Rightarrow> nat list \<Rightarrow> ProbeRoundResult \<times> nat list" where
  "probeLoop op seen 0 i r is = (r, is)"
| "probeLoop op seen (Suc n) i r is =
     (let a = seen i
      in if as_before a \<or> as_slept a then (abortRound a r, is)
         else if as_after a then (abortRound a r, is @ [i])
         else if slowResult op (as_result a)
         then (let r1 = countSlow op r
               in if rr_SlowStreak r1 \<ge> po_SlowLimit op then (r1, is @ [i]) else probeLoop op seen n (Suc i) r1 (is @ [i]))
         else probeLoop op seen n (Suc i) (countAnswer a r) (is @ [i]))"

definition RunProbeRound :: "ProbeOptions \<Rightarrow> int64 \<Rightarrow> (nat \<Rightarrow> attemptSeen) \<Rightarrow> ProbeRoundResult \<times> nat list" where
  "RunProbeRound op count seen = probeLoop (Defaults op) seen (nat (max count 1)) 0 zeroRound []"

section \<open>One attempt under the journal\<close>

text \<open>Around the request of one attempt: the error of storing its intent, what the two checks of the ownership read
  (\<open>None\<close>: the query failed), the answer, whether the deadline of the request passed, and whether the context
  of the round ended for a reason of its own, with its error.\<close>

record attemptInput =
  ai_before :: bool
  ai_slept :: bool
  ai_storeError :: "string option"
  ai_dbBefore :: "controlDB option"
  ai_dbAfter :: "controlDB option"
  ai_error :: "string option"
  ai_result :: ProbeResult
  ai_deadline :: bool
  ai_canceled :: bool
  ai_ctxError :: string

definition roundActive :: "string \<Rightarrow> int64 \<Rightarrow> string \<Rightarrow> controlDB option \<Rightarrow> bool" where
  "roundActive site channel command view = (case view of None \<Rightarrow> False | Some db \<Rightarrow> ContinuousProbeActive db site channel command)"

text \<open>Whether losing the channel canceled the round, and the answer.\<close>

definition ownedProbe :: "string \<Rightarrow> int64 \<Rightarrow> string \<Rightarrow> attemptInput \<Rightarrow> bool \<times> string option \<times> ProbeResult" where
  "ownedProbe site channel command a =
     (if \<not> roundActive site channel command (ai_dbBefore a) \<or> \<not> roundActive site channel command (ai_dbAfter a)
      then (True, Some ''context canceled'', zeroProbeResult)
      else (False, ai_error a, ai_result a))"

definition ProbeWithBudget :: "string \<Rightarrow> int64 \<Rightarrow> string \<Rightarrow> attemptInput \<Rightarrow> bool \<times> string option \<times> ProbeResult" where
  "ProbeWithBudget site channel command a =
     (case ownedProbe site channel command a of (lost, err, r) \<Rightarrow>
        (lost, err, if \<not> lost \<and> \<not> ai_canceled a \<and> ai_deadline a then r\<lparr>pb_Slow := True\<rparr> else r))"

text \<open>The outcome the journal keeps.\<close>

definition journalOutcome :: "ProbeOptions \<Rightarrow> bool \<Rightarrow> string option \<Rightarrow> ProbeResult \<Rightarrow> string \<times> string" where
  "journalOutcome op canceled err r =
     (if canceled then (''canceled'', ''scheduler_canceled'')
      else if slowResult op r then (''slow'', ''slow_threshold'')
      else if err \<noteq> None then (''unknown'', ''control_unavailable'')
      else if pb_Success r then (''success'', [])
      else (''error'', ''channel_error''))"

text \<open>What the loop sees of an attempt, and its outcome in the journal.  An intent that cannot be stored is an unknown
  result: nothing is sent.\<close>

definition journalProbe :: "ProbeOptions \<Rightarrow> string \<Rightarrow> int64 \<Rightarrow> string \<Rightarrow> attemptInput \<Rightarrow> attemptSeen \<times> (string \<times> string) option" where
  "journalProbe op site channel command a =
     (case ai_storeError a of
        Some e \<Rightarrow>
          (\<lparr>as_before = ai_before a, as_slept = ai_slept a, as_error = Some e, as_result = zeroProbeResult,
            as_after = ai_canceled a, as_ctxError = ai_ctxError a\<rparr>, None)
      | None \<Rightarrow>
          (case ProbeWithBudget site channel command a of (lost, err, r) \<Rightarrow>
             (\<lparr>as_before = ai_before a, as_slept = ai_slept a, as_error = err, as_result = r, as_after = (lost \<or> ai_canceled a),
               as_ctxError = (if lost \<and> \<not> ai_canceled a then ''context canceled'' else ai_ctxError a)\<rparr>,
              Some (journalOutcome op (lost \<or> ai_canceled a) err r))))"

text \<open>Whether the attempt reaches the upstream.\<close>

definition reachesUpstream :: "string \<Rightarrow> int64 \<Rightarrow> string \<Rightarrow> attemptInput \<Rightarrow> bool" where
  "reachesUpstream site channel command a \<longleftrightarrow> ai_storeError a = None \<and> roundActive site channel command (ai_dbBefore a)"

section \<open>Waiting for the marker\<close>

definition probeMarkerWait :: duration where
  "probeMarkerWait = 30 * Second"

definition probeMarkerPoll :: duration where
  "probeMarkerPoll = 200000000"

text \<open>One look at the states of the site (\<open>None\<close>: the query failed), then the context and the clock.\<close>

record markerPoll =
  mp_states :: "ContinuousState list option"
  mp_canceled :: bool
  mp_now :: time

definition markerSeen :: "int64 \<Rightarrow> string \<Rightarrow> markerPoll \<Rightarrow> bool" where
  "markerSeen channel command m =
     (case mp_states m of None \<Rightarrow> False
      | Some ss \<Rightarrow> \<exists>s \<in> set ss. s_ChannelID s = channel \<and> s_ProbeCommandID s = Some command)"

text \<open>\<open>None\<close>: the bound on the number of looks was too small.\<close>

fun markerLoop :: "nat \<Rightarrow> (nat \<Rightarrow> markerPoll) \<Rightarrow> time \<Rightarrow> int64 \<Rightarrow> string \<Rightarrow> nat \<Rightarrow> bool option" where
  "markerLoop 0 polls deadline channel command i = None"
| "markerLoop (Suc n) polls deadline channel command i =
     (if markerSeen channel command (polls i) then Some True
      else if mp_canceled (polls i) \<or> mp_now (polls i) > deadline then Some False
      else markerLoop n polls deadline channel command (Suc i))"

definition waitForProbeMarker :: "(nat \<Rightarrow> markerPoll) \<Rightarrow> time \<Rightarrow> int64 \<Rightarrow> string \<Rightarrow> bool option" where
  "waitForProbeMarker polls started channel command = markerLoop 152 polls (started + probeMarkerWait) channel command 0"

section \<open>The round\<close>

text \<open>What an Agent read back from the upstream for a write whose acknowledgement is missing.\<close>

record observedChannel =
  ob_ChannelID :: int64
  ob_Weight :: int64
  ob_Status :: int64
  ob_Priority :: int64
  ob_Group :: string

definition differs :: "'a option \<Rightarrow> 'a \<Rightarrow> bool" where
  "differs target seen = (case target of None \<Rightarrow> False | Some x \<Rightarrow> x \<noteq> seen)"

text \<open>A read back settles the command by comparing its target, and refreshes the directory in either case.\<close>

definition readbackResult :: "UpdateRequest \<Rightarrow> observedChannel \<Rightarrow> string \<times> string" where
  "readbackResult u x =
     (if differs (up_Weight u) (ob_Weight x) \<or> differs (up_Status u) (ob_Status x) \<or> differs (up_Priority u) (ob_Priority x) \<or>
         differs (up_Group u) (ob_Group x)
      then (''failed'', ''readback differs from command target; old write was not replayed'')
      else (''succeeded'', ''readback matches current target; original execution acknowledgement unavailable''))"

definition readbackUpdate :: "ChannelCommand \<Rightarrow> observedChannel \<Rightarrow> ChannelCommand" where
  "readbackUpdate v x =
     v\<lparr>cm_Payload := (cm_Payload v)\<lparr>pl_Update := (noUpdate (cm_ChannelID v))\<lparr>up_Weight := Some (ob_Weight x), up_Status := Some (ob_Status x),
        up_Priority := Some (ob_Priority x), up_Group := Some (ob_Group x)\<rparr>\<rparr>\<rparr>"

definition settleCommand :: "ChannelCommand \<Rightarrow> string \<Rightarrow> string \<Rightarrow> time \<Rightarrow> observedChannel option \<Rightarrow> controlDB \<Rightarrow> controlDB" where
  "settleCommand v status reason now observed db =
     (let (status, reason) = (case observed of None \<Rightarrow> (status, reason) | Some x \<Rightarrow> readbackResult (pl_Update (cm_Payload v)) x);
          db1 = (case observed of None \<Rightarrow> db | Some x \<Rightarrow> applyCompletedChannelWrite (readbackUpdate v x) now db);
          settled = (\<lambda>c. c\<lparr>cm_Status := status, cm_ErrorSummary := reason, cm_UpdatedAt := now\<rparr>);
          db2 = db1\<lparr>db_commands := updateWhere (\<lambda>(k, c). k = cm_ID v \<and> cm_Status c = ''delivered'') settled (db_commands db1)\<rparr>
      in if observed = None \<and> status = ''succeeded'' \<and> cm_CommandType v = ''channel.update''
         then applyCompletedChannelWrite (settled v) now db2 else db2)"

text \<open>Only a delivered command is settled, and an Agent settles only its own; the result says whether it was.\<close>

definition completeChannelCommand :: "bool \<Rightarrow> dbFault \<Rightarrow> string \<Rightarrow> string \<Rightarrow> string \<Rightarrow> time \<Rightarrow> string \<Rightarrow> observedChannel option \<Rightarrow> controlDB \<Rightarrow>
    (goerr + bool) \<times> controlDB" where
  "completeChannelCommand readFails f key status reason now instance observed db =
     (if readFails then (Inl dbError, db)
      else case map_of (db_commands db) key of
        None \<Rightarrow> (Inr False, db)
      | Some v \<Rightarrow>
          if instance \<noteq> [] \<and> (cm_InstanceID v \<noteq> instance \<or> cm_ExecutionKind v \<noteq> ''agent'') \<or> cm_Status v \<noteq> ''delivered'' then (Inr False, db)
          else if (case observed of None \<Rightarrow> False
                   | Some x \<Rightarrow> cm_InstanceID v \<noteq> instance \<or> cm_ChannelID v \<noteq> ob_ChannelID x \<or> cm_CommandType v \<noteq> ''channel.update'')
          then (Inr False, db)
          else case commitTx f db (settleCommand (v\<lparr>cm_ID := key\<rparr>) status reason now observed db) of
                 (db', ok) \<Rightarrow> (if ok then Inr True else Inl dbError, db'))"

definition CompleteChannelCommand :: "bool \<Rightarrow> dbFault \<Rightarrow> string \<Rightarrow> string \<Rightarrow> string \<Rightarrow> time \<Rightarrow> controlDB \<Rightarrow> (goerr + bool) \<times> controlDB" where
  "CompleteChannelCommand readFails f key status reason now db = completeChannelCommand readFails f key status reason now [] None db"

definition CompleteAgentChannelCommand :: "bool \<Rightarrow> dbFault \<Rightarrow> string \<Rightarrow> string \<Rightarrow> string \<Rightarrow> string \<Rightarrow> time \<Rightarrow> controlDB \<Rightarrow> (goerr + bool) \<times> controlDB" where
  "CompleteAgentChannelCommand readFails f instance key status reason now db = completeChannelCommand readFails f key status reason now instance None db"

text \<open>The command of a round that the server runs itself: it is delivered at once.\<close>

definition probeCommand :: "string \<Rightarrow> Recommendation \<Rightarrow> string \<Rightarrow> int64 \<Rightarrow> int64 \<Rightarrow> time \<Rightarrow> ChannelCommand" where
  "probeCommand command v model count interval now =
     \<lparr>cm_SiteID = rec_InstanceID v, cm_ExecutionKind = ''ct_direct'', cm_ID = command, cm_InstanceID = [], cm_ChannelID = rec_ChannelID v,
      cm_CommandType = ''channel.probe'',
      cm_Payload = \<lparr>pl_Update = noUpdate (rec_ChannelID v), pl_ManualControl = False, pl_ControlRevision = None,
        pl_Probe = Some \<lparr>pp_Model = model, pp_Count = count, pp_Interval = interval, pp_Options = RecoveryProbeOptions v\<rparr>\<rparr>,
      cm_Status = ''delivered'', cm_CreatedBy = ''system:auto'', cm_ErrorSummary = [], cm_CreatedAt = now, cm_UpdatedAt = now\<rparr>"

definition CreateContinuousProbeExecuting ::
    "(gateQuery \<Rightarrow> bool) \<Rightarrow> dbFault \<Rightarrow> string \<Rightarrow> Recommendation \<Rightarrow> string \<Rightarrow> int64 \<Rightarrow> int64 \<Rightarrow> time \<Rightarrow> controlDB \<Rightarrow> (goerr + string) \<times> controlDB" where
  "CreateContinuousProbeExecuting fails f command v model count interval now db =
     (case checkManualChannelControl fails db v of
        Some e \<Rightarrow> (Inl e, db)
      | None \<Rightarrow>
          if map_of (db_commands db) command \<noteq> None \<or> map_of (db_recommendations db) (rec_ID v) \<noteq> None then (Inl dbError, db)
          else let r = v\<lparr>rec_Rule := ''probe_started'', rec_Status := ''auto_executed'', rec_CommandID := Some command,
                         rec_ActedBy := ''system:auto'', rec_ActedAt := Some now\<rparr>;
                   new = db\<lparr>db_commands := (command, probeCommand command v model count interval now) # db_commands db,
                            db_recommendations := (rec_ID v, r) # db_recommendations db\<rparr>
               in case commitTx f db new of (db', ok) \<Rightarrow> (if ok then Inr command else Inl dbError, db'))"

record roundInput =
  ro_slot :: bool
  ro_polls :: "nat \<Rightarrow> markerPoll"
  ro_started :: time
  ro_attempts :: "nat \<Rightarrow> attemptInput"
  ro_completeReads :: bool
  ro_complete :: dbFault
  ro_record :: dbFault
  ro_now :: time

definition runRound :: "roundInput \<Rightarrow> string \<Rightarrow> int64 \<Rightarrow> string \<Rightarrow> int64 \<Rightarrow> ProbeOptions \<Rightarrow> ProbeRoundResult \<times> nat list" where
  "runRound R site channel command count op = RunProbeRound op count (\<lambda>i. fst (journalProbe op site channel command (ro_attempts R i)))"

text \<open>The attempts of the round that reach the upstream.\<close>

definition roundRequests :: "roundInput \<Rightarrow> string \<Rightarrow> int64 \<Rightarrow> string \<Rightarrow> int64 \<Rightarrow> ProbeOptions \<Rightarrow> nat list" where
  "roundRequests R site channel command count op =
     filter (\<lambda>i. reachesUpstream site channel command (ro_attempts R i)) (snd (runRound R site channel command count op))"

text \<open>The audit of the round belongs to the system, and the store keeps audits of people only.\<close>

definition runProbeRound :: "roundInput \<Rightarrow> string \<Rightarrow> int64 \<Rightarrow> string \<Rightarrow> int64 \<Rightarrow> ProbeOptions \<Rightarrow> controlDB \<Rightarrow> nat list \<times> controlDB" where
  "runProbeRound R site channel command count options db =
     (let op = Defaults options
      in if \<not> ro_slot R then ([], snd (CompleteChannelCommand (ro_completeReads R) (ro_complete R) command ''failed'' ''probe queue wait timed out'' (ro_now R) db))
         else if waitForProbeMarker (ro_polls R) (ro_started R) channel command \<noteq> Some True
         then ([], snd (CompleteChannelCommand (ro_completeReads R) (ro_complete R) command ''failed'' ''probe marker was never persisted'' (ro_now R) db))
         else let result = fst (runRound R site channel command count op);
                  status = (if rr_Aborted result \<or> rr_Attempts result = 0 then ''failed'' else ''succeeded'')
              in (roundRequests R site channel command count op,
                  case CompleteChannelCommand (ro_completeReads R) (ro_complete R) command status (rr_Error result) (ro_now R) db of
                    (Inl e, db1) \<Rightarrow> db1
                  | (Inr changed, db1) \<Rightarrow> snd (RecordContinuousProbeResultWithLatency (ro_record R) channel command (rr_Attempts result)
                                         (rr_Successes result) (rr_DurationSeconds result) (rr_SlowStreak result) (ro_now R) db1)))"

section \<open>Bounds of a round\<close>

definition goodRound :: "ProbeOptions \<Rightarrow> nat \<Rightarrow> ProbeRoundResult \<Rightarrow> bool" where
  "goodRound op i r \<longleftrightarrow> 0 \<le> rr_Successes r \<and> 0 \<le> rr_SlowStreak r \<and> rr_SlowStreak r + rr_Successes r \<le> rr_Attempts r \<and>
     rr_Attempts r \<le> int i \<and> rr_SlowStreak r \<le> po_SlowLimit op"

lemma goodRound_mono: "goodRound op i r \<Longrightarrow> i \<le> j \<Longrightarrow> goodRound op j r"
  by (auto simp: goodRound_def)

lemma goodRound_abort [simp]: "goodRound op i (abortRound a r) = goodRound op i r"
  by (simp add: goodRound_def abortRound_def)

lemma goodRound_slow: "goodRound op i r \<Longrightarrow> rr_SlowStreak r < po_SlowLimit op \<Longrightarrow> goodRound op (Suc i) (countSlow op r)"
  by (auto simp: goodRound_def countSlow_def Let_def)

lemma goodRound_answer: "0 \<le> po_SlowLimit op \<Longrightarrow> goodRound op i r \<Longrightarrow> goodRound op (Suc i) (countAnswer a r)"
  by (auto simp: goodRound_def countAnswer_def Let_def split: option.split)

lemma answer_streak: "rr_SlowStreak (countAnswer a r) \<le> max 0 (rr_SlowStreak r)"
  by (auto simp: countAnswer_def Let_def split: option.split)

lemma probeLoop_good:
  assumes "goodRound op i r" "rr_SlowStreak r < po_SlowLimit op"
  shows "goodRound op (i + n) (fst (probeLoop op seen n i r is))"
  using assms
proof (induction n arbitrary: i r "is")
  case (Suc n)
  let ?a = "seen i"
  show ?case
  proof (cases "as_before ?a \<or> as_slept ?a \<or> as_after ?a")
    case True
    then show ?thesis using goodRound_mono[OF Suc.prems(1), of "i + Suc n"] by (auto simp: Let_def)
  next
    case live: False
    show ?thesis
    proof (cases "slowResult op (as_result ?a)")
      case True
      note g = goodRound_slow[OF Suc.prems]
      show ?thesis using live True Suc.IH[OF g] goodRound_mono[OF g, of "i + Suc n"] by (simp add: Let_def)
    next
      case False
      have "0 \<le> po_SlowLimit op" "0 \<le> rr_SlowStreak r" using Suc.prems by (auto simp: goodRound_def)
      then have "goodRound op (Suc i) (countAnswer ?a r)" "rr_SlowStreak (countAnswer ?a r) < po_SlowLimit op"
        using goodRound_answer[OF _ Suc.prems(1)] answer_streak[of ?a r] Suc.prems(2) by simp_all
      from Suc.IH[OF this] show ?thesis using live False by (simp add: Let_def)
    qed
  qed
qed simp

lemma round_good: "goodRound (Defaults op) (nat (max count 1)) (fst (RunProbeRound op count seen))"
  using probeLoop_good[of "Defaults op" 0 zeroRound "nat (max count 1)" seen] by (simp add: RunProbeRound_def goodRound_def zeroRound_def Defaults_def)

section \<open>What a round sends\<close>

lemma probeLoop_reached:
  assumes "k \<in> set (snd (probeLoop op seen n i r is))"
  shows "k \<in> set is \<or> i \<le> k \<and> k < i + n \<and> (\<forall>j. i \<le> j \<and> j < k \<longrightarrow> \<not> as_after (seen j))"
  using assms
proof (induction n arbitrary: i r "is")
  case (Suc n)
  let ?a = "seen i"
  have rest: "k \<in> set is \<or> i \<le> k \<and> k < i + Suc n \<and> (\<forall>j. i \<le> j \<and> j < k \<longrightarrow> \<not> as_after (seen j))"
    if "k \<in> set (snd (probeLoop op seen n (Suc i) r' (is @ [i])))" "\<not> as_after ?a" for r'
  proof -
    have "\<not> as_after (seen j)" if "\<forall>j. Suc i \<le> j \<and> j < k \<longrightarrow> \<not> as_after (seen j)" "i \<le> j" "j < k" for j
      using that \<open>\<not> as_after ?a\<close> by (cases "j = i") auto
    then show ?thesis using Suc.IH[OF that(1)] by auto
  qed
  show ?case
  proof (cases "as_before ?a \<or> as_slept ?a \<or> as_after ?a")
    case True
    then show ?thesis using Suc.prems by (auto simp: Let_def split: if_splits)
  next
    case False
    then show ?thesis using Suc.prems rest by (auto simp: Let_def split: if_splits)
  qed
qed simp

lemma roundActive_row: "roundActive site channel command view \<Longrightarrow>
    \<exists>db s. view = Some db \<and> map_of (db_states db) (site, channel) = Some s \<and> s_ProbeCommandID s = Some command \<and> s_PausedReason s \<noteq> ManualDisabled"
  by (auto simp: roundActive_def ContinuousProbeActive_def split: option.splits)

lemma journalProbe_lost: "as_after (fst (journalProbe op site channel command a)) \<longleftrightarrow>
    ai_canceled a \<or> ai_storeError a = None \<and> (\<not> roundActive site channel command (ai_dbBefore a) \<or> \<not> roundActive site channel command (ai_dbAfter a))"
  by (auto simp: journalProbe_def ProbeWithBudget_def ownedProbe_def split: option.split)

section \<open>The wait\<close>

lemma markerLoop_found:
  "markerLoop n polls deadline channel command i = Some True \<Longrightarrow> \<exists>j. i \<le> j \<and> j < i + n \<and> markerSeen channel command (polls j)"
proof (induction n arbitrary: i)
  case (Suc n)
  show ?case
  proof (cases "markerSeen channel command (polls i)")
    case True
    then show ?thesis by auto
  next
    case False
    then have "markerLoop n polls deadline channel command (Suc i) = Some True" using Suc.prems by (simp split: if_splits)
    from Suc.IH[OF this] show ?thesis by (metis Suc_leD add_Suc_shift)
  qed
qed simp

lemma markerLoop_ends:
  assumes step: "\<And>i. mp_canceled (polls (Suc i)) \<or> mp_now (polls (Suc i)) \<ge> mp_now (polls i) + probeMarkerPoll"
    and late: "mp_canceled (polls i) \<or> mp_now (polls i) + int n * probeMarkerPoll > deadline"
  shows "markerLoop (Suc n) polls deadline channel command i \<noteq> None"
  using late
proof (induction n arbitrary: i)
  case (Suc n)
  have "mp_canceled (polls (Suc i)) \<or> mp_now (polls (Suc i)) + int n * probeMarkerPoll > deadline"
    if "\<not> mp_canceled (polls i)" using Suc.prems step[of i] that by (auto simp: algebra_simps)
  then show ?case using Suc.IH[of "Suc i"] by (auto simp del: markerLoop.simps(2) simp: markerLoop.simps(2)[of "Suc n"])
qed auto

section \<open>Properties\<close>

text \<open>C17: bounds of a round of recovery probes.  Whatever the answers, a round makes at most as many attempts as it was
  asked for (at most one if asked for none), successes and slow results are attempts, the slow streak stays within the
  limit, and the store never refuses the counts of a round as inconsistent.\<close>

theorem probe_round_within_bounds:
  "let r = fst (RunProbeRound op count seen)
   in rr_Attempts r \<le> max count 1 \<and> 0 \<le> rr_Successes r \<and> 0 \<le> rr_SlowStreak r \<and> rr_SlowStreak r + rr_Successes r \<le> rr_Attempts r \<and>
      rr_SlowStreak r \<le> po_SlowLimit (Defaults op) \<and>
      fst (RecordContinuousProbeResultWithLatency DbOk channel command (rr_Attempts r) (rr_Successes r) (rr_DurationSeconds r) (rr_SlowStreak r) now db) = None"
proof -
  have "int (nat (max count 1)) = max count 1" by (simp add: le_max_iff_disj)
  then show ?thesis using round_good[of op count seen] unfolding Let_def goodRound_def
    by (simp add: RecordContinuousProbeResultWithLatency_def Let_def)
qed

text \<open>C16: a round stops with the ownership.  Every request a round of recovery probes sends finds, at the check right
  before it, the marker of this round in the row of the channel and no manual hold; and from the first check that does
  not (an operator took over, the round was settled by another, the read failed), or the first end of the round's
  context, on no further request is sent.\<close>

theorem probe_round_stops_with_ownership:
  assumes "i \<in> set (fst (runProbeRound R site channel command count options db))"
  shows "(\<exists>view s. ai_dbBefore (ro_attempts R i) = Some view \<and> map_of (db_states view) (site, channel) = Some s \<and>
      s_ProbeCommandID s = Some command \<and> s_PausedReason s \<noteq> ManualDisabled) \<and>
    (\<forall>j < i. \<not> ai_canceled (ro_attempts R j) \<and> (ai_storeError (ro_attempts R j) = None \<longrightarrow>
       roundActive site channel command (ai_dbBefore (ro_attempts R j)) \<and> roundActive site channel command (ai_dbAfter (ro_attempts R j))))"
proof -
  let ?op = "Defaults options"
  have i: "i \<in> set (roundRequests R site channel command count ?op)" using assms by (auto simp: runProbeRound_def Let_def split: if_splits)
  then have "roundActive site channel command (ai_dbBefore (ro_attempts R i))" by (simp add: roundRequests_def reachesUpstream_def)
  moreover have "\<not> as_after (fst (journalProbe ?op site channel command (ro_attempts R j)))" if "j < i" for j
  proof -
    let ?seen = "\<lambda>i. fst (journalProbe ?op site channel command (ro_attempts R i))"
    have "i \<in> set (snd (probeLoop (Defaults ?op) ?seen (nat (max count 1)) 0 zeroRound []))"
      using i by (simp add: roundRequests_def runRound_def RunProbeRound_def)
    from probeLoop_reached[OF this] that show ?thesis by simp
  qed
  ultimately show ?thesis using roundActive_row[of site channel command] unfolding journalProbe_lost by blast
qed

definition cxOwned :: controlDB where
  "cxOwned = emptyDB\<lparr>db_states := [((''s'', 7), (defaultState ''s'' 7 ''m'' 0)\<lparr>s_ProbeCommandID := Some ''c''\<rparr>)]\<rparr>"

definition cxProbes :: roundInput where
  "cxProbes = \<lparr>ro_slot = True, ro_polls = (\<lambda>i. \<lparr>mp_states = Some (map snd (db_states cxOwned)), mp_canceled = False, mp_now = 0\<rparr>), ro_started = 0,
     ro_attempts = (\<lambda>i. \<lparr>ai_before = False, ai_slept = False, ai_storeError = None, ai_dbBefore = Some cxOwned, ai_dbAfter = Some cxOwned, ai_error = None,
       ai_result = zeroProbeResult\<lparr>pb_Success := True\<rparr>, ai_deadline = False, ai_canceled = False, ai_ctxError = []\<rparr>),
     ro_completeReads = False, ro_complete = DbOk, ro_record = DbOk, ro_now = 0\<rparr>"

definition cxOptions :: ProbeOptions where
  "cxOptions = \<lparr>po_TimeoutSeconds = 30, po_SlowLimit = 2, po_RoundSeconds = 480\<rparr>"

lemma cx_probes_sent: "fst (runProbeRound cxProbes ''s'' 7 ''c'' 3 cxOptions cxOwned) = [0, 1, 2]"
  by code_simp

theorem probe_round_stops_with_ownership_witness:
  "2 \<in> set (fst (runProbeRound cxProbes ''s'' 7 ''c'' 3 cxOptions cxOwned)) \<and>
   roundActive ''s'' 7 ''c'' (ai_dbBefore (ro_attempts cxProbes 1)) \<and> roundActive ''s'' 7 ''c'' (ai_dbAfter (ro_attempts cxProbes 1))"
proof -
  have i: "2 \<in> set (fst (runProbeRound cxProbes ''s'' 7 ''c'' 3 cxOptions cxOwned))" by (simp add: cx_probes_sent)
  have "ai_storeError (ro_attempts cxProbes 1) = None" by (simp add: cxProbes_def)
  then show ?thesis using i probe_round_stops_with_ownership[OF i] by simp
qed

text \<open>The wait for the marker ends.  If the clock does not stand before the start of the wait and every pause lasts
  its 200 milliseconds or ends with the context, the wait returns after at most 152 looks at the table.\<close>

theorem marker_wait_ends:
  assumes "\<And>i. mp_canceled (polls (Suc i)) \<or> mp_now (polls (Suc i)) \<ge> mp_now (polls i) + probeMarkerPoll" "mp_now (polls 0) \<ge> started"
  shows "\<exists>found. waitForProbeMarker polls started channel command = Some found \<and>
    (found \<longrightarrow> (\<exists>i < 152. markerSeen channel command (polls i)))"
proof -
  have looks: "(152 :: nat) = Suc 151" by simp
  have "mp_now (polls 0) + int 151 * probeMarkerPoll > started + probeMarkerWait"
    using assms(2) by (simp add: probeMarkerPoll_def probeMarkerWait_def)
  then have "waitForProbeMarker polls started channel command \<noteq> None"
    using markerLoop_ends[of polls 0 "started + probeMarkerWait" 151 channel command] assms(1)
    unfolding waitForProbeMarker_def looks by blast
  then show ?thesis using markerLoop_found[of 152 polls "started + probeMarkerWait" channel command 0]
    by (auto simp: waitForProbeMarker_def simp del: markerLoop.simps)
qed

theorem marker_wait_ends_witness:
  "\<exists>found. waitForProbeMarker (\<lambda>i. \<lparr>mp_states = Some [], mp_canceled = False, mp_now = int i * probeMarkerPoll\<rparr>) 0 7 ''c'' = Some found \<and> \<not> found"
proof -
  let ?polls = "\<lambda>i. \<lparr>mp_states = Some [], mp_canceled = False, mp_now = int i * probeMarkerPoll\<rparr>"
  have "mp_canceled (?polls (Suc i)) \<or> mp_now (?polls (Suc i)) \<ge> mp_now (?polls i) + probeMarkerPoll" for i by (simp add: algebra_simps)
  from marker_wait_ends[of ?polls 0 7 "''c''", OF this] show ?thesis by (auto simp: markerSeen_def)
qed

end
