(* ===== verification/Spec2Isabelle.thy ===== *)
theory Spec2Isabelle
  imports RoutineApply ScheduleProofs ScheduleProperties EvidenceStats Scheduler ProbeCoverageProofs ProbeRecordsProofs ArchiveProperties AccountProperties ControlProperties RecoveryProbe
begin

text \<open>
  Control Tower watches and steers a fleet of API relay sites.  An agent beside each site collects metrics
  and archives logs; the server stores what the agents report, evaluates every channel of a site, and changes
  weights and states of channels through the upstream API or through commands for the agent.  This library
  models the parts of the Go program that decide and change state, and proves what makes them correct.

  \<^bold>\<open>The parts and how they interact.\<close>
  The evaluation loop (\<open>server/internal/tuning/scheduler.go\<close>) picks sites; one evaluation of a site
  (\<open>engine.go\<close>, \<open>continuous_engine.go\<close>) reads policy, base values, metrics and stored states, plans a job
  per channel and runs the jobs in a worker pool.  A job folds the error memory, computes factors, asks the
  capacity tracker and the circuit machine, persists the new state and sends at most one command.  Fast reports
  (\<open>fast_circuit.go\<close>) and routine probes (\<open>routine_probe.go\<close>) feed the same state from outside the loop.  Weekly
  schedules (\<open>channelschedule\<close>) say when a channel may be open; their execution
  (\<open>directcontrol/channel_schedules.go\<close>, \<open>mysqlstore/channel_schedules.go\<close>) switches channels and fences the
  engine's decisions through the control revision of the state.  Every automatic write passes the gates of
  \<open>mysqlstore\<close> under the lock of its channel; an operator takes a channel over by raising that revision before the
  upstream is contacted, and collectors give it back when they see it enabled.  The archive scheduler of the agent
  (\<open>internal/archivepipeline\<close>) plans copying, organising and verifying days of logs.  Accounts, permissions and
  logins (\<open>server/internal/auth\<close>) guard the operator's side.

  \<^bold>\<open>Theories and sources.\<close>
  \<^item> \<open>Prelude\<close>, \<open>Strings\<close>, \<open>AssocMaps\<close>: Go base types, clock, \<open>math\<close>, \<open>strings\<close>, errors, early return,
    validation tables, decimal text, maps as association lists.
  \<^item> \<open>Policy\<close>: \<open>tuning/model.go\<close>, \<open>business_rules.go\<close>, \<open>probe_selection.go\<close> (parameters, defaults, validation).
  \<^item> \<open>State\<close>, \<open>Calls\<close>, \<open>StateInvariant\<close>: records of \<open>tuning/model.go\<close>; the stores as the record \<open>env\<close> of response
    functions over the whole trace of calls; filters on the calls an operation adds; the invariant of a stored state.
  \<^item> \<open>Factors\<close>, \<open>Writes\<close>, \<open>Capacity\<close>, \<open>Circuit\<close>, \<open>ErrorDecay\<close>: the arithmetic, the write bookkeeping,
    \<open>capacity_control.go\<close>, \<open>circuit_status.go\<close> with \<open>write_retry_limit.go\<close>, and the bucket loop of the error memory.
  \<^item> \<open>Engine\<close>: the closure of \<open>evaluateContinuous\<close>, stage by stage; \<open>EngineSafety\<close>, \<open>EngineInvariant\<close>,
    \<open>EngineControl\<close>, \<open>EngineEvidence\<close> prove what its stages keep and send.
  \<^item> \<open>Site\<close>, \<open>Scheduler\<close>, \<open>FastCircuit\<close>: sentinel and evaluation of a site, the site loop and worker pool as step
    relations, the fast report handler and its queue.
  \<^item> \<open>RoutineProbe\<close>, \<open>RoutineApply\<close>: probe worker, evidence, fault latch and supervisor.
  \<^item> \<open>ProbeStore\<close>, \<open>ProbeCoverage\<close>, \<open>ProbeCoverageProofs\<close>, \<open>ProbeRecords\<close>, \<open>ProbeRecordsProofs\<close>: buffers, flush
    protocol and upserts of \<open>probe_coverage.go\<close>, \<open>probe_records.go\<close> and their tables in \<open>mysqlstore\<close>.
  \<^item> \<open>LatencyHist\<close>, \<open>EvidenceStats\<close>: \<open>internal/latencyhist\<close>, \<open>speedstats\<close>, \<open>outputstats\<close>, \<open>cachemetrics\<close>.
  \<^item> \<open>ChannelSchedule\<close>, \<open>ScheduleProofs\<close>: \<open>channelschedule/model.go\<close>.
  \<^item> \<open>ControlTables\<close>, \<open>ScheduleStore\<close>, \<open>ChannelWrites\<close>, \<open>ScheduleApply\<close>: the tables of channel control and how a
    transaction can fail, \<open>mysqlstore/channel_schedules.go\<close>, the request journal of \<open>directcontrol/journal.go\<close>, and
    \<open>directcontrol/channel_schedules.go\<close>; \<open>ScheduleRun\<close>, \<open>ScheduleExecution\<close>, \<open>ScheduleResults\<close> prove what one application
    and a sequence of operations do to the executions, \<open>ScheduleExample\<close> and \<open>ScheduleProperties\<close> state the guarantees.
  \<^item> \<open>WriteGates\<close>, \<open>DirectWrites\<close>, \<open>ManualControl\<close>: the checks of \<open>mysqlstore/manual_channel.go\<close>, \<open>priority_sync.go\<close>,
    \<open>circuit_status.go\<close> and \<open>capacity_control.go\<close>; the direct write of \<open>directcontrol/store.go\<close> with its record and the
    save of a state in \<open>mysqlstore/tuning.go\<close>; manual control of a channel, and the channel directory with its
    ownership (\<open>circuit_ownership.go\<close>, \<open>store.go\<close>).  \<open>ControlFrames\<close>, \<open>ControlRun\<close> prove what each operation does to the
    generation of a channel, \<open>ControlSteps\<close> interleaves them all in a step relation, \<open>ControlExample\<close> and
    \<open>ControlProperties\<close> state the guarantees.
  \<^item> \<open>RecoveryProbe\<close>: a round of recovery probes on the server (\<open>channelcontrol/probe.go\<close>, \<open>directcontrol/store.go\<close>,
    \<open>probe_journal.go\<close>) and the settling of delivered commands (\<open>mysqlstore/command_store.go\<close>).
  \<^item> \<open>ArchivePipeline\<close>, \<open>ArchiveProofs\<close>, \<open>ArchiveRun\<close>, \<open>ArchiveProperties\<close>: \<open>internal/archivepipeline\<close> with the
    checks of \<open>internal/archivecontract\<close> it uses.
  \<^item> \<open>Permissions\<close>, \<open>LoginGuard\<close>, \<open>Accounts\<close>, \<open>Presets\<close>, \<open>AccountProofs\<close>, \<open>AccountProperties\<close>:
    \<open>server/internal/auth\<close> over the in-memory store of \<open>ingest\<close>.
  \<^item> \<open>Examples\<close>, \<open>ExampleJobs\<close>: concrete inputs of the witnesses.

  \<^bold>\<open>What the lemma groups show.\<close>
  The locales \<open>call_filter\<close>, \<open>put_any\<close> and \<open>any_call\<close> carry, for a class of calls, which stages stay inside it;
  their interpretations give the single command per evaluation, the silence outside automatic mode and the
  evidence before a circuit opens.  \<open>state_invariant\<close> carries a property of states through the helpers; it is
  interpreted on the invariants of running and of stored states.  \<open>evidence_merge\<close> and \<open>snapshot_table\<close> state what
  merging statistics and batched upserts promise; they are interpreted on the three statistics and the two probe
  tables.  \<open>control_operation\<close> states what an operation beside manual control may do to holds and revisions; it is
  interpreted on probe results, queued writes and collectors.  State machines (probe worker, site loop, pool, archive, accounts, executions of schedules, control of a channel) are step relations or
  functions folded over arbitrary sequences of operations, with their invariants by induction on the sequence.

  \<^bold>\<open>Bounds and fuel.\<close>
  Every modelled loop ends: structural recursion, or a measure given with the definition.  \<open>trimWith\<close> takes the
  length of its text as fuel, enough because a stripped rune has at least one byte; the search for a free
  user number in \<open>Accounts\<close> takes the number of users as fuel: that many consecutive numbers cannot all be taken
  and be followed by another taken one; the wait for the marker of a probe round looks at most 152 times, which lemma
  \<open>marker_wait_ends\<close> shows to be enough for 30 seconds in steps of 200 milliseconds.  Integers are
  unbounded, and the theorems on weights, counters, attempts and table sizes give the bounds that keep them
  far from the 64-bit limits; the FNV hash and the counters of the archive scheduler are 64-bit words.

  \<^bold>\<open>Not modelled.\<close>
  Floating point rounding (reals are used) and JSON decoding.  HTTP handlers, dashboards, rendering and
  exports (\<open>dashboard\<close>, \<open>httpapi\<close>, \<open>xlsxwriter\<close>, \<open>alblog\<close>, \<open>voicealert\<close>), which read and format data.  SQL
  queries other than the tables named above (\<open>mysqlstore\<close>, \<open>aggregator\<close>, \<open>archivereader\<close>): their meaning lies in the
  database engine.  Billing, whose decimal arithmetic rests on an exact-rational package and long SQL pipelines.
  The agent's collectors, log archive writers and container readers, which are file, socket and container I/O.
  The upstream API itself, which is an input of every definition that talks to it.
\<close>

section \<open>The channel job\<close>

text \<open>C1: one evaluation of a channel sends at most one command to the control interface (a weight
  change, a status change or a probe), whatever the stores answer, for every policy that validation
  accepts.\<close>

theorem single_command_per_evaluation:
  assumes "wfParams (jobParams j)"
  shows "length (controls (evaluateChannel E j w)) \<le> length (controls w) + 1"
  using evaluateChannel_one[OF assms, of E w] by (simp add: controlCount_def)

theorem single_command_per_evaluation_witness:
  "wfParams (jobParams (exampleJob ''auto'' None)) \<and>
   length (controls (evaluateChannel exampleEnv (exampleJob ''auto'' None) exampleWorld)) \<le> length (controls exampleWorld) + 1"
  using single_command_per_evaluation[of "exampleJob ''auto'' None"] wfParams_DefaultContinuous by simp

text \<open>C2: every state an evaluation persists satisfies the channel invariant (known phase, error rate
  and factor in range, consistent probe counters, an open circuit without a status intent has a next
  probe time, and the pending soft start, the probe command and the status intent exclude each other),
  provided the stored state satisfied it and the metric buckets report no more errors than requests.\<close>

theorem persisted_states_keep_invariant:
  assumes "wfParams (jobParams j)"
    and "goodEvidence E (j_recentBuckets j)"
    and "\<forall>s. j_stateByID j (jobChannel j) = Some s \<longrightarrow> wfStored s"
    and "PutContinuousState t \<in> set (trace (evaluateChannel E j w))"
  shows "PutContinuousState t \<in> set (trace w) \<or> wfState t"
  using adds_set[OF evaluateChannel_wf_adds[OF assms(1-3)] assms(4)] by simp

theorem persisted_states_keep_invariant_witness:
  "\<exists>t. PutContinuousState t \<in> set (trace (evaluateChannel exampleEnv mixedJob exampleWorld)) \<and> wfState t"
proof -
  have p: "wfParams (jobParams mixedJob)"
    using wfParams_DefaultContinuous example_params(1)[of "''auto''" None] by (simp add: mixedJob_def jobParams_def)
  have e: "goodEvidence exampleEnv (j_recentBuckets mixedJob)"
    using example_evidence by (simp add: mixedJob_def)
  have s: "\<forall>s. j_stateByID mixedJob (jobChannel mixedJob) = Some s \<longrightarrow> wfStored s"
    by (simp add: mixedJob_def exampleJob_def)
  obtain t where "PutContinuousState t \<in> set (trace (evaluateChannel exampleEnv mixedJob exampleWorld))"
    using mixed_put by blast
  then show ?thesis using persisted_states_keep_invariant[OF p e s, of t exampleWorld] by auto
qed

text \<open>C3: outside auto mode an evaluation never reaches the control interface.\<close>

theorem outside_auto_no_command:
  assumes "j_mode j \<noteq> ''auto''"
  shows "controls (evaluateChannel E j w) = controls w"
  by (rule evaluateChannel_controls) (rule emits_no_control[OF no_control_puts.evaluateBody_emits_manual[OF assms]])

theorem outside_auto_no_command_witness:
  "j_mode (exampleJob ''observe'' None) \<noteq> ''auto'' \<and>
   controls (evaluateChannel exampleEnv (exampleJob ''observe'' None) exampleWorld) = controls exampleWorld"
  using outside_auto_no_command[of "exampleJob ''observe'' None"] by simp

text \<open>C4: a channel in ordinary operation (phase normal, not owned by the circuit) opens its circuit only
  on evidence: every state an evaluation persists is either still normal, or an open circuit whose
  smoothed error rate reached the configured threshold with enough requests in the window; and no
  recovery probe is sent.\<close>

theorem circuit_opens_only_on_evidence:
  assumes "stateAt (j_stateByID j) (jobChannel j) = s" "s_Phase s = ''normal'' \<or> s_Phase s = []"
    and "s_CircuitStatusTarget s = 0" "\<not> s_CircuitDisabled s" "\<not> s_RoutineCircuitLatched s"
    and "c \<in> set (trace (evaluateChannel E j w))" "c \<notin> set (trace w)"
  shows "(c = PutContinuousState t \<longrightarrow> s_Phase t = ''normal'' \<or>
      s_Phase t = ''circuit'' \<and> j_mode j \<noteq> ''off'' \<and>
        m_RequestCount (jobMetric j) \<ge> p_MinSamples (jobParams j) \<and>
        s_SmoothedErrorRate t \<ge> p_CircuitErrorRate (jobParams j)) \<and>
    (c \<noteq> CreateContinuousProbe r m n i now)"
  using adds_set[OF evaluateChannel_calm[OF assms(1-5)] assms(6)] assms(7)
  by (auto simp: circuitEvidence_def)

theorem circuit_opens_only_on_evidence_witness:
  "\<exists>t. PutContinuousState t \<in> set (trace (evaluateChannel exampleEnv mixedJob exampleWorld)) \<and>
     (s_Phase t = ''normal'' \<or> s_Phase t = ''circuit'' \<and> s_SmoothedErrorRate t \<ge> p_CircuitErrorRate (jobParams mixedJob))"
proof -
  have s: "stateAt (j_stateByID mixedJob) (jobChannel mixedJob) = zeroContinuousState"
    by (simp add: mixedJob_def exampleJob_def stateAt_def)
  obtain t where t: "PutContinuousState t \<in> set (trace (evaluateChannel exampleEnv mixedJob exampleWorld))"
    using mixed_put by blast
  have "PutContinuousState t \<notin> set (trace exampleWorld)" by simp
  from circuit_opens_only_on_evidence[OF s _ _ _ _ t this] t show ?thesis
    by (auto simp: zeroContinuousState_def)
qed

text \<open>Once the write attempts of a channel are exhausted and no command is in flight, an evaluation
  sends no command at all: the failed task is retired first.\<close>

theorem exhausted_writes_send_nothing:
  assumes "exhausted (jobParams j) (stateAt (j_stateByID j) (jobChannel j))"
  shows "controls (evaluateChannel E j w) = controls w"
  by (rule evaluateChannel_controls) (rule emits_no_control[OF evaluateBody_exhausted[OF assms]])

theorem exhausted_writes_send_nothing_witness:
  "controls (evaluateChannel exampleEnv
      (exampleJob ''auto'' (Some (zeroContinuousState\<lparr>s_WriteFailureStreak := 100\<rparr>))) exampleWorld) = []"
proof -
  let ?j = "exampleJob ''auto'' (Some (zeroContinuousState\<lparr>s_WriteFailureStreak := 100\<rparr>))"
  note r = Rules_Default
  have "exhausted (jobParams ?j) (stateAt (j_stateByID ?j) (jobChannel ?j))"
    by (simp add: exhausted_def stateAt_def r DefaultContinuousRules_def zeroContinuousState_def zeroCapacityControl_def)
  from exhausted_writes_send_nothing[OF this, of exampleEnv exampleWorld] show ?thesis
    by (simp add: controls_def)
qed

text \<open>Decisions are serialised per channel.  After an evaluation of a channel that was not skipped,
  a second evaluation planned from a snapshot taken before the first one finds a newer guard version and
  does nothing, so no decision is taken twice from one snapshot.\<close>

theorem snapshot_decided_once:
  assumes "j_site k = j_site j" "jobChannel k = jobChannel j"
    and "j_snapshotVersion k \<le> version w" "\<not> (guards w (j_site j, jobChannel j) > j_snapshotVersion j \<or> ctxErr E (trace w))"
  shows "evaluateChannel E' k (evaluateChannel E j w) = evaluateChannel E j w"
proof -
  have "version w < guards (evaluateChannel E j w) (j_site j, jobChannel j)"
    using evaluateChannel_version[OF assms(4)] by simp
  then show ?thesis using assms(1-3) by (simp add: evaluateChannel_def[of E' k])
qed

theorem snapshot_decided_once_witness:
  "evaluateChannel exampleEnv (exampleJob ''auto'' None) (evaluateChannel exampleEnv (exampleJob ''auto'' None) exampleWorld) =
   evaluateChannel exampleEnv (exampleJob ''auto'' None) exampleWorld"
  by (rule snapshot_decided_once) simp_all

text \<open>the smoothed error rate stays in the unit interval and the reliability factor in (0, 1],
  through the migration of old states and every pass, whichever way the buckets are read.\<close>

theorem decay_keeps_ranges:
  assumes "wfParams p" "rateOk s" "goodEvidence E rb"
    and "foldErrorDecayWithBuckets E site ch now rb p s w = (n, s', w')"
  shows "(0 \<le> s_SmoothedErrorRate s') \<and>
    (s_SmoothedErrorRate s' \<le> 1) \<and>
    (0 < s_KError s') \<and>
    (s_KError s' \<le> 1)"
  using foldErrorDecay_ok(1)[OF assms(1-3), of site ch now w "fst n" "snd n" s' w'] assms(4) by (simp add: rateOk_def)

theorem decay_keeps_ranges_witness:
  "let s = fst (snd (foldErrorDecayWithBuckets exampleEnv ''site'' 7 70000000000000000000 None DefaultContinuous (zeroContinuousState\<lparr>s_KError := 1\<rparr>) exampleWorld))
   in 0 \<le> s_SmoothedErrorRate s \<and> s_SmoothedErrorRate s \<le> 1"
proof -
  obtain n s w where f: "foldErrorDecayWithBuckets exampleEnv ''site'' 7 70000000000000000000 None DefaultContinuous (zeroContinuousState\<lparr>s_KError := 1\<rparr>) exampleWorld = (n, s, w)"
    by (metis prod.exhaust)
  have "rateOk (zeroContinuousState\<lparr>s_KError := 1\<rparr>)" by (simp add: rateOk_def zeroContinuousState_def)
  from decay_keeps_ranges[OF wfParams_DefaultContinuous this example_evidence f] show ?thesis by (simp add: f Let_def)
qed

end
